(* ===== verification/Runtime_Prelude.thy ===== *)
theory Runtime_Prelude
  imports Complex_Main "HOL-Library.Char_ord" "HOL-Library.List_Lexorder"
begin

text \<open>
  Shared vocabulary of the development.

  \<^item> Results: an operation of the services either raises (\<open>Inl\<close>) or returns (\<open>Inr\<close>);
    \<open>res_bind\<close> sequences two operations and \<open>ensure\<close> is the guard
    \<open>if not b: raise e\<close>. The collection \<open>res_simps\<close> holds their inversion rules.
  \<^item> Tables: a database table is the list of its rows in insertion (primary key) order.
    \<open>sel_one\<close> is \<open>session.scalar(select(T).where(p))\<close>, \<open>upd_where\<close> is
    \<open>update(T).where(p).values(...)\<close>, \<open>rowcount\<close> its number of rows, \<open>del_where\<close> is
    \<open>delete(T).where(p)\<close>.
  \<^item> JSON columns: the values a Python \<open>dict[str, Any]\<close> column holds.
  \<^item> Time: a \<open>datetime\<close> is the number of microseconds since the epoch (UTC), so that
    \<open>timedelta(seconds=n)\<close> is \<open>seconds n\<close>.
\<close>

named_theorems res_simps \<open>inversion rules for results\<close>
named_theorems table_simps \<open>lookup and update rules for tables\<close>

section \<open>Results\<close>

definition res_bind :: "'e + 'a \<Rightarrow> ('a \<Rightarrow> 'e + 'b) \<Rightarrow> 'e + 'b" where
  "res_bind m f = (case m of Inl e \<Rightarrow> Inl e | Inr x \<Rightarrow> f x)"

definition ensure :: "bool \<Rightarrow> 'e \<Rightarrow> 'e + unit" where
  "ensure b e = (if b then Inr () else Inl e)"

lemma res_bind_Inl [simp]: "res_bind (Inl e) f = Inl e"
  by (simp add: res_bind_def)

lemma res_bind_Inr [simp]: "res_bind (Inr x) f = f x"
  by (simp add: res_bind_def)

lemma ensure_True [simp]: "ensure True e = Inr ()"
  by (simp add: ensure_def)

lemma ensure_False [simp]: "ensure False e = Inl e"
  by (simp add: ensure_def)

lemma res_bind_eq_Inr [res_simps]:
  "res_bind m f = Inr y \<longleftrightarrow> (\<exists>x. m = Inr x \<and> f x = Inr y)"
  by (cases m) auto

lemma res_bind_eq_Inl [res_simps]:
  "res_bind m f = Inl e \<longleftrightarrow> m = Inl e \<or> (\<exists>x. m = Inr x \<and> f x = Inl e)"
  by (cases m) auto

lemma ensure_eq_Inr [res_simps]: "ensure b e = Inr u \<longleftrightarrow> b"
  by (cases b) auto

lemma ensure_eq_Inl [res_simps]: "ensure b e = Inl e' \<longleftrightarrow> \<not> b \<and> e' = e"
  by (cases b) auto

section \<open>Tables\<close>

definition sel_one :: "('a \<Rightarrow> bool) \<Rightarrow> 'a list \<Rightarrow> 'a option" where
  "sel_one p xs = find p xs"

definition upd_where :: "('a \<Rightarrow> bool) \<Rightarrow> ('a \<Rightarrow> 'a) \<Rightarrow> 'a list \<Rightarrow> 'a list" where
  "upd_where p f xs = map (\<lambda>x. if p x then f x else x) xs"

definition rowcount :: "('a \<Rightarrow> bool) \<Rightarrow> 'a list \<Rightarrow> nat" where
  "rowcount p xs = length (filter p xs)"

definition del_where :: "('a \<Rightarrow> bool) \<Rightarrow> 'a list \<Rightarrow> 'a list" where
  "del_where p xs = filter (\<lambda>x. \<not> p x) xs"

lemma sel_one_Nil [simp]: "sel_one p [] = None"
  by (simp add: sel_one_def)

lemma sel_one_Cons [simp]: "sel_one p (x # xs) = (if p x then Some x else sel_one p xs)"
  by (simp add: sel_one_def)

lemma sel_one_append [table_simps]:
  "sel_one p (xs @ ys) = (case sel_one p xs of None \<Rightarrow> sel_one p ys | Some x \<Rightarrow> Some x)"
  by (induction xs) auto

lemma sel_one_None_iff [table_simps]: "sel_one p xs = None \<longleftrightarrow> (\<forall>x\<in>set xs. \<not> p x)"
  by (induction xs) auto

lemma sel_one_SomeD: "sel_one p xs = Some x \<Longrightarrow> x \<in> set xs \<and> p x"
  by (induction xs) (auto split: if_splits)

lemma upd_where_Nil [simp]: "upd_where p f [] = []"
  by (simp add: upd_where_def)

lemma upd_where_Cons [simp]:
  "upd_where p f (x # xs) = (if p x then f x else x) # upd_where p f xs"
  by (simp add: upd_where_def)

lemma upd_where_append [simp]: "upd_where p f (xs @ ys) = upd_where p f xs @ upd_where p f ys"
  by (simp add: upd_where_def)

lemma length_upd_where [simp]: "length (upd_where p f xs) = length xs"
  by (simp add: upd_where_def)

lemma set_upd_where: "set (upd_where p f xs) = (\<lambda>x. if p x then f x else x) ` set xs"
  by (simp add: upd_where_def)

lemma upd_where_no_match: "(\<And>x. x \<in> set xs \<Longrightarrow> \<not> p x) \<Longrightarrow> upd_where p f xs = xs"
  by (induction xs) auto

lemma map_upd_where_cong: "(\<And>x. g (f x) = g x) \<Longrightarrow> map g (upd_where p f xs) = map g xs"
  by (induction xs) auto

lemma filter_upd_where:
  "(\<And>x. p (f x) = p x) \<Longrightarrow> filter (\<lambda>x. \<not> p x) (upd_where p f xs) = filter (\<lambda>x. \<not> p x) xs"
  by (induction xs) auto

lemma upd_where_mem:
  assumes "x \<in> set (upd_where p f xs)" "p x" "\<And>y. p (f y) = p y"
  shows "\<exists>y\<in>set xs. x = f y"
  using assms by (auto simp: set_upd_where split: if_splits)

text \<open>Looking a row up by its key after an update that keeps the keys.\<close>

lemma sel_key_upd_where [table_simps]:
  assumes "\<And>x. key (f x) = key x"
  shows "sel_one (\<lambda>x. key x = k) (upd_where p f xs) =
    map_option (\<lambda>x. if p x then f x else x) (sel_one (\<lambda>x. key x = k) xs)"
  using assms by (induction xs) auto

lemma distinct_key_inj:
  "distinct (map key xs) \<Longrightarrow> x \<in> set xs \<Longrightarrow> y \<in> set xs \<Longrightarrow> key x = key y \<Longrightarrow> x = y"
  by (metis distinct_map inj_onD)

lemma sel_key_mem:
  "distinct (map key xs) \<Longrightarrow> x \<in> set xs \<Longrightarrow> sel_one (\<lambda>y. key y = key x) xs = Some x"
  by (induction xs) (auto simp: image_iff)

lemma sel_key_iff:
  "distinct (map key xs) \<Longrightarrow>
    sel_one (\<lambda>y. key y = k) xs = Some x \<longleftrightarrow> x \<in> set xs \<and> key x = k"
  by (auto dest: sel_one_SomeD simp: sel_key_mem)

text \<open>A conditional update on a unique key touches the one row that is looked up, or none.\<close>

lemma rowcount_key:
  assumes "distinct (map key xs)"
  shows "rowcount (\<lambda>x. key x = k \<and> p x) xs =
    (case sel_one (\<lambda>x. key x = k) xs of None \<Rightarrow> 0 | Some x \<Rightarrow> if p x then 1 else 0)"
  using assms
proof (induction xs)
  case Nil
  then show ?case by (simp add: rowcount_def)
next
  case (Cons a xs)
  show ?case
  proof (cases "key a = k")
    case True
    with Cons.prems have "filter (\<lambda>x. key x = k \<and> p x) xs = []"
      by (auto simp: filter_empty_conv image_iff)
    with True show ?thesis by (simp add: rowcount_def)
  next
    case False
    with Cons show ?thesis by (simp add: rowcount_def)
  qed
qed

lemma rowcount_key_1:
  "distinct (map key xs) \<Longrightarrow>
    rowcount (\<lambda>x. key x = k \<and> p x) xs = 1 \<longleftrightarrow>
    (\<exists>x. sel_one (\<lambda>x. key x = k) xs = Some x \<and> p x)"
  by (simp add: rowcount_key split: option.splits)

lemma upd_where_key_cond:
  assumes "distinct (map key xs)" "sel_one (\<lambda>x. key x = k) xs = Some r" "p r"
  shows "upd_where (\<lambda>x. key x = k \<and> p x) f xs = upd_where (\<lambda>x. key x = k) f xs"
  using assms
proof (induction xs)
  case Nil
  then show ?case by simp
next
  case (Cons a xs)
  show ?case
  proof (cases "key a = k")
    case True
    with Cons.prems show ?thesis
      by (auto intro!: map_cong simp: upd_where_def image_iff)
  next
    case False
    with Cons show ?thesis by simp
  qed
qed

text \<open>How the number of rows with a property moves when one keyed row is replaced.\<close>

lemma rowcount_replace:
  assumes "distinct (map key xs)" "sel_one (\<lambda>x. key x = k) xs = Some r"
  shows "rowcount P (upd_where (\<lambda>x. key x = k) f xs) + of_bool (P r) =
    rowcount P xs + of_bool (P (f r))"
  using assms
proof (induction xs)
  case Nil
  then show ?case by simp
next
  case (Cons a xs)
  show ?case
  proof (cases "key a = k")
    case True
    with Cons.prems have "upd_where (\<lambda>x. key x = k) f xs = xs"
      by (auto intro!: upd_where_no_match simp: image_iff)
    with True Cons.prems show ?thesis by (simp add: rowcount_def)
  next
    case False
    with Cons show ?thesis by (simp add: rowcount_def)
  qed
qed

lemma rowcount_append: "rowcount P (xs @ ys) = rowcount P xs + rowcount P ys"
  by (simp add: rowcount_def)

lemma rowcount_Cons: "rowcount P (x # xs) = of_bool (P x) + rowcount P xs"
  by (simp add: rowcount_def)

lemma rowcount_Nil [simp]: "rowcount P [] = 0"
  by (simp add: rowcount_def)

lemma rowcount_pos: "x \<in> set xs \<Longrightarrow> P x \<Longrightarrow> 0 < rowcount P xs"
  by (auto simp: rowcount_def filter_empty_conv)

section \<open>JSON columns\<close>

text \<open>
  A Python float is finite or one of the three special values; the finite ones are taken
  exactly (rationals), without the rounding of IEEE arithmetic.
\<close>

datatype pyfloat = Fin rat | PInf | NInf | NaN

datatype json =
    JNull
  | JBool bool
  | JInt int
  | JFloat pyfloat
  | JStr string
  | JList "json list"
  | JObj "(string \<times> json) list"

type_synonym dict = "(string \<times> json) list"

definition dget :: "dict \<Rightarrow> string \<Rightarrow> json" where
  "dget d k = (case map_of d k of None \<Rightarrow> JNull | Some v \<Rightarrow> v)"

definition dget_default :: "dict \<Rightarrow> string \<Rightarrow> json \<Rightarrow> json" where
  "dget_default d k v0 = (case map_of d k of None \<Rightarrow> v0 | Some v \<Rightarrow> v)"

definition has_key :: "dict \<Rightarrow> string \<Rightarrow> bool" where
  "has_key d k = (map_of d k \<noteq> None)"

text \<open>\<open>value.get(k)\<close> where \<open>value\<close> was checked to be a mapping, and \<open>None\<close> otherwise.\<close>

fun jget :: "json \<Rightarrow> string \<Rightarrow> json" where
  "jget (JObj d) k = dget d k"
| "jget _ k = JNull"

fun is_str :: "json \<Rightarrow> bool" where
  "is_str (JStr _) = True"
| "is_str _ = False"

fun is_obj :: "json \<Rightarrow> bool" where
  "is_obj (JObj _) = True"
| "is_obj _ = False"

text \<open>\<open>bool(value)\<close>.\<close>

fun truthy :: "json \<Rightarrow> bool" where
  "truthy JNull = False"
| "truthy (JBool b) = b"
| "truthy (JInt i) = (i \<noteq> 0)"
| "truthy (JFloat f) = (f \<noteq> Fin 0)"
| "truthy (JStr x) = (x \<noteq> '''')"
| "truthy (JList xs) = (xs \<noteq> [])"
| "truthy (JObj d) = (d \<noteq> [])"

text \<open>The non-boolean integers among the JSON values (\<open>bool\<close> is a subclass of \<open>int\<close>).\<close>

fun as_int :: "json \<Rightarrow> int option" where
  "as_int (JInt i) = Some i"
| "as_int _ = None"

text \<open>\<open>int(x)\<close> of a float rounds towards zero.\<close>

definition py_int :: "rat \<Rightarrow> int" where
  "py_int q = (if 0 \<le> q then \<lfloor>q\<rfloor> else \<lceil>q\<rceil>)"

section \<open>Time and identifiers\<close>

type_synonym time = int

definition seconds :: "int \<Rightarrow> time" where
  "seconds n = n * 1000000"

abbreviation minutes :: "int \<Rightarrow> time" where
  "minutes n \<equiv> seconds (60 * n)"

abbreviation days :: "int \<Rightarrow> time" where
  "days n \<equiv> seconds (86400 * n)"

lemma seconds_mono [simp]: "seconds a \<le> seconds b \<longleftrightarrow> a \<le> b"
  by (simp add: seconds_def)

lemma seconds_pos [simp]: "0 < seconds a \<longleftrightarrow> 0 < a"
  by (simp add: seconds_def)

text \<open>
  \<open>uuid4()\<close> is a supply of identifiers that never repeats: the decimal numeral of a
  counter kept in the database state.
\<close>

fun numeral_string :: "nat \<Rightarrow> string" where
  "numeral_string n =
     (if n < 10 then [char_of (48 + n)] else numeral_string (n div 10) @ [char_of (48 + n mod 10)])"

declare numeral_string.simps [simp del]

definition numeral_value :: "string \<Rightarrow> nat" where
  "numeral_value s = foldl (\<lambda>v c. 10 * v + (of_char c - 48)) 0 s"

lemma of_char_digit: "n < 10 \<Longrightarrow> (of_char (char_of (48 + n :: nat)) :: nat) = 48 + n"
  by simp

lemma numeral_value_string: "numeral_value (numeral_string n) = n"
proof (induction n rule: numeral_string.induct)
  case (1 n)
  show ?case
  proof (cases "n < 10")
    case True
    then show ?thesis
      by (simp add: numeral_string.simps [of n] numeral_value_def of_char_digit del: of_char_of)
  next
    case False
    with 1 have "numeral_value (numeral_string (n div 10)) = n div 10" by simp
    then have "numeral_value (numeral_string n) = 10 * (n div 10) + n mod 10"
      using False of_char_digit [of "n mod 10"]
      by (simp add: numeral_string.simps [of n] numeral_value_def del: of_char_of)
    then show ?thesis by simp
  qed
qed

lemma numeral_string_inj [simp]: "numeral_string m = numeral_string n \<longleftrightarrow> m = n"
  by (metis numeral_value_string)

lemma numeral_string_nonempty [simp]: "numeral_string n \<noteq> []"
  by (subst numeral_string.simps) simp

end
