(* ===== verification/Runtime_Model.thy ===== *)
theory Runtime_Model
  imports Runtime_Prelude
begin

text \<open>
  The authoritative tables of the Runtime (\<open>app/models/runtime.py\<close>) and the enumerations
  of the frozen contract (\<open>app/contracts/api.py\<close>), each row class as a record whose fields
  are its columns, and the database as the record of all tables. The \<open>created_at\<close> /
  \<open>updated_at\<close> audit columns that the database server fills in (\<open>TimestampMixin\<close>), the
  columns no code of the runtime ever writes (\<open>error_message\<close>, \<open>dependencies_json\<close>) and the
  surrogate integer keys are not fields: rows are kept in insertion order, which is the
  order of the surrogate key. Well-formedness of the database (the unique constraints and
  the freshness of the identifier supply) is \<open>wf_db\<close>.
\<close>

section \<open>Enumerations\<close>

datatype run_status =
    Pending | Planning | Running | Evaluating | WaitingHuman
  | Succeeded | Partial | Failed | Cancelled

datatype dispatch_state = Held | Queued | Claimed | Finished

datatype privacy_state = PrivacyActive | PurgeRequested | Purged

datatype start_mode = StartHeld | StartAuto

datatype callback_event_type =
    RunStarted | StepChanged | WaitingHumanEvent | PartialSucceeded
  | RunSucceeded | RunFailed | RunCancelled

fun status_string :: "run_status \<Rightarrow> string" where
  "status_string Pending = ''pending''"
| "status_string Planning = ''planning''"
| "status_string Running = ''running''"
| "status_string Evaluating = ''evaluating''"
| "status_string WaitingHuman = ''waiting_human''"
| "status_string Succeeded = ''succeeded''"
| "status_string Partial = ''partial''"
| "status_string Failed = ''failed''"
| "status_string Cancelled = ''cancelled''"

fun dispatch_string :: "dispatch_state \<Rightarrow> string" where
  "dispatch_string Held = ''held''"
| "dispatch_string Queued = ''queued''"
| "dispatch_string Claimed = ''claimed''"
| "dispatch_string Finished = ''finished''"

fun event_string :: "callback_event_type \<Rightarrow> string" where
  "event_string RunStarted = ''run_started''"
| "event_string StepChanged = ''step_changed''"
| "event_string WaitingHumanEvent = ''waiting_human''"
| "event_string PartialSucceeded = ''partial_succeeded''"
| "event_string RunSucceeded = ''run_succeeded''"
| "event_string RunFailed = ''run_failed''"
| "event_string RunCancelled = ''run_cancelled''"

definition terminal_states :: "run_status list" where
  "terminal_states = [Succeeded, Partial, Failed, Cancelled]"

section \<open>Errors\<close>

text \<open>One constructor per \<open>raise AgentRunServiceError\<close> site of \<open>agent_run_service.py\<close>.\<close>

datatype run_error =
    PackageUnavailable | InputSchemaConfig | InputSchemaInvalid | BusinessTypeNotAllowed
  | AuthorizationVersionInvalid | RunNotFound | AuthorizationChanged | StatusVersionConflict
  | PackageNotExecutable | PackageDigestMismatch | RunCancelledOrPurging | StartNotAllowed
  | HeldExpired | PurgeNotRequested | RetryNotAllowed | RetryWhilePurging | RetryNoCheckpoint
  | PartialNoPlan | PartialNotRetryable | AutoRetryExhausted | ApprovalConflict

text \<open>The exceptions that leave the services; a raise rolls the session back.\<close>

datatype runtime_error =
    AdmissionRejected
  | AgentRunServiceError run_error
  | StaticPlanValidationError
  | PackagePolicyInvalid
  | IdempotencyConflict
  | CheckpointError string
  | ArtifactError string
  | ValueError string
  | TypeError
  | IntegrityError
  | AssertionError
  | AuthorizationError
  | ConnectorValidationError

section \<open>Tables\<close>

record agent_definition =
  d_agent_id :: string
  d_version :: string
  d_definition_json :: dict
  d_package_digest :: string
  d_contract_version :: string
  runtime_type :: string
  d_status :: string
  status_changed_at :: "time option"
  status_changed_by :: "string option"
  status_change_reason :: "string option"
  revoked_at :: "time option"
  revocation_reason :: "string option"

record agent_run =
  run_id :: string
  agent_id :: string
  agent_version :: string
  package_digest :: string
  contract_version :: string
  business_type :: string
  business_id :: string
  status :: run_status
  dispatch_state :: dispatch_state
  input_json :: dict
  capability_snapshot_json :: json
  authorization_version :: int
  output_summary_json :: json
  error_code :: "string option"
  caller_id :: string
  tenant_id :: string
  create_idempotency_key :: string
  callback_target_id :: string
  business_connector_id :: string
  trace_id :: string
  manual_retry_count :: int
  auto_retry_count :: int
  status_version :: int
  last_event_seq :: int
  execution_attempt :: int
  lease_owner :: "string option"
  lease_expires_at :: "time option"
  fencing_token :: int
  cancel_requested_at :: "time option"
  privacy_state :: privacy_state
  privacy_version :: int
  privacy_purge_requested_at :: "time option"
  private_data_purged_at :: "time option"
  held_expires_at :: "time option"
  queued_at :: "time option"
  claimed_at :: "time option"
  active_elapsed_ms :: int
  run_deadline_at :: time
  waiting_expires_at :: "time option"
  started_at :: "time option"
  finished_at :: "time option"

record admission_bucket =
  scope_type :: string
  scope_key :: string
  held_count :: int
  queued_count :: int
  running_count :: int
  b_version :: int

record reconciliation_lease =
  lease_key :: string
  owner_id :: string
  rl_expires_at :: time
  rl_fencing_token :: int

record agent_plan =
  plan_id :: string
  p_run_id :: string
  strategy :: string
  steps_json :: "json list"
  stop_conditions_json :: dict
  fallback_policy_json :: dict
  p_status :: string

record agent_step =
  step_id :: string
  s_run_id :: string
  step_name :: string
  step_type :: string
  s_status :: string
  s_execution_attempt :: int
  step_attempt :: int
  s_input_summary :: json
  s_output_summary :: json
  s_error_code :: "string option"
  s_started_at :: "time option"
  s_finished_at :: "time option"

record agent_tool_call =
  tool_call_id :: string
  t_run_id :: string
  t_step_id :: string
  tool_name :: string
  tool_version :: "string option"
  transport :: string
  side_effect :: bool
  t_idempotency_key :: "string option"
  logical_operation_key :: "string option"
  request_digest :: "string option"
  t_execution_attempt :: int
  tool_attempt :: int
  t_input_summary :: json
  t_output_summary :: json
  t_status :: string
  duration_ms :: "int option"
  t_error_code :: "string option"
  t_created_at :: time
  t_retention_until :: time

record agent_checkpoint =
  checkpoint_id :: string
  c_run_id :: string
  checkpoint_key :: string
  state_schema_version :: string
  data_classification :: string
  c_privacy_version :: int
  encrypted_state_blob :: "string option"
  storage_ref :: "string option"
  state_summary :: dict
  c_content_digest :: string
  c_expires_at :: time
  c_created_at :: time

record agent_artifact =
  artifact_id :: string
  a_run_id :: string
  artifact_type :: string
  a_schema_version :: string
  a_content_digest :: string
  summary_json :: json
  business_resource_ref :: string

record agent_model_usage =
  usage_id :: string
  u_run_id :: string
  u_step_id :: string
  u_execution_attempt :: int
  model_attempt :: int
  u_status :: string
  permit_id :: "string option"
  provider_request_id :: "string option"
  u_capability_snapshot_json :: json
  thinking_summary_json :: json
  prompt_id :: "string option"
  prompt_version :: "string option"
  provider :: "string option"
  u_model :: "string option"
  pricing_config_version :: "string option"
  cost_unit :: "string option"
  reserved_estimated_cost :: "pyfloat option"
  reserved_tokens :: "int option"
  estimated_cost :: "pyfloat option"
  input_tokens :: "int option"
  output_tokens :: "int option"
  image_count :: "int option"
  request_deadline_at :: "time option"

record callback_event =
  event_id :: string
  e_run_id :: string
  event_seq :: int
  e_status_version :: int
  e_event_type :: callback_event_type
  e_payload_json :: dict
  e_created_at :: time

record outbox_event =
  outbox_id :: string
  o_event_type :: string
  aggregate_type :: string
  aggregate_id :: string
  o_payload_json :: dict
  o_status :: string
  attempt_count :: int
  next_attempt_at :: "time option"
  o_lease_owner :: "string option"
  o_lease_expires_at :: "time option"
  last_error_code :: "string option"
  delivered_at :: "time option"
  retention_until :: time

record idempotency_record =
  client_id :: string
  idempotency_key :: string
  i_scope :: string
  request_hash :: string
  response_json :: json
  resource_type :: "string option"
  resource_id :: "string option"
  i_expires_at :: time

record audit_record =
  audit_id :: string
  actor_type :: string
  actor_id :: string
  action :: string
  au_resource_type :: string
  au_resource_id :: string
  reason_code :: "string option"
  outcome :: string
  au_trace_id :: "string option"
  metadata_summary :: "(string \<times> string) list"
  occurred_at :: time

section \<open>The database\<close>

record db =
  definitions :: "agent_definition list"
  runs :: "agent_run list"
  buckets :: "admission_bucket list"
  leases :: "reconciliation_lease list"
  plans :: "agent_plan list"
  steps :: "agent_step list"
  tool_calls :: "agent_tool_call list"
  checkpoints :: "agent_checkpoint list"
  artifacts :: "agent_artifact list"
  usages :: "agent_model_usage list"
  callbacks :: "callback_event list"
  outbox :: "outbox_event list"
  idempotency :: "idempotency_record list"
  audits :: "audit_record list"
  uuid_counter :: nat

definition empty_db :: db where
  "empty_db = \<lparr>definitions = [], runs = [], buckets = [], leases = [], plans = [], steps = [],
     tool_calls = [], checkpoints = [], artifacts = [], usages = [], callbacks = [], outbox = [],
     idempotency = [], audits = [], uuid_counter = 0\<rparr>"

definition uuid4 :: "db \<Rightarrow> string \<times> db" where
  "uuid4 s = (numeral_string (uuid_counter s), s\<lparr>uuid_counter := Suc (uuid_counter s)\<rparr>)"

definition find_run :: "db \<Rightarrow> string \<Rightarrow> agent_run option" where
  "find_run s rid = sel_one (\<lambda>r. run_id r = rid) (runs s)"

definition set_run :: "string \<Rightarrow> (agent_run \<Rightarrow> agent_run) \<Rightarrow> db \<Rightarrow> db" where
  "set_run rid f s = s\<lparr>runs := upd_where (\<lambda>r. run_id r = rid) f (runs s)\<rparr>"

definition find_definition :: "db \<Rightarrow> string \<Rightarrow> string \<Rightarrow> agent_definition option" where
  "find_definition s aid ver =
     sel_one (\<lambda>d. d_agent_id d = aid \<and> d_version d = ver) (definitions s)"

definition find_plan :: "db \<Rightarrow> string \<Rightarrow> agent_plan option" where
  "find_plan s rid = sel_one (\<lambda>p. p_run_id p = rid) (plans s)"

text \<open>
  The frozen identity predicate shared by the write gate, the reaper, the control plane, the
  executor and the reconciler.
\<close>

definition package_executable :: "db \<Rightarrow> agent_run \<Rightarrow> bool" where
  "package_executable s r =
     (case find_definition s (agent_id r) (agent_version r) of
        None \<Rightarrow> False
      | Some d \<Rightarrow> d_status d = ''active'' \<and> d_package_digest d = package_digest r)"

text \<open>
  The conditional \<open>UPDATE agent_runs ... WHERE run_id = rid AND c\<close> that every transition of
  the ledger is guarded by: \<open>Some\<close> the written database when its rowcount is one, \<open>None\<close> (and
  nothing written) otherwise.
\<close>

definition update_run ::
  "string \<Rightarrow> (agent_run \<Rightarrow> bool) \<Rightarrow> (agent_run \<Rightarrow> agent_run) \<Rightarrow> db \<Rightarrow> db option" where
  "update_run rid c f s =
     (if rowcount (\<lambda>r. run_id r = rid \<and> c r) (runs s) = 1
      then Some (s\<lparr>runs := upd_where (\<lambda>r. run_id r = rid \<and> c r) f (runs s)\<rparr>) else None)"

text \<open>Well-formedness: the unique key of the run ledger and identifiers not yet handed out.\<close>

definition wf_db :: "db \<Rightarrow> bool" where
  "wf_db s \<longleftrightarrow> distinct (map run_id (runs s)) \<and>
     (\<forall>r\<in>set (runs s). \<exists>n < uuid_counter s. run_id r = numeral_string n)"

section \<open>Lookups after writes\<close>

lemma find_run_set_run [table_simps]:
  "(\<And>r. run_id (f r) = run_id r) \<Longrightarrow>
    find_run (set_run rid f s) rid' =
      map_option (\<lambda>r. if run_id r = rid then f r else r) (find_run s rid')"
  by (simp add: find_run_def set_run_def sel_key_upd_where)

lemma find_run_SomeD: "find_run s rid = Some r \<Longrightarrow> r \<in> set (runs s) \<and> run_id r = rid"
  by (auto simp: find_run_def dest: sel_one_SomeD)

lemma find_run_id: "find_run s rid = Some r \<Longrightarrow> run_id r = rid"
  by (blast dest: find_run_SomeD)

lemma find_run_iff:
  "wf_db s \<Longrightarrow> find_run s rid = Some r \<longleftrightarrow> r \<in> set (runs s) \<and> run_id r = rid"
  by (simp add: find_run_def wf_db_def sel_key_iff)

lemma wf_db_set_run:
  "wf_db s \<Longrightarrow> (\<And>r. run_id (f r) = run_id r) \<Longrightarrow> wf_db (set_run rid f s)"
  by (auto simp: wf_db_def set_run_def map_upd_where_cong set_upd_where)

lemma set_run_cong:
  assumes "wf_db s" "find_run s rid = Some r" "f r = g r"
  shows "set_run rid f s = set_run rid g s"
proof -
  have "x = r" if "x \<in> set (runs s)" "run_id x = rid" for x
    using find_run_iff [OF assms(1), of rid x] that assms(2) by simp
  then have "upd_where (\<lambda>r. run_id r = rid) f (runs s) = upd_where (\<lambda>r. run_id r = rid) g (runs s)"
    unfolding upd_where_def by (intro map_cong) (use assms(3) in auto)
  then show ?thesis by (simp add: set_run_def)
qed

lemma set_run_simps [simp]:
  "definitions (set_run rid f s) = definitions s"
  "buckets (set_run rid f s) = buckets s"
  "plans (set_run rid f s) = plans s"
  "callbacks (set_run rid f s) = callbacks s"
  "outbox (set_run rid f s) = outbox s"
  "audits (set_run rid f s) = audits s"
  "uuid_counter (set_run rid f s) = uuid_counter s"
  "runs (set_run rid f s) = upd_where (\<lambda>r. run_id r = rid) f (runs s)"
  by (simp_all add: set_run_def)

lemma update_run_Some_iff:
  assumes "wf_db s"
  shows "update_run rid c f s = Some s' \<longleftrightarrow>
    (\<exists>r. find_run s rid = Some r \<and> c r \<and> s' = set_run rid f s)"
proof -
  have d: "distinct (map run_id (runs s))" using assms by (simp add: wf_db_def)
  show ?thesis
    using rowcount_key_1 [OF d, of rid c] upd_where_key_cond [OF d, of rid _ c f]
    by (auto simp: update_run_def find_run_def set_run_def)
qed

lemma update_run_SomeE:
  assumes "update_run rid c f s = Some s'" "wf_db s"
  obtains r where "find_run s rid = Some r" "c r" "s' = set_run rid f s"
  using assms update_run_Some_iff by blast

lemma update_run_None_iff:
  assumes "wf_db s"
  shows "update_run rid c f s = None \<longleftrightarrow> (\<forall>r. find_run s rid = Some r \<longrightarrow> \<not> c r)"
  using update_run_Some_iff [OF assms, of rid c f] by (cases "update_run rid c f s") auto

lemma uuid4_runs [simp]: "runs (snd (uuid4 s)) = runs s"
  by (simp add: uuid4_def)

end
