(* ===== verification/Admission.thy ===== *)
theory Admission
  imports Runtime_Model
begin

text \<open>
  The admission ledger (\<open>app/services/admission_service.py\<close>): four quota buckets per run
  (global, caller, tenant, agent), each counting the runs that are held, queued and claimed
  in its scope, moved along by \<open>transition_run\<close>.

  The interface the other services rely on is the locale \<open>quota_ledger\<close>: what one move does
  to the count of a scope. Inside it the client facts are proved once: a ledger that is
  \<^emph>\<open>accurate\<close> for a run table (every bucket equals the number of runs in its scope and
  state) stays accurate when a run is admitted or changes its dispatch state together with
  the move. The locale is interpreted on the service's own definitions at the end.
\<close>

section \<open>Operations\<close>

type_synonym scope = "string \<times> string"

record admission_limits =
  max_held :: int
  max_queued :: int
  max_running :: int

definition default_limits :: admission_limits where
  "default_limits = \<lparr>max_held = 100, max_queued = 500, max_running = 50\<rparr>"

definition run_scopes :: "agent_run \<Rightarrow> scope list" where
  "run_scopes r =
     [(''global'', ''*''), (''caller'', caller_id r), (''tenant'', tenant_id r),
      (''agent'', agent_id r)]"

definition bucket_scope :: "admission_bucket \<Rightarrow> scope" where
  "bucket_scope b = (scope_type b, scope_key b)"

definition new_bucket :: "scope \<Rightarrow> admission_bucket" where
  "new_bucket sc = \<lparr>scope_type = fst sc, scope_key = snd sc, held_count = 0,
     queued_count = 0, running_count = 0, b_version = 1\<rparr>"

text \<open>The \<open>mapping\<close> dictionary: which counter a dispatch state occupies.\<close>

fun count_of :: "dispatch_state \<Rightarrow> admission_bucket \<Rightarrow> int" where
  "count_of Held b = held_count b"
| "count_of Queued b = queued_count b"
| "count_of Claimed b = running_count b"
| "count_of Finished b = 0"

fun set_count :: "dispatch_state \<Rightarrow> int \<Rightarrow> admission_bucket \<Rightarrow> admission_bucket" where
  "set_count Held n b = b\<lparr>held_count := n\<rparr>"
| "set_count Queued n b = b\<lparr>queued_count := n\<rparr>"
| "set_count Claimed n b = b\<lparr>running_count := n\<rparr>"
| "set_count Finished n b = b"

fun limit_of :: "admission_limits \<Rightarrow> dispatch_state \<Rightarrow> int" where
  "limit_of lims Held = max_held lims"
| "limit_of lims Queued = max_queued lims"
| "limit_of lims Claimed = max_running lims"
| "limit_of lims Finished = 0"

definition in_mapping :: "dispatch_state option \<Rightarrow> bool" where
  "in_mapping st = (st \<in> {Some Held, Some Queued, Some Claimed})"

text \<open>The body of the loop over the scopes, for one bucket; \<open>None\<close> is the state \<open>"none"\<close>.\<close>

definition move_bucket ::
  "admission_limits \<Rightarrow> dispatch_state option \<Rightarrow> dispatch_state option \<Rightarrow> admission_bucket \<Rightarrow>
    runtime_error + admission_bucket" where
  "move_bucket lims old new b =
     (let b1 = (if in_mapping old
                then set_count (the old) (max 0 (count_of (the old) b - 1)) b else b)
      in if in_mapping new
         then if count_of (the new) b1 \<ge> limit_of lims (the new) then Inl AdmissionRejected
              else (let b2 = set_count (the new) (count_of (the new) b1 + 1) b1
                    in Inr (b2\<lparr>b_version := b_version b2 + 1\<rparr>))
         else Inr (b1\<lparr>b_version := b_version b1 + 1\<rparr>))"

definition ensure_bucket :: "scope \<Rightarrow> admission_bucket list \<Rightarrow> admission_bucket list" where
  "ensure_bucket sc bs =
     (case sel_one (\<lambda>b. bucket_scope b = sc) bs of None \<Rightarrow> bs @ [new_bucket sc] | Some _ \<Rightarrow> bs)"

fun move_scopes ::
  "admission_limits \<Rightarrow> admission_bucket list \<Rightarrow> scope list \<Rightarrow> dispatch_state option \<Rightarrow>
    dispatch_state option \<Rightarrow> runtime_error + admission_bucket list" where
  "move_scopes lims bs [] old new = Inr bs"
| "move_scopes lims bs (sc # scs) old new =
     (let bs1 = ensure_bucket sc bs in
      case sel_one (\<lambda>b. bucket_scope b = sc) bs1 of
        None \<Rightarrow> Inr bs1
      | Some b \<Rightarrow>
          res_bind (move_bucket lims old new b)
            (\<lambda>b'. move_scopes lims (upd_where (\<lambda>x. bucket_scope x = sc) (\<lambda>_. b') bs1) scs old new))"

definition transition_run ::
  "admission_limits \<Rightarrow> agent_run \<Rightarrow> dispatch_state option \<Rightarrow> dispatch_state option \<Rightarrow> db \<Rightarrow>
    runtime_error + db" where
  "transition_run lims r old new s =
     res_bind (move_scopes lims (buckets s) (run_scopes r) old new)
       (\<lambda>bs. Inr (s\<lparr>buckets := bs\<rparr>))"

definition bucket_count :: "admission_bucket list \<Rightarrow> scope \<Rightarrow> dispatch_state \<Rightarrow> int" where
  "bucket_count bs sc st =
     (case sel_one (\<lambda>b. bucket_scope b = sc) bs of None \<Rightarrow> 0 | Some b \<Rightarrow> count_of st b)"

section \<open>One move\<close>

lemma count_of_Finished_not_in_mapping [simp]: "\<not> in_mapping (Some Finished)" "\<not> in_mapping None"
  by (simp_all add: in_mapping_def)

lemma in_mapping_Some [simp]: "in_mapping (Some st) \<longleftrightarrow> st \<noteq> Finished"
  by (cases st) (simp_all add: in_mapping_def)

lemma count_set_count [simp]:
  "count_of st (set_count st' n b) = (if st = st' \<and> st \<noteq> Finished then n else count_of st b)"
  by (cases st; cases st') simp_all

lemma count_version [simp]: "count_of st (b\<lparr>b_version := v\<rparr>) = count_of st b"
  by (cases st) simp_all

lemma scope_set_count [simp]: "bucket_scope (set_count st n b) = bucket_scope b"
  by (cases st) (simp_all add: bucket_scope_def)

lemma scope_version [simp]: "bucket_scope (b\<lparr>b_version := v\<rparr>) = bucket_scope b"
  by (simp add: bucket_scope_def)

lemma scope_new_bucket [simp]: "bucket_scope (new_bucket sc) = sc"
  by (simp add: bucket_scope_def new_bucket_def)

lemma count_new_bucket [simp]: "count_of st (new_bucket sc) = 0"
  by (cases st) (simp_all add: new_bucket_def)

definition moved :: "dispatch_state option \<Rightarrow> dispatch_state option \<Rightarrow> dispatch_state \<Rightarrow> int \<Rightarrow> int" where
  "moved old new st n =
     (if old = Some st then max 0 (n - 1) else n) + (if new = Some st then 1 else 0)"

lemma move_bucket_scope: "move_bucket lims old new b = Inr b' \<Longrightarrow> bucket_scope b' = bucket_scope b"
  by (auto simp: move_bucket_def Let_def split: if_splits)

lemma move_bucket_count:
  assumes "move_bucket lims old new b = Inr b'" "st \<noteq> Finished"
  shows "count_of st b' = moved old new st (count_of st b)"
  using assms
  by (cases old; cases new) (auto simp: move_bucket_def moved_def Let_def split: if_splits)

lemma sel_ensure_bucket:
  "sel_one (\<lambda>b. bucket_scope b = sc') (ensure_bucket sc bs) =
     (case sel_one (\<lambda>b. bucket_scope b = sc') bs of
        None \<Rightarrow> if sc' = sc then Some (new_bucket sc) else None
      | Some b \<Rightarrow> Some b)"
  by (auto simp: ensure_bucket_def sel_one_append split: option.splits)

lemma bucket_count_ensure [simp]:
  "bucket_count (ensure_bucket sc bs) sc' st = bucket_count bs sc' st"
  by (auto simp: bucket_count_def sel_ensure_bucket split: option.splits)

lemma sel_replace_bucket:
  assumes "bucket_scope b' = sc"
  shows "sel_one (\<lambda>b. bucket_scope b = sc') (upd_where (\<lambda>x. bucket_scope x = sc) (\<lambda>_. b') bs) =
    (if sc' = sc then map_option (\<lambda>_. b') (sel_one (\<lambda>b. bucket_scope b = sc) bs)
     else sel_one (\<lambda>b. bucket_scope b = sc') bs)"
  using assms by (induction bs) auto

lemma bucket_count_replace:
  assumes "bucket_scope b' = sc" "sel_one (\<lambda>b. bucket_scope b = sc) bs = Some b"
  shows "bucket_count (upd_where (\<lambda>x. bucket_scope x = sc) (\<lambda>_. b') bs) sc' st =
    (if sc' = sc then count_of st b' else bucket_count bs sc' st)"
  using assms by (auto simp: bucket_count_def sel_replace_bucket)

lemma move_scopes_count:
  assumes "move_scopes lims bs scs old new = Inr bs'" "distinct scs" "st \<noteq> Finished"
  shows "bucket_count bs' sc st =
    (if sc \<in> set scs then moved old new st (bucket_count bs sc st) else bucket_count bs sc st)"
  using assms
proof (induction scs arbitrary: bs)
  case Nil
  then show ?case by simp
next
  case (Cons a scs)
  let ?bs1 = "ensure_bucket a bs"
  obtain b where b: "sel_one (\<lambda>b. bucket_scope b = a) ?bs1 = Some b"
    by (cases "sel_one (\<lambda>b. bucket_scope b = a) bs") (simp_all add: sel_ensure_bucket)
  with Cons.prems(1) obtain b' where b': "move_bucket lims old new b = Inr b'"
    and rest: "move_scopes lims (upd_where (\<lambda>x. bucket_scope x = a) (\<lambda>_. b') ?bs1) scs old new = Inr bs'"
    by (auto simp: Let_def res_simps)
  have sc: "bucket_scope b' = a"
    using move_bucket_scope [OF b'] sel_one_SomeD [OF b] by simp
  have "count_of st b' = moved old new st (bucket_count bs a st)"
    using move_bucket_count [OF b' Cons.prems(3)] b bucket_count_ensure [of a bs a st]
    by (simp add: bucket_count_def)
  then show ?case
    using Cons.IH [OF rest] Cons.prems(2,3) bucket_count_replace [OF sc b] by auto
qed

lemma distinct_run_scopes [simp]: "distinct (run_scopes r)"
  by (simp add: run_scopes_def)

section \<open>The interface: a quota ledger\<close>

locale quota_ledger =
  fixes cnt :: "'l \<Rightarrow> scope \<Rightarrow> dispatch_state \<Rightarrow> int"
    and move :: "'l \<Rightarrow> scope list \<Rightarrow> dispatch_state option \<Rightarrow> dispatch_state option \<Rightarrow> 'e + 'l"
  assumes move_cnt:
    "move l scs old new = Inr l' \<Longrightarrow> distinct scs \<Longrightarrow> st \<noteq> Finished \<Longrightarrow>
      cnt l' sc st = (if sc \<in> set scs then moved old new st (cnt l sc st) else cnt l sc st)"
begin

definition accurate :: "'l \<Rightarrow> agent_run list \<Rightarrow> bool" where
  "accurate l rs \<longleftrightarrow> (\<forall>sc st. st \<noteq> Finished \<longrightarrow>
     cnt l sc st = int (rowcount (\<lambda>r. dispatch_state r = st \<and> sc \<in> set (run_scopes r)) rs))"

lemma admit_accurate:
  assumes "accurate l rs" "move l (run_scopes r) None (Some (dispatch_state r)) = Inr l'"
  shows "accurate l' (rs @ [r])"
  using assms move_cnt [OF assms(2)]
  by (auto simp: accurate_def moved_def rowcount_append rowcount_Cons)

lemma move_accurate:
  assumes acc: "accurate l rs" and dist: "distinct (map run_id rs)"
    and r: "sel_one (\<lambda>r. run_id r = rid) rs = Some r"
    and sc: "run_scopes (f r) = run_scopes r"
    and mv: "move l (run_scopes r) (Some (dispatch_state r)) (Some (dispatch_state (f r))) = Inr l'"
  shows "accurate l' (upd_where (\<lambda>r. run_id r = rid) f rs)"
proof (unfold accurate_def, intro allI impI)
  fix c st assume st: "st \<noteq> Finished"
  let ?P = "\<lambda>r. dispatch_state r = st \<and> c \<in> set (run_scopes r)"
  let ?rs' = "upd_where (\<lambda>r. run_id r = rid) f rs"
  have old: "cnt l c st = int (rowcount ?P rs)"
    using acc st unfolding accurate_def by blast
  have mem: "r \<in> set rs" using sel_one_SomeD [OF r] by simp
  have bal: "rowcount ?P ?rs' + of_bool (?P r) = rowcount ?P rs + of_bool (?P (f r))"
    by (rule rowcount_replace [OF dist r])
  have new: "cnt l' c st =
      (if c \<in> set (run_scopes r)
       then moved (Some (dispatch_state r)) (Some (dispatch_state (f r))) st (cnt l c st)
       else cnt l c st)"
    by (rule move_cnt [OF mv distinct_run_scopes st])
  have pos: "?P r \<Longrightarrow> 1 \<le> rowcount ?P rs"
    using rowcount_pos [OF mem, of ?P] by simp
  show "cnt l' c st = int (rowcount ?P ?rs')"
  proof (cases "c \<in> set (run_scopes r)")
    case True
    with new old bal pos sc show ?thesis
      by (cases "dispatch_state r = st"; cases "dispatch_state (f r) = st")
         (auto simp: moved_def)
  next
    case False
    with new old bal sc show ?thesis by simp
  qed
qed

lemma same_dispatch_accurate:
  assumes "accurate l rs" "distinct (map run_id rs)"
    "\<And>r. run_scopes (f r) = run_scopes r" "\<And>r. dispatch_state (f r) = dispatch_state r"
  shows "accurate l (upd_where p f rs)"
proof -
  have "rowcount (\<lambda>r. dispatch_state r = st \<and> sc \<in> set (run_scopes r)) (upd_where p f rs) =
      rowcount (\<lambda>r. dispatch_state r = st \<and> sc \<in> set (run_scopes r)) rs" for sc st
    using assms(3,4) by (induction rs) (auto simp: rowcount_Cons)
  then show ?thesis using assms(1) by (simp add: accurate_def)
qed

end

interpretation adm: quota_ledger bucket_count "move_scopes lims" for lims
  by unfold_locales (rule move_scopes_count)

text \<open>The ledger of the database is accurate for its run table.\<close>

definition ledger_ok :: "db \<Rightarrow> bool" where
  "ledger_ok s \<longleftrightarrow> adm.accurate (buckets s) (runs s)"

lemma ledger_ok_iff:
  "ledger_ok s \<longleftrightarrow> (\<forall>sc st. st \<noteq> Finished \<longrightarrow> bucket_count (buckets s) sc st =
     int (rowcount (\<lambda>r. dispatch_state r = st \<and> sc \<in> set (run_scopes r)) (runs s)))"
  by (simp add: ledger_ok_def adm.accurate_def)

lemma transition_run_frame:
  assumes "transition_run lims r old new s = Inr s'"
  shows "s' = s\<lparr>buckets := buckets s'\<rparr>"
  using assms by (auto simp: transition_run_def res_simps)

lemma transition_run_buckets:
  "transition_run lims r old new s = Inr s' \<Longrightarrow>
    move_scopes lims (buckets s) (run_scopes r) old new = Inr (buckets s')"
  by (auto simp: transition_run_def res_simps)

section \<open>Properties\<close>

lemma move_bucket_Inl:
  assumes "old \<noteq> Some st" "st \<noteq> Finished"
  shows "move_bucket lims old (Some st) b = Inl e \<longleftrightarrow>
    e = AdmissionRejected \<and> limit_of lims st \<le> count_of st b"
  using assms by (cases old) (auto simp: move_bucket_def Let_def)

lemma move_scopes_Inl:
  assumes "old \<noteq> Some st" "st \<noteq> Finished" "distinct scs"
  shows "move_scopes lims bs scs old (Some st) = Inl e \<longleftrightarrow>
    e = AdmissionRejected \<and> (\<exists>sc\<in>set scs. limit_of lims st \<le> bucket_count bs sc st)"
  using assms(3)
proof (induction scs arbitrary: bs)
  case Nil
  then show ?case by simp
next
  case (Cons a scs)
  let ?bs1 = "ensure_bucket a bs"
  obtain b where b: "sel_one (\<lambda>b. bucket_scope b = a) ?bs1 = Some b"
    by (cases "sel_one (\<lambda>b. bucket_scope b = a) bs") (simp_all add: sel_ensure_bucket)
  have cnt: "count_of st b = bucket_count bs a st"
    using b bucket_count_ensure [of a bs a st] by (simp add: bucket_count_def)
  show ?case
  proof (cases "move_bucket lims old (Some st) b")
    case (Inl e')
    then show ?thesis using b cnt assms move_bucket_Inl [of old st lims b e'] by (auto simp: Let_def)
  next
    case (Inr b')
    have sc: "bucket_scope b' = a" using move_bucket_scope [OF Inr] sel_one_SomeD [OF b] by simp
    have "\<not> limit_of lims st \<le> bucket_count bs a st"
      using Inr cnt move_bucket_Inl [OF assms(1,2), of lims b AdmissionRejected] by auto
    moreover have "bucket_count (upd_where (\<lambda>x. bucket_scope x = a) (\<lambda>_. b') ?bs1) sc' st = bucket_count bs sc' st"
      if "sc' \<in> set scs" for sc'
      using that Cons.prems by (auto simp: bucket_count_replace [OF sc b])
    ultimately show ?thesis using Cons b Inr by (auto simp: Let_def)
  qed
qed

text \<open>C7. Admission control is exact: moving a run into a counted state is refused precisely when
  one of its four scopes is at its limit for that state, and when it is accepted every scope of
  the run counts one run more and is still within the limit.\<close>

theorem admission_exact:
  assumes "old \<noteq> Some st" "st \<noteq> Finished"
  shows "(transition_run lims r old (Some st) s = Inl AdmissionRejected \<longleftrightarrow>
      (\<exists>sc\<in>set (run_scopes r). limit_of lims st \<le> bucket_count (buckets s) sc st)) \<and>
    (\<forall>s'. transition_run lims r old (Some st) s = Inr s' \<longrightarrow> (\<forall>sc\<in>set (run_scopes r).
       bucket_count (buckets s') sc st = bucket_count (buckets s) sc st + 1 \<and>
       bucket_count (buckets s') sc st \<le> limit_of lims st))"
proof -
  note inl = move_scopes_Inl [OF assms distinct_run_scopes, of lims "buckets s" r]
  have "bucket_count (buckets s') sc st = bucket_count (buckets s) sc st + 1 \<and>
      bucket_count (buckets s') sc st \<le> limit_of lims st"
    if tr: "transition_run lims r old (Some st) s = Inr s'" and sc: "sc \<in> set (run_scopes r)" for s' sc
    using move_scopes_count [OF transition_run_buckets [OF tr] distinct_run_scopes assms(2), of sc]
      inl [of AdmissionRejected] transition_run_buckets [OF tr] sc assms(1)
    by (auto simp: moved_def)
  moreover have "transition_run lims r old (Some st) s = Inl AdmissionRejected \<longleftrightarrow>
      (\<exists>sc\<in>set (run_scopes r). limit_of lims st \<le> bucket_count (buckets s) sc st)"
    using inl [of AdmissionRejected] by (simp add: transition_run_def res_simps)
  ultimately show ?thesis by blast
qed

end
