(* ===== verification/Outbox.thy ===== *)
theory Outbox
  imports Runtime_Model
begin

text \<open>
  The outbox and the immutable callback facts: \<open>app/services/outbox_service.py\<close>, the public
  trace projection \<open>app/services/public_trace_service.py\<close> (with the schema \<open>UiTraceConfig\<close> of
  \<open>app/schemas/agent_package.py\<close>) and the audit ledger \<open>app/services/audit_service.py\<close>.

  The interface is the locale \<open>event_log\<close>: emitting an event for a key appends the next
  number to that key's log and leaves every other key alone. Its client fact is that logs
  stay densely numbered, so the unique constraint \<open>(run_id, event_seq)\<close> is never hit. It is
  interpreted on \<open>append_callback_event\<close>.
\<close>

section \<open>Public trace\<close>

datatype trace_mode = TraceNone | TraceStatusOnly | TracePublicSummary

record ui_trace_config =
  mode :: trace_mode
  step_labels :: "(string \<times> string) list"

definition default_ui_trace :: ui_trace_config where
  "default_ui_trace = \<lparr>mode = TraceStatusOnly, step_labels = []\<rparr>"

fun parse_trace_mode :: "json \<Rightarrow> trace_mode option" where
  "parse_trace_mode (JStr m) =
     (if m = ''none'' then Some TraceNone
      else if m = ''status_only'' then Some TraceStatusOnly
      else if m = ''public_summary'' then Some TracePublicSummary else None)"
| "parse_trace_mode _ = None"

fun parse_str_dict :: "dict \<Rightarrow> (string \<times> string) list option" where
  "parse_str_dict [] = Some []"
| "parse_str_dict ((k, JStr v) # d) = map_option (\<lambda>r. (k, v) # r) (parse_str_dict d)"
| "parse_str_dict (_ # d) = None"

fun parse_labels :: "json \<Rightarrow> (string \<times> string) list option" where
  "parse_labels (JObj d) = parse_str_dict d"
| "parse_labels _ = None"

text \<open>\<open>UiTraceConfig.model_validate\<close>: unknown fields are refused, both fields have defaults.\<close>

fun validate_ui_trace :: "json \<Rightarrow> ui_trace_config option" where
  "validate_ui_trace (JObj d) =
     (if list_all (\<lambda>kv. fst kv \<in> {''mode'', ''step_labels''}) d then
        (case (case map_of d ''mode'' of None \<Rightarrow> Some TraceStatusOnly | Some v \<Rightarrow> parse_trace_mode v) of
           None \<Rightarrow> None
         | Some m \<Rightarrow>
            (case (case map_of d ''step_labels'' of None \<Rightarrow> Some [] | Some v \<Rightarrow> parse_labels v) of
               None \<Rightarrow> None
             | Some ls \<Rightarrow> Some \<lparr>mode = m, step_labels = ls\<rparr>))
      else None)"
| "validate_ui_trace _ = None"

definition from_snapshot :: "json \<Rightarrow> ui_trace_config" where
  "from_snapshot snap =
     (case validate_ui_trace snap of None \<Rightarrow> default_ui_trace | Some c \<Rightarrow> c)"

fun render_item :: "ui_trace_config \<Rightarrow> json \<Rightarrow> json list" where
  "render_item cfg (JObj item) =
     (case (dget item ''step'', dget item ''status'') of
        (JStr stp, JStr sts) \<Rightarrow>
          [JObj ([(''step'', JStr stp), (''status'', JStr sts)] @
             (if mode cfg = TracePublicSummary then
                (case map_of (step_labels cfg) stp of
                   None \<Rightarrow> []
                 | Some l \<Rightarrow> if l \<noteq> '''' then [(''label'', JStr l)] else [])
              else []))]
      | _ \<Rightarrow> [])"
| "render_item cfg _ = []"

fun render :: "ui_trace_config \<Rightarrow> json \<Rightarrow> json list" where
  "render cfg (JList items) =
     (if mode cfg = TraceNone then [] else concat (map (render_item cfg) (take 8 items)))"
| "render cfg _ = []"

section \<open>Outbox service\<close>

definition append_run_dispatch :: "string \<Rightarrow> string \<Rightarrow> time \<Rightarrow> db \<Rightarrow> db" where
  "append_run_dispatch rid why now s =
     (let (oid, s1) = uuid4 s in
      s1\<lparr>outbox := outbox s1 @ [\<lparr>outbox_id = oid, o_event_type = ''run_dispatch'',
         aggregate_type = ''agent_run'', aggregate_id = rid,
         o_payload_json = [(''run_id'', JStr rid), (''reason'', JStr why)],
         o_status = ''pending'', attempt_count = 0, next_attempt_at = None, o_lease_owner = None,
         o_lease_expires_at = None, last_error_code = None, delivered_at = None,
         retention_until = now + days 30\<rparr>]\<rparr>)"

definition version_or_1 :: "int \<Rightarrow> int" where
  "version_or_1 v = (if v = 0 then 1 else v)"

text \<open>
  The event is built from the run row as it stands in the session; the row's
  \<open>last_event_seq\<close> is advanced first. Every caller holds an existing run.
\<close>

definition append_callback_event ::
  "string \<Rightarrow> callback_event_type \<Rightarrow> json \<Rightarrow> time \<Rightarrow> db \<Rightarrow> db" where
  "append_callback_event rid ev public_trace now s =
     (case find_run s rid of
        None \<Rightarrow> s
      | Some r \<Rightarrow>
          (let safe_trace = render (from_snapshot (jget (capability_snapshot_json r) ''ui_trace'')) public_trace;
               sq = last_event_seq r + 1;
               (eid, s1) = uuid4 (set_run rid (\<lambda>r. r\<lparr>last_event_seq := sq\<rparr>) s);
               (oid, s2) = uuid4 s1;
               cb = \<lparr>event_id = eid, e_run_id = run_id r, event_seq = sq,
                     e_status_version = version_or_1 (status_version r), e_event_type = ev,
                     e_payload_json =
                       [(''event'', JStr (event_string ev)), (''event_id'', JStr eid),
                        (''run_id'', JStr (run_id r)), (''event_seq'', JInt sq),
                        (''status_version'', JInt (version_or_1 (status_version r))),
                        (''agent_id'', JStr (agent_id r)), (''business_id'', JStr (business_id r)),
                        (''status'', JStr (status_string (status r))),
                        (''error'', case error_code r of
                            None \<Rightarrow> JNull
                          | Some c \<Rightarrow> if c = '''' then JNull else JObj [(''code'', JStr c)]),
                        (''public_trace'', JList safe_trace)],
                     e_created_at = now\<rparr>;
               ob = \<lparr>outbox_id = oid, o_event_type = ''callback'', aggregate_type = ''agent_run'',
                     aggregate_id = run_id r,
                     o_payload_json = [(''event_id'', JStr eid), (''event_type'', JStr (event_string ev)),
                        (''target_id'', JStr (callback_target_id r))],
                     o_status = ''pending'', attempt_count = 0, next_attempt_at = None,
                     o_lease_owner = None, o_lease_expires_at = None, last_error_code = None,
                     delivered_at = None, retention_until = now + days 30\<rparr>
           in s2\<lparr>callbacks := callbacks s2 @ [cb], outbox := outbox s2 @ [ob]\<rparr>))"

fun terminal_callback_event :: "run_status \<Rightarrow> runtime_error + callback_event_type" where
  "terminal_callback_event Succeeded = Inr RunSucceeded"
| "terminal_callback_event Partial = Inr PartialSucceeded"
| "terminal_callback_event Failed = Inr RunFailed"
| "terminal_callback_event Cancelled = Inr RunCancelled"
| "terminal_callback_event _ = Inl (ValueError ''CALLBACK_EVENT_TYPE_INVALID'')"

definition append_callback :: "string \<Rightarrow> run_status \<Rightarrow> time \<Rightarrow> db \<Rightarrow> runtime_error + db" where
  "append_callback rid st now s =
     res_bind (terminal_callback_event st)
       (\<lambda>ev. Inr (append_callback_event rid ev JNull now s))"

section \<open>Audit ledger\<close>

definition append_audit_record ::
  "string \<Rightarrow> string \<Rightarrow> string \<Rightarrow> string \<Rightarrow> string \<Rightarrow> string option \<Rightarrow> string \<Rightarrow> string option \<Rightarrow>
    (string \<times> string) list \<Rightarrow> time \<Rightarrow> db \<Rightarrow> db" where
  "append_audit_record atype aid act rtype rid why outc tid meta now s =
     (let (i, s1) = uuid4 s in
      s1\<lparr>audits := audits s1 @ [\<lparr>audit_id = i, actor_type = atype, actor_id = aid, action = act,
         au_resource_type = rtype, au_resource_id = rid, reason_code = why, outcome = outc,
         au_trace_id = tid, metadata_summary = meta, occurred_at = now\<rparr>]\<rparr>)"

section \<open>What the writes change\<close>

named_theorems frame_simps \<open>fields an append does not change\<close>

lemma append_run_dispatch_frame [frame_simps]:
  "runs (append_run_dispatch rid w now s) = runs s"
  "buckets (append_run_dispatch rid w now s) = buckets s"
  "callbacks (append_run_dispatch rid w now s) = callbacks s"
  "definitions (append_run_dispatch rid w now s) = definitions s"
  "plans (append_run_dispatch rid w now s) = plans s"
  "steps (append_run_dispatch rid w now s) = steps s"
  "checkpoints (append_run_dispatch rid w now s) = checkpoints s"
  "audits (append_run_dispatch rid w now s) = audits s"
  "usages (append_run_dispatch rid w now s) = usages s"
  "artifacts (append_run_dispatch rid w now s) = artifacts s"
  "tool_calls (append_run_dispatch rid w now s) = tool_calls s"
  "idempotency (append_run_dispatch rid w now s) = idempotency s"
  "leases (append_run_dispatch rid w now s) = leases s"
  "uuid_counter (append_run_dispatch rid w now s) = Suc (uuid_counter s)"
  by (simp_all add: append_run_dispatch_def uuid4_def Let_def)

lemma append_audit_frame [frame_simps]:
  "runs (append_audit_record a b c d e f g h i now s) = runs s"
  "buckets (append_audit_record a b c d e f g h i now s) = buckets s"
  "callbacks (append_audit_record a b c d e f g h i now s) = callbacks s"
  "definitions (append_audit_record a b c d e f g h i now s) = definitions s"
  "plans (append_audit_record a b c d e f g h i now s) = plans s"
  "steps (append_audit_record a b c d e f g h i now s) = steps s"
  "checkpoints (append_audit_record a b c d e f g h i now s) = checkpoints s"
  "outbox (append_audit_record a b c d e f g h i now s) = outbox s"
  "usages (append_audit_record a b c d e f g h i now s) = usages s"
  "artifacts (append_audit_record a b c d e f g h i now s) = artifacts s"
  "tool_calls (append_audit_record a b c d e f g h i now s) = tool_calls s"
  "idempotency (append_audit_record a b c d e f g h i now s) = idempotency s"
  "leases (append_audit_record a b c d e f g h i now s) = leases s"
  "uuid_counter (append_audit_record a b c d e f g h i now s) = Suc (uuid_counter s)"
  by (simp_all add: append_audit_record_def uuid4_def Let_def)

lemma append_callback_event_frame [frame_simps]:
  "buckets (append_callback_event rid ev tr now s) = buckets s"
  "definitions (append_callback_event rid ev tr now s) = definitions s"
  "plans (append_callback_event rid ev tr now s) = plans s"
  "steps (append_callback_event rid ev tr now s) = steps s"
  "checkpoints (append_callback_event rid ev tr now s) = checkpoints s"
  "audits (append_callback_event rid ev tr now s) = audits s"
  "usages (append_callback_event rid ev tr now s) = usages s"
  "artifacts (append_callback_event rid ev tr now s) = artifacts s"
  "tool_calls (append_callback_event rid ev tr now s) = tool_calls s"
  "idempotency (append_callback_event rid ev tr now s) = idempotency s"
  "leases (append_callback_event rid ev tr now s) = leases s"
  "uuid_counter s \<le> uuid_counter (append_callback_event rid ev tr now s)"
  by (simp_all add: append_callback_event_def uuid4_def set_run_def Let_def split: option.splits)

lemma runs_append_callback_event:
  assumes "find_run s rid = Some r"
  shows "runs (append_callback_event rid ev tr now s) =
    upd_where (\<lambda>x. run_id x = rid) (\<lambda>x. x\<lparr>last_event_seq := last_event_seq r + 1\<rparr>) (runs s)"
  using assms by (simp add: append_callback_event_def uuid4_def set_run_def Let_def)

lemma callbacks_append_callback_event:
  assumes "find_run s rid = Some r"
  shows "\<exists>cb. callbacks (append_callback_event rid ev tr now s) = callbacks s @ [cb] \<and>
     e_run_id cb = rid \<and> event_seq cb = last_event_seq r + 1 \<and> e_event_type cb = ev"
  using assms find_run_id [OF assms]
  by (simp add: append_callback_event_def uuid4_def set_run_def Let_def)

lemma append_callback_terminal:
  "st \<in> {Succeeded, Partial, Failed, Cancelled} \<Longrightarrow>
    \<exists>ev. append_callback rid st now s = Inr (append_callback_event rid ev JNull now s)"
  by (auto simp: append_callback_def)

section \<open>The interface: densely numbered event logs\<close>

locale event_log =
  fixes seqno :: "'s \<Rightarrow> 'k \<Rightarrow> int option"
    and numbers :: "'s \<Rightarrow> 'k \<Rightarrow> int list"
    and emit :: "'k \<Rightarrow> 's \<Rightarrow> 's"
  assumes emit_seqno:
      "seqno s k = Some n \<Longrightarrow> seqno (emit k s) k' = (if k' = k then Some (n + 1) else seqno s k')"
    and emit_numbers:
      "seqno s k = Some n \<Longrightarrow>
        numbers (emit k s) k' = (if k' = k then numbers s k @ [n + 1] else numbers s k')"
begin

definition dense :: "'s \<Rightarrow> 'k \<Rightarrow> bool" where
  "dense s k \<longleftrightarrow> (case seqno s k of
      None \<Rightarrow> numbers s k = []
    | Some n \<Rightarrow> 0 \<le> n \<and> numbers s k = [1..n])"

lemma emit_dense:
  assumes "seqno s k = Some n" "\<And>k. dense s k"
  shows "dense (emit k s) k'"
  using assms(1) assms(2) [of k] assms(2) [of k'] emit_seqno [OF assms(1)] emit_numbers [OF assms(1)]
  by (auto simp: dense_def upto_rec2 [of 1 "n + 1"] split: option.splits)

lemma dense_distinct: "dense s k \<Longrightarrow> distinct (numbers s k)"
  by (auto simp: dense_def split: option.splits)

end

definition run_seq :: "db \<Rightarrow> string \<Rightarrow> int option" where
  "run_seq s rid = map_option last_event_seq (find_run s rid)"

definition run_events :: "db \<Rightarrow> string \<Rightarrow> int list" where
  "run_events s rid = map event_seq (filter (\<lambda>e. e_run_id e = rid) (callbacks s))"

lemma find_run_append_callback_event:
  assumes "find_run s rid = Some r"
  shows "find_run (append_callback_event rid ev tr now s) rid' =
    map_option (\<lambda>x. if run_id x = rid then x\<lparr>last_event_seq := last_event_seq r + 1\<rparr> else x)
      (find_run s rid')"
  by (simp add: find_run_def runs_append_callback_event [OF assms] sel_key_upd_where)

interpretation cb_log: event_log run_seq run_events "\<lambda>rid. append_callback_event rid ev tr now"
  for ev tr now
proof unfold_locales
  fix s k n k'
  assume "run_seq s k = Some n"
  then obtain r where r: "find_run s k = Some r" and n: "n = last_event_seq r"
    by (auto simp: run_seq_def)
  show "run_seq (append_callback_event k ev tr now s) k' = (if k' = k then Some (n + 1) else run_seq s k')"
    using r n find_run_id [of s k'] find_run_id [OF r]
    by (cases "find_run s k'") (auto simp: run_seq_def find_run_append_callback_event [OF r])
  show "run_events (append_callback_event k ev tr now s) k' =
      (if k' = k then run_events s k @ [n + 1] else run_events s k')"
    using callbacks_append_callback_event [OF r, of ev tr now] n by (auto simp: run_events_def)
qed

text \<open>Every run's callback events are numbered \<open>1, 2, ..., last_event_seq\<close>.\<close>

definition events_ok :: "db \<Rightarrow> bool" where
  "events_ok s \<longleftrightarrow> (\<forall>rid. cb_log.dense s rid)"

lemma events_ok_append_callback_event:
  assumes "events_ok s" "find_run s rid = Some r"
  shows "events_ok (append_callback_event rid ev tr now s)"
  unfolding events_ok_def
proof
  fix rid'
  show "cb_log.dense (append_callback_event rid ev tr now s) rid'"
    by (rule cb_log.emit_dense [of s rid "last_event_seq r"])
       (use assms in \<open>auto simp: events_ok_def run_seq_def\<close>)
qed

lemma events_ok_cong:
  assumes "events_ok s" "callbacks s' = callbacks s" "run_seq s' = run_seq s"
  shows "events_ok s'"
proof -
  have "run_events s' rid = run_events s rid" for rid by (simp add: run_events_def assms(2))
  then have "cb_log.dense s' rid = cb_log.dense s rid" for rid
    by (simp add: cb_log.dense_def assms(3) cong: option.case_cong)
  with assms(1) show ?thesis by (simp add: events_ok_def)
qed

end
