(* ===== verification/Run_Invariant.thy ===== *)
theory Run_Invariant
  imports Admission Outbox
begin

text \<open>
  What every service keeps true of the run ledger, and the lemmas by which their proofs
  establish it.

  \<^item> \<open>row_ok\<close>: the dispatch state, the status, the lease columns, the counters and the
    privacy columns of one run agree.
  \<^item> \<open>inv_db\<close>: the database is well formed, the admission ledger is accurate, callback
    events are densely numbered and every row is \<open>row_ok\<close>.
  \<^item> \<open>advances\<close>: how a run may change. Its identity is frozen; fencing token, execution
    attempt, status, privacy and event counters never go back; a cancel request and a privacy
    barrier are never taken back; \<open>succeeded\<close> and \<open>cancelled\<close> are final; callback facts are
    only appended.

  The lemmas \<open>step_*\<close> are one per kind of write: a column update, a dispatch transition
  with its admission move, a callback event, an outbox or audit row, a new run.
\<close>

section \<open>Row invariant\<close>

definition terminal :: "run_status \<Rightarrow> bool" where
  "terminal st \<longleftrightarrow> st \<in> {Succeeded, Partial, Failed, Cancelled}"

definition row_ok :: "agent_run \<Rightarrow> bool" where
  "row_ok r \<longleftrightarrow>
     (dispatch_state r = Claimed \<longleftrightarrow> lease_owner r \<noteq> None) \<and>
     (lease_owner r = None \<longleftrightarrow> lease_expires_at r = None) \<and>
     (dispatch_state r = Held \<longrightarrow> status r = Pending) \<and>
     (dispatch_state r = Queued \<longrightarrow> status r = Pending \<or> status r = WaitingHuman) \<and>
     (terminal (status r) \<longrightarrow> dispatch_state r = Finished) \<and>
     (dispatch_state r = Finished \<longrightarrow> terminal (status r) \<or> status r = WaitingHuman) \<and>
     1 \<le> status_version r \<and> 1 \<le> privacy_version r \<and>
     0 \<le> fencing_token r \<and> execution_attempt r = fencing_token r \<and>
     0 \<le> manual_retry_count r \<and> manual_retry_count r \<le> 3 \<and>
     (privacy_state r \<noteq> PrivacyActive \<longrightarrow> cancel_requested_at r \<noteq> None)"

lemma row_ok_last_event_seq [simp]: "row_ok (r\<lparr>last_event_seq := n\<rparr>) = row_ok r"
  by (simp add: row_ok_def)

lemma row_ok_unleased: "row_ok r \<Longrightarrow> dispatch_state r \<noteq> Claimed \<Longrightarrow> lease_owner r = None \<and> lease_expires_at r = None"
  unfolding row_ok_def by blast

lemma row_ok_terminal: "row_ok r \<Longrightarrow> terminal (status r) \<Longrightarrow> dispatch_state r = Finished"
  by (simp add: row_ok_def)

lemma row_ok_unfinished: "row_ok r \<Longrightarrow> dispatch_state r \<noteq> Finished \<Longrightarrow> \<not> terminal (status r)"
  by (auto simp: row_ok_def)

definition inv_db :: "db \<Rightarrow> bool" where
  "inv_db s \<longleftrightarrow> wf_db s \<and> ledger_ok s \<and> events_ok s \<and> (\<forall>r\<in>set (runs s). row_ok r)"

section \<open>How a run may change\<close>

fun privacy_rank :: "privacy_state \<Rightarrow> nat" where
  "privacy_rank PrivacyActive = 0"
| "privacy_rank PurgeRequested = 1"
| "privacy_rank Purged = 2"

definition same_identity :: "agent_run \<Rightarrow> agent_run \<Rightarrow> bool" where
  "same_identity r r' \<longleftrightarrow> run_id r' = run_id r \<and> agent_id r' = agent_id r \<and>
     agent_version r' = agent_version r \<and> package_digest r' = package_digest r \<and>
     caller_id r' = caller_id r \<and> tenant_id r' = tenant_id r \<and>
     capability_snapshot_json r' = capability_snapshot_json r \<and>
     authorization_version r' = authorization_version r \<and>
     callback_target_id r' = callback_target_id r \<and> run_deadline_at r' = run_deadline_at r"

definition run_le :: "agent_run \<Rightarrow> agent_run \<Rightarrow> bool" where
  "run_le r r' \<longleftrightarrow> same_identity r r' \<and>
     fencing_token r \<le> fencing_token r' \<and> execution_attempt r \<le> execution_attempt r' \<and>
     status_version r \<le> status_version r' \<and> privacy_version r \<le> privacy_version r' \<and>
     last_event_seq r \<le> last_event_seq r' \<and> manual_retry_count r \<le> manual_retry_count r' \<and>
     privacy_rank (privacy_state r) \<le> privacy_rank (privacy_state r') \<and>
     (cancel_requested_at r \<noteq> None \<longrightarrow> cancel_requested_at r' \<noteq> None) \<and>
     (status r \<in> {Succeeded, Cancelled} \<longrightarrow>
        status r' = status r \<and> dispatch_state r' = dispatch_state r)"

definition advances :: "db \<Rightarrow> db \<Rightarrow> bool" where
  "advances s s' \<longleftrightarrow>
     (\<forall>rid r. find_run s rid = Some r \<longrightarrow> (\<exists>r'. find_run s' rid = Some r' \<and> run_le r r')) \<and>
     (\<exists>new. callbacks s' = callbacks s @ new)"

lemma run_le_refl [simp]: "run_le r r"
  by (simp add: run_le_def same_identity_def)

lemma run_le_trans: "run_le a b \<Longrightarrow> run_le b c \<Longrightarrow> run_le a c"
  by (auto simp: run_le_def same_identity_def)

lemma advances_refl [simp]: "advances s s"
  by (auto simp: advances_def)

lemma advances_trans:
  assumes "advances a b" "advances b c"
  shows "advances a c"
proof -
  have "\<exists>r'. find_run c rid = Some r' \<and> run_le r r'" if "find_run a rid = Some r" for rid r
    using assms that run_le_trans unfolding advances_def by metis
  moreover have "\<exists>new. callbacks c = callbacks a @ new"
    using assms by (auto simp: advances_def)
  ultimately show ?thesis by (simp add: advances_def)
qed

lemma same_identity_scopes: "same_identity r r' \<Longrightarrow> run_scopes r' = run_scopes r"
  by (simp add: same_identity_def run_scopes_def)

lemma run_le_identity: "run_le r r' \<Longrightarrow> same_identity r r'"
  by (simp add: run_le_def)

lemma package_executable_same:
  "same_identity r r' \<Longrightarrow> definitions s' = definitions s \<Longrightarrow>
    package_executable s' r' = package_executable s r"
  by (simp add: package_executable_def find_definition_def same_identity_def cong: option.case_cong)

section \<open>A sound step\<close>

text \<open>The combined judgement that the services' lemmas establish.\<close>

definition sound :: "db \<Rightarrow> db \<Rightarrow> bool" where
  "sound s s' \<longleftrightarrow> inv_db s' \<and> advances s s'"

lemma soundD: "sound s s' \<Longrightarrow> inv_db s'" "sound s s' \<Longrightarrow> advances s s'"
  by (simp_all add: sound_def)

lemma sound_refl: "inv_db s \<Longrightarrow> sound s s"
  by (simp add: sound_def)

lemma sound_trans: "sound a b \<Longrightarrow> sound b c \<Longrightarrow> sound a c"
  by (auto simp: sound_def intro: advances_trans)

lemma inv_db_wf: "inv_db s \<Longrightarrow> wf_db s"
  by (simp add: inv_db_def)

lemma inv_db_row: "inv_db s \<Longrightarrow> find_run s rid = Some r \<Longrightarrow> row_ok r"
  by (auto simp: inv_db_def dest: find_run_SomeD)

lemma sound_frame:
  assumes "inv_db s" "runs s' = runs s" "buckets s' = buckets s" "callbacks s' = callbacks s"
    "uuid_counter s \<le> uuid_counter s'"
  shows "sound s s'"
proof -
  have f: "find_run s' = find_run s" by (rule ext) (simp add: find_run_def assms(2))
  have "wf_db s'" using assms(1,2,5) by (force simp: inv_db_def wf_db_def)
  moreover have "ledger_ok s'" using assms by (simp add: inv_db_def ledger_ok_def)
  moreover have "events_ok s'"
    by (rule events_ok_cong [of s]) (use assms f in \<open>auto simp: inv_db_def run_seq_def\<close>)
  ultimately show ?thesis
    using assms f by (simp add: sound_def inv_db_def advances_def)
qed

lemma run_seq_set_run:
  assumes "\<And>r. run_id (f r) = run_id r" "\<And>r. last_event_seq (f r) = last_event_seq r"
  shows "run_seq (set_run rid f s) = run_seq s"
proof (rule ext)
  fix k show "run_seq (set_run rid f s) k = run_seq s k"
    using assms by (cases "find_run s k") (simp_all add: run_seq_def find_run_set_run)
qed

lemma advances_set_run:
  assumes r: "find_run s rid = Some r" and id: "\<And>r. run_id (f r) = run_id r"
    and le: "run_le r (f r)"
  shows "advances s (set_run rid f s)"
proof -
  have "\<exists>y'. find_run (set_run rid f s) k = Some y' \<and> run_le y y'" if y: "find_run s k = Some y" for k y
  proof (cases "k = rid")
    case True
    with y r le find_run_id [OF r] show ?thesis by (simp add: find_run_set_run [OF id])
  next
    case False
    with y find_run_id [OF y] show ?thesis by (simp add: find_run_set_run [OF id])
  qed
  then show ?thesis by (simp add: advances_def)
qed

lemma rows_set_run:
  assumes "inv_db s" "find_run s rid = Some r" "row_ok (f r)"
    "x \<in> set (runs (set_run rid f s))"
  shows "row_ok x"
proof -
  have u: "y \<in> set (runs s) \<Longrightarrow> run_id y = rid \<Longrightarrow> y = r" for y
    using assms(2) find_run_iff [OF inv_db_wf [OF assms(1)], of rid] by (metis option.inject)
  from assms(4) obtain y where "y \<in> set (runs s)" "x = (if run_id y = rid then f y else y)"
    by (auto simp: set_upd_where)
  then show ?thesis using u assms(1,3) by (auto simp: inv_db_def)
qed

lemma step_columns:
  assumes inv: "inv_db s" and r: "find_run s rid = Some r"
    and id: "\<And>r. run_id (f r) = run_id r" "\<And>r. last_event_seq (f r) = last_event_seq r"
      "\<And>r. run_scopes (f r) = run_scopes r" "\<And>r. dispatch_state (f r) = dispatch_state r"
    and ok: "row_ok (f r)" and le: "run_le r (f r)"
  shows "sound s (set_run rid f s)"
proof -
  let ?s = "set_run rid f s"
  have "ledger_ok ?s"
    using inv adm.same_dispatch_accurate [of "buckets s" "runs s" f "\<lambda>r. run_id r = rid"] id
    by (simp add: inv_db_def ledger_ok_def wf_db_def)
  moreover have "events_ok ?s"
    by (rule events_ok_cong [of s]) (use inv id in \<open>auto simp: inv_db_def run_seq_set_run\<close>)
  moreover have "wf_db ?s" using inv id(1) by (simp add: inv_db_def wf_db_set_run)
  ultimately show ?thesis
    using rows_set_run [of s rid r f, OF inv r ok] advances_set_run [OF r id(1) le]
    by (simp add: sound_def inv_db_def)
qed

lemma transition_run_find:
  "transition_run lims x old new s = Inr s' \<Longrightarrow> find_run s' = find_run s"
  by (auto simp: transition_run_def res_simps find_run_def fun_eq_iff)

lemma step_dispatch:
  assumes inv: "inv_db s" and r: "find_run s rid = Some r"
    and id: "\<And>r. run_id (f r) = run_id r" "\<And>r. last_event_seq (f r) = last_event_seq r"
    and ok: "row_ok (f r)" and le: "run_le r (f r)"
    and x: "run_scopes x = run_scopes r"
    and tr: "transition_run lims x (Some (dispatch_state r)) (Some (dispatch_state (f r)))
        (set_run rid f s) = Inr s'"
  shows "sound s s'"
proof -
  let ?s = "set_run rid f s"
  have fr: "runs s' = runs ?s" "callbacks s' = callbacks s" "uuid_counter s' = uuid_counter s"
    using tr by (auto simp: transition_run_def res_simps)
  have "adm.accurate (buckets s') (runs ?s)"
    unfolding set_run_simps
    by (rule adm.move_accurate [of "buckets s" _ _ r])
       (use inv r x transition_run_buckets [OF tr] same_identity_scopes [OF run_le_identity [OF le]]
        in \<open>auto simp: inv_db_def ledger_ok_def wf_db_def find_run_def\<close>)
  then have "ledger_ok s'" by (simp add: ledger_ok_def fr)
  moreover have "events_ok s'"
    by (rule events_ok_cong [of s])
       (use inv id fr transition_run_find [OF tr] in \<open>auto simp: inv_db_def run_seq_def fun_eq_iff
          run_seq_set_run [unfolded run_seq_def fun_eq_iff]\<close>)
  moreover have "wf_db s'"
    using inv wf_db_set_run [of s f rid] id(1) fr by (simp add: inv_db_def wf_db_def)
  ultimately show ?thesis
    using rows_set_run [of s rid r f, OF inv r ok] advances_set_run [OF r id(1) le] fr transition_run_find [OF tr]
    by (simp add: sound_def inv_db_def advances_def)
qed

lemma step_callback:
  assumes inv: "inv_db s" and r: "find_run s rid = Some r"
  shows "sound s (append_callback_event rid ev tr now s)"
proof -
  let ?f = "\<lambda>x. x\<lparr>last_event_seq := last_event_seq r + 1\<rparr>"
  let ?s = "append_callback_event rid ev tr now s"
  have runs: "runs ?s = runs (set_run rid ?f s)"
    by (simp add: runs_append_callback_event [OF r])
  have fnd: "find_run ?s = find_run (set_run rid ?f s)"
    by (rule ext) (simp add: find_run_def runs)
  have "ledger_ok ?s"
    using inv adm.same_dispatch_accurate [of "buckets s" "runs s" ?f "\<lambda>r. run_id r = rid"]
    by (simp add: inv_db_def ledger_ok_def wf_db_def runs frame_simps run_scopes_def)
  moreover have "wf_db ?s"
    using inv wf_db_set_run [of s ?f rid] append_callback_event_frame(12) [of s rid ev tr now]
    unfolding inv_db_def wf_db_def runs by fastforce
  moreover have "row_ok x" if "x \<in> set (runs ?s)" for x
    using rows_set_run [of s rid r ?f, OF inv r] that inv_db_row [OF inv r]
    by (simp add: runs)
  moreover have "events_ok ?s"
    using events_ok_append_callback_event [of s rid r] inv r by (simp add: inv_db_def)
  moreover have "advances s ?s"
  proof -
    have "advances s (set_run rid ?f s)"
      by (rule advances_set_run [OF r]) (auto simp: run_le_def same_identity_def)
    then show ?thesis
      using callbacks_append_callback_event [OF r, of ev tr now] fnd by (auto simp: advances_def)
  qed
  ultimately show ?thesis by (simp add: sound_def inv_db_def)
qed

lemma step_terminal_callback:
  assumes "inv_db s" "find_run s rid = Some r" "append_callback rid st now s = Inr s'"
  shows "sound s s'"
  using assms step_callback [OF assms(1,2)] by (auto simp: append_callback_def res_simps)

lemma step_outbox: "inv_db s \<Longrightarrow> sound s (append_run_dispatch rid w now s)"
  by (rule sound_frame) (simp_all add: frame_simps)

lemma step_audit: "inv_db s \<Longrightarrow> sound s (append_audit_record a b c d e f g h i now s)"
  by (rule sound_frame) (simp_all add: frame_simps)

lemma step_admit:
  assumes inv: "inv_db s" and fr: "run_id r = numeral_string n" "uuid_counter s \<le> n" "n < uuid_counter s1"
    and s1: "runs s1 = runs s @ [r]" "buckets s1 = buckets s" "callbacks s1 = callbacks s"
    and ok: "row_ok r" "last_event_seq r = 0"
    and tr: "transition_run lims r None (Some (dispatch_state r)) s1 = Inr s'"
  shows "sound s s'"
proof -
  have eq: "runs s' = runs s @ [r]" "callbacks s' = callbacks s" "uuid_counter s' = uuid_counter s1"
    using tr s1 by (auto simp: transition_run_def res_simps)
  have new: "find_run s (run_id r) = None"
    using inv fr by (force simp: inv_db_def wf_db_def find_run_def sel_one_None_iff)
  have find: "find_run s' k = (if k = run_id r then Some r else find_run s k)" for k
    using new by (auto simp: find_run_def eq sel_one_append split: option.splits)
  have "run_id r \<noteq> run_id x" if "x \<in> set (runs s)" for x
    using new that by (auto simp: find_run_def sel_one_None_iff)
  then have "wf_db s'"
    using inv fr by (auto simp: inv_db_def wf_db_def eq)
  moreover have "ledger_ok s'"
    using inv adm.admit_accurate [of "buckets s" "runs s" lims r "buckets s'"] transition_run_buckets [OF tr] s1
    by (simp add: inv_db_def ledger_ok_def eq)
  moreover have "events_ok s'"
  proof -
    have ev: "run_events s' k = run_events s k" for k by (simp add: run_events_def eq)
    have old: "cb_log.dense s k" for k using inv by (simp add: inv_db_def events_ok_def)
    have none: "run_events s (run_id r) = []"
      using old [of "run_id r"] new by (simp add: cb_log.dense_def run_seq_def)
    have "cb_log.dense s' k" for k
    proof (cases "k = run_id r")
      case True
      with none ok(2) show ?thesis by (simp add: cb_log.dense_def ev run_seq_def find)
    next
      case False
      with old [of k] show ?thesis by (cases "find_run s k") (simp_all add: cb_log.dense_def ev run_seq_def find)
    qed
    then show ?thesis by (simp add: events_ok_def)
  qed
  moreover have "advances s s'" using new by (auto simp: advances_def find eq)
  ultimately show ?thesis using inv ok(1) by (simp add: sound_def inv_db_def eq)
qed

end
