(* ===== verification/Demo_State.thy ===== *)
theory Demo_State
  imports Run_Invariant
begin

text \<open>
  A small concrete database on which the properties of the services are exercised: one active
  package, one run and the admission buckets that count it. \<open>inv_demo\<close> shows that every such
  database satisfies the ledger invariant, whatever the (well-formed) run row is.
\<close>

definition demo_definition :: agent_definition where
  "demo_definition = \<lparr>d_agent_id = ''memoir'', d_version = ''1'',
     d_definition_json = [(''workflow_nodes'', JList [])], d_package_digest = ''sha'',
     d_contract_version = ''v1'', runtime_type = ''workflow'', d_status = ''active'',
     status_changed_at = None, status_changed_by = None, status_change_reason = None,
     revoked_at = None, revocation_reason = None\<rparr>"

definition demo_run :: "run_status \<Rightarrow> dispatch_state \<Rightarrow> agent_run" where
  "demo_run st ds =
     \<lparr>run_id = ''0'', agent_id = ''memoir'', agent_version = ''1'', package_digest = ''sha'',
      contract_version = ''v1'', business_type = ''memoir'', business_id = ''b'', status = st,
      dispatch_state = ds, input_json = [(''secret'', JStr ''x'')],
      capability_snapshot_json = JObj [(''ui_trace'', JObj [(''mode'', JStr ''status_only'')])],
      authorization_version = 1, output_summary_json = JNull, error_code = None,
      caller_id = ''c'', tenant_id = ''t'', create_idempotency_key = ''k'',
      callback_target_id = ''cb'', business_connector_id = ''bc'', trace_id = ''1'',
      manual_retry_count = 0, auto_retry_count = 0, status_version = 1, last_event_seq = 0,
      execution_attempt = 0, lease_owner = None, lease_expires_at = None, fencing_token = 0,
      cancel_requested_at = None, privacy_state = PrivacyActive, privacy_version = 1,
      privacy_purge_requested_at = None, private_data_purged_at = None,
      held_expires_at = None, queued_at = Some 0, claimed_at = None, active_elapsed_ms = 0,
      run_deadline_at = days 1, waiting_expires_at = None, started_at = None, finished_at = None\<rparr>"

definition demo_claimed :: agent_run where
  "demo_claimed = (demo_run Running Claimed)\<lparr>lease_owner := Some ''w'',
     lease_expires_at := Some (seconds 60), fencing_token := 1, execution_attempt := 1\<rparr>"

definition demo_buckets :: "agent_run \<Rightarrow> admission_bucket list" where
  "demo_buckets r =
     (case move_scopes default_limits [] (run_scopes r) None (Some (dispatch_state r)) of
        Inl _ \<Rightarrow> [] | Inr bs \<Rightarrow> bs)"

definition demo_db :: "agent_run \<Rightarrow> db" where
  "demo_db r = empty_db\<lparr>definitions := [demo_definition], runs := [r], buckets := demo_buckets r,
     uuid_counter := 2\<rparr>"

lemma inv_empty_db: "inv_db empty_db"
  by (simp add: inv_db_def wf_db_def ledger_ok_iff events_ok_def cb_log.dense_def empty_db_def
      bucket_count_def run_events_def run_seq_def find_run_def)

lemma demo_move:
  "\<exists>bs. move_scopes default_limits [] (run_scopes r) None (Some (dispatch_state r)) = Inr bs"
  by (cases "dispatch_state r")
     (simp_all add: run_scopes_def ensure_bucket_def new_bucket_def bucket_scope_def move_bucket_def
        default_limits_def Let_def)

lemma numeral_string_0: "numeral_string 0 = ''0''"
  by code_simp

lemma inv_demo:
  assumes "row_ok r" "run_id r = ''0''" "last_event_seq r = 0"
  shows "inv_db (demo_db r)"
proof -
  let ?s1 = "empty_db\<lparr>definitions := [demo_definition], runs := [r], uuid_counter := 2\<rparr>"
  obtain bs where bs: "move_scopes default_limits [] (run_scopes r) None (Some (dispatch_state r)) = Inr bs"
    using demo_move by blast
  have "sound empty_db (demo_db r)"
    by (rule step_admit [OF inv_empty_db, where n = 0 and ?s1.0 = ?s1 and r = r and lims = default_limits])
       (use assms bs in \<open>simp_all add: empty_db_def numeral_string_0 transition_run_def
          demo_db_def demo_buckets_def\<close>)
  then show ?thesis by (rule soundD)
qed

lemma row_demo:
  "row_ok (demo_run Pending Held)" "row_ok (demo_run Pending Queued)"
  "row_ok (demo_run WaitingHuman Finished)" "row_ok (demo_run Failed Finished)"
  "row_ok (demo_run Partial Finished)" "row_ok demo_claimed"
  by (simp_all add: row_ok_def demo_run_def demo_claimed_def terminal_def)

lemma inv_demo_run:
  "row_ok (demo_run st ds) \<Longrightarrow> inv_db (demo_db (demo_run st ds))"
  by (rule inv_demo) (simp_all add: demo_run_def)

lemma inv_demo_claimed: "inv_db (demo_db demo_claimed)"
  by (rule inv_demo) (simp_all add: row_demo(6), simp_all add: demo_claimed_def demo_run_def)

lemmas inv_demo_states =
  inv_demo_run [OF row_demo(1)] inv_demo_run [OF row_demo(2)] inv_demo_run [OF row_demo(3)]
  inv_demo_run [OF row_demo(4)] inv_demo_run [OF row_demo(5)] inv_demo_claimed

text \<open>From an evaluated test of a result to the result.\<close>

lemma result_Inr: "\<not> isl m \<Longrightarrow> \<exists>x. m = Inr x"
  by (cases m) auto

lemma result_pair: "\<not> isl m \<Longrightarrow> \<exists>x s'. m = Inr (x, s')"
  by (cases m) auto

lemma result_granted:
  "\<not> isl m \<Longrightarrow> \<not> Option.is_none (fst (projr m)) \<Longrightarrow> \<exists>ctx s'. m = Inr (Some ctx, s')"
  by (cases m) (auto simp: Option.is_none_def)

theorem admission_exact_witness:
  "transition_run \<lparr>max_held = 0, max_queued = 1, max_running = 0\<rparr> (demo_run Pending Queued) None
     (Some Queued) (demo_db (demo_run Pending Queued)) = Inl AdmissionRejected"
proof -
  have "\<exists>sc\<in>set (run_scopes (demo_run Pending Queued)).
      limit_of \<lparr>max_held = 0, max_queued = 1, max_running = 0\<rparr> Queued
      \<le> bucket_count (buckets (demo_db (demo_run Pending Queued))) sc Queued"
    by code_simp
  then show ?thesis
    using admission_exact [of None Queued] by blast
qed

end
