(* ===== verification/Fenced_Lease.thy ===== *)
theory Fenced_Lease
  imports Main
begin

text \<open>
  The contract of a lease with fencing tokens, shared by the Worker's run lease
  (\<open>lease_service.py\<close>) and the reconciler's scan lease (\<open>reconciliation_lease_service.py\<close>):
  a grant hands out a token above every earlier one, a guarded write is accepted only with the
  current token, and the token never goes back. The client facts are that at most one token is
  accepted at any moment and that a holder whose lease was granted again is shut out for good.
\<close>

locale fenced_lease =
  fixes token :: "'s \<Rightarrow> 'k \<Rightarrow> int option"
    and grant :: "'s \<Rightarrow> 'k \<Rightarrow> int \<Rightarrow> 's \<Rightarrow> bool"
    and accepts :: "'s \<Rightarrow> 'k \<Rightarrow> int \<Rightarrow> bool"
    and later :: "'s \<Rightarrow> 's \<Rightarrow> bool"
  assumes grant_token: "grant s k n s' \<Longrightarrow> token s' k = Some n"
    and grant_above: "grant s k n s' \<Longrightarrow> token s k = Some m \<Longrightarrow> m < n"
    and accepts_token: "accepts s k n \<Longrightarrow> token s k = Some n"
    and later_token: "later s s' \<Longrightarrow> token s k = Some m \<Longrightarrow> \<exists>m'\<ge>m. token s' k = Some m'"
begin

lemma one_holder: "accepts s k m \<Longrightarrow> accepts s k n \<Longrightarrow> m = n"
  by (metis accepts_token option.inject)

lemma grants_increase:
  assumes "grant s k m s1" "later s1 s2" "grant s2 k n s3"
  shows "m < n"
proof -
  obtain m' where "m \<le> m'" "token s2 k = Some m'"
    using later_token [OF assms(2) grant_token [OF assms(1)]] by blast
  with grant_above [OF assms(3)] show ?thesis by fastforce
qed

lemma stale_rejected:
  assumes "grant s k m s1" "later s1 s2" "grant s2 k n s3" "later s3 s4"
  shows "\<not> accepts s4 k m"
proof
  assume "accepts s4 k m"
  then have "token s4 k = Some m" by (rule accepts_token)
  moreover obtain n' where "n \<le> n'" "token s4 k = Some n'"
    using later_token [OF assms(4) grant_token [OF assms(3)]] by blast
  ultimately show False using grants_increase [OF assms(1-3)] by simp
qed

end

end
