(* ===== verification/Lease.thy ===== *)
theory Lease
  imports Demo_State Fenced_Lease
begin

text \<open>
  The Worker lease (\<open>app/services/lease_service.py\<close>): claiming a queued run, renewing the
  lease, the write gate \<open>can_write\<close>, settling, pausing and releasing a run, and the reaper that
  takes over expired leases. Conditional updates are \<open>update_run\<close>; \<open>now\<close> is the clock reading
  of the call. Every operation is shown \<open>sound\<close> (it keeps \<open>inv_db\<close> and only \<open>advances\<close> runs),
  and the contract \<open>fenced_lease\<close> is interpreted on claim and the write gate.
\<close>

section \<open>Data\<close>

record lease_context =
  x_execution_attempt :: int
  x_lease_owner :: string
  x_fencing_token :: int
  x_lease_expires_at :: time
  x_privacy_version :: int
  x_authorization_version :: int

record agent_run_result =
  res_run_id :: string
  res_status :: run_status
  res_execution_attempt :: int
  res_output_summary :: json
  res_error_code :: "string option"

definition before :: "time option \<Rightarrow> time \<Rightarrow> bool" where
  "before t now = (case t of None \<Rightarrow> False | Some u \<Rightarrow> u < now)"

definition after :: "time option \<Rightarrow> time \<Rightarrow> bool" where
  "after t now = (case t of None \<Rightarrow> False | Some u \<Rightarrow> now < u)"

section \<open>Operations\<close>

definition claimable :: "agent_run \<Rightarrow> bool" where
  "claimable r \<longleftrightarrow> dispatch_state r = Queued \<and> status r \<in> {Pending, WaitingHuman} \<and>
     cancel_requested_at r = None"

definition claim ::
  "int \<Rightarrow> string \<Rightarrow> string \<Rightarrow> time \<Rightarrow> db \<Rightarrow> runtime_error + (lease_context option \<times> db)" where
  "claim lease_seconds rid owner now s =
     (case update_run rid claimable
        (\<lambda>r. r\<lparr>dispatch_state := Claimed, lease_owner := Some owner,
               execution_attempt := execution_attempt r + 1, fencing_token := fencing_token r + 1,
               lease_expires_at := Some (now + seconds lease_seconds), claimed_at := Some now\<rparr>) s of
        None \<Rightarrow> Inr (None, s)
      | Some s1 \<Rightarrow>
          (case find_run s1 rid of
             None \<Rightarrow> Inl AssertionError
           | Some r \<Rightarrow>
               res_bind (transition_run default_limits r (Some Queued) (Some Claimed) s1)
                 (\<lambda>s2. Inr (Some \<lparr>x_execution_attempt = execution_attempt r, x_lease_owner = owner,
                      x_fencing_token = fencing_token r,
                      x_lease_expires_at = now + seconds lease_seconds,
                      x_privacy_version = privacy_version r,
                      x_authorization_version = authorization_version r\<rparr>, s2))))"

definition heartbeat ::
  "int \<Rightarrow> string \<Rightarrow> lease_context \<Rightarrow> time \<Rightarrow> db \<Rightarrow> bool \<times> lease_context \<times> db" where
  "heartbeat lease_seconds rid ctx now s =
     (let renewed_until = now + seconds lease_seconds in
      case update_run rid
        (\<lambda>r. dispatch_state r = Claimed \<and> lease_owner r = Some (x_lease_owner ctx) \<and>
             fencing_token r = x_fencing_token ctx \<and>
             execution_attempt r = x_execution_attempt ctx \<and>
             cancel_requested_at r = None \<and> privacy_state r = PrivacyActive \<and>
             privacy_version r = x_privacy_version ctx \<and>
             authorization_version r = x_authorization_version ctx \<and>
             after (lease_expires_at r) now \<and> now < run_deadline_at r)
        (\<lambda>r. r\<lparr>lease_expires_at := Some renewed_until\<rparr>) s of
        None \<Rightarrow> (False, ctx, s)
      | Some s1 \<Rightarrow> (True, ctx\<lparr>x_lease_expires_at := renewed_until\<rparr>, s1))"

definition can_write :: "string \<Rightarrow> lease_context \<Rightarrow> time \<Rightarrow> db \<Rightarrow> bool" where
  "can_write rid ctx now s =
     (case find_run s rid of
        None \<Rightarrow> False
      | Some r \<Rightarrow>
          dispatch_state r = Claimed \<and> lease_owner r = Some (x_lease_owner ctx) \<and>
          fencing_token r = x_fencing_token ctx \<and> privacy_state r = PrivacyActive \<and>
          privacy_version r = x_privacy_version ctx \<and>
          authorization_version r = x_authorization_version ctx \<and>
          cancel_requested_at r = None \<and> after (lease_expires_at r) now \<and>
          now < x_lease_expires_at ctx \<and> now < run_deadline_at r \<and>
          package_executable s r)"

text \<open>Release of a claimed run into \<open>finished\<close>, with its admission move and callback.\<close>

definition finish ::
  "agent_run_result \<Rightarrow> lease_context \<Rightarrow> time \<Rightarrow> db \<Rightarrow> runtime_error + (bool \<times> db)" where
  "finish result ctx now s =
     (if res_status result \<notin> set terminal_states \<or> \<not> can_write (res_run_id result) ctx now s
      then Inr (False, s)
      else (case find_run s (res_run_id result) of
          None \<Rightarrow> Inl AssertionError
        | Some r \<Rightarrow>
            res_bind (transition_run default_limits r (Some Claimed) (Some Finished)
               (set_run (res_run_id result)
                 (\<lambda>r. r\<lparr>status := res_status result, dispatch_state := Finished, lease_owner := None,
                        lease_expires_at := None, finished_at := Some now,
                        status_version := status_version r + 1,
                        error_code := res_error_code result\<rparr>) s))
              (\<lambda>s1. res_bind (append_callback (res_run_id result) (res_status result) now s1)
                (\<lambda>s2. Inr (True, s2)))))"

definition release_for_drain :: "string \<Rightarrow> lease_context \<Rightarrow> time \<Rightarrow> db \<Rightarrow> bool \<times> db" where
  "release_for_drain rid ctx now s =
     (if \<not> can_write rid ctx now s then (False, s)
      else (True, set_run rid (\<lambda>r. r\<lparr>lease_expires_at := Some now\<rparr>) s))"

definition finish_after_invalid_boundary ::
  "string \<Rightarrow> lease_context \<Rightarrow> time \<Rightarrow> db \<Rightarrow> runtime_error + (bool \<times> db)" where
  "finish_after_invalid_boundary rid ctx now s =
     (case find_run s rid of
        None \<Rightarrow> Inr (False, s)
      | Some r \<Rightarrow>
          if dispatch_state r \<noteq> Claimed \<or> lease_owner r \<noteq> Some (x_lease_owner ctx) \<or>
             fencing_token r \<noteq> x_fencing_token ctx \<or>
             execution_attempt r \<noteq> x_execution_attempt ctx \<or>
             (cancel_requested_at r = None \<and> privacy_state r = PrivacyActive)
          then Inr (False, s)
          else res_bind (transition_run default_limits r (Some Claimed) (Some Finished)
               (set_run rid (\<lambda>r. r\<lparr>status := Cancelled, dispatch_state := Finished,
                        lease_owner := None, lease_expires_at := None, finished_at := Some now,
                        status_version := status_version r + 1\<rparr>) s))
              (\<lambda>s1. res_bind (append_callback rid Cancelled now s1) (\<lambda>s2. Inr (True, s2))))"

definition pause_for_human ::
  "string \<Rightarrow> lease_context \<Rightarrow> int \<Rightarrow> time \<Rightarrow> db \<Rightarrow> runtime_error + (bool \<times> db)" where
  "pause_for_human rid ctx timeout_seconds now s =
     (if timeout_seconds \<le> 0 \<or> \<not> can_write rid ctx now s then Inr (False, s)
      else (case find_run s rid of
          None \<Rightarrow> Inl AssertionError
        | Some r \<Rightarrow>
            res_bind (transition_run default_limits r (Some Claimed) (Some Finished)
               (set_run rid (\<lambda>r. r\<lparr>status := WaitingHuman, dispatch_state := Finished,
                        waiting_expires_at := Some (now + seconds timeout_seconds),
                        lease_owner := None, lease_expires_at := None,
                        status_version := status_version r + 1\<rparr>) s))
              (\<lambda>s1. Inr (True, append_callback_event rid WaitingHumanEvent JNull now s1))))"

text \<open>The loop body of the reaper for one row \<open>r\<close> as selected, and the loop.\<close>

definition reap_one ::
  "time \<Rightarrow> agent_run \<Rightarrow> db \<Rightarrow> runtime_error + (string option \<times> db)" where
  "reap_one now r s =
     (let c = (\<lambda>x. status x = status r \<and> dispatch_state x = Claimed \<and> before (lease_expires_at x) now)
      in if \<not> package_executable s r then
           (case update_run (run_id r) c
              (\<lambda>x. x\<lparr>status := Cancelled, dispatch_state := Finished, lease_owner := None,
                     lease_expires_at := None, finished_at := Some now,
                     status_version := status_version x + 1,
                     error_code := Some ''PACKAGE_REVOKED''\<rparr>) s of
              None \<Rightarrow> Inr (None, s)
            | Some s1 \<Rightarrow>
                res_bind (transition_run default_limits r (Some Claimed) (Some Finished) s1)
                  (\<lambda>s2. res_bind (append_callback (run_id r) Cancelled now s2)
                    (\<lambda>s3. Inr (None, s3))))
         else
           (let next_status = (if status r \<in> {Planning, Running, Evaluating} then Pending else status r)
            in case update_run (run_id r) c
              (\<lambda>x. x\<lparr>status := next_status, dispatch_state := Queued, lease_owner := None,
                     lease_expires_at := None, queued_at := Some now,
                     status_version := (if next_status \<noteq> status r then status_version x + 1
                                        else status_version x)\<rparr>) s of
              None \<Rightarrow> Inr (None, s)
            | Some s1 \<Rightarrow>
                res_bind (transition_run default_limits r (Some Claimed) (Some Queued) s1)
                  (\<lambda>s2. Inr (Some (run_id r), append_run_dispatch (run_id r) ''lease_reaped'' now s2))))"

fun reap_loop ::
  "time \<Rightarrow> agent_run list \<Rightarrow> db \<Rightarrow> runtime_error + (string list \<times> db)" where
  "reap_loop now [] s = Inr ([], s)"
| "reap_loop now (r # rs) s =
     res_bind (reap_one now r s)
       (\<lambda>(rec, s1). res_bind (reap_loop now rs s1)
          (\<lambda>(recs, s2). Inr (case rec of None \<Rightarrow> recs | Some i \<Rightarrow> i # recs, s2)))"

definition reap_expired :: "time \<Rightarrow> db \<Rightarrow> runtime_error + (string list \<times> db)" where
  "reap_expired now s =
     reap_loop now (filter (\<lambda>r. dispatch_state r = Claimed \<and> before (lease_expires_at r) now) (runs s)) s"

section \<open>Every operation is sound\<close>

lemma can_writeD:
  assumes "can_write rid ctx now s"
  obtains r where "find_run s rid = Some r" "dispatch_state r = Claimed"
    "lease_owner r = Some (x_lease_owner ctx)" "fencing_token r = x_fencing_token ctx"
    "privacy_state r = PrivacyActive" "privacy_version r = x_privacy_version ctx"
    "cancel_requested_at r = None" "after (lease_expires_at r) now" "package_executable s r"
    "now < run_deadline_at r" "now < x_lease_expires_at ctx"
  using assms that by (auto simp: can_write_def split: option.splits)

text \<open>Releasing a claimed row: used by finish, the invalid boundary and the pause.\<close>

lemma claimed_row_facts:
  "inv_db s \<Longrightarrow> find_run s rid = Some r \<Longrightarrow> dispatch_state r = Claimed \<Longrightarrow>
    row_ok r \<and> \<not> terminal (status r)"
  using inv_db_row [of s rid r] by (auto simp: row_ok_def)

lemma sound_then_callback:
  assumes "sound s s1" "find_run s rid = Some r" "append_callback rid st now s1 = Inr s2"
  shows "sound s s2"
proof -
  obtain r1 where "find_run s1 rid = Some r1"
    using assms(1,2) by (auto simp: sound_def advances_def)
  with assms show ?thesis
    by (blast intro: sound_trans step_terminal_callback soundD)
qed

lemma sound_then_event:
  assumes "sound s s1" "find_run s rid = Some r"
  shows "sound s (append_callback_event rid ev tr now s1)"
proof -
  obtain r1 where "find_run s1 rid = Some r1"
    using assms by (auto simp: sound_def advances_def)
  with assms show ?thesis by (blast intro: sound_trans step_callback soundD)
qed

lemma sound_then_dispatch: "sound s s1 \<Longrightarrow> sound s (append_run_dispatch rid w now s1)"
  by (blast intro: sound_trans step_outbox soundD)

lemma sound_then_audit: "sound s s1 \<Longrightarrow> sound s (append_audit_record a b c d e f g h i now s1)"
  by (blast intro: sound_trans step_audit soundD)

lemma claim_cases:
  assumes inv: "inv_db s" and c: "claim ls rid owner now s = Inr (ctx, s')"
  obtains (none) "ctx = None" "s' = s" "\<And>r. find_run s rid = Some r \<Longrightarrow> \<not> claimable r"
  | (granted) r f where "find_run s rid = Some r" "claimable r"
      "f = (\<lambda>r. r\<lparr>dispatch_state := Claimed, lease_owner := Some owner,
               execution_attempt := execution_attempt r + 1, fencing_token := fencing_token r + 1,
               lease_expires_at := Some (now + seconds ls), claimed_at := Some now\<rparr>)"
      "transition_run default_limits (f r) (Some Queued) (Some Claimed) (set_run rid f s) = Inr s'"
      "ctx = Some \<lparr>x_execution_attempt = execution_attempt r + 1, x_lease_owner = owner,
         x_fencing_token = fencing_token r + 1, x_lease_expires_at = now + seconds ls,
         x_privacy_version = privacy_version r,
         x_authorization_version = authorization_version r\<rparr>"
proof -
  let ?f = "\<lambda>r. r\<lparr>dispatch_state := Claimed, lease_owner := Some owner,
      execution_attempt := execution_attempt r + 1, fencing_token := fencing_token r + 1,
      lease_expires_at := Some (now + seconds ls), claimed_at := Some now\<rparr>"
  show ?thesis
  proof (cases "update_run rid claimable ?f s")
    case None
    with c have "ctx = None" "s' = s" by (simp_all add: claim_def)
    moreover have "\<not> claimable r" if "find_run s rid = Some r" for r
      using None that by (simp add: update_run_None_iff inv_db_wf [OF inv])
    ultimately show ?thesis by (rule none)
  next
    case (Some s1)
    then obtain r where r: "find_run s rid = Some r" "claimable r" and s1: "s1 = set_run rid ?f s"
      by (auto simp: update_run_Some_iff inv_db_wf [OF inv])
    have f1: "find_run s1 rid = Some (?f r)"
      using r find_run_id [OF r(1)] by (simp add: s1 find_run_set_run)
    from c Some f1 have "transition_run default_limits (?f r) (Some Queued) (Some Claimed) s1 = Inr s'"
      and "ctx = Some \<lparr>x_execution_attempt = execution_attempt r + 1, x_lease_owner = owner,
         x_fencing_token = fencing_token r + 1, x_lease_expires_at = now + seconds ls,
         x_privacy_version = privacy_version r,
         x_authorization_version = authorization_version r\<rparr>"
      by (auto simp: claim_def res_simps)
    then show ?thesis using granted [OF r refl] s1 by simp
  qed
qed

lemma claim_sound:
  assumes inv: "inv_db s" and c: "claim ls rid owner now s = Inr (ctx, s')"
  shows "sound s s'"
  using inv c
proof (cases rule: claim_cases)
  case none
  then show ?thesis using sound_refl [OF inv] by simp
next
  case (granted r f)
  have ok: "row_ok (f r)"
    using inv_db_row [OF inv granted(1)] granted(2)
    unfolding granted(3) row_ok_def claimable_def terminal_def by auto
  have le: "run_le r (f r)"
    using granted(2,3) by (auto simp: run_le_def same_identity_def claimable_def)
  have q: "dispatch_state r = Queued" "dispatch_state (f r) = Claimed"
    using granted(2,3) by (simp_all add: claimable_def)
  show ?thesis
  proof (rule step_dispatch [where f = f and x = "f r" and lims = default_limits,
        OF inv granted(1) _ _ ok le])
    show "transition_run default_limits (f r) (Some (dispatch_state r))
        (Some (dispatch_state (f r))) (set_run rid f s) = Inr s'"
      unfolding q by (rule granted(4))
  qed (simp_all add: granted(3) run_scopes_def)
qed

lemma heartbeat_sound:
  assumes inv: "inv_db s" and h: "heartbeat ls rid ctx now s = (ok, ctx', s')"
  shows "sound s s'"
proof -
  let ?f = "\<lambda>r. r\<lparr>lease_expires_at := Some (now + seconds ls)\<rparr>"
  consider "s' = s" | r where "find_run s rid = Some r" "dispatch_state r = Claimed"
      "s' = set_run rid ?f s"
  proof (cases ok)
    case True
    with h obtain c where u: "update_run rid c ?f s = Some s'" and c: "\<And>r. c r \<Longrightarrow> dispatch_state r = Claimed"
      by (simp add: heartbeat_def Let_def split: option.splits)
    from u inv_db_wf [OF inv] show ?thesis by (rule update_run_SomeE) (use that c in blast)
  next
    case False
    with h have "s' = s" by (simp add: heartbeat_def Let_def split: option.splits)
    then show ?thesis by (rule that(1))
  qed
  then show ?thesis
  proof cases
    case 1
    then show ?thesis using sound_refl [OF inv] by simp
  next
    case (2 r)
    have "row_ok (?f r)" using inv_db_row [OF inv 2(1)] 2(2) by (auto simp: row_ok_def)
    moreover have "run_le r (?f r)" by (simp add: run_le_def same_identity_def)
    ultimately show ?thesis
      using step_columns [OF inv 2(1), of ?f] 2(3) by (simp add: run_scopes_def)
  qed
qed

lemma release_row:
  assumes inv: "inv_db s" and r: "find_run s rid = Some r" "dispatch_state r = Claimed"
    and st: "terminal st \<or> st = WaitingHuman"
    and f: "\<And>x. same_identity x (f x)" "\<And>x. last_event_seq (f x) = last_event_seq x"
      "\<And>x. dispatch_state (f x) = Finished" "\<And>x. status (f x) = st"
      "\<And>x. lease_owner (f x) = None" "\<And>x. lease_expires_at (f x) = None"
      "\<And>x. status_version (f x) = status_version x + 1"
      "\<And>x. fencing_token (f x) = fencing_token x" "\<And>x. execution_attempt (f x) = execution_attempt x"
      "\<And>x. manual_retry_count (f x) = manual_retry_count x"
      "\<And>x. privacy_version (f x) = privacy_version x" "\<And>x. privacy_state (f x) = privacy_state x"
      "\<And>x. cancel_requested_at (f x) = cancel_requested_at x"
    and tr: "transition_run default_limits r (Some Claimed) (Some Finished) (set_run rid f s) = Inr s1"
  shows "sound s s1"
proof -
  have row: "row_ok r" "\<not> terminal (status r)"
    using claimed_row_facts [OF inv r] by auto
  then have "row_ok (f r)" using st f by (auto simp: row_ok_def)
  moreover have "run_le r (f r)" using row f by (auto simp: run_le_def terminal_def)
  moreover have "run_id (f x) = run_id x" for x using f(1) [of x] by (simp add: same_identity_def)
  ultimately show ?thesis
    using step_dispatch [OF inv r(1), of f r default_limits s1] f tr r(2) by simp
qed

lemma finish_sound:
  assumes inv: "inv_db s" and fin: "finish result ctx now s = Inr (ok, s')"
  shows "sound s s'"
proof (cases "res_status result \<in> set terminal_states \<and> can_write (res_run_id result) ctx now s")
  case False
  with fin show ?thesis using sound_refl [OF inv] by (auto simp: finish_def)
next
  case True
  then obtain r where r: "find_run s (res_run_id result) = Some r" "dispatch_state r = Claimed"
    by (auto elim: can_writeD)
  have st: "terminal (res_status result)"
    using True by (auto simp: terminal_states_def terminal_def)
  from fin True r obtain s1 where
    tr: "transition_run default_limits r (Some Claimed) (Some Finished)
       (set_run (res_run_id result) (\<lambda>r. r\<lparr>status := res_status result, dispatch_state := Finished,
          lease_owner := None, lease_expires_at := None, finished_at := Some now,
          status_version := status_version r + 1, error_code := res_error_code result\<rparr>) s) = Inr s1"
    and cb: "append_callback (res_run_id result) (res_status result) now s1 = Inr s'"
    by (auto simp: finish_def res_simps)
  have "sound s s1"
    by (rule release_row [OF inv r _ _ _ _ _ _ _ _ _ _ _ _ _ _ tr, of "res_status result"])
       (use st in \<open>simp_all add: same_identity_def\<close>)
  then show ?thesis using r(1) cb by (rule sound_then_callback)
qed

lemma finish_after_invalid_boundary_sound:
  assumes inv: "inv_db s" and fin: "finish_after_invalid_boundary rid ctx now s = Inr (ok, s')"
  shows "sound s s'"
proof (cases "s' = s")
  case True
  then show ?thesis using sound_refl [OF inv] by simp
next
  case False
  with fin obtain r s1 where r: "find_run s rid = Some r" "dispatch_state r = Claimed"
    and tr: "transition_run default_limits r (Some Claimed) (Some Finished)
       (set_run rid (\<lambda>r. r\<lparr>status := Cancelled, dispatch_state := Finished,
          lease_owner := None, lease_expires_at := None, finished_at := Some now,
          status_version := status_version r + 1\<rparr>) s) = Inr s1"
    and cb: "append_callback rid Cancelled now s1 = Inr s'"
    by (auto simp: finish_after_invalid_boundary_def res_simps split: option.splits if_splits)
  have "sound s s1"
    by (rule release_row [OF inv r _ _ _ _ _ _ _ _ _ _ _ _ _ _ tr, of Cancelled])
       (simp_all add: same_identity_def terminal_def)
  then show ?thesis using r(1) cb by (rule sound_then_callback)
qed

lemma pause_for_human_sound:
  assumes inv: "inv_db s" and p: "pause_for_human rid ctx tmo now s = Inr (ok, s')"
  shows "sound s s'"
proof (cases "tmo \<le> 0 \<or> \<not> can_write rid ctx now s")
  case True
  with p show ?thesis using sound_refl [OF inv] by (auto simp: pause_for_human_def)
next
  case False
  then obtain r where r: "find_run s rid = Some r" "dispatch_state r = Claimed"
    by (auto elim: can_writeD)
  from p False r obtain s1 where
    tr: "transition_run default_limits r (Some Claimed) (Some Finished)
       (set_run rid (\<lambda>r. r\<lparr>status := WaitingHuman, dispatch_state := Finished,
          waiting_expires_at := Some (now + seconds tmo), lease_owner := None,
          lease_expires_at := None, status_version := status_version r + 1\<rparr>) s) = Inr s1"
    and s': "s' = append_callback_event rid WaitingHumanEvent JNull now s1"
    by (auto simp: pause_for_human_def res_simps)
  have "sound s s1"
    by (rule release_row [OF inv r _ _ _ _ _ _ _ _ _ _ _ _ _ _ tr, of WaitingHuman])
       (simp_all add: same_identity_def)
  then show ?thesis unfolding s' using r(1) by (rule sound_then_event)
qed

lemma release_for_drain_sound:
  assumes inv: "inv_db s" and rel: "release_for_drain rid ctx now s = (ok, s')"
  shows "sound s s'"
proof (cases "can_write rid ctx now s")
  case False
  with rel show ?thesis using sound_refl [OF inv] by (simp add: release_for_drain_def)
next
  case True
  then obtain r where r: "find_run s rid = Some r" "dispatch_state r = Claimed"
    by (auto elim: can_writeD)
  let ?f = "\<lambda>r. r\<lparr>lease_expires_at := Some now\<rparr>"
  have "row_ok (?f r)" using inv_db_row [OF inv r(1)] r(2) by (auto simp: row_ok_def)
  moreover have "run_le r (?f r)" by (simp add: run_le_def same_identity_def)
  moreover have "s' = set_run rid ?f s" using rel True by (simp add: release_for_drain_def)
  ultimately show ?thesis
    using step_columns [OF inv r(1), of ?f] by (simp add: run_scopes_def)
qed

text \<open>
  The reaper works on the rows it selected; a row that other iterations passed over keeps its
  identity, which is all the admission move reads from it.
\<close>

definition selected :: "db \<Rightarrow> agent_run \<Rightarrow> bool" where
  "selected s r \<longleftrightarrow> (\<exists>x. find_run s (run_id r) = Some x \<and> same_identity r x)"

lemma selected_refl: "wf_db s \<Longrightarrow> r \<in> set (runs s) \<Longrightarrow> selected s r"
  by (auto simp: selected_def find_run_iff same_identity_def)

lemma same_identity_trans: "same_identity a b \<Longrightarrow> same_identity b c \<Longrightarrow> same_identity a c"
  by (simp add: same_identity_def)

lemma selected_advances: "selected s r \<Longrightarrow> advances s s' \<Longrightarrow> selected s' r"
  unfolding selected_def advances_def using same_identity_trans run_le_identity by blast

lemma reap_row:
  assumes inv: "inv_db s" and x: "find_run s (run_id r) = Some x" "dispatch_state x = Claimed"
    and st: "status x = status r" and sel: "run_scopes x = run_scopes r"
    and f: "f = (\<lambda>x. x\<lparr>status := (if status r \<in> {Planning, Running, Evaluating} then Pending else status r),
       dispatch_state := Queued, lease_owner := None, lease_expires_at := None, queued_at := Some now,
       status_version := (if (if status r \<in> {Planning, Running, Evaluating} then Pending else status r) \<noteq> status r
          then status_version x + 1 else status_version x)\<rparr>)"
    and tr: "transition_run default_limits r (Some Claimed) (Some Queued) (set_run (run_id r) f s) = Inr s1"
  shows "sound s s1"
proof -
  have row: "row_ok x" "\<not> terminal (status x)" using claimed_row_facts [OF inv x] by auto
  have nt: "status r \<in> {Pending, Planning, Running, Evaluating, WaitingHuman}"
    using row(2) st by (cases "status r") (simp_all add: terminal_def)
  have ok: "row_ok (f x)"
    using row(1) nt x(2) unfolding f row_ok_def by (auto simp: terminal_def)
  have le: "run_le x (f x)"
    using nt st unfolding f run_le_def same_identity_def by auto
  have q: "dispatch_state (f x) = Queued" by (simp add: f)
  show ?thesis
  proof (rule step_dispatch [where f = f and x = r and lims = default_limits, OF inv x(1) _ _ ok le])
    show "transition_run default_limits r (Some (dispatch_state x)) (Some (dispatch_state (f x)))
        (set_run (run_id r) f s) = Inr s1"
      unfolding q x(2) by (rule tr)
  qed (simp_all add: f sel)
qed

lemma reap_one_sound:
  assumes inv: "inv_db s" and sel: "selected s r" and reap: "reap_one now r s = Inr (out, s')"
  shows "sound s s'"
proof -
  let ?c = "\<lambda>x. status x = status r \<and> dispatch_state x = Claimed \<and> before (lease_expires_at x) now"
  have sc: "run_scopes x = run_scopes r" if "find_run s (run_id r) = Some x" for x
    using sel that same_identity_scopes by (auto simp: selected_def)
  show ?thesis
  proof (cases "package_executable s r")
    case False
    let ?f = "\<lambda>x. x\<lparr>status := Cancelled, dispatch_state := Finished, lease_owner := None,
        lease_expires_at := None, finished_at := Some now, status_version := status_version x + 1,
        error_code := Some ''PACKAGE_REVOKED''\<rparr>"
    show ?thesis
    proof (cases "update_run (run_id r) ?c ?f s")
      case None
      with reap False show ?thesis using sound_refl [OF inv] by (simp add: reap_one_def Let_def)
    next
      case (Some s1)
      with reap False obtain s2 where
        tr: "transition_run default_limits r (Some Claimed) (Some Finished) s1 = Inr s2"
        and cb: "append_callback (run_id r) Cancelled now s2 = Inr s'"
        by (auto simp: reap_one_def Let_def res_simps)
      from Some inv_db_wf [OF inv] obtain x where x: "find_run s (run_id r) = Some x"
        "dispatch_state x = Claimed" and s1: "s1 = set_run (run_id r) ?f s"
        by (rule update_run_SomeE) simp
      have tr': "transition_run default_limits x (Some Claimed) (Some Finished) s1 = Inr s2"
        using tr sc [OF x(1)] by (simp add: transition_run_def)
      have "sound s s2"
        by (rule release_row [OF inv x _ _ _ _ _ _ _ _ _ _ _ _ _ _ tr' [unfolded s1], of Cancelled])
           (simp_all add: same_identity_def terminal_def)
      then show ?thesis using x(1) cb by (rule sound_then_callback)
    qed
  next
    case True
    define f where "f = (\<lambda>x :: agent_run. x\<lparr>status := (if status r \<in> {Planning, Running, Evaluating} then Pending else status r),
       dispatch_state := Queued, lease_owner := None, lease_expires_at := None, queued_at := Some now,
       status_version := (if (if status r \<in> {Planning, Running, Evaluating} then Pending else status r) \<noteq> status r
          then status_version x + 1 else status_version x)\<rparr>)"
    have eq: "reap_one now r s = (case update_run (run_id r) ?c f s of None \<Rightarrow> Inr (None, s)
       | Some s1 \<Rightarrow> res_bind (transition_run default_limits r (Some Claimed) (Some Queued) s1)
           (\<lambda>s2. Inr (Some (run_id r), append_run_dispatch (run_id r) ''lease_reaped'' now s2)))"
      unfolding reap_one_def Let_def f_def using True by simp
    show ?thesis
    proof (cases "update_run (run_id r) ?c f s")
      case None
      with reap eq show ?thesis using sound_refl [OF inv] by simp
    next
      case (Some s1)
      with reap eq obtain s2 where
        tr: "transition_run default_limits r (Some Claimed) (Some Queued) s1 = Inr s2"
        and s': "s' = append_run_dispatch (run_id r) ''lease_reaped'' now s2"
        by (auto simp: res_simps)
      from Some inv_db_wf [OF inv] obtain x where x: "find_run s (run_id r) = Some x"
        "dispatch_state x = Claimed" "status x = status r" and s1: "s1 = set_run (run_id r) f s"
        by (rule update_run_SomeE) simp
      have "sound s s2"
        by (rule reap_row [OF inv x sc [OF x(1)] f_def tr [unfolded s1]])
      then show ?thesis unfolding s' by (rule sound_then_dispatch)
    qed
  qed
qed

lemma reap_loop_sound:
  "inv_db s \<Longrightarrow> (\<And>r. r \<in> set rs \<Longrightarrow> selected s r) \<Longrightarrow> reap_loop now rs s = Inr (out, s') \<Longrightarrow> sound s s'"
proof (induction rs arbitrary: s out)
  case Nil
  then show ?case by (simp add: sound_refl)
next
  case (Cons r rs)
  from Cons.prems(3) obtain o1 s1 o2 where one: "reap_one now r s = Inr (o1, s1)"
    and rest: "reap_loop now rs s1 = Inr (o2, s')"
    by (auto simp: res_simps)
  have snd: "sound s s1"
    by (rule reap_one_sound [OF Cons.prems(1) _ one]) (simp add: Cons.prems(2))
  have "sound s1 s'"
    by (rule Cons.IH [OF soundD(1) [OF snd] _ rest])
       (use Cons.prems(2) selected_advances [OF _ soundD(2) [OF snd]] in simp)
  with snd show ?case by (rule sound_trans)
qed

lemma reap_expired_sound:
  "inv_db s \<Longrightarrow> reap_expired now s = Inr (out, s') \<Longrightarrow> sound s s'"
  unfolding reap_expired_def
  by (rule reap_loop_sound) (auto intro: selected_refl inv_db_wf)

section \<open>The fencing contract\<close>

definition run_token :: "db \<Rightarrow> string \<Rightarrow> int option" where
  "run_token s rid = map_option fencing_token (find_run s rid)"

definition run_grant :: "db \<Rightarrow> string \<Rightarrow> int \<Rightarrow> db \<Rightarrow> bool" where
  "run_grant s rid n s' \<longleftrightarrow> inv_db s \<and>
     (\<exists>ls owner now ctx. claim ls rid owner now s = Inr (Some ctx, s') \<and> x_fencing_token ctx = n)"

definition run_accepts :: "db \<Rightarrow> string \<Rightarrow> int \<Rightarrow> bool" where
  "run_accepts s rid n \<longleftrightarrow> (\<exists>ctx now. x_fencing_token ctx = n \<and> can_write rid ctx now s)"

lemma claim_granted_row:
  assumes "inv_db s" "claim ls rid owner now s = Inr (Some ctx, s')"
  shows "\<exists>r r'. find_run s rid = Some r \<and> claimable r \<and> find_run s' rid = Some r' \<and>
    r' = r\<lparr>dispatch_state := Claimed, lease_owner := Some owner,
           execution_attempt := execution_attempt r + 1, fencing_token := fencing_token r + 1,
           lease_expires_at := Some (now + seconds ls), claimed_at := Some now\<rparr> \<and>
    ctx = \<lparr>x_execution_attempt = execution_attempt r', x_lease_owner = owner,
         x_fencing_token = fencing_token r', x_lease_expires_at = now + seconds ls,
         x_privacy_version = privacy_version r',
         x_authorization_version = authorization_version r'\<rparr>"
  using assms
proof (cases rule: claim_cases)
  case none
  then show ?thesis by simp
next
  case (granted r f)
  then show ?thesis
    using find_run_id [OF granted(1)] by (simp add: transition_run_find [OF granted(4)] find_run_set_run)
qed

interpretation run_lease: fenced_lease run_token run_grant run_accepts advances
proof unfold_locales
  fix s s' :: db and k n m
  show "run_grant s k n s' \<Longrightarrow> run_token s' k = Some n"
    by (auto simp: run_grant_def run_token_def dest!: claim_granted_row)
  show "run_grant s k n s' \<Longrightarrow> run_token s k = Some m \<Longrightarrow> m < n"
    by (auto simp: run_grant_def run_token_def dest!: claim_granted_row)
  show "run_accepts s k n \<Longrightarrow> run_token s k = Some n"
    by (auto simp: run_accepts_def run_token_def elim!: can_writeD)
  show "advances s s' \<Longrightarrow> run_token s k = Some m \<Longrightarrow> \<exists>m'\<ge>m. run_token s' k = Some m'"
    by (fastforce simp: run_token_def advances_def run_le_def)
qed

section \<open>Properties\<close>

text \<open>C2. A run is claimed by one Worker at a time: right after a successful claim every other
  claim of the run, by whatever owner and at whatever time, is turned down and writes nothing.\<close>

theorem claim_exclusive:
  assumes "inv_db s" "claim ls rid owner now s = Inr (Some ctx, s')"
  shows "claim ls' rid owner' now' s' = Inr (None, s')"
proof -
  have inv': "inv_db s'" using claim_sound [OF assms] by (rule soundD)
  obtain r' where "find_run s' rid = Some r'" "dispatch_state r' = Claimed"
    using claim_granted_row [OF assms] by auto
  then have "\<forall>f. update_run rid claimable f s' = None"
    by (simp add: update_run_None_iff inv_db_wf [OF inv'] claimable_def)
  then show ?thesis by (simp add: claim_def)
qed

lemma demo_claim:
  "\<exists>ctx s'. claim 60 ''0'' ''w1'' 5 (demo_db (demo_run Pending Queued)) = Inr (Some ctx, s')"
  by (rule result_granted) code_simp+

theorem claim_exclusive_witness:
  "\<exists>ctx s'. claim 60 ''0'' ''w1'' 5 (demo_db (demo_run Pending Queued)) = Inr (Some ctx, s') \<and>
     claim 60 ''0'' ''w2'' 9 s' = Inr (None, s')"
  using demo_claim claim_exclusive [OF inv_demo_states(2)] by blast

text \<open>The context handed out by a claim is good for writing until its lease, the stored lease
  or the run deadline ends, unless the package was revoked or a privacy barrier is up.\<close>

lemma claim_then_write:
  assumes "inv_db s" "claim ls rid owner now s = Inr (Some ctx, s')" "find_run s rid = Some r"
  shows "can_write rid ctx t s' \<longleftrightarrow>
    t < now + seconds ls \<and> t < run_deadline_at r \<and> privacy_state r = PrivacyActive \<and>
    package_executable s r"
proof -
  obtain f s1 where "s1 = set_run rid f s" "buckets s1 = buckets s" and
    tr: "transition_run default_limits (f r) (Some Queued) (Some Claimed) s1 = Inr s'"
    using assms by (cases rule: claim_cases) auto
  then have defs: "definitions s' = definitions s"
    using transition_run_frame [OF tr] by (metis db.select_convs(1) db.surjective db.update_convs(3) set_run_simps(1))
  have "package_executable s' r' = package_executable s r"
    if "r' = r\<lparr>dispatch_state := a, lease_owner := b, execution_attempt := c,
      fencing_token := d, lease_expires_at := e, claimed_at := g\<rparr>" for r' a b c d e g
    by (rule package_executable_same [OF _ defs]) (simp add: that same_identity_def)
  then show ?thesis
    using claim_granted_row [OF assms(1,2)] assms(3)
    by (auto simp: can_write_def after_def claimable_def)
qed

text \<open>C1. A Worker whose run was claimed again is shut out for good: in every later state its
  context passes no write gate, renews no lease and settles no run, and none of these calls
  writes anything.\<close>

theorem stale_context_rejected:
  assumes "inv_db s" "claim ls rid owner now s = Inr (Some ctx, s1)" "advances s1 s2"
    and "inv_db s2" "claim ls2 rid owner2 now2 s2 = Inr (Some ctx2, s3)" "advances s3 s4" "inv_db s4"
    and "res_run_id result = rid"
  shows "\<not> can_write rid ctx t s4 \<and> heartbeat lsx rid ctx t s4 = (False, ctx, s4) \<and>
    finish result ctx t s4 = Inr (False, s4) \<and> release_for_drain rid ctx t s4 = (False, s4) \<and>
    pause_for_human rid ctx tmo t s4 = Inr (False, s4) \<and>
    finish_after_invalid_boundary rid ctx t s4 = Inr (False, s4)"
proof -
  have g: "run_grant s rid (x_fencing_token ctx) s1" "run_grant s2 rid (x_fencing_token ctx2) s3"
    using assms by (auto simp: run_grant_def)
  have lt: "x_fencing_token ctx < x_fencing_token ctx2"
    by (rule run_lease.grants_increase [OF g(1) assms(3) g(2)])
  obtain r4 where r4: "find_run s4 rid = Some r4" "x_fencing_token ctx2 \<le> fencing_token r4"
    using run_lease.later_token [OF assms(6) run_lease.grant_token [OF g(2)]]
    by (auto simp: run_token_def)
  then have ne: "fencing_token r4 \<noteq> x_fencing_token ctx" using lt by simp
  have w: "\<not> can_write rid ctx t s4"
    using run_lease.stale_rejected [OF g(1) assms(3) g(2) assms(6)] by (auto simp: run_accepts_def)
  have "update_run rid c f s4 = None" if "\<not> c r4" for c f
    using that r4(1) by (simp add: update_run_None_iff inv_db_wf [OF assms(7)])
  with ne have "heartbeat lsx rid ctx t s4 = (False, ctx, s4)" by (simp add: heartbeat_def Let_def)
  moreover have "finish_after_invalid_boundary rid ctx t s4 = Inr (False, s4)"
    using ne r4(1) by (simp add: finish_after_invalid_boundary_def)
  ultimately show ?thesis
    using w assms(8) by (simp add: finish_def release_for_drain_def pause_for_human_def)
qed

definition demo_lost :: "db \<times> lease_context" where
  "demo_lost = (let (c, s1) = projr (claim 60 ''0'' ''w1'' 5 (demo_db (demo_run Pending Queued)))
     in (snd (projr (reap_expired (seconds 100) s1)), the c))"

lemma demo_lost_steps:
  "\<exists>s1 out. claim 60 ''0'' ''w1'' 5 (demo_db (demo_run Pending Queued)) = Inr (Some (snd demo_lost), s1) \<and>
     reap_expired (seconds 100) s1 = Inr (out, fst demo_lost)"
proof -
  obtain ctx s1 where c: "claim 60 ''0'' ''w1'' 5 (demo_db (demo_run Pending Queued)) = Inr (Some ctx, s1)"
    using demo_claim by blast
  have "\<not> isl (reap_expired (seconds 100)
      (snd (projr (claim 60 ''0'' ''w1'' 5 (demo_db (demo_run Pending Queued))))))"
    by code_simp
  then show ?thesis using c by (cases "reap_expired (seconds 100) s1") (auto simp: demo_lost_def)
qed

theorem stale_context_rejected_witness:
  "\<exists>ctx2 s3. claim 60 ''0'' ''w2'' (seconds 101) (fst demo_lost) = Inr (Some ctx2, s3) \<and>
     \<not> can_write ''0'' (snd demo_lost) 9 s3"
proof -
  obtain s1 out where s1: "claim 60 ''0'' ''w1'' 5 (demo_db (demo_run Pending Queued)) = Inr (Some (snd demo_lost), s1)"
    and s2: "reap_expired (seconds 100) s1 = Inr (out, fst demo_lost)"
    using demo_lost_steps by blast
  have "\<exists>ctx2 s3. claim 60 ''0'' ''w2'' (seconds 101) (fst demo_lost) = Inr (Some ctx2, s3)"
    by (rule result_granted) code_simp+
  then obtain ctx2 s3 where s3: "claim 60 ''0'' ''w2'' (seconds 101) (fst demo_lost) = Inr (Some ctx2, s3)"
    by blast
  have snd2: "sound s1 (fst demo_lost)"
    by (rule reap_expired_sound [OF soundD(1) [OF claim_sound [OF inv_demo_states(2) s1]] s2])
  have "\<not> can_write ''0'' (snd demo_lost) 9 s3"
    using stale_context_rejected [OF inv_demo_states(2) s1 soundD(2) [OF snd2] soundD(1) [OF snd2] s3
        advances_refl soundD(1) [OF claim_sound [OF soundD(1) [OF snd2] s3]],
        of "\<lparr>res_run_id = ''0'', res_status = Failed, res_execution_attempt = 1, res_output_summary = JNull,
          res_error_code = None\<rparr>"]
    by simp
  with s3 show ?thesis by blast
qed

text \<open>What a settled run looks like: used for finish.\<close>

lemma finish_True:
  assumes "finish result ctx now s = Inr (True, s')"
  obtains r s1 ev where "find_run s (res_run_id result) = Some r" "dispatch_state r = Claimed"
    "can_write (res_run_id result) ctx now s" "terminal (res_status result)"
    "find_run s1 (res_run_id result) = Some (r\<lparr>status := res_status result, dispatch_state := Finished,
       lease_owner := None, lease_expires_at := None, finished_at := Some now,
       status_version := status_version r + 1, error_code := res_error_code result\<rparr>)"
    "callbacks s1 = callbacks s" "terminal_callback_event (res_status result) = Inr ev"
    "s' = append_callback_event (res_run_id result) ev JNull now s1"
proof -
  let ?f = "\<lambda>r. r\<lparr>status := res_status result, dispatch_state := Finished,
       lease_owner := None, lease_expires_at := None, finished_at := Some now,
       status_version := status_version r + 1, error_code := res_error_code result\<rparr>"
  from assms obtain r s1 ev where st: "res_status result \<in> set terminal_states"
    and w: "can_write (res_run_id result) ctx now s"
    and r: "find_run s (res_run_id result) = Some r"
    and tr: "transition_run default_limits r (Some Claimed) (Some Finished) (set_run (res_run_id result) ?f s) = Inr s1"
    and ev: "terminal_callback_event (res_status result) = Inr ev"
    and s': "s' = append_callback_event (res_run_id result) ev JNull now s1"
    by (auto simp: finish_def append_callback_def res_simps split: if_splits option.splits)
  have "find_run s1 (res_run_id result) = Some (?f r)"
    using r find_run_id [OF r] by (simp add: transition_run_find [OF tr] find_run_set_run)
  moreover have "callbacks s1 = callbacks s"
    using tr by (auto simp: transition_run_def res_simps)
  moreover have "dispatch_state r = Claimed" using w r by (auto elim!: can_writeD)
  moreover have "terminal (res_status result)" using st by (auto simp: terminal_states_def terminal_def)
  ultimately show ?thesis using that r w ev s' by blast
qed

text \<open>A successful settlement is made by the current lease holder, moves the run to the
  reported terminal status with the lease given up and the status version raised by one, and
  appends exactly one callback fact: the next event number with the event type of the status.\<close>

lemma finish_settles:
  assumes "finish result ctx now s = Inr (True, s')" "find_run s (res_run_id result) = Some r"
  shows "fencing_token r = x_fencing_token ctx \<and> lease_owner r = Some (x_lease_owner ctx) \<and>
    (\<exists>r' cb. find_run s' (res_run_id result) = Some r' \<and> status r' = res_status result \<and>
       terminal (status r') \<and> dispatch_state r' = Finished \<and> lease_owner r' = None \<and>
       status_version r' = status_version r + 1 \<and> error_code r' = res_error_code result \<and>
       last_event_seq r' = last_event_seq r + 1 \<and> callbacks s' = callbacks s @ [cb] \<and>
       e_run_id cb = res_run_id result \<and> event_seq cb = last_event_seq r' \<and>
       terminal_callback_event (status r') = Inr (e_event_type cb))"
  using assms(1)
proof (cases rule: finish_True)
  case (1 r0 s1 ev)
  with assms(2) have [simp]: "r0 = r" by simp
  have "fencing_token r = x_fencing_token ctx \<and> lease_owner r = Some (x_lease_owner ctx)"
    using 1(3) assms(2) by (auto elim!: can_writeD)
  then show ?thesis
    using callbacks_append_callback_event [OF 1(5), of ev JNull now] find_run_append_callback_event [OF 1(5), of ev JNull now]
      find_run_id [OF assms(2)] 1(4-8)
    by auto
qed

definition demo_ctx :: lease_context where
  "demo_ctx = \<lparr>x_execution_attempt = 1, x_lease_owner = ''w'', x_fencing_token = 1,
     x_lease_expires_at = seconds 60, x_privacy_version = 1, x_authorization_version = 1\<rparr>"

definition demo_result :: "run_status \<Rightarrow> agent_run_result" where
  "demo_result st = \<lparr>res_run_id = ''0'', res_status = st, res_execution_attempt = 1,
     res_output_summary = JNull, res_error_code = None\<rparr>"

text \<open>The reaper leaves other rows alone and releases the rows it selected.\<close>

lemma find_run_append_callback_other:
  assumes "append_callback rid st now s = Inr s'" "find_run s rid = Some r"
  shows "find_run s' k = map_option (\<lambda>x. if run_id x = rid then x\<lparr>last_event_seq := last_event_seq r + 1\<rparr> else x)
    (find_run s k)"
  using assms find_run_append_callback_event [OF assms(2)] by (auto simp: append_callback_def res_simps)

lemma find_run_append_run_dispatch [simp]: "find_run (append_run_dispatch rid w now s) = find_run s"
  by (simp add: find_run_def frame_simps fun_eq_iff)

definition reaped :: "agent_run \<Rightarrow> bool" where
  "reaped x \<longleftrightarrow> lease_owner x = None \<and>
     (dispatch_state x = Queued \<or> dispatch_state x = Finished \<and> status x = Cancelled)"

lemma find_run_set_other:
  assumes "\<And>x. run_id (f x) = run_id x" "k \<noteq> rid"
  shows "find_run (set_run rid f s) k = find_run s k"
  using assms by (cases "find_run s k") (auto simp: find_run_set_run dest: find_run_id)

lemma reap_one_rows:
  assumes inv: "inv_db s" and r: "find_run s (run_id r) = Some r" "dispatch_state r = Claimed"
      "before (lease_expires_at r) now"
    and reap: "reap_one now r s = Inr (out, s')"
  shows "(\<exists>x. find_run s' (run_id r) = Some x \<and> reaped x) \<and>
    (\<forall>k. k \<noteq> run_id r \<longrightarrow> find_run s' k = find_run s k)"
proof -
  let ?c = "\<lambda>x. status x = status r \<and> dispatch_state x = Claimed \<and> before (lease_expires_at x) now"
  have u: "update_run (run_id r) ?c f s = Some (set_run (run_id r) f s)" for f
    using r by (simp add: update_run_Some_iff inv_db_wf [OF inv])
  show ?thesis
  proof (cases "package_executable s r")
    case True
    define f where "f = (\<lambda>x :: agent_run. x\<lparr>status := (if status r \<in> {Planning, Running, Evaluating} then Pending else status r),
       dispatch_state := Queued, lease_owner := None, lease_expires_at := None, queued_at := Some now,
       status_version := (if (if status r \<in> {Planning, Running, Evaluating} then Pending else status r) \<noteq> status r
          then status_version x + 1 else status_version x)\<rparr>)"
    from reap True obtain s1 where
      tr: "transition_run default_limits r (Some Claimed) (Some Queued) (set_run (run_id r) f s) = Inr s1"
      and s': "s' = append_run_dispatch (run_id r) ''lease_reaped'' now s1"
      unfolding reap_one_def Let_def f_def [symmetric] u by (auto simp: res_simps)
    have ok: "reaped (f r)" "run_id (f x) = run_id x" for x by (simp_all add: f_def reaped_def)
    have "find_run (set_run (run_id r) f s) (run_id r) = Some (f r)"
      using r(1) ok(2) by (simp add: find_run_set_run)
    moreover have "find_run (set_run (run_id r) f s) k = find_run s k" if "k \<noteq> run_id r" for k
      using that ok(2) by (rule find_run_set_other [rotated])
    ultimately show ?thesis using ok(1) by (simp add: s' transition_run_find [OF tr])
  next
    case False
    define f where "f = (\<lambda>x :: agent_run. x\<lparr>status := Cancelled, dispatch_state := Finished, lease_owner := None,
                     lease_expires_at := None, finished_at := Some now,
                     status_version := status_version x + 1,
                     error_code := Some ''PACKAGE_REVOKED''\<rparr>)"
    from reap False obtain s1 where
      tr: "transition_run default_limits r (Some Claimed) (Some Finished) (set_run (run_id r) f s) = Inr s1"
      and cb: "append_callback (run_id r) Cancelled now s1 = Inr s'"
      unfolding reap_one_def Let_def f_def [symmetric] u by (auto simp: res_simps)
    have ok: "reaped ((f r)\<lparr>last_event_seq := n\<rparr>)" "run_id (f x) = run_id x" for n x
      by (simp_all add: f_def reaped_def)
    have f1: "find_run s1 (run_id r) = Some (f r)"
      using r(1) ok(2) by (simp add: transition_run_find [OF tr] find_run_set_run)
    have "find_run s' k = find_run s k" if k: "k \<noteq> run_id r" for k
      using find_run_append_callback_other [OF cb f1, of k] k find_run_id [of s k]
      by (cases "find_run s k") (auto simp: transition_run_find [OF tr] find_run_set_other ok(2))
    then show ?thesis
      using find_run_append_callback_other [OF cb f1, of "run_id r"] f1 ok by simp
  qed
qed

lemma reap_loop_rows:
  "inv_db s \<Longrightarrow> distinct (map run_id rs) \<Longrightarrow>
   (\<And>r. r \<in> set rs \<Longrightarrow> find_run s (run_id r) = Some r \<and> dispatch_state r = Claimed \<and> before (lease_expires_at r) now) \<Longrightarrow>
   reap_loop now rs s = Inr (out, s') \<Longrightarrow>
   (\<forall>r\<in>set rs. \<exists>x. find_run s' (run_id r) = Some x \<and> reaped x) \<and>
   (\<forall>k. k \<notin> run_id ` set rs \<longrightarrow> find_run s' k = find_run s k)"
proof (induction rs arbitrary: s out)
  case Nil
  then show ?case by simp
next
  case (Cons r rs)
  from Cons.prems(4) obtain o1 s1 o2 where one: "reap_one now r s = Inr (o1, s1)"
    and rest: "reap_loop now rs s1 = Inr (o2, s')"
    by (auto simp: res_simps)
  have sel: "selected s r" using Cons.prems(3) [of r] by (auto simp: selected_def same_identity_def)
  have inv1: "inv_db s1" by (rule soundD(1) [OF reap_one_sound [OF Cons.prems(1) sel one]])
  have rows: "\<exists>x. find_run s1 (run_id r) = Some x \<and> reaped x"
    "\<And>k. k \<noteq> run_id r \<Longrightarrow> find_run s1 k = find_run s k"
    using reap_one_rows [OF Cons.prems(1) _ _ _ one] Cons.prems(3) [of r] by auto
  have "(\<forall>r\<in>set rs. \<exists>x. find_run s' (run_id r) = Some x \<and> reaped x) \<and>
      (\<forall>k. k \<notin> run_id ` set rs \<longrightarrow> find_run s' k = find_run s1 k)"
  proof (rule Cons.IH [OF inv1 _ _ rest])
    show "distinct (map run_id rs)" using Cons.prems(2) by simp
    fix q assume q: "q \<in> set rs"
    with Cons.prems(2) have "run_id q \<noteq> run_id r" by (auto simp: image_iff)
    then show "find_run s1 (run_id q) = Some q \<and> dispatch_state q = Claimed \<and> before (lease_expires_at q) now"
      using rows(2) Cons.prems(3) [of q] q by simp
  qed
  with rows Cons.prems(2) show ?case by auto
qed

text \<open>What the two branches write: the row of a run that goes back to the queue, and the row of
  a run whose package may not be executed any more. The dispatch events a pass appends are read
  off the outbox.\<close>

definition requeued_row :: "time \<Rightarrow> agent_run \<Rightarrow> agent_run" where
  "requeued_row now r =
     r\<lparr>status := (if status r = Planning \<or> status r = Running \<or> status r = Evaluating then Pending else status r),
       dispatch_state := Queued, lease_owner := None, lease_expires_at := None, queued_at := Some now,
       status_version := (if status r = Planning \<or> status r = Running \<or> status r = Evaluating
         then status_version r + 1 else status_version r)\<rparr>"

definition revoked_row :: "time \<Rightarrow> agent_run \<Rightarrow> agent_run" where
  "revoked_row now r =
     r\<lparr>status := Cancelled, dispatch_state := Finished, lease_owner := None, lease_expires_at := None,
       finished_at := Some now, status_version := status_version r + 1,
       error_code := Some ''PACKAGE_REVOKED'', last_event_seq := last_event_seq r + 1\<rparr>"

definition dispatch_ids :: "outbox_event list \<Rightarrow> string list" where
  "dispatch_ids es = map aggregate_id
     (filter (\<lambda>e. o_event_type e = ''run_dispatch'' \<and> o_status e = ''pending'') es)"

lemma dispatch_ids_append [simp]: "dispatch_ids (a @ b) = dispatch_ids a @ dispatch_ids b"
  by (simp add: dispatch_ids_def)

lemma outbox_append_run_dispatch:
  "\<exists>new. outbox (append_run_dispatch rid w now s) = outbox s @ new \<and> dispatch_ids new = [rid]"
  by (simp add: append_run_dispatch_def uuid4_def Let_def dispatch_ids_def)

lemma outbox_append_callback:
  "append_callback rid st now s = Inr s' \<Longrightarrow> \<exists>new. outbox s' = outbox s @ new \<and> dispatch_ids new = []"
  by (auto simp: append_callback_def append_callback_event_def uuid4_def Let_def dispatch_ids_def res_simps
      split: option.split)

lemma definitions_append_callback:
  "append_callback rid st now s = Inr s' \<Longrightarrow> definitions s' = definitions s"
  by (auto simp: append_callback_def frame_simps res_simps)

lemma transition_run_tables:
  assumes "transition_run lims r old new s = Inr s'"
  shows "definitions s' = definitions s" "outbox s' = outbox s" "callbacks s' = callbacks s"
proof -
  note fr = transition_run_frame [OF assms]
  show "definitions s' = definitions s" by (subst fr) simp
  show "outbox s' = outbox s" by (subst fr) simp
  show "callbacks s' = callbacks s" by (subst fr) simp
qed

lemma append_callback_cancelled:
  assumes "append_callback rid Cancelled now s = Inr s'" "find_run s rid = Some r"
  shows "\<exists>cb. callbacks s' = callbacks s @ [cb] \<and> e_run_id cb = rid \<and> e_event_type cb = RunCancelled \<and>
    event_seq cb = last_event_seq r + 1"
  using assms callbacks_append_callback_event [OF assms(2), of RunCancelled JNull now] find_run_id [OF assms(2)]
  by (auto simp: append_callback_def res_simps)

text \<open>One step of the reaper, exactly.\<close>

definition cancelled_fact :: "agent_run \<Rightarrow> callback_event \<Rightarrow> bool" where
  "cancelled_fact r cb \<longleftrightarrow> e_run_id cb = run_id r \<and> e_event_type cb = RunCancelled \<and>
     event_seq cb = last_event_seq r + 1"

lemma reap_one_exact:
  assumes inv: "inv_db s" and r: "find_run s (run_id r) = Some r" "dispatch_state r = Claimed"
      "before (lease_expires_at r) now"
    and reap: "reap_one now r s = Inr (out, s')"
  shows "definitions s' = definitions s"
    "find_run s' (run_id r) = Some (if package_executable s r then requeued_row now r else revoked_row now r)"
    "out = (if package_executable s r then Some (run_id r) else None)"
    "\<exists>new. outbox s' = outbox s @ new \<and> dispatch_ids new = (if package_executable s r then [run_id r] else [])"
    "if package_executable s r then callbacks s' = callbacks s
      else \<exists>cb. callbacks s' = callbacks s @ [cb] \<and> cancelled_fact r cb"
proof -
  let ?c = "\<lambda>x. status x = status r \<and> dispatch_state x = Claimed \<and> before (lease_expires_at x) now"
  have u: "update_run (run_id r) ?c f s = Some (set_run (run_id r) f s)" for f
    using r by (simp add: update_run_Some_iff inv_db_wf [OF inv])
  have "definitions s' = definitions s \<and>
    find_run s' (run_id r) = Some (if package_executable s r then requeued_row now r else revoked_row now r) \<and>
    out = (if package_executable s r then Some (run_id r) else None) \<and>
    (\<exists>new. outbox s' = outbox s @ new \<and> dispatch_ids new = (if package_executable s r then [run_id r] else [])) \<and>
    (if package_executable s r then callbacks s' = callbacks s
      else \<exists>cb. callbacks s' = callbacks s @ [cb] \<and> cancelled_fact r cb)"
  proof (cases "package_executable s r")
    case True
    define f where "f = (\<lambda>x :: agent_run. x\<lparr>status := (if status r \<in> {Planning, Running, Evaluating} then Pending else status r),
       dispatch_state := Queued, lease_owner := None, lease_expires_at := None, queued_at := Some now,
       status_version := (if (if status r \<in> {Planning, Running, Evaluating} then Pending else status r) \<noteq> status r
          then status_version x + 1 else status_version x)\<rparr>)"
    from reap True obtain s1 where out: "out = Some (run_id r)" and
      tr: "transition_run default_limits r (Some Claimed) (Some Queued) (set_run (run_id r) f s) = Inr s1"
      and s': "s' = append_run_dispatch (run_id r) ''lease_reaped'' now s1"
      unfolding reap_one_def Let_def f_def [symmetric] u by (auto simp: res_simps)
    have f: "f r = requeued_row now r" by (cases "status r") (simp_all add: f_def requeued_row_def)
    have "run_id (f x) = run_id x" for x by (simp add: f_def)
    then have "find_run (set_run (run_id r) f s) (run_id r) = Some (requeued_row now r)"
      using r(1) f by (simp add: find_run_set_run)
    with True out outbox_append_run_dispatch [of "run_id r" "''lease_reaped''" now s1] show ?thesis
      by (simp add: s' transition_run_find [OF tr] transition_run_tables [OF tr] frame_simps)
  next
    case False
    define f where "f = (\<lambda>x :: agent_run. x\<lparr>status := Cancelled, dispatch_state := Finished, lease_owner := None,
                     lease_expires_at := None, finished_at := Some now,
                     status_version := status_version x + 1,
                     error_code := Some ''PACKAGE_REVOKED''\<rparr>)"
    from reap False obtain s1 where out: "out = None" and
      tr: "transition_run default_limits r (Some Claimed) (Some Finished) (set_run (run_id r) f s) = Inr s1"
      and cb: "append_callback (run_id r) Cancelled now s1 = Inr s'"
      unfolding reap_one_def Let_def f_def [symmetric] u by (auto simp: res_simps)
    have "run_id (f x) = run_id x" for x by (simp add: f_def)
    then have f1: "find_run s1 (run_id r) = Some (f r)"
      using r(1) by (simp add: transition_run_find [OF tr] find_run_set_run)
    have row: "find_run s' (run_id r) = Some (revoked_row now r)"
      using find_run_append_callback_other [OF cb f1, of "run_id r"] f1 by (simp add: f_def revoked_row_def)
    have "\<exists>cb. callbacks s' = callbacks s @ [cb] \<and> cancelled_fact r cb"
      using append_callback_cancelled [OF cb f1]
      by (simp add: cancelled_fact_def f_def transition_run_tables [OF tr])
    with False out row outbox_append_callback [OF cb] definitions_append_callback [OF cb] show ?thesis
      by (simp add: transition_run_tables [OF tr])
  qed
  then show "definitions s' = definitions s"
    "find_run s' (run_id r) = Some (if package_executable s r then requeued_row now r else revoked_row now r)"
    "out = (if package_executable s r then Some (run_id r) else None)"
    "\<exists>new. outbox s' = outbox s @ new \<and> dispatch_ids new = (if package_executable s r then [run_id r] else [])"
    "if package_executable s r then callbacks s' = callbacks s
      else \<exists>cb. callbacks s' = callbacks s @ [cb] \<and> cancelled_fact r cb"
    by blast+
qed

lemma package_executable_cong:
  "definitions s1 = definitions s \<Longrightarrow> package_executable s1 = package_executable s"
  by (simp add: package_executable_def find_definition_def fun_eq_iff cong: option.case_cong)

lemma reap_loop_exact:
  "inv_db s \<Longrightarrow> distinct (map run_id rs) \<Longrightarrow>
   (\<And>r. r \<in> set rs \<Longrightarrow> find_run s (run_id r) = Some r \<and> dispatch_state r = Claimed \<and> before (lease_expires_at r) now) \<Longrightarrow>
   reap_loop now rs s = Inr (out, s') \<Longrightarrow>
   (\<forall>r\<in>set rs. find_run s' (run_id r) = Some (if package_executable s r then requeued_row now r else revoked_row now r) \<and>
      (package_executable s r \<or> (\<exists>cb\<in>set (callbacks s'). cancelled_fact r cb))) \<and>
   out = map run_id (filter (package_executable s) rs) \<and>
   (\<exists>new. outbox s' = outbox s @ new \<and> dispatch_ids new = out) \<and>
   (\<exists>cbs. callbacks s' = callbacks s @ cbs)"
proof (induction rs arbitrary: s out)
  case Nil
  then show ?case by (simp add: dispatch_ids_def)
next
  case (Cons r rs)
  from Cons.prems(4) obtain o1 s1 o2 where one: "reap_one now r s = Inr (o1, s1)"
    and rest: "reap_loop now rs s1 = Inr (o2, s')"
    and out: "out = (case o1 of None \<Rightarrow> o2 | Some i \<Rightarrow> i # o2)"
    by (auto simp: res_simps)
  have r: "find_run s (run_id r) = Some r" "dispatch_state r = Claimed" "before (lease_expires_at r) now"
    using Cons.prems(3) [of r] by auto
  have sel: "selected s r" using r by (auto simp: selected_def same_identity_def)
  have inv1: "inv_db s1" by (rule soundD(1) [OF reap_one_sound [OF Cons.prems(1) sel one]])
  note ex = reap_one_exact [OF Cons.prems(1) r one]
  have pe: "package_executable s1 = package_executable s" by (rule package_executable_cong [OF ex(1)])
  have other: "k \<noteq> run_id r \<Longrightarrow> find_run s1 k = find_run s k" for k
    using reap_one_rows [OF Cons.prems(1) r one] by simp
  have hyp: "find_run s1 (run_id q) = Some q \<and> dispatch_state q = Claimed \<and> before (lease_expires_at q) now"
    if q: "q \<in> set rs" for q
  proof -
    from q Cons.prems(2) have "run_id q \<noteq> run_id r" by (auto simp: image_iff)
    then show ?thesis using other Cons.prems(3) [of q] q by simp
  qed
  have "distinct (map run_id rs)" using Cons.prems(2) by simp
  note IH = Cons.IH [OF inv1 this hyp rest, unfolded pe]
  have "find_run s' (run_id r) = find_run s1 (run_id r)"
    using reap_loop_rows [OF inv1 _ hyp rest] Cons.prems(2) by simp
  with ex(2) have row: "find_run s' (run_id r) = Some (if package_executable s r then requeued_row now r else revoked_row now r)"
    by simp
  have o: "out = map run_id (filter (package_executable s) (r # rs))"
    using IH out ex(3) by simp
  from IH obtain n2 cbs where n2: "outbox s' = outbox s1 @ n2" "dispatch_ids n2 = o2"
    and c2: "callbacks s' = callbacks s1 @ cbs" by blast
  from ex(4) obtain n1 where n1: "outbox s1 = outbox s @ n1"
    "dispatch_ids n1 = (if package_executable s r then [run_id r] else [])" by blast
  have "outbox s' = outbox s @ (n1 @ n2)" "dispatch_ids (n1 @ n2) = out"
    using n1 n2 out ex(3) by simp_all
  moreover have "package_executable s r \<or> (\<exists>cb\<in>set (callbacks s'). cancelled_fact r cb)"
    using ex(5) c2 by (cases "package_executable s r") auto
  moreover have "\<exists>cbs. callbacks s' = callbacks s @ cbs"
    using ex(5) c2 by (cases "package_executable s r") auto
  ultimately show ?case using row o IH by (metis set_ConsD)
qed

lemma reap_expired_exact:
  assumes inv: "inv_db s" and reap: "reap_expired now s = Inr (out, s')"
  shows "(\<forall>rid r. find_run s rid = Some r \<longrightarrow>
      (if dispatch_state r = Claimed \<and> before (lease_expires_at r) now
       then (if package_executable s r
             then find_run s' rid = Some (requeued_row now r) \<and> rid \<in> set out
             else find_run s' rid = Some (revoked_row now r) \<and> rid \<notin> set out \<and>
               (\<exists>cb\<in>set (callbacks s'). e_run_id cb = rid \<and> e_event_type cb = RunCancelled \<and>
                  event_seq cb = last_event_seq r + 1))
       else find_run s' rid = Some r \<and> rid \<notin> set out)) \<and>
    distinct out \<and> (\<exists>new. outbox s' = outbox s @ new \<and> dispatch_ids new = out)"
proof -
  let ?rs = "filter (\<lambda>r. dispatch_state r = Claimed \<and> before (lease_expires_at r) now) (runs s)"
  have wf: "wf_db s" by (rule inv_db_wf [OF inv])
  have d: "distinct (map run_id ?rs)" using wf by (auto simp: wf_db_def intro: distinct_map_filter)
  have hyp: "find_run s (run_id r) = Some r \<and> dispatch_state r = Claimed \<and> before (lease_expires_at r) now"
    if "r \<in> set ?rs" for r using that by (auto simp: find_run_iff [OF wf])
  note rows = reap_loop_rows [OF inv d hyp reap [unfolded reap_expired_def]]
  note ex = reap_loop_exact [OF inv d hyp reap [unfolded reap_expired_def]]
  from ex have out: "out = map run_id (filter (package_executable s) ?rs)" by blast
  have same: "x = r" if "find_run s rid = Some r" "x \<in> set (runs s)" "run_id x = rid" for x r rid
    using that find_run_iff [OF wf, of rid x] by simp
  have "distinct out" unfolding out using d by (rule distinct_map_filter)
  moreover have "if dispatch_state r = Claimed \<and> before (lease_expires_at r) now
       then (if package_executable s r
             then find_run s' rid = Some (requeued_row now r) \<and> rid \<in> set out
             else find_run s' rid = Some (revoked_row now r) \<and> rid \<notin> set out \<and>
               (\<exists>cb\<in>set (callbacks s'). e_run_id cb = rid \<and> e_event_type cb = RunCancelled \<and>
                  event_seq cb = last_event_seq r + 1))
       else find_run s' rid = Some r \<and> rid \<notin> set out" if r: "find_run s rid = Some r" for rid r
  proof -
    have id: "run_id r = rid" by (rule find_run_id [OF r])
    have mem: "rid \<in> set out \<longleftrightarrow> r \<in> set ?rs \<and> package_executable s r"
    proof
      assume "rid \<in> set out"
      then obtain x where "x \<in> set ?rs" "package_executable s x" "run_id x = rid" unfolding out by auto
      with same [OF r, of x] show "r \<in> set ?rs \<and> package_executable s r" by simp
    next
      assume "r \<in> set ?rs \<and> package_executable s r"
      then have "r \<in> set (filter (package_executable s) ?rs)" by simp
      then have "run_id r \<in> set out" unfolding out set_map by (rule imageI)
      then show "rid \<in> set out" by (simp add: id)
    qed
    show ?thesis
    proof (cases "r \<in> set ?rs")
      case True
      with ex have "find_run s' (run_id r) = Some (if package_executable s r then requeued_row now r else revoked_row now r)"
        "package_executable s r \<or> (\<exists>cb\<in>set (callbacks s'). cancelled_fact r cb)" by blast+
      moreover have "dispatch_state r = Claimed \<and> before (lease_expires_at r) now" using True by simp
      ultimately show ?thesis using True mem id
        by (cases "package_executable s r") (simp_all add: cancelled_fact_def)
    next
      case False
      with same [OF r] have "rid \<notin> run_id ` set ?rs" by auto
      with rows r False mem show ?thesis by (auto simp: find_run_iff [OF wf])
    qed
  qed
  moreover have "\<exists>new. outbox s' = outbox s @ new \<and> dispatch_ids new = out" using ex by blast
  ultimately show ?thesis by blast
qed

text \<open>C3. A pass of the reaper that completes leaves no expired lease behind and does the right
  thing with each: a run whose package is still executable is back in the queue (a run in the
  middle of its work is pending again, with the status version raised), is reported as recovered
  and gets a pending dispatch event; a run whose package was revoked is cancelled with
  PACKAGE_REVOKED, is not reported, gets no dispatch event and its cancellation is on record as
  its next callback fact. Every other run is untouched, and the dispatch events of the pass are
  those of the recovered runs, in their order.\<close>

theorem reap_expired_complete:
  assumes inv: "inv_db s" and reap: "reap_expired now s = Inr (out, s')"
  shows "(\<forall>rid r. find_run s rid = Some r \<longrightarrow>
      (if dispatch_state r = Claimed \<and> before (lease_expires_at r) now
       then (if package_executable s r
             then find_run s' rid = Some (requeued_row now r) \<and> rid \<in> set out
             else find_run s' rid = Some (revoked_row now r) \<and> rid \<notin> set out \<and>
               (\<exists>cb\<in>set (callbacks s'). e_run_id cb = rid \<and> e_event_type cb = RunCancelled \<and>
                  event_seq cb = last_event_seq r + 1))
       else find_run s' rid = Some r \<and> rid \<notin> set out)) \<and>
    distinct out \<and> (\<exists>new. outbox s' = outbox s @ new \<and> dispatch_ids new = out)"
  using inv reap by (rule reap_expired_exact)

text \<open>Both branches: the demo database, where the package is executable, and the same database
  with the package disabled.\<close>

definition demo_revoked :: db where
  "demo_revoked = (demo_db demo_claimed)\<lparr>definitions := []\<rparr>"

theorem reap_expired_complete_witness:
  "(\<exists>out s'. reap_expired (seconds 61) (demo_db demo_claimed) = Inr (out, s') \<and> ''0'' \<in> set out \<and>
      find_run s' ''0'' = Some (requeued_row (seconds 61) demo_claimed)) \<and>
   (\<exists>out s'. reap_expired (seconds 61) demo_revoked = Inr (out, s') \<and> ''0'' \<notin> set out \<and>
      find_run s' ''0'' = Some (revoked_row (seconds 61) demo_claimed))"
proof -
  have exp: "dispatch_state demo_claimed = Claimed \<and> before (lease_expires_at demo_claimed) (seconds 61)" by code_simp
  have "\<not> isl (reap_expired (seconds 61) (demo_db demo_claimed))" by code_simp
  then obtain out s' where m: "reap_expired (seconds 61) (demo_db demo_claimed) = Inr (out, s')"
    using result_pair by blast
  have "find_run (demo_db demo_claimed) ''0'' = Some demo_claimed" "package_executable (demo_db demo_claimed) demo_claimed"
    by code_simp+
  with reap_expired_complete [OF inv_demo_claimed m] m exp
  have 1: "\<exists>out s'. reap_expired (seconds 61) (demo_db demo_claimed) = Inr (out, s') \<and> ''0'' \<in> set out \<and>
      find_run s' ''0'' = Some (requeued_row (seconds 61) demo_claimed)" by fastforce
  have "\<not> isl (reap_expired (seconds 61) demo_revoked)" by code_simp
  then obtain out2 s2 where m2: "reap_expired (seconds 61) demo_revoked = Inr (out2, s2)"
    using result_pair by blast
  have inv2: "inv_db demo_revoked"
    by (rule soundD(1) [OF sound_frame [OF inv_demo_claimed]]) (simp_all add: demo_revoked_def)
  have "find_run demo_revoked ''0'' = Some demo_claimed" "\<not> package_executable demo_revoked demo_claimed"
    by code_simp+
  with reap_expired_complete [OF inv2 m2] m2 exp 1 show ?thesis by fastforce
qed

end
