(* ===== verification/Planner.thy ===== *)
theory Planner
  imports Outbox
begin

text \<open>
  The static planner (\<open>app/runtime/planner.py\<close>) with the schemas it validates against
  (\<open>LoopPolicySchema\<close>, \<open>WorkflowNodeDefinition\<close> and \<open>PackagePolicy\<close> of
  \<open>app/schemas/agent_package.py\<close>), and the static workflow graph of
  \<open>app/runtime/graph_builder.py\<close>.

  A schema is a function from JSON to its record that refuses what the schema refuses:
  unknown keys, values outside a literal set, missing required fields, and the
  cross-field validators. How the schema library reads a value into a \<open>bool\<close> field is
  third-party behaviour and a parameter \<open>pb\<close> of the definitions that use it; a theorem that
  depends on it assumes what the library documents, that booleans are read as themselves.
\<close>

section \<open>Field readers\<close>

fun read_str :: "json \<Rightarrow> string option" where
  "read_str (JStr x) = Some x"
| "read_str _ = None"

fun read_opt_str :: "json \<Rightarrow> string option option" where
  "read_opt_str JNull = Some None"
| "read_opt_str (JStr x) = Some (Some x)"
| "read_opt_str _ = None"

fun read_strs :: "json list \<Rightarrow> string list option" where
  "read_strs [] = Some []"
| "read_strs (JStr x # js) = map_option (\<lambda>xs. x # xs) (read_strs js)"
| "read_strs (_ # js) = None"

fun read_str_list :: "json \<Rightarrow> string list option" where
  "read_str_list (JList js) = read_strs js"
| "read_str_list _ = None"

definition field :: "dict \<Rightarrow> string \<Rightarrow> 'a \<Rightarrow> (json \<Rightarrow> 'a option) \<Rightarrow> 'a option" where
  "field d k dflt rd = (case map_of d k of None \<Rightarrow> Some dflt | Some v \<Rightarrow> rd v)"

definition required :: "dict \<Rightarrow> string \<Rightarrow> (json \<Rightarrow> 'a option) \<Rightarrow> 'a option" where
  "required d k rd = (case map_of d k of None \<Rightarrow> None | Some v \<Rightarrow> rd v)"

definition literal :: "string list \<Rightarrow> json \<Rightarrow> string option" where
  "literal ls v = (case v of JStr x \<Rightarrow> if x \<in> set ls then Some x else None | _ \<Rightarrow> None)"

definition keys_within :: "dict \<Rightarrow> string list \<Rightarrow> bool" where
  "keys_within d ks = list_all (\<lambda>kv. fst kv \<in> set ks) d"

section \<open>Schemas\<close>

record loop_policy =
  budget_strategy :: string
  merge_strategy :: string
  merge_key :: string
  on_iteration_error :: string
  on_budget_exhausted :: string
  body_node_ids :: "string list"

fun validate_loop_schema :: "json \<Rightarrow> loop_policy option" where
  "validate_loop_schema (JObj d) =
     (if keys_within d [''budget_strategy'', ''merge_strategy'', ''merge_key'',
          ''on_iteration_error'', ''on_budget_exhausted'', ''body_node_ids''] then
        (case (required d ''budget_strategy'' (literal [''inherit_run_limits_v1'']),
               required d ''merge_strategy'' (literal [''append_unique_by_key'']),
               required d ''merge_key'' (literal [''scene_id'']),
               required d ''on_iteration_error'' (literal [''continue'']),
               required d ''on_budget_exhausted'' (literal [''partial'', ''failed'']),
               required d ''body_node_ids'' read_str_list) of
           (Some b, Some m, Some k, Some e, Some x, Some ids) \<Rightarrow>
             if ids = [] then None
             else Some \<lparr>budget_strategy = b, merge_strategy = m, merge_key = k,
                     on_iteration_error = e, on_budget_exhausted = x, body_node_ids = ids\<rparr>
         | _ \<Rightarrow> None)
      else None)"
| "validate_loop_schema _ = None"

record workflow_node =
  node_id :: string
  node_type :: string
  next_nodes :: "string list"
  prompt_ref :: "string option"
  can_wait_for_human :: bool
  optional :: bool
  safe_to_rerun :: bool
  node_loop_policy :: "loop_policy option"

definition node_types :: "string list" where
  "node_types = [''deterministic'', ''tool'', ''model'', ''guardrail'', ''fallback'', ''bounded_loop'']"

fun read_loop_policy :: "json \<Rightarrow> loop_policy option option" where
  "read_loop_policy JNull = Some None"
| "read_loop_policy j = map_option Some (validate_loop_schema j)"

text \<open>\<open>WorkflowNodeDefinition\<close> with the after-validator that ties the loop policy to the type.\<close>

definition node_rules :: "workflow_node \<Rightarrow> bool" where
  "node_rules n \<longleftrightarrow>
     \<not> (node_loop_policy n \<noteq> None \<and> node_type n \<noteq> ''bounded_loop'') \<and>
     \<not> (node_type n = ''bounded_loop'' \<and> node_loop_policy n = None) \<and>
     \<not> (node_type n = ''bounded_loop'' \<and> \<not> safe_to_rerun n)"

fun validate_node :: "(json \<Rightarrow> bool option) \<Rightarrow> json \<Rightarrow> workflow_node option" where
  "validate_node pb (JObj d) =
     (if keys_within d [''node_id'', ''node_type'', ''next_nodes'', ''prompt_ref'',
          ''can_wait_for_human'', ''optional'', ''safe_to_rerun'', ''loop_policy''] then
        (case (required d ''node_id'' read_str, required d ''node_type'' (literal node_types),
               field d ''next_nodes'' [] read_str_list, field d ''prompt_ref'' None read_opt_str,
               field d ''can_wait_for_human'' False pb, field d ''optional'' False pb,
               field d ''safe_to_rerun'' False pb, field d ''loop_policy'' None read_loop_policy) of
           (Some i, Some t, Some nx, Some p, Some w, Some o', Some sr, Some lp) \<Rightarrow>
             (let n = \<lparr>node_id = i, node_type = t, next_nodes = nx, prompt_ref = p,
                       can_wait_for_human = w, optional = o', safe_to_rerun = sr,
                       node_loop_policy = lp\<rparr>
              in if i \<noteq> '''' \<and> node_rules n then Some n else None)
         | _ \<Rightarrow> None)
      else None)"
| "validate_node pb _ = None"

definition loop_dump :: "loop_policy \<Rightarrow> json" where
  "loop_dump p = JObj [(''budget_strategy'', JStr (budget_strategy p)),
     (''merge_strategy'', JStr (merge_strategy p)), (''merge_key'', JStr (merge_key p)),
     (''on_iteration_error'', JStr (on_iteration_error p)),
     (''on_budget_exhausted'', JStr (on_budget_exhausted p)),
     (''body_node_ids'', JList (map JStr (body_node_ids p)))]"

definition opt_json :: "('a \<Rightarrow> json) \<Rightarrow> 'a option \<Rightarrow> json" where
  "opt_json f x = (case x of None \<Rightarrow> JNull | Some y \<Rightarrow> f y)"

text \<open>\<open>node.model_dump(mode="json")\<close>.\<close>

definition node_dump :: "workflow_node \<Rightarrow> json" where
  "node_dump n = JObj [(''node_id'', JStr (node_id n)), (''node_type'', JStr (node_type n)),
     (''next_nodes'', JList (map JStr (next_nodes n))),
     (''prompt_ref'', opt_json JStr (prompt_ref n)),
     (''can_wait_for_human'', JBool (can_wait_for_human n)), (''optional'', JBool (optional n)),
     (''safe_to_rerun'', JBool (safe_to_rerun n)),
     (''loop_policy'', opt_json loop_dump (node_loop_policy n))]"

record package_policy =
  waiting_human_timeout_action :: string
  waiting_human_fallback_node :: "string option"
  max_model_calls :: "int option"
  max_model_cost :: "rat option"
  max_tokens :: "int option"
  max_steps :: "int option"
  max_tool_calls :: "int option"
  max_run_seconds :: "int option"
  max_auto_retry_per_step :: "int option"

fun read_limit :: "json \<Rightarrow> int option option" where
  "read_limit JNull = Some None"
| "read_limit (JInt n) = (if n < 0 then None else Some (Some n))"
| "read_limit _ = None"

fun read_cost :: "json \<Rightarrow> rat option option" where
  "read_cost JNull = Some None"
| "read_cost (JInt n) = (if n < 0 then None else Some (Some (of_int n)))"
| "read_cost (JFloat (Fin q)) = (if q < 0 then None else Some (Some q))"
| "read_cost _ = None"

definition policy_fields :: "string list" where
  "policy_fields = [''waiting_human_timeout_action'', ''waiting_human_fallback_node'',
     ''max_model_calls'', ''max_model_cost'', ''max_tokens'', ''max_steps'', ''max_tool_calls'',
     ''max_run_seconds'', ''max_auto_retry_per_step'']"

fun validate_policy :: "json \<Rightarrow> package_policy option" where
  "validate_policy (JObj d) =
     (if keys_within d policy_fields then
        (case (field d ''waiting_human_timeout_action'' ''failed''
                 (literal [''fallback'', ''failed'', ''cancelled'']),
               field d ''waiting_human_fallback_node'' None read_opt_str,
               field d ''max_model_calls'' None read_limit, field d ''max_model_cost'' None read_cost,
               field d ''max_tokens'' None read_limit, field d ''max_steps'' None read_limit,
               field d ''max_tool_calls'' None read_limit, field d ''max_run_seconds'' None read_limit,
               field d ''max_auto_retry_per_step'' None read_limit) of
           (Some a, Some n, Some mc, Some co, Some tk, Some st, Some tc, Some rs, Some ar) \<Rightarrow>
             if a = ''fallback'' \<and> (n = None \<or> n = Some '''') then None
             else Some \<lparr>waiting_human_timeout_action = a, waiting_human_fallback_node = n,
                     max_model_calls = mc, max_model_cost = co, max_tokens = tk, max_steps = st,
                     max_tool_calls = tc, max_run_seconds = rs, max_auto_retry_per_step = ar\<rparr>
         | _ \<Rightarrow> None)
      else None)"
| "validate_policy _ = None"

section \<open>Planner\<close>

definition default_stop_conditions :: dict where
  "default_stop_conditions =
     [(''max_steps'', JInt 16), (''max_model_calls'', JInt 8), (''max_tool_calls'', JInt 20),
      (''max_estimated_cost'', JFloat (Fin 2)), (''max_run_seconds'', JInt 300),
      (''held_ttl_seconds'', JInt 600), (''queue_ttl_seconds'', JInt 900),
      (''approval_ttl_seconds'', JInt 86400), (''max_wall_clock_seconds'', JInt 172800)]"

definition default_fallback_policy :: dict where
  "default_fallback_policy =
     [(''default'', JStr ''failed''), (''media'', JStr ''skipped(capability_disabled)'')]"

fun validate_nodes :: "(json \<Rightarrow> bool option) \<Rightarrow> json list \<Rightarrow> workflow_node list option" where
  "validate_nodes pb [] = Some []"
| "validate_nodes pb (j # js) =
     (case validate_node pb j of
        None \<Rightarrow> None
      | Some n \<Rightarrow> map_option (\<lambda>ns. n # ns) (validate_nodes pb js))"

definition declares_rerun :: "json \<Rightarrow> bool" where
  "declares_rerun j = (case j of JObj d \<Rightarrow> has_key d ''safe_to_rerun'' | _ \<Rightarrow> False)"

definition freeze_definition_steps ::
  "(json \<Rightarrow> bool option) \<Rightarrow> json \<Rightarrow> runtime_error + json list" where
  "freeze_definition_steps pb raw_nodes =
     (case raw_nodes of
        JList js \<Rightarrow>
          (case validate_nodes pb js of
             None \<Rightarrow> Inl StaticPlanValidationError
           | Some nodes \<Rightarrow>
               if list_all declares_rerun js then Inr (map node_dump nodes)
               else Inl StaticPlanValidationError)
      | _ \<Rightarrow> Inr [])"

definition node_ids :: "json list \<Rightarrow> string list" where
  "node_ids js = concat (map (\<lambda>j. case jget j ''node_id'' of JStr x \<Rightarrow> [x] | _ \<Rightarrow> []) js)"

text \<open>The conditional additions to the fallback policy, in the code's order.\<close>

definition frozen_fallback_policy :: "json \<Rightarrow> json list \<Rightarrow> dict" where
  "frozen_fallback_policy policy stps =
     default_fallback_policy @
     (case literal [''fallback'', ''failed'', ''cancelled''] (jget policy ''waiting_human_timeout_action'') of
        None \<Rightarrow> [] | Some a \<Rightarrow> [(''waiting_human_timeout_action'', JStr a)]) @
     (case literal [''fallback'', ''failed''] (jget policy ''reject_action'') of
        None \<Rightarrow> [] | Some a \<Rightarrow> [(''reject_action'', JStr a)]) @
     (case jget policy ''waiting_human_fallback_node'' of
        JStr n \<Rightarrow> if n \<in> set (node_ids stps) then [(''waiting_human_fallback_node'', JStr n)] else []
      | _ \<Rightarrow> [])"

definition create_plan_from_definition ::
  "(json \<Rightarrow> bool option) \<Rightarrow> string \<Rightarrow> dict \<Rightarrow> db \<Rightarrow> runtime_error + (agent_plan \<times> db)" where
  "create_plan_from_definition pb rid def s =
     res_bind (freeze_definition_steps pb (dget_default def ''workflow_nodes'' (JList [])))
       (\<lambda>stps. let (pid, s1) = uuid4 s in
          Inr (\<lparr>plan_id = pid, p_run_id = rid, strategy = ''static_workflow'', steps_json = stps,
                stop_conditions_json = default_stop_conditions,
                fallback_policy_json =
                  frozen_fallback_policy (dget_default def ''policy'' (JObj [])) stps,
                p_status = ''planned''\<rparr>, s1))"

definition persist_plan :: "agent_plan \<Rightarrow> db \<Rightarrow> db" where
  "persist_plan p s = s\<lparr>plans := plans s @ [p]\<rparr>"

section \<open>Static workflow graph\<close>

definition node_id_char :: "char \<Rightarrow> bool" where
  "node_id_char c \<longleftrightarrow> (CHR ''a'' \<le> c \<and> c \<le> CHR ''z'') \<or> (CHR ''0'' \<le> c \<and> c \<le> CHR ''9'') \<or> c = CHR ''_''"

text \<open>The regular expression \<open>^[a-z][a-z0-9_]{0,79}$\<close> as a full match.\<close>

definition valid_node_id :: "string \<Rightarrow> bool" where
  "valid_node_id x = (case x of
      [] \<Rightarrow> False
    | c # cs \<Rightarrow> CHR ''a'' \<le> c \<and> c \<le> CHR ''z'' \<and> length cs \<le> 79 \<and> list_all node_id_char cs)"

definition graph_node_ok :: "json \<Rightarrow> bool" where
  "graph_node_ok j = (case j of
      JObj d \<Rightarrow> (case (dget d ''node_id'', dget d ''node_type'') of
         (JStr i, JStr t) \<Rightarrow> valid_node_id i | _ \<Rightarrow> False)
    | _ \<Rightarrow> False)"

definition node_ident :: "json \<Rightarrow> string" where
  "node_ident j = (case jget j ''node_id'' of JStr i \<Rightarrow> i | _ \<Rightarrow> '''')"

fun edges_ok :: "json list \<Rightarrow> bool" where
  "edges_ok [] = True"
| "edges_ok (n # ns) =
     (let expected = JList (case ns of [] \<Rightarrow> [] | m # _ \<Rightarrow> [JStr (node_ident m)]);
          declared = (case n of JObj d \<Rightarrow> dget_default d ''next_nodes'' expected | _ \<Rightarrow> expected);
          declared' = (if declared = JList [] then expected else declared)
      in declared' = expected \<and> edges_ok ns)"

text \<open>
  \<open>StaticWorkflowGraph.build(...).ordered_nodes()\<close>: the validated nodes in plan order, or
  \<open>None\<close> for \<open>StaticWorkflowGraphError\<close>. The compiled graph is a chain in list order; the
  graph library only replays that chain.
\<close>

definition ordered_nodes :: "json list \<Rightarrow> json list option" where
  "ordered_nodes raw =
     (if raw \<noteq> [] \<and> list_all graph_node_ok raw \<and> distinct (map node_ident raw) \<and> edges_ok raw
      then Some raw else None)"

section \<open>Properties\<close>

lemma validate_nodes_length: "validate_nodes pb js = Some ns \<Longrightarrow> length ns = length js"
  by (induction js arbitrary: ns) (auto split: option.splits)

lemma validate_nodes_rules:
  "validate_nodes pb js = Some ns \<Longrightarrow> n \<in> set ns \<Longrightarrow> node_rules n \<and> node_id n \<noteq> ''''"
proof (induction js arbitrary: ns)
  case Nil
  then show ?case by simp
next
  case (Cons j js)
  then obtain m ms where m: "validate_node pb j = Some m" and ms: "validate_nodes pb js = Some ms"
    and ns: "ns = m # ms"
    by (auto split: option.splits)
  have "node_rules m \<and> node_id m \<noteq> ''''"
    using m by (cases j) (auto simp: Let_def split: option.splits if_splits prod.splits)
  with Cons.IH [OF ms] Cons.prems(2) ns show ?case by auto
qed

lemma dump_get [simp]:
  "jget (node_dump n) ''safe_to_rerun'' = JBool (safe_to_rerun n)"
  "jget (node_dump n) ''node_type'' = JStr (node_type n)"
  "jget (node_dump n) ''node_id'' = JStr (node_id n)"
  by (simp_all add: node_dump_def dget_def)

lemma freeze_steps_dumps:
  assumes "freeze_definition_steps pb raw = Inr stps"
  shows "\<exists>nodes. stps = map node_dump nodes \<and> (\<forall>n\<in>set nodes. node_rules n)"
  using assms
  by (auto simp: freeze_definition_steps_def split: json.splits option.splits if_splits
      dest: validate_nodes_rules intro: exI [of _ "[]"])

lemma policy_no_reject_action:
  assumes "validate_policy p = Some pol"
  shows "jget p ''reject_action'' = JNull"
proof (cases p)
  case (JObj d)
  with assms have "keys_within d policy_fields" by (simp split: if_splits)
  then have "map_of d ''reject_action'' = None"
    by (force simp: keys_within_def list_all_iff policy_fields_def map_of_eq_None_iff)
  then show ?thesis by (simp add: JObj dget_def)
qed (use assms in auto)

end
