(* ===== verification/Run_Service.thy ===== *)
theory Run_Service
  imports Lease Planner
begin

text \<open>
  The run lifecycle service (\<open>app/services/agent_run_service.py\<close>): create, start, get, steps,
  cancel, purge, complete_purge, retry, record_auto_retry and approve, with the input schema
  check, the frozen package check and the sanitisers of the usage ledger. A raise is \<open>Inl\<close>:
  the caller's session is rolled back and nothing is written. The service's constructor
  arguments are the record \<open>run_service\<close>; the authorization resolver is a function of the run
  that the application injects. Registration only accepts packages of the frozen contract
  version, so building a summary never fails on it.
\<close>

section \<open>Configuration and commands\<close>

record run_service =
  sv_limits :: admission_limits
  sv_route_ids :: "string list"
  sv_residency :: "string option"
  sv_resolver :: "(agent_run \<Rightarrow> runtime_error + int option) option"

definition make_run_service ::
  "admission_limits option \<Rightarrow> string list \<Rightarrow> string option \<Rightarrow>
    (agent_run \<Rightarrow> runtime_error + int option) option \<Rightarrow> runtime_error + run_service" where
  "make_run_service lims routes residency resolver =
     (if residency \<notin> {None, Some ''public'', Some ''private''}
      then Inl (ValueError ''required_model_data_residency'')
      else Inr \<lparr>sv_limits = (case lims of None \<Rightarrow> default_limits | Some l \<Rightarrow> l),
                sv_route_ids = sort (remdups (filter (\<lambda>r. r \<noteq> '''') routes)),
                sv_residency = residency, sv_resolver = resolver\<rparr>)"

record create_command =
  cc_agent_id :: string
  cc_agent_version :: string
  cc_business_type :: string
  cc_business_id :: string
  cc_start_mode :: start_mode
  cc_input :: dict
  cc_callback_target_id :: string
  cc_business_connector_id :: string
  cc_data_domain :: string

record run_summary =
  sm_run_id :: string
  sm_business_id :: string
  sm_status :: run_status
  sm_dispatch_state :: dispatch_state
  sm_contract_version :: string
  sm_package_digest :: string
  sm_authorization_version :: int
  sm_status_version :: int

record step_summary =
  ss_step_id :: string
  ss_step_name :: string
  ss_step_type :: string
  ss_status :: string
  ss_execution_attempt :: int
  ss_step_attempt :: int
  ss_error_code :: "string option"

record run_detail = run_summary +
  dt_last_event_seq :: int
  dt_execution_attempt :: int
  dt_privacy_state :: privacy_state
  dt_privacy_version :: int
  dt_error_code :: "string option"
  dt_privacy_purge_requested_at :: "time option"
  dt_private_data_purged_at :: "time option"
  dt_progress :: int
  dt_current_step :: "step_summary option"
  dt_public_trace :: "json list"

definition summary_of :: "agent_run \<Rightarrow> run_summary" where
  "summary_of r = \<lparr>sm_run_id = run_id r, sm_business_id = business_id r, sm_status = status r,
     sm_dispatch_state = dispatch_state r, sm_contract_version = contract_version r,
     sm_package_digest = package_digest r, sm_authorization_version = authorization_version r,
     sm_status_version = status_version r\<rparr>"

definition step_summary_of :: "agent_step \<Rightarrow> step_summary" where
  "step_summary_of x = \<lparr>ss_step_id = step_id x, ss_step_name = step_name x,
     ss_step_type = step_type x, ss_status = s_status x,
     ss_execution_attempt = s_execution_attempt x, ss_step_attempt = step_attempt x,
     ss_error_code = s_error_code x\<rparr>"

section \<open>Input schema\<close>

text \<open>\<open>isinstance(value, python_type)\<close> for the six schema type names, booleans excluded from
  the numeric ones; an unknown type name is not checked.\<close>

fun has_type :: "string \<Rightarrow> json \<Rightarrow> bool" where
  "has_type t v =
     (if t = ''string'' then is_str v
      else if t = ''integer'' then (case v of JInt _ \<Rightarrow> True | _ \<Rightarrow> False)
      else if t = ''number'' then (case v of JInt _ \<Rightarrow> True | JFloat _ \<Rightarrow> True | _ \<Rightarrow> False)
      else if t = ''boolean'' then (case v of JBool _ \<Rightarrow> True | _ \<Rightarrow> False)
      else if t = ''object'' then is_obj v
      else if t = ''array'' then (case v of JList _ \<Rightarrow> True | _ \<Rightarrow> False)
      else True)"

text \<open>\<open>a < b\<close> on Python numbers; every comparison with NaN is false.\<close>

fun num_val :: "json \<Rightarrow> pyfloat option" where
  "num_val (JInt i) = Some (Fin (of_int i))"
| "num_val (JFloat f) = Some f"
| "num_val _ = None"

fun float_less :: "pyfloat \<Rightarrow> pyfloat \<Rightarrow> bool" where
  "float_less NaN _ = False"
| "float_less _ NaN = False"
| "float_less PInf _ = False"
| "float_less _ NInf = False"
| "float_less NInf _ = True"
| "float_less _ PInf = True"
| "float_less (Fin a) (Fin b) = (a < b)"

definition below_minimum :: "json \<Rightarrow> json \<Rightarrow> bool" where
  "below_minimum v mn =
     (case (num_val v, num_val mn) of (Some a, Some b) \<Rightarrow> float_less a b | _ \<Rightarrow> False)"

definition property_ok :: "dict \<Rightarrow> string \<times> json \<Rightarrow> bool" where
  "property_ok val kp =
     (case (map_of val (fst kp), snd kp) of
        (Some v, JObj fs) \<Rightarrow>
          (case dget fs ''type'' of
             JStr t \<Rightarrow> has_type t v \<and>
               \<not> (t \<in> {''integer'', ''number''} \<and> below_minimum v (dget fs ''minimum''))
           | _ \<Rightarrow> True)
      | _ \<Rightarrow> True)"

definition validate_input_schema :: "json \<Rightarrow> dict \<Rightarrow> run_error + unit" where
  "validate_input_schema schema val =
     (case schema of
        JNull \<Rightarrow> Inr ()
      | JObj d \<Rightarrow>
          res_bind (ensure (dget d ''type'' = JStr ''object'') InputSchemaConfig) (\<lambda>_.
          case dget_default d ''required'' (JList []) of
            JList req \<Rightarrow>
              res_bind (ensure (list_all is_str req) InputSchemaConfig) (\<lambda>_.
              res_bind (ensure (list_all (\<lambda>k. case k of JStr x \<Rightarrow> has_key val x | _ \<Rightarrow> False) req) InputSchemaInvalid) (\<lambda>_.
              case dget_default d ''properties'' (JObj []) of
                JObj props \<Rightarrow>
                  res_bind (ensure (\<not> (dget d ''additionalProperties'' = JBool False \<and>
                       list_ex (\<lambda>kv. \<not> has_key props (fst kv)) val)) InputSchemaInvalid) (\<lambda>_.
                  ensure (list_all (property_ok val) props) InputSchemaInvalid)
              | _ \<Rightarrow> Inl InputSchemaConfig))
          | _ \<Rightarrow> Inl InputSchemaConfig)
      | _ \<Rightarrow> Inl InputSchemaConfig)"

section \<open>Helpers\<close>

definition lift_err :: "run_error + 'a \<Rightarrow> runtime_error + 'a" where
  "lift_err m = (case m of Inl e \<Rightarrow> Inl (AgentRunServiceError e) | Inr x \<Rightarrow> Inr x)"

abbreviation require :: "bool \<Rightarrow> run_error \<Rightarrow> runtime_error + unit" where
  "require b e \<equiv> ensure b (AgentRunServiceError e)"

definition owned_run :: "string \<Rightarrow> string \<Rightarrow> bool \<Rightarrow> db \<Rightarrow> runtime_error + agent_run" where
  "owned_run rid caller allow_auditor s =
     (case find_run s rid of
        None \<Rightarrow> Inl (AgentRunServiceError RunNotFound)
      | Some r \<Rightarrow> if caller_id r \<noteq> caller \<and> \<not> allow_auditor
                  then Inl (AgentRunServiceError RunNotFound) else Inr r)"

definition assert_authorization_current :: "run_service \<Rightarrow> agent_run \<Rightarrow> runtime_error + unit" where
  "assert_authorization_current sv r =
     (case sv_resolver sv of
        None \<Rightarrow> Inr ()
      | Some res \<Rightarrow> res_bind (res r) (\<lambda>current.
          require (current = Some (authorization_version r)) AuthorizationChanged))"

definition assert_frozen_package :: "agent_run \<Rightarrow> db \<Rightarrow> runtime_error + unit" where
  "assert_frozen_package r s =
     (case find_definition s (agent_id r) (agent_version r) of
        None \<Rightarrow> Inl (AgentRunServiceError PackageNotExecutable)
      | Some d \<Rightarrow>
          res_bind (require (d_status d = ''active'') PackageNotExecutable)
            (\<lambda>_. require (d_package_digest d = package_digest r) PackageDigestMismatch))"

definition append_audit ::
  "agent_run \<Rightarrow> string \<Rightarrow> string \<Rightarrow> (string \<times> string) list \<Rightarrow> string \<Rightarrow> string option \<Rightarrow> time \<Rightarrow> db \<Rightarrow> db" where
  "append_audit r actor act meta atype why now s =
     append_audit_record atype actor act ''agent_run'' (run_id r) why ''accepted'' (Some (trace_id r)) meta now s"

definition int_string :: "int \<Rightarrow> string" where
  "int_string i = (if i < 0 then CHR ''-'' # numeral_string (nat (- i)) else numeral_string (nat i))"

section \<open>Create\<close>

text \<open>\<open>if allowed and business_type not in allowed\<close> on a JSON value.\<close>

fun business_type_allowed :: "json \<Rightarrow> string \<Rightarrow> runtime_error + bool" where
  "business_type_allowed (JList xs) bt = Inr (xs = [] \<or> JStr bt \<in> set xs)"
| "business_type_allowed (JObj d) bt = Inr (d = [] \<or> has_key d bt)"
| "business_type_allowed (JStr x) bt =
     Inr (x = '''' \<or> list_ex (\<lambda>n. take (length bt) (drop n x) = bt) [0..<Suc (length x)])"
| "business_type_allowed JNull bt = Inr True"
| "business_type_allowed (JBool b) bt = (if b then Inl TypeError else Inr True)"
| "business_type_allowed (JInt i) bt = (if i = 0 then Inr True else Inl TypeError)"
| "business_type_allowed (JFloat f) bt = (if f = Fin 0 then Inr True else Inl TypeError)"

definition opt_entry :: "string \<Rightarrow> ('a \<Rightarrow> json) \<Rightarrow> 'a option \<Rightarrow> dict" where
  "opt_entry k f v = (case v of None \<Rightarrow> [] | Some x \<Rightarrow> [(k, f x)])"

definition model_policy_of :: "package_policy \<Rightarrow> dict" where
  "model_policy_of p =
     opt_entry ''max_model_calls'' JInt (max_model_calls p) @
     opt_entry ''max_model_cost'' (\<lambda>q. JFloat (Fin q)) (max_model_cost p) @
     opt_entry ''max_tokens'' JInt (max_tokens p)"

definition execution_policy_of :: "package_policy \<Rightarrow> dict" where
  "execution_policy_of p =
     opt_entry ''max_steps'' JInt (max_steps p) @
     opt_entry ''max_tool_calls'' JInt (max_tool_calls p) @
     opt_entry ''max_run_seconds'' JInt (max_run_seconds p) @
     opt_entry ''max_auto_retry_per_step'' JInt (max_auto_retry_per_step p)"

definition capability_snapshot ::
  "run_service \<Rightarrow> agent_definition \<Rightarrow> create_command \<Rightarrow> package_policy \<Rightarrow> json" where
  "capability_snapshot sv d cmd pol = JObj
     ([(''agent_id'', JStr (d_agent_id d)), (''agent_version'', JStr (d_version d)),
       (''contract_version'', JStr (d_contract_version d)),
       (''package_digest'', JStr (d_package_digest d)),
       (''business_connector_id'', JStr (cc_business_connector_id cmd)),
       (''allowed_model_route_ids'', JList (map JStr (sv_route_ids sv)))] @
      opt_entry ''required_model_data_residency'' JStr (sv_residency sv) @
      [(''model_policy'', JObj (model_policy_of pol)),
       (''execution_policy'', JObj (execution_policy_of pol)),
       (''ui_trace'', dget_default (d_definition_json d) ''ui_trace''
          (JObj [(''mode'', JStr ''status_only'')]))])"

definition new_run ::
  "run_service \<Rightarrow> agent_definition \<Rightarrow> create_command \<Rightarrow> package_policy \<Rightarrow> string \<Rightarrow> string \<Rightarrow> string \<Rightarrow>
    int \<Rightarrow> string \<Rightarrow> string \<Rightarrow> time \<Rightarrow> agent_run" where
  "new_run sv d cmd pol caller tenant ikey auth rid tid now =
     \<lparr>run_id = rid, agent_id = cc_agent_id cmd, agent_version = cc_agent_version cmd,
      package_digest = d_package_digest d, contract_version = d_contract_version d,
      business_type = cc_business_type cmd, business_id = cc_business_id cmd, status = Pending,
      dispatch_state = (if cc_start_mode cmd = StartHeld then Held else Queued),
      input_json = cc_input cmd, capability_snapshot_json = capability_snapshot sv d cmd pol,
      authorization_version = auth, output_summary_json = JNull, error_code = None,
      caller_id = caller, tenant_id = tenant, create_idempotency_key = ikey,
      callback_target_id = cc_callback_target_id cmd,
      business_connector_id = cc_business_connector_id cmd, trace_id = tid,
      manual_retry_count = 0, auto_retry_count = 0, status_version = 1, last_event_seq = 0,
      execution_attempt = 0, lease_owner = None, lease_expires_at = None, fencing_token = 0,
      cancel_requested_at = None, privacy_state = PrivacyActive, privacy_version = 1,
      privacy_purge_requested_at = None, private_data_purged_at = None,
      held_expires_at = (if cc_start_mode cmd = StartHeld then Some (now + minutes 10) else None),
      queued_at = (if cc_start_mode cmd = StartAuto then Some now else None),
      claimed_at = None, active_elapsed_ms = 0, run_deadline_at = now + days 1,
      waiting_expires_at = None, started_at = None, finished_at = None\<rparr>"

definition create ::
  "(json \<Rightarrow> bool option) \<Rightarrow> run_service \<Rightarrow> create_command \<Rightarrow> string \<Rightarrow> string \<Rightarrow> string \<Rightarrow> int \<Rightarrow>
    time \<Rightarrow> db \<Rightarrow> runtime_error + (run_summary \<times> db)" where
  "create pb sv cmd caller tenant ikey auth now s =
     (case find_definition s (cc_agent_id cmd) (cc_agent_version cmd) of
        None \<Rightarrow> Inl (AgentRunServiceError PackageUnavailable)
      | Some d \<Rightarrow>
          res_bind (require (d_status d = ''active'') PackageUnavailable) (\<lambda>_.
          res_bind (lift_err (validate_input_schema (dget (d_definition_json d) ''input_schema'') (cc_input cmd))) (\<lambda>_.
          res_bind (business_type_allowed
             (dget_default (d_definition_json d) ''allowed_business_types'' (JList [])) (cc_business_type cmd)) (\<lambda>ok.
          res_bind (require ok BusinessTypeNotAllowed) (\<lambda>_.
          let (rid, s1) = uuid4 s in
          case validate_policy (dget_default (d_definition_json d) ''policy'' (JObj [])) of
            None \<Rightarrow> Inl PackagePolicyInvalid
          | Some pol \<Rightarrow>
              res_bind (require (1 \<le> auth) AuthorizationVersionInvalid) (\<lambda>_.
              let (tid, s2) = uuid4 s1;
                  r = new_run sv d cmd pol caller tenant ikey auth rid tid now;
                  s3 = s2\<lparr>runs := runs s2 @ [r]\<rparr>
              in res_bind (transition_run (sv_limits sv) r None (Some (dispatch_state r)) s3) (\<lambda>s4.
                 res_bind (create_plan_from_definition pb rid (d_definition_json d) s4) (\<lambda>(p, s5).
                 let s6 = persist_plan p s5;
                     s7 = (if cc_start_mode cmd = StartAuto
                           then append_run_dispatch rid ''auto_create'' now s6 else s6)
                 in Inr (summary_of r, s7)))))))))"

section \<open>Start, cancel, purge, retry, approve\<close>

definition start ::
  "run_service \<Rightarrow> string \<Rightarrow> string \<Rightarrow> int option \<Rightarrow> time \<Rightarrow> db \<Rightarrow> runtime_error + (run_summary \<times> db)" where
  "start sv rid caller expected_version now s =
     res_bind (owned_run rid caller False s) (\<lambda>r.
     res_bind (assert_authorization_current sv r) (\<lambda>_.
     res_bind (require (case expected_version of None \<Rightarrow> True | Some v \<Rightarrow> status_version r = v)
        StatusVersionConflict) (\<lambda>_.
     res_bind (assert_frozen_package r s) (\<lambda>_.
     res_bind (require (privacy_state r = PrivacyActive \<and> cancel_requested_at r = None)
        RunCancelledOrPurging) (\<lambda>_.
     if dispatch_state r \<in> {Queued, Claimed} then Inr (summary_of r, s)
     else
       res_bind (require (dispatch_state r = Held \<and> status r = Pending) StartNotAllowed) (\<lambda>_.
       res_bind (require (\<not> before (held_expires_at r) now) HeldExpired) (\<lambda>_.
       let f = (\<lambda>r. r\<lparr>dispatch_state := Queued, queued_at := Some now\<rparr>) in
       res_bind (transition_run (sv_limits sv) r (Some Held) (Some Queued) (set_run rid f s)) (\<lambda>s1.
       Inr (summary_of (f r), append_run_dispatch rid ''explicit_start'' now s1)))))))))"

definition step_records :: "string \<Rightarrow> db \<Rightarrow> agent_step list" where
  "step_records rid s = filter (\<lambda>x. s_run_id x = rid) (steps s)"

definition get_steps ::
  "string \<Rightarrow> string \<Rightarrow> bool \<Rightarrow> db \<Rightarrow> runtime_error + step_summary list" where
  "get_steps rid caller allow_auditor s =
     res_bind (owned_run rid caller allow_auditor s)
       (\<lambda>_. Inr (map step_summary_of (step_records rid s)))"

definition completed_count :: "agent_step list \<Rightarrow> nat" where
  "completed_count recs = rowcount (\<lambda>x. s_status x \<in> {''succeeded'', ''skipped''}) recs"

definition run_progress :: "string \<Rightarrow> db \<Rightarrow> int" where
  "run_progress rid s =
     (let recs = step_records rid s;
          planned = (case find_plan s rid of None \<Rightarrow> length recs | Some p \<Rightarrow> length (steps_json p))
      in if planned \<noteq> 0 then int (completed_count recs * 100 div planned) else 0)"

text \<open>
  \<open>RunDetail\<close> is the contract \<open>AgentRunQuery\<close>: constructing it raises when \<open>progress\<close> is
  outside \<open>0..100\<close>.
\<close>

definition get_run ::
  "string \<Rightarrow> string \<Rightarrow> bool \<Rightarrow> time \<Rightarrow> db \<Rightarrow> runtime_error + (run_detail \<times> db)" where
  "get_run rid caller allow_auditor now s =
     res_bind (owned_run rid caller allow_auditor s) (\<lambda>r.
     let s1 = (if allow_auditor \<and> caller_id r \<noteq> caller
               then append_audit r caller ''agent_run_audit_read''
                      [(''status'', status_string (status r))] ''auditor'' None now s
               else s);
         current = find (\<lambda>x. s_status x = ''running'') (rev (step_records rid s1));
         prog = run_progress rid s1
     in res_bind (ensure (0 \<le> prog \<and> prog \<le> 100) (ValueError ''progress'')) (\<lambda>_.
        Inr (run_summary.extend (summary_of r)
               \<lparr>dt_last_event_seq = last_event_seq r, dt_execution_attempt = execution_attempt r,
                dt_privacy_state = privacy_state r, dt_privacy_version = privacy_version r,
                dt_error_code = error_code r,
                dt_privacy_purge_requested_at = privacy_purge_requested_at r,
                dt_private_data_purged_at = private_data_purged_at r, dt_progress = prog,
                dt_current_step = map_option step_summary_of current, dt_public_trace = []\<rparr>, s1)))"

definition cancel ::
  "string \<Rightarrow> string \<Rightarrow> string \<Rightarrow> time \<Rightarrow> db \<Rightarrow> runtime_error + (run_summary \<times> db)" where
  "cancel rid caller why now s =
     res_bind (owned_run rid caller False s) (\<lambda>r.
     let s1 = set_run rid (\<lambda>r. r\<lparr>cancel_requested_at := Some now\<rparr>) s in
     res_bind
       (if dispatch_state r \<in> {Held, Queued} \<or> (status r = WaitingHuman \<and> dispatch_state r = Finished)
        then
          res_bind (transition_run default_limits r (Some (dispatch_state r)) (Some Finished)
            (set_run rid (\<lambda>r. r\<lparr>status := Cancelled, dispatch_state := Finished,
               status_version := status_version r + 1\<rparr>) s1)) (\<lambda>s2.
          append_callback rid Cancelled now s2)
        else Inr s1) (\<lambda>s3.
     case find_run s3 rid of
       None \<Rightarrow> Inl AssertionError
     | Some r3 \<Rightarrow>
         Inr (summary_of r3,
              append_audit r3 caller ''agent_run_cancelled''
                [(''dispatch_state'', dispatch_string (dispatch_state r3))] ''caller'' (Some why) now s3)))"

definition purge ::
  "string \<Rightarrow> string \<Rightarrow> string \<Rightarrow> time \<Rightarrow> db \<Rightarrow> runtime_error + (run_detail \<times> db)" where
  "purge rid caller why now s =
     res_bind (owned_run rid caller False s) (\<lambda>r.
     get_run rid caller False now
       (if privacy_state r = PrivacyActive then
          append_audit r caller ''agent_run_purge_requested''
            [(''privacy_version'', int_string (privacy_version r + 1))] ''caller'' (Some why) now
            (set_run rid (\<lambda>r. r\<lparr>privacy_state := PurgeRequested,
               privacy_version := privacy_version r + 1,
               privacy_purge_requested_at := Some now, cancel_requested_at := Some now\<rparr>) s)
        else s))"

definition safe_summary_char :: "char \<Rightarrow> bool" where
  "safe_summary_char c \<longleftrightarrow> (CHR ''A'' \<le> c \<and> c \<le> CHR ''Z'') \<or> (CHR ''a'' \<le> c \<and> c \<le> CHR ''z'') \<or>
     (CHR ''0'' \<le> c \<and> c \<le> CHR ''9'') \<or> c \<in> {CHR ''.'', CHR ''_'', CHR ''-''}"

fun safe_summary_string :: "json \<Rightarrow> nat \<Rightarrow> bool" where
  "safe_summary_string (JStr x) m = (1 \<le> length x \<and> length x \<le> m \<and> list_all safe_summary_char x)"
| "safe_summary_string _ m = False"

definition bounded_tokens :: "json \<Rightarrow> bool" where
  "bounded_tokens v = (case v of JInt i \<Rightarrow> 0 \<le> i \<and> i \<le> 10000000 | _ \<Rightarrow> False)"

fun safe_usage_capability_snapshot :: "json \<Rightarrow> json" where
  "safe_usage_capability_snapshot (JObj d) =
     (let keep = (\<lambda>k. if safe_summary_string (dget d k) 64 then [(k, dget d k)] else []);
          caps = (case dget d ''capabilities'' of
             JList xs \<Rightarrow> if length xs \<le> 32 \<and> list_all (\<lambda>x. safe_summary_string x 64) xs
                         then [(''capabilities'', JList xs)] else []
           | _ \<Rightarrow> []);
          num = (\<lambda>k. if bounded_tokens (dget d k) then [(k, dget d k)] else []);
          result = keep ''route_config_version'' @ keep ''data_residency'' @ caps @
                   num ''max_context_tokens'' @ num ''max_output_tokens''
      in if result = [] then JNull else JObj result)"
| "safe_usage_capability_snapshot _ = JNull"

fun safe_thinking_summary :: "json \<Rightarrow> json" where
  "safe_thinking_summary (JObj d) =
     (case dget d ''thinking_enabled'' of
        JBool b \<Rightarrow>
          if bounded_tokens (dget d ''max_output_tokens'') \<and>
             bounded_tokens (dget d ''input_token_budget'') \<and>
             safe_summary_string (dget d ''normalization_version'') 64
          then JObj [(''thinking_enabled'', JBool b),
                     (''max_output_tokens'', dget d ''max_output_tokens''),
                     (''input_token_budget'', dget d ''input_token_budget''),
                     (''normalization_version'', dget d ''normalization_version'')]
          else JNull
      | _ \<Rightarrow> JNull)"
| "safe_thinking_summary _ = JNull"

text \<open>The bulk statements of the physical purge, without the run row.\<close>

definition purge_payloads :: "string \<Rightarrow> db \<Rightarrow> db" where
  "purge_payloads rid s =
     s\<lparr>checkpoints := del_where (\<lambda>c. c_run_id c = rid) (checkpoints s),
       artifacts := upd_where (\<lambda>a. a_run_id a = rid) (\<lambda>a. a\<lparr>summary_json := JNull\<rparr>) (artifacts s),
       steps := upd_where (\<lambda>x. s_run_id x = rid)
         (\<lambda>x. x\<lparr>s_input_summary := JNull, s_output_summary := JNull\<rparr>) (steps s),
       tool_calls := upd_where (\<lambda>t. t_run_id t = rid)
         (\<lambda>t. t\<lparr>t_input_summary := JNull, t_output_summary := JNull\<rparr>) (tool_calls s),
       usages := upd_where (\<lambda>u. u_run_id u = rid)
         (\<lambda>u. u\<lparr>u_capability_snapshot_json := safe_usage_capability_snapshot (u_capability_snapshot_json u),
                thinking_summary_json := safe_thinking_summary (thinking_summary_json u)\<rparr>) (usages s)\<rparr>"

definition complete_purge :: "string \<Rightarrow> time \<Rightarrow> db \<Rightarrow> runtime_error + (bool \<times> db)" where
  "complete_purge rid now s =
     (case find_run s rid of
        None \<Rightarrow> Inl (AgentRunServiceError RunNotFound)
      | Some r \<Rightarrow>
          if privacy_state r = Purged then Inr (False, s)
          else res_bind (require (privacy_state r = PurgeRequested) PurgeNotRequested) (\<lambda>_.
            Inr (True,
              append_audit r ''runtime_privacy_worker'' ''agent_run_purged''
                [(''privacy_version'', int_string (privacy_version r))] ''system'' None now
                (set_run rid (\<lambda>r. r\<lparr>input_json := [], output_summary_json := JNull,
                   privacy_state := Purged, private_data_purged_at := Some now\<rparr>)
                  (purge_payloads rid s)))))"

definition assert_partial_retryable :: "string \<Rightarrow> db \<Rightarrow> runtime_error + unit" where
  "assert_partial_retryable rid s =
     (case find_plan s rid of
        None \<Rightarrow> Inl (AgentRunServiceError PartialNoPlan)
      | Some p \<Rightarrow>
          (let optional_ids = concat (map (\<lambda>n. if jget n ''optional'' = JBool True
                 then (case jget n ''node_id'' of JStr i \<Rightarrow> [i] | _ \<Rightarrow> []) else []) (steps_json p));
               recs = filter (\<lambda>x. s_run_id x = rid) (steps s);
               failed_names = map step_name (filter (\<lambda>x. s_status x = ''failed'') recs);
               published = list_ex (\<lambda>x. step_name x = ''publish_document'' \<and> s_status x = ''succeeded'') recs
           in require (published \<and> failed_names \<noteq> [] \<and> set failed_names \<subseteq> set optional_ids)
                PartialNotRetryable))"

definition retry ::
  "run_service \<Rightarrow> string \<Rightarrow> string \<Rightarrow> bool \<Rightarrow> int option \<Rightarrow> time \<Rightarrow> db \<Rightarrow>
    runtime_error + (run_summary \<times> db)" where
  "retry sv rid caller allow_auditor expected_version now s =
     res_bind (owned_run rid caller allow_auditor s) (\<lambda>r.
     res_bind (assert_authorization_current sv r) (\<lambda>_.
     res_bind (require (case expected_version of None \<Rightarrow> True | Some v \<Rightarrow> status_version r = v)
        StatusVersionConflict) (\<lambda>_.
     res_bind (require (status r \<in> {Failed, Partial} \<and> manual_retry_count r < 3) RetryNotAllowed) (\<lambda>_.
     res_bind (require (privacy_state r = PrivacyActive) RetryWhilePurging) (\<lambda>_.
     res_bind (require (sel_one (\<lambda>c. c_run_id c = rid) (checkpoints s) \<noteq> None) RetryNoCheckpoint) (\<lambda>_.
     res_bind (if status r = Partial then assert_partial_retryable rid s else Inr ()) (\<lambda>_.
     res_bind (assert_frozen_package r s) (\<lambda>_.
     let f = (\<lambda>r. r\<lparr>manual_retry_count := manual_retry_count r + 1, status := Pending,
               dispatch_state := Queued, queued_at := Some now, status_version := status_version r + 1\<rparr>)
     in res_bind (transition_run (sv_limits sv) r (Some Finished) (Some Queued) (set_run rid f s)) (\<lambda>s1.
        Inr (summary_of (f r),
             append_audit (f r) caller ''agent_run_retried''
               [(''manual_retry_count'', int_string (manual_retry_count r + 1))] ''caller'' None now
               (append_run_dispatch rid ''manual_retry'' now s1)))))))))))"

definition auto_retry_limit :: "agent_run \<Rightarrow> int" where
  "auto_retry_limit r =
     (case as_int (jget (jget (capability_snapshot_json r) ''execution_policy'') ''max_auto_retry_per_step'') of
        None \<Rightarrow> 2 | Some n \<Rightarrow> n)"

definition record_auto_retry ::
  "string \<Rightarrow> string option \<Rightarrow> db \<Rightarrow> runtime_error + db" where
  "record_auto_retry rid stp s =
     (case find_run s rid of
        None \<Rightarrow> Inl (AgentRunServiceError AutoRetryExhausted)
      | Some r \<Rightarrow>
          (let mx = auto_retry_limit r;
               bump = set_run rid (\<lambda>r. r\<lparr>auto_retry_count := auto_retry_count r + 1\<rparr>)
           in case stp of
                None \<Rightarrow> res_bind (require (auto_retry_count r < mx) AutoRetryExhausted) (\<lambda>_. Inr (bump s))
              | Some sid \<Rightarrow>
                  (case sel_one (\<lambda>x. s_run_id x = rid \<and> step_id x = sid \<and> s_status x = ''running'') (steps s) of
                     None \<Rightarrow> Inl (AgentRunServiceError AutoRetryExhausted)
                   | Some x \<Rightarrow>
                       res_bind (require (step_attempt x - 1 < mx) AutoRetryExhausted) (\<lambda>_.
                       Inr (bump (s\<lparr>steps := upd_where (\<lambda>y. step_id y = step_id x)
                              (\<lambda>y. y\<lparr>step_attempt := step_attempt y + 1\<rparr>) (steps s)\<rparr>))))))"

datatype decision = Approve | Reject

definition decision_string :: "decision \<Rightarrow> string" where
  "decision_string d = (case d of Approve \<Rightarrow> ''approve'' | Reject \<Rightarrow> ''reject'')"

definition reject_falls_back :: "string \<Rightarrow> db \<Rightarrow> bool" where
  "reject_falls_back rid s =
     (case find_plan s rid of
        None \<Rightarrow> False
      | Some p \<Rightarrow> dget (fallback_policy_json p) ''reject_action'' = JStr ''fallback'')"

definition approve ::
  "run_service \<Rightarrow> string \<Rightarrow> string \<Rightarrow> decision \<Rightarrow> int \<Rightarrow> time \<Rightarrow> db \<Rightarrow>
    runtime_error + (run_summary \<times> db)" where
  "approve sv rid caller dec expected_version now s =
     res_bind (owned_run rid caller False s) (\<lambda>r.
     let guard = (\<lambda>r. status r = WaitingHuman \<and> dispatch_state r = Finished \<and>
                      status_version r = expected_version)
     in res_bind (require (guard r) ApprovalConflict) (\<lambda>_.
     res_bind (assert_frozen_package r s) (\<lambda>_.
     let requeue = (dec = Approve \<or> reject_falls_back rid s);
         why = (if dec = Approve then ''human_approve'' else ''human_reject_fallback'');
         f = (if requeue
              then (\<lambda>r. r\<lparr>status_version := status_version r + 1,
                      error_code := (if dec = Approve then None else Some ''WAITING_HUMAN_FALLBACK''),
                      dispatch_state := Queued, queued_at := Some now\<rparr>)
              else (\<lambda>r. r\<lparr>status_version := status_version r + 1, status := Failed,
                      dispatch_state := Finished\<rparr>))
     in case update_run rid guard f s of
          None \<Rightarrow> Inl (AgentRunServiceError ApprovalConflict)
        | Some s1 \<Rightarrow>
            res_bind (if requeue
                then res_bind (transition_run (sv_limits sv) r (Some Finished) (Some Queued) s1)
                       (\<lambda>s2. Inr (append_run_dispatch rid why now s2))
                else append_callback rid Failed now s1) (\<lambda>s3.
            case find_run s3 rid of
              None \<Rightarrow> Inl AssertionError
            | Some r3 \<Rightarrow>
                Inr (summary_of r3,
                  append_audit r3 caller ''agent_run_approval_decided''
                    [(''decision'', decision_string dec),
                     (''dispatch_state'', dispatch_string (dispatch_state r3))] ''caller'' None now s3)))))"

section \<open>Every operation is sound\<close>

lemma owned_run_Inr [res_simps]:
  "owned_run rid caller a s = Inr r \<longleftrightarrow> find_run s rid = Some r \<and> (caller_id r = caller \<or> a)"
  by (auto simp: owned_run_def split: option.splits)

lemma assert_frozen_package_Inr [res_simps]:
  "assert_frozen_package r s = Inr u \<longleftrightarrow> package_executable s r"
  by (auto simp: assert_frozen_package_def package_executable_def res_simps split: option.splits)

lemma sound_then_append_audit: "sound s s1 \<Longrightarrow> sound s (append_audit r a b c d e now s1)"
  unfolding append_audit_def by (rule sound_then_audit)

lemma create_plan_frame:
  assumes "create_plan_from_definition pb rid def s = Inr (p, s')"
  shows "s' = s\<lparr>uuid_counter := Suc (uuid_counter s)\<rparr>" "p_run_id p = rid"
    "freeze_definition_steps pb (dget_default def ''workflow_nodes'' (JList [])) = Inr (steps_json p)"
    "stop_conditions_json p = default_stop_conditions"
    "fallback_policy_json p = frozen_fallback_policy (dget_default def ''policy'' (JObj [])) (steps_json p)"
  using assms by (auto simp: create_plan_from_definition_def uuid4_def res_simps Let_def)

lemma new_run_ok: "row_ok (new_run sv d cmd pol caller tenant ikey auth rid tid now)"
  by (cases "cc_start_mode cmd") (simp_all add: new_run_def row_ok_def terminal_def)

lemma create_cases:
  assumes "create pb sv cmd caller tenant ikey auth now s = Inr (sm, s')"
  obtains d pol r s4 p s5 where
    "find_definition s (cc_agent_id cmd) (cc_agent_version cmd) = Some d" "d_status d = ''active''"
    "validate_policy (dget_default (d_definition_json d) ''policy'' (JObj [])) = Some pol"
    "1 \<le> auth"
    "r = new_run sv d cmd pol caller tenant ikey auth (numeral_string (uuid_counter s))
           (numeral_string (Suc (uuid_counter s))) now"
    "transition_run (sv_limits sv) r None (Some (dispatch_state r))
       (s\<lparr>uuid_counter := Suc (Suc (uuid_counter s)), runs := runs s @ [r]\<rparr>) = Inr s4"
    "create_plan_from_definition pb (run_id r) (d_definition_json d) s4 = Inr (p, s5)"
    "s' = (if cc_start_mode cmd = StartAuto
           then append_run_dispatch (run_id r) ''auto_create'' now (persist_plan p s5)
           else persist_plan p s5)"
    "sm = summary_of r"
proof -
  have id: "run_id (new_run sv d cmd pol caller tenant ikey auth i t now) = i" for d pol i t
    by (simp add: new_run_def)
  show ?thesis
    using assms that
    by (auto simp: create_def uuid4_def id res_simps Let_def simp del: One_nat_def
        split: option.splits prod.splits)
qed

lemma sound_persist:
  assumes "sound s s1"
  shows "sound s (persist_plan p (s1\<lparr>uuid_counter := Suc (uuid_counter s1)\<rparr>))"
  by (rule sound_trans [OF assms sound_frame]) (use soundD [OF assms] in \<open>simp_all add: persist_plan_def\<close>)

lemma create_sound:
  assumes inv: "inv_db s" and c: "create pb sv cmd caller tenant ikey auth now s = Inr (sm, s')"
  shows "sound s s'"
  using c
proof (cases rule: create_cases)
  case (1 d pol r s4 p s5)
  have "sound s s4"
    by (rule step_admit [OF inv _ _ _ _ _ _ _ _ 1(6), of "uuid_counter s"])
       (simp_all add: 1(5) new_run_ok, simp_all add: new_run_def)
  then have "sound s (persist_plan p s5)"
    using create_plan_frame(1) [OF 1(7)] sound_persist by metis
  then show ?thesis using 1(8) sound_then_dispatch by simp
qed

lemma start_sound:
  assumes inv: "inv_db s" and st: "start sv rid caller v now s = Inr (sm, s')"
  shows "sound s s'"
proof (cases "s' = s")
  case True
  then show ?thesis using sound_refl [OF inv] by simp
next
  case False
  let ?f = "\<lambda>r. r\<lparr>dispatch_state := Queued, queued_at := Some now\<rparr>"
  from st False obtain r s1 where r: "find_run s rid = Some r" "dispatch_state r = Held" "status r = Pending"
    and tr: "transition_run (sv_limits sv) r (Some Held) (Some Queued) (set_run rid ?f s) = Inr s1"
    and s': "s' = append_run_dispatch rid ''explicit_start'' now s1"
    by (auto simp: start_def res_simps Let_def split: if_splits)
  have "row_ok (?f r)" using inv_db_row [OF inv r(1)] r(2,3) by (auto simp: row_ok_def terminal_def)
  moreover have "run_le r (?f r)" using r(3) by (simp add: run_le_def same_identity_def)
  ultimately have "sound s s1"
    using step_dispatch [OF inv r(1), of ?f r "sv_limits sv" s1] tr r(2) by simp
  then show ?thesis unfolding s' by (rule sound_then_dispatch)
qed

lemma get_run_sound:
  assumes "inv_db s" "get_run rid caller a now s = Inr (dt, s')"
  shows "sound s s'"
  using assms by (auto simp: get_run_def res_simps Let_def split: if_splits
      intro: sound_then_append_audit sound_refl)

lemma cancel_columns_sound:
  assumes inv: "inv_db s" and r: "find_run s rid = Some r"
  shows "sound s (set_run rid (\<lambda>r. r\<lparr>cancel_requested_at := Some now\<rparr>) s)"
  by (rule step_columns [OF inv r])
     (use inv_db_row [OF inv r] in \<open>auto simp: row_ok_def run_le_def same_identity_def run_scopes_def\<close>)

lemma cancel_sound:
  assumes inv: "inv_db s" and c: "cancel rid caller why now s = Inr (sm, s')"
  shows "sound s s'"
proof -
  let ?g = "\<lambda>r. r\<lparr>cancel_requested_at := Some now\<rparr>"
  let ?f = "\<lambda>r. r\<lparr>status := Cancelled, dispatch_state := Finished, status_version := status_version r + 1\<rparr>"
  let ?s1 = "set_run rid ?g s"
  from c obtain r r3 s3 where r: "find_run s rid = Some r"
    and s3: "(if dispatch_state r \<in> {Held, Queued} \<or> (status r = WaitingHuman \<and> dispatch_state r = Finished)
        then res_bind (transition_run default_limits r (Some (dispatch_state r)) (Some Finished) (set_run rid ?f ?s1))
              (append_callback rid Cancelled now)
        else Inr ?s1) = Inr s3"
    and s': "s' = append_audit r3 caller ''agent_run_cancelled''
        [(''dispatch_state'', dispatch_string (dispatch_state r3))] ''caller'' (Some why) now s3"
    by (auto simp: cancel_def res_simps Let_def split: option.splits)
  have s1: "sound s ?s1" by (rule cancel_columns_sound [OF inv r])
  have r1: "find_run ?s1 rid = Some (?g r)" using r find_run_id [OF r] by (simp add: find_run_set_run)
  have row: "row_ok (?g r)" by (rule inv_db_row [OF soundD(1) [OF s1] r1])
  have "sound s s3"
  proof (cases "dispatch_state r \<in> {Held, Queued} \<or> (status r = WaitingHuman \<and> dispatch_state r = Finished)")
    case False
    show ?thesis using s3 s1 unfolding if_not_P [OF False] by simp
  next
    case True
    with s3 obtain s2 where
      tr: "transition_run default_limits r (Some (dispatch_state r)) (Some Finished) (set_run rid ?f ?s1) = Inr s2"
      and cb: "append_callback rid Cancelled now s2 = Inr s3"
      by (auto simp: res_simps)
    have un: "lease_owner r = None" "lease_expires_at r = None"
      using row_ok_unleased [OF row] True by auto
    have "row_ok (?f (?g r))" using row un by (simp add: row_ok_def terminal_def)
    moreover have "status r \<notin> {Succeeded, Cancelled}"
      using row_ok_terminal [OF row] True by (auto simp: terminal_def)
    then have "run_le (?g r) (?f (?g r))" by (simp add: run_le_def same_identity_def)
    ultimately have "sound ?s1 s2"
      using step_dispatch [OF soundD(1) [OF s1] r1, of ?f r default_limits s2] tr
      by (simp add: run_scopes_def)
    with s1 have "sound s s2" by (rule sound_trans)
    then show ?thesis using r cb by (rule sound_then_callback)
  qed
  then show ?thesis unfolding s' by (rule sound_then_append_audit)
qed

lemma purge_sound:
  assumes inv: "inv_db s" and p: "purge rid caller why now s = Inr (dt, s')"
  shows "sound s s'"
proof -
  let ?f = "\<lambda>r. r\<lparr>privacy_state := PurgeRequested, privacy_version := privacy_version r + 1,
      privacy_purge_requested_at := Some now, cancel_requested_at := Some now\<rparr>"
  from p obtain r where r: "find_run s rid = Some r"
    and g: "get_run rid caller False now (if privacy_state r = PrivacyActive
        then append_audit r caller ''agent_run_purge_requested''
            [(''privacy_version'', int_string (privacy_version r + 1))] ''caller'' (Some why) now
            (set_run rid ?f s) else s) = Inr (dt, s')"
    by (auto simp: purge_def res_simps)
  show ?thesis
  proof (cases "privacy_state r = PrivacyActive")
    case True
    have "sound s (set_run rid ?f s)"
      by (rule step_columns [OF inv r])
         (use inv_db_row [OF inv r] True in \<open>auto simp: row_ok_def run_le_def same_identity_def run_scopes_def\<close>)
    then have "sound s (append_audit r caller ''agent_run_purge_requested''
            [(''privacy_version'', int_string (privacy_version r + 1))] ''caller'' (Some why) now
            (set_run rid ?f s))" (is "sound s ?s1")
      by (rule sound_then_append_audit)
    moreover have "get_run rid caller False now ?s1 = Inr (dt, s')" using g True by simp
    ultimately show ?thesis using get_run_sound sound_trans soundD(1) by blast
  next
    case False
    with g inv show ?thesis using get_run_sound by simp
  qed
qed

lemma purge_payloads_frame [frame_simps]:
  "runs (purge_payloads rid s) = runs s" "buckets (purge_payloads rid s) = buckets s"
  "callbacks (purge_payloads rid s) = callbacks s" "uuid_counter (purge_payloads rid s) = uuid_counter s"
  "find_run (purge_payloads rid s) = find_run s"
  by (simp_all add: purge_payloads_def find_run_def fun_eq_iff)

lemma complete_purge_sound:
  assumes inv: "inv_db s" and c: "complete_purge rid now s = Inr (ok, s')"
  shows "sound s s'"
proof (cases "s' = s")
  case True
  then show ?thesis using sound_refl [OF inv] by simp
next
  case False
  let ?f = "\<lambda>r. r\<lparr>input_json := [], output_summary_json := JNull, privacy_state := Purged,
      private_data_purged_at := Some now\<rparr>"
  from c False obtain r where r: "find_run s rid = Some r" "privacy_state r = PurgeRequested"
    and s': "s' = append_audit r ''runtime_privacy_worker'' ''agent_run_purged''
        [(''privacy_version'', int_string (privacy_version r))] ''system'' None now
        (set_run rid ?f (purge_payloads rid s))"
    by (auto simp: complete_purge_def res_simps split: option.splits if_splits)
  have "sound s (purge_payloads rid s)" by (rule sound_frame [OF inv]) (simp_all add: frame_simps)
  moreover from this have "sound (purge_payloads rid s) (set_run rid ?f (purge_payloads rid s))"
    by (intro step_columns [of _ rid r])
       (use inv_db_row [OF inv r(1)] r in \<open>auto simp: row_ok_def run_le_def same_identity_def
          run_scopes_def frame_simps soundD\<close>)
  ultimately show ?thesis unfolding s' by (intro sound_then_append_audit) (rule sound_trans)
qed

lemma retry_sound:
  assumes inv: "inv_db s" and rt: "retry sv rid caller a v now s = Inr (sm, s')"
  shows "sound s s'"
proof -
  define f where "f = (\<lambda>r :: agent_run. r\<lparr>manual_retry_count := manual_retry_count r + 1, status := Pending,
      dispatch_state := Queued, queued_at := Some now, status_version := status_version r + 1\<rparr>)"
  from rt obtain r s1 where r: "find_run s rid = Some r" "status r \<in> {Failed, Partial}"
      "manual_retry_count r < 3" "privacy_state r = PrivacyActive"
    and tr: "transition_run (sv_limits sv) r (Some Finished) (Some Queued) (set_run rid f s) = Inr s1"
    and s': "s' = append_audit (f r) caller ''agent_run_retried''
       [(''manual_retry_count'', int_string (manual_retry_count r + 1))] ''caller'' None now
       (append_run_dispatch rid ''manual_retry'' now s1)"
    by (auto simp: retry_def f_def res_simps Let_def)
  have row: "row_ok r" by (rule inv_db_row [OF inv r(1)])
  have fin: "dispatch_state r = Finished" using row_ok_terminal [OF row] r(2) by (auto simp: terminal_def)
  have "row_ok (f r)" using row r(3,4) row_ok_unleased [OF row] fin by (simp add: f_def row_ok_def terminal_def)
  moreover have "run_le r (f r)" using r(2) by (auto simp: f_def run_le_def same_identity_def)
  ultimately have "sound s s1"
    using step_dispatch [OF inv r(1), of f r "sv_limits sv" s1] tr fin by (simp add: f_def)
  then show ?thesis unfolding s' by (intro sound_then_append_audit sound_then_dispatch)
qed

lemma record_auto_retry_sound:
  assumes inv: "inv_db s" and rt: "record_auto_retry rid stp s = Inr s'"
  shows "sound s s'"
proof -
  let ?f = "\<lambda>r. r\<lparr>auto_retry_count := auto_retry_count r + 1\<rparr>"
  from rt obtain r g where r: "find_run s rid = Some r"
    and s': "s' = set_run rid ?f (s\<lparr>steps := g (steps s)\<rparr>)"
    by (cases stp) (auto simp: record_auto_retry_def Let_def res_simps split: option.splits
        intro: that [of _ "\<lambda>x. x"])
  let ?s1 = "s\<lparr>steps := g (steps s)\<rparr>"
  have s1: "sound s ?s1" by (rule sound_frame [OF inv]) simp_all
  have "find_run ?s1 rid = Some r" using r by (simp add: find_run_def)
  then have "sound ?s1 s'" unfolding s'
    by (intro step_columns [OF soundD(1) [OF s1]])
       (use inv_db_row [OF inv r] in \<open>auto simp: row_ok_def run_le_def same_identity_def run_scopes_def\<close>)
  with s1 show ?thesis by (rule sound_trans)
qed

lemma approve_sound:
  assumes inv: "inv_db s" and ap: "approve sv rid caller dec v now s = Inr (sm, s')"
  shows "sound s s'"
proof -
  let ?guard = "\<lambda>r :: agent_run. status r = WaitingHuman \<and> dispatch_state r = Finished \<and> status_version r = v"
  define requeue where "requeue = (dec = Approve \<or> reject_falls_back rid s)"
  define q where "q = (\<lambda>r :: agent_run. r\<lparr>status_version := status_version r + 1,
      error_code := (if dec = Approve then None else Some ''WAITING_HUMAN_FALLBACK''),
      dispatch_state := Queued, queued_at := Some now\<rparr>)"
  define e where "e = (\<lambda>r :: agent_run. r\<lparr>status_version := status_version r + 1, status := Failed,
      dispatch_state := Finished\<rparr>)"
  define why where "why = (if dec = Approve then ''human_approve'' else ''human_reject_fallback'')"
  from ap obtain r s1 s3 r3 where r: "find_run s rid = Some r" "?guard r"
    and u: "update_run rid ?guard (if requeue then q else e) s = Some s1"
    and s3: "(if requeue then res_bind (transition_run (sv_limits sv) r (Some Finished) (Some Queued) s1)
                (\<lambda>s2. Inr (append_run_dispatch rid why now s2))
              else append_callback rid Failed now s1) = Inr s3"
    and s': "s' = append_audit r3 caller ''agent_run_approval_decided''
        [(''decision'', decision_string dec),
         (''dispatch_state'', dispatch_string (dispatch_state r3))] ''caller'' None now s3"
    unfolding approve_def Let_def requeue_def [symmetric] why_def [symmetric] q_def [symmetric] e_def [symmetric]
    by (auto simp: res_simps split: option.splits)
  have s1: "s1 = set_run rid (if requeue then q else e) s"
    using u r by (simp add: update_run_Some_iff inv_db_wf [OF inv])
  have row: "row_ok r" by (rule inv_db_row [OF inv r(1)])
  note un = row_ok_unleased [OF row]
  have "sound s s3"
  proof (cases requeue)
    case True
    with s3 obtain s2 where
      tr: "transition_run (sv_limits sv) r (Some Finished) (Some Queued) (set_run rid q s) = Inr s2"
      and s3': "s3 = append_run_dispatch rid why now s2"
      by (auto simp: res_simps s1)
    have "row_ok (q r)" using row un r(2) by (simp add: q_def row_ok_def terminal_def)
    moreover have "run_le r (q r)" using r(2) by (simp add: q_def run_le_def same_identity_def)
    ultimately have "sound s s2"
      using step_dispatch [OF inv r(1), of q r "sv_limits sv" s2] tr r(2) by (simp add: q_def)
    then show ?thesis unfolding s3' by (rule sound_then_dispatch)
  next
    case False
    have "sound s (set_run rid (\<lambda>r. r\<lparr>status_version := status_version r + 1, status := Failed,
        dispatch_state := dispatch_state r\<rparr>) s)"
      by (rule step_columns [OF inv r(1)])
         (use row un r(2) in \<open>simp_all add: row_ok_def terminal_def run_le_def same_identity_def run_scopes_def\<close>)
    moreover have "set_run rid e s = set_run rid (\<lambda>r. r\<lparr>status_version := status_version r + 1, status := Failed,
        dispatch_state := dispatch_state r\<rparr>) s"
      by (rule set_run_cong [OF inv_db_wf [OF inv] r(1)]) (use r(2) in \<open>simp add: e_def\<close>)
    ultimately have "sound s s1" using False by (simp add: s1)
    then show ?thesis using r(1) s3 False by (auto intro: sound_then_callback)
  qed
  then show ?thesis unfolding s' by (rule sound_then_append_audit)
qed

section \<open>Properties\<close>

text \<open>What a run that nobody has worked on yet looks like.\<close>

definition unworked :: "agent_run \<Rightarrow> bool" where
  "unworked r \<longleftrightarrow> status r = Pending \<and> status_version r = 1 \<and> last_event_seq r = 0 \<and>
     execution_attempt r = 0 \<and> manual_retry_count r = 0 \<and> auto_retry_count r = 0 \<and>
     lease_owner r = None \<and> lease_expires_at r = None \<and> fencing_token r = 0 \<and>
     claimed_at r = None \<and> started_at r = None \<and> finished_at r = None \<and> waiting_expires_at r = None \<and>
     active_elapsed_ms r = 0 \<and> output_summary_json r = JNull \<and> error_code r = None \<and>
     cancel_requested_at r = None \<and> privacy_state r = PrivacyActive \<and> privacy_version r = 1 \<and>
     privacy_purge_requested_at r = None \<and> private_data_purged_at r = None"

text \<open>The one dispatch event of an automatic start: pending, never attempted, held by nobody and
  due at once.\<close>

definition auto_dispatch :: "string \<Rightarrow> time \<Rightarrow> outbox_event \<Rightarrow> bool" where
  "auto_dispatch rid now ev \<longleftrightarrow> o_event_type ev = ''run_dispatch'' \<and> aggregate_type ev = ''agent_run'' \<and>
     aggregate_id ev = rid \<and>
     o_payload_json ev = [(''run_id'', JStr rid), (''reason'', JStr ''auto_create'')] \<and>
     o_status ev = ''pending'' \<and> attempt_count ev = 0 \<and> next_attempt_at ev = None \<and>
     o_lease_owner ev = None \<and> o_lease_expires_at ev = None \<and> last_error_code ev = None \<and>
     delivered_at ev = None \<and> retention_until ev = now + days 30"

lemma append_run_dispatch_auto:
  "\<exists>ev. auto_dispatch rid now ev \<and> append_run_dispatch rid ''auto_create'' now s =
     s\<lparr>outbox := outbox s @ [ev], uuid_counter := Suc (uuid_counter s)\<rparr>"
  by (rule exI [of _ "last (outbox (append_run_dispatch rid ''auto_create'' now s))"])
     (simp add: append_run_dispatch_def uuid4_def Let_def auto_dispatch_def)

text \<open>The database after an accepted create, table by table.\<close>

lemma create_tables:
  assumes "create pb sv cmd caller tenant ikey auth now s = Inr (sm, s')"
  obtains d pol r p os where
    "find_definition s (cc_agent_id cmd) (cc_agent_version cmd) = Some d" "d_status d = ''active''"
    "validate_policy (dget_default (d_definition_json d) ''policy'' (JObj [])) = Some pol"
    "r = new_run sv d cmd pol caller tenant ikey auth (numeral_string (uuid_counter s))
           (numeral_string (Suc (uuid_counter s))) now"
    "sm = summary_of r"
    "move_scopes (sv_limits sv) (buckets s) (run_scopes r) None (Some (dispatch_state r)) = Inr (buckets s')"
    "freeze_definition_steps pb (dget_default (d_definition_json d) ''workflow_nodes'' (JList [])) = Inr (steps_json p)"
    "p = \<lparr>plan_id = plan_id p, p_run_id = run_id r, strategy = ''static_workflow'', steps_json = steps_json p,
       stop_conditions_json = default_stop_conditions,
       fallback_policy_json = frozen_fallback_policy (dget_default (d_definition_json d) ''policy'' (JObj [])) (steps_json p),
       p_status = ''planned''\<rparr>"
    "s' = s\<lparr>runs := runs s @ [r], plans := plans s @ [p], outbox := outbox s @ os,
       buckets := buckets s', uuid_counter := uuid_counter s'\<rparr>"
    "if cc_start_mode cmd = StartAuto then \<exists>ev. os = [ev] \<and> auto_dispatch (run_id r) now ev else os = []"
  using assms
proof (cases rule: create_cases)
  case (1 d pol r s4 p s5)
  have s4: "s4 = s\<lparr>uuid_counter := Suc (Suc (uuid_counter s)), runs := runs s @ [r], buckets := buckets s4\<rparr>"
    using transition_run_frame [OF 1(6)] by simp
  have mv: "move_scopes (sv_limits sv) (buckets s) (run_scopes r) None (Some (dispatch_state r)) = Inr (buckets s4)"
    using transition_run_buckets [OF 1(6)] by simp
  note pf = create_plan_frame [OF 1(7)]
  have "strategy p = ''static_workflow''" "p_status p = ''planned''"
    using 1(7) by (auto simp: create_plan_from_definition_def uuid4_def res_simps Let_def)
  with pf have p: "p = \<lparr>plan_id = plan_id p, p_run_id = run_id r, strategy = ''static_workflow'', steps_json = steps_json p,
       stop_conditions_json = default_stop_conditions,
       fallback_policy_json = frozen_fallback_policy (dget_default (d_definition_json d) ''policy'' (JObj [])) (steps_json p),
       p_status = ''planned''\<rparr>"
    by simp
  have pp: "persist_plan p s5 = s\<lparr>runs := runs s @ [r], plans := plans s @ [p], buckets := buckets s4,
      uuid_counter := Suc (Suc (Suc (uuid_counter s)))\<rparr>"
    unfolding persist_plan_def pf(1) by (subst (1 2 3) s4) simp
  have "\<exists>os. s' = s\<lparr>runs := runs s @ [r], plans := plans s @ [p], outbox := outbox s @ os,
       buckets := buckets s4, uuid_counter := uuid_counter s'\<rparr> \<and>
      (if cc_start_mode cmd = StartAuto then \<exists>ev. os = [ev] \<and> auto_dispatch (run_id r) now ev else os = [])"
  proof (cases "cc_start_mode cmd = StartAuto")
    case True
    obtain ev where "auto_dispatch (run_id r) now ev" "s' = (persist_plan p s5)\<lparr>
        outbox := outbox (persist_plan p s5) @ [ev], uuid_counter := Suc (uuid_counter (persist_plan p s5))\<rparr>"
      using append_run_dispatch_auto [of "run_id r" now "persist_plan p s5"] 1(8) True by auto
    with True pp show ?thesis by (intro exI [of _ "[ev]"]) simp
  next
    case False
    with pp 1(8) show ?thesis by (intro exI [of _ "[]"]) simp
  qed
  then obtain os where eq: "s' = s\<lparr>runs := runs s @ [r], plans := plans s @ [p], outbox := outbox s @ os,
       buckets := buckets s4, uuid_counter := uuid_counter s'\<rparr>"
    and os: "if cc_start_mode cmd = StartAuto then \<exists>ev. os = [ev] \<and> auto_dispatch (run_id r) now ev else os = []"
    by blast
  have "buckets s' = buckets s4" using arg_cong [OF eq, of buckets] by simp
  note b = this [symmetric]
  show ?thesis by (rule that [OF 1(1,2,3,5,9) mv [unfolded b] pf(3) p eq [unfolded b] os])
qed

text \<open>C6. An accepted create admits exactly one new run and writes nothing else: a fresh
  identifier, pending and unworked, held for ten minutes or queued as the start mode asks, bound
  to the caller, tenant, idempotency key and authorization version of the request, to its input
  and business and to the digest of the active package it was checked against. Its plan holds
  the frozen steps of that package, its stop conditions and its fallback policy; the automatic
  mode, and only it, queues one dispatch event of the run; the admission counters move by this
  run alone; every other row of the database is as before.\<close>

theorem create_admits_run:
  assumes inv: "inv_db s" and c: "create pb sv cmd caller tenant ikey auth now s = Inr (sm, s')"
  shows "find_run s (sm_run_id sm) = None \<and>
    (\<exists>d pol r p os.
       find_definition s (cc_agent_id cmd) (cc_agent_version cmd) = Some d \<and> d_status d = ''active'' \<and>
       validate_policy (dget_default (d_definition_json d) ''policy'' (JObj [])) = Some pol \<and>
       s' = s\<lparr>runs := runs s @ [r], plans := plans s @ [p], outbox := outbox s @ os,
              buckets := buckets s', uuid_counter := uuid_counter s'\<rparr> \<and>
       sm = summary_of r \<and> unworked r \<and>
       agent_id r = cc_agent_id cmd \<and> agent_version r = cc_agent_version cmd \<and>
       package_digest r = d_package_digest d \<and> contract_version r = d_contract_version d \<and>
       capability_snapshot_json r = capability_snapshot sv d cmd pol \<and> package_executable s' r \<and>
       business_type r = cc_business_type cmd \<and> business_id r = cc_business_id cmd \<and>
       input_json r = cc_input cmd \<and> callback_target_id r = cc_callback_target_id cmd \<and>
       business_connector_id r = cc_business_connector_id cmd \<and>
       caller_id r = caller \<and> tenant_id r = tenant \<and> create_idempotency_key r = ikey \<and>
       authorization_version r = auth \<and> run_deadline_at r = now + days 1 \<and>
       (if cc_start_mode cmd = StartHeld
        then dispatch_state r = Held \<and> held_expires_at r = Some (now + minutes 10) \<and> queued_at r = None \<and> os = []
        else dispatch_state r = Queued \<and> held_expires_at r = None \<and> queued_at r = Some now \<and>
          (\<exists>ev. os = [ev] \<and> auto_dispatch (run_id r) now ev)) \<and>
       p_run_id p = run_id r \<and> strategy p = ''static_workflow'' \<and> p_status p = ''planned'' \<and>
       freeze_definition_steps pb (dget_default (d_definition_json d) ''workflow_nodes'' (JList [])) = Inr (steps_json p) \<and>
       stop_conditions_json p = default_stop_conditions \<and>
       fallback_policy_json p = frozen_fallback_policy (dget_default (d_definition_json d) ''policy'' (JObj [])) (steps_json p) \<and>
       move_scopes (sv_limits sv) (buckets s) (run_scopes r) None (Some (dispatch_state r)) = Inr (buckets s'))"
  using c
proof (cases rule: create_tables)
  case (1 d pol r p os)
  have rid: "run_id r = numeral_string (uuid_counter s)" and sm: "sm_run_id sm = run_id r"
    by (simp_all add: 1(4,5) new_run_def summary_of_def)
  have new: "find_run s (sm_run_id sm) = None"
    using inv rid unfolding sm by (force simp: inv_db_def wf_db_def find_run_def sel_one_None_iff)
  have defs: "definitions s' = definitions s" by (subst 1(9)) simp
  have pe: "package_executable s' r"
    using 1(1,2) by (simp add: package_executable_def find_definition_def defs 1(4) new_run_def)
  have mode: "cc_start_mode cmd \<noteq> StartAuto \<longleftrightarrow> cc_start_mode cmd = StartHeld"
    by (cases "cc_start_mode cmd") simp_all
  have plan: "p_run_id p = run_id r" "strategy p = ''static_workflow''" "p_status p = ''planned''"
    "stop_conditions_json p = default_stop_conditions"
    "fallback_policy_json p = frozen_fallback_policy (dget_default (d_definition_json d) ''policy'' (JObj [])) (steps_json p)"
    by (subst 1(8), simp)+
  have row: "unworked r" "agent_id r = cc_agent_id cmd" "agent_version r = cc_agent_version cmd"
    "package_digest r = d_package_digest d" "contract_version r = d_contract_version d"
    "capability_snapshot_json r = capability_snapshot sv d cmd pol"
    "business_type r = cc_business_type cmd" "business_id r = cc_business_id cmd"
    "input_json r = cc_input cmd" "callback_target_id r = cc_callback_target_id cmd"
    "business_connector_id r = cc_business_connector_id cmd" "caller_id r = caller" "tenant_id r = tenant"
    "create_idempotency_key r = ikey" "authorization_version r = auth" "run_deadline_at r = now + days 1"
    by (simp_all add: 1(4) new_run_def unworked_def)
  have st: "if cc_start_mode cmd = StartHeld
        then dispatch_state r = Held \<and> held_expires_at r = Some (now + minutes 10) \<and> queued_at r = None \<and> os = []
        else dispatch_state r = Queued \<and> held_expires_at r = None \<and> queued_at r = Some now \<and>
          (\<exists>ev. os = [ev] \<and> auto_dispatch (run_id r) now ev)"
    using 1(10) by (cases "cc_start_mode cmd") (simp_all add: 1(4) new_run_def)
  show ?thesis
    by (rule conjI [OF new], rule exI [of _ d], rule exI [of _ pol], rule exI [of _ r], rule exI [of _ p],
        rule exI [of _ os]) (intro conjI 1(1,2,3,5,6,7,9) row pe st plan)
qed

definition demo_command :: "start_mode \<Rightarrow> create_command" where
  "demo_command m = \<lparr>cc_agent_id = ''memoir'', cc_agent_version = ''1'', cc_business_type = ''memoir'',
     cc_business_id = ''b'', cc_start_mode = m, cc_input = [], cc_callback_target_id = ''cb'',
     cc_business_connector_id = ''bc'', cc_data_domain = ''d''\<rparr>"

definition demo_plain_service :: run_service where
  "demo_plain_service = \<lparr>sv_limits = default_limits, sv_route_ids = [], sv_residency = None, sv_resolver = None\<rparr>"

lemma demo_create:
  "\<not> isl (create (\<lambda>_. None) demo_plain_service (demo_command StartAuto) ''c'' ''t'' ''k'' 1 7
     (demo_db (demo_run Pending Held)))"
  by code_simp

theorem create_admits_run_witness:
  "\<exists>sm s' r. create (\<lambda>_. None) demo_plain_service (demo_command StartAuto) ''c'' ''t'' ''k'' 1 7
       (demo_db (demo_run Pending Held)) = Inr (sm, s') \<and>
     runs s' = runs (demo_db (demo_run Pending Held)) @ [r] \<and> sm = summary_of r \<and> dispatch_state r = Queued \<and>
     (\<exists>ev. outbox s' = outbox (demo_db (demo_run Pending Held)) @ [ev] \<and> auto_dispatch (run_id r) 7 ev)"
proof -
  obtain sm s' where m: "create (\<lambda>_. None) demo_plain_service (demo_command StartAuto) ''c'' ''t'' ''k'' 1 7
       (demo_db (demo_run Pending Held)) = Inr (sm, s')"
    using result_pair [OF demo_create] by blast
  have "\<exists>r p os. s' = (demo_db (demo_run Pending Held))\<lparr>runs := runs (demo_db (demo_run Pending Held)) @ [r],
      plans := plans (demo_db (demo_run Pending Held)) @ [p], outbox := outbox (demo_db (demo_run Pending Held)) @ os,
      buckets := buckets s', uuid_counter := uuid_counter s'\<rparr> \<and> sm = summary_of r \<and> dispatch_state r = Queued \<and>
      (\<exists>ev. os = [ev] \<and> auto_dispatch (run_id r) 7 ev)"
    using create_admits_run [OF inv_demo_states(1) m] by (auto simp: demo_command_def)
  then obtain r p os where s': "s' = (demo_db (demo_run Pending Held))\<lparr>runs := runs (demo_db (demo_run Pending Held)) @ [r],
      plans := plans (demo_db (demo_run Pending Held)) @ [p], outbox := outbox (demo_db (demo_run Pending Held)) @ os,
      buckets := buckets s', uuid_counter := uuid_counter s'\<rparr>"
    and rest: "sm = summary_of r" "dispatch_state r = Queued" "\<exists>ev. os = [ev] \<and> auto_dispatch (run_id r) 7 ev"
    by blast
  have "runs s' = runs (demo_db (demo_run Pending Held)) @ [r]"
    "outbox s' = outbox (demo_db (demo_run Pending Held)) @ os"
    by (subst s', simp)+
  with m rest show ?thesis by blast
qed

text \<open>The resolvers the application injects read the deployment's configuration of the run's
  caller and nothing else of the run.\<close>

definition resolver_by_caller :: "run_service \<Rightarrow> bool" where
  "resolver_by_caller sv \<longleftrightarrow> (\<forall>res r r'. sv_resolver sv = Some res \<longrightarrow> caller_id r = caller_id r' \<longrightarrow> res r = res r')"

lemma assert_authorization_same:
  assumes "resolver_by_caller sv" "same_identity r r'"
  shows "assert_authorization_current sv r' = assert_authorization_current sv r"
proof (cases "sv_resolver sv")
  case None
  then show ?thesis by (simp add: assert_authorization_current_def)
next
  case (Some res)
  have "caller_id r' = caller_id r" using assms(2) by (simp add: same_identity_def)
  then have "res r' = res r" using assms(1) Some unfolding resolver_by_caller_def by blast
  with Some assms(2) show ?thesis by (simp add: assert_authorization_current_def same_identity_def)
qed

text \<open>Starting is idempotent: a start that was accepted can be repeated, and the repetition
  returns the same summary and writes nothing (no second dispatch, no second admission).\<close>

lemma start_idempotent:
  assumes res: "resolver_by_caller sv" and st: "start sv rid caller v now s = Inr (sm, s')"
  shows "start sv rid caller v now' s' = Inr (sm, s')"
proof -
  obtain r where r: "find_run s rid = Some r" using st by (auto simp: start_def res_simps)
  show ?thesis
  proof (cases "dispatch_state r \<in> {Queued, Claimed}")
    case True
    with st r show ?thesis by (auto simp: start_def res_simps Let_def)
  next
    case False
    let ?f = "\<lambda>r. r\<lparr>dispatch_state := Queued, queued_at := Some now\<rparr>"
    from st False r obtain s1 where
      auth: "caller_id r = caller" "assert_authorization_current sv r = Inr ()" "package_executable s r"
        "case v of None \<Rightarrow> True | Some v \<Rightarrow> status_version r = v"
        "privacy_state r = PrivacyActive" "cancel_requested_at r = None"
      and tr: "transition_run (sv_limits sv) r (Some Held) (Some Queued) (set_run rid ?f s) = Inr s1"
      and s': "s' = append_run_dispatch rid ''explicit_start'' now s1" and sm: "sm = summary_of (?f r)"
      by (auto simp: start_def res_simps Let_def split: if_splits)
    have same: "same_identity r (?f r)" by (simp add: same_identity_def)
    have r': "find_run s' rid = Some (?f r)"
      using r find_run_id [OF r] by (simp add: s' transition_run_find [OF tr] find_run_set_run)
    have "definitions s' = definitions s"
      using tr by (auto simp: s' transition_run_def res_simps frame_simps)
    then have "package_executable s' (?f r)"
      using auth(3) package_executable_same [OF same] by simp
    then show ?thesis
      using r' auth sm assert_authorization_same [OF res same]
      by (cases v) (simp_all add: start_def res_simps Let_def)
  qed
qed

definition demo_service :: run_service where
  "demo_service = \<lparr>sv_limits = default_limits, sv_route_ids = [], sv_residency = None,
     sv_resolver = Some (\<lambda>_. Inr (Some 1))\<rparr>"

lemma purge_barrier:
  assumes p: "purge rid caller why now s = Inr (dt, s')" and inv: "inv_db s"
  shows "\<exists>r. find_run s' rid = Some r \<and> privacy_state r \<noteq> PrivacyActive \<and> cancel_requested_at r \<noteq> None"
proof -
  let ?f = "\<lambda>r. r\<lparr>privacy_state := PurgeRequested, privacy_version := privacy_version r + 1,
      privacy_purge_requested_at := Some now, cancel_requested_at := Some now\<rparr>"
  from p obtain r where r: "find_run s rid = Some r"
    and g: "get_run rid caller False now (if privacy_state r = PrivacyActive
        then append_audit r caller ''agent_run_purge_requested''
            [(''privacy_version'', int_string (privacy_version r + 1))] ''caller'' (Some why) now
            (set_run rid ?f s) else s) = Inr (dt, s')"
    by (auto simp: purge_def res_simps)
  have get: "find_run s2 = find_run s1" if "get_run rid caller False now s1 = Inr (dt, s2)" for s1 s2
    using that by (auto simp: get_run_def res_simps Let_def)
  show ?thesis
  proof (cases "privacy_state r = PrivacyActive")
    case True
    then show ?thesis
      using get [OF g] r find_run_id [OF r]
      by (simp add: append_audit_def find_run_def frame_simps sel_key_upd_where)
  next
    case False
    then have "find_run s' rid = Some r" using get [OF g] r by simp
    moreover have "cancel_requested_at r \<noteq> None" using inv_db_row [OF inv r] False by (simp add: row_ok_def)
    ultimately show ?thesis using False by blast
  qed
qed

lemma privacy_rank_active: "privacy_rank p = 0 \<longleftrightarrow> p = PrivacyActive"
  by (cases p) simp_all

text \<open>C4. The privacy barrier is immediate and permanent: once a purge request was accepted, no
  execution context passes the write gate of the run in that or in any later state, the run
  cannot be claimed and it cannot be retried.\<close>

theorem purge_blocks_writes:
  assumes inv: "inv_db s" and p: "purge rid caller why now s = Inr (dt, s')"
    and later: "advances s' s''" "inv_db s''"
  shows "\<not> can_write rid ctx t s'' \<and> claim ls rid owner t s'' = Inr (None, s'') \<and>
    (\<exists>e. retry sv rid cl a v t s'' = Inl e)"
proof -
  obtain r where r: "find_run s' rid = Some r" "privacy_state r \<noteq> PrivacyActive" "cancel_requested_at r \<noteq> None"
    using purge_barrier [OF p inv] by blast
  then obtain r'' where r'': "find_run s'' rid = Some r''" and le: "run_le r r''"
    using later(1) by (auto simp: advances_def)
  have priv: "privacy_state r'' \<noteq> PrivacyActive" "cancel_requested_at r'' \<noteq> None"
    using le r(2,3) privacy_rank_active [of "privacy_state r"] privacy_rank_active [of "privacy_state r''"]
    by (auto simp: run_le_def)
  have "\<not> can_write rid ctx t s''" using r'' priv by (auto simp: can_write_def)
  moreover have "update_run rid claimable f s'' = None" for f
    using r'' priv by (auto simp: update_run_None_iff inv_db_wf [OF later(2)] claimable_def)
  then have "claim ls rid owner t s'' = Inr (None, s'')" by (simp add: claim_def)
  moreover have "retry sv rid cl a v t s'' \<noteq> Inr x" for x
    using r'' priv(1) by (auto simp: retry_def res_simps Let_def)
  then have "\<exists>e. retry sv rid cl a v t s'' = Inl e" by (metis sum.exhaust)
  ultimately show ?thesis by blast
qed

theorem purge_blocks_writes_witness:
  "\<exists>dt s'. purge ''0'' ''c'' ''user'' 7 (demo_db demo_claimed) = Inr (dt, s') \<and>
     can_write ''0'' demo_ctx 7 (demo_db demo_claimed) \<and> \<not> can_write ''0'' demo_ctx 7 s'"
proof -
  have "\<not> isl (purge ''0'' ''c'' ''user'' 7 (demo_db demo_claimed))" by code_simp
  then obtain dt s' where m: "purge ''0'' ''c'' ''user'' 7 (demo_db demo_claimed) = Inr (dt, s')"
    using result_pair by blast
  have "can_write ''0'' demo_ctx 7 (demo_db demo_claimed)" by code_simp
  with m purge_blocks_writes [OF inv_demo_claimed m advances_refl soundD(1) [OF purge_sound [OF inv_demo_claimed m]]]
  show ?thesis by blast
qed

text \<open>What may survive in a usage summary: short identifiers over a safe alphabet, token counts
  within bounds, flags, and short lists of such identifiers, under the listed keys only.\<close>

fun harmless_value :: "json \<Rightarrow> bool" where
  "harmless_value (JStr x) \<longleftrightarrow> x \<noteq> [] \<and> length x \<le> 64 \<and> (\<forall>c\<in>set x. safe_summary_char c)"
| "harmless_value (JInt i) \<longleftrightarrow> 0 \<le> i \<and> i \<le> 10000000"
| "harmless_value (JBool b) \<longleftrightarrow> True"
| "harmless_value (JList xs) \<longleftrightarrow> length xs \<le> 32 \<and>
     (\<forall>x\<in>set xs. \<exists>w. x = JStr w \<and> w \<noteq> [] \<and> length w \<le> 64 \<and> (\<forall>c\<in>set w. safe_summary_char c))"
| "harmless_value _ \<longleftrightarrow> False"

definition harmless_summary :: "string set \<Rightarrow> json \<Rightarrow> json \<Rightarrow> bool" where
  "harmless_summary ks before_purge j \<longleftrightarrow> j = JNull \<or>
     (\<exists>d. j = JObj d \<and> d \<noteq> [] \<and> distinct (map fst d) \<and>
        (\<forall>(k, v)\<in>set d. k \<in> ks \<and> harmless_value v \<and> v = jget before_purge k))"

definition snapshot_keys :: "string set" where
  "snapshot_keys = {''route_config_version'', ''data_residency'', ''capabilities'', ''max_context_tokens'', ''max_output_tokens''}"

definition thinking_keys :: "string set" where
  "thinking_keys = {''thinking_enabled'', ''max_output_tokens'', ''input_token_budget'', ''normalization_version''}"

lemma safe_string_harmless: "safe_summary_string j 64 \<Longrightarrow> \<exists>w. j = JStr w \<and> w \<noteq> [] \<and> length w \<le> 64 \<and> (\<forall>c\<in>set w. safe_summary_char c)"
  by (cases "(j, 64 :: nat)" rule: safe_summary_string.cases) (auto simp: list_all_iff)

lemma safe_string_value: "safe_summary_string j 64 \<Longrightarrow> harmless_value j"
  by (drule safe_string_harmless) auto

lemma bounded_value: "bounded_tokens j \<Longrightarrow> harmless_value j"
  by (cases j) (simp_all add: bounded_tokens_def)

lemma distinct_five:
  assumes "a = [] \<or> a = [''route_config_version'']" "b = [] \<or> b = [''data_residency'']"
    "c = [] \<or> c = [''capabilities'']" "d = [] \<or> d = [''max_context_tokens'']"
    "e = [] \<or> e = [''max_output_tokens'']"
  shows "distinct (a @ b @ c @ d @ e)"
  using assms by (elim disjE) simp_all

lemma snapshot_harmless: "harmless_summary snapshot_keys j (safe_usage_capability_snapshot j)"
proof (cases j)
  case (JObj d)
  let ?keep = "\<lambda>k. if safe_summary_string (dget d k) 64 then [(k, dget d k)] else []"
  let ?caps = "case dget d ''capabilities'' of
             JList xs \<Rightarrow> if length xs \<le> 32 \<and> list_all (\<lambda>x. safe_summary_string x 64) xs
                         then [(''capabilities'', JList xs)] else []
           | _ \<Rightarrow> []"
  let ?num = "\<lambda>k. if bounded_tokens (dget d k) then [(k, dget d k)] else []"
  let ?res = "?keep ''route_config_version'' @ ?keep ''data_residency'' @ ?caps @
                   ?num ''max_context_tokens'' @ ?num ''max_output_tokens''"
  let ?ok = "\<lambda>(k, v). k \<in> snapshot_keys \<and> harmless_value v \<and> v = dget d k"
  have keep: "\<forall>x\<in>set (?keep k). ?ok x" if "k \<in> snapshot_keys" for k
    using that by (auto dest: safe_string_value)
  have num: "\<forall>x\<in>set (?num k). ?ok x" if "k \<in> snapshot_keys" for k
    using that by (auto dest: bounded_value)
  have "''capabilities'' \<in> snapshot_keys" by (simp add: snapshot_keys_def)
  then have caps: "\<forall>x\<in>set ?caps. ?ok x"
    by (cases "dget d ''capabilities''") (auto simp: list_all_iff dest!: safe_string_harmless)
  have ok: "\<forall>x\<in>set ?res. ?ok x"
    unfolding set_append ball_Un
    by (intro conjI keep num caps) (simp_all add: snapshot_keys_def)
  have ks: "map fst (?keep k) = [] \<or> map fst (?keep k) = [k]"
    "map fst (?num k) = [] \<or> map fst (?num k) = [k]" for k by simp_all
  have cs: "map fst ?caps = [] \<or> map fst ?caps = [''capabilities'']"
    by (cases "dget d ''capabilities''") simp_all
  have "distinct (map fst ?res)"
    unfolding map_append by (rule distinct_five [OF ks(1) ks(1) cs ks(2) ks(2)])
  with ok have "?res \<noteq> [] \<Longrightarrow> harmless_summary snapshot_keys j (JObj ?res)"
    unfolding harmless_summary_def JObj jget.simps by blast
  then show ?thesis by (simp add: JObj harmless_summary_def Let_def)
qed (simp_all add: harmless_summary_def)

lemma thinking_harmless: "harmless_summary thinking_keys j (safe_thinking_summary j)"
proof (cases j)
  case (JObj d)
  show ?thesis
    by (cases "dget d ''thinking_enabled''")
       (auto simp: JObj harmless_summary_def thinking_keys_def dest: safe_string_value bounded_value)
qed (simp_all add: harmless_summary_def)

text \<open>C5. A completed purge leaves no private payload of the run: no checkpoint, no input, no
  output, no step, tool call or artifact summary. Of its usage summaries only listed keys with
  harmless values survive, each an entry the summary had before. Nothing else is touched: the
  run's other columns, every row of another run in every one of these tables, and all remaining
  tables but the audit trail, which gains one record. Purging again changes nothing.\<close>

theorem complete_purge_erases:
  assumes inv: "inv_db s" and c: "complete_purge rid now s = Inr (True, s')"
  shows "(\<exists>r. find_run s rid = Some r \<and> privacy_state r = PurgeRequested \<and>
       find_run s' rid = Some (r\<lparr>input_json := [], output_summary_json := JNull, privacy_state := Purged,
         private_data_purged_at := Some now\<rparr>)) \<and>
    (\<forall>k\<in>set (checkpoints s'). c_run_id k \<noteq> rid) \<and>
    (\<forall>x\<in>set (steps s'). s_run_id x = rid \<longrightarrow> s_input_summary x = JNull \<and> s_output_summary x = JNull) \<and>
    (\<forall>x\<in>set (tool_calls s'). t_run_id x = rid \<longrightarrow> t_input_summary x = JNull \<and> t_output_summary x = JNull) \<and>
    (\<forall>x\<in>set (artifacts s'). a_run_id x = rid \<longrightarrow> summary_json x = JNull) \<and>
    list_all2 (\<lambda>x x'. if u_run_id x = rid
        then harmless_summary snapshot_keys (u_capability_snapshot_json x) (u_capability_snapshot_json x') \<and>
          harmless_summary thinking_keys (thinking_summary_json x) (thinking_summary_json x') \<and>
          x' = x\<lparr>u_capability_snapshot_json := u_capability_snapshot_json x',
                 thinking_summary_json := thinking_summary_json x'\<rparr>
        else x' = x) (usages s) (usages s') \<and>
    checkpoints s' = filter (\<lambda>k. c_run_id k \<noteq> rid) (checkpoints s) \<and>
    filter (\<lambda>x. s_run_id x \<noteq> rid) (steps s') = filter (\<lambda>x. s_run_id x \<noteq> rid) (steps s) \<and>
    filter (\<lambda>x. t_run_id x \<noteq> rid) (tool_calls s') = filter (\<lambda>x. t_run_id x \<noteq> rid) (tool_calls s) \<and>
    filter (\<lambda>x. a_run_id x \<noteq> rid) (artifacts s') = filter (\<lambda>x. a_run_id x \<noteq> rid) (artifacts s) \<and>
    (\<forall>k. k \<noteq> rid \<longrightarrow> find_run s' k = find_run s k) \<and>
    (\<exists>a. s' = s\<lparr>runs := runs s', steps := steps s', tool_calls := tool_calls s', checkpoints := checkpoints s',
       artifacts := artifacts s', usages := usages s', audits := audits s @ [a], uuid_counter := uuid_counter s'\<rparr>) \<and>
    complete_purge rid now' s' = Inr (False, s')"
proof -
  let ?f = "\<lambda>r. r\<lparr>input_json := [], output_summary_json := JNull, privacy_state := Purged,
      private_data_purged_at := Some now\<rparr>"
  from c obtain r where r: "find_run s rid = Some r" "privacy_state r = PurgeRequested"
    and s': "s' = append_audit r ''runtime_privacy_worker'' ''agent_run_purged''
        [(''privacy_version'', int_string (privacy_version r))] ''system'' None now
        (set_run rid ?f (purge_payloads rid s))"
    by (auto simp: complete_purge_def res_simps split: option.splits if_splits)
  have tabs: "checkpoints s' = del_where (\<lambda>c. c_run_id c = rid) (checkpoints s)"
    "steps s' = steps (purge_payloads rid s)" "tool_calls s' = tool_calls (purge_payloads rid s)"
    "artifacts s' = artifacts (purge_payloads rid s)" "usages s' = usages (purge_payloads rid s)"
    by (simp_all add: s' append_audit_def frame_simps set_run_def purge_payloads_def)
  have find: "find_run s' k = map_option (\<lambda>r. if run_id r = rid then ?f r else r) (find_run s k)" for k
    by (simp add: s' append_audit_def find_run_def frame_simps sel_key_upd_where)
  have self: "find_run s' rid = Some (?f r)" using find r find_run_id [OF r(1)] by simp
  have other: "find_run s' k = find_run s k" if "k \<noteq> rid" for k
    using find [of k] that find_run_id [of s k] by (cases "find_run s k") auto
  have again: "complete_purge rid now' s' = Inr (False, s')" using self by (simp add: complete_purge_def)
  have row: "\<exists>r. find_run s rid = Some r \<and> privacy_state r = PurgeRequested \<and> find_run s' rid = Some (?f r)"
    using self r by blast
  have only: "\<exists>a. s' = s\<lparr>runs := runs s', steps := steps s', tool_calls := tool_calls s', checkpoints := checkpoints s',
       artifacts := artifacts s', usages := usages s', audits := audits s @ [a], uuid_counter := uuid_counter s'\<rparr>"
    by (rule exI [of _ "last (audits s')"])
       (simp add: s' append_audit_def append_audit_record_def uuid4_def Let_def set_run_def purge_payloads_def)
  have rest: "filter (\<lambda>x. s_run_id x \<noteq> rid) (steps s') = filter (\<lambda>x. s_run_id x \<noteq> rid) (steps s)"
    "filter (\<lambda>x. t_run_id x \<noteq> rid) (tool_calls s') = filter (\<lambda>x. t_run_id x \<noteq> rid) (tool_calls s)"
    "filter (\<lambda>x. a_run_id x \<noteq> rid) (artifacts s') = filter (\<lambda>x. a_run_id x \<noteq> rid) (artifacts s)"
    "checkpoints s' = filter (\<lambda>k. c_run_id k \<noteq> rid) (checkpoints s)"
    by (simp_all add: tabs purge_payloads_def del_where_def filter_upd_where [where p = "\<lambda>x. s_run_id x = rid"]
        filter_upd_where [where p = "\<lambda>x. t_run_id x = rid"] filter_upd_where [where p = "\<lambda>x. a_run_id x = rid"])
  have us: "list_all2 (\<lambda>x x'. if u_run_id x = rid
        then harmless_summary snapshot_keys (u_capability_snapshot_json x) (u_capability_snapshot_json x') \<and>
          harmless_summary thinking_keys (thinking_summary_json x) (thinking_summary_json x') \<and>
          x' = x\<lparr>u_capability_snapshot_json := u_capability_snapshot_json x',
                 thinking_summary_json := thinking_summary_json x'\<rparr>
        else x' = x) (usages s) (usages s')"
    by (simp add: tabs purge_payloads_def upd_where_def list_all2_conv_all_nth snapshot_harmless thinking_harmless)
  have ck: "\<forall>k\<in>set (checkpoints s'). c_run_id k \<noteq> rid"
    by (simp add: tabs del_where_def)
  have st: "s_input_summary x = JNull \<and> s_output_summary x = JNull"
    if "x \<in> set (steps s')" "s_run_id x = rid" for x
    using upd_where_mem [OF that(1) [unfolded tabs purge_payloads_def, simplified] that(2)] by auto
  have tc: "t_input_summary x = JNull \<and> t_output_summary x = JNull"
    if "x \<in> set (tool_calls s')" "t_run_id x = rid" for x
    using upd_where_mem [OF that(1) [unfolded tabs purge_payloads_def, simplified] that(2)] by auto
  have ar: "summary_json x = JNull" if "x \<in> set (artifacts s')" "a_run_id x = rid" for x
    using upd_where_mem [OF that(1) [unfolded tabs purge_payloads_def, simplified] that(2)] by auto
  show ?thesis
    using st tc ar by (intro conjI row rest again only us allI other ck ballI impI) (blast+)
qed

definition demo_purging :: db where
  "demo_purging = (demo_db ((demo_run Failed Finished)\<lparr>privacy_state := PurgeRequested,
     cancel_requested_at := Some 5\<rparr>))\<lparr>steps := [\<lparr>step_id = ''s'', s_run_id = ''0'', step_name = ''draft'',
       step_type = ''model'', s_status = ''failed'', s_execution_attempt = 1, step_attempt = 1,
       s_input_summary = JStr ''private'', s_output_summary = JNull, s_error_code = None,
       s_started_at = None, s_finished_at = None\<rparr>]\<rparr>"

lemma inv_demo_purging: "inv_db demo_purging"
proof -
  let ?r = "(demo_run Failed Finished)\<lparr>privacy_state := PurgeRequested, cancel_requested_at := Some 5\<rparr>"
  have "inv_db (demo_db ?r)"
    by (rule inv_demo) (simp_all add: row_ok_def demo_run_def terminal_def)
  then have "sound (demo_db ?r) demo_purging"
    by (rule sound_frame) (simp_all add: demo_purging_def)
  then show ?thesis by (rule soundD)
qed

theorem complete_purge_erases_witness:
  "\<exists>s'. complete_purge ''0'' 9 demo_purging = Inr (True, s') \<and>
     (\<forall>x\<in>set (steps s'). s_run_id x = ''0'' \<longrightarrow> s_input_summary x = JNull) \<and>
     complete_purge ''0'' 10 s' = Inr (False, s')"
proof -
  have "\<not> isl (complete_purge ''0'' 9 demo_purging) \<and> fst (projr (complete_purge ''0'' 9 demo_purging))"
    by code_simp
  then obtain s' where m: "complete_purge ''0'' 9 demo_purging = Inr (True, s')"
    by (cases "complete_purge ''0'' 9 demo_purging") auto
  show ?thesis
    using complete_purge_erases [OF inv_demo_purging m, of 10] m
    by (intro exI [of _ s'] conjI) simp_all
qed

lemma cancel_settles:
  assumes c: "cancel rid caller why now s = Inr (sm, s')" and r: "find_run s rid = Some r"
    and st: "dispatch_state r \<in> {Held, Queued} \<or> (status r = WaitingHuman \<and> dispatch_state r = Finished)"
  shows "\<exists>r'. find_run s' rid = Some r' \<and> status r' = Cancelled \<and> dispatch_state r' = Finished \<and>
     sm = summary_of r' \<and> (\<exists>cb. callbacks s' = callbacks s @ [cb] \<and> e_event_type cb = RunCancelled \<and>
       e_run_id cb = rid \<and> event_seq cb = last_event_seq r')"
proof -
  let ?g = "\<lambda>r. r\<lparr>cancel_requested_at := Some now\<rparr>"
  let ?f = "\<lambda>r. r\<lparr>status := Cancelled, dispatch_state := Finished, status_version := status_version r + 1\<rparr>"
  have id: "run_id r = rid" by (rule find_run_id [OF r])
  from c r st obtain s2 r3 where
    tr: "transition_run default_limits r (Some (dispatch_state r)) (Some Finished)
       (set_run rid ?f (set_run rid ?g s)) = Inr s2"
    and r3: "find_run (append_callback_event rid RunCancelled JNull now s2) rid = Some r3"
    and out: "sm = summary_of r3"
      "s' = append_audit r3 caller ''agent_run_cancelled''
        [(''dispatch_state'', dispatch_string (dispatch_state r3))] ''caller'' (Some why) now
        (append_callback_event rid RunCancelled JNull now s2)"
    unfolding cancel_def by (auto simp: res_simps Let_def append_callback_def split: option.splits)
  have r2: "find_run s2 rid = Some (?f (?g r))"
    using r id by (simp add: transition_run_find [OF tr] find_run_set_run)
  have "callbacks s2 = callbacks s" using tr by (auto simp: transition_run_def res_simps)
  moreover have "r3 = (?f (?g r))\<lparr>last_event_seq := last_event_seq r + 1\<rparr>"
    using r3 r2 id by (simp add: find_run_append_callback_event [OF r2])
  moreover have "find_run s' rid = Some r3" using r3 by (simp add: out append_audit_def find_run_def frame_simps)
  ultimately show ?thesis
    using callbacks_append_callback_event [OF r2, of RunCancelled JNull now] out
    by (auto simp: append_audit_def frame_simps)
qed

text \<open>C8. Cancelling a run that no Worker holds settles it at once: it ends cancelled with one
  callback fact, and in every later state it is still cancelled, is never claimed and cannot be
  started, retried or approved.\<close>

theorem cancel_final:
  assumes inv: "inv_db s" and c: "cancel rid caller why now s = Inr (sm, s')" and r: "find_run s rid = Some r"
    and st: "dispatch_state r \<noteq> Claimed" "\<not> terminal (status r)"
    and later: "advances s' s''" "inv_db s''"
  shows "\<exists>r''. find_run s'' rid = Some r'' \<and> status r'' = Cancelled \<and> dispatch_state r'' = Finished \<and>
    claim ls rid owner t s'' = Inr (None, s'') \<and> (\<exists>e. start sv rid cl v t s'' = Inl e) \<and>
    (\<exists>e. retry sv rid cl a v t s'' = Inl e) \<and> (\<exists>e. approve sv rid cl dec w t s'' = Inl e)"
proof -
  have "dispatch_state r \<in> {Held, Queued} \<or> (status r = WaitingHuman \<and> dispatch_state r = Finished)"
    using inv_db_row [OF inv r] st by (cases "dispatch_state r") (auto simp: row_ok_def)
  then obtain r' where r': "find_run s' rid = Some r'" "status r' = Cancelled" "dispatch_state r' = Finished"
    using cancel_settles [OF c r] by blast
  then obtain r'' where r'': "find_run s'' rid = Some r''" and le: "run_le r' r''"
    using later(1) by (auto simp: advances_def)
  have st'': "status r'' = Cancelled" "dispatch_state r'' = Finished"
    using le r'(2,3) by (auto simp: run_le_def)
  have "update_run rid claimable f s'' = None" for f
    using r'' st'' by (simp add: update_run_None_iff inv_db_wf [OF later(2)] claimable_def)
  then have "claim ls rid owner t s'' = Inr (None, s'')" by (simp add: claim_def)
  moreover have "start sv rid cl v t s'' \<noteq> Inr x" for x
    using r'' st'' by (auto simp: start_def res_simps Let_def)
  moreover have "retry sv rid cl a v t s'' \<noteq> Inr x" for x
    using r'' st'' by (auto simp: retry_def res_simps Let_def)
  moreover have "approve sv rid cl dec w t s'' \<noteq> Inr x" for x
    using r'' st'' by (auto simp: approve_def res_simps Let_def)
  ultimately show ?thesis using r'' st'' by (metis sum.exhaust)
qed

theorem cancel_final_witness:
  "\<exists>sm s' r. cancel ''0'' ''c'' ''user'' 7 (demo_db (demo_run Pending Queued)) = Inr (sm, s') \<and>
     find_run s' ''0'' = Some r \<and> status r = Cancelled \<and> claim 60 ''0'' ''w'' 8 s' = Inr (None, s')"
proof -
  let ?r = "demo_run Pending Queued"
  have "\<not> isl (cancel ''0'' ''c'' ''user'' 7 (demo_db ?r))" by code_simp
  then obtain sm s' where m: "cancel ''0'' ''c'' ''user'' 7 (demo_db ?r) = Inr (sm, s')"
    using result_pair by blast
  have r: "find_run (demo_db ?r) ''0'' = Some ?r" by code_simp
  have st: "dispatch_state ?r \<noteq> Claimed" "\<not> terminal (status ?r)" by code_simp+
  have inv': "inv_db s'" by (rule soundD(1) [OF cancel_sound [OF inv_demo_states(2) m]])
  show ?thesis
    using m cancel_final [OF inv_demo_states(2) m r st advances_refl inv',
        where ls = 60 and owner = "''w''" and t = 8] by blast
qed

text \<open>A run is retried by hand at most three times: an accepted retry raises the count by one
  within three, puts the run back to pending in the queue with one more dispatch, keeps its
  fencing token and every callback fact, and the fourth attempt is refused.\<close>

lemma retry_bounded:
  assumes inv: "inv_db s" and rt: "retry sv rid caller a v now s = Inr (sm, s')"
    and r: "find_run s rid = Some r"
  shows "status r \<in> {Failed, Partial} \<and> privacy_state r = PrivacyActive \<and> package_executable s r \<and>
    (\<exists>r'. find_run s' rid = Some r' \<and> status r' = Pending \<and> dispatch_state r' = Queued \<and>
       manual_retry_count r' = manual_retry_count r + 1 \<and> manual_retry_count r' \<le> 3 \<and>
       fencing_token r' = fencing_token r \<and> status_version r' = status_version r + 1) \<and>
    manual_retry_count r < 3 \<and> callbacks s' = callbacks s \<and> (\<exists>ev. outbox s' = outbox s @ [ev])"
proof -
  define f where "f = (\<lambda>r :: agent_run. r\<lparr>manual_retry_count := manual_retry_count r + 1, status := Pending,
      dispatch_state := Queued, queued_at := Some now, status_version := status_version r + 1\<rparr>)"
  from rt r obtain s1 where
    g: "status r \<in> {Failed, Partial}" "manual_retry_count r < 3" "privacy_state r = PrivacyActive" "package_executable s r"
    and tr: "transition_run (sv_limits sv) r (Some Finished) (Some Queued) (set_run rid f s) = Inr s1"
    and s': "s' = append_audit (f r) caller ''agent_run_retried''
       [(''manual_retry_count'', int_string (manual_retry_count r + 1))] ''caller'' None now
       (append_run_dispatch rid ''manual_retry'' now s1)"
    by (auto simp: retry_def f_def res_simps Let_def)
  have "find_run s' rid = find_run s1 rid" by (simp add: s' append_audit_def find_run_def frame_simps)
  also have "\<dots> = Some (f r)"
    using r find_run_id [OF r] by (simp add: transition_run_find [OF tr] find_run_set_run f_def)
  finally have "find_run s' rid = Some (f r)" .
  moreover have "callbacks s' = callbacks s" "\<exists>ev. outbox s' = outbox s @ [ev]"
    using tr by (auto simp: s' append_audit_def frame_simps transition_run_def res_simps
        append_run_dispatch_def uuid4_def Let_def)
  ultimately show ?thesis using g by (auto simp: f_def)
qed

definition demo_checkpoint :: agent_checkpoint where
  "demo_checkpoint = \<lparr>checkpoint_id = ''k'', c_run_id = ''0'', checkpoint_key = ''latest'', state_schema_version = ''1.0.0'', data_classification = ''runtime_private_encrypted'',
     c_privacy_version = 1, encrypted_state_blob = None, storage_ref = None, state_summary = [], c_content_digest = ''x'',
     c_expires_at = days 7, c_created_at = 0\<rparr>"

definition demo_failed :: db where
  "demo_failed = (demo_db (demo_run Failed Finished))\<lparr>checkpoints := [demo_checkpoint]\<rparr>"

lemma inv_demo_failed: "inv_db demo_failed"
  by (rule soundD(1) [OF sound_frame [OF inv_demo_states(4)]]) (simp_all add: demo_failed_def)

lemma find_demo_failed: "find_run demo_failed ''0'' = Some (demo_run Failed Finished)"
  by code_simp

text \<open>The automatic retry budget of a step holds: a recorded automatic retry names a running
  step of the run whose retries were still below the frozen limit, and raises that step's
  attempt number and the run's count by one; once the limit is reached the call raises.\<close>

lemma auto_retry_bounded:
  assumes ar: "record_auto_retry rid (Some sid) s = Inr s'" and r: "find_run s rid = Some r"
    and dist: "distinct (map step_id (steps s))"
  shows "\<exists>x. x \<in> set (steps s) \<and> step_id x = sid \<and> s_run_id x = rid \<and> s_status x = ''running'' \<and>
    step_attempt x \<le> auto_retry_limit r \<and>
    sel_one (\<lambda>y. step_id y = sid) (steps s') = Some (x\<lparr>step_attempt := step_attempt x + 1\<rparr>) \<and>
    step_attempt x + 1 \<le> auto_retry_limit r + 1 \<and>
    find_run s' rid = Some (r\<lparr>auto_retry_count := auto_retry_count r + 1\<rparr>)"
proof -
  let ?f = "\<lambda>r. r\<lparr>auto_retry_count := auto_retry_count r + 1\<rparr>"
  let ?b = "\<lambda>y. y\<lparr>step_attempt := step_attempt y + 1\<rparr>"
  from ar r obtain x where
    x: "sel_one (\<lambda>x. s_run_id x = rid \<and> step_id x = sid \<and> s_status x = ''running'') (steps s) = Some x"
    and lim: "step_attempt x - 1 < auto_retry_limit r"
    and s': "s' = set_run rid ?f (s\<lparr>steps := upd_where (\<lambda>y. step_id y = step_id x) ?b (steps s)\<rparr>)"
    by (auto simp: record_auto_retry_def res_simps Let_def split: option.splits)
  have mem: "x \<in> set (steps s)" "s_run_id x = rid" "step_id x = sid" "s_status x = ''running''"
    using sel_one_SomeD [OF x] by auto
  have "sel_one (\<lambda>y. step_id y = sid) (steps s') = Some (?b x)"
    using sel_key_mem [OF dist mem(1)] mem(3) by (simp add: s' set_run_def sel_key_upd_where)
  moreover have "find_run s' rid = Some (?f r)"
    using r find_run_id [OF r] by (simp add: s' find_run_def sel_key_upd_where)
  ultimately show ?thesis using mem lim by (intro exI [of _ x]) simp
qed

definition demo_step :: "string \<Rightarrow> agent_step" where
  "demo_step st = \<lparr>step_id = ''s'', s_run_id = ''0'', step_name = ''draft'', step_type = ''model'',
     s_status = st, s_execution_attempt = 1, step_attempt = 1, s_input_summary = JNull,
     s_output_summary = JNull, s_error_code = None, s_started_at = None, s_finished_at = None\<rparr>"

definition demo_running :: db where
  "demo_running = (demo_db demo_claimed)\<lparr>steps := [demo_step ''running'']\<rparr>"

section \<open>Behaviour that strands runs\<close>

text \<open>Cancelling a run that already failed is accepted and records a cancel request; a later
  retry of that run is accepted too and queues it, but no Worker can ever claim it.\<close>

lemma cancel_then_retry_strands:
  assumes inv: "inv_db s" and r: "find_run s rid = Some r" "status r = Failed"
    and c: "cancel rid caller why now s = Inr (sm, s1)"
    and rt: "retry sv rid caller a v now1 s1 = Inr (sm2, s2)"
    and later: "advances s2 s3" "inv_db s3"
  shows "sm_dispatch_state sm2 = Queued \<and> claim ls rid owner t s3 = Inr (None, s3)"
proof -
  have fin: "dispatch_state r = Finished"
    using row_ok_terminal [OF inv_db_row [OF inv r(1)]] r(2) by (simp add: terminal_def)
  have "find_run s1 rid = Some (r\<lparr>cancel_requested_at := Some now\<rparr>)"
    using c r fin find_run_id [OF r(1)]
    by (auto simp: cancel_def res_simps Let_def find_run_def append_audit_def frame_simps sel_key_upd_where
        split: option.splits)
  moreover have "advances s1 s3"
    using retry_sound [OF soundD(1) [OF cancel_sound [OF inv c]] rt] later(1)
    by (auto simp: sound_def intro: advances_trans)
  ultimately obtain r3 where "find_run s3 rid = Some r3" "cancel_requested_at r3 \<noteq> None"
    by (force simp: advances_def run_le_def)
  then have "update_run rid claimable f s3 = None" for f
    by (auto simp: update_run_None_iff inv_db_wf [OF later(2)] claimable_def)
  moreover have "sm_dispatch_state sm2 = Queued"
    using rt by (auto simp: retry_def res_simps Let_def summary_of_def)
  ultimately show ?thesis by (simp add: claim_def)
qed

text \<open>Progress counts the completed step rows of every execution attempt against the steps of
  the plan. When a run was re-executed often enough that twice as many rows completed as the
  plan has steps, reading the run raises, and so does a purge request, which is rolled back.\<close>

lemma progress_overflow_blocks_purge:
  assumes r: "find_run s rid = Some r" "caller_id r = caller"
    and p: "find_plan s rid = Some p" "steps_json p \<noteq> []"
    and many: "2 * length (steps_json p) \<le> completed_count (step_records rid s)"
  shows "get_run rid caller False now s = Inl (ValueError ''progress'') \<and>
    purge rid caller why now s = Inl (ValueError ''progress'')"
proof -
  have over: "100 < run_progress rid s'" if "steps s' = steps s" "plans s' = plans s" for s'
  proof -
    have "2 * length (steps_json p) * 100 div length (steps_json p)
        \<le> completed_count (step_records rid s) * 100 div length (steps_json p)"
      by (rule div_le_mono) (use many in simp)
    then have "200 \<le> completed_count (step_records rid s) * 100 div length (steps_json p)"
      using p(2) by (simp add: mult.assoc)
    then show ?thesis using p that by (simp add: run_progress_def find_plan_def step_records_def)
  qed
  have get: "get_run rid caller False now s' = Inl (ValueError ''progress'')"
    if "steps s' = steps s" "plans s' = plans s" "\<exists>r'. find_run s' rid = Some r' \<and> caller_id r' = caller" for s'
    using that over [OF that(1,2)] by (auto simp: get_run_def owned_run_def Let_def)
  have steps: "steps (set_run rid f s) = steps s" for f by (simp add: set_run_def)
  have "purge rid caller why now s = Inl (ValueError ''progress'')"
  proof (cases "privacy_state r = PrivacyActive")
    case True
    let ?s = "append_audit r caller ''agent_run_purge_requested''
            [(''privacy_version'', int_string (privacy_version r + 1))] ''caller'' (Some why) now
            (set_run rid (\<lambda>r. r\<lparr>privacy_state := PurgeRequested,
               privacy_version := privacy_version r + 1,
               privacy_purge_requested_at := Some now, cancel_requested_at := Some now\<rparr>) s)"
    have "get_run rid caller False now ?s = Inl (ValueError ''progress'')"
      by (rule get) (use r find_run_id [OF r(1)] in \<open>simp_all add: append_audit_def frame_simps steps
          find_run_def sel_key_upd_where\<close>)
    with True r show ?thesis by (simp add: purge_def owned_run_def)
  next
    case False
    with r get [of s] show ?thesis by (simp add: purge_def owned_run_def)
  qed
  with get [of s] r show ?thesis by simp
qed

definition demo_overrun :: db where
  "demo_overrun = (demo_db demo_claimed)\<lparr>
     steps := [demo_step ''succeeded'', (demo_step ''succeeded'')\<lparr>step_id := ''s2'', s_execution_attempt := 2\<rparr>],
     plans := [\<lparr>plan_id = ''p'', p_run_id = ''0'', strategy = ''static_workflow'', steps_json = [JObj []],
       stop_conditions_json = [], fallback_policy_json = [], p_status = ''planned''\<rparr>]\<rparr>"

text \<open>Approving a run that waits for a human queues it again even when its private data is
  being purged or its cancellation was requested; such a run is queued for good, since no
  Worker can claim it.\<close>

lemma approve_while_purging_strands:
  assumes inv: "inv_db s" and r: "find_run s rid = Some r" "cancel_requested_at r \<noteq> None"
    and ap: "approve sv rid caller Approve v now s = Inr (sm, s1)" and later: "advances s1 s2" "inv_db s2"
  shows "sm_dispatch_state sm = Queued \<and> claim ls rid owner t s2 = Inr (None, s2)"
proof -
  have "advances s s2"
    using approve_sound [OF inv ap] later(1) by (auto simp: sound_def intro: advances_trans)
  with r obtain r2 where "find_run s2 rid = Some r2" "cancel_requested_at r2 \<noteq> None"
    by (force simp: advances_def run_le_def)
  then have "update_run rid claimable f s2 = None" for f
    by (auto simp: update_run_None_iff inv_db_wf [OF later(2)] claimable_def)
  moreover have "sm_dispatch_state sm = Queued"
  proof -
    let ?q = "\<lambda>r :: agent_run. r\<lparr>status_version := status_version r + 1, error_code := None,
      dispatch_state := Queued, queued_at := Some now\<rparr>"
    let ?g = "\<lambda>r :: agent_run. status r = WaitingHuman \<and> dispatch_state r = Finished \<and> status_version r = v"
    from ap r(1) obtain s3 s4 r3 where g: "?g r" and u: "update_run rid ?g ?q s = Some s3"
      and tr: "transition_run (sv_limits sv) r (Some Finished) (Some Queued) s3 = Inr s4"
      and r3: "find_run s4 rid = Some r3" and sm: "sm = summary_of r3"
      by (auto simp: approve_def res_simps Let_def find_run_def frame_simps split: option.splits)
    have "s3 = set_run rid ?q s" using u by (auto simp: update_run_Some_iff inv_db_wf [OF inv])
    then have "r3 = ?q r"
      using r3 r(1) find_run_id [OF r(1)] by (simp add: transition_run_find [OF tr] find_run_set_run)
    then show ?thesis by (simp add: sm summary_of_def)
  qed
  ultimately show ?thesis by (simp add: claim_def)
qed

definition demo_waiting :: db where
  "demo_waiting = demo_db ((demo_run WaitingHuman Finished)\<lparr>privacy_state := PurgeRequested,
     privacy_version := 2, cancel_requested_at := Some 5\<rparr>)"

lemma inv_demo_waiting: "inv_db demo_waiting"
  unfolding demo_waiting_def by (rule inv_demo) (simp_all add: row_ok_def demo_run_def terminal_def)

end
