(* ===== verification/Idempotency.thy ===== *)
theory Idempotency
  imports Run_Service
begin

text \<open>
  The idempotency ledger (\<open>app/services/idempotency_service.py\<close>): a stored response per
  (client, scope, key), replayed for the same request hash, refused for another one, and
  expired except while a purge of its run is not confirmed. The unique constraint of the table
  is the error \<open>IntegrityError\<close>, which the database raises when the insert is flushed.
\<close>

section \<open>Operations\<close>

definition same_key :: "string \<Rightarrow> string \<Rightarrow> string \<Rightarrow> idempotency_record \<Rightarrow> bool" where
  "same_key c sc k x \<longleftrightarrow> client_id x = c \<and> i_scope x = sc \<and> idempotency_key x = k"

definition retain_expired_purge :: "idempotency_record \<Rightarrow> db \<Rightarrow> bool" where
  "retain_expired_purge x s =
     (i_scope x = ''purge'' \<and>
      (case resource_id x of
         None \<Rightarrow> True
       | Some rid \<Rightarrow> rid = '''' \<or>
           (case find_run s rid of None \<Rightarrow> True | Some r \<Rightarrow> privacy_state r \<noteq> Purged)))"

definition replay ::
  "string \<Rightarrow> string \<Rightarrow> string \<Rightarrow> string \<Rightarrow> time \<Rightarrow> db \<Rightarrow> runtime_error + (json option \<times> db)" where
  "replay c sc k digest now s =
     (case sel_one (same_key c sc k) (idempotency s) of
        None \<Rightarrow> Inr (None, s)
      | Some x \<Rightarrow>
          if i_expires_at x < now \<and> \<not> retain_expired_purge x s
          then Inr (None, s\<lparr>idempotency := del_where (same_key c sc k) (idempotency s)\<rparr>)
          else if request_hash x \<noteq> digest then Inl IdempotencyConflict
          else Inr (if response_json x = JNull then None else Some (response_json x), s))"

definition store ::
  "string \<Rightarrow> string \<Rightarrow> string \<Rightarrow> string \<Rightarrow> json \<Rightarrow> string \<Rightarrow> int \<Rightarrow> time \<Rightarrow> db \<Rightarrow> runtime_error + db" where
  "store c sc k digest response rid ttl_days now s =
     (if sel_one (same_key c sc k) (idempotency s) \<noteq> None then Inl IntegrityError
      else Inr (s\<lparr>idempotency := idempotency s @
        [\<lparr>client_id = c, idempotency_key = k, i_scope = sc, request_hash = digest,
          response_json = response, resource_type = Some ''agent_run'', resource_id = Some rid,
          i_expires_at = now + days ttl_days\<rparr>]\<rparr>))"

definition expired_record :: "time \<Rightarrow> db \<Rightarrow> idempotency_record \<Rightarrow> bool" where
  "expired_record cutoff s x \<longleftrightarrow> i_expires_at x < cutoff \<and> \<not> retain_expired_purge x s"

definition cleanup_expired :: "time \<Rightarrow> db \<Rightarrow> nat \<times> db" where
  "cleanup_expired cutoff s =
     (rowcount (expired_record cutoff s) (idempotency s),
      s\<lparr>idempotency := del_where (expired_record cutoff s) (idempotency s)\<rparr>)"

definition lookup_result ::
  "string \<Rightarrow> string \<Rightarrow> string \<Rightarrow> string \<Rightarrow> time \<Rightarrow> db \<Rightarrow> json option" where
  "lookup_result c sc k rid now s =
     (case sel_one (\<lambda>x. same_key c sc k x \<and> resource_id x = Some rid) (idempotency s) of
        None \<Rightarrow> None
      | Some x \<Rightarrow> if i_expires_at x < now \<or> response_json x = JNull then None
                  else Some (response_json x))"

section \<open>Frame\<close>

lemma retain_cong: "runs s' = runs s \<Longrightarrow> retain_expired_purge x s' = retain_expired_purge x s"
  by (simp add: retain_expired_purge_def find_run_def cong: option.case_cong)

lemma sel_del_where: "(\<And>x. q x \<Longrightarrow> \<not> p x) \<Longrightarrow> sel_one q (del_where p xs) = sel_one q xs"
  by (induction xs) (auto simp: del_where_def)

lemma sel_del_where_mem:
  "sel_one q xs = Some x \<Longrightarrow> \<not> p x \<Longrightarrow> (\<And>y. y \<in> set xs \<Longrightarrow> q y \<Longrightarrow> y = x) \<Longrightarrow>
    sel_one q (del_where p xs) = Some x"
  by (induction xs) (auto simp: del_where_def split: if_splits)

lemma store_Inr_iff:
  "store c sc k digest response rid ttl now s = Inr s' \<longleftrightarrow>
    sel_one (same_key c sc k) (idempotency s) = None \<and>
    s' = s\<lparr>idempotency := idempotency s @
        [\<lparr>client_id = c, idempotency_key = k, i_scope = sc, request_hash = digest,
          response_json = response, resource_type = Some ''agent_run'', resource_id = Some rid,
          i_expires_at = now + days ttl\<rparr>]\<rparr>"
  by (auto simp: store_def)

lemma store_sound: "inv_db s \<Longrightarrow> store c sc k d j rid ttl now s = Inr s' \<Longrightarrow> sound s s'"
  by (rule sound_frame) (auto simp: store_Inr_iff)

lemma replay_sound: "inv_db s \<Longrightarrow> replay c sc k d now s = Inr (out, s') \<Longrightarrow> sound s s'"
  by (rule sound_frame) (auto simp: replay_def split: option.splits if_splits)

lemma cleanup_sound: "inv_db s \<Longrightarrow> sound s (snd (cleanup_expired t s))"
  by (rule sound_frame) (simp_all add: cleanup_expired_def)

lemma replay_after_store:
  assumes "store c sc k digest response rid ttl now s = Inr s'" "response \<noteq> JNull" "t \<le> now + days ttl"
  shows "replay c sc k digest' t s' = (if digest' = digest then Inr (Some response, s') else Inl IdempotencyConflict)"
    "\<exists>x. sel_one (same_key c sc k) (idempotency s') = Some x"
proof -
  let ?x = "\<lparr>client_id = c, idempotency_key = k, i_scope = sc, request_hash = digest,
      response_json = response, resource_type = Some ''agent_run'', resource_id = Some rid,
      i_expires_at = now + days ttl\<rparr>"
  have "sel_one (same_key c sc k) (idempotency s') = Some ?x"
    using assms(1) by (auto simp: store_Inr_iff sel_one_append same_key_def)
  then show "replay c sc k digest' t s' = (if digest' = digest then Inr (Some response, s') else Inl IdempotencyConflict)"
    "\<exists>x. sel_one (same_key c sc k) (idempotency s') = Some x"
    using assms(2,3) by (auto simp: replay_def)
qed

section \<open>Properties\<close>

text \<open>Store and replay round trip: until a stored response expires, replaying its key returns
  exactly that response for the same request hash and is refused for any other hash, writes
  nothing, and a second store under the key is impossible.\<close>

lemma store_replay_roundtrip:
  assumes "store c sc k digest response rid ttl now s = Inr s'" "response \<noteq> JNull" "t \<le> now + days ttl"
  shows "replay c sc k digest t s' = Inr (Some response, s') \<and>
    (digest' \<noteq> digest \<longrightarrow> replay c sc k digest' t s' = Inl IdempotencyConflict) \<and>
    store c sc k digest' response' rid' ttl' t s' = Inl IntegrityError \<and>
    lookup_result c sc k rid t s' = Some response"
proof -
  have "sel_one (\<lambda>x. same_key c sc k x \<and> resource_id x = Some rid) (idempotency s) = None"
    using assms(1) by (auto simp: store_Inr_iff sel_one_None_iff)
  then have "lookup_result c sc k rid t s' = Some response"
    using assms by (auto simp: store_Inr_iff lookup_result_def sel_one_append same_key_def)
  then show ?thesis
    using replay_after_store [OF assms] by (auto simp: store_def)
qed

text \<open>The record of a purge request outlives its expiry until the purge is confirmed: neither
  a replay nor the maintenance clean-up removes it, at whatever time, and replaying it still
  returns the stored response.\<close>

lemma purge_record_retained:
  assumes x: "sel_one (same_key c ''purge'' k) (idempotency s) = Some x" "resource_id x = Some rid"
      "response_json x \<noteq> JNull"
    and dist: "distinct (map (\<lambda>x. (client_id x, i_scope x, idempotency_key x)) (idempotency s))"
    and r: "find_run s rid = Some r" "privacy_state r \<noteq> Purged"
  shows "replay c ''purge'' k (request_hash x) t s = Inr (Some (response_json x), s) \<and>
    sel_one (same_key c ''purge'' k) (idempotency (snd (cleanup_expired t s))) = Some x \<and>
    replay c ''purge'' k (request_hash x) t' (snd (cleanup_expired t s)) =
      Inr (Some (response_json x), snd (cleanup_expired t s))"
proof -
  have mem: "x \<in> set (idempotency s)" "same_key c ''purge'' k x" using sel_one_SomeD [OF x(1)] by auto
  have keep: "retain_expired_purge x s" using mem(2) x(2) r by (simp add: retain_expired_purge_def same_key_def)
  have uniq: "y = x" if "y \<in> set (idempotency s)" "same_key c ''purge'' k y" for y
    using distinct_key_inj [OF dist, of y x] that mem by (simp add: same_key_def)
  have sel: "sel_one (same_key c ''purge'' k) (idempotency (snd (cleanup_expired t s))) = Some x"
    unfolding cleanup_expired_def snd_conv
    using sel_del_where_mem [OF x(1), of "expired_record t s"] keep uniq by (simp add: expired_record_def)
  have "retain_expired_purge x (snd (cleanup_expired t s))"
    using keep retain_cong [of "snd (cleanup_expired t s)" s x] by (simp add: cleanup_expired_def)
  then show ?thesis using sel x keep by (simp add: replay_def)
qed

definition demo_purge_record :: idempotency_record where
  "demo_purge_record = \<lparr>client_id = ''c'', idempotency_key = ''k'', i_scope = ''purge'', request_hash = ''h'',
     response_json = JStr ''ok'', resource_type = Some ''agent_run'', resource_id = Some ''0'', i_expires_at = 0\<rparr>"

end
