(* ===== verification/Authorization.thy ===== *)
theory Authorization
  imports Runtime_Model
begin

text \<open>
  Caller authorization (\<open>app/core/authorization.py\<close>) and the connector registry
  (\<open>app/core/connectors.py\<close>). Both read the deployment's configuration, a JSON object per
  client and per connector; a request never contributes to it.
\<close>

section \<open>Operations\<close>

type_synonym clients = "(string \<times> dict) list"

definition require_client :: "clients \<Rightarrow> string \<Rightarrow> runtime_error + dict" where
  "require_client cl cid =
     (case map_of cl cid of None \<Rightarrow> Inl AuthorizationError | Some d \<Rightarrow> Inr d)"

definition require_allowed :: "dict \<Rightarrow> string \<Rightarrow> string \<Rightarrow> runtime_error + unit" where
  "require_allowed d fld v =
     (case dget d fld of
        JNull \<Rightarrow> Inr ()
      | JList xs \<Rightarrow> ensure (JStr v \<in> set xs) AuthorizationError
      | _ \<Rightarrow> Inl AuthorizationError)"

definition tenant_for :: "clients \<Rightarrow> string \<Rightarrow> runtime_error + string" where
  "tenant_for cl cid =
     res_bind (require_client cl cid) (\<lambda>d.
       case dget_default d ''tenant_id'' (JStr cid) of
         JStr t \<Rightarrow> if t = '''' then Inl AuthorizationError else Inr t
       | _ \<Rightarrow> Inl AuthorizationError)"

definition authorize_create ::
  "clients \<Rightarrow> string \<Rightarrow> string \<Rightarrow> string \<Rightarrow> string \<Rightarrow> string \<Rightarrow> string \<Rightarrow> runtime_error + unit" where
  "authorize_create cl cid agent btype target connector domain =
     res_bind (require_client cl cid) (\<lambda>d.
     res_bind (require_allowed d ''agent_ids'' agent) (\<lambda>_.
     res_bind (require_allowed d ''business_types'' btype) (\<lambda>_.
     res_bind (require_allowed d ''callback_target_ids'' target) (\<lambda>_.
     res_bind (require_allowed d ''connector_ids'' connector) (\<lambda>_.
     require_allowed d ''data_domains'' domain)))))"

definition can_audit :: "clients \<Rightarrow> string \<Rightarrow> runtime_error + bool" where
  "can_audit cl cid =
     res_bind (require_client cl cid)
       (\<lambda>d. Inr (truthy (dget_default d ''internal_auditor'' (JBool False))))"

definition authorize_callback_target :: "clients \<Rightarrow> string \<Rightarrow> string \<Rightarrow> runtime_error + unit" where
  "authorize_callback_target cl cid target =
     res_bind (require_client cl cid) (\<lambda>d. require_allowed d ''callback_target_ids'' target)"

definition authorization_version_of :: "clients \<Rightarrow> string \<Rightarrow> runtime_error + int" where
  "authorization_version_of cl cid =
     res_bind (require_client cl cid) (\<lambda>d.
       case dget_default d ''authorization_version'' (JInt 1) of
         JInt n \<Rightarrow> if n < 1 then Inl AuthorizationError else Inr n
       | _ \<Rightarrow> Inl AuthorizationError)"

text \<open>Membership in a set of strings raises \<open>TypeError\<close> on an unhashable list or object.\<close>

definition model_data_residency :: "clients \<Rightarrow> string \<Rightarrow> runtime_error + string option" where
  "model_data_residency cl cid =
     res_bind (require_client cl cid) (\<lambda>d.
       case dget d ''model_data_residency'' of
         JNull \<Rightarrow> Inr None
       | JStr v \<Rightarrow> if v \<in> {''public'', ''private''} then Inr (Some v) else Inl AuthorizationError
       | JList _ \<Rightarrow> Inl TypeError
       | JObj _ \<Rightarrow> Inl TypeError
       | _ \<Rightarrow> Inl AuthorizationError)"

definition require_enabled :: "(string \<times> dict) list \<Rightarrow> string \<Rightarrow> runtime_error + unit" where
  "require_enabled connectors cid =
     (case map_of connectors cid of
        None \<Rightarrow> Inl ConnectorValidationError
      | Some d \<Rightarrow> ensure (truthy (dget_default d ''enabled'' (JBool False))) ConnectorValidationError)"

section \<open>Properties\<close>

definition permits :: "dict \<Rightarrow> string \<Rightarrow> string \<Rightarrow> bool" where
  "permits d fld v \<longleftrightarrow> dget d fld = JNull \<or> (\<exists>xs. dget d fld = JList xs \<and> JStr v \<in> set xs)"

lemma require_allowed_iff: "require_allowed d fld v = Inr u \<longleftrightarrow> permits d fld v"
  by (auto simp: require_allowed_def permits_def res_simps split: json.splits)

lemma require_client_iff [res_simps]: "require_client cl cid = Inr d \<longleftrightarrow> map_of cl cid = Some d"
  by (auto simp: require_client_def split: option.splits)

text \<open>A create request is authorized exactly when the caller is configured and each of its
  five allowlists that is configured contains the requested value.\<close>

lemma authorize_create_iff:
  "authorize_create cl cid agent btype target connector domain = Inr () \<longleftrightarrow>
    (\<exists>d. map_of cl cid = Some d \<and> permits d ''agent_ids'' agent \<and> permits d ''business_types'' btype \<and>
       permits d ''callback_target_ids'' target \<and> permits d ''connector_ids'' connector \<and>
       permits d ''data_domains'' domain)"
  by (auto simp: authorize_create_def res_simps require_allowed_iff)

lemma authorization_version_pos:
  assumes "authorization_version_of cl cid = Inr n"
  shows "1 \<le> n"
proof -
  obtain d where "(case dget_default d ''authorization_version'' (JInt 1) of
      JInt n \<Rightarrow> if n < 1 then Inl AuthorizationError else Inr n | _ \<Rightarrow> Inl AuthorizationError) = Inr n"
    using assms by (auto simp: authorization_version_of_def res_simps)
  then show ?thesis by (cases "dget_default d ''authorization_version'' (JInt 1)") (simp_all split: if_splits)
qed

end
