(* ===== verification/Run_Api.thy ===== *)
theory Run_Api
  imports Idempotency Authorization
begin

text \<open>
  The write endpoints of the run API (\<open>app/api/endpoints/agent_runs_api.py\<close>) behind the
  verified caller: replay of a stored response, the service call, the stored response and the
  commit, with the exceptions each handler maps to a status code. An exception that a handler
  does not map ends as status 500. \<open>digest\<close> is the request hash of the call. The replay runs in
  a session of its own that is closed without a commit, so whatever it deleted is back.
\<close>

section \<open>Responses\<close>

datatype http = Body json | Status nat

definition opt_str :: "string option \<Rightarrow> json" where
  "opt_str x = (case x of None \<Rightarrow> JNull | Some v \<Rightarrow> JStr v)"

definition opt_time :: "time option \<Rightarrow> json" where
  "opt_time x = (case x of None \<Rightarrow> JNull | Some v \<Rightarrow> JInt v)"

fun privacy_string :: "privacy_state \<Rightarrow> string" where
  "privacy_string PrivacyActive = ''active''"
| "privacy_string PurgeRequested = ''purge_requested''"
| "privacy_string Purged = ''purged''"

text \<open>\<open>result.model_dump(mode="json")\<close> of the two response contracts; a timestamp stands for its
  rendering.\<close>

definition summary_fields :: "'a run_summary_scheme \<Rightarrow> dict" where
  "summary_fields m =
     [(''run_id'', JStr (sm_run_id m)), (''business_id'', JStr (sm_business_id m)),
      (''status'', JStr (status_string (sm_status m))),
      (''dispatch_state'', JStr (dispatch_string (sm_dispatch_state m))),
      (''contract_version'', JStr (sm_contract_version m)),
      (''package_digest'', JStr (sm_package_digest m)),
      (''authorization_version'', JInt (sm_authorization_version m)),
      (''status_version'', JInt (sm_status_version m))]"

definition dump_summary :: "run_summary \<Rightarrow> json" where
  "dump_summary m = JObj (summary_fields m)"

definition dump_step :: "step_summary \<Rightarrow> json" where
  "dump_step x = JObj [(''step_id'', JStr (ss_step_id x)), (''step_name'', JStr (ss_step_name x)),
     (''step_type'', JStr (ss_step_type x)), (''status'', JStr (ss_status x)),
     (''execution_attempt'', JInt (ss_execution_attempt x)),
     (''step_attempt'', JInt (ss_step_attempt x)), (''error_code'', opt_str (ss_error_code x))]"

definition dump_detail :: "run_detail \<Rightarrow> json" where
  "dump_detail m = JObj (summary_fields m @
     [(''last_event_seq'', JInt (dt_last_event_seq m)),
      (''execution_attempt'', JInt (dt_execution_attempt m)),
      (''privacy_state'', JStr (privacy_string (dt_privacy_state m))),
      (''privacy_version'', JInt (dt_privacy_version m)), (''progress'', JInt (dt_progress m)),
      (''current_step'', (case dt_current_step m of None \<Rightarrow> JNull | Some x \<Rightarrow> dump_step x)),
      (''error_code'', opt_str (dt_error_code m)),
      (''privacy_purge_requested_at'', opt_time (dt_privacy_purge_requested_at m)),
      (''private_data_purged_at'', opt_time (dt_private_data_purged_at m)),
      (''updated_at'', JNull), (''public_trace'', JList (dt_public_trace m))])"

section \<open>Endpoints\<close>

text \<open>The body every write handler shares: replay, call, store, commit.\<close>

definition write_endpoint ::
  "(runtime_error \<Rightarrow> nat) \<Rightarrow> ('r \<Rightarrow> json) \<Rightarrow> ('r \<Rightarrow> string) \<Rightarrow> int \<Rightarrow> string \<Rightarrow> string \<Rightarrow> string \<Rightarrow> string \<Rightarrow>
    (db \<Rightarrow> runtime_error + ('r \<times> db)) \<Rightarrow> time \<Rightarrow> db \<Rightarrow> http \<times> db" where
  "write_endpoint status_of dump rid_of ttl caller sc key digest op now s =
     (case replay caller sc key digest now s of
        Inl _ \<Rightarrow> (Status 409, s)
      | Inr (Some payload, _) \<Rightarrow> (Body payload, s)
      | Inr (None, _) \<Rightarrow>
          (case op s of
             Inl e \<Rightarrow> (Status (status_of e), s)
           | Inr (result, s1) \<Rightarrow>
               (case store caller sc key digest (dump result) (rid_of result) ttl now s1 of
                  Inl _ \<Rightarrow> (Status 500, s)
                | Inr s2 \<Rightarrow> (Body (dump result), s2))))"

fun create_status :: "runtime_error \<Rightarrow> nat" where
  "create_status (AgentRunServiceError _) = 409"
| "create_status AuthorizationError = 403"
| "create_status ConnectorValidationError = 403"
| "create_status AdmissionRejected = 429"
| "create_status _ = 500"

fun service_status :: "runtime_error \<Rightarrow> nat" where
  "service_status (AgentRunServiceError _) = 409"
| "service_status _ = 500"

record settings =
  st_clients :: clients
  st_connectors :: "(string \<times> dict) list"
  st_limits :: admission_limits
  st_route_ids :: "string list"

definition api_resolver :: "settings \<Rightarrow> agent_run \<Rightarrow> runtime_error + int option" where
  "api_resolver st r = res_bind (authorization_version_of (st_clients st) (caller_id r)) (\<lambda>n. Inr (Some n))"

definition create_call ::
  "(json \<Rightarrow> bool option) \<Rightarrow> settings \<Rightarrow> create_command \<Rightarrow> string \<Rightarrow> string \<Rightarrow> string \<Rightarrow> time \<Rightarrow> db \<Rightarrow>
    runtime_error + (run_summary \<times> db)" where
  "create_call pb st cmd caller tenant key now s =
     res_bind (authorize_create (st_clients st) caller (cc_agent_id cmd) (cc_business_type cmd)
        (cc_callback_target_id cmd) (cc_business_connector_id cmd) (cc_data_domain cmd)) (\<lambda>_.
     res_bind (require_enabled (st_connectors st) (cc_business_connector_id cmd)) (\<lambda>_.
     res_bind (model_data_residency (st_clients st) caller) (\<lambda>res.
     res_bind (make_run_service (Some (st_limits st)) (st_route_ids st) res None) (\<lambda>sv.
     res_bind (authorization_version_of (st_clients st) caller) (\<lambda>auth.
     create pb sv cmd caller tenant key auth now s)))))"

definition api_create ::
  "(json \<Rightarrow> bool option) \<Rightarrow> settings \<Rightarrow> create_command \<Rightarrow> string \<Rightarrow> string \<Rightarrow> string \<Rightarrow> string \<Rightarrow> time \<Rightarrow> db \<Rightarrow>
    http \<times> db" where
  "api_create pb st cmd caller tenant key digest now s =
     write_endpoint create_status dump_summary sm_run_id 7 caller ''create'' key digest
       (create_call pb st cmd caller tenant key now) now s"

definition control_service :: "settings \<Rightarrow> run_service" where
  "control_service st = \<lparr>sv_limits = st_limits st, sv_route_ids = [], sv_residency = None,
     sv_resolver = Some (api_resolver st)\<rparr>"

definition api_start ::
  "settings \<Rightarrow> string \<Rightarrow> string \<Rightarrow> int option \<Rightarrow> string \<Rightarrow> string \<Rightarrow> time \<Rightarrow> db \<Rightarrow> http \<times> db" where
  "api_start st rid caller v key digest now s =
     write_endpoint service_status dump_summary sm_run_id 7 caller ''start'' key digest
       (start (control_service st) rid caller v now) now s"

definition api_cancel ::
  "string \<Rightarrow> string \<Rightarrow> string \<Rightarrow> string \<Rightarrow> string \<Rightarrow> time \<Rightarrow> db \<Rightarrow> http \<times> db" where
  "api_cancel rid caller why key digest now s =
     write_endpoint (\<lambda>_. 500) dump_summary sm_run_id 7 caller ''cancel'' key digest
       (cancel rid caller why now) now s"

definition api_retry ::
  "settings \<Rightarrow> string \<Rightarrow> string \<Rightarrow> int option \<Rightarrow> string \<Rightarrow> string \<Rightarrow> time \<Rightarrow> db \<Rightarrow> http \<times> db" where
  "api_retry st rid caller v key digest now s =
     write_endpoint service_status dump_summary sm_run_id 7 caller ''retry'' key digest
       (\<lambda>s. res_bind (can_audit (st_clients st) caller)
          (\<lambda>auditor. retry (control_service st) rid caller auditor v now s)) now s"

definition api_approve ::
  "settings \<Rightarrow> string \<Rightarrow> string \<Rightarrow> decision \<Rightarrow> int \<Rightarrow> string \<Rightarrow> string \<Rightarrow> time \<Rightarrow> db \<Rightarrow> http \<times> db" where
  "api_approve st rid caller dec v key digest now s =
     write_endpoint service_status dump_summary sm_run_id 7 caller ''human_approval'' key digest
       (approve \<lparr>sv_limits = st_limits st, sv_route_ids = [], sv_residency = None, sv_resolver = None\<rparr>
          rid caller dec v now) now s"

definition api_purge ::
  "string \<Rightarrow> string \<Rightarrow> string \<Rightarrow> string \<Rightarrow> string \<Rightarrow> time \<Rightarrow> db \<Rightarrow> http \<times> db" where
  "api_purge rid caller why key digest now s =
     write_endpoint (\<lambda>_. 500) dump_detail sm_run_id 3650 caller ''purge'' key digest
       (purge rid caller why now) now s"

text \<open>The read endpoint closes its session without a commit.\<close>

definition api_get_run :: "settings \<Rightarrow> string \<Rightarrow> string \<Rightarrow> time \<Rightarrow> db \<Rightarrow> http \<times> db" where
  "api_get_run st rid caller now s =
     (case res_bind (can_audit (st_clients st) caller) (\<lambda>auditor. get_run rid caller auditor now s) of
        Inl (AgentRunServiceError _) \<Rightarrow> (Status 404, s)
      | Inl _ \<Rightarrow> (Status 500, s)
      | Inr (detail, _) \<Rightarrow> (Body (dump_detail detail), s))"

section \<open>Soundness\<close>

lemma write_endpoint_sound:
  assumes inv: "inv_db s" and op: "\<And>r s1. op s = Inr (r, s1) \<Longrightarrow> sound s s1"
    and w: "write_endpoint status_of dump rid_of ttl caller sc key digest op now s = (h, s')"
  shows "sound s s'"
proof (cases "s' = s")
  case True
  then show ?thesis using sound_refl [OF inv] by simp
next
  case False
  with w obtain r s1 where "op s = Inr (r, s1)"
    and "store caller sc key digest (dump r) (rid_of r) ttl now s1 = Inr s'"
    by (auto simp: write_endpoint_def split: sum.splits option.splits)
  then show ?thesis using op store_sound sound_trans soundD(1) by blast
qed

lemma api_sound:
  assumes "inv_db s"
  shows "api_create pb st cmd caller tenant key digest now s = (h, s') \<Longrightarrow> sound s s'"
    "api_start st rid caller v key digest now s = (h, s') \<Longrightarrow> sound s s'"
    "api_cancel rid caller why key digest now s = (h, s') \<Longrightarrow> sound s s'"
    "api_retry st rid caller v key digest now s = (h, s') \<Longrightarrow> sound s s'"
    "api_approve st rid caller dec w key digest now s = (h, s') \<Longrightarrow> sound s s'"
    "api_purge rid caller why key digest now s = (h, s') \<Longrightarrow> sound s s'"
  unfolding api_create_def api_start_def api_cancel_def api_retry_def api_approve_def api_purge_def
  by (erule write_endpoint_sound [OF assms, rotated],
      auto simp: create_call_def res_simps intro: create_sound start_sound cancel_sound retry_sound
        approve_sound purge_sound assms)+

section \<open>Properties\<close>

text \<open>The write endpoints are idempotent and atomic: a call that does not answer with a body
  changes nothing, and repeating an answered call under its key before the stored response
  expires returns the same body without running the operation again, while another request
  under that key is refused.\<close>

lemma write_endpoint_once:
  assumes w: "write_endpoint status_of dump rid_of ttl caller sc key digest op now s = (h, s')"
    and dump: "\<And>r. dump r \<noteq> JNull"
    and new: "sel_one (same_key caller sc key) (idempotency s) = None" and t: "t \<le> now + days ttl"
  shows "(case h of
      Status _ \<Rightarrow> s' = s
    | Body b \<Rightarrow> write_endpoint status_of' dump' rid_of' ttl' caller sc key digest op' t s' = (Body b, s') \<and>
        (digest' \<noteq> digest \<longrightarrow>
          write_endpoint status_of' dump' rid_of' ttl' caller sc key digest' op' t s' = (Status 409, s')))"
proof (cases h)
  case (Status n)
  then show ?thesis using w by (auto simp: write_endpoint_def split: sum.splits option.splits)
next
  case (Body b)
  have "replay caller sc key digest now s = Inr (None, s)" using new by (simp add: replay_def)
  with w Body obtain r s1 where st: "store caller sc key digest (dump r) (rid_of r) ttl now s1 = Inr s'"
    and b: "b = dump r"
    by (auto simp: write_endpoint_def split: sum.splits)
  note rep = replay_after_store(1) [OF st dump t]
  show ?thesis using Body b by (simp add: write_endpoint_def rep)
qed

definition demo_settings :: settings where
  "demo_settings = \<lparr>st_clients = [(''c'', [])], st_connectors = [(''bc'', [(''enabled'', JBool True)])],
     st_limits = default_limits, st_route_ids = []\<rparr>"

lemma dump_nonnull: "dump_summary m \<noteq> JNull" "dump_detail d \<noteq> JNull"
  by (simp_all add: dump_summary_def dump_detail_def)

text \<open>An expired idempotency key is not reusable through the API: the replay deletes the
  expired record only in a session that is never committed, so a call whose operation succeeds
  then fails on the unique constraint with status 500, and nothing is written.\<close>

lemma expired_key_blocks_write:
  assumes x: "sel_one (same_key caller sc key) (idempotency s) = Some x"
    and old: "i_expires_at x < now" "sc \<noteq> ''purge''"
    and op: "op s = Inr (r, s1)" "idempotency s1 = idempotency s"
  shows "write_endpoint status_of dump rid_of ttl caller sc key digest op now s = (Status 500, s)"
proof -
  have "i_scope x = sc" using sel_one_SomeD [OF x] by (simp add: same_key_def)
  then have "\<exists>s0. replay caller sc key digest now s = Inr (None, s0)"
    using x old by (simp add: replay_def retain_expired_purge_def)
  moreover have "store caller sc key digest (dump r) (rid_of r) ttl now s1 = Inl IntegrityError"
    using x op(2) by (simp add: store_def)
  ultimately show ?thesis using op(1) by (auto simp: write_endpoint_def)
qed

definition demo_expired :: db where
  "demo_expired = (demo_db (demo_run Pending Held))\<lparr>idempotency := [\<lparr>client_id = ''c'', idempotency_key = ''k'',
     i_scope = ''start'', request_hash = ''h'', response_json = JStr ''old'', resource_type = None,
     resource_id = None, i_expires_at = 0\<rparr>]\<rparr>"

end
