(* ===== verification/Callback_Delivery.thy ===== *)
theory Callback_Delivery
  imports Authorization Run_Invariant Demo_State
begin

text \<open>
  Delivery of callback facts: \<open>CallbackDeliveryService\<close> (\<open>app/services/callback_service.py\<close>), the
  outbound gateway (\<open>app/runtime/callback_gateway.py\<close> with the schemas \<open>CallbackPayload\<close> and
  \<open>PublicTraceItem\<close>) and the target check of the Worker (\<open>_callback_target_authorized\<close> in
  \<open>app/worker.py\<close>). What is sent is the stored event; before it is sent the run, its privacy
  state, its target and the caller's authorization are read again.

  The HTTP client, the URL parser and the HMAC are parameters of the gateway: \<open>gw_post\<close> says how a
  request ends. An exception is a \<open>delivery_exc\<close>; of an HTTP status error the dispatcher reads
  the \<open>Retry-After\<close> header, given here by what \<open>float\<close> and the date parser make of it.
\<close>

section \<open>Outcomes\<close>

datatype retry_after = RaSeconds rat | RaNonFinite | RaDate time | RaNaiveDate | RaInvalid

datatype delivery_exc = HttpStatusError "retry_after option" | OtherError string

section \<open>The gateway\<close>

record callback_target =
  ct_url :: string
  ct_runtime_id :: string
  ct_key_id :: string
  ct_secret :: string

record callback_request =
  cr_url :: string
  cr_runtime_id :: string
  cr_key_id :: string
  cr_run_id :: string
  cr_business_id :: string
  cr_event_id :: string
  cr_event_seq :: int
  cr_timestamp :: int
  cr_signature :: string
  cr_idempotency_key :: string
  cr_body :: dict

record gateway =
  gw_targets :: "(string \<times> callback_target) list"
  gw_url_valid :: "string \<Rightarrow> bool"
  gw_test_allows :: "(string \<Rightarrow> bool) option"
  gw_sign :: "string \<Rightarrow> string \<Rightarrow> int \<Rightarrow> dict \<Rightarrow> string"
  gw_post :: "callback_request \<Rightarrow> delivery_exc option"

definition has_target :: "gateway \<Rightarrow> string \<Rightarrow> bool" where
  "has_target gw tid = (map_of (gw_targets gw) tid \<noteq> None)"

text \<open>\<open>isinstance(v, int)\<close>: booleans count.\<close>

fun int_value :: "json \<Rightarrow> int option" where
  "int_value (JInt n) = Some n"
| "int_value (JBool b) = Some (if b then 1 else 0)"
| "int_value _ = None"

definition callback_fields :: "string list" where
  "callback_fields = [''event'', ''event_id'', ''run_id'', ''event_seq'', ''status_version'', ''agent_id'',
     ''business_id'', ''status'', ''error'', ''public_trace'']"

fun safe_trace_item :: "json \<Rightarrow> bool" where
  "safe_trace_item (JObj d) = list_all (\<lambda>kv. fst kv \<in> {''step'', ''status'', ''label''}) d"
| "safe_trace_item _ = False"

fun safe_trace :: "json \<Rightarrow> bool" where
  "safe_trace (JList xs) = list_all safe_trace_item xs"
| "safe_trace _ = False"

fun safe_error :: "json \<Rightarrow> bool" where
  "safe_error JNull = True"
| "safe_error (JObj d) = (set (map fst d) = {''code''} \<and> is_str (dget d ''code''))"
| "safe_error _ = False"

definition is_safe_payload :: "dict \<Rightarrow> bool" where
  "is_safe_payload p \<longleftrightarrow> list_all (\<lambda>kv. fst kv \<in> set callback_fields) p \<and>
     safe_trace (dget_default p ''public_trace'' (JList [])) \<and> safe_error (dget p ''error'')"

text \<open>\<open>Field(min_length=1, max_length=n)\<close> on a string.\<close>

fun str_within :: "nat \<Rightarrow> json \<Rightarrow> bool" where
  "str_within n (JStr x) = (x \<noteq> '''' \<and> length x \<le> n)"
| "str_within n _ = False"

definition at_least_1 :: "json \<Rightarrow> bool" where
  "at_least_1 v = (case int_value v of None \<Rightarrow> False | Some n \<Rightarrow> 1 \<le> n)"

definition callback_events :: "string list" where
  "callback_events = [''run_started'', ''step_changed'', ''waiting_human'', ''partial_succeeded'', ''run_succeeded'',
     ''run_failed'', ''run_cancelled'']"

fun trace_item_valid :: "json \<Rightarrow> bool" where
  "trace_item_valid (JObj d) \<longleftrightarrow>
     list_all (\<lambda>kv. fst kv \<in> {''step'', ''status'', ''label''}) d \<and> str_within 120 (dget d ''step'') \<and>
     str_within 32 (dget d ''status'') \<and>
     (case dget d ''label'' of JNull \<Rightarrow> True | JStr x \<Rightarrow> length x \<le> 120 | _ \<Rightarrow> False)"
| "trace_item_valid _ = False"

fun trace_valid :: "json \<Rightarrow> bool" where
  "trace_valid (JList xs) \<longleftrightarrow> length xs \<le> 8 \<and> list_all trace_item_valid xs"
| "trace_valid _ = False"

fun error_valid :: "json \<Rightarrow> bool" where
  "error_valid JNull = True"
| "error_valid (JObj d) = (list_all (\<lambda>kv. fst kv = ''code'') d \<and> str_within 80 (dget d ''code''))"
| "error_valid _ = False"

text \<open>\<open>CallbackPayload.model_validate\<close>, with the type checks \<open>send\<close> repeats on the raw values: both
  end in the same exception.\<close>

definition payload_valid :: "dict \<Rightarrow> bool" where
  "payload_valid p \<longleftrightarrow> list_all (\<lambda>kv. fst kv \<in> set callback_fields) p \<and>
     (case dget p ''event'' of JStr e \<Rightarrow> e \<in> set callback_events | _ \<Rightarrow> False) \<and>
     str_within 80 (dget p ''event_id'') \<and> str_within 80 (dget p ''run_id'') \<and>
     at_least_1 (dget p ''event_seq'') \<and> at_least_1 (dget p ''status_version'') \<and>
     str_within 80 (dget p ''agent_id'') \<and> str_within 120 (dget p ''business_id'') \<and>
     str_within 32 (dget p ''status'') \<and> error_valid (dget p ''error'') \<and>
     trace_valid (dget_default p ''public_trace'' (JList []))"

fun str_value :: "json \<Rightarrow> string" where
  "str_value (JStr x) = x"
| "str_value _ = ''''"

text \<open>The request for a target, or the exception before anything is sent.\<close>

definition build_request :: "gateway \<Rightarrow> time \<Rightarrow> string \<Rightarrow> dict \<Rightarrow> delivery_exc + callback_request" where
  "build_request gw now tid p =
     (if int_value (dget p ''status_version'') = None then Inl (OtherError ''CALLBACK_PAYLOAD_INVALID'')
      else if \<not> is_safe_payload p then Inl (OtherError ''CALLBACK_PAYLOAD_UNSAFE'')
      else if \<not> payload_valid p then Inl (OtherError ''CALLBACK_PAYLOAD_INVALID'')
      else (case map_of (gw_targets gw) tid of
          None \<Rightarrow> Inl (OtherError ''CALLBACK_TARGET_UNAVAILABLE'')
        | Some t \<Rightarrow>
            if \<not> gw_url_valid gw (ct_url t) then Inl (OtherError ''CALLBACK_TARGET_INVALID'')
            else if (case gw_test_allows gw of None \<Rightarrow> False | Some ok \<Rightarrow> \<not> ok (ct_url t))
            then Inl (OtherError ''TEST_HARNESS_LOOPBACK_REQUIRED'')
            else Inr \<lparr>cr_url = ct_url t, cr_runtime_id = ct_runtime_id t, cr_key_id = ct_key_id t,
                 cr_run_id = str_value (dget p ''run_id''), cr_business_id = str_value (dget p ''business_id''),
                 cr_event_id = str_value (dget p ''event_id''),
                 cr_event_seq = the (int_value (dget p ''event_seq'')), cr_timestamp = now div 1000000,
                 cr_signature = gw_sign gw (ct_url t) (ct_secret t) (now div 1000000) p,
                 cr_idempotency_key = ''callback:'' @ str_value (dget p ''event_id''), cr_body = p\<rparr>))"

definition gateway_send :: "gateway \<Rightarrow> time \<Rightarrow> string \<Rightarrow> dict \<Rightarrow> delivery_exc option" where
  "gateway_send gw now tid p = (case build_request gw now tid p of Inl e \<Rightarrow> Some e | Inr rq \<Rightarrow> gw_post gw rq)"

section \<open>The delivery service\<close>

record delivery_service =
  ds_send :: "time \<Rightarrow> string \<Rightarrow> dict \<Rightarrow> delivery_exc option"
  ds_authorize :: "agent_run \<Rightarrow> runtime_error + json"

definition outbox_identity :: "outbox_event \<Rightarrow> (string \<times> string) option" where
  "outbox_identity ob =
     (case (dget (o_payload_json ob) ''event_id'', dget (o_payload_json ob) ''target_id'') of
        (JStr e, JStr t) \<Rightarrow> Some (e, t) | _ \<Rightarrow> None)"

text \<open>\<open>value == n\<close> for an integer \<open>n\<close>: Python compares numbers by value.\<close>

fun eq_int :: "json \<Rightarrow> int \<Rightarrow> bool" where
  "eq_int (JFloat (Fin q)) n = (q = of_int n)"
| "eq_int v n = (int_value v = Some n)"

definition matches_callback :: "callback_event \<Rightarrow> bool" where
  "matches_callback c \<longleftrightarrow>
     dget (e_payload_json c) ''event_id'' = JStr (event_id c) \<and> dget (e_payload_json c) ''run_id'' = JStr (e_run_id c) \<and>
     eq_int (dget (e_payload_json c) ''event_seq'') (event_seq c) \<and>
     eq_int (dget (e_payload_json c) ''status_version'') (e_status_version c) \<and>
     dget (e_payload_json c) ''event'' = JStr (event_string (e_event_type c))"

definition rejection_codes :: "string list" where
  "rejection_codes = [''CALLBACK_TARGET_MISSING'', ''AUTHORIZATION_REVOKED'', ''AUTHORIZATION_VERSION_CHANGED'',
     ''CONNECTOR_DISABLED'']"

definition rejection_reason :: "agent_run \<Rightarrow> string \<Rightarrow> json \<Rightarrow> string option" where
  "rejection_reason r tid verdict =
     (if tid \<noteq> callback_target_id r then Some ''CALLBACK_TARGET_MISSING''
      else (case verdict of
          JNull \<Rightarrow> None
        | JBool True \<Rightarrow> None
        | JStr c \<Rightarrow> if c \<in> set rejection_codes then Some c else Some ''AUTHORIZATION_REVOKED''
        | _ \<Rightarrow> Some ''AUTHORIZATION_REVOKED''))"

definition deliver :: "delivery_service \<Rightarrow> outbox_event \<Rightarrow> time \<Rightarrow> db \<Rightarrow> delivery_exc option \<times> db" where
  "deliver ds ob now s =
     (case outbox_identity ob of
        None \<Rightarrow> (Some (OtherError ''CALLBACK_OUTBOX_PAYLOAD_INVALID''), s)
      | Some (eid, tid) \<Rightarrow>
          (case sel_one (\<lambda>c. event_id c = eid) (callbacks s) of
             None \<Rightarrow> (Some (OtherError ''CALLBACK_EVENT_UNAVAILABLE''), s)
           | Some c \<Rightarrow>
               if e_run_id c \<noteq> aggregate_id ob then (Some (OtherError ''CALLBACK_EVENT_UNAVAILABLE''), s)
               else if \<not> matches_callback c then (Some (OtherError ''CALLBACK_EVENT_INTEGRITY_INVALID''), s)
               else (case find_run s (e_run_id c) of
                   None \<Rightarrow> (Some (OtherError ''CALLBACK_RUN_NOT_ACTIVE''), s)
                 | Some r \<Rightarrow>
                     if privacy_state r \<noteq> PrivacyActive then (Some (OtherError ''CALLBACK_RUN_NOT_ACTIVE''), s)
                     else (case ds_authorize ds r of
                         Inl _ \<Rightarrow> (Some (OtherError ''AUTHORIZE''), s)
                       | Inr verdict \<Rightarrow>
                           (case rejection_reason r tid verdict of
                              Some why \<Rightarrow> (Some (OtherError ''CALLBACK_TARGET_REVOKED''),
                                append_audit_record ''system'' ''callback_dispatcher'' ''callback_authorization_rejected''
                                  ''agent_run'' (run_id r) (Some why) ''rejected'' (Some (trace_id r))
                                  [(''run_id'', run_id r), (''status'', status_string (status r))] now s)
                            | None \<Rightarrow> (ds_send ds now tid (e_payload_json c), s))))))"

definition replay_dead_letter :: "string \<Rightarrow> db \<Rightarrow> runtime_error + (bool \<times> db)" where
  "replay_dead_letter oid s =
     (case sel_one (\<lambda>e. outbox_id e = oid) (outbox s) of
        None \<Rightarrow> Inr (False, s)
      | Some e \<Rightarrow>
          if o_event_type e \<noteq> ''callback'' \<or> o_status e \<noteq> ''dead_letter'' then Inr (False, s)
          else if outbox_identity e = None then Inl (ValueError ''CALLBACK_OUTBOX_PAYLOAD_INVALID'')
          else Inr (True, s\<lparr>outbox := upd_where (\<lambda>x. outbox_id x = oid)
             (\<lambda>x. x\<lparr>o_status := ''pending'', attempt_count := 0, next_attempt_at := None, o_lease_owner := None,
                    o_lease_expires_at := None, last_error_code := None\<rparr>) (outbox s)\<rparr>))"

text \<open>The check the Worker injects, over the deployment's client configuration.\<close>

definition callback_target_authorized :: "gateway \<Rightarrow> clients \<Rightarrow> agent_run \<Rightarrow> runtime_error + json" where
  "callback_target_authorized gw cl r =
     (if \<not> has_target gw (callback_target_id r) then Inr (JStr ''CALLBACK_TARGET_MISSING'')
      else (case res_bind (authorize_callback_target cl (caller_id r) (callback_target_id r))
              (\<lambda>_. authorization_version_of cl (caller_id r)) of
          Inl AuthorizationError \<Rightarrow> Inr (JStr ''AUTHORIZATION_REVOKED'')
        | Inl e \<Rightarrow> Inl e
        | Inr v \<Rightarrow> Inr (if v \<noteq> authorization_version r then JStr ''AUTHORIZATION_VERSION_CHANGED'' else JNull)))"

definition worker_delivery :: "gateway \<Rightarrow> clients \<Rightarrow> delivery_service" where
  "worker_delivery gw cl = \<lparr>ds_send = gateway_send gw, ds_authorize = callback_target_authorized gw cl\<rparr>"

section \<open>Lemmas\<close>

lemma deliver_sound: "inv_db s \<Longrightarrow> sound s (snd (deliver ds ob now s))"
  by (auto simp: deliver_def sound_refl step_audit split: option.split sum.split prod.split)

lemma deliver_outbox: "outbox (snd (deliver ds ob now s)) = outbox s"
  by (auto simp: deliver_def frame_simps split: option.split sum.split prod.split)

lemma replay_sound_dead: "inv_db s \<Longrightarrow> replay_dead_letter oid s = Inr (ok, s') \<Longrightarrow> sound s s'"
  by (rule sound_frame) (auto simp: replay_dead_letter_def split: option.split_asm if_split_asm)

lemma deliver_None:
  assumes "deliver ds ob now s = (None, s')"
  obtains eid tid c r verdict where "outbox_identity ob = Some (eid, tid)"
    "sel_one (\<lambda>c. event_id c = eid) (callbacks s) = Some c" "e_run_id c = aggregate_id ob" "matches_callback c"
    "find_run s (e_run_id c) = Some r" "privacy_state r = PrivacyActive" "ds_authorize ds r = Inr verdict"
    "rejection_reason r tid verdict = None" "ds_send ds now tid (e_payload_json c) = None" "s' = s"
proof -
  note d = assms [unfolded deliver_def]
  from d obtain eid tid where 1: "outbox_identity ob = Some (eid, tid)" by (cases "outbox_identity ob") auto
  from d 1 obtain c where 2: "sel_one (\<lambda>c. event_id c = eid) (callbacks s) = Some c"
    by (cases "sel_one (\<lambda>c. event_id c = eid) (callbacks s)") simp_all
  from d 1 2 have 3: "e_run_id c = aggregate_id ob" "matches_callback c" by (simp_all split: if_split_asm)
  from d 1 2 3 obtain r where 4: "find_run s (e_run_id c) = Some r" by (cases "find_run s (e_run_id c)") simp_all
  from d 1 2 3 4 have 5: "privacy_state r = PrivacyActive" by (simp split: if_split_asm)
  from d 1 2 3 4 5 obtain verdict where 6: "ds_authorize ds r = Inr verdict" by (cases "ds_authorize ds r") simp_all
  from d 1 2 3 4 5 6 have "rejection_reason r tid verdict = None"
    by (cases "rejection_reason r tid verdict") simp_all
  with that [OF 1 2 3 4 5 6] d 1 2 3 4 5 6 show thesis by simp
qed

lemma build_request_Inr:
  assumes "build_request gw now tid p = Inr rq"
  obtains t where "map_of (gw_targets gw) tid = Some t" "cr_url rq = ct_url t" "cr_body rq = p"
    "cr_idempotency_key rq = ''callback:'' @ str_value (dget p ''event_id'')" "is_safe_payload p" "payload_valid p"
  using assms by (auto simp: build_request_def split: option.split_asm if_split_asm)

lemma authorized_None:
  assumes "callback_target_authorized gw cl r = Inr verdict" "rejection_reason r tid verdict = None"
  shows "tid = callback_target_id r" "authorize_callback_target cl (caller_id r) (callback_target_id r) = Inr ()"
    "authorization_version_of cl (caller_id r) = Inr (authorization_version r)"
proof -
  have v: "verdict = JNull \<or> verdict = JBool True" and tid: "tid = callback_target_id r"
    using assms(2) by (auto simp: rejection_reason_def split: if_split_asm json.split_asm bool.split_asm)
  let ?x = "res_bind (authorize_callback_target cl (caller_id r) (callback_target_id r))
    (\<lambda>_. authorization_version_of cl (caller_id r))"
  have "?x = Inr (authorization_version r)"
  proof (cases ?x)
    case (Inl e)
    with assms(1) v show ?thesis by (cases e) (auto simp: callback_target_authorized_def split: if_split_asm)
  next
    case (Inr n)
    with assms(1) v show ?thesis by (auto simp: callback_target_authorized_def split: if_split_asm)
  qed
  then show "tid = callback_target_id r" "authorize_callback_target cl (caller_id r) (callback_target_id r) = Inr ()"
    "authorization_version_of cl (caller_id r) = Inr (authorization_version r)"
    using tid by (simp_all add: res_simps)
qed

section \<open>Properties\<close>

text \<open>C16. What leaves the runtime: a delivery that succeeds posted exactly the stored event of an outbox row, to the
  registered target of its run and under the idempotency key of the event, while the run was not
  being purged and the caller was still authorized for the target at the version the run
  was created with; the payload has only contract fields. Nothing else is written.\<close>

theorem delivered_callback_current:
  assumes "deliver (worker_delivery gw cl) ob now s = (None, s')"
  shows "s' = s \<and> (\<exists>c r t rq. c \<in> set (callbacks s) \<and> dget (o_payload_json ob) ''event_id'' = JStr (event_id c) \<and>
    find_run s (e_run_id c) = Some r \<and> privacy_state r = PrivacyActive \<and>
    map_of (gw_targets gw) (callback_target_id r) = Some t \<and>
    authorize_callback_target cl (caller_id r) (callback_target_id r) = Inr () \<and>
    authorization_version_of cl (caller_id r) = Inr (authorization_version r) \<and>
    gw_post gw rq = None \<and> cr_url rq = ct_url t \<and> cr_body rq = e_payload_json c \<and> is_safe_payload (cr_body rq) \<and>
    cr_idempotency_key rq = ''callback:'' @ event_id c)"
proof -
  from assms obtain eid tid c r verdict where d: "outbox_identity ob = Some (eid, tid)"
    "sel_one (\<lambda>c. event_id c = eid) (callbacks s) = Some c" "matches_callback c"
    "find_run s (e_run_id c) = Some r" "privacy_state r = PrivacyActive"
    "callback_target_authorized gw cl r = Inr verdict" "rejection_reason r tid verdict = None"
    "gateway_send gw now tid (e_payload_json c) = None" "s' = s"
    by (elim deliver_None) (simp add: worker_delivery_def)
  from d(8) obtain rq where rq: "build_request gw now tid (e_payload_json c) = Inr rq" "gw_post gw rq = None"
    by (auto simp: gateway_send_def split: sum.split_asm)
  from rq(1) obtain t where t: "map_of (gw_targets gw) tid = Some t" "cr_url rq = ct_url t" "cr_body rq = e_payload_json c"
    "cr_idempotency_key rq = ''callback:'' @ str_value (dget (e_payload_json c) ''event_id'')" "is_safe_payload (e_payload_json c)"
    by (rule build_request_Inr)
  have c: "c \<in> set (callbacks s)" "event_id c = eid" using sel_one_SomeD [OF d(2)] by auto
  have "dget (o_payload_json ob) ''event_id'' = JStr eid"
    using d(1) by (auto simp: outbox_identity_def split: json.split_asm)
  then show ?thesis
    by (intro conjI exI [of _ c] exI [of _ r] exI [of _ t] exI [of _ rq])
       (use c d authorized_None [OF d(6,7)] rq(2) t in \<open>simp_all add: matches_callback_def\<close>)
qed

definition demo_gateway :: gateway where
  "demo_gateway = \<lparr>gw_targets = [(''cb'', \<lparr>ct_url = ''https://b'', ct_runtime_id = ''rt'', ct_key_id = ''k'', ct_secret = ''s''\<rparr>)],
     gw_url_valid = (\<lambda>_. True), gw_test_allows = None, gw_sign = (\<lambda>u k t p. ''sig''), gw_post = (\<lambda>_. None)\<rparr>"

definition demo_clients :: clients where
  "demo_clients = [(''c'', [])]"

definition demo_emitted :: db where
  "demo_emitted = append_callback_event ''0'' RunStarted JNull 5 (demo_db demo_claimed)"

theorem delivered_callback_current_witness:
  "\<exists>s' c. deliver (worker_delivery demo_gateway demo_clients) (last (outbox demo_emitted)) 7 demo_emitted = (None, s') \<and>
     c \<in> set (callbacks demo_emitted) \<and> is_safe_payload (e_payload_json c)"
proof -
  let ?d = "deliver (worker_delivery demo_gateway demo_clients) (last (outbox demo_emitted)) 7 demo_emitted"
  have "fst ?d = None" by code_simp
  then obtain s' where e: "?d = (None, s')" by (metis prod.collapse)
  from delivered_callback_current [OF e] e show ?thesis by auto
qed

lemma length_render: "length (render cfg tr) \<le> 8"
proof -
  have "length (concat (map (render_item cfg) xs)) \<le> length xs" for xs
  proof (induction xs)
    case (Cons x xs)
    have "length (render_item cfg x) \<le> 1"
      by (cases x) (auto split: json.split)
    with Cons show ?case by simp
  qed simp
  then have "length (concat (map (render_item cfg) (take 8 xs))) \<le> 8" for xs
    by (metis length_take min.cobounded2 order_trans)
  then show ?thesis by (cases tr) auto
qed

lemma trace_item_valid_safe: "trace_item_valid x \<Longrightarrow> safe_trace_item x"
  by (cases x) auto

lemma status_string_within: "status_string st \<noteq> '''' \<and> length (status_string st) \<le> 32"
  by (cases st) simp_all

lemma event_string_valid: "event_string ev \<in> set callback_events"
  by (cases ev) (simp_all add: callback_events_def)

lemma target_authorized_cong:
  "caller_id r' = caller_id r \<Longrightarrow> callback_target_id r' = callback_target_id r \<Longrightarrow>
    authorization_version r' = authorization_version r \<Longrightarrow>
    callback_target_authorized gw cl r' = callback_target_authorized gw cl r"
  by (simp add: callback_target_authorized_def cong: sum.case_cong)

text \<open>Every callback fact the ledger writes can be delivered: for a run whose identifiers fit their columns, the new outbox
  row passes the identity, integrity, privacy, authorization and payload checks, so that its
  delivery ends as the HTTP request for exactly that event ends.\<close>

lemma own_callback_deliverable:
  fixes r :: agent_run
  assumes r: "find_run s rid = Some r" and active: "privacy_state r = PrivacyActive"
    and fresh: "\<And>c. c \<in> set (callbacks s) \<Longrightarrow> event_id c \<noteq> numeral_string (uuid_counter s)"
    and auth: "callback_target_authorized gw cl r = Inr JNull"
    and t: "map_of (gw_targets gw) (callback_target_id r) = Some t" "gw_url_valid gw (ct_url t)" "gw_test_allows gw = None"
    and fits: "str_within 80 (JStr (numeral_string (uuid_counter s)))" "str_within 80 (JStr rid)"
      "str_within 80 (JStr (agent_id r))" "str_within 120 (JStr (business_id r))"
      "\<And>x. error_code r = Some x \<Longrightarrow> length x \<le> 80"
      "list_all trace_item_valid (render (from_snapshot (jget (capability_snapshot_json r) ''ui_trace'')) tr)"
    and pos: "0 \<le> last_event_seq r" "0 \<le> status_version r"
  shows "\<exists>ob rq. outbox (append_callback_event rid ev tr written s) = outbox s @ [ob] \<and>
    deliver (worker_delivery gw cl) ob now (append_callback_event rid ev tr written s) =
      (gw_post gw rq, append_callback_event rid ev tr written s) \<and>
    cr_event_id rq = numeral_string (uuid_counter s) \<and> cr_event_seq rq = last_event_seq r + 1 \<and>
    cr_url rq = ct_url t"
proof -
  let ?s = "append_callback_event rid ev tr written s" and ?eid = "numeral_string (uuid_counter s)"
  let ?tr = "render (from_snapshot (jget (capability_snapshot_json r) ''ui_trace'')) tr"
  let ?p = "[(''event'', JStr (event_string ev)), (''event_id'', JStr ?eid), (''run_id'', JStr (run_id r)),
     (''event_seq'', JInt (last_event_seq r + 1)), (''status_version'', JInt (version_or_1 (status_version r))),
     (''agent_id'', JStr (agent_id r)), (''business_id'', JStr (business_id r)),
     (''status'', JStr (status_string (status r))),
     (''error'', case error_code r of None \<Rightarrow> JNull | Some c \<Rightarrow> if c = '''' then JNull else JObj [(''code'', JStr c)]),
     (''public_trace'', JList ?tr)]"
  have rid: "run_id r = rid" using r by (rule find_run_id)
  obtain c ob where cb: "callbacks ?s = callbacks s @ [c]" "event_id c = ?eid" "e_run_id c = rid" "e_payload_json c = ?p"
      "event_seq c = last_event_seq r + 1" "e_status_version c = version_or_1 (status_version r)" "e_event_type c = ev"
    and ob: "outbox ?s = outbox s @ [ob]" "outbox_identity ob = Some (?eid, callback_target_id r)" "aggregate_id ob = rid"
    using r rid by (auto simp: append_callback_event_def uuid4_def set_run_def Let_def outbox_identity_def dget_def)
  have sel: "sel_one (\<lambda>c. event_id c = ?eid) (callbacks ?s) = Some c"
  proof -
    have "sel_one (\<lambda>c. event_id c = ?eid) (callbacks s) = None" using fresh by (simp add: sel_one_None_iff)
    then show ?thesis by (simp add: cb sel_one_append)
  qed
  have m: "matches_callback c" by (simp add: matches_callback_def cb dget_def rid)
  obtain r1 where r1: "find_run ?s rid = Some r1" "r1 = r\<lparr>last_event_seq := last_event_seq r + 1\<rparr>"
    using r rid by (simp add: find_run_append_callback_event)
  have a1: "callback_target_authorized gw cl r1 = Inr JNull" "privacy_state r1 = PrivacyActive"
    "callback_target_id r1 = callback_target_id r"
    using auth active target_authorized_cong [of r1 r gw cl] by (simp_all add: r1(2))
  have "payload_valid ?p"
    using fits pos rid length_render status_string_within event_string_valid [of ev]
    by (auto simp: payload_valid_def callback_fields_def dget_def dget_default_def at_least_1_def version_or_1_def
        split: option.split)
  moreover have "is_safe_payload ?p"
    using fits(6)
    by (auto simp: is_safe_payload_def callback_fields_def dget_def dget_default_def list_all_iff trace_item_valid_safe
        split: option.split)
  ultimately obtain rq where rq: "build_request gw now (callback_target_id r) ?p = Inr rq"
    "cr_event_id rq = ?eid" "cr_event_seq rq = last_event_seq r + 1" "cr_url rq = ct_url t"
    using t by (simp add: build_request_def dget_def)
  have "deliver (worker_delivery gw cl) ob now ?s = (gw_post gw rq, ?s)"
    using ob(2,3) sel cb(3,4) m r1(1) a1 rq(1)
    by (simp add: deliver_def worker_delivery_def rejection_reason_def gateway_send_def)
  with ob rq show ?thesis by blast
qed

end
