(* ===== verification/Dispatch.thy ===== *)
theory Dispatch
  imports Callback_Delivery
begin

text \<open>
  The outbox dispatcher (\<open>app/dispatcher.py\<close>). A pass selects the due events, claims them one by
  one with a conditional update, hands each to the handler of its type and writes the outcome on
  the row; the pass commits once, at its end, so an exception outside a handler undoes it all.
  \<open>notify_run\<close> and the callback sender are arguments of the dispatcher; the pass also returns the
  run identifiers it notified, which is how the Worker uses it.
\<close>

section \<open>Model\<close>

record dispatcher =
  dp_owner :: string
  dp_lease_seconds :: int
  dp_notify :: "string \<Rightarrow> delivery_exc option"
  dp_sender :: "(outbox_event \<Rightarrow> time \<Rightarrow> db \<Rightarrow> delivery_exc option \<times> db) option"

definition enabled_event_types :: "dispatcher \<Rightarrow> string list" where
  "enabled_event_types d = ''run_dispatch'' # (if dp_sender d = None then [] else [''callback''])"

definition outbox_claimable :: "dispatcher \<Rightarrow> time \<Rightarrow> outbox_event \<Rightarrow> bool" where
  "outbox_claimable d now e \<longleftrightarrow> o_status e = ''pending'' \<and> o_event_type e \<in> set (enabled_event_types d) \<and>
     (case o_lease_expires_at e of None \<Rightarrow> True | Some t \<Rightarrow> t < now)"

definition claim_outbox :: "dispatcher \<Rightarrow> string \<Rightarrow> time \<Rightarrow> db \<Rightarrow> outbox_event option \<times> db" where
  "claim_outbox d oid now s =
     (let p = (\<lambda>e. outbox_id e = oid \<and> outbox_claimable d now e) in
      if rowcount p (outbox s) = 1 then
        (let s1 = s\<lparr>outbox := upd_where p (\<lambda>e. e\<lparr>o_status := ''delivering'', o_lease_owner := Some (dp_owner d),
               o_lease_expires_at := Some (now + seconds (dp_lease_seconds d))\<rparr>) (outbox s)\<rparr>
         in (sel_one (\<lambda>e. outbox_id e = oid) (outbox s1), s1))
      else (None, s))"

definition deliver_run_dispatch :: "dispatcher \<Rightarrow> outbox_event \<Rightarrow> delivery_exc option \<times> string list" where
  "deliver_run_dispatch d e =
     (case dget_default (o_payload_json e) ''run_id'' (JStr (aggregate_id e)) of
        JStr rid \<Rightarrow> if rid = '''' then (Some (OtherError ''run_id''), []) else (dp_notify d rid, [rid])
      | _ \<Rightarrow> (Some (OtherError ''run_id''), []))"

definition run_handler ::
  "dispatcher \<Rightarrow> outbox_event \<Rightarrow> time \<Rightarrow> db \<Rightarrow> delivery_exc option \<times> string list \<times> db" where
  "run_handler d e now s =
     (if o_event_type e = ''run_dispatch'' then (case deliver_run_dispatch d e of (out, ids) \<Rightarrow> (out, ids, s))
      else (case dp_sender d of
          None \<Rightarrow> (None, [], s)
        | Some f \<Rightarrow> (case f e now s of (out, s1) \<Rightarrow> (out, [], s1))))"

text \<open>\<open>int()\<close> of an infinite or undefined float raises (\<open>OverflowError\<close> or \<open>ValueError\<close>).\<close>

definition retry_delay_seconds :: "time \<Rightarrow> delivery_exc \<Rightarrow> int \<Rightarrow> runtime_error + int" where
  "retry_delay_seconds now exc n =
     (let backoff = min 60 (2 ^ nat n) in
      case exc of
        HttpStatusError (Some (RaSeconds q)) \<Rightarrow> Inr (min 300 (max 1 (py_int q)))
      | HttpStatusError (Some (RaDate t)) \<Rightarrow> Inr (min 300 (max 1 (py_int (of_int (t - now) / 1000000))))
      | HttpStatusError (Some RaNonFinite) \<Rightarrow> Inl (ValueError ''int'')
      | _ \<Rightarrow> Inr backoff)"

definition set_outbox :: "string \<Rightarrow> (outbox_event \<Rightarrow> outbox_event) \<Rightarrow> db \<Rightarrow> db" where
  "set_outbox oid f s = s\<lparr>outbox := upd_where (\<lambda>e. outbox_id e = oid) f (outbox s)\<rparr>"

definition delivered_row :: "time \<Rightarrow> outbox_event \<Rightarrow> outbox_event" where
  "delivered_row now e = e\<lparr>o_status := ''delivered'', o_lease_owner := None, o_lease_expires_at := None,
     delivered_at := Some now\<rparr>"

definition failed_row :: "string \<Rightarrow> time option \<Rightarrow> outbox_event \<Rightarrow> outbox_event" where
  "failed_row st next_at e = e\<lparr>o_lease_owner := None, o_lease_expires_at := None, attempt_count := attempt_count e + 1,
     last_error_code := Some (if o_event_type e = ''callback'' then ''CALLBACK_DELIVERY_FAILED''
       else ''DISPATCH_DELIVERY_FAILED''),
     o_status := st, next_attempt_at := next_at\<rparr>"

definition dispatch_one ::
  "dispatcher \<Rightarrow> time \<Rightarrow> string \<Rightarrow> db \<Rightarrow> runtime_error + (nat \<times> string list \<times> db)" where
  "dispatch_one d now oid s =
     (case claim_outbox d oid now s of
        (None, s1) \<Rightarrow> Inr (0, [], s1)
      | (Some e, s1) \<Rightarrow>
          (case run_handler d e now s1 of
             (None, ids, s2) \<Rightarrow> Inr (1, ids, set_outbox oid (delivered_row now) s2)
           | (Some exc, ids, s2) \<Rightarrow>
               if attempt_count e + 1 \<ge> 5 then Inr (0, ids, set_outbox oid (failed_row ''dead_letter'' None) s2)
               else res_bind (retry_delay_seconds now exc (attempt_count e + 1)) (\<lambda>delay.
                 Inr (0, ids, set_outbox oid (failed_row ''pending'' (Some (now + seconds delay))) s2))))"

fun dispatch_loop ::
  "dispatcher \<Rightarrow> time \<Rightarrow> string list \<Rightarrow> db \<Rightarrow> runtime_error + (nat \<times> string list \<times> db)" where
  "dispatch_loop d now [] s = Inr (0, [], s)"
| "dispatch_loop d now (oid # oids) s =
     res_bind (dispatch_one d now oid s) (\<lambda>(n, ids, s1).
     res_bind (dispatch_loop d now oids s1) (\<lambda>(m, more, s2). Inr (n + m, ids @ more, s2)))"

definition outbox_due :: "dispatcher \<Rightarrow> time \<Rightarrow> outbox_event \<Rightarrow> bool" where
  "outbox_due d now e \<longleftrightarrow> o_status e = ''pending'' \<and> o_event_type e \<in> set (enabled_event_types d) \<and>
     (case next_attempt_at e of None \<Rightarrow> True | Some t \<Rightarrow> t \<le> now)"

definition dispatch_pending ::
  "dispatcher \<Rightarrow> time \<Rightarrow> db \<Rightarrow> runtime_error + (nat \<times> string list \<times> db)" where
  "dispatch_pending d now s = dispatch_loop d now (map outbox_id (filter (outbox_due d now) (outbox s))) s"

section \<open>What a pass does to a row\<close>

definition attempted :: "time \<Rightarrow> outbox_event \<Rightarrow> outbox_event \<Rightarrow> bool" where
  "attempted now e e' \<longleftrightarrow>
     e' = e\<lparr>o_status := ''delivered'', o_lease_owner := None, o_lease_expires_at := None, delivered_at := Some now\<rparr> \<or>
     (\<exists>st next_at. e' = e\<lparr>o_status := st, o_lease_owner := None, o_lease_expires_at := None,
          attempt_count := attempt_count e + 1, next_attempt_at := next_at,
          last_error_code := Some (if o_event_type e = ''callback'' then ''CALLBACK_DELIVERY_FAILED''
            else ''DISPATCH_DELIVERY_FAILED'')\<rparr> \<and>
        (if attempt_count e + 1 \<ge> 5 then st = ''dead_letter'' \<and> next_at = None
         else st = ''pending'' \<and> (\<exists>delay. 1 \<le> delay \<and> delay \<le> 300 \<and> next_at = Some (now + seconds delay))))"

lemma retry_delay_bounds: "retry_delay_seconds now exc n = Inr k \<Longrightarrow> 1 \<le> k \<and> k \<le> 300"
  by (auto simp: retry_delay_seconds_def Let_def split: delivery_exc.split_asm option.split_asm retry_after.split_asm)

text \<open>The sender does not write the outbox and takes the database by sound steps.\<close>

definition sender_ok :: "dispatcher \<Rightarrow> bool" where
  "sender_ok d \<longleftrightarrow> (\<forall>f e now s. dp_sender d = Some f \<longrightarrow>
     outbox (snd (f e now s)) = outbox s \<and> (inv_db s \<longrightarrow> sound s (snd (f e now s))))"

lemma run_handler_frame:
  assumes "sender_ok d" "run_handler d e now s = (out, ids, s')"
  shows "outbox s' = outbox s" "inv_db s \<Longrightarrow> sound s s'"
proof -
  have k: "outbox (snd (f e now s)) = outbox s \<and> (inv_db s \<longrightarrow> sound s (snd (f e now s)))" if "dp_sender d = Some f" for f
    using assms(1) that by (simp add: sender_ok_def)
  show "outbox s' = outbox s" "inv_db s \<Longrightarrow> sound s s'"
    using assms(2) k by (auto simp: run_handler_def sound_refl split: if_split_asm option.split_asm prod.split_asm)
qed

lemma outbox_frame_sound: "inv_db s \<Longrightarrow> sound s (s\<lparr>outbox := x\<rparr>)"
  by (rule sound_frame) simp_all

lemma claim_outbox_cases:
  assumes "claim_outbox d oid now s = (c, s1)" "distinct (map outbox_id (outbox s))"
  obtains (none) "c = None" "s1 = s" "\<And>e. e \<in> set (outbox s) \<Longrightarrow> outbox_id e = oid \<Longrightarrow> \<not> outbox_claimable d now e"
  | (claimed) e g where "e \<in> set (outbox s)" "outbox_id e = oid" "outbox_claimable d now e" "c = Some (g e)"
      "s1 = set_outbox oid g s"
      "g = (\<lambda>e. e\<lparr>o_status := ''delivering'', o_lease_owner := Some (dp_owner d),
               o_lease_expires_at := Some (now + seconds (dp_lease_seconds d))\<rparr>)"
proof (cases "\<exists>e. sel_one (\<lambda>e. outbox_id e = oid) (outbox s) = Some e \<and> outbox_claimable d now e")
  case True
  then obtain e where e: "sel_one (\<lambda>e. outbox_id e = oid) (outbox s) = Some e" "outbox_claimable d now e" by blast
  define g where "g = (\<lambda>e :: outbox_event. e\<lparr>o_status := ''delivering'', o_lease_owner := Some (dp_owner d),
     o_lease_expires_at := Some (now + seconds (dp_lease_seconds d))\<rparr>)"
  have rc: "rowcount (\<lambda>e. outbox_id e = oid \<and> outbox_claimable d now e) (outbox s) = 1"
    using rowcount_key [OF assms(2), of oid "outbox_claimable d now"] e by simp
  have "s1 = set_outbox oid g s" "c = sel_one (\<lambda>e. outbox_id e = oid) (outbox s1)"
    using assms(1) rc upd_where_key_cond [where p = "outbox_claimable d now", OF assms(2) e]
    by (auto simp: claim_outbox_def Let_def set_outbox_def g_def)
  moreover have "sel_one (\<lambda>e. outbox_id e = oid) (outbox (set_outbox oid g s)) = Some (g e)"
    using e sel_one_SomeD [OF e(1)] by (simp add: set_outbox_def sel_key_upd_where g_def)
  ultimately show ?thesis using claimed [of e g] sel_one_SomeD [OF e(1)] e(2) g_def by auto
next
  case False
  have n: "\<not> outbox_claimable d now e" if "e \<in> set (outbox s)" "outbox_id e = oid" for e
    using False sel_key_iff [OF assms(2)] that by auto
  then have "rowcount (\<lambda>e. outbox_id e = oid \<and> outbox_claimable d now e) (outbox s) = 0"
    by (auto simp: rowcount_def filter_empty_conv)
  with assms(1) none n show ?thesis by (auto simp: claim_outbox_def)
qed

lemma attempted_id: "attempted now e e' \<Longrightarrow> outbox_id e' = outbox_id e"
  by (auto simp: attempted_def delivered_row_def failed_row_def)

lemma set_outbox_twice:
  assumes "\<And>e. outbox_id (g e) = outbox_id e"
  shows "outbox (set_outbox oid f (set_outbox oid g s)) = map (\<lambda>e. if outbox_id e = oid then f (g e) else e) (outbox s)"
  using assms by (simp add: set_outbox_def upd_where_def comp_def cong: if_cong)

lemma dispatch_one_rows:
  assumes dist: "distinct (map outbox_id (outbox s))" and ok: "sender_ok d"
    and e: "dispatch_one d now oid s = Inr (n, ids, s')"
  shows "\<exists>h. outbox s' = map h (outbox s) \<and> (\<forall>e\<in>set (outbox s).
      if outbox_id e = oid \<and> outbox_claimable d now e then attempted now e (h e) else h e = e)"
proof -
  obtain c s1 where c: "claim_outbox d oid now s = (c, s1)" by fastforce
  then show ?thesis using dist
  proof (cases rule: claim_outbox_cases)
    case none
    with e c show ?thesis by (auto simp: dispatch_one_def intro!: exI [of _ "\<lambda>e. e"])
  next
    case (claimed x g)
    obtain out nids s2 where h: "run_handler d (g x) now s1 = (out, nids, s2)" by (metis prod_cases3)
    note fr = run_handler_frame [OF ok h]
    have gx: "attempt_count (g x) = attempt_count x" "\<And>e. outbox_id (g e) = outbox_id e" by (simp_all add: claimed(6))
    obtain f where s': "s' = set_outbox oid f s2" and f: "attempted now x (f (g x))"
    proof (cases out)
      case None
      with e c h claimed(4) that show ?thesis
        by (auto simp: dispatch_one_def attempted_def claimed(6) delivered_row_def)
    next
      case (Some exc)
      show ?thesis
      proof (cases "attempt_count x + 1 \<ge> 5")
        case True
        with e c h claimed(4) Some gx(1) that show ?thesis
          by (auto simp: dispatch_one_def attempted_def claimed(6) failed_row_def)
      next
        case False
        with e c h claimed(4) Some gx(1) obtain k where k: "retry_delay_seconds now exc (attempt_count x + 1) = Inr k"
          and s': "s' = set_outbox oid (failed_row ''pending'' (Some (now + seconds k))) s2"
          by (auto simp: dispatch_one_def res_simps)
        with False retry_delay_bounds [OF k] show ?thesis
          by (intro that [OF s'], unfold attempted_def, intro disjI2 exI [of _ "''pending''"] exI [of _ "Some (now + seconds k)"])
             (auto simp: claimed(6) failed_row_def)
      qed
    qed
    let ?h = "\<lambda>e. if outbox_id e = oid then f (g e) else e"
    have "outbox s' = outbox (set_outbox oid f s1)" using fr(1) by (simp add: s' set_outbox_def)
    then have o: "outbox s' = map ?h (outbox s)" using set_outbox_twice [OF gx(2)] by (simp add: claimed(5))
    have uniq: "e = x" if "e \<in> set (outbox s)" "outbox_id e = oid" for e
      using dist that claimed(1,2) by (auto simp: distinct_map inj_on_def)
    have "\<forall>e\<in>set (outbox s). if outbox_id e = oid \<and> outbox_claimable d now e then attempted now e (?h e) else ?h e = e"
      using uniq f claimed(3) by auto
    then show ?thesis using o by (intro exI [of _ ?h]) auto
  qed
qed

lemma dispatch_one_sound:
  assumes ok: "sender_ok d" and inv: "inv_db s" and e: "dispatch_one d now oid s = Inr (n, ids, s')"
  shows "sound s s'"
proof -
  obtain c s1 where c: "claim_outbox d oid now s = (c, s1)" by fastforce
  then have a: "sound s s1" using outbox_frame_sound [OF inv] sound_refl [OF inv]
    by (auto simp: claim_outbox_def Let_def split: if_split_asm)
  show ?thesis
  proof (cases c)
    case None
    with e c a show ?thesis by (simp add: dispatch_one_def)
  next
    case (Some x)
    obtain out nids s2 where h: "run_handler d x now s1 = (out, nids, s2)" by (metis prod_cases3)
    note b = run_handler_frame(2) [OF ok h soundD(1) [OF a]]
    have "\<exists>f. s' = set_outbox oid f s2"
      using e c Some h by (auto simp: dispatch_one_def res_simps split: option.split_asm if_split_asm)
    then have "sound s2 s'" using outbox_frame_sound [OF soundD(1) [OF b]] by (auto simp: set_outbox_def)
    with a b show ?thesis using sound_trans by blast
  qed
qed

lemma dispatch_loop_sound:
  "sender_ok d \<Longrightarrow> inv_db s \<Longrightarrow> dispatch_loop d now oids s = Inr (n, ids, s') \<Longrightarrow> sound s s'"
proof (induction oids arbitrary: s n ids)
  case (Cons oid oids)
  from Cons.prems(3) obtain n1 ids1 s1 n2 ids2 where one: "dispatch_one d now oid s = Inr (n1, ids1, s1)"
    and rest: "dispatch_loop d now oids s1 = Inr (n2, ids2, s')" by (auto simp: res_simps)
  note a = dispatch_one_sound [OF Cons.prems(1,2) one]
  from Cons.IH [OF Cons.prems(1) soundD(1) [OF a] rest] a show ?case by (blast intro: sound_trans)
qed (simp add: sound_refl)

lemma dispatch_loop_rows:
  assumes ok: "sender_ok d"
  shows "distinct (map outbox_id (outbox s)) \<Longrightarrow> distinct oids \<Longrightarrow> dispatch_loop d now oids s = Inr (n, ids, s') \<Longrightarrow>
    \<exists>h. outbox s' = map h (outbox s) \<and> (\<forall>e\<in>set (outbox s).
      if outbox_id e \<in> set oids \<and> outbox_claimable d now e then attempted now e (h e) else h e = e)"
proof (induction oids arbitrary: s n ids)
  case Nil
  then show ?case by (auto intro!: exI [of _ "\<lambda>e. e"])
next
  case (Cons oid oids)
  from Cons.prems(3) obtain n1 ids1 s1 n2 ids2 where one: "dispatch_one d now oid s = Inr (n1, ids1, s1)"
    and rest: "dispatch_loop d now oids s1 = Inr (n2, ids2, s')" by (auto simp: res_simps)
  from dispatch_one_rows [OF Cons.prems(1) ok one] obtain h where h: "outbox s1 = map h (outbox s)"
    "\<forall>e\<in>set (outbox s). if outbox_id e = oid \<and> outbox_claimable d now e then attempted now e (h e) else h e = e" by blast
  have hid: "outbox_id (h e) = outbox_id e" if "e \<in> set (outbox s)" for e
    using h(2) that attempted_id by (metis (full_types))
  then have d1: "distinct (map outbox_id (outbox s1))"
    using Cons.prems(1) by (simp add: h(1) comp_def cong: map_cong)
  have "oid \<notin> set oids" "distinct oids" using Cons.prems(2) by simp_all
  from Cons.IH [OF d1 this(2) rest] obtain h2 where h2: "outbox s' = map h2 (outbox s1)"
    "\<forall>e\<in>set (outbox s1). if outbox_id e \<in> set oids \<and> outbox_claimable d now e then attempted now e (h2 e) else h2 e = e"
    by blast
  have "if outbox_id e \<in> set (oid # oids) \<and> outbox_claimable d now e then attempted now e (h2 (h e)) else h2 (h e) = e"
    if e: "e \<in> set (outbox s)" for e
  proof (cases "outbox_id e = oid")
    case True
    have "h e \<in> set (outbox s1)" using e h(1) by simp
    with h2(2) hid [OF e] True \<open>oid \<notin> set oids\<close> have "h2 (h e) = h e" by auto
    with h(2) e True show ?thesis by auto
  next
    case False
    with h(2) e have "h e = e" by auto
    moreover have "h e \<in> set (outbox s1)" using e h(1) by simp
    ultimately show ?thesis using h2(2) False by auto
  qed
  moreover have "outbox s' = map (\<lambda>e. h2 (h e)) (outbox s)" by (simp add: h2(1) h(1))
  ultimately show ?case by (intro exI [of _ "\<lambda>e. h2 (h e)"]) auto
qed

lemma due_ids:
  assumes "distinct (map outbox_id (outbox s))"
  shows "distinct (map outbox_id (filter (outbox_due d now) (outbox s)))"
    "\<And>e. e \<in> set (outbox s) \<Longrightarrow> outbox_id e \<in> set (map outbox_id (filter (outbox_due d now) (outbox s))) \<longleftrightarrow> outbox_due d now e"
proof -
  show "distinct (map outbox_id (filter (outbox_due d now) (outbox s)))" using assms by (rule distinct_map_filter)
  show "outbox_id e \<in> set (map outbox_id (filter (outbox_due d now) (outbox s))) \<longleftrightarrow> outbox_due d now e"
    if "e \<in> set (outbox s)" for e
    using assms that by (auto simp: distinct_map inj_on_def)
qed

lemma dispatch_pending_sound:
  "sender_ok d \<Longrightarrow> inv_db s \<Longrightarrow> dispatch_pending d now s = Inr (n, ids, s') \<Longrightarrow> sound s s'"
  unfolding dispatch_pending_def by (rule dispatch_loop_sound)

lemma worker_sender_ok:
  assumes "dp_sender d = Some (deliver (worker_delivery gw cl)) \<or> dp_sender d = None"
  shows "sender_ok d"
  using assms by (auto simp: sender_ok_def deliver_outbox deliver_sound)

text \<open>A pass over an event whose target answers with a non-finite delay raises.\<close>

lemma dispatch_loop_poison:
  assumes ok: "sender_ok d" and f: "dp_sender d = Some f"
    and poison: "\<And>x u. outbox_id x = oid \<Longrightarrow> fst (f x now u) = Some (HttpStatusError (Some RaNonFinite))"
  shows "distinct (map outbox_id (outbox s)) \<Longrightarrow> distinct oids \<Longrightarrow> oid \<in> set oids \<Longrightarrow>
    e \<in> set (outbox s) \<Longrightarrow> outbox_id e = oid \<Longrightarrow> outbox_claimable d now e \<Longrightarrow> o_event_type e = ''callback'' \<Longrightarrow>
    attempt_count e < 4 \<Longrightarrow> isl (dispatch_loop d now oids s)"
proof (induction oids arbitrary: s)
  case (Cons o1 oids)
  show ?case
  proof (cases "dispatch_one d now o1 s")
    case (Inr b)
    obtain n1 ids1 s1 where b: "b = (n1, ids1, s1)" by (metis prod_cases3)
    from dispatch_one_rows [OF Cons.prems(1) ok Inr [unfolded b]] obtain h where h: "outbox s1 = map h (outbox s)"
      "\<forall>e\<in>set (outbox s). if outbox_id e = o1 \<and> outbox_claimable d now e then attempted now e (h e) else h e = e" by blast
    show ?thesis
    proof (cases "o1 = oid")
      case True
      obtain c s2 where c: "claim_outbox d oid now s = (c, s2)" by fastforce
      then show ?thesis using Cons.prems(1)
      proof (cases rule: claim_outbox_cases)
        case none
        with Cons.prems(4,5,6) show ?thesis by blast
      next
        case (claimed x g)
        then have x: "x = e" using Cons.prems(1,4,5) by (auto simp: distinct_map inj_on_def)
        have "fst (f (g e) now s2) = Some (HttpStatusError (Some RaNonFinite))"
          by (rule poison) (simp add: claimed(6) Cons.prems(5))
        then show ?thesis
          using Inr c Cons.prems(7,8) True
          by (auto simp: dispatch_one_def claimed(4,6) x run_handler_def f retry_delay_seconds_def split: prod.split_asm)
      qed
    next
      case False
      have "outbox_id (h e) = outbox_id e" if "e \<in> set (outbox s)" for e
        using h(2) that attempted_id by (metis (full_types))
      then have d1: "distinct (map outbox_id (outbox s1))"
        using Cons.prems(1) by (simp add: h(1) comp_def cong: map_cong)
      have "h e = e" using h(2) Cons.prems(4,5) False by auto
      then have e1: "e \<in> set (outbox s1)" using h(1) Cons.prems(4) by (metis image_eqI list.set_map)
      have oid: "oid \<in> set oids" using Cons.prems(3) False by simp
      have "distinct oids" using Cons.prems(2) by simp
      from Cons.IH [OF d1 this oid e1 Cons.prems(5,6,7,8)] Inr b show ?thesis
        by (cases "dispatch_loop d now oids s1") simp_all
    qed
  qed simp
qed simp

section \<open>Properties\<close>

text \<open>What a pass promises. The row as the dispatcher claims it; what the answer of the handler
  makes of it: delivered when the handler returned, otherwise one more failure on record and
  either the delay that the exception asks for or, at the fifth failure, the dead letters.\<close>

definition claimed_row :: "dispatcher \<Rightarrow> time \<Rightarrow> outbox_event \<Rightarrow> outbox_event" where
  "claimed_row d now e = e\<lparr>o_status := ''delivering'', o_lease_owner := Some (dp_owner d),
     o_lease_expires_at := Some (now + seconds (dp_lease_seconds d))\<rparr>"

definition answered_row :: "time \<Rightarrow> delivery_exc option \<Rightarrow> outbox_event \<Rightarrow> outbox_event \<Rightarrow> bool" where
  "answered_row now out e e' \<longleftrightarrow> (case out of
     None \<Rightarrow> e' = e\<lparr>o_status := ''delivered'', o_lease_owner := None, o_lease_expires_at := None, delivered_at := Some now\<rparr>
   | Some exc \<Rightarrow> (\<exists>st next_at. e' = e\<lparr>o_status := st, o_lease_owner := None, o_lease_expires_at := None,
          attempt_count := attempt_count e + 1, next_attempt_at := next_at,
          last_error_code := Some (if o_event_type e = ''callback'' then ''CALLBACK_DELIVERY_FAILED''
            else ''DISPATCH_DELIVERY_FAILED'')\<rparr> \<and>
        (if attempt_count e + 1 \<ge> 5 then st = ''dead_letter'' \<and> next_at = None
         else st = ''pending'' \<and> (\<exists>delay. retry_delay_seconds now exc (attempt_count e + 1) = Inr delay \<and>
           1 \<le> delay \<and> delay \<le> 300 \<and> next_at = Some (now + seconds delay)))))"

text \<open>A sequence of handler calls, each with the event it was given, what it answered and the runs
  it notified. Between two calls only the outbox may be written, so that whatever else is in the
  database comes from exactly these calls, in this order.\<close>

type_synonym handler_call = "outbox_event \<times> delivery_exc option \<times> string list"

definition handled :: "dispatcher \<Rightarrow> time \<Rightarrow> handler_call list \<Rightarrow> outbox_event \<Rightarrow> outbox_event \<Rightarrow> bool" where
  "handled d now calls e e' \<longleftrightarrow>
     (\<exists>out is. (claimed_row d now e, out, is) \<in> set calls \<and> answered_row now out e e')"

inductive handler_runs :: "dispatcher \<Rightarrow> time \<Rightarrow> db \<Rightarrow> handler_call list \<Rightarrow> db \<Rightarrow> bool" for d now where
  no_call: "handler_runs d now s [] (s\<lparr>outbox := os\<rparr>)"
| one_call: "run_handler d x now (s\<lparr>outbox := os\<rparr>) = (out, ids, s1) \<Longrightarrow> handler_runs d now s1 calls s2 \<Longrightarrow>
    handler_runs d now s ((x, out, ids) # calls) s2"

lemma handler_runs_outbox: "handler_runs d now s calls s' \<Longrightarrow> handler_runs d now s calls (s'\<lparr>outbox := os\<rparr>)"
  by (induction rule: handler_runs.induct) (auto intro: handler_runs.intros)

lemma handler_runs_from:
  assumes "handler_runs d now (s\<lparr>outbox := os\<rparr>) calls s'"
  shows "handler_runs d now s calls s'"
  using assms
proof (cases rule: handler_runs.cases)
  case (no_call os')
  then show ?thesis using handler_runs.no_call [where s = s and os = os'] by simp
next
  case (one_call x os' out ids s1 calls')
  then show ?thesis using handler_runs.one_call [where s = s and os = os' and x = x] by simp
qed

lemma handled_Cons: "handled d now calls e e' \<Longrightarrow> handled d now (cl # calls) e e'"
  by (auto simp: handled_def)

lemma filter_key_one:
  assumes "distinct (map k xs)" "x \<in> set xs"
  shows "filter (\<lambda>y. k y = k x \<and> q y) xs = (if q x then [x] else [])"
  using assms by (induction xs) (auto simp: filter_empty_conv image_iff)

text \<open>One claimed event, exactly.\<close>

lemma dispatch_one_call:
  assumes dist: "distinct (map outbox_id (outbox s))" and ok: "sender_ok d"
    and one: "dispatch_one d now oid s = Inr (n, ids, s')"
  obtains (none) "filter (\<lambda>e. outbox_id e = oid \<and> outbox_claimable d now e) (outbox s) = []" "n = 0" "ids = []" "s' = s"
  | (call) e e' out os os' s2 where "filter (\<lambda>e. outbox_id e = oid \<and> outbox_claimable d now e) (outbox s) = [e]"
      "e \<in> set (outbox s)" "outbox_id e = oid" "outbox_claimable d now e"
      "run_handler d (claimed_row d now e) now (s\<lparr>outbox := os\<rparr>) = (out, ids, s2)" "s' = s2\<lparr>outbox := os'\<rparr>"
      "n = (if out = None then 1 else 0)"
      "os' = map (\<lambda>x. if outbox_id x = oid then e' else x) (outbox s)" "answered_row now out e e'"
proof -
  obtain c s1 where c: "claim_outbox d oid now s = (c, s1)" by fastforce
  then show ?thesis using dist
  proof (cases rule: claim_outbox_cases)
    case none
    then have "filter (\<lambda>e. outbox_id e = oid \<and> outbox_claimable d now e) (outbox s) = []"
      by (auto simp: filter_empty_conv)
    with that(1) none one c show ?thesis by (simp add: dispatch_one_def)
  next
    case (claimed x g)
    have g: "g = claimed_row d now" by (simp add: claimed(6) claimed_row_def fun_eq_iff)
    obtain out nids s2 where h: "run_handler d (g x) now s1 = (out, nids, s2)" by (metis prod_cases3)
    note fr = run_handler_frame(1) [OF ok h]
    have gx: "attempt_count (g x) = attempt_count x" "\<And>e. outbox_id (g e) = outbox_id e"
      by (simp_all add: g claimed_row_def)
    have uniq: "e = x" if "e \<in> set (outbox s)" "outbox_id e = oid" for e
      using dist that claimed(1,2) by (auto simp: distinct_map inj_on_def)
    obtain f where s': "s' = set_outbox oid f s2" and f: "answered_row now out x (f (g x))"
      and n: "n = (if out = None then 1 else 0)" "ids = nids"
    proof (cases out)
      case None
      with one c h claimed(4) that [of "delivered_row now"] show ?thesis
        by (auto simp: dispatch_one_def answered_row_def g claimed_row_def delivered_row_def)
    next
      case (Some exc)
      show ?thesis
      proof (cases "attempt_count x + 1 \<ge> 5")
        case True
        with one c h claimed(4) Some gx(1) that [of "failed_row ''dead_letter'' None"] show ?thesis
          by (auto simp: dispatch_one_def answered_row_def g claimed_row_def failed_row_def)
      next
        case False
        with one c h claimed(4) Some gx(1) obtain k where k: "retry_delay_seconds now exc (attempt_count x + 1) = Inr k"
          and s': "s' = set_outbox oid (failed_row ''pending'' (Some (now + seconds k))) s2" "n = 0" "ids = nids"
          by (auto simp: dispatch_one_def res_simps)
        have "answered_row now out x (failed_row ''pending'' (Some (now + seconds k)) (g x))"
          using False k retry_delay_bounds [OF k] unfolding answered_row_def Some option.case
          by (intro exI [of _ "''pending''"] exI [of _ "Some (now + seconds k)"])
             (auto simp: g claimed_row_def failed_row_def)
        with s' Some show ?thesis by (intro that [of "failed_row ''pending'' (Some (now + seconds k))"]) simp_all
      qed
    qed
    have fl: "filter (\<lambda>e. outbox_id e = oid \<and> outbox_claimable d now e) (outbox s) = [x]"
      using filter_key_one [OF dist claimed(1)] claimed(2,3) by simp
    have s1: "s1 = s\<lparr>outbox := outbox s1\<rparr>" by (simp add: claimed(5) set_outbox_def)
    have o: "outbox s' = map (\<lambda>e. if outbox_id e = oid then f (g x) else e) (outbox s)"
    proof -
      have "outbox s' = outbox (set_outbox oid f s1)" using fr by (simp add: s' set_outbox_def)
      also have "\<dots> = map (\<lambda>e. if outbox_id e = oid then f (g e) else e) (outbox s)"
        using set_outbox_twice [OF gx(2)] by (simp add: claimed(5))
      also have "\<dots> = map (\<lambda>e. if outbox_id e = oid then f (g x) else e) (outbox s)"
        using uniq by (intro map_cong) auto
      finally show ?thesis .
    qed
    have "s' = s2\<lparr>outbox := map (\<lambda>e. if outbox_id e = oid then f (g x) else e) (outbox s)\<rparr>"
      unfolding o [symmetric] by (simp add: s' set_outbox_def)
    from that(2) [OF fl claimed(1-3) _ this n(1) refl f] h s1 g n(2) show ?thesis by metis
  qed
qed

lemma filter_map_other:
  assumes "\<And>x. x \<in> set xs \<Longrightarrow> k (h x) = k x \<and> (k x \<noteq> i \<longrightarrow> h x = x)" "j \<noteq> i"
  shows "filter (\<lambda>x. k x = j \<and> q x) (map h xs) = filter (\<lambda>x. k x = j \<and> q x) xs"
  using assms(1) by (induction xs) (use assms(2) in force)+

definition claims_of :: "dispatcher \<Rightarrow> time \<Rightarrow> outbox_event list \<Rightarrow> string list \<Rightarrow> outbox_event list" where
  "claims_of d now es oids = concat (map (\<lambda>oid. filter (\<lambda>e. outbox_id e = oid \<and> outbox_claimable d now e) es) oids)"

lemma dispatch_loop_calls:
  assumes ok: "sender_ok d"
  shows "distinct (map outbox_id (outbox s)) \<Longrightarrow> distinct oids \<Longrightarrow> dispatch_loop d now oids s = Inr (n, ids, s') \<Longrightarrow>
    \<exists>calls h. handler_runs d now s calls s' \<and> map fst calls = map (claimed_row d now) (claims_of d now (outbox s) oids) \<and>
      n = length (filter (\<lambda>(x, out, is). out = None) calls) \<and> ids = concat (map (snd \<circ> snd) calls) \<and>
      outbox s' = map h (outbox s) \<and>
      (\<forall>e\<in>set (outbox s). if outbox_id e \<in> set oids \<and> outbox_claimable d now e
         then handled d now calls e (h e) else h e = e)"
proof (induction oids arbitrary: s n ids)
  case Nil
  then have "handler_runs d now s [] s'" using handler_runs.no_call [where s = s and os = "outbox s"] by simp
  with Nil show ?case
    by (intro exI [of _ "[]"] exI [of _ "\<lambda>e. e"]) (simp add: claims_of_def)
next
  case (Cons oid oids)
  from Cons.prems(3) obtain n1 ids1 s1 n2 ids2 where one: "dispatch_one d now oid s = Inr (n1, ids1, s1)"
    and rest: "dispatch_loop d now oids s1 = Inr (n2, ids2, s')" and tot: "n = n1 + n2" "ids = ids1 @ ids2"
    by (auto simp: res_simps)
  have dist': "oid \<notin> set oids" "distinct oids" using Cons.prems(2) by simp_all
  from Cons.prems(1) ok one show ?case
  proof (cases rule: dispatch_one_call)
    case none
    from Cons.IH [OF Cons.prems(1) dist'(2) rest [unfolded none(4)]] obtain calls h where
      ih: "handler_runs d now s calls s'" "map fst calls = map (claimed_row d now) (claims_of d now (outbox s) oids)"
        "n2 = length (filter (\<lambda>(x, out, is). out = None) calls)" "ids2 = concat (map (snd \<circ> snd) calls)"
        "outbox s' = map h (outbox s)"
        "\<forall>e\<in>set (outbox s). if outbox_id e \<in> set oids \<and> outbox_claimable d now e
         then handled d now calls e (h e) else h e = e" by blast
    have nc: "\<not> outbox_claimable d now e" if "e \<in> set (outbox s)" "outbox_id e = oid" for e
      using none(1) that by (auto simp: filter_empty_conv)
    have "\<forall>e\<in>set (outbox s). if outbox_id e \<in> set (oid # oids) \<and> outbox_claimable d now e
         then handled d now calls e (h e) else h e = e"
      using ih(6) nc by auto
    with ih(1-5) none tot show ?thesis
      by (intro exI [of _ calls] exI [of _ h]) (simp add: claims_of_def comp_def)
  next
    case (call e e' out os os' s2)
    let ?h1 = "\<lambda>x. if outbox_id x = oid then e' else x"
    have s1o: "outbox s1 = map ?h1 (outbox s)" by (simp add: call(6,8))
    have e'id: "outbox_id e' = oid"
      using call(9,3) by (auto simp: answered_row_def split: option.split_asm)
    then have kid: "\<And>x. outbox_id (?h1 x) = outbox_id x \<and> (outbox_id x \<noteq> oid \<longrightarrow> ?h1 x = x)" by simp
    then have d1: "distinct (map outbox_id (outbox s1))"
      using Cons.prems(1) by (simp add: s1o comp_def cong: map_cong)
    from Cons.IH [OF d1 dist'(2) rest] obtain calls h where
      ih: "handler_runs d now s1 calls s'" "map fst calls = map (claimed_row d now) (claims_of d now (outbox s1) oids)"
        "n2 = length (filter (\<lambda>(x, out, is). out = None) calls)" "ids2 = concat (map (snd \<circ> snd) calls)"
        "outbox s' = map h (outbox s1)"
        "\<forall>x\<in>set (outbox s1). if outbox_id x \<in> set oids \<and> outbox_claimable d now x
         then handled d now calls x (h x) else h x = x" by blast
    have same: "claims_of d now (outbox s1) oids = claims_of d now (outbox s) oids"
      unfolding claims_of_def s1o
      by (intro arg_cong [where f = concat] map_cong refl filter_map_other [where i = oid])
         (use kid dist'(1) in auto)
    have uniq: "x = e" if "x \<in> set (outbox s)" "outbox_id x = oid" for x
      using Cons.prems(1) that call(2,3) by (auto simp: distinct_map inj_on_def)
    have runs: "handler_runs d now s ((claimed_row d now e, out, ids1) # calls) s'"
      using ih(1) unfolding call(6)
      by (rule handler_runs.one_call [OF call(5) handler_runs_from])
    have rows: "if outbox_id x \<in> set (oid # oids) \<and> outbox_claimable d now x
         then handled d now ((claimed_row d now e, out, ids1) # calls) x (h (?h1 x)) else h (?h1 x) = x" if x: "x \<in> set (outbox s)" for x
    proof (cases "outbox_id x = oid")
      case True
      then have "e' \<in> set (outbox s1)" using x unfolding s1o by force
      with ih(6) e'id dist'(1) have "h e' = e'" by auto
      with True uniq [OF x True] call(4,9) show ?thesis by (auto simp: handled_def)
    next
      case False
      then have "x \<in> set (outbox s1)" using x unfolding s1o by force
      with ih(6) False handled_Cons show ?thesis by auto
    qed
    have "outbox s' = map (\<lambda>x. h (?h1 x)) (outbox s)" by (simp add: ih(5) s1o comp_def)
    moreover have "map fst ((claimed_row d now e, out, ids1) # calls) = map (claimed_row d now) (claims_of d now (outbox s) (oid # oids))"
      using ih(2) same call(1) by (simp add: claims_of_def)
    moreover have "n = length (filter (\<lambda>(x, out, is). out = None) ((claimed_row d now e, out, ids1) # calls))"
      using tot call(7) ih(3) by simp
    moreover have "ids = concat (map (snd \<circ> snd) ((claimed_row d now e, out, ids1) # calls))"
      using tot ih(4) by simp
    ultimately show ?thesis using runs rows
      by - (rule exI [of _ "(claimed_row d now e, out, ids1) # calls"], rule exI [of _ "\<lambda>x. h (?h1 x)"], intro conjI ballI)
  qed
qed

lemma claims_of_due:
  assumes "distinct (map outbox_id es)"
  shows "claims_of d now es (map outbox_id (filter (outbox_due d now) es)) =
    filter (\<lambda>e. outbox_due d now e \<and> outbox_claimable d now e) es"
proof -
  have one: "filter (\<lambda>x. outbox_id x = outbox_id e \<and> outbox_claimable d now x) es = (if outbox_claimable d now e then [e] else [])"
    if "e \<in> set es" for e
    by (rule filter_key_one [OF assms that])
  have "concat (map (\<lambda>e. filter (\<lambda>x. outbox_id x = outbox_id e \<and> outbox_claimable d now x) es) xs) =
      filter (outbox_claimable d now) xs" if "set xs \<subseteq> set es" for xs
    using that by (induction xs) (auto simp: one)
  from this [of "filter (outbox_due d now) es"] show ?thesis
    by (simp only: claims_of_def map_map comp_def filter_filter) auto
qed

text \<open>C17. A completed dispatcher pass hands every due event whose lease is free to its handler
  exactly once, in the order of the outbox and as the claimed row, and does nothing else to the
  database. What the handler answers decides the row: delivered exactly when it returned,
  otherwise back in the queue with one more attempt and the delay its exception asks for, between
  one second and five minutes, or, at the fifth failure, in the dead letters. Every other row of
  the outbox is unchanged; the count is the number of deliveries and the returned runs are those
  the handlers notified.\<close>

theorem dispatch_pass_settles:
  assumes dist: "distinct (map outbox_id (outbox s))" and ok: "sender_ok d"
    and p: "dispatch_pending d now s = Inr (n, ids, s')"
  shows "\<exists>calls. handler_runs d now s calls s' \<and>
    map fst calls = map (claimed_row d now) (filter (\<lambda>e. outbox_due d now e \<and> outbox_claimable d now e) (outbox s)) \<and>
    list_all2 (\<lambda>e e'. if outbox_due d now e \<and> outbox_claimable d now e
        then handled d now calls e e' else e' = e)
      (outbox s) (outbox s') \<and>
    n = length (filter (\<lambda>(x, out, is). out = None) calls) \<and> ids = concat (map (snd \<circ> snd) calls)"
proof -
  from dispatch_loop_calls [OF ok dist due_ids(1) [OF dist] p [unfolded dispatch_pending_def]] obtain calls h where
    c: "handler_runs d now s calls s'" "n = length (filter (\<lambda>(x, out, is). out = None) calls)"
      "ids = concat (map (snd \<circ> snd) calls)"
      "map fst calls = map (claimed_row d now)
        (claims_of d now (outbox s) (map outbox_id (filter (outbox_due d now) (outbox s))))"
      "outbox s' = map h (outbox s)"
      "\<forall>e\<in>set (outbox s). if outbox_id e \<in> set (map outbox_id (filter (outbox_due d now) (outbox s))) \<and> outbox_claimable d now e
         then handled d now calls e (h e) else h e = e" by blast
  have "if outbox_due d now e \<and> outbox_claimable d now e
      then handled d now calls e (h e) else h e = e"
    if "e \<in> set (outbox s)" for e
    using c(6) that due_ids(2) [OF dist that, of d now] by auto
  then have "list_all2 (\<lambda>e e'. if outbox_due d now e \<and> outbox_claimable d now e
        then handled d now calls e e' else e' = e)
      (outbox s) (outbox s')"
    by (simp add: c(5) list_all2_map2 list_all2_same)
  with c(1-4) claims_of_due [OF dist] show ?thesis by (intro exI [of _ calls]) simp
qed

definition demo_dispatcher :: "gateway \<Rightarrow> dispatcher" where
  "demo_dispatcher gw = \<lparr>dp_owner = ''d'', dp_lease_seconds = 30, dp_notify = (\<lambda>_. None),
     dp_sender = Some (deliver (worker_delivery gw demo_clients))\<rparr>"

theorem dispatch_pass_settles_witness:
  "\<exists>ids s'. dispatch_pending (demo_dispatcher demo_gateway) 9 demo_emitted = Inr (1, ids, s') \<and>
     answered_row 9 None (last (outbox demo_emitted)) (last (outbox s'))"
proof -
  let ?d = "demo_dispatcher demo_gateway"
  have "case dispatch_pending ?d 9 demo_emitted of Inl _ \<Rightarrow> False | Inr (n, ids, s') \<Rightarrow> n = 1" by code_simp
  then obtain ids s' where p: "dispatch_pending ?d 9 demo_emitted = Inr (1, ids, s')"
    by (auto split: sum.split_asm)
  have dist: "distinct (map outbox_id (outbox demo_emitted))" by code_simp
  have ok: "sender_ok ?d" by (rule worker_sender_ok) (simp add: demo_dispatcher_def)
  have "length (outbox demo_emitted) = 1" by code_simp
  then obtain e where e: "outbox demo_emitted = [e]" by (cases "outbox demo_emitted") auto
  have due: "outbox_due ?d 9 (last (outbox demo_emitted)) \<and> outbox_claimable ?d 9 (last (outbox demo_emitted))" by code_simp
  note settles = dispatch_pass_settles [OF dist ok p]
  obtain calls where c: "map fst calls = [claimed_row ?d 9 e]"
    "list_all2 (\<lambda>x x'. if outbox_due ?d 9 x \<and> outbox_claimable ?d 9 x then handled ?d 9 calls x x' else x' = x)
      (outbox demo_emitted) (outbox s')" "1 = length (filter (\<lambda>(x, out, is). out = None) calls)"
    using settles e due by (elim exE conjE) (simp only: e last.simps filter.simps list.map simp_thms if_True)
  from c(1,3) obtain nids where "calls = [(claimed_row ?d 9 e, None, nids)]"
    by (cases calls) (auto split: if_split_asm)
  with c(2) e due have "\<exists>e'. outbox s' = [e'] \<and> answered_row 9 None e e'"
    by (auto simp: list_all2_Cons1 handled_def)
  with p e show ?thesis by auto
qed

text \<open>A callback target can stop the dispatcher: when a due callback of fewer than four failures is answered with an HTTP
  error whose Retry-After header reads as an infinite or undefined number, the pass raises, so
  that nothing of it is committed, and so does every later pass that selects the event.\<close>

lemma retry_after_aborts_pass:
  assumes ok: "sender_ok d" and dist: "distinct (map outbox_id (outbox s))"
    and e: "e \<in> set (outbox s)" "outbox_due d now e" "outbox_claimable d now e" "o_event_type e = ''callback''" "attempt_count e < 4"
    and f: "dp_sender d = Some f"
    and poison: "\<And>x u. outbox_id x = outbox_id e \<Longrightarrow> fst (f x now u) = Some (HttpStatusError (Some RaNonFinite))"
  shows "\<exists>err. dispatch_pending d now s = Inl err"
proof -
  have "isl (dispatch_pending d now s)"
    unfolding dispatch_pending_def
    by (rule dispatch_loop_poison [OF ok f poison dist due_ids(1) [OF dist] _ e(1) _ e(3,4,5)])
       (use due_ids(2) [OF dist e(1)] e(2) in simp_all)
  then show ?thesis by (cases "dispatch_pending d now s") simp_all
qed

definition demo_poison_dispatcher :: dispatcher where
  "demo_poison_dispatcher = (demo_dispatcher demo_gateway)\<lparr>dp_sender :=
     Some (\<lambda>e now s. (Some (HttpStatusError (Some RaNonFinite)), s))\<rparr>"

end
