(* ===== verification/Checkpoint_Store.thy ===== *)
theory Checkpoint_Store
  imports Run_Service
begin

text \<open>
  Encrypted checkpoints (\<open>app/runtime/checkpoint.py\<close>) and node artifacts
  (\<open>app/runtime/artifact.py\<close>). The symmetric cipher, the digest and the JSON text codec are the
  parameter \<open>codec\<close>; what the store relies on is that they return what they were given
  (\<open>codec_returns\<close>). \<open>CheckpointError\<close> carries a code for the message of the source.
\<close>

section \<open>Cipher\<close>

record codec =
  json_dumps :: "dict \<Rightarrow> string"
  json_loads :: "string \<Rightarrow> json option"
  fernet_encrypt :: "string \<Rightarrow> string"
  fernet_decrypt :: "string \<Rightarrow> string option"
  sha256 :: "string \<Rightarrow> string"

definition encrypt :: "codec \<Rightarrow> dict \<Rightarrow> string" where
  "encrypt cd state = fernet_encrypt cd (json_dumps cd state)"

definition decrypt :: "codec \<Rightarrow> string \<Rightarrow> runtime_error + dict" where
  "decrypt cd blob =
     (case Option.bind (fernet_decrypt cd blob) (json_loads cd) of
        None \<Rightarrow> Inl (CheckpointError ''undecryptable'')
      | Some (JObj d) \<Rightarrow> Inr d
      | Some _ \<Rightarrow> Inl (CheckpointError ''not_an_object''))"

text \<open>Decryption gives back the encrypted text, and parsing the dumped state gives an equal
  mapping (the dump sorts the keys).\<close>

definition codec_returns :: "codec \<Rightarrow> dict \<Rightarrow> bool" where
  "codec_returns cd state \<longleftrightarrow> (\<forall>p. fernet_decrypt cd (fernet_encrypt cd p) = Some p) \<and>
     (\<exists>d. json_loads cd (json_dumps cd state) = Some (JObj d) \<and> map_of d = map_of state)"

section \<open>Checkpoints\<close>

fun str_list :: "json \<Rightarrow> bool" where
  "str_list (JList xs) = list_all is_str xs"
| "str_list _ = False"

text \<open>\<open>isinstance(v, int)\<close> accepts booleans, which Python orders as 0 and 1.\<close>

definition nonneg_step_count :: "json \<Rightarrow> bool" where
  "nonneg_step_count v = (case v of JInt n \<Rightarrow> 0 \<le> n | JBool _ \<Rightarrow> True | _ \<Rightarrow> False)"

definition safe_summary :: "dict \<Rightarrow> dict" where
  "safe_summary state =
     (if str_list (dget state ''completed_node_ids'')
      then [(''completed_node_ids'', dget state ''completed_node_ids'')] else []) @
     (if str_list (dget state ''fallback_flags'')
      then [(''fallback_flags'', dget state ''fallback_flags'')] else []) @
     (if nonneg_step_count (dget state ''completed_steps'')
      then [(''completed_steps'', dget state ''completed_steps'')] else [])"

definition checkpoint_audit :: "string \<Rightarrow> agent_run \<Rightarrow> agent_checkpoint \<Rightarrow> time \<Rightarrow> db \<Rightarrow> db" where
  "checkpoint_audit act r c now s =
     append_audit_record ''worker''
       (case lease_owner r of None \<Rightarrow> ''unknown'' | Some w \<Rightarrow> if w = '''' then ''unknown'' else w)
       act ''agent_checkpoint'' (checkpoint_id c) None ''succeeded'' (Some (trace_id r))
       [(''run_id'', run_id r), (''privacy_version'', int_string (c_privacy_version c)),
        (''content_digest_prefix'', take 12 (c_content_digest c))] now s"

definition require_writable_run ::
  "string \<Rightarrow> lease_context \<Rightarrow> time \<Rightarrow> db \<Rightarrow> runtime_error + agent_run" where
  "require_writable_run rid ctx now s =
     (if \<not> can_write rid ctx now s then Inl (CheckpointError ''not_writable'')
      else (case find_run s rid of
          None \<Rightarrow> Inl (CheckpointError ''run_missing'') | Some r \<Rightarrow> Inr r))"

definition find_checkpoint :: "db \<Rightarrow> string \<Rightarrow> string \<Rightarrow> agent_checkpoint option" where
  "find_checkpoint s rid key = sel_one (\<lambda>c. c_run_id c = rid \<and> checkpoint_key c = key) (checkpoints s)"

definition save ::
  "codec \<Rightarrow> string \<Rightarrow> string \<Rightarrow> dict \<Rightarrow> lease_context \<Rightarrow> time \<Rightarrow> db \<Rightarrow> runtime_error + (string \<times> db)" where
  "save cd rid key state ctx now s =
     res_bind (require_writable_run rid ctx now s) (\<lambda>r.
     let blob = encrypt cd state; dg = sha256 cd blob in
     case find_checkpoint s rid key of
       None \<Rightarrow>
         (let (i, s1) = uuid4 s;
              c = \<lparr>checkpoint_id = i, c_run_id = rid, checkpoint_key = key,
                   state_schema_version = ''1.0.0'', data_classification = ''runtime_private_encrypted'',
                   c_privacy_version = x_privacy_version ctx, encrypted_state_blob = Some blob,
                   storage_ref = None, state_summary = safe_summary state, c_content_digest = dg,
                   c_expires_at = run_deadline_at r, c_created_at = now\<rparr>
          in Inr (i, checkpoint_audit ''checkpoint_saved'' r c now
               (s1\<lparr>checkpoints := checkpoints s1 @ [c]\<rparr>)))
     | Some c0 \<Rightarrow>
         (let f = (\<lambda>c. c\<lparr>c_privacy_version := x_privacy_version ctx, c_content_digest := dg,
                   encrypted_state_blob := Some blob, storage_ref := None,
                   state_summary := safe_summary state, c_expires_at := run_deadline_at r\<rparr>)
          in Inr (checkpoint_id c0, checkpoint_audit ''checkpoint_saved'' r (f c0) now
               (s\<lparr>checkpoints := upd_where (\<lambda>c. c_run_id c = rid \<and> checkpoint_key c = key) f
                    (checkpoints s)\<rparr>))))"

text \<open>\<open>ORDER BY created_at DESC, id DESC\<close>: the last row among those created last.\<close>

fun newest :: "agent_checkpoint list \<Rightarrow> agent_checkpoint option" where
  "newest [] = None"
| "newest (c # cs) =
     (case newest cs of
        None \<Rightarrow> Some c
      | Some b \<Rightarrow> if c_created_at b < c_created_at c then Some c else Some b)"

definition load_latest ::
  "codec \<Rightarrow> string \<Rightarrow> lease_context \<Rightarrow> time \<Rightarrow> db \<Rightarrow> runtime_error + (dict \<times> db)" where
  "load_latest cd rid ctx now s =
     res_bind (require_writable_run rid ctx now s) (\<lambda>r.
     case newest (filter (\<lambda>c. c_run_id c = rid) (checkpoints s)) of
       None \<Rightarrow> Inl (CheckpointError ''none'')
     | Some c \<Rightarrow>
         res_bind (ensure (c_privacy_version c = x_privacy_version ctx) (CheckpointError ''privacy_version'')) (\<lambda>_.
         case encrypted_state_blob c of
           None \<Rightarrow> Inl (CheckpointError ''no_state'')
         | Some blob \<Rightarrow>
             res_bind (ensure (now < c_expires_at c) (CheckpointError ''expired'')) (\<lambda>_.
             res_bind (decrypt cd blob) (\<lambda>state.
             Inr (state, checkpoint_audit ''checkpoint_loaded'' r c now s)))))"

definition purge_for_run ::
  "string \<Rightarrow> lease_context \<Rightarrow> time \<Rightarrow> db \<Rightarrow> runtime_error + (nat \<times> db)" where
  "purge_for_run rid ctx now s =
     res_bind (require_writable_run rid ctx now s) (\<lambda>r.
     let existing = filter (\<lambda>c. c_run_id c = rid) (checkpoints s) in
     if existing = [] then Inr (0, s)
     else Inr (length existing,
            fold (\<lambda>c s. checkpoint_audit ''checkpoint_purged'' r c now s) existing
              (s\<lparr>checkpoints := del_where (\<lambda>c. c_run_id c = rid) (checkpoints s)\<rparr>)))"

section \<open>Artifacts\<close>

definition save_node_result ::
  "codec \<Rightarrow> string \<Rightarrow> string \<Rightarrow> dict \<Rightarrow> lease_context \<Rightarrow> time \<Rightarrow> db \<Rightarrow> runtime_error + (string \<times> db)" where
  "save_node_result cd rid node result ctx now s =
     (if \<not> can_write rid ctx now s then Inl (ArtifactError ''not_writable'')
      else if node = '''' then Inl (ArtifactError ''empty_node_id'')
      else (case find_run s rid of
          None \<Rightarrow> Inl AssertionError
        | Some r \<Rightarrow>
            (let summary = [(''node_id'', JStr node), (''result_keys'', JList (map JStr (sort (map fst result))))];
                 (i, s1) = uuid4 s
             in Inr (i, s1\<lparr>artifacts := artifacts s1 @ [\<lparr>artifact_id = i, a_run_id = rid,
                  artifact_type = ''workflow_node_result'', a_schema_version = ''1.0.0'',
                  a_content_digest = sha256 cd (json_dumps cd summary), summary_json = JObj summary,
                  business_resource_ref = ''business://'' @ business_type r @ ''/'' @ business_id r\<rparr>]\<rparr>))))"

section \<open>Soundness\<close>

lemma option_raise_eq:
  "(case x of None \<Rightarrow> Inl e | Some y \<Rightarrow> f y) = Inr z \<longleftrightarrow> (\<exists>y. x = Some y \<and> f y = Inr z)"
  by (cases x) auto

lemma checkpoint_audit_frame [frame_simps]:
  "runs (checkpoint_audit act r c now s) = runs s"
  "buckets (checkpoint_audit act r c now s) = buckets s"
  "callbacks (checkpoint_audit act r c now s) = callbacks s"
  "definitions (checkpoint_audit act r c now s) = definitions s"
  "plans (checkpoint_audit act r c now s) = plans s"
  "steps (checkpoint_audit act r c now s) = steps s"
  "checkpoints (checkpoint_audit act r c now s) = checkpoints s"
  "usages (checkpoint_audit act r c now s) = usages s"
  "uuid_counter (checkpoint_audit act r c now s) = Suc (uuid_counter s)"
  by (simp_all add: checkpoint_audit_def frame_simps)

lemma audit_fold_frame [frame_simps]:
  "runs (fold (\<lambda>c. checkpoint_audit act r c now) cs s) = runs s"
  "buckets (fold (\<lambda>c. checkpoint_audit act r c now) cs s) = buckets s"
  "callbacks (fold (\<lambda>c. checkpoint_audit act r c now) cs s) = callbacks s"
  "definitions (fold (\<lambda>c. checkpoint_audit act r c now) cs s) = definitions s"
  "plans (fold (\<lambda>c. checkpoint_audit act r c now) cs s) = plans s"
  "steps (fold (\<lambda>c. checkpoint_audit act r c now) cs s) = steps s"
  "checkpoints (fold (\<lambda>c. checkpoint_audit act r c now) cs s) = checkpoints s"
  "usages (fold (\<lambda>c. checkpoint_audit act r c now) cs s) = usages s"
  by (induction cs arbitrary: s) (simp_all add: frame_simps)

lemma audit_fold_uuid: "uuid_counter s \<le> uuid_counter (fold (\<lambda>c. checkpoint_audit act r c now) cs s)"
proof (induction cs arbitrary: s)
  case (Cons c cs)
  from Cons.IH [of "checkpoint_audit act r c now s"] show ?case by (simp add: frame_simps)
qed simp

text \<open>What every operation of the stores leaves alone.\<close>

definition ledger_same :: "db \<Rightarrow> db \<Rightarrow> bool" where
  "ledger_same s s' \<longleftrightarrow> runs s' = runs s \<and> buckets s' = buckets s \<and> callbacks s' = callbacks s \<and>
     definitions s' = definitions s \<and> plans s' = plans s \<and> steps s' = steps s \<and> usages s' = usages s \<and>
     uuid_counter s \<le> uuid_counter s'"

lemma ledger_same_sound: "inv_db s \<Longrightarrow> ledger_same s s' \<Longrightarrow> sound s s'"
  by (rule sound_frame) (simp_all add: ledger_same_def)

lemma save_same: "save cd rid key state ctx now s = Inr (i, s') \<Longrightarrow> ledger_same s s'"
  by (auto simp: save_def res_simps Let_def uuid4_def ledger_same_def frame_simps
      split: option.split_asm)

lemma load_latest_same: "load_latest cd rid ctx now s = Inr (d, s') \<Longrightarrow> ledger_same s s'"
  by (auto simp: load_latest_def res_simps option_raise_eq ledger_same_def frame_simps)

lemma purge_for_run_same: "purge_for_run rid ctx now s = Inr (n, s') \<Longrightarrow> ledger_same s s'"
  by (auto simp: purge_for_run_def res_simps Let_def ledger_same_def frame_simps
      split: if_split_asm intro: order_trans [OF _ audit_fold_uuid])

lemma save_node_result_same: "save_node_result cd rid node d ctx now s = Inr (i, s') \<Longrightarrow> ledger_same s s'"
  by (auto simp: save_node_result_def Let_def uuid4_def ledger_same_def split: if_split_asm option.split_asm)

section \<open>Properties\<close>

lemma newest_append: "\<forall>b\<in>set cs. c_created_at b \<le> c_created_at c \<Longrightarrow> newest (cs @ [c]) = Some c"
  by (induction cs) auto

lemma can_write_checkpoints [simp]: "can_write rid ctx now (s\<lparr>checkpoints := cs\<rparr>) = can_write rid ctx now s"
  by (simp add: can_write_def find_run_def package_executable_def find_definition_def cong: option.case_cong)

lemma can_write_same: "ledger_same s s' \<Longrightarrow> can_write rid ctx now s' = can_write rid ctx now s"
  by (simp add: can_write_def find_run_def package_executable_def find_definition_def ledger_same_def
      cong: option.case_cong)

lemma find_run_same: "ledger_same s s' \<Longrightarrow> find_run s' rid = find_run s rid"
  by (simp add: find_run_def ledger_same_def)

text \<open>A checkpoint saved under a new key is what a later holder reads: the database may have moved
  on and the lease may be another one, as long as no checkpoint of the run was written since.\<close>

lemma load_after_save:
  assumes cd: "codec_returns cd state"
    and sv: "save cd rid key state ctx now s = Inr (i, s1)"
    and fresh: "find_checkpoint s rid key = None"
    and order: "\<And>c. c \<in> set (checkpoints s) \<Longrightarrow> c_created_at c \<le> now"
    and later: "advances s1 s2"
    and same: "filter (\<lambda>c. c_run_id c = rid) (checkpoints s2) = filter (\<lambda>c. c_run_id c = rid) (checkpoints s1)"
    and cw: "can_write rid ctx' now' s2" and priv: "x_privacy_version ctx' = x_privacy_version ctx"
  shows "\<exists>d s3. load_latest cd rid ctx' now' s2 = Inr (d, s3) \<and> map_of d = map_of state"
proof -
  from sv fresh obtain r c where r: "find_run s rid = Some r"
    and c: "checkpoints s1 = checkpoints s @ [c]" "c_run_id c = rid" "c_created_at c = now"
      "c_privacy_version c = x_privacy_version ctx" "encrypted_state_blob c = Some (encrypt cd state)"
      "c_expires_at c = run_deadline_at r"
    by (auto simp: save_def require_writable_run_def res_simps Let_def uuid4_def frame_simps split: if_split_asm option.split_asm)
  have "find_run s1 rid = Some r" using find_run_same [OF save_same [OF sv]] r by simp
  then obtain q where q: "find_run s2 rid = Some q" "run_deadline_at q = run_deadline_at r"
    using later by (force simp: advances_def run_le_def same_identity_def)
  then have live: "now' < run_deadline_at r" using cw by (simp add: can_write_def)
  have new: "newest (filter (\<lambda>c. c_run_id c = rid) (checkpoints s2)) = Some c"
    using order newest_append [of "filter (\<lambda>c. c_run_id c = rid) (checkpoints s)" c] by (auto simp: same c)
  obtain d where "decrypt cd (encrypt cd state) = Inr d" "map_of d = map_of state"
    using cd by (auto simp: codec_returns_def decrypt_def encrypt_def)
  then show ?thesis
    using cw q new live priv by (simp add: load_latest_def require_writable_run_def c)
qed

definition demo_context :: lease_context where
  "demo_context = \<lparr>x_execution_attempt = 1, x_lease_owner = ''w'', x_fencing_token = 1,
     x_lease_expires_at = seconds 60, x_privacy_version = 1, x_authorization_version = 1\<rparr>"

definition demo_codec :: codec where
  "demo_codec = \<lparr>json_dumps = (\<lambda>_. ''p''), json_loads = (\<lambda>_. Some (JObj [(''completed_steps'', JInt 1)])),
     fernet_encrypt = (\<lambda>p. CHR ''x'' # p), fernet_decrypt = (\<lambda>b. if b = [] then None else Some (tl b)),
     sha256 = (\<lambda>p. p)\<rparr>"

end
