(* ===== verification/Model_Usage.thy ===== *)
theory Model_Usage
  imports Lease
begin

text \<open>
  The ledger of model calls (\<open>app/services/model_usage_service.py\<close>) and the trusted call
  context derived from the run and step rows (\<open>ModelCallContext\<close> in
  \<open>app/runtime/model_gateway.py\<close>). A route is the part of \<open>ModelRoute\<close> the ledger reads; its
  prices are validated non-negative finite numbers.
\<close>

section \<open>Routes and call contexts\<close>

record model_route =
  rt_route_id :: string
  rt_provider :: string
  rt_model :: string
  rt_price_unit :: string
  rt_input_price :: rat
  rt_output_price :: rat
  rt_route_config_version :: string
  rt_pricing_config_version :: string
  rt_capabilities :: "string list"
  rt_data_residency :: string
  rt_max_context_tokens :: int
  rt_max_output_tokens :: int

definition route_ok :: "model_route \<Rightarrow> bool" where
  "route_ok rt \<longleftrightarrow> 0 \<le> rt_input_price rt \<and> 0 \<le> rt_output_price rt \<and>
     rt_data_residency rt \<in> {''public'', ''private''} \<and>
     0 < rt_max_context_tokens rt \<and> 0 < rt_max_output_tokens rt \<and>
     rt_max_output_tokens rt \<le> rt_max_context_tokens rt"

record model_context =
  mc_run_id :: string
  mc_step_id :: string
  mc_model_attempt :: int
  mc_lease :: lease_context
  mc_estimated_input_tokens :: int
  mc_request_deadline_at :: "time option"
  mc_allowed_route_ids :: "string set"
  mc_tenant_id :: string
  mc_required_data_residency :: "string option"

definition nonneg_int :: "json \<Rightarrow> int option" where
  "nonneg_int v = (case v of JInt n \<Rightarrow> if n < 0 then None else Some n | _ \<Rightarrow> None)"

definition estimated_tokens_of :: "agent_step \<Rightarrow> int" where
  "estimated_tokens_of x =
     (case nonneg_int (jget (s_input_summary x) ''estimated_input_tokens'') of None \<Rightarrow> 0 | Some n \<Rightarrow> n)"

definition allowed_routes_from_snapshot :: "json \<Rightarrow> string set" where
  "allowed_routes_from_snapshot snap =
     (case jget snap ''allowed_model_route_ids'' of
        JList xs \<Rightarrow> if list_all (\<lambda>v. is_str v \<and> v \<noteq> JStr '''') xs
                    then set (concat (map (\<lambda>v. case v of JStr x \<Rightarrow> [x] | _ \<Rightarrow> []) xs)) else {}
      | _ \<Rightarrow> {})"

definition required_residency_from_snapshot :: "json \<Rightarrow> string option" where
  "required_residency_from_snapshot snap =
     (case jget snap ''required_model_data_residency'' of
        JStr v \<Rightarrow> if v \<in> {''public'', ''private''} then Some v else None
      | _ \<Rightarrow> None)"

definition find_step :: "db \<Rightarrow> string \<Rightarrow> string \<Rightarrow> agent_step option" where
  "find_step s sid rid = sel_one (\<lambda>x. step_id x = sid \<and> s_run_id x = rid) (steps s)"

text \<open>The deadline of a call: the run deadline, or earlier when the active time left of the
  frozen policy ends before it.\<close>

definition call_deadline :: "agent_run \<Rightarrow> time \<Rightarrow> time" where
  "call_deadline r now =
     (case nonneg_int (jget (jget (capability_snapshot_json r) ''execution_policy'') ''max_run_seconds'') of
        None \<Rightarrow> run_deadline_at r
      | Some mx \<Rightarrow>
          (let active = now + max 0 (mx * 1000 - active_elapsed_ms r) * 1000
           in if active < run_deadline_at r then active else run_deadline_at r))"

definition from_authoritative ::
  "string \<Rightarrow> string \<Rightarrow> lease_context \<Rightarrow> time \<Rightarrow> db \<Rightarrow> runtime_error + model_context" where
  "from_authoritative rid sid ctx now s =
     (case (find_run s rid, find_step s sid rid) of
        (Some r, Some x) \<Rightarrow>
          if s_status x \<noteq> ''running'' \<or> s_execution_attempt x \<noteq> x_execution_attempt ctx \<or>
             execution_attempt r \<noteq> x_execution_attempt ctx \<or>
             lease_owner r \<noteq> Some (x_lease_owner ctx) \<or> fencing_token r \<noteq> x_fencing_token ctx
          then Inl (ValueError ''MODEL_CALL_CONTEXT_UNTRUSTED'')
          else Inr \<lparr>mc_run_id = rid, mc_step_id = sid, mc_model_attempt = step_attempt x, mc_lease = ctx,
                 mc_estimated_input_tokens = estimated_tokens_of x,
                 mc_request_deadline_at = Some (call_deadline r now),
                 mc_allowed_route_ids = allowed_routes_from_snapshot (capability_snapshot_json r),
                 mc_tenant_id = tenant_id r,
                 mc_required_data_residency = required_residency_from_snapshot (capability_snapshot_json r)\<rparr>
      | _ \<Rightarrow> Inl (ValueError ''MODEL_CALL_CONTEXT_UNTRUSTED''))"

definition with_minimum_estimated_input_tokens :: "model_context \<Rightarrow> int \<Rightarrow> runtime_error + model_context" where
  "with_minimum_estimated_input_tokens c n =
     (if n < 0 then Inl (ValueError ''MODEL_INPUT_TOKEN_ESTIMATE_INVALID'')
      else Inr (c\<lparr>mc_estimated_input_tokens := max (mc_estimated_input_tokens c) n\<rparr>))"

section \<open>The ledger\<close>

definition find_usage :: "db \<Rightarrow> string \<Rightarrow> agent_model_usage option" where
  "find_usage s uid = sel_one (\<lambda>u. usage_id u = uid) (usages s)"

definition route_snapshot :: "model_route \<Rightarrow> json" where
  "route_snapshot rt = JObj [(''route_config_version'', JStr (rt_route_config_version rt)),
     (''capabilities'', JList (map JStr (sort (remdups (rt_capabilities rt))))),
     (''data_residency'', JStr (rt_data_residency rt)),
     (''max_context_tokens'', JInt (rt_max_context_tokens rt)),
     (''max_output_tokens'', JInt (rt_max_output_tokens rt))]"

definition input_cost :: "model_route \<Rightarrow> int \<Rightarrow> rat" where
  "input_cost rt n = of_int n * rt_input_price rt / 1000"

definition new_usage ::
  "string \<Rightarrow> string \<Rightarrow> model_context \<Rightarrow> model_route \<Rightarrow> int \<Rightarrow> string \<Rightarrow> string option \<Rightarrow> agent_model_usage" where
  "new_usage uid rid c rt attempt st permit =
     \<lparr>usage_id = uid, u_run_id = rid, u_step_id = mc_step_id c,
      u_execution_attempt = x_execution_attempt (mc_lease c), model_attempt = attempt, u_status = st,
      permit_id = permit, provider_request_id = None, u_capability_snapshot_json = route_snapshot rt,
      thinking_summary_json = JNull, prompt_id = None, prompt_version = None,
      provider = Some (rt_provider rt), u_model = Some (rt_model rt),
      pricing_config_version = Some (rt_pricing_config_version rt), cost_unit = Some (rt_price_unit rt),
      reserved_estimated_cost = Some (Fin (input_cost rt (mc_estimated_input_tokens c))),
      reserved_tokens = Some (mc_estimated_input_tokens c), estimated_cost = None,
      input_tokens = None, output_tokens = None, image_count = None,
      request_deadline_at = mc_request_deadline_at c\<rparr>"

definition create_running ::
  "model_context \<Rightarrow> model_route \<Rightarrow> string \<Rightarrow> db \<Rightarrow> runtime_error + (string \<times> db)" where
  "create_running c rt permit s =
     res_bind (ensure (permit \<noteq> '''') (ValueError ''permit_id'')) (\<lambda>_.
     case (find_run s (mc_run_id c), find_step s (mc_step_id c) (mc_run_id c)) of
       (Some r, Some x) \<Rightarrow>
         if s_status x \<noteq> ''running'' \<or> s_execution_attempt x \<noteq> x_execution_attempt (mc_lease c) \<or>
            step_attempt x \<noteq> mc_model_attempt c \<or>
            execution_attempt r \<noteq> x_execution_attempt (mc_lease c) \<or>
            lease_owner r \<noteq> Some (x_lease_owner (mc_lease c)) \<or>
            fencing_token r \<noteq> x_fencing_token (mc_lease c) \<or>
            mc_estimated_input_tokens c \<noteq> estimated_tokens_of x \<or>
            mc_request_deadline_at c = None \<or> run_deadline_at r < the (mc_request_deadline_at c) \<or>
            mc_allowed_route_ids c \<noteq> allowed_routes_from_snapshot (capability_snapshot_json r) \<or>
            rt_route_id rt \<notin> mc_allowed_route_ids c
         then Inl (ValueError ''MODEL_CALL_CONTEXT_UNTRUSTED'')
         else (let (uid, s1) = uuid4 s
               in Inr (uid, s1\<lparr>usages := usages s1 @
                    [new_usage uid (mc_run_id c) c rt (mc_model_attempt c) ''running'' (Some permit)]\<rparr>))
     | _ \<Rightarrow> Inl (ValueError ''MODEL_CALL_CONTEXT_UNTRUSTED''))"

text \<open>The conditional update of one usage row: its rowcount test and the written state.\<close>

definition upd_usage ::
  "string \<Rightarrow> (agent_model_usage \<Rightarrow> bool) \<Rightarrow> (agent_model_usage \<Rightarrow> agent_model_usage) \<Rightarrow> db \<Rightarrow> bool \<times> db" where
  "upd_usage uid c f s =
     (rowcount (\<lambda>u. usage_id u = uid \<and> c u) (usages s) = 1,
      s\<lparr>usages := upd_where (\<lambda>u. usage_id u = uid \<and> c u) f (usages s)\<rparr>)"

definition mark_started :: "string \<Rightarrow> db \<Rightarrow> bool \<times> db" where
  "mark_started uid s = upd_usage uid (\<lambda>u. u_status u = ''running'') (\<lambda>u. u\<lparr>u_status := ''started''\<rparr>) s"

definition activate_reservation :: "string \<Rightarrow> string \<Rightarrow> db \<Rightarrow> bool \<times> db" where
  "activate_reservation uid permit s =
     upd_usage uid (\<lambda>u. u_status u = ''reserved'')
       (\<lambda>u. u\<lparr>u_status := ''running'', permit_id := Some permit\<rparr>) s"

definition attach_prompt_ref :: "string \<Rightarrow> string \<Rightarrow> string \<Rightarrow> db \<Rightarrow> runtime_error + (bool \<times> db)" where
  "attach_prompt_ref uid pid pver s =
     (if pid = '''' \<or> pver = '''' then Inl (ValueError ''prompt_id'')
      else Inr (upd_usage uid (\<lambda>u. u_status u = ''reserved'')
        (\<lambda>u. u\<lparr>prompt_id := Some pid, prompt_version := Some pver\<rparr>) s))"

definition positive_int :: "json \<Rightarrow> bool" where
  "positive_int v = (case v of JInt n \<Rightarrow> 0 < n | _ \<Rightarrow> False)"

definition is_bool :: "json \<Rightarrow> bool" where
  "is_bool v = (case v of JBool _ \<Rightarrow> True | _ \<Rightarrow> False)"

definition thinking_summary_ok :: "dict \<Rightarrow> bool" where
  "thinking_summary_ok d \<longleftrightarrow>
     set (map fst d) = {''thinking_enabled'', ''max_output_tokens'', ''input_token_budget'', ''normalization_version''} \<and>
     is_bool (dget d ''thinking_enabled'') \<and> positive_int (dget d ''max_output_tokens'') \<and>
     positive_int (dget d ''input_token_budget'') \<and> dget d ''normalization_version'' = JStr ''v1''"

definition attach_thinking_summary :: "string \<Rightarrow> dict \<Rightarrow> db \<Rightarrow> runtime_error + (bool \<times> db)" where
  "attach_thinking_summary uid d s =
     (if \<not> thinking_summary_ok d then Inl (ValueError ''THINKING_SUMMARY_INVALID'')
      else Inr (upd_usage uid (\<lambda>u. u_status u = ''reserved'') (\<lambda>u. u\<lparr>thinking_summary_json := JObj d\<rparr>) s))"

definition cancel_reservation :: "string \<Rightarrow> db \<Rightarrow> bool \<times> db" where
  "cancel_reservation uid s =
     (let c = (\<lambda>u. usage_id u = uid \<and> u_status u = ''reserved'')
      in (rowcount c (usages s) = 1, s\<lparr>usages := del_where c (usages s)\<rparr>))"

definition settled_cost ::
  "string \<Rightarrow> string \<Rightarrow> int option \<Rightarrow> int option \<Rightarrow> model_route option \<Rightarrow> db \<Rightarrow> runtime_error + pyfloat option" where
  "settled_cost uid st it ot route s =
     (if st = ''aborted_before_send'' then Inr (Some (Fin 0))
      else case (st = ''succeeded'', it, ot) of
        (True, Some i, Some o') \<Rightarrow>
          (case route of
             None \<Rightarrow> Inl (ValueError ''route'')
           | Some rt \<Rightarrow> Inr (Some (Fin ((of_int i * rt_input_price rt + of_int o' * rt_output_price rt) / 1000))))
      | _ \<Rightarrow> (case find_usage s uid of
               None \<Rightarrow> Inl (ValueError ''MODEL_USAGE_NOT_FOUND'')
             | Some u \<Rightarrow> Inr (reserved_estimated_cost u)))"

definition settle ::
  "string \<Rightarrow> string \<Rightarrow> int option \<Rightarrow> int option \<Rightarrow> model_route option \<Rightarrow> string option \<Rightarrow> db \<Rightarrow>
    runtime_error + (string \<times> db)" where
  "settle uid st it ot route prid s =
     (let late = (st \<in> {''succeeded'', ''failed''}) in
      res_bind (ensure (case it of None \<Rightarrow> True | Some n \<Rightarrow> 0 \<le> n) (ValueError ''input_tokens'')) (\<lambda>_.
      res_bind (ensure (case ot of None \<Rightarrow> True | Some n \<Rightarrow> 0 \<le> n) (ValueError ''output_tokens'')) (\<lambda>_.
      res_bind (ensure (case prid of None \<Rightarrow> True | Some p \<Rightarrow> p \<noteq> '''' \<and> length p \<le> 120)
        (ValueError ''provider_request_id'')) (\<lambda>_.
      res_bind (settled_cost uid st it ot route s) (\<lambda>cost.
      case find_usage s uid of
        None \<Rightarrow> Inl (ValueError ''MODEL_USAGE_NOT_FOUND'')
      | Some u \<Rightarrow>
          if late \<and> u_status u = ''outcome_unknown'' \<and> (prid = None \<or> provider_request_id u \<noteq> prid)
          then Inr (''identity_mismatch'', s)
          else
            (let allowed = (if late then {''running'', ''started'', ''outcome_unknown''}
                            else {''running'', ''started''});
                 unknown = (late \<and> u_status u = ''outcome_unknown'');
                 (ok, s1) = upd_usage uid
                   (\<lambda>x. u_status x \<in> allowed \<and> (unknown \<longrightarrow> provider_request_id x = prid))
                   (\<lambda>x. x\<lparr>u_status := st, input_tokens := it, output_tokens := ot, estimated_cost := cost,
                          provider_request_id := (if prid = None then provider_request_id x else prid)\<rparr>) s
             in Inr (if ok then ''settled'' else ''already_settled'', s1)))))))"

definition expired_call :: "time \<Rightarrow> agent_model_usage \<Rightarrow> bool" where
  "expired_call now u \<longleftrightarrow> u_status u \<in> {''running'', ''started''} \<and> before (request_deadline_at u) now"

definition mark_expired_running_unknown :: "time \<Rightarrow> db \<Rightarrow> nat \<times> db" where
  "mark_expired_running_unknown now s =
     (rowcount (expired_call now) (usages s),
      s\<lparr>usages := upd_where (expired_call now)
        (\<lambda>u. u\<lparr>u_status := ''outcome_unknown'', estimated_cost := reserved_estimated_cost u\<rparr>) (usages s)\<rparr>)"

section \<open>Properties\<close>

definition usages_ok :: "db \<Rightarrow> bool" where
  "usages_ok s \<longleftrightarrow> distinct (map usage_id (usages s))"

lemma upd_usage_find:
  assumes "usages_ok s" "\<And>u. usage_id (f u) = usage_id u"
  shows "find_usage (snd (upd_usage uid c f s)) k =
      map_option (\<lambda>u. if usage_id u = uid \<and> c u then f u else u) (find_usage s k)"
    and "fst (upd_usage uid c f s) \<longleftrightarrow> (\<exists>u. find_usage s uid = Some u \<and> c u)"
  using assms rowcount_key_1 [of usage_id "usages s" uid c]
  by (simp_all add: upd_usage_def find_usage_def usages_ok_def sel_key_upd_where)

lemma usage_frame [simp]:
  "runs (snd (upd_usage uid c f s)) = runs s" "buckets (snd (upd_usage uid c f s)) = buckets s"
  "callbacks (snd (upd_usage uid c f s)) = callbacks s" "uuid_counter (snd (upd_usage uid c f s)) = uuid_counter s"
  by (simp_all add: upd_usage_def)

lemma mark_expired_sound: "inv_db s \<Longrightarrow> sound s (snd (mark_expired_running_unknown now s))"
  by (rule sound_frame) (simp_all add: mark_expired_running_unknown_def)

lemma settle_cases:
  assumes "settle uid st it ot route prid s = Inr (out, s')" "usages_ok s"
  obtains (mismatch) u where "out = ''identity_mismatch''" "s' = s" "find_usage s uid = Some u"
      "u_status u = ''outcome_unknown''"
  | (late) u where "out = ''already_settled''" "find_usage s uid = Some u" "find_usage s' uid = Some u"
      "u_status u \<notin> {''running'', ''started''}"
  | (settled) u cost where "out = ''settled''" "find_usage s uid = Some u"
      "u_status u \<in> {''running'', ''started''} \<or> st \<in> {''succeeded'', ''failed''} \<and>
         u_status u = ''outcome_unknown'' \<and> prid \<noteq> None \<and> provider_request_id u = prid"
      "settled_cost uid st it ot route s = Inr cost"
      "find_usage s' uid = Some (u\<lparr>u_status := st, input_tokens := it, output_tokens := ot,
         estimated_cost := cost, provider_request_id := (if prid = None then provider_request_id u else prid)\<rparr>)"
proof -
  from assms(1) obtain u cost where u: "find_usage s uid = Some u"
    and cost: "settled_cost uid st it ot route s = Inr cost"
    by (auto simp: settle_def Let_def res_simps split: option.splits)
  let ?late = "st \<in> {''succeeded'', ''failed''}" and ?unk = "u_status u = ''outcome_unknown''"
  let ?c = "\<lambda>x. u_status x \<in> (if ?late then {''running'', ''started'', ''outcome_unknown''} else {''running'', ''started''}) \<and>
      (?late \<and> ?unk \<longrightarrow> provider_request_id x = prid)"
  let ?f = "\<lambda>x. x\<lparr>u_status := st, input_tokens := it, output_tokens := ot, estimated_cost := cost,
      provider_request_id := (if prid = None then provider_request_id x else prid)\<rparr>"
  have id: "usage_id u = uid" using u by (auto simp: find_usage_def dest: sel_one_SomeD)
  show ?thesis
  proof (cases "?late \<and> ?unk \<and> (prid = None \<or> provider_request_id u \<noteq> prid)")
    case True
    with assms(1) u cost show ?thesis by (intro mismatch) (auto simp: settle_def Let_def res_simps)
  next
    case False
    with assms(1) u cost obtain ok where e: "upd_usage uid ?c ?f s = (ok, s')"
      and out: "out = (if ok then ''settled'' else ''already_settled'')"
      by (auto simp: settle_def Let_def res_simps split: prod.splits)
    have ok: "ok \<longleftrightarrow> ?c u" and new: "find_usage s' uid = Some (if ?c u then ?f u else u)"
      using upd_usage_find [OF assms(2), of ?f uid ?c] e u id by simp_all
    show ?thesis
    proof (cases "?c u")
      case True
      with out ok new show ?thesis by (intro settled [OF _ u _ cost]) (use False in \<open>auto split: if_splits\<close>)
    next
      case F: False
      have "\<not> ok" using ok F by blast
      then have "out = ''already_settled''" using out by simp
      moreover have "u_status u \<notin> {''running'', ''started''}" using F by (auto split: if_splits)
      moreover have "find_usage s' uid = Some u" using new unfolding if_not_P [OF F] .
      ultimately show ?thesis by (intro late [OF _ u])
    qed
  qed
qed

lemma settle_usages_ok:
  assumes st: "settle uid st it ot route prid s = Inr (out, s')" and ok: "usages_ok s"
  shows "usages_ok s'"
proof -
  have "usages s' = usages s \<or> (\<exists>c f. usages s' = upd_where c f (usages s) \<and> (\<forall>x. usage_id (f x) = usage_id x))"
    using st by (fastforce simp: settle_def Let_def res_simps upd_usage_def split: option.splits if_splits prod.splits)
  then show ?thesis using ok by (auto simp: usages_ok_def map_upd_where_cong)
qed

text \<open>A physical model call is settled once: after it was settled with a final status, every
  further settlement, whatever it reports, is answered as already settled and leaves the row
  as it is; and a call whose outcome was marked unknown is only ever settled by the provider
  identity recorded for it.\<close>

lemma settle_once:
  assumes ok: "usages_ok s" and st: "settle uid st it ot route prid s = Inr (''settled'', s')"
    and fin: "st \<notin> {''running'', ''started'', ''outcome_unknown''}"
    and u: "find_usage s uid = Some u"
    and again: "settle uid st2 it2 ot2 route2 prid2 s' = Inr (out, s'')"
  shows "out = ''already_settled'' \<and> find_usage s'' uid = find_usage s' uid \<and>
    (u_status u = ''outcome_unknown'' \<longrightarrow> prid \<noteq> None \<and> provider_request_id u = prid)"
proof -
  from st ok obtain v where v: "find_usage s' uid = Some v" "u_status v = st"
    "u_status u = ''outcome_unknown'' \<longrightarrow> prid \<noteq> None \<and> provider_request_id u = prid"
    by (cases rule: settle_cases) (use u in auto)
  have ok': "usages_ok s'" by (rule settle_usages_ok [OF st ok])
  from again ok' have "out = ''already_settled'' \<and> find_usage s'' uid = find_usage s' uid"
    by (cases rule: settle_cases) (use v fin in auto)
  with v(3) show ?thesis by simp
qed

definition demo_usage :: agent_model_usage where
  "demo_usage = \<lparr>usage_id = ''u'', u_run_id = ''0'', u_step_id = ''s'', u_execution_attempt = 1,
     model_attempt = 1, u_status = ''started'', permit_id = Some ''p'', provider_request_id = None,
     u_capability_snapshot_json = JNull, thinking_summary_json = JNull, prompt_id = None,
     prompt_version = None, provider = None, u_model = None, pricing_config_version = None,
     cost_unit = None, reserved_estimated_cost = Some (Fin 2), reserved_tokens = Some 100,
     estimated_cost = None, input_tokens = None, output_tokens = None, image_count = None,
     request_deadline_at = Some 50\<rparr>"

text \<open>An unknown outcome is never free: a settlement that does not report trusted token counts
  of a successful call, and the time-out of a call in flight, both charge the reserved cost;
  only a call aborted before it was sent is charged nothing.\<close>

lemma unknown_outcome_charged:
  assumes ok: "usages_ok s" and u: "find_usage s uid = Some u"
  shows "(settle uid st it ot route prid s = Inr (''settled'', s') \<and> st \<noteq> ''aborted_before_send'' \<and>
      (st \<noteq> ''succeeded'' \<or> it = None \<or> ot = None) \<longrightarrow>
      (\<exists>v. find_usage s' uid = Some v \<and> estimated_cost v = reserved_estimated_cost u)) \<and>
    (u_status u \<in> {''running'', ''started''} \<and> before (request_deadline_at u) now \<longrightarrow>
      (\<exists>v. find_usage (snd (mark_expired_running_unknown now s)) uid = Some v \<and>
         u_status v = ''outcome_unknown'' \<and> estimated_cost v = reserved_estimated_cost u))"
proof -
  have "\<exists>v. find_usage s' uid = Some v \<and> estimated_cost v = reserved_estimated_cost u"
    if st: "settle uid st it ot route prid s = Inr (''settled'', s')" and n: "st \<noteq> ''aborted_before_send''"
      "st \<noteq> ''succeeded'' \<or> it = None \<or> ot = None"
    using st ok
  proof (cases rule: settle_cases)
    case (settled u' cost)
    have "settled_cost uid st it ot route s = Inr (reserved_estimated_cost u)"
      using n u by (cases it; cases ot) (auto simp: settled_cost_def split: bool.splits)
    with settled show ?thesis by simp
  qed simp_all
  moreover have "find_usage (snd (mark_expired_running_unknown now s)) uid =
      Some (u\<lparr>u_status := ''outcome_unknown'', estimated_cost := reserved_estimated_cost u\<rparr>)"
    if "u_status u \<in> {''running'', ''started''}" "before (request_deadline_at u) now"
    using that u by (simp add: mark_expired_running_unknown_def find_usage_def sel_key_upd_where expired_call_def)
  ultimately show ?thesis by auto
qed

end
