(* ===== verification/Policy_Engine.thy ===== *)
theory Policy_Engine
  imports Model_Usage
begin

text \<open>
  Budget admission of model and tool calls (\<open>app/runtime/policy_engine.py\<close>): the frozen
  execution limits, the trusted context check, the budget over the usage ledger of the run and
  the reservation that takes a share of it before anything is sent. \<open>None\<close> as a decision code is
  an allowed call.
\<close>

section \<open>Operations\<close>

definition nonneg_finite :: "json \<Rightarrow> rat option" where
  "nonneg_finite v =
     (case v of
        JInt n \<Rightarrow> if n < 0 then None else Some (of_int n)
      | JFloat (Fin q) \<Rightarrow> if q < 0 then None else Some q
      | _ \<Rightarrow> None)"

definition nonneg_cost :: "pyfloat option \<Rightarrow> rat option" where
  "nonneg_cost v = (case v of Some (Fin q) \<Rightarrow> if q < 0 then None else Some q | _ \<Rightarrow> None)"

definition nonneg_tokens :: "int option \<Rightarrow> int option" where
  "nonneg_tokens v = (case v of Some n \<Rightarrow> if n < 0 then None else Some n | None \<Rightarrow> None)"

definition usage_cost :: "agent_model_usage \<Rightarrow> rat" where
  "usage_cost u =
     (case nonneg_cost (estimated_cost u) of
        Some q \<Rightarrow> q
      | None \<Rightarrow> (case nonneg_cost (reserved_estimated_cost u) of Some q \<Rightarrow> q | None \<Rightarrow> 0))"

definition usage_tokens :: "agent_model_usage \<Rightarrow> int" where
  "usage_tokens u =
     (if u_status u = ''aborted_before_send'' then 0
      else case (nonneg_tokens (input_tokens u), nonneg_tokens (output_tokens u)) of
        (Some i, Some o') \<Rightarrow> i + o'
      | _ \<Rightarrow> (case nonneg_tokens (reserved_tokens u) of None \<Rightarrow> 0 | Some n \<Rightarrow> n))"

definition exceeded :: "json \<Rightarrow> dict \<Rightarrow> string \<times> string \<times> string \<Rightarrow> bool" where
  "exceeded policy counters limit =
     (case limit of (counter_key, limit_key, code) \<Rightarrow>
        (case (nonneg_int (jget policy limit_key), nonneg_int (dget_default counters counter_key (JInt 0))) of
           (Some l, Some v) \<Rightarrow> l < v
         | _ \<Rightarrow> False))"

definition execution_limits :: "(string \<times> string \<times> string) list" where
  "execution_limits =
     [(''steps'', ''max_steps'', ''STEP_LIMIT_EXCEEDED''),
      (''tool_calls'', ''max_tool_calls'', ''TOOL_CALL_LIMIT_EXCEEDED''),
      (''auto_retries'', ''max_auto_retry_per_step'', ''AUTO_RETRY_LIMIT_EXCEEDED'')]"

text \<open>\<open>Some code\<close> stands for \<open>ExecutionBudgetExceeded(code)\<close>.\<close>

definition assert_can_continue :: "agent_run \<Rightarrow> dict \<Rightarrow> string option" where
  "assert_can_continue r counters =
     (case jget (capability_snapshot_json r) ''execution_policy'' of
        JObj p \<Rightarrow>
          (case find (exceeded (JObj p) counters) execution_limits of
             Some (_, _, code) \<Rightarrow> Some code
           | None \<Rightarrow>
               (case (nonneg_int (dget p ''max_run_seconds''),
                      nonneg_int (dget_default counters ''active_elapsed_ms'' (JInt 0))) of
                  (Some mx, Some delta) \<Rightarrow>
                    if mx * 1000 < max 0 (active_elapsed_ms r) + delta
                    then Some ''ACTIVE_TIME_LIMIT_EXCEEDED'' else None
                | _ \<Rightarrow> None))
      | _ \<Rightarrow> None)"

definition assert_tool_call_allowed :: "string \<Rightarrow> string \<Rightarrow> db \<Rightarrow> string option" where
  "assert_tool_call_allowed rid sid s =
     (case find_run s rid of
        None \<Rightarrow> None
      | Some r \<Rightarrow> assert_can_continue r
          [(''tool_calls'', JInt (int (rowcount (\<lambda>t. t_run_id t = rid \<and> t_step_id t = sid) (tool_calls s)) + 1))])"

definition run_is_executable :: "agent_run \<Rightarrow> model_context \<Rightarrow> time \<Rightarrow> bool" where
  "run_is_executable r c now \<longleftrightarrow>
     dispatch_state r = Claimed \<and>
     status r \<notin> {Cancelled, Failed, Succeeded, Partial, WaitingHuman} \<and>
     cancel_requested_at r = None \<and> privacy_state r = PrivacyActive \<and>
     privacy_version r = x_privacy_version (mc_lease c) \<and>
     authorization_version r = x_authorization_version (mc_lease c) \<and>
     execution_attempt r = x_execution_attempt (mc_lease c) \<and>
     lease_owner r = Some (x_lease_owner (mc_lease c)) \<and>
     fencing_token r = x_fencing_token (mc_lease c) \<and>
     after (lease_expires_at r) now \<and> now < x_lease_expires_at (mc_lease c)"

definition context_is_authoritative :: "model_context \<Rightarrow> time \<Rightarrow> db \<Rightarrow> bool" where
  "context_is_authoritative c now s =
     (case (find_run s (mc_run_id c), find_step s (mc_step_id c) (mc_run_id c)) of
        (Some r, Some x) \<Rightarrow> run_is_executable r c now \<and> s_status x = ''running'' \<and>
          s_execution_attempt x = x_execution_attempt (mc_lease c) \<and> step_attempt x = mc_model_attempt c
      | _ \<Rightarrow> False)"

definition run_usages :: "db \<Rightarrow> string \<Rightarrow> agent_model_usage list" where
  "run_usages s rid = filter (\<lambda>u. u_run_id u = rid) (usages s)"

definition model_policy :: "agent_run \<Rightarrow> json" where
  "model_policy r = (case jget (capability_snapshot_json r) ''model_policy'' of JObj d \<Rightarrow> JObj d | _ \<Rightarrow> JObj [])"

definition evaluate_budget :: "agent_run \<Rightarrow> model_context \<Rightarrow> model_route \<Rightarrow> db \<Rightarrow> string option" where
  "evaluate_budget r c rt s =
     (let us = run_usages s (run_id r); p = model_policy r in
      if (case nonneg_int (jget p ''max_model_calls'') of None \<Rightarrow> False | Some n \<Rightarrow> n \<le> int (length us))
      then Some ''MODEL_CALL_LIMIT_EXCEEDED''
      else if (case nonneg_finite (jget p ''max_model_cost'') of None \<Rightarrow> False
               | Some q \<Rightarrow> q \<le> sum_list (map usage_cost us) + input_cost rt (mc_estimated_input_tokens c))
      then Some ''MODEL_COST_LIMIT_EXCEEDED''
      else if (case nonneg_int (jget p ''max_tokens'') of None \<Rightarrow> False
               | Some n \<Rightarrow> n < sum_list (map usage_tokens us) + mc_estimated_input_tokens c)
      then Some ''MODEL_TOKEN_LIMIT_EXCEEDED''
      else None)"

definition evaluate :: "model_context \<Rightarrow> model_route \<Rightarrow> time \<Rightarrow> db \<Rightarrow> string option" where
  "evaluate c rt now s =
     (case find_run s (mc_run_id c) of
        None \<Rightarrow> Some ''MODEL_RUN_NOT_EXECUTABLE''
      | Some r \<Rightarrow> if \<not> context_is_authoritative c now s then Some ''MODEL_RUN_NOT_EXECUTABLE''
                  else evaluate_budget r c rt s)"

definition next_model_attempt :: "model_context \<Rightarrow> db \<Rightarrow> int" where
  "next_model_attempt c s =
     (let prev = map model_attempt (filter (\<lambda>u. u_run_id u = mc_run_id c \<and> u_step_id u = mc_step_id c \<and>
                   u_execution_attempt u = x_execution_attempt (mc_lease c)) (usages s))
      in max (mc_model_attempt c) (if prev = [] then 1 else foldr max prev (hd prev) + 1))"

text \<open>The guard of the conditional update that serialises \<open>read the budget, write the reservation\<close>.\<close>

definition reserve_guard :: "int \<Rightarrow> model_context \<Rightarrow> db \<Rightarrow> agent_run \<Rightarrow> bool" where
  "reserve_guard v c s r \<longleftrightarrow>
     status_version r = v \<and> dispatch_state r = Claimed \<and> cancel_requested_at r = None \<and>
     privacy_state r = PrivacyActive \<and> privacy_version r = x_privacy_version (mc_lease c) \<and>
     authorization_version r = x_authorization_version (mc_lease c) \<and>
     execution_attempt r = x_execution_attempt (mc_lease c) \<and>
     lease_owner r = Some (x_lease_owner (mc_lease c)) \<and>
     fencing_token r = x_fencing_token (mc_lease c) \<and>
     list_ex (\<lambda>x. step_id x = mc_step_id c \<and> s_run_id x = mc_run_id c \<and> s_status x = ''running'' \<and>
        s_execution_attempt x = x_execution_attempt (mc_lease c) \<and> step_attempt x = mc_model_attempt c) (steps s)"

text \<open>The loop of at most two attempts; a lost update is rolled back and tried again.\<close>

fun reserve_tries ::
  "nat \<Rightarrow> model_context \<Rightarrow> model_route \<Rightarrow> time \<Rightarrow> db \<Rightarrow> string option \<times> string option \<times> db" where
  "reserve_tries 0 c rt now s = (Some ''MODEL_RUN_NOT_EXECUTABLE'', None, s)"
| "reserve_tries (Suc n) c rt now s =
     (case find_run s (mc_run_id c) of
        None \<Rightarrow> (Some ''MODEL_RUN_NOT_EXECUTABLE'', None, s)
      | Some r \<Rightarrow>
          if \<not> context_is_authoritative c now s then (Some ''MODEL_RUN_NOT_EXECUTABLE'', None, s)
          else (case evaluate_budget r c rt s of
              Some code \<Rightarrow> (Some code, None, s)
            | None \<Rightarrow>
                (case update_run (run_id r) (reserve_guard (status_version r) c s)
                    (\<lambda>r. r\<lparr>status_version := status_version r + 1\<rparr>) s of
                   None \<Rightarrow> reserve_tries n c rt now s
                 | Some s1 \<Rightarrow>
                     (let attempt = next_model_attempt c s1; (uid, s2) = uuid4 s1
                      in (None, Some uid, s2\<lparr>usages := usages s2 @
                           [new_usage uid (run_id r) c rt attempt ''reserved'' None]\<rparr>)))))"

definition reserve ::
  "model_context \<Rightarrow> model_route \<Rightarrow> time \<Rightarrow> db \<Rightarrow> string option \<times> string option \<times> db" where
  "reserve c rt now s = reserve_tries 2 c rt now s"

definition record_active_elapsed :: "model_context \<Rightarrow> int \<Rightarrow> time \<Rightarrow> db \<Rightarrow> bool \<times> db" where
  "record_active_elapsed c elapsed_ms now s =
     (if elapsed_ms \<le> 0 \<or> \<not> context_is_authoritative c now s then (False, s)
      else case update_run (mc_run_id c)
          (\<lambda>r. execution_attempt r = x_execution_attempt (mc_lease c) \<and>
               lease_owner r = Some (x_lease_owner (mc_lease c)) \<and>
               fencing_token r = x_fencing_token (mc_lease c) \<and> dispatch_state r = Claimed)
          (\<lambda>r. r\<lparr>active_elapsed_ms := active_elapsed_ms r + elapsed_ms\<rparr>) s of
        None \<Rightarrow> (False, s)
      | Some s1 \<Rightarrow> (True, s1))"

section \<open>Soundness\<close>

lemma reserve_tries_cases:
  assumes inv: "inv_db s" and res: "reserve_tries n c rt now s = (code, uid, s')"
  obtains (refused) e where "code = Some e" "uid = None" "s' = s"
  | (granted) r u where "code = None" "uid = Some u" "find_run s (mc_run_id c) = Some r"
      "context_is_authoritative c now s" "evaluate_budget r c rt s = None"
      "s' = (set_run (mc_run_id c) (\<lambda>r. r\<lparr>status_version := status_version r + 1\<rparr>) s)
         \<lparr>uuid_counter := Suc (uuid_counter s), usages := usages s @
            [new_usage u (mc_run_id c) c rt (next_model_attempt c s) ''reserved'' None]\<rparr>"
proof (cases n)
  case 0
  with res show ?thesis by (intro refused) auto
next
  case (Suc m)
  show ?thesis
  proof (cases "find_run s (mc_run_id c)")
    case None
    with res Suc show ?thesis by (intro refused) auto
  next
    case (Some r)
    have id: "run_id r = mc_run_id c" by (rule find_run_id [OF Some])
    consider "\<not> context_is_authoritative c now s" | e where "context_is_authoritative c now s" "evaluate_budget r c rt s = Some e"
      | "context_is_authoritative c now s" "evaluate_budget r c rt s = None"
      by (cases "evaluate_budget r c rt s") auto
    then show ?thesis
    proof cases
      case 3
      let ?f = "\<lambda>r. r\<lparr>status_version := status_version r + 1\<rparr>"
      have "reserve_guard (status_version r) c s r"
        using 3(1) Some
        by (auto simp: context_is_authoritative_def run_is_executable_def reserve_guard_def find_step_def list_ex_iff
            split: option.splits dest: sel_one_SomeD)
      then have "update_run (mc_run_id c) (reserve_guard (status_version r) c s) ?f s = Some (set_run (mc_run_id c) ?f s)"
        using Some by (simp add: update_run_Some_iff inv_db_wf [OF inv])
      moreover have "next_model_attempt c (set_run (mc_run_id c) ?f s) = next_model_attempt c s"
        by (simp add: next_model_attempt_def set_run_def)
      ultimately show ?thesis
        using res Suc Some 3 id by (intro granted [OF _ _ Some 3]) (auto simp: uuid4_def Let_def set_run_def)
    next
      case 1
      with res Suc Some show ?thesis by (intro refused) auto
    next
      case (2 e)
      with res Suc Some show ?thesis by (intro refused [of e]) auto
    qed
  qed
qed

lemma bump_version_sound:
  assumes inv: "inv_db s" and r: "find_run s rid = Some r"
  shows "sound s (set_run rid (\<lambda>r. r\<lparr>status_version := status_version r + 1\<rparr>) s)"
  by (rule step_columns [OF inv r])
     (use inv_db_row [OF inv r] in \<open>auto simp: row_ok_def run_le_def same_identity_def run_scopes_def\<close>)

lemma reserve_sound:
  assumes inv: "inv_db s" and res: "reserve c rt now s = (code, uid, s')"
  shows "sound s s'"
  using inv res [unfolded reserve_def]
proof (cases rule: reserve_tries_cases)
  case (refused e)
  then show ?thesis using sound_refl [OF inv] by simp
next
  case (granted r u)
  note s1 = bump_version_sound [OF inv granted(3)]
  show ?thesis
    by (rule sound_trans [OF s1 sound_frame [OF soundD(1) [OF s1]]]) (simp_all add: granted(6))
qed

lemma record_active_elapsed_sound:
  assumes inv: "inv_db s" and res: "record_active_elapsed c e now s = (ok, s')"
  shows "sound s s'"
proof (cases "s' = s")
  case True
  then show ?thesis using sound_refl [OF inv] by simp
next
  case False
  let ?f = "\<lambda>r. r\<lparr>active_elapsed_ms := active_elapsed_ms r + e\<rparr>"
  from res False obtain g where "update_run (mc_run_id c) g ?f s = Some s'"
    by (auto simp: record_active_elapsed_def split: if_splits option.splits)
  then obtain r where r: "find_run s (mc_run_id c) = Some r" and s': "s' = set_run (mc_run_id c) ?f s"
    by (auto simp: update_run_Some_iff inv_db_wf [OF inv])
  show ?thesis unfolding s'
    by (rule step_columns [OF inv r])
       (use inv_db_row [OF inv r] in \<open>auto simp: row_ok_def run_le_def same_identity_def run_scopes_def\<close>)
qed

section \<open>Properties\<close>

definition calls_within :: "db \<Rightarrow> agent_run \<Rightarrow> bool" where
  "calls_within s r \<longleftrightarrow>
     (case nonneg_int (jget (model_policy r) ''max_model_calls'') of None \<Rightarrow> True
      | Some n \<Rightarrow> int (length (run_usages s (run_id r))) \<le> n)"

definition cost_within :: "db \<Rightarrow> agent_run \<Rightarrow> bool" where
  "cost_within s r \<longleftrightarrow>
     (case nonneg_finite (jget (model_policy r) ''max_model_cost'') of None \<Rightarrow> True
      | Some q \<Rightarrow> sum_list (map usage_cost (run_usages s (run_id r))) < q)"

definition tokens_within :: "db \<Rightarrow> agent_run \<Rightarrow> bool" where
  "tokens_within s r \<longleftrightarrow>
     (case nonneg_int (jget (model_policy r) ''max_tokens'') of None \<Rightarrow> True
      | Some n \<Rightarrow> sum_list (map usage_tokens (run_usages s (run_id r))) \<le> n)"

lemma run_usages_granted:
  "usages s' = usages s @ [new_usage u rid c rt a st p] \<Longrightarrow>
    run_usages s' rid = run_usages s rid @ [new_usage u rid c rt a st p]"
  by (simp add: run_usages_def new_usage_def)

lemma new_usage_cost:
  assumes "0 \<le> rt_input_price rt" "0 \<le> mc_estimated_input_tokens c"
  shows "usage_cost (new_usage u rid c rt a ''reserved'' p) = input_cost rt (mc_estimated_input_tokens c)"
proof -
  have "0 \<le> input_cost rt (mc_estimated_input_tokens c)"
    unfolding input_cost_def by (intro divide_nonneg_nonneg mult_nonneg_nonneg) (use assms in simp_all)
  then show ?thesis by (simp add: usage_cost_def new_usage_def nonneg_cost_def)
qed

lemma new_usage_tokens:
  "0 \<le> mc_estimated_input_tokens c \<Longrightarrow>
    usage_tokens (new_usage u rid c rt a ''reserved'' p) = mc_estimated_input_tokens c"
  by (simp add: usage_tokens_def new_usage_def nonneg_tokens_def)

lemma model_policy_update [simp]: "model_policy (r\<lparr>status_version := v\<rparr>) = model_policy r"
  by (simp add: model_policy_def)

text \<open>C11. Reservations never overdraw the frozen model budget: when a reservation is granted, the
  calls, the cost and the tokens of all usage rows of the run, the reserved ones included, are
  within the limits frozen in the run's capability snapshot; it was granted to the current lease
  holder for its running step; and when it is refused nothing is written.\<close>

theorem reserve_within_budget:
  assumes inv: "inv_db s" and res: "reserve c rt now s = (code, uid, s')"
    and rt: "route_ok rt" and tok: "0 \<le> mc_estimated_input_tokens c"
    and r: "find_run s (mc_run_id c) = Some r"
  shows "(case code of
      Some _ \<Rightarrow> uid = None \<and> s' = s
    | None \<Rightarrow> context_is_authoritative c now s \<and>
        (\<exists>u r'. uid = Some u \<and> find_run s' (mc_run_id c) = Some r' \<and> fencing_token r' = x_fencing_token (mc_lease c) \<and>
           calls_within s' r' \<and> cost_within s' r' \<and> tokens_within s' r'))"
  using inv res [unfolded reserve_def]
proof (cases rule: reserve_tries_cases)
  case (refused e)
  then show ?thesis by simp
next
  case (granted r0 u)
  let ?r' = "r\<lparr>status_version := status_version r + 1\<rparr>"
  have [simp]: "r0 = r" and id: "run_id r = mc_run_id c" using granted(3) r find_run_id [OF r] by simp_all
  have us: "run_usages s' (mc_run_id c) = run_usages s (mc_run_id c) @
      [new_usage u (mc_run_id c) c rt (next_model_attempt c s) ''reserved'' None]"
    by (rule run_usages_granted) (simp add: granted(6))
  have r': "find_run s' (mc_run_id c) = Some ?r'"
    using r id by (simp add: granted(6) find_run_def sel_key_upd_where)
  have price: "0 \<le> rt_input_price rt" using rt by (simp add: route_ok_def)
  have b: "evaluate_budget r c rt s = None" using granted(5) by simp
  have "calls_within s' ?r'"
    using b id us by (auto simp: evaluate_budget_def Let_def calls_within_def split: if_splits option.splits)
  moreover have "cost_within s' ?r'"
    using b id us new_usage_cost [OF price tok]
    by (auto simp: evaluate_budget_def Let_def cost_within_def split: if_splits option.splits)
  moreover have "tokens_within s' ?r'"
    using b id us new_usage_tokens [OF tok]
    by (auto simp: evaluate_budget_def Let_def tokens_within_def split: if_splits option.splits)
  moreover have "fencing_token r = x_fencing_token (mc_lease c)"
    using granted(4) r by (auto simp: context_is_authoritative_def run_is_executable_def split: option.splits)
  ultimately show ?thesis using granted(1,2,4) r' by simp
qed

definition demo_route :: model_route where
  "demo_route = \<lparr>rt_route_id = ''m'', rt_provider = ''p'', rt_model = ''x'', rt_price_unit = ''usd_per_1k_tokens'',
     rt_input_price = 1, rt_output_price = 2, rt_route_config_version = ''v1'', rt_pricing_config_version = ''v1'',
     rt_capabilities = [''structured_output''], rt_data_residency = ''public'', rt_max_context_tokens = 100,
     rt_max_output_tokens = 50\<rparr>"

definition demo_call :: model_context where
  "demo_call = \<lparr>mc_run_id = ''0'', mc_step_id = ''s'', mc_model_attempt = 1, mc_lease = demo_ctx,
     mc_estimated_input_tokens = 10, mc_request_deadline_at = Some 50, mc_allowed_route_ids = {''m''},
     mc_tenant_id = ''t'', mc_required_data_residency = None\<rparr>"

definition demo_metered :: db where
  "demo_metered = (demo_db (demo_claimed\<lparr>capability_snapshot_json :=
       JObj [(''model_policy'', JObj [(''max_model_calls'', JInt 1)])]\<rparr>))\<lparr>steps := [\<lparr>step_id = ''s'', s_run_id = ''0'',
     step_name = ''draft'', step_type = ''model'', s_status = ''running'', s_execution_attempt = 1, step_attempt = 1,
     s_input_summary = JNull, s_output_summary = JNull, s_error_code = None, s_started_at = None, s_finished_at = None\<rparr>]\<rparr>"

lemma inv_demo_metered: "inv_db demo_metered"
proof -
  let ?r = "demo_claimed\<lparr>capability_snapshot_json := JObj [(''model_policy'', JObj [(''max_model_calls'', JInt 1)])]\<rparr>"
  have "inv_db (demo_db ?r)"
    by (rule inv_demo) (use row_demo(6) in \<open>simp_all add: row_ok_def demo_claimed_def demo_run_def\<close>)
  then show ?thesis by (rule soundD(1) [OF sound_frame]) (simp_all add: demo_metered_def)
qed

theorem reserve_within_budget_witness:
  "\<exists>u s' r'. reserve demo_call demo_route 5 demo_metered = (None, Some u, s') \<and>
     find_run s' ''0'' = Some r' \<and> calls_within s' r'"
proof -
  obtain code uid s' where m: "reserve demo_call demo_route 5 demo_metered = (code, uid, s')"
    using prod_cases3 by blast
  have "fst (reserve demo_call demo_route 5 demo_metered) = None" by code_simp
  then have code: "code = None" by (simp add: m)
  have rt: "route_ok demo_route" "0 \<le> mc_estimated_input_tokens demo_call"
    by (simp_all add: route_ok_def demo_route_def demo_call_def)
  have r: "find_run demo_metered (mc_run_id demo_call) = Some (hd (runs demo_metered))" by code_simp
  have "mc_run_id demo_call = ''0''" by (simp add: demo_call_def)
  with reserve_within_budget [OF inv_demo_metered m rt r] code m show ?thesis by auto
qed

end
