(* ===== verification/Agent_State.thy ===== *)
theory Agent_State
  imports Runtime_Model
begin

text \<open>
  The in-memory state of a workflow (\<open>app/runtime/state.py\<close>): the container the nodes read
  and write, and the gate through which a tool result enters it. Optional fields hold
  \<open>JNull\<close> for \<open>None\<close>.
\<close>

section \<open>The container\<close>

record agent_state =
  run_input :: dict
  st_snapshot :: json
  sanitized_material :: json
  stats :: json
  highlights :: json
  chapter_plan :: json
  scenes :: json
  actions :: json
  playback_document :: json
  publish_result :: json
  media_tasks :: json
  safety_report :: json
  trust_metadata :: "(string \<times> string) list"
  errors :: "string list"
  fallback_flags :: "string list"
  completed_node_ids :: "string list"

definition new_state :: "dict \<Rightarrow> string list \<Rightarrow> string list \<Rightarrow> agent_state" where
  "new_state inp flags completed =
     \<lparr>run_input = inp, st_snapshot = JNull, sanitized_material = JNull, stats = JNull, highlights = JNull,
      chapter_plan = JNull, scenes = JNull, actions = JNull, playback_document = JNull,
      publish_result = JNull, media_tasks = JNull, safety_report = JNull, trust_metadata = [],
      errors = [], fallback_flags = flags, completed_node_ids = completed\<rparr>"

definition checkpoint_summary :: "agent_state \<Rightarrow> dict" where
  "checkpoint_summary st =
     [(''completed_node_ids'', JList (map JStr (completed_node_ids st))),
      (''fallback_flags'', JList (map JStr (fallback_flags st)))]"

section \<open>Tool results\<close>

definition dict_fields :: "string list" where
  "dict_fields = [''snapshot'', ''sanitized_material'', ''stats'', ''highlights'', ''chapter_plan'',
     ''playback_document'', ''publish_result'', ''safety_report'']"

definition list_fields :: "string list" where
  "list_fields = [''scenes'', ''actions'', ''media_tasks'']"

definition safe_tool_output_fields :: "string list" where
  "safe_tool_output_fields = dict_fields @ list_fields"

definition sensitive_tool_output_keys :: "string list" where
  "sensitive_tool_output_keys =
     [''identity'', ''caller_id'', ''tenant_id'', ''user_id'', ''authorization'', ''authorization_version'',
      ''permission'', ''privacy'', ''privacy_version'', ''connector'', ''connector_id'', ''endpoint'', ''url'',
      ''generation'', ''generation_epoch'', ''execution_attempt'', ''fencing_token'', ''run_id'', ''step_id'',
      ''version'', ''contract_version'', ''package_digest'', ''callback_target'', ''idempotency_key'',
      ''secret'', ''token'', ''access_token'', ''api_key'', ''password'']"

definition lower_char :: "char \<Rightarrow> char" where
  "lower_char c = (let n = (of_char c :: nat) in if 65 \<le> n \<and> n \<le> 90 then char_of (n + 32) else c)"

definition lower :: "string \<Rightarrow> string" where
  "lower x = map lower_char x"

fun contains_sensitive_tool_key :: "json \<Rightarrow> bool" where
  "contains_sensitive_tool_key (JObj d) =
     list_ex (\<lambda>kv. lower (fst kv) \<in> set sensitive_tool_output_keys \<or> contains_sensitive_tool_key (snd kv)) d"
| "contains_sensitive_tool_key (JList xs) = list_ex contains_sensitive_tool_key xs"
| "contains_sensitive_tool_key _ = False"

definition opt_dict :: "json \<Rightarrow> bool" where
  "opt_dict v \<longleftrightarrow> v = JNull \<or> is_obj v"

fun opt_dict_list :: "json \<Rightarrow> bool" where
  "opt_dict_list JNull = True"
| "opt_dict_list (JList xs) = list_all is_obj xs"
| "opt_dict_list _ = False"

definition get_field :: "string \<Rightarrow> agent_state \<Rightarrow> json" where
  "get_field f st =
     (if f = ''snapshot'' then st_snapshot st
      else if f = ''sanitized_material'' then sanitized_material st
      else if f = ''stats'' then stats st
      else if f = ''highlights'' then highlights st
      else if f = ''chapter_plan'' then chapter_plan st
      else if f = ''scenes'' then scenes st
      else if f = ''actions'' then actions st
      else if f = ''playback_document'' then playback_document st
      else if f = ''publish_result'' then publish_result st
      else if f = ''media_tasks'' then media_tasks st
      else if f = ''safety_report'' then safety_report st
      else JNull)"

definition set_field :: "string \<Rightarrow> json \<Rightarrow> agent_state \<Rightarrow> agent_state" where
  "set_field f v st =
     (if f = ''snapshot'' then st\<lparr>st_snapshot := v\<rparr>
      else if f = ''sanitized_material'' then st\<lparr>sanitized_material := v\<rparr>
      else if f = ''stats'' then st\<lparr>stats := v\<rparr>
      else if f = ''highlights'' then st\<lparr>highlights := v\<rparr>
      else if f = ''chapter_plan'' then st\<lparr>chapter_plan := v\<rparr>
      else if f = ''scenes'' then st\<lparr>scenes := v\<rparr>
      else if f = ''actions'' then st\<lparr>actions := v\<rparr>
      else if f = ''playback_document'' then st\<lparr>playback_document := v\<rparr>
      else if f = ''publish_result'' then st\<lparr>publish_result := v\<rparr>
      else if f = ''media_tasks'' then st\<lparr>media_tasks := v\<rparr>
      else if f = ''safety_report'' then st\<lparr>safety_report := v\<rparr>
      else st)"

text \<open>The declared types of the container's business fields.\<close>

definition state_valid :: "agent_state \<Rightarrow> bool" where
  "state_valid st \<longleftrightarrow> list_all (\<lambda>f. opt_dict (get_field f st)) dict_fields \<and>
     list_all (\<lambda>f. opt_dict_list (get_field f st)) list_fields"

definition apply_tool_output :: "string \<Rightarrow> json \<Rightarrow> agent_state \<Rightarrow> runtime_error + agent_state" where
  "apply_tool_output target out st =
     (if target \<notin> set safe_tool_output_fields then Inl (ValueError ''TOOL_OUTPUT_TARGET_FORBIDDEN'')
      else if contains_sensitive_tool_key out then Inl (ValueError ''TOOL_OUTPUT_SENSITIVE_FIELD'')
      else if \<not> state_valid (set_field target out st) then Inl (ValueError ''validation'')
      else Inr (set_field target out st))"

section \<open>Properties\<close>

text \<open>A path of keys and indices into a JSON value, as the reference for the recursive scan.\<close>

inductive subvalue :: "json \<Rightarrow> json \<Rightarrow> bool" where
  sub_self: "subvalue v v"
| sub_item: "subvalue x v \<Longrightarrow> x \<in> set xs \<Longrightarrow> subvalue (JList xs) v"
| sub_entry: "subvalue x v \<Longrightarrow> (k, x) \<in> set d \<Longrightarrow> subvalue (JObj d) v"

definition sensitive_entry :: "json \<Rightarrow> bool" where
  "sensitive_entry v \<longleftrightarrow> (\<exists>d k x. v = JObj d \<and> (k, x) \<in> set d \<and> lower k \<in> set sensitive_tool_output_keys)"

lemma contains_sensitive_iff: "contains_sensitive_tool_key v \<longleftrightarrow> (\<exists>w. subvalue v w \<and> sensitive_entry w)"
proof
  show "contains_sensitive_tool_key v \<Longrightarrow> \<exists>w. subvalue v w \<and> sensitive_entry w"
  proof (induction v rule: contains_sensitive_tool_key.induct)
    case (1 d)
    then obtain k x where kx: "(k, x) \<in> set d"
      "lower k \<in> set sensitive_tool_output_keys \<or> contains_sensitive_tool_key x" by (auto simp: list_ex_iff)
    from kx(2) show ?case
    proof
      assume "lower k \<in> set sensitive_tool_output_keys"
      with kx(1) show ?thesis by (auto simp: sensitive_entry_def intro: sub_self)
    next
      assume "contains_sensitive_tool_key x"
      with 1(1) [OF kx(1)] kx(1) show ?thesis by (auto intro: sub_entry)
    qed
  next
    case (2 xs)
    then obtain x where "x \<in> set xs" "contains_sensitive_tool_key x" by (auto simp: list_ex_iff)
    with 2(1) show ?case by (blast intro: sub_item)
  qed simp_all
  show "\<exists>w. subvalue v w \<and> sensitive_entry w \<Longrightarrow> contains_sensitive_tool_key v"
  proof (elim exE conjE)
    fix w assume "subvalue v w" "sensitive_entry w"
    then show "contains_sensitive_tool_key v"
      by (induction rule: subvalue.induct) (force simp: sensitive_entry_def list_ex_iff)+
  qed
qed

lemma get_set_field:
  "list_all (\<lambda>t. list_all (\<lambda>f. get_field f (set_field t v st) = (if f = t then v else get_field f st))
     safe_tool_output_fields) safe_tool_output_fields"
  by (simp add: safe_tool_output_fields_def dict_fields_def list_fields_def get_field_def set_field_def)

text \<open>The gate for tool results accepts exactly the results that keep control data out: the
  target is one of the business fields, no object anywhere inside the result has a key that
  lower-cases to a control or credential name, and the fields keep their declared types. What it
  accepts changes the target field only, so the completed nodes, the run input and the trust
  metadata never come from a tool.\<close>

lemma tool_output_gate:
  "apply_tool_output target out st = Inr st' \<longleftrightarrow>
     st' = set_field target out st \<and> target \<in> set safe_tool_output_fields \<and>
     (\<nexists>w. subvalue out w \<and> sensitive_entry w) \<and> state_valid (set_field target out st) \<and>
     run_input st' = run_input st \<and> trust_metadata st' = trust_metadata st \<and>
     completed_node_ids st' = completed_node_ids st \<and> fallback_flags st' = fallback_flags st \<and>
     errors st' = errors st \<and>
     list_all (\<lambda>f. get_field f st' = (if f = target then out else get_field f st)) safe_tool_output_fields"
proof -
  have frame: "run_input (set_field target out st) = run_input st"
    "trust_metadata (set_field target out st) = trust_metadata st"
    "completed_node_ids (set_field target out st) = completed_node_ids st"
    "fallback_flags (set_field target out st) = fallback_flags st" "errors (set_field target out st) = errors st"
    by (simp_all add: set_field_def)
  have "target \<in> set safe_tool_output_fields \<Longrightarrow>
      list_all (\<lambda>f. get_field f (set_field target out st) = (if f = target then out else get_field f st)) safe_tool_output_fields"
    using get_set_field [of out st] by (simp add: list_all_iff)
  then show ?thesis
    using frame by (auto simp: apply_tool_output_def contains_sensitive_iff list_all_iff)
qed

end
