(* ===== verification/Bounded_Loop.thy ===== *)
theory Bounded_Loop
  imports Policy_Engine Agent_State
begin

text \<open>
  The frozen semantics of controlled loops (\<open>app/runtime/bounded_loop.py\<close>): the result of one
  iteration, the budget a loop inherits from its run, the run-time check of the loop policy and
  the merge of iteration products. \<open>Inl code\<close> is \<open>LoopBudgetError(code)\<close>.
\<close>

section \<open>Iteration results\<close>

datatype loop_outcome = LoopContinue | LoopComplete | LoopPartial | LoopFailed

record iteration_result =
  it_outcome :: loop_outcome
  it_reason_code :: "string option"
  output_count :: int
  coverage_count :: int

definition parse_outcome :: "json \<Rightarrow> loop_outcome option" where
  "parse_outcome v =
     (if v = JStr ''continue'' then Some LoopContinue
      else if v = JStr ''complete'' then Some LoopComplete
      else if v = JStr ''partial'' then Some LoopPartial
      else if v = JStr ''failed'' then Some LoopFailed else None)"

definition parse_count :: "json option \<Rightarrow> int option" where
  "parse_count v = (case v of None \<Rightarrow> Some 0 | Some j \<Rightarrow> nonneg_int j)"

definition parse_reason :: "json \<Rightarrow> string option option" where
  "parse_reason v = (case v of JNull \<Rightarrow> Some None | JStr x \<Rightarrow> Some (Some x) | _ \<Rightarrow> None)"

text \<open>\<open>LoopIterationResult.model_validate\<close>: a closed object. Counts given as something other than
  a JSON integer are refused here, which is narrower than the coercions of the schema library.\<close>

fun validate_iteration :: "json \<Rightarrow> iteration_result option" where
  "validate_iteration (JObj d) =
     (if list_all (\<lambda>kv. fst kv \<in> {''outcome'', ''reason_code'', ''output_count'', ''coverage_count''}) d then
        (case (parse_outcome (dget d ''outcome''), parse_reason (dget d ''reason_code''),
               parse_count (map_of d ''output_count''), parse_count (map_of d ''coverage_count'')) of
           (Some out, Some why, Some n, Some c) \<Rightarrow>
             Some \<lparr>it_outcome = out, it_reason_code = why, output_count = n, coverage_count = c\<rparr>
         | _ \<Rightarrow> None)
      else None)"
| "validate_iteration _ = None"

section \<open>Policy\<close>

definition frozen_loop_literals :: "(string \<times> string) list" where
  "frozen_loop_literals =
     [(''budget_strategy'', ''inherit_run_limits_v1''), (''merge_strategy'', ''append_unique_by_key''),
      (''merge_key'', ''scene_id''), (''on_iteration_error'', ''continue'')]"

fun nonempty_str :: "json \<Rightarrow> bool" where
  "nonempty_str (JStr x) = (x \<noteq> '''')"
| "nonempty_str _ = False"

definition body_ids_ok :: "json \<Rightarrow> bool" where
  "body_ids_ok v = (case v of JList xs \<Rightarrow> xs \<noteq> [] \<and> list_all nonempty_str xs | _ \<Rightarrow> False)"

definition validated_loop_policy :: "dict \<Rightarrow> dict option" where
  "validated_loop_policy node =
     (case dget node ''loop_policy'' of
        JObj p \<Rightarrow>
          if list_all (\<lambda>(k, v). dget p k = JStr v) frozen_loop_literals \<and>
             dget p ''on_budget_exhausted'' \<in> {JStr ''partial'', JStr ''failed''} \<and>
             body_ids_ok (dget p ''body_node_ids'')
          then Some p else None
      | _ \<Rightarrow> None)"

section \<open>Budget\<close>

record loop_budget =
  max_iterations :: int
  remaining_model_calls :: int
  remaining_tokens :: int
  remaining_cost :: rat
  remaining_ms :: int

definition pos_int :: "json \<Rightarrow> int option" where
  "pos_int v = (case v of JInt n \<Rightarrow> if 0 < n then Some n else None | _ \<Rightarrow> None)"

definition pos_finite :: "json \<Rightarrow> rat option" where
  "pos_finite v =
     (case v of
        JInt n \<Rightarrow> if 0 < n then Some (of_int n) else None
      | JFloat (Fin q) \<Rightarrow> if 0 < q then Some q else None
      | _ \<Rightarrow> None)"

definition frozen_limits :: "agent_run \<Rightarrow> string + (int \<times> int \<times> rat \<times> int)" where
  "frozen_limits r =
     (let mp = jget (capability_snapshot_json r) ''model_policy'';
          xp = jget (capability_snapshot_json r) ''execution_policy''
      in case (pos_int (jget mp ''max_model_calls''), pos_int (jget mp ''max_tokens''),
               pos_finite (jget mp ''max_model_cost''), pos_int (jget xp ''max_run_seconds'')) of
           (Some c, Some t, Some q, Some n) \<Rightarrow> Inr (c, t, q, n)
         | _ \<Rightarrow> Inl ''LOOP_BUDGET_PROFILE_INVALID'')"

definition usage_snapshot :: "db \<Rightarrow> string \<Rightarrow> int \<times> int \<times> rat" where
  "usage_snapshot s rid =
     (let us = run_usages s rid
      in (int (length us), sum_list (map usage_tokens us), sum_list (map usage_cost us)))"

definition exhausted :: "loop_budget \<Rightarrow> bool" where
  "exhausted b \<longleftrightarrow> remaining_model_calls b \<le> 0 \<or> remaining_tokens b \<le> 0 \<or> remaining_cost b \<le> 0 \<or>
     remaining_ms b \<le> 0"

definition derive_inherited_budget :: "db \<Rightarrow> agent_run \<Rightarrow> string + loop_budget" where
  "derive_inherited_budget s r =
     res_bind (frozen_limits r) (\<lambda>(mc, mt, mq, ms).
     case usage_snapshot s (run_id r) of (calls, toks, cost) \<Rightarrow>
       (let b = \<lparr>max_iterations = mc - calls, remaining_model_calls = mc - calls,
                 remaining_tokens = mt - toks, remaining_cost = mq - cost,
                 remaining_ms = ms * 1000 - active_elapsed_ms r\<rparr>
        in if exhausted b then Inl ''LOOP_BUDGET_EXHAUSTED'' else Inr b))"

definition recompute_loop_remaining :: "db \<Rightarrow> agent_run \<Rightarrow> loop_budget \<Rightarrow> rat \<Rightarrow> string + loop_budget" where
  "recompute_loop_remaining s r base loop_elapsed_ms =
     res_bind (frozen_limits r) (\<lambda>(mc, mt, mq, ms).
     case usage_snapshot s (run_id r) of (calls, toks, cost) \<Rightarrow>
       Inr \<lparr>max_iterations = max_iterations base, remaining_model_calls = mc - calls,
            remaining_tokens = mt - toks, remaining_cost = mq - cost,
            remaining_ms = ms * 1000 - (active_elapsed_ms r + py_int loop_elapsed_ms)\<rparr>)"

section \<open>Merge\<close>

definition scene_key :: "json \<Rightarrow> string option" where
  "scene_key v = (case jget v ''scene_id'' of JStr k \<Rightarrow> Some k | _ \<Rightarrow> None)"

fun merge_loop :: "string list \<Rightarrow> json list \<Rightarrow> json list" where
  "merge_loop seen [] = []"
| "merge_loop seen (x # xs) =
     (case scene_key x of
        Some k \<Rightarrow> if k \<in> set seen then merge_loop seen xs else x # merge_loop (k # seen) xs
      | None \<Rightarrow> x # merge_loop seen xs)"

definition merge_unique_scenes :: "agent_state \<Rightarrow> nat \<times> agent_state" where
  "merge_unique_scenes st =
     (case scenes st of
        JList xs \<Rightarrow> (length xs - length (merge_loop [] xs), st\<lparr>scenes := JList (merge_loop [] xs)\<rparr>)
      | _ \<Rightarrow> (0, st))"

section \<open>Properties\<close>

lemma merge_loop_spec:
  "merge_loop seen xs = nths xs {i. i < length xs \<and>
     (case scene_key (xs ! i) of None \<Rightarrow> True
      | Some k \<Rightarrow> k \<notin> set seen \<and> (\<forall>j<i. scene_key (xs ! j) \<noteq> Some k))}"
proof (induction xs arbitrary: seen)
  case Nil
  then show ?case by simp
next
  case (Cons x xs)
  show ?case
    by (cases "scene_key x")
       (auto simp: nths_Cons Cons.IH All_less_Suc2 split: option.splits intro!: arg_cong [of _ _ "nths xs"])
qed

lemma merge_loop_idem: "merge_loop seen (merge_loop seen xs) = merge_loop seen xs"
  by (induction xs arbitrary: seen) (auto split: option.split)

text \<open>The positions whose scene has no key, or a key that did not occur before.\<close>

definition first_occurrences :: "json list \<Rightarrow> nat set" where
  "first_occurrences xs = {i. i < length xs \<and>
     (case scene_key (xs ! i) of None \<Rightarrow> True | Some k \<Rightarrow> \<forall>j<i. scene_key (xs ! j) \<noteq> Some k)}"

text \<open>Merging the scenes of a loop keeps, in order, exactly the scenes without a key and the
  first scene of every key, reports how many it dropped, touches nothing else of the state, and
  merging again drops nothing: a later iteration cannot overwrite a scene.\<close>

lemma merge_keeps_first:
  assumes xs: "scenes st = JList xs" and m: "merge_unique_scenes st = (n, st')"
  shows "scenes st' = JList (nths xs (first_occurrences xs)) \<and>
    n = length xs - card (first_occurrences xs) \<and> st' = st\<lparr>scenes := scenes st'\<rparr> \<and>
    merge_unique_scenes st' = (0, st')"
proof -
  have ml: "merge_loop [] xs = nths xs (first_occurrences xs)"
    by (simp add: merge_loop_spec first_occurrences_def cong: option.case_cong)
  have "{i. i < length xs \<and> i \<in> first_occurrences xs} = first_occurrences xs"
    by (auto simp: first_occurrences_def)
  then have "length (merge_loop [] xs) = card (first_occurrences xs)" by (simp add: ml length_nths)
  then show ?thesis
    using m xs merge_loop_idem [of "[]" xs] by (auto simp: merge_unique_scenes_def ml [symmetric])
qed

text \<open>What a loop requires is what the reservation gate enforces, on the same ledger.\<close>

lemma frozen_limits_policy:
  assumes "frozen_limits r = Inr (mc, mt, mq, ms)"
  shows "nonneg_int (jget (model_policy r) ''max_model_calls'') = Some mc"
    "nonneg_int (jget (model_policy r) ''max_tokens'') = Some mt"
    "nonneg_finite (jget (model_policy r) ''max_model_cost'') = Some mq"
proof -
  let ?mp = "jget (capability_snapshot_json r) ''model_policy''"
  have p: "pos_int (jget ?mp ''max_model_calls'') = Some mc" "pos_int (jget ?mp ''max_tokens'') = Some mt"
    "pos_finite (jget ?mp ''max_model_cost'') = Some mq"
    using assms by (auto simp: frozen_limits_def Let_def split: option.splits)
  then have mp: "model_policy r = ?mp"
    by (cases ?mp) (auto simp: model_policy_def pos_int_def)
  show "nonneg_int (jget (model_policy r) ''max_model_calls'') = Some mc"
    "nonneg_int (jget (model_policy r) ''max_tokens'') = Some mt"
    "nonneg_finite (jget (model_policy r) ''max_model_cost'') = Some mq"
    unfolding mp using p
    by (auto simp: pos_int_def nonneg_int_def pos_finite_def nonneg_finite_def split: json.splits pyfloat.splits if_splits)
qed

text \<open>The loop and the model gateway agree on the budget: whenever the balance that a loop
  recomputes from the usage ledger is used up in model calls, tokens or cost, the reservation gate
  refuses every further model call of the run on every valid route; and it refuses for the number
  of calls exactly when the loop counts none left.\<close>

lemma loop_budget_matches_gateway:
  assumes b: "recompute_loop_remaining s r base elapsed = Inr b"
    and rt: "route_ok rt" and est: "0 < mc_estimated_input_tokens c"
  shows "(remaining_model_calls b \<le> 0 \<or> remaining_tokens b \<le> 0 \<or> remaining_cost b \<le> 0 \<longrightarrow>
      evaluate_budget r c rt s \<noteq> None) \<and>
    (evaluate_budget r c rt s = Some ''MODEL_CALL_LIMIT_EXCEEDED'' \<longleftrightarrow> remaining_model_calls b \<le> 0)"
proof -
  from b obtain mc mt mq ms where f: "frozen_limits r = Inr (mc, mt, mq, ms)"
    and eq: "remaining_model_calls b = mc - int (length (run_usages s (run_id r)))"
      "remaining_tokens b = mt - sum_list (map usage_tokens (run_usages s (run_id r)))"
      "remaining_cost b = mq - sum_list (map usage_cost (run_usages s (run_id r)))"
    by (auto simp: recompute_loop_remaining_def usage_snapshot_def Let_def res_simps)
  have "0 \<le> input_cost rt (mc_estimated_input_tokens c)"
    using rt est by (simp add: input_cost_def route_ok_def)
  then show ?thesis
    using est by (auto simp: evaluate_budget_def Let_def frozen_limits_policy [OF f] eq)
qed

definition demo_limited :: agent_run where
  "demo_limited = demo_claimed\<lparr>capability_snapshot_json :=
     JObj [(''model_policy'', JObj [(''max_model_calls'', JInt 2), (''max_tokens'', JInt 100), (''max_model_cost'', JInt 5)]),
           (''execution_policy'', JObj [(''max_run_seconds'', JInt 300)])]\<rparr>"

end
