(* ===== verification/Executor.thy ===== *)
theory Executor
  imports Checkpoint_Store Bounded_Loop Planner
begin

text \<open>
  The workflow executor (\<open>app/runtime/executor.py\<close>) and the queue consumer
  (\<open>app/services/run_queue_service.py\<close>). A frozen plan is run node by node under a lease; every
  node ends in an artifact and an encrypted checkpoint.

  What the executor does not own is the record \<open>world\<close>: the wall clock and the monotonic clock,
  the drain flag, the authorization resolver, the codec and the node runner of the agent. Every
  reading takes a fresh index (\<open>v_tick\<close>), so that clocks, flags and runners are arbitrary. A
  runner maps the in-memory state and the database to what it leaves behind, including what other
  processes commit meanwhile. The loop of automatic retries may depend on the runner and takes
  its fuel from \<open>world\<close>; the loop of iterations ends by itself.
\<close>

section \<open>World and state\<close>

datatype node_outcome = NodeResult dict | NodeRetryable | NodeRaised

record loop_runner =
  begin_loop :: "nat \<Rightarrow> dict \<Rightarrow> loop_budget \<Rightarrow> agent_state \<Rightarrow> db \<Rightarrow> bool \<times> agent_state \<times> db"
  run_loop_iteration :: "nat \<Rightarrow> dict \<Rightarrow> nat \<Rightarrow> loop_budget \<Rightarrow> agent_state \<Rightarrow> db \<Rightarrow> json option \<times> agent_state \<times> db"
  finalize_loop :: "nat \<Rightarrow> dict \<Rightarrow> agent_state \<Rightarrow> db \<Rightarrow> json option \<times> agent_state \<times> db"

record world =
  w_clock :: "nat \<Rightarrow> time"
  w_mono :: "nat \<Rightarrow> rat"
  w_draining :: "nat \<Rightarrow> bool"
  w_node :: "nat \<Rightarrow> dict \<Rightarrow> lease_context \<Rightarrow> agent_state \<Rightarrow> db \<Rightarrow> node_outcome \<times> agent_state \<times> db"
  w_loop :: "loop_runner option"
  w_resolver :: "(agent_run \<Rightarrow> runtime_error + int option) option"
  w_codec :: codec
  w_fuel :: nat

record vars =
  v_db :: db
  v_st :: agent_state
  v_ctx :: lease_context
  v_tick :: nat

text \<open>How a part of the executor stops: it returns a result, raises, or runs out of fuel.\<close>

datatype stop = Return agent_run_result | Raise runtime_error | OutOfFuel

type_synonym 'a exec = "vars \<Rightarrow> (stop + 'a) \<times> vars"

definition ex_ret :: "'a \<Rightarrow> 'a exec" where
  "ex_ret x v = (Inr x, v)"

definition ex_stop :: "stop \<Rightarrow> 'a exec" where
  "ex_stop e v = (Inl e, v)"

definition ex_bind :: "'a exec \<Rightarrow> ('a \<Rightarrow> 'b exec) \<Rightarrow> 'b exec" where
  "ex_bind m f v = (case m v of (Inl e, v') \<Rightarrow> (Inl e, v') | (Inr x, v') \<Rightarrow> f x v')"

text \<open>\<open>except Exception\<close>.\<close>

definition ex_catch :: "'a exec \<Rightarrow> 'a exec \<Rightarrow> 'a exec" where
  "ex_catch m h v = (case m v of (Inl (Raise e), v') \<Rightarrow> h v' | r \<Rightarrow> r)"

definition ex_when :: "bool \<Rightarrow> unit exec \<Rightarrow> unit exec" where
  "ex_when b m = (if b then m else ex_ret ())"

definition ex_get :: "(vars \<Rightarrow> 'a) \<Rightarrow> 'a exec" where
  "ex_get f v = (Inr (f v), v)"

definition ex_read :: "(nat \<Rightarrow> 'a) \<Rightarrow> 'a exec" where
  "ex_read g v = (Inr (g (v_tick v)), v\<lparr>v_tick := Suc (v_tick v)\<rparr>)"

definition ex_db :: "(db \<Rightarrow> db) \<Rightarrow> unit exec" where
  "ex_db f v = (Inr (), v\<lparr>v_db := f (v_db v)\<rparr>)"

definition ex_res :: "(lease_context \<Rightarrow> db \<Rightarrow> runtime_error + ('a \<times> db)) \<Rightarrow> 'a exec" where
  "ex_res m v =
     (case m (v_ctx v) (v_db v) of
        Inl e \<Rightarrow> (Inl (Raise e), v) | Inr (x, s) \<Rightarrow> (Inr x, v\<lparr>v_db := s\<rparr>))"

section \<open>Boundaries\<close>

definition the_run :: "string \<Rightarrow> agent_run exec" where
  "the_run rid v =
     (case find_run (v_db v) rid of None \<Rightarrow> (Inl (Raise AssertionError), v) | Some r \<Rightarrow> (Inr r, v))"

definition run_result :: "string \<Rightarrow> run_status \<Rightarrow> json \<Rightarrow> string option \<Rightarrow> lease_context \<Rightarrow> agent_run_result" where
  "run_result rid st out err ctx = \<lparr>res_run_id = rid, res_status = st,
     res_execution_attempt = x_execution_attempt ctx, res_output_summary = out, res_error_code = err\<rparr>"

definition ex_return :: "string \<Rightarrow> run_status \<Rightarrow> json \<Rightarrow> string option \<Rightarrow> 'a exec" where
  "ex_return rid st out err v = (Inl (Return (run_result rid st out err (v_ctx v))), v)"

definition fail :: "string \<Rightarrow> string \<Rightarrow> 'a exec" where
  "fail rid code = ex_return rid Failed JNull (Some code)"

definition steps_summary :: "int \<Rightarrow> json" where
  "steps_summary n = JObj [(''completed_steps'', JInt n)]"

definition draining_result :: "string \<Rightarrow> int \<Rightarrow> 'a exec" where
  "draining_result rid n = ex_return rid Pending (steps_summary n) (Some ''WORKFLOW_DRAINING'')"

definition x_can_write :: "world \<Rightarrow> string \<Rightarrow> bool exec" where
  "x_can_write w rid =
     ex_bind (ex_read (w_clock w)) (\<lambda>now. ex_get (\<lambda>v. can_write rid (v_ctx v) now (v_db v)))"

definition x_heartbeat :: "world \<Rightarrow> string \<Rightarrow> bool exec" where
  "x_heartbeat w rid =
     ex_bind (ex_read (w_clock w)) (\<lambda>now v.
       case heartbeat 90 rid (v_ctx v) now (v_db v) of
         (ok, ctx, s) \<Rightarrow> (Inr ok, v\<lparr>v_ctx := ctx, v_db := s\<rparr>))"

definition authorization_changed :: "world \<Rightarrow> string \<Rightarrow> bool exec" where
  "authorization_changed w rid =
     ex_bind (the_run rid) (\<lambda>r.
       case w_resolver w of
         None \<Rightarrow> ex_ret False
       | Some f \<Rightarrow> (case f r of
           Inl e \<Rightarrow> ex_stop (Raise e)
         | Inr current \<Rightarrow> ex_ret (current \<noteq> Some (authorization_version r))))"

definition package_revoked :: "string \<Rightarrow> bool exec" where
  "package_revoked rid = ex_bind (the_run rid) (\<lambda>r. ex_get (\<lambda>v. \<not> package_executable (v_db v) r))"

text \<open>Record the cancellation on the run, audit it and return \<open>cancelled\<close>.\<close>

definition cancel_with :: "world \<Rightarrow> string \<Rightarrow> string \<Rightarrow> string \<Rightarrow> 'a exec" where
  "cancel_with w rid act code =
     ex_bind (ex_read (w_clock w)) (\<lambda>t.
     ex_bind (ex_db (set_run rid (\<lambda>r. r\<lparr>cancel_requested_at := Some t\<rparr>))) (\<lambda>_.
     ex_bind (the_run rid) (\<lambda>r.
     ex_bind (ex_read (w_clock w)) (\<lambda>now.
     ex_bind (ex_db (append_audit_record ''system'' ''workflow_executor'' act ''agent_run'' rid (Some code)
        ''cancel_requested'' (Some (trace_id r)) [(''status'', status_string (status r))] now)) (\<lambda>_.
     ex_return rid Cancelled JNull (Some code))))))"

definition check_authority :: "world \<Rightarrow> string \<Rightarrow> unit exec" where
  "check_authority w rid =
     ex_bind (authorization_changed w rid) (\<lambda>changed.
     if changed then cancel_with w rid ''agent_run_authorization_changed'' ''AUTHORIZATION_CHANGED''
     else ex_bind (package_revoked rid) (\<lambda>revoked.
       ex_when revoked (cancel_with w rid ''agent_run_package_revoked'' ''PACKAGE_REVOKED'')))"

definition require_lease :: "world \<Rightarrow> string \<Rightarrow> unit exec" where
  "require_lease w rid =
     ex_bind (x_can_write w rid) (\<lambda>ok. ex_when (\<not> ok) (fail rid ''LEASE_CONTEXT_INVALID''))"

definition renew_lease :: "world \<Rightarrow> string \<Rightarrow> unit exec" where
  "renew_lease w rid =
     ex_bind (x_heartbeat w rid) (\<lambda>ok.
       if ok then require_lease w rid else fail rid ''LEASE_CONTEXT_INVALID'')"

definition check_draining :: "world \<Rightarrow> string \<Rightarrow> int \<Rightarrow> unit exec" where
  "check_draining w rid n =
     ex_bind (ex_read (w_draining w)) (\<lambda>d. ex_when d (draining_result rid n))"

section \<open>Steps\<close>

definition add_step :: "world \<Rightarrow> string \<Rightarrow> string \<Rightarrow> string \<Rightarrow> string exec" where
  "add_step w rid nid ntype =
     ex_bind (ex_read (w_clock w)) (\<lambda>now v.
       let (i, s) = uuid4 (v_db v) in
       (Inr i, v\<lparr>v_db := s\<lparr>steps := steps s @ [\<lparr>step_id = i, s_run_id = rid, step_name = nid, step_type = ntype,
          s_status = ''running'', s_execution_attempt = x_execution_attempt (v_ctx v), step_attempt = 1,
          s_input_summary = JNull, s_output_summary = JNull, s_error_code = None,
          s_started_at = Some now, s_finished_at = None\<rparr>]\<rparr>\<rparr>))"

definition set_step :: "string \<Rightarrow> (agent_step \<Rightarrow> agent_step) \<Rightarrow> db \<Rightarrow> db" where
  "set_step sid f s = s\<lparr>steps := upd_where (\<lambda>x. step_id x = sid) f (steps s)\<rparr>"

definition fail_step :: "world \<Rightarrow> string \<Rightarrow> string option \<Rightarrow> unit exec" where
  "fail_step w sid code =
     ex_bind (ex_read (w_clock w)) (\<lambda>now.
       ex_db (set_step sid (\<lambda>x. x\<lparr>s_status := ''failed'', s_error_code := code, s_finished_at := Some now\<rparr>)))"

definition call_node :: "world \<Rightarrow> dict \<Rightarrow> node_outcome exec" where
  "call_node w node v =
     (case w_node w (v_tick v) node (v_ctx v) (v_st v) (v_db v) of
        (out, st, s) \<Rightarrow> (Inr out, v\<lparr>v_st := st, v_db := s, v_tick := Suc (v_tick v)\<rparr>))"

definition retry_step :: "world \<Rightarrow> string \<Rightarrow> string \<Rightarrow> unit exec" where
  "retry_step w rid sid v =
     (case record_auto_retry rid (Some sid) (v_db v) of
        Inr s \<Rightarrow> (Inr (), v\<lparr>v_db := s\<rparr>)
      | Inl (AgentRunServiceError _) \<Rightarrow>
          ex_bind (fail_step w sid (Some ''AUTO_RETRY_LIMIT_EXCEEDED''))
            (\<lambda>_. fail rid ''AUTO_RETRY_LIMIT_EXCEEDED'') v
      | Inl e \<Rightarrow> (Inl (Raise e), v))"

fun run_node :: "nat \<Rightarrow> world \<Rightarrow> string \<Rightarrow> string \<Rightarrow> dict \<Rightarrow> dict exec" where
  "run_node 0 w rid sid node = ex_stop OutOfFuel"
| "run_node (Suc n) w rid sid node =
     ex_bind (call_node w node) (\<lambda>out.
       case out of
         NodeResult d \<Rightarrow> ex_ret d
       | NodeRaised \<Rightarrow> ex_stop (Raise (ValueError ''node''))
       | NodeRetryable \<Rightarrow> ex_bind (retry_step w rid sid) (\<lambda>_. run_node n w rid sid node))"

section \<open>Bounded loops\<close>

record loop_progress =
  lp_iterations :: nat
  lp_errors :: nat
  lp_output :: int
  lp_coverage :: int
  lp_exhausted :: bool
  lp_declared_partial :: bool
  lp_reason :: "string option"

definition no_progress :: loop_progress where
  "no_progress = \<lparr>lp_iterations = 0, lp_errors = 0, lp_output = 0, lp_coverage = 0, lp_exhausted = False,
     lp_declared_partial = False, lp_reason = None\<rparr>"

definition loop_safety_check :: "world \<Rightarrow> string \<Rightarrow> int \<Rightarrow> unit exec" where
  "loop_safety_check w rid n =
     ex_bind (the_run rid) (\<lambda>r.
     if cancel_requested_at r \<noteq> None then ex_return rid Cancelled JNull (Some ''CANCEL_REQUESTED'')
     else ex_bind (check_authority w rid) (\<lambda>_.
          ex_bind (renew_lease w rid) (\<lambda>_. check_draining w rid n)))"

text \<open>\<open>x or y\<close> on strings and \<open>None\<close>.\<close>

definition or_str :: "string option \<Rightarrow> string \<Rightarrow> string" where
  "or_str x y = (case x of None \<Rightarrow> y | Some z \<Rightarrow> if z = '''' then y else z)"

definition calls_of :: "string \<Rightarrow> int exec" where
  "calls_of rid = ex_get (\<lambda>v. fst (usage_snapshot (v_db v) rid))"

definition remaining :: "world \<Rightarrow> string \<Rightarrow> loop_budget \<Rightarrow> rat \<Rightarrow> loop_budget exec" where
  "remaining w rid budget started =
     ex_bind (the_run rid) (\<lambda>r.
     ex_bind (ex_read (w_mono w)) (\<lambda>m v.
       case recompute_loop_remaining (v_db v) r budget (m - started) of
         Inl code \<Rightarrow> (Inl (Raise (ValueError code)), v) | Inr b \<Rightarrow> (Inr b, v)))"

definition call_iteration ::
  "loop_runner \<Rightarrow> dict \<Rightarrow> nat \<Rightarrow> loop_budget \<Rightarrow> iteration_result option exec" where
  "call_iteration lr node i live v =
     (case run_loop_iteration lr (v_tick v) node i live (v_st v) (v_db v) of
        (raw, st, s) \<Rightarrow> (Inr (Option.bind raw validate_iteration),
           v\<lparr>v_st := st, v_db := s, v_tick := Suc (v_tick v)\<rparr>))"

definition merge_scenes :: "unit exec" where
  "merge_scenes v = (Inr (), v\<lparr>v_st := snd (merge_unique_scenes (v_st v))\<rparr>)"

text \<open>The body of a turn whose budget is left; \<open>True\<close> asks for another turn.\<close>

definition loop_body ::
  "loop_runner \<Rightarrow> string \<Rightarrow> dict \<Rightarrow> loop_budget \<Rightarrow> loop_progress \<Rightarrow> (bool \<times> loop_progress) exec" where
  "loop_body lr rid node live p =
     ex_bind (calls_of rid) (\<lambda>calls_before.
     ex_bind (call_iteration lr node (lp_iterations p + 1) live) (\<lambda>result.
     case result of
       None \<Rightarrow> ex_ret (True, p\<lparr>lp_iterations := lp_iterations p + 1, lp_errors := lp_errors p + 1\<rparr>)
     | Some it \<Rightarrow>
         ex_bind (calls_of rid) (\<lambda>calls_now.
         if calls_now - calls_before > 1 then fail rid ''LOOP_MODEL_CALL_CONTRACT_VIOLATED''
         else if it_outcome it = LoopFailed then fail rid ''LOOP_BODY_FAILED''
         else ex_bind merge_scenes (\<lambda>_.
           let q = p\<lparr>lp_iterations := lp_iterations p + 1, lp_output := lp_output p + output_count it,
                     lp_coverage := lp_coverage p + coverage_count it\<rparr>
           in if it_outcome it = LoopContinue then ex_ret (True, q)
              else ex_ret (False, q\<lparr>lp_declared_partial := (it_outcome it = LoopPartial),
                lp_reason := Some (or_str (it_reason_code it)
                  (if it_outcome it = LoopComplete then ''LOOP_COMPLETE'' else ''LOOP_PARTIAL_DECLARED''))\<rparr>)))))"

definition loop_turn ::
  "world \<Rightarrow> loop_runner \<Rightarrow> string \<Rightarrow> dict \<Rightarrow> int \<Rightarrow> rat \<Rightarrow> loop_budget \<Rightarrow> loop_progress \<Rightarrow>
    (bool \<times> loop_progress) exec" where
  "loop_turn w lr rid node n started budget p =
     ex_bind (loop_safety_check w rid n) (\<lambda>_.
     ex_bind (remaining w rid budget started) (\<lambda>live.
     if exhausted live \<or> max_iterations budget \<le> int (lp_iterations p)
     then ex_ret (False, p\<lparr>lp_exhausted := True, lp_reason := Some ''LOOP_BUDGET_EXHAUSTED''\<rparr>)
     else loop_body lr rid node live p))"

lemma ex_bind_Inr: "ex_bind m f v = (Inr y, v') \<longleftrightarrow> (\<exists>x u. m v = (Inr x, u) \<and> f x u = (Inr y, v'))"
  by (auto simp: ex_bind_def split: prod.split sum.split)

lemma ex_no_value [simp]: "fail rid c v \<noteq> (Inr x, v')" "ex_return rid st out err v \<noteq> (Inr x, v')"
  "ex_stop e v \<noteq> (Inr x, v')" "cancel_with w rid act c v \<noteq> (Inr x, v')"
  by (auto simp: fail_def ex_return_def ex_stop_def cancel_with_def ex_bind_Inr)

lemma ex_bindE:
  assumes "ex_bind m f v = (Inr y, v')"
  obtains x u where "m v = (Inr x, u)" "f x u = (Inr y, v')"
  using assms by (auto simp: ex_bind_Inr)

lemma loop_body_counts:
  "loop_body lr rid node live p v = (Inr (go, q), v') \<Longrightarrow> lp_iterations q = Suc (lp_iterations p)"
  by (auto simp: loop_body_def ex_bind_Inr ex_ret_def Let_def split: option.split_asm if_split_asm)

lemma loop_turn_counts:
  assumes "loop_turn w lr rid node n started budget p v = (Inr (go, q), v')"
  shows "(go \<longrightarrow> int (lp_iterations p) < max_iterations budget \<and> lp_iterations q = Suc (lp_iterations p)) \<and>
    (int (lp_iterations p) \<le> max_iterations budget \<longrightarrow> int (lp_iterations q) \<le> max_iterations budget)"
proof -
  from assms obtain live u where "(if exhausted live \<or> max_iterations budget \<le> int (lp_iterations p)
     then ex_ret (False, p\<lparr>lp_exhausted := True, lp_reason := Some ''LOOP_BUDGET_EXHAUSTED''\<rparr>)
     else loop_body lr rid node live p) u = (Inr (go, q), v')"
    unfolding loop_turn_def by (elim ex_bindE) blast
  then show ?thesis
    using loop_body_counts [of lr rid node live p u go q v'] by (auto simp: ex_ret_def split: if_split_asm)
qed

function loop_iterations ::
  "world \<Rightarrow> loop_runner \<Rightarrow> string \<Rightarrow> dict \<Rightarrow> int \<Rightarrow> rat \<Rightarrow> loop_budget \<Rightarrow> loop_progress \<Rightarrow> loop_progress exec" where
  "loop_iterations w lr rid node n started budget p v =
     (case loop_turn w lr rid node n started budget p v of
        (Inl e, v') \<Rightarrow> (Inl e, v')
      | (Inr (go, q), v') \<Rightarrow> if go then loop_iterations w lr rid node n started budget q v' else (Inr q, v'))"
  by pat_completeness auto
termination
  by (relation "measure (\<lambda>(w, lr, rid, node, n, started, budget, p, v). nat (max_iterations budget) - lp_iterations p)")
     (auto dest!: loop_turn_counts [OF sym])

declare loop_iterations.simps [simp del]

definition call_begin :: "loop_runner \<Rightarrow> dict \<Rightarrow> loop_budget \<Rightarrow> bool exec" where
  "call_begin lr node b v =
     (case begin_loop lr (v_tick v) node b (v_st v) (v_db v) of
        (ok, st, s) \<Rightarrow> (Inr ok, v\<lparr>v_st := st, v_db := s, v_tick := Suc (v_tick v)\<rparr>))"

definition call_finalize :: "loop_runner \<Rightarrow> dict \<Rightarrow> iteration_result option exec" where
  "call_finalize lr node v =
     (case finalize_loop lr (v_tick v) node (v_st v) (v_db v) of
        (raw, st, s) \<Rightarrow> (Inr (Option.bind raw validate_iteration),
           v\<lparr>v_st := st, v_db := s, v_tick := Suc (v_tick v)\<rparr>))"

definition loop_summary :: "loop_progress \<Rightarrow> string \<Rightarrow> string \<Rightarrow> int \<Rightarrow> json" where
  "loop_summary p out why used =
     JObj [(''iterations'', JInt (int (lp_iterations p))), (''outcome'', JStr out), (''reason_code'', JStr why),
       (''output_count'', JInt (lp_output p)), (''coverage_count'', JInt (lp_coverage p)),
       (''model_calls_used'', JInt used)]"

text \<open>The verdict: the node result and whether the run is degraded to partial.\<close>

definition bounded_loop_outcome ::
  "world \<Rightarrow> string \<Rightarrow> string \<Rightarrow> iteration_result \<Rightarrow> loop_progress \<Rightarrow> int \<Rightarrow> (dict \<times> bool) exec" where
  "bounded_loop_outcome w rid nid final p usage_before =
     (let partial = lp_exhausted p \<or> lp_declared_partial p \<or> lp_errors p > 0 \<or> it_outcome final = LoopPartial;
          out = (if partial then ''partial'' else ''complete'');
          why = or_str (lp_reason p) (or_str (it_reason_code final)
                  (if partial then ''LOOP_PARTIAL'' else ''LOOP_COMPLETE''))
      in ex_bind (calls_of rid) (\<lambda>usage_now.
         ex_bind (the_run rid) (\<lambda>r.
         ex_bind (ex_read (w_clock w)) (\<lambda>now.
         ex_bind (ex_db (append_audit_record ''system'' ''workflow_executor'' ''agent_run_bounded_loop'' ''agent_run''
            rid (Some why) out (Some (trace_id r)) [(''run_id'', rid), (''status'', out)] now)) (\<lambda>_.
         ex_ret ([(''node_id'', JStr nid), (''loop_outcome'', JStr out),
                  (''loop_summary'', loop_summary p out why (max 0 (usage_now - usage_before)))], partial))))))"

definition finalize_bounded_loop ::
  "world \<Rightarrow> loop_runner \<Rightarrow> string \<Rightarrow> string \<Rightarrow> dict \<Rightarrow> dict \<Rightarrow> loop_progress \<Rightarrow> int \<Rightarrow> (dict \<times> bool) exec" where
  "finalize_bounded_loop w lr rid nid node policy p usage_before =
     (if lp_exhausted p \<and> dget policy ''on_budget_exhausted'' = JStr ''failed''
      then fail rid ''LOOP_BUDGET_EXHAUSTED''
      else ex_bind (call_finalize lr node) (\<lambda>final.
        case final of
          None \<Rightarrow> fail rid ''LOOP_BODY_FAILED''
        | Some it \<Rightarrow>
            if it_outcome it \<notin> {LoopComplete, LoopPartial} then fail rid ''LOOP_BODY_FAILED''
            else bounded_loop_outcome w rid nid it p usage_before))"

definition bounded_loop_node ::
  "world \<Rightarrow> string \<Rightarrow> string \<Rightarrow> dict \<Rightarrow> int \<Rightarrow> rat \<Rightarrow> (dict \<times> bool) exec" where
  "bounded_loop_node w rid nid node n started =
     (case validated_loop_policy node of
        None \<Rightarrow> fail rid ''LOOP_POLICY_INVALID''
      | Some policy \<Rightarrow>
          ex_bind (the_run rid) (\<lambda>r.
          ex_bind (ex_get (\<lambda>v. derive_inherited_budget (v_db v) r)) (\<lambda>b.
          case b of
            Inl code \<Rightarrow> fail rid code
          | Inr budget \<Rightarrow>
              (case w_loop w of
                 None \<Rightarrow> fail rid ''LOOP_RUNNER_UNSUPPORTED''
               | Some lr \<Rightarrow>
                   ex_bind (call_begin lr node budget) (\<lambda>ok.
                   if \<not> ok then fail rid ''LOOP_BODY_FAILED''
                   else ex_bind (calls_of rid) (\<lambda>usage_before.
                     ex_bind (loop_iterations w lr rid node n started budget no_progress) (\<lambda>p.
                     finalize_bounded_loop w lr rid nid node policy p usage_before)))))))"

text \<open>An early result of the loop with status \<open>failed\<close> also fails the step.\<close>

definition loop_step :: "world \<Rightarrow> string \<Rightarrow> string \<Rightarrow> string \<Rightarrow> dict \<Rightarrow> int \<Rightarrow> rat \<Rightarrow> (dict \<times> bool) exec" where
  "loop_step w rid sid nid node n started v =
     (case bounded_loop_node w rid nid node n started v of
        (Inl (Return res), v') \<Rightarrow>
          (Inl (Return res),
           if res_status res = Failed then snd (fail_step w sid (res_error_code res) v') else v')
      | r \<Rightarrow> r)"

section \<open>One node\<close>

text \<open>The local variables of the main loop.\<close>

record locals =
  l_completed :: "string list"
  l_steps :: int
  l_partial :: bool
  l_started :: rat
  l_skipping :: bool

definition policy_gate :: "world \<Rightarrow> string \<Rightarrow> locals \<Rightarrow> unit exec" where
  "policy_gate w rid l =
     ex_bind (the_run rid) (\<lambda>r.
     ex_bind (ex_read (w_mono w)) (\<lambda>m.
       case assert_can_continue r [(''steps'', JInt (l_steps l + 1)),
              (''active_elapsed_ms'', JInt (py_int ((m - l_started l) * 1000)))] of
         None \<Rightarrow> ex_ret ()
       | Some code \<Rightarrow> fail rid code))"

text \<open>The checks before a node starts.\<close>

definition node_gate :: "world \<Rightarrow> string \<Rightarrow> locals \<Rightarrow> unit exec" where
  "node_gate w rid l =
     ex_bind (policy_gate w rid l) (\<lambda>_.
     ex_bind (require_lease w rid) (\<lambda>_.
     ex_bind (check_authority w rid) (\<lambda>_.
     ex_bind (check_draining w rid (l_steps l)) (\<lambda>_.
     renew_lease w rid))))"

text \<open>Run the node; \<open>None\<close> is an optional node that failed after the work was published.\<close>

definition attempt_node ::
  "world \<Rightarrow> string \<Rightarrow> string \<Rightarrow> string \<Rightarrow> dict \<Rightarrow> locals \<Rightarrow> (dict \<times> bool) option exec" where
  "attempt_node w rid sid nid node l =
     ex_catch
       (ex_bind
         (if dget node ''node_type'' = JStr ''bounded_loop''
          then loop_step w rid sid nid node (l_steps l) (l_started l)
          else ex_bind (run_node (w_fuel w) w rid sid node) (\<lambda>d. ex_ret (d, False)))
         (\<lambda>d. ex_ret (Some d)))
       (ex_bind (fail_step w sid (Some ''WORKFLOW_NODE_FAILED'')) (\<lambda>_.
        if truthy (dget node ''optional'') \<and> ''publish_document'' \<in> set (l_completed l) then ex_ret None
        else fail rid ''WORKFLOW_NODE_FAILED''))"

definition save_artifact :: "world \<Rightarrow> string \<Rightarrow> string \<Rightarrow> string \<Rightarrow> dict \<Rightarrow> unit exec" where
  "save_artifact w rid sid nid d =
     ex_bind (ex_read (w_clock w)) (\<lambda>now v.
       case save_node_result (w_codec w) rid nid d (v_ctx v) now (v_db v) of
         Inr (_, s) \<Rightarrow> (Inr (), v\<lparr>v_db := s\<rparr>)
       | Inl (ArtifactError _) \<Rightarrow>
           ex_bind (fail_step w sid (Some ''ARTIFACT_WRITE_FAILED''))
             (\<lambda>_. fail rid ''ARTIFACT_WRITE_FAILED'') v
       | Inl e \<Rightarrow> (Inl (Raise e), v))"

definition step_summary_json :: "string \<Rightarrow> dict \<Rightarrow> json" where
  "step_summary_json nid d =
     JObj ([(''node_id'', JStr nid), (''status'', JStr (if dget d ''skipped'' = JBool True then ''skipped'' else ''ok''))] @
       (case dget d ''loop_summary'' of JObj x \<Rightarrow> [(''loop'', JObj x)] | _ \<Rightarrow> []))"

definition node_status :: "dict \<Rightarrow> string" where
  "node_status d = (if dget d ''skipped'' = JBool True then ''skipped'' else ''succeeded'')"

definition complete_step :: "world \<Rightarrow> string \<Rightarrow> string \<Rightarrow> dict \<Rightarrow> unit exec" where
  "complete_step w sid nid d =
     ex_bind (ex_read (w_clock w)) (\<lambda>now.
       ex_db (set_step sid (\<lambda>x. x\<lparr>s_status := node_status d, s_output_summary := step_summary_json nid d,
         s_finished_at := Some now\<rparr>)))"

text \<open>Active time since the last boundary, less what the model gateway booked meanwhile.\<close>

definition book_active_time :: "world \<Rightarrow> string \<Rightarrow> int \<Rightarrow> rat \<Rightarrow> rat exec" where
  "book_active_time w rid booked_before started =
     ex_bind (ex_read (w_mono w)) (\<lambda>m.
     ex_bind (the_run rid) (\<lambda>r.
     let elapsed = py_int ((m - started) * 1000);
         already = max 0 (active_elapsed_ms r - booked_before)
     in ex_bind (ex_db (set_run rid (\<lambda>r. r\<lparr>active_elapsed_ms := active_elapsed_ms r + max 0 (elapsed - already)\<rparr>)))
          (\<lambda>_. ex_read (w_mono w))))"

definition safe_checkpoint_state :: "agent_state \<Rightarrow> int \<Rightarrow> dict" where
  "safe_checkpoint_state st n =
     [(''completed_steps'', JInt n), (''completed_node_ids'', JList (map JStr (completed_node_ids st))),
      (''fallback_flags'', JList (map JStr (fallback_flags st)))]"

definition plan_has_node :: "agent_plan \<Rightarrow> string \<Rightarrow> bool" where
  "plan_has_node p n = list_ex (\<lambda>j. is_obj j \<and> jget j ''node_id'' = JStr n) (steps_json p)"

text \<open>\<open>None\<close>: the plan names a fallback node that is not one of its nodes.\<close>

definition checkpoint_state :: "agent_plan \<Rightarrow> dict \<Rightarrow> agent_state \<Rightarrow> int \<Rightarrow> dict option" where
  "checkpoint_state p d st n =
     (let safe = safe_checkpoint_state st n in
      if dget d ''waiting_human'' = JBool True then
        (case dget (fallback_policy_json p) ''waiting_human_fallback_node'' of
           JNull \<Rightarrow> Some safe
         | JStr f \<Rightarrow> if plan_has_node p f then Some (safe @ [(''resume_from_node_id'', JStr f)]) else None
         | _ \<Rightarrow> None)
      else Some safe)"

definition save_checkpoint :: "world \<Rightarrow> string \<Rightarrow> int \<Rightarrow> dict \<Rightarrow> unit exec" where
  "save_checkpoint w rid n state =
     ex_bind (ex_read (w_clock w)) (\<lambda>now.
     ex_bind (ex_res (\<lambda>ctx s. save (w_codec w) rid
        (''attempt:'' @ int_string (x_execution_attempt ctx) @ '':step:'' @ int_string n) state ctx now s)) (\<lambda>_.
     ex_ret ()))"

definition approval_ttl :: "agent_plan \<Rightarrow> int option" where
  "approval_ttl p =
     (case dget_default (stop_conditions_json p) ''approval_ttl_seconds'' (JInt 86400) of
        JInt n \<Rightarrow> if 0 < n then Some n else None
      | JBool b \<Rightarrow> if b then Some 1 else None
      | _ \<Rightarrow> None)"

definition pause_node :: "world \<Rightarrow> agent_plan \<Rightarrow> string \<Rightarrow> int \<Rightarrow> unit exec" where
  "pause_node w p rid n =
     (case approval_ttl p of
        None \<Rightarrow> fail rid ''WAITING_HUMAN_TIMEOUT_INVALID''
      | Some ttl \<Rightarrow>
          ex_bind (ex_read (w_clock w)) (\<lambda>now.
          ex_bind (ex_res (\<lambda>ctx s. pause_for_human rid ctx ttl now s)) (\<lambda>ok.
          if \<not> ok then fail rid ''WAITING_HUMAN_PAUSE_FAILED''
          else ex_return rid WaitingHuman (steps_summary n) None)))"

definition set_completed :: "string list \<Rightarrow> unit exec" where
  "set_completed ids v = (Inr (), v\<lparr>v_st := (v_st v)\<lparr>completed_node_ids := sort ids\<rparr>\<rparr>)"

text \<open>What follows a node that returned: artifact, step, time, checkpoint, pause, callback.\<close>

definition settle_node ::
  "world \<Rightarrow> agent_plan \<Rightarrow> string \<Rightarrow> string \<Rightarrow> string \<Rightarrow> int \<Rightarrow> dict \<Rightarrow> bool \<Rightarrow> locals \<Rightarrow> locals exec" where
  "settle_node w p rid sid nid booked d partial l =
     ex_bind (renew_lease w rid) (\<lambda>_.
     ex_bind (ex_read (w_draining w)) (\<lambda>draining_after_node.
     ex_bind (save_artifact w rid sid nid d) (\<lambda>_.
     let ids = List.insert nid (l_completed l); n = l_steps l + 1 in
     ex_bind (set_completed ids) (\<lambda>_.
     ex_bind (complete_step w sid nid d) (\<lambda>_.
     ex_bind (book_active_time w rid booked (l_started l)) (\<lambda>started.
     ex_bind (ex_get (\<lambda>v. checkpoint_state p d (v_st v) n)) (\<lambda>cs.
     case cs of
       None \<Rightarrow> fail rid ''FALLBACK_NODE_INVALID''
     | Some state \<Rightarrow>
         ex_bind (save_checkpoint w rid n state) (\<lambda>_.
         ex_bind (if draining_after_node then ex_ret True else ex_read (w_draining w)) (\<lambda>draining.
         if draining then draining_result rid n
         else ex_bind (ex_when (dget d ''waiting_human'' = JBool True) (pause_node w p rid n)) (\<lambda>_.
           ex_bind (ex_read (w_clock w)) (\<lambda>now.
           ex_bind (ex_db (append_callback_event rid StepChanged
              (JList [JObj [(''step'', JStr nid), (''status'', JStr (node_status d))]]) now)) (\<lambda>_.
           ex_ret \<lparr>l_completed = ids, l_steps = n, l_partial = l_partial l \<or> partial, l_started = started,
                   l_skipping = False\<rparr>))))))))))))"

definition execute_node ::
  "world \<Rightarrow> agent_plan \<Rightarrow> string \<Rightarrow> string \<Rightarrow> string \<Rightarrow> dict \<Rightarrow> locals \<Rightarrow> locals exec" where
  "execute_node w p rid nid ntype node l =
     ex_bind (node_gate w rid l) (\<lambda>_.
     ex_bind (add_step w rid nid ntype) (\<lambda>sid.
     ex_bind (the_run rid) (\<lambda>r.
     ex_bind (attempt_node w rid sid nid node l) (\<lambda>out.
     case out of
       None \<Rightarrow> ex_ret (l\<lparr>l_partial := True\<rparr>)
     | Some (d, partial) \<Rightarrow> settle_node w p rid sid nid (active_elapsed_ms r) d partial l))))"

section \<open>The plan\<close>

definition plan_node ::
  "world \<Rightarrow> agent_plan \<Rightarrow> string \<Rightarrow> string option \<Rightarrow> json \<Rightarrow> locals \<Rightarrow> locals exec" where
  "plan_node w p rid resume_from raw l =
     (case raw of
        JObj node \<Rightarrow>
          (case (dget node ''node_id'', dget node ''node_type'') of
             (JStr nid, JStr ntype) \<Rightarrow>
               if l_skipping l \<and> Some nid \<noteq> resume_from then ex_ret l
               else
                (let l1 = l\<lparr>l_skipping := False\<rparr> in
                 if nid \<in> set (l_completed l1) \<and> \<not> has_key node ''safe_to_rerun''
                 then fail rid ''PLAN_LEGACY_DEFINITION''
                 else if nid \<in> set (l_completed l1) \<and> \<not> truthy (dget node ''safe_to_rerun'')
                 then ex_ret l1
                 else execute_node w p rid nid ntype node l1)
           | _ \<Rightarrow> fail rid ''WORKFLOW_NODE_INVALID'')
      | _ \<Rightarrow> fail rid ''WORKFLOW_NODE_INVALID'')"

fun plan_nodes ::
  "world \<Rightarrow> agent_plan \<Rightarrow> string \<Rightarrow> string option \<Rightarrow> json list \<Rightarrow> locals \<Rightarrow> locals exec" where
  "plan_nodes w p rid resume_from [] l = ex_ret l"
| "plan_nodes w p rid resume_from (x # xs) l =
     ex_bind (plan_node w p rid resume_from x l) (\<lambda>l1. plan_nodes w p rid resume_from xs l1)"

definition mark_running :: "world \<Rightarrow> string \<Rightarrow> unit exec" where
  "mark_running w rid =
     ex_bind (the_run rid) (\<lambda>r.
     ex_bind (ex_when (status r \<noteq> Running)
       (ex_bind (ex_db (set_run rid (\<lambda>r. r\<lparr>status := Running, status_version := status_version r + 1\<rparr>))) (\<lambda>_.
        ex_bind (ex_read (w_clock w)) (\<lambda>now. ex_db (append_callback_event rid RunStarted JNull now))))) (\<lambda>_.
     ex_bind (ex_read (w_clock w)) (\<lambda>now.
     ex_db (set_run rid (\<lambda>r. r\<lparr>started_at := (case started_at r of None \<Rightarrow> Some now | t \<Rightarrow> t)\<rparr>)))))"

fun str_of :: "json \<Rightarrow> string list" where
  "str_of (JStr x) = [x]"
| "str_of _ = []"

fun strs_of :: "json \<Rightarrow> string list" where
  "strs_of (JList xs) = concat (map str_of xs)"
| "strs_of _ = []"

text \<open>The state a run starts from: fresh, or rebuilt from the routing keys of a checkpoint.\<close>

definition initial_state :: "agent_run \<Rightarrow> dict option \<Rightarrow> string list \<Rightarrow> runtime_error + agent_state" where
  "initial_state r data ids =
     (case data of
        None \<Rightarrow> Inr (new_state (input_json r) [] (sort ids))
      | Some d \<Rightarrow>
          if has_key d ''fallback_flags'' \<and> \<not> str_list (dget d ''fallback_flags'') \<or>
             has_key d ''completed_node_ids'' \<and> \<not> str_list (dget d ''completed_node_ids'')
          then Inl (ValueError ''validation'')
          else Inr (new_state [] (strs_of (dget d ''fallback_flags'')) (sort ids)))"

definition set_state :: "world \<Rightarrow> string \<Rightarrow> dict option \<Rightarrow> string list \<Rightarrow> unit exec" where
  "set_state w rid data ids =
     ex_bind (the_run rid) (\<lambda>r v.
       case initial_state r data ids of
         Inl e \<Rightarrow> (Inl (Raise e), v) | Inr st \<Rightarrow> (Inr (), v\<lparr>v_st := st\<rparr>))"

text \<open>Consume the fallback marker of a timed-out approval: where to resume, if anywhere.\<close>

definition fallback_target :: "agent_plan \<Rightarrow> string \<Rightarrow> json \<Rightarrow> string option exec" where
  "fallback_target p rid resume_from =
     ex_bind (the_run rid) (\<lambda>r.
     if error_code r \<noteq> Some ''WAITING_HUMAN_FALLBACK'' then ex_ret None
     else (case resume_from of
         JStr n \<Rightarrow>
           if dget (fallback_policy_json p) ''waiting_human_fallback_node'' = JStr n \<and> plan_has_node p n
           then ex_bind (ex_db (set_run rid (\<lambda>r. r\<lparr>error_code := None\<rparr>))) (\<lambda>_. ex_ret (Some n))
           else fail rid ''FALLBACK_NODE_INVALID''
       | _ \<Rightarrow> fail rid ''FALLBACK_NODE_INVALID''))"

definition execute ::
  "world \<Rightarrow> string \<Rightarrow> string list \<Rightarrow> dict option \<Rightarrow> json \<Rightarrow> agent_run_result exec" where
  "execute w rid ids data resume_from v =
     (case (find_run (v_db v) rid, find_plan (v_db v) rid) of
        (Some _, Some p) \<Rightarrow>
          (case ordered_nodes (steps_json p) of
             None \<Rightarrow> fail rid ''STATIC_GRAPH_INVALID'' v
           | Some nodes \<Rightarrow>
               ex_bind (fallback_target p rid resume_from) (\<lambda>target.
               ex_bind (check_authority w rid) (\<lambda>_.
               ex_bind (require_lease w rid) (\<lambda>_.
               ex_bind (check_draining w rid (int (length ids))) (\<lambda>_.
               ex_bind (mark_running w rid) (\<lambda>_.
               ex_bind (set_state w rid data ids) (\<lambda>_.
               ex_bind (ex_read (w_mono w)) (\<lambda>started.
               ex_bind (plan_nodes w p rid target nodes
                  \<lparr>l_completed = ids, l_steps = int (length ids), l_partial = False, l_started = started,
                   l_skipping = (target \<noteq> None)\<rparr>) (\<lambda>l.
               ex_get (\<lambda>v. run_result rid (if l_partial l then Partial else Succeeded)
                  (steps_summary (l_steps l)) None (v_ctx v)))))))))) v)
      | _ \<Rightarrow> fail rid ''WORKFLOW_PLAN_NOT_FOUND'' v)"

text \<open>The outcome of a run of the executor: its result, an exception, or no result within the fuel.\<close>

definition outcome_of :: "(stop + agent_run_result) \<times> vars \<Rightarrow> stop \<times> vars" where
  "outcome_of x = (case x of (Inl e, v) \<Rightarrow> (e, v) | (Inr res, v) \<Rightarrow> (Return res, v))"

definition run_workflow :: "world \<Rightarrow> string \<Rightarrow> vars \<Rightarrow> stop \<times> vars" where
  "run_workflow w rid v = outcome_of (execute w rid [] None JNull v)"

definition safe_checkpoint_keys :: "string list" where
  "safe_checkpoint_keys = [''completed_steps'', ''completed_node_ids'', ''fallback_flags'', ''resume_from_node_id'']"

text \<open>Refuse a checkpoint with other keys, after deleting every checkpoint of the run.\<close>

definition purge_unsafe :: "world \<Rightarrow> string \<Rightarrow> agent_run_result exec" where
  "purge_unsafe w rid =
     ex_bind (ex_read (w_clock w)) (\<lambda>now v.
       fail rid ''CHECKPOINT_STATE_INVALID''
         (case purge_for_run rid (v_ctx v) now (v_db v) of
            Inr (_, s) \<Rightarrow> v\<lparr>v_db := s\<rparr> | Inl _ \<Rightarrow> v))"

definition resume_workflow :: "world \<Rightarrow> string \<Rightarrow> vars \<Rightarrow> stop \<times> vars" where
  "resume_workflow w rid v =
     outcome_of (ex_bind (ex_read (w_clock w)) (\<lambda>now v.
       case load_latest (w_codec w) rid (v_ctx v) now (v_db v) of
         Inl (CheckpointError _) \<Rightarrow> fail rid ''CHECKPOINT_NOT_RESUMABLE'' v
       | Inl e \<Rightarrow> (Inl (Raise e), v)
       | Inr (state, s) \<Rightarrow>
           (let v1 = v\<lparr>v_db := s\<rparr> in
            if \<not> list_all (\<lambda>kv. fst kv \<in> set safe_checkpoint_keys) state then purge_unsafe w rid v1
            else if \<not> str_list (dget_default state ''completed_node_ids'' (JList []))
            then fail rid ''CHECKPOINT_STATE_INVALID'' v1
            else execute w rid (remdups (strs_of (dget state ''completed_node_ids''))) (Some state)
                   (dget state ''resume_from_node_id'') v1)) v)"

section \<open>Consuming a dispatch\<close>

text \<open>What the consumer does with the outcome of the executor.\<close>

definition settle_result :: "world \<Rightarrow> string \<Rightarrow> stop \<times> vars \<Rightarrow> (stop + bool) \<times> db" where
  "settle_result w rid out =
     (case out of
        (Return res, v) \<Rightarrow>
          if res_status res \<in> set terminal_states then
            (case finish res (v_ctx v) (w_clock w (v_tick v)) (v_db v) of
               Inl e \<Rightarrow> (Inl (Raise e), v_db v)
             | Inr (ok, s2) \<Rightarrow>
                 if ok then (Inr True, s2)
                 else (case finish_after_invalid_boundary rid (v_ctx v) (w_clock w (v_tick v + 1)) s2 of
                    Inl e \<Rightarrow> (Inl (Raise e), s2)
                  | Inr (_, s3) \<Rightarrow> (Inr True, s3)))
          else if w_draining w (v_tick v)
          then (Inr True, snd (release_for_drain rid (v_ctx v) (w_clock w (v_tick v + 1)) (v_db v)))
          else (Inr True, v_db v)
      | (e, v) \<Rightarrow> (Inl e, v_db v))"

definition consume :: "world \<Rightarrow> string \<Rightarrow> string \<Rightarrow> nat \<Rightarrow> db \<Rightarrow> (stop + bool) \<times> db" where
  "consume w rid worker t s =
     (if w_draining w t then (Inr False, s)
      else (case claim 90 rid worker (w_clock w (t + 1)) s of
          Inl e \<Rightarrow> (Inl (Raise e), s)
        | Inr (None, s1) \<Rightarrow> (Inr False, s1)
        | Inr (Some ctx, s1) \<Rightarrow>
            (let resumes = (case find_run s rid of None \<Rightarrow> False | Some r \<Rightarrow> status r \<in> {WaitingHuman, Partial});
                 v0 = \<lparr>v_db = s1, v_st = new_state [] [] [], v_ctx = ctx, v_tick = t + 2\<rparr>
             in settle_result w rid (if resumes then resume_workflow w rid v0 else run_workflow w rid v0))))"

end
