(* ===== verification/Execution.thy ===== *)
theory Execution
  imports Executor
begin

text \<open>
  A logic for the parts of the executor. A part \<open>m\<close> keeps a relation between databases when it
  takes every database of the invariant to a related one and stops only as allowed. The locale
  \<open>exec_step\<close> states what the relation has to promise of the few primitive writes of the
  executor, and proves once that every part then keeps it, up to a node and its settlement.
  It is interpreted twice: by the sound steps of the ledger (\<open>ledger\<close>), and by the steps that
  leave the step rows of finished nodes alone and never run out of fuel (\<open>own\<close>). The node
  runner is assumed to keep the relation itself (\<open>runner_keeps\<close>).
\<close>

section \<open>The primitive writes\<close>

text \<open>A column update of one run that neither the invariant nor the order of versions sees.\<close>

definition quiet :: "db \<Rightarrow> string \<Rightarrow> (agent_run \<Rightarrow> agent_run) \<Rightarrow> bool" where
  "quiet s rid f \<longleftrightarrow>
     (\<forall>r. run_id (f r) = run_id r \<and> last_event_seq (f r) = last_event_seq r \<and>
        run_scopes (f r) = run_scopes r \<and> dispatch_state (f r) = dispatch_state r) \<and>
     (\<forall>r. find_run s rid = Some r \<longrightarrow> row_ok r \<longrightarrow> row_ok (f r) \<and> run_le r (f r))"

lemma quiet_columns:
  "quiet s rid (\<lambda>r. r\<lparr>cancel_requested_at := Some t\<rparr>)"
  "quiet s rid (\<lambda>r. r\<lparr>error_code := e\<rparr>)"
  "quiet s rid (\<lambda>r. r\<lparr>active_elapsed_ms := active_elapsed_ms r + n\<rparr>)"
  "quiet s rid (\<lambda>r. r\<lparr>started_at := (case started_at r of None \<Rightarrow> Some t | x \<Rightarrow> x)\<rparr>)"
  by (simp_all add: quiet_def run_scopes_def run_le_def same_identity_def row_ok_def del: not_None_eq)

definition step_quiet :: "(agent_step \<Rightarrow> agent_step) \<Rightarrow> bool" where
  "step_quiet f \<longleftrightarrow> (\<forall>x. s_run_id (f x) = s_run_id x \<and> step_id (f x) = step_id x \<and>
     step_name (f x) = step_name x \<and> step_attempt (f x) = step_attempt x)"

text \<open>The calls of the node runner, and of the processes beside it, keep a relation.\<close>

definition runner_keeps :: "(db \<Rightarrow> bool) \<Rightarrow> (db \<Rightarrow> db \<Rightarrow> bool) \<Rightarrow> world \<Rightarrow> bool" where
  "runner_keeps I R w \<longleftrightarrow>
     (\<forall>t node ctx st s out st' s'. I s \<longrightarrow> w_node w t node ctx st s = (out, st', s') \<longrightarrow> R s s') \<and>
     (\<forall>lr. w_loop w = Some lr \<longrightarrow>
        (\<forall>t node b st s ok st' s'. I s \<longrightarrow> begin_loop lr t node b st s = (ok, st', s') \<longrightarrow> R s s') \<and>
        (\<forall>t node i b st s raw st' s'. I s \<longrightarrow> run_loop_iteration lr t node i b st s = (raw, st', s') \<longrightarrow> R s s') \<and>
        (\<forall>t node st s raw st' s'. I s \<longrightarrow> finalize_loop lr t node st s = (raw, st', s') \<longrightarrow> R s s'))"

section \<open>The logic\<close>

named_theorems keeps_intro \<open>rules for the parts of the executor\<close>

locale exec_step =
  fixes I :: "db \<Rightarrow> bool" and R :: "db \<Rightarrow> db \<Rightarrow> bool" and E :: "stop \<Rightarrow> bool" and mine :: "string \<Rightarrow> bool"
  assumes refl: "I s \<Longrightarrow> R s s"
    and trans: "R s t \<Longrightarrow> R t u \<Longrightarrow> R s u"
    and inv: "I s \<Longrightarrow> R s t \<Longrightarrow> I t"
    and raised: "E (Raise err)"
    and returned: "res_status res \<notin> {Succeeded, Partial} \<Longrightarrow> E (Return res)"
    and audit: "I s \<Longrightarrow> R s (append_audit_record a1 a2 a3 a4 a5 a6 a7 a8 a9 now s)"
    and event: "I s \<Longrightarrow> R s (append_callback_event rid ev tr now s)"
    and columns: "I s \<Longrightarrow> quiet s rid f \<Longrightarrow> R s (set_run rid f s)"
    and beat: "I s \<Longrightarrow> heartbeat n rid ctx now s = (ok, ctx', s') \<Longrightarrow> R s s'"
    and ledger: "I s \<Longrightarrow> ledger_same s s' \<Longrightarrow> R s s'"
    and pause: "I s \<Longrightarrow> pause_for_human rid ctx ttl now s = Inr (ok, s') \<Longrightarrow> R s s'"
    and step: "I s \<Longrightarrow> mine sid \<Longrightarrow> step_quiet g \<Longrightarrow> R s (set_step sid g s)"
    and retry: "I s \<Longrightarrow> mine sid \<Longrightarrow> record_auto_retry rid (Some sid) s = Inr s' \<Longrightarrow> R s s'"
begin

definition keeps :: "'a exec \<Rightarrow> bool" where
  "keeps m \<longleftrightarrow> (\<forall>v r v'. I (v_db v) \<longrightarrow> m v = (r, v') \<longrightarrow> R (v_db v) (v_db v') \<and> (\<forall>e. r = Inl e \<longrightarrow> E e))"

lemma keepsI:
  "(\<And>v r v'. I (v_db v) \<Longrightarrow> m v = (r, v') \<Longrightarrow> R (v_db v) (v_db v') \<and> (\<forall>e. r = Inl e \<longrightarrow> E e)) \<Longrightarrow> keeps m"
  by (simp add: keeps_def)

lemma keepsD:
  assumes "keeps m" "I (v_db v)" "m v = (r, v')"
  shows "R (v_db v) (v_db v')" "r = Inl e \<Longrightarrow> E e" "I (v_db v')"
  using assms inv unfolding keeps_def by blast+

lemma keeps_same: "(\<And>v. v_db (snd (m v)) = v_db v \<and> (\<forall>e. fst (m v) = Inl e \<longrightarrow> E e)) \<Longrightarrow> keeps m"
  by (rule keepsI) (metis fst_conv snd_conv refl)

lemma keeps_bind [keeps_intro]:
  assumes m: "keeps m" and f: "\<And>x. keeps (f x)"
  shows "keeps (ex_bind m f)"
proof (rule keepsI)
  fix v r v' assume i: "I (v_db v)" and e: "ex_bind m f v = (r, v')"
  obtain x u where u: "m v = (x, u)" by fastforce
  note k = keepsD [OF m i u]
  show "R (v_db v) (v_db v') \<and> (\<forall>e. r = Inl e \<longrightarrow> E e)"
  proof (cases x)
    case (Inl a)
    with e u k show ?thesis by (auto simp: ex_bind_def)
  next
    case (Inr b)
    with e u have "f b u = (r, v')" by (simp add: ex_bind_def)
    from keepsD [OF f k(3) this] show ?thesis using trans [OF k(1)] by blast
  qed
qed

lemma keeps_catch [keeps_intro]:
  assumes m: "keeps m" and h: "keeps h"
  shows "keeps (ex_catch m h)"
proof (rule keepsI)
  fix v r v' assume i: "I (v_db v)" and e: "ex_catch m h v = (r, v')"
  obtain x u where u: "m v = (x, u)" by fastforce
  note k = keepsD [OF m i u]
  show "R (v_db v) (v_db v') \<and> (\<forall>e. r = Inl e \<longrightarrow> E e)"
  proof (cases "\<exists>a. x = Inl (Raise a)")
    case True
    with e u have "h u = (r, v')" by (auto simp: ex_catch_def)
    from keepsD [OF h k(3) this] show ?thesis using trans [OF k(1)] by blast
  next
    case False
    with e u k show ?thesis by (auto simp: ex_catch_def split: sum.split_asm stop.split_asm)
  qed
qed

lemma keeps_if [keeps_intro]: "keeps m \<Longrightarrow> keeps n \<Longrightarrow> keeps (if b then m else n)"
  by simp

lemma keeps_when [keeps_intro]: "keeps m \<Longrightarrow> keeps (ex_when b m)"
  by (auto simp: ex_when_def ex_ret_def intro: keeps_same)

lemma keeps_basic [keeps_intro]:
  "keeps (ex_ret x)" "keeps (ex_stop (Raise e))" "keeps (ex_get g)" "keeps (ex_read h)" "keeps (the_run rid)"
  "keeps (ex_return rid Cancelled out err)" "keeps (ex_return rid WaitingHuman out err)" "keeps (fail rid code)" "keeps (draining_result rid n)"
  "keeps merge_scenes" "keeps (set_completed ids)" "keeps (calls_of rid)"
  by (auto simp: ex_ret_def ex_stop_def ex_get_def ex_read_def the_run_def ex_return_def fail_def
      draining_result_def merge_scenes_def set_completed_def calls_of_def run_result_def raised
      intro!: keeps_same returned split: option.split_asm option.split)

lemma keeps_db: "(\<And>s. I s \<Longrightarrow> R s (f s)) \<Longrightarrow> keeps (ex_db f)"
  by (rule keepsI) (auto simp: ex_db_def)

lemma keeps_res:
  "(\<And>ctx s x s'. I s \<Longrightarrow> m ctx s = Inr (x, s') \<Longrightarrow> R s s') \<Longrightarrow> keeps (ex_res m)"
  by (rule keepsI) (auto simp: ex_res_def intro: refl raised split: sum.split_asm prod.split_asm)

lemma keeps_writes [keeps_intro]:
  "keeps (ex_db (append_audit_record a1 a2 a3 a4 a5 a6 a7 a8 a9 now))"
  "keeps (ex_db (append_callback_event rid ev tr now))"
  "keeps (ex_db (set_run rid (\<lambda>r. r\<lparr>cancel_requested_at := Some t\<rparr>)))"
  "keeps (ex_db (set_run rid (\<lambda>r. r\<lparr>error_code := e\<rparr>)))"
  "keeps (ex_db (set_run rid (\<lambda>r. r\<lparr>active_elapsed_ms := active_elapsed_ms r + n\<rparr>)))"
  "keeps (ex_db (set_run rid (\<lambda>r. r\<lparr>started_at := (case started_at r of None \<Rightarrow> Some t | x \<Rightarrow> x)\<rparr>)))"
  by (rule keeps_db, (erule audit | erule event | erule columns [OF _ quiet_columns(1)]
     | erule columns [OF _ quiet_columns(2)] | erule columns [OF _ quiet_columns(3)]
     | erule columns [OF _ quiet_columns(4)]))+


text \<open>Boundaries and steps.\<close>

lemma keeps_heartbeat [keeps_intro]: "keeps (x_heartbeat w rid)"
  unfolding x_heartbeat_def
proof (rule keeps_bind)
  show "keeps (\<lambda>v. case heartbeat 90 rid (v_ctx v) now (v_db v) of (ok, ctx, s) \<Rightarrow> (Inr ok, v\<lparr>v_ctx := ctx, v_db := s\<rparr>))" for now
    by (rule keepsI) (auto intro: beat split: prod.split_asm)
qed (rule keeps_basic)

lemma keeps_boundaries [keeps_intro]:
  "keeps (x_can_write w rid)" "keeps (authorization_changed w rid)" "keeps (package_revoked rid)"
  "keeps (cancel_with w rid act code)" "keeps (check_authority w rid)" "keeps (require_lease w rid)"
  "keeps (renew_lease w rid)" "keeps (check_draining w rid n)"
proof -
  show a: "keeps (x_can_write w rid)" "keeps (package_revoked rid)" "keeps (check_draining w rid n)"
    "keeps (cancel_with w rid act code)" for act code
    unfolding x_can_write_def package_revoked_def check_draining_def cancel_with_def
    by (intro keeps_intro)+
  show b: "keeps (authorization_changed w rid)"
    unfolding authorization_changed_def
    by (intro keeps_intro) (auto intro: keeps_intro split: option.split sum.split)
  show k: "keeps (check_authority w rid)" "keeps (require_lease w rid)"
    unfolding check_authority_def require_lease_def by (intro a b keeps_intro)+
  show "keeps (renew_lease w rid)" unfolding renew_lease_def by (intro k keeps_intro)
qed

lemma keeps_own_step [keeps_intro]:
  assumes "mine sid"
  shows "keeps (fail_step w sid code)" "keeps (complete_step w sid nid d)"
  unfolding fail_step_def complete_step_def
  by (intro keeps_intro keeps_db, erule step [OF _ assms], simp add: step_quiet_def)+

text \<open>The runner.\<close>

lemma keeps_call_node: "runner_keeps I R w \<Longrightarrow> keeps (call_node w node)"
  unfolding runner_keeps_def by (intro keepsI) (auto simp: call_node_def split: prod.split_asm)

lemma keeps_loop_calls:
  assumes "runner_keeps I R w" "w_loop w = Some lr"
  shows "keeps (call_begin lr node b)" "keeps (call_iteration lr node i live)" "keeps (call_finalize lr node)"
  using assms unfolding runner_keeps_def
  by (auto intro!: keepsI simp: call_begin_def call_iteration_def call_finalize_def split: prod.split_asm)

lemma keeps_retry_step:
  assumes "mine sid"
  shows "keeps (retry_step w rid sid)"
proof (rule keepsI)
  fix v r v' assume i: "I (v_db v)" and e: "retry_step w rid sid v = (r, v')"
  have k: "keeps (ex_bind (fail_step w sid (Some ''AUTO_RETRY_LIMIT_EXCEEDED''))
      (\<lambda>_. fail rid ''AUTO_RETRY_LIMIT_EXCEEDED'' :: unit exec))" by (intro keeps_intro assms)
  show "R (v_db v) (v_db v') \<and> (\<forall>e. r = Inl e \<longrightarrow> E e)"
    using e keepsD [OF k i] retry [OF i assms] refl [OF i] raised
    by (auto simp: retry_step_def split: sum.split_asm runtime_error.split_asm)
qed

lemma keeps_run_node:
  assumes rk: "runner_keeps I R w" and "mine sid" and "E OutOfFuel"
  shows "keeps (run_node n w rid sid node)"
proof (induction n)
  case 0
  then show ?case by (simp, intro keepsI) (use assms refl in \<open>auto simp: ex_stop_def\<close>)
next
  case (Suc n)
  then have "keeps (case out of NodeResult d \<Rightarrow> ex_ret d | NodeRetryable \<Rightarrow>
      ex_bind (retry_step w rid sid) (\<lambda>_. run_node n w rid sid node) | NodeRaised \<Rightarrow> ex_stop (Raise (ValueError ''node'')))"
    for out by (cases out) (auto intro!: keeps_intro keeps_retry_step assms(2))
  then show ?case by (simp add: keeps_bind keeps_call_node [OF rk])
qed

text \<open>Loops.\<close>

lemma keeps_remaining [keeps_intro]: "keeps (remaining w rid b started)"
  unfolding remaining_def by (intro keeps_intro) (auto intro!: keeps_same raised split: sum.split sum.split_asm)

lemma keeps_safety [keeps_intro]: "keeps (loop_safety_check w rid n)"
  unfolding loop_safety_check_def by (intro keeps_intro)

lemma keeps_loop_body:
  assumes "runner_keeps I R w" "w_loop w = Some lr"
  shows "keeps (loop_body lr rid node live p)"
  unfolding loop_body_def
  by (intro keeps_bind keeps_basic keeps_loop_calls [OF assms])
     (auto intro!: keeps_intro simp: Let_def split: option.split)

lemma keeps_loop_iterations:
  assumes "runner_keeps I R w" "w_loop w = Some lr"
  shows "keeps (loop_iterations w lr rid node n started b p)"
proof (rule keepsI)
  have turn: "keeps (loop_turn w lr rid node n started b p)" for p
    unfolding loop_turn_def by (intro keeps_intro keeps_loop_body [OF assms])
  fix v r v' assume "I (v_db v)" "loop_iterations w lr rid node n started b p v = (r, v')"
  then show "R (v_db v) (v_db v') \<and> (\<forall>e. r = Inl e \<longrightarrow> E e)"
  proof (induction "nat (max_iterations b) - lp_iterations p" arbitrary: p v rule: less_induct)
    case less
    obtain x u where t: "loop_turn w lr rid node n started b p v = (x, u)" by fastforce
    note k = keepsD [OF turn less.prems(1) t]
    show ?case
    proof (cases "\<exists>q. x = Inr (True, q)")
      case True
      then obtain q where q: "x = Inr (True, q)" by blast
      with less.prems(2) t have "loop_iterations w lr rid node n started b q u = (r, v')"
        by (simp add: loop_iterations.simps [of w lr rid node n started b p])
      moreover have "nat (max_iterations b) - lp_iterations q < nat (max_iterations b) - lp_iterations p"
        using loop_turn_counts [OF t [unfolded q]] by auto
      ultimately show ?thesis using less.hyps [OF _ k(3)] trans [OF k(1)] by blast
    next
      case False
      with less.prems(2) t k show ?thesis
        by (auto simp: loop_iterations.simps [of w lr rid node n started b p] split: sum.split_asm if_split_asm)
    qed
  qed
qed

lemma keeps_loop_node:
  assumes rk: "runner_keeps I R w"
  shows "keeps (bounded_loop_node w rid nid node n started)"
proof -
  have out: "keeps (bounded_loop_outcome w rid nid it p u)" for it p u
    unfolding bounded_loop_outcome_def Let_def by (intro keeps_intro)
  have fin: "keeps (finalize_bounded_loop w lr rid nid node policy p u)" if "w_loop w = Some lr" for lr policy p u
    unfolding finalize_bounded_loop_def
    by (intro keeps_if keeps_bind keeps_basic keeps_loop_calls [OF rk that])
       (auto intro!: keeps_intro out split: option.split)
  have main: "keeps (ex_bind (call_begin lr node budget) (\<lambda>ok.
      if \<not> ok then fail rid ''LOOP_BODY_FAILED''
      else ex_bind (calls_of rid) (\<lambda>usage_before.
        ex_bind (loop_iterations w lr rid node n started budget no_progress) (\<lambda>p.
        finalize_bounded_loop w lr rid nid node policy p usage_before))))"
    if "w_loop w = Some lr" for lr budget policy
    by (intro keeps_bind keeps_if keeps_basic keeps_loop_calls [OF rk that] keeps_loop_iterations [OF rk that] fin [OF that])
  show ?thesis unfolding bounded_loop_node_def
    by (auto intro!: keeps_intro main split: option.split sum.split)
qed

lemma keeps_loop_step:
  assumes rk: "runner_keeps I R w" and mine: "mine sid"
  shows "keeps (loop_step w rid sid nid node n started)"
proof (rule keepsI)
  fix v r v' assume i: "I (v_db v)" and e: "loop_step w rid sid nid node n started v = (r, v')"
  obtain x u where t: "bounded_loop_node w rid nid node n started v = (x, u)" by fastforce
  note k = keepsD [OF keeps_loop_node [OF rk] i t]
  have fs: "R (v_db u) (v_db (snd (fail_step w sid c u)))" for c
    using keepsD(1) [OF keeps_own_step(1) [OF mine, of w c] k(3)] by (metis prod.collapse)
  show "R (v_db v) (v_db v') \<and> (\<forall>e. r = Inl e \<longrightarrow> E e)"
    using e t k trans [OF k(1) fs] by (auto simp: loop_step_def split: sum.split_asm stop.split_asm if_split_asm)
qed

text \<open>Nodes.\<close>

lemma keeps_attempt:
  assumes "runner_keeps I R w" "mine sid" "keeps (run_node (w_fuel w) w rid sid node)"
  shows "keeps (attempt_node w rid sid nid node l)"
  unfolding attempt_node_def by (intro keeps_intro keeps_loop_step assms)

lemma keeps_save_artifact [keeps_intro]:
  assumes "mine sid"
  shows "keeps (save_artifact w rid sid nid d)"
  unfolding save_artifact_def
proof (rule keeps_bind [OF keeps_basic(4)], rule keepsI)
  fix now v r v' assume i: "I (v_db v)"
    and e: "(case save_node_result (w_codec w) rid nid d (v_ctx v) now (v_db v) of
         Inl (ArtifactError _) \<Rightarrow>
           ex_bind (fail_step w sid (Some ''ARTIFACT_WRITE_FAILED'')) (\<lambda>_. fail rid ''ARTIFACT_WRITE_FAILED'') v
       | Inl e \<Rightarrow> (Inl (Raise e), v) | Inr (_, s) \<Rightarrow> (Inr (), v\<lparr>v_db := s\<rparr>)) = (r :: stop + unit, v')"
  have k: "keeps (ex_bind (fail_step w sid (Some ''ARTIFACT_WRITE_FAILED''))
      (\<lambda>_. fail rid ''ARTIFACT_WRITE_FAILED'' :: unit exec))" by (intro keeps_intro assms)
  show "R (v_db v) (v_db v') \<and> (\<forall>e. r = Inl e \<longrightarrow> E e)"
    using e keepsD [OF k i] ledger [OF i save_node_result_same] refl [OF i] raised
    by (auto split: sum.split_asm runtime_error.split_asm prod.split_asm)
qed

lemma keeps_save_checkpoint [keeps_intro]: "keeps (save_checkpoint w rid n state)"
proof -
  have "keeps (ex_res (\<lambda>ctx s. save cd rid (key ctx) state ctx now s))" for cd key now
    by (rule keeps_res) (blast intro: ledger save_same)
  then show ?thesis unfolding save_checkpoint_def by (intro keeps_intro)
qed

lemma keeps_pause [keeps_intro]: "keeps (pause_node w p rid n)"
proof -
  have "keeps (ex_res (\<lambda>ctx s. pause_for_human rid ctx ttl now s))" for ttl now
    by (rule keeps_res) (rule pause)
  then show ?thesis unfolding pause_node_def by (auto intro!: keeps_intro split: option.split)
qed

lemma keeps_book [keeps_intro]: "keeps (book_active_time w rid b started)"
  unfolding book_active_time_def Let_def by (intro keeps_intro)

lemma keeps_node_gate [keeps_intro]: "keeps (node_gate w rid l)"
proof -
  have "keeps (policy_gate w rid l)" unfolding policy_gate_def
    by (intro keeps_intro) (auto intro: keeps_intro split: option.split)
  then show ?thesis unfolding node_gate_def by (intro keeps_intro)
qed

lemma keeps_settle [keeps_intro]:
  assumes "mine sid"
  shows "keeps (settle_node w p rid sid nid b d partial l)"
  unfolding settle_node_def Let_def
  by (intro keeps_intro assms) (auto intro!: keeps_intro split: option.split)

lemma keeps_node:
  assumes "runner_keeps I R w" "mine sid" "keeps (run_node (w_fuel w) w rid sid node)"
  shows "keeps (ex_bind (the_run rid) (\<lambda>r. ex_bind (attempt_node w rid sid nid node l) (\<lambda>out.
     case out of
       None \<Rightarrow> ex_ret (l\<lparr>l_partial := True\<rparr>)
     | Some (d, partial) \<Rightarrow> settle_node w p rid sid nid (active_elapsed_ms r) d partial l)))"
  by (intro keeps_bind keeps_basic keeps_attempt [OF assms])
     (auto intro!: keeps_intro assms(2) split: option.split prod.split)

text \<open>Before the plan.\<close>

lemma keeps_fallback [keeps_intro]: "keeps (fallback_target p rid from)"
  unfolding fallback_target_def
  by (intro keeps_intro) (auto intro!: keeps_intro split: json.split)

lemma keeps_set_state [keeps_intro]: "keeps (set_state w rid data ids)"
  unfolding set_state_def by (intro keeps_intro) (auto intro!: keeps_same raised split: sum.split sum.split_asm)

end

section \<open>Sound steps\<close>

lemma set_run_sound:
  assumes inv: "inv_db s" and f: "quiet s rid f"
  shows "sound s (set_run rid f s)"
proof (cases "find_run s rid")
  case None
  then have "upd_where (\<lambda>r. run_id r = rid) f (runs s) = runs s"
    by (intro upd_where_no_match) (simp add: find_run_def sel_one_None_iff)
  then have "set_run rid f s = s" by (simp add: set_run_def)
  with sound_refl [OF inv] show ?thesis by simp
next
  case (Some r)
  show ?thesis
    by (rule step_columns [OF inv Some]) (use f Some inv_db_row [OF inv Some] in \<open>auto simp: quiet_def\<close>)
qed

lemma append_callback_event_sound: "inv_db s \<Longrightarrow> sound s (append_callback_event rid ev tr now s)"
  using step_callback [of s rid] sound_refl [of s]
  by (cases "find_run s rid") (simp add: append_callback_event_def, blast)

lemma set_step_sound: "inv_db s \<Longrightarrow> sound s (set_step sid f s)"
  by (rule sound_frame) (simp_all add: set_step_def)

interpretation ledger: exec_step inv_db sound "\<lambda>_. True" "\<lambda>_. True"
proof
  show "inv_db s \<Longrightarrow> sound s (append_audit_record a1 a2 a3 a4 a5 a6 a7 a8 a9 now s)"
    for s a1 a2 a3 a4 a5 a6 a7 a8 a9 now by (rule step_audit)
qed (auto intro: sound_refl sound_trans soundD(1) append_callback_event_sound set_run_sound heartbeat_sound
   ledger_same_sound pause_for_human_sound set_step_sound record_auto_retry_sound)

abbreviation runner_sound :: "world \<Rightarrow> bool" where
  "runner_sound w \<equiv> runner_keeps inv_db sound w"

section \<open>Sound runs\<close>

lemma add_step_sound: "ledger.keeps (add_step w rid nid nt)"
  unfolding add_step_def
proof (rule ledger.keeps_bind)
  fix now
  show "ledger.keeps (\<lambda>v. let (i, s) = uuid4 (v_db v) in
       (Inr i, v\<lparr>v_db := s\<lparr>steps := steps s @ [\<lparr>step_id = i, s_run_id = rid, step_name = nid, step_type = nt,
          s_status = ''running'', s_execution_attempt = x_execution_attempt (v_ctx v), step_attempt = 1,
          s_input_summary = JNull, s_output_summary = JNull, s_error_code = None,
          s_started_at = Some now, s_finished_at = None\<rparr>]\<rparr>\<rparr>))"
    by (rule ledger.keepsI) (auto simp: uuid4_def intro: sound_frame)
qed (rule ledger.keeps_basic)

lemma plan_node_sound:
  assumes rs: "runner_sound w"
  shows "ledger.keeps (plan_node w p rid target raw l)"
proof -
  have "ledger.keeps (execute_node w p rid nid nt node l)" for nid nt node l
    unfolding execute_node_def
    by (rule ledger.keeps_bind [OF ledger.keeps_node_gate], rule ledger.keeps_bind [OF add_step_sound],
        rule ledger.keeps_node [OF rs], simp, rule ledger.keeps_run_node [OF rs]) simp_all
  then show ?thesis unfolding plan_node_def Let_def
    by (auto intro!: ledger.keeps_basic split: json.split)
qed

lemma plan_nodes_sound: "runner_sound w \<Longrightarrow> ledger.keeps (plan_nodes w p rid target xs l)"
  by (induction xs arbitrary: l) (auto intro!: ledger.keeps_basic ledger.keeps_bind plan_node_sound)

lemma require_lease_ok:
  "require_lease w rid v = (Inr x, u) \<Longrightarrow>
     v_db u = v_db v \<and> v_ctx u = v_ctx v \<and> v_st u = v_st v \<and> can_write rid (v_ctx v) (w_clock w (v_tick v)) (v_db v)"
  by (auto simp: require_lease_def x_can_write_def ex_bind_Inr ex_read_def ex_get_def ex_when_def ex_ret_def
      split: if_split_asm)

lemma check_draining_ok:
  "check_draining w rid n v = (Inr x, u) \<Longrightarrow> v_db u = v_db v \<and> v_ctx u = v_ctx v \<and> v_st u = v_st v"
  by (auto simp: check_draining_def ex_bind_Inr ex_read_def ex_when_def ex_ret_def draining_result_def split: if_split_asm)

lemma mark_running_sound:
  assumes inv: "inv_db (v_db v)" and r: "find_run (v_db v) rid = Some r" "dispatch_state r = Claimed"
    and m: "mark_running w rid v = (x, v')"
  shows "sound (v_db v) (v_db v')"
proof -
  let ?f = "\<lambda>r. r\<lparr>status := Running, status_version := status_version r + 1\<rparr>"
  let ?rest = "ex_bind (ex_read (w_clock w)) (\<lambda>now.
     ex_db (set_run rid (\<lambda>r. r\<lparr>started_at := (case started_at r of None \<Rightarrow> Some now | t \<Rightarrow> t)\<rparr>)))"
  let ?ev = "ex_bind (ex_read (w_clock w)) (\<lambda>now. ex_db (append_callback_event rid RunStarted JNull now))"
  have row: "row_ok r" "\<not> terminal (status r)" using claimed_row_facts [OF inv r] by auto
  have "row_ok (?f r) \<and> run_le r (?f r)"
    using row r(2) by (auto simp: row_ok_def run_le_def same_identity_def terminal_def)
  then have s1: "sound (v_db v) (set_run rid ?f (v_db v))"
    using r(1) by (intro step_columns [OF inv r(1)]) (simp_all add: run_scopes_def)
  have k: "ledger.keeps ?rest" "ledger.keeps (ex_bind ?ev (\<lambda>_. ?rest))" by (intro keeps_intro)+
  show ?thesis
  proof (cases "status r = Running")
    case True
    with m r have "?rest v = (x, v')" by (simp add: mark_running_def the_run_def ex_bind_def ex_when_def ex_ret_def)
    then show ?thesis by (rule ledger.keepsD [OF k(1) inv])
  next
    case False
    let ?u = "v\<lparr>v_db := set_run rid ?f (v_db v)\<rparr>"
    from False m r have "ex_bind ?ev (\<lambda>_. ?rest) ?u = (x, v')"
      by (auto simp: mark_running_def the_run_def ex_bind_def ex_when_def ex_db_def ex_read_def cong: option.case_cong)
    then have "sound (v_db ?u) (v_db v')" by (rule ledger.keepsD [OF k(2), rotated]) (use s1 in \<open>simp add: soundD\<close>)
    with s1 show ?thesis using sound_trans by simp
  qed
qed

lemma admitted_sound:
  assumes f: "ledger.keeps f"
  shows "ledger.keeps (ex_bind (require_lease w rid) (\<lambda>_. ex_bind (check_draining w rid n) (\<lambda>_.
    ex_bind (mark_running w rid) (\<lambda>_. f))))"
proof (rule ledger.keepsI)
  fix v r v' assume inv: "inv_db (v_db v)"
    and e: "ex_bind (require_lease w rid) (\<lambda>_. ex_bind (check_draining w rid n) (\<lambda>_.
      ex_bind (mark_running w rid) (\<lambda>_. f))) v = (r, v')"
  obtain x1 u1 where u1: "require_lease w rid v = (x1, u1)" by fastforce
  obtain x2 u2 where u2: "check_draining w rid n u1 = (x2, u2)" by fastforce
  obtain x3 u3 where u3: "mark_running w rid u2 = (x3, u3)" by fastforce
  note k = ledger.keepsD(1) [OF ledger.keeps_boundaries(6) inv u1]
  note k2 = ledger.keepsD(1) [OF ledger.keeps_boundaries(8) soundD(1) [OF k] u2]
  have "sound (v_db v) (v_db v')"
  proof (cases "isl x1 \<or> isl x2")
    case True
    with e u1 u2 k sound_trans [OF k k2] show ?thesis
      by (auto simp: ex_bind_def split: sum.split_asm)
  next
    case False
    then obtain y1 y2 where y: "x1 = Inr y1" "x2 = Inr y2" by (cases x1; cases x2) auto
    have eq: "v_db u2 = v_db v" and cw: "can_write rid (v_ctx v) (w_clock w (v_tick v)) (v_db v)"
      using require_lease_ok [OF u1 [unfolded y]] check_draining_ok [OF u2 [unfolded y]] by auto
    from cw obtain q where q: "find_run (v_db u2) rid = Some q" "dispatch_state q = Claimed"
      by (rule can_writeD) (simp add: eq)
    have s3: "sound (v_db u2) (v_db u3)" by (rule mark_running_sound [OF _ q u3]) (simp add: eq inv)
    show ?thesis
    proof (cases x3)
      case (Inl a)
      with e u1 u2 u3 y s3 eq show ?thesis by (simp add: ex_bind_def)
    next
      case (Inr b)
      with e u1 u2 u3 y have "f u3 = (r, v')" by (simp add: ex_bind_def)
      then show ?thesis using ledger.keepsD [OF f soundD(1) [OF s3]] sound_trans [OF s3] eq by metis
    qed
  qed
  then show "sound (v_db v) (v_db v') \<and> (\<forall>e. r = Inl e \<longrightarrow> True)" by simp
qed

lemma execute_sound:
  assumes rs: "runner_sound w" and inv: "inv_db (v_db v)" and e: "execute w rid ids data from v = (x, v')"
  shows "sound (v_db v) (v_db v')"
proof (cases "\<exists>r p nodes. find_run (v_db v) rid = Some r \<and> find_plan (v_db v) rid = Some p \<and>
    ordered_nodes (steps_json p) = Some nodes")
  case False
  with e sound_refl [OF inv] show ?thesis
    by (auto simp: execute_def fail_def ex_return_def split: option.split_asm)
next
  case True
  then obtain r p nodes where t: "find_run (v_db v) rid = Some r" "find_plan (v_db v) rid = Some p"
    "ordered_nodes (steps_json p) = Some nodes" by blast
  let ?m = "ex_bind (fallback_target p rid from) (\<lambda>target.
       ex_bind (check_authority w rid) (\<lambda>_.
       ex_bind (require_lease w rid) (\<lambda>_.
       ex_bind (check_draining w rid (int (length ids))) (\<lambda>_.
       ex_bind (mark_running w rid) (\<lambda>_.
       ex_bind (set_state w rid data ids) (\<lambda>_.
       ex_bind (ex_read (w_mono w)) (\<lambda>started.
       ex_bind (plan_nodes w p rid target nodes
          \<lparr>l_completed = ids, l_steps = int (length ids), l_partial = False, l_started = started,
           l_skipping = (target \<noteq> None)\<rparr>) (\<lambda>l.
       ex_get (\<lambda>v. run_result rid (if l_partial l then Partial else Succeeded)
          (steps_summary (l_steps l)) None (v_ctx v))))))))))"
  have "ledger.keeps ?m"
    by (intro ledger.keeps_bind [OF ledger.keeps_fallback] ledger.keeps_bind [OF ledger.keeps_boundaries(5)] admitted_sound)
       (intro keeps_intro plan_nodes_sound [OF rs])
  moreover have "?m v = (x, v')" using e t by (simp add: execute_def)
  ultimately show ?thesis by (rule ledger.keepsD [OF _ inv])
qed

lemma run_workflow_sound:
  assumes "runner_sound w" "inv_db (v_db v)" "run_workflow w rid v = (e, v')"
  shows "sound (v_db v) (v_db v')"
  using assms(3) execute_sound [OF assms(1,2)]
  by (auto simp: run_workflow_def outcome_of_def split: prod.split_asm sum.split_asm)

lemma resume_workflow_sound:
  assumes rs: "runner_sound w" and inv: "inv_db (v_db v)" and e: "resume_workflow w rid v = (x, v')"
  shows "sound (v_db v) (v_db v')"
proof -
  let ?now = "w_clock w (v_tick v)" and ?v = "v\<lparr>v_tick := Suc (v_tick v)\<rparr>"
  show ?thesis
  proof (cases "load_latest (w_codec w) rid (v_ctx v) ?now (v_db v)")
    case (Inl a)
    with e sound_refl [OF inv] show ?thesis
      by (cases a) (auto simp: resume_workflow_def outcome_of_def ex_bind_def ex_read_def fail_def ex_return_def)
  next
    case (Inr b)
    obtain state s where b: "b = (state, s)" by fastforce
    have s: "sound (v_db v) s" using Inr b ledger_same_sound [OF inv load_latest_same] by simp
    let ?v1 = "?v\<lparr>v_db := s\<rparr>"
    have inv1: "inv_db (v_db ?v1)" using soundD(1) [OF s] by simp
    have "sound s (v_db u)" if "purge_unsafe w rid ?v1 = (y, u)" for y u
      using that ledger_same_sound [OF soundD(1) [OF s] purge_for_run_same] sound_refl [OF soundD(1) [OF s]]
      by (auto simp: purge_unsafe_def ex_bind_def ex_read_def fail_def ex_return_def split: sum.split_asm prod.split_asm)
    then have "sound s (v_db v')"
      using e Inr b execute_sound [OF rs inv1] sound_refl [OF soundD(1) [OF s]]
      by (auto simp: resume_workflow_def outcome_of_def ex_bind_def ex_read_def Let_def fail_def ex_return_def
          split: prod.split_asm sum.split_asm if_split_asm)
    with s show ?thesis by (rule sound_trans)
  qed
qed

lemma settle_result_sound:
  assumes inv: "inv_db (v_db v)" and e: "settle_result w rid (y, v) = (x, s')"
  shows "sound (v_db v) s'"
proof (cases y)
  case (Return res)
  have rel: "sound (v_db v) (snd (release_for_drain rid (v_ctx v) n (v_db v)))" for n
    using release_for_drain_sound [OF inv] by (metis prod.collapse)
  show ?thesis
  proof (cases "res_status res \<in> set terminal_states")
    case False
    with e Return rel sound_refl [OF inv] show ?thesis by (auto simp: settle_result_def split: if_split_asm)
  next
    case ends: True
    show ?thesis
    proof (cases "finish res (v_ctx v) (w_clock w (v_tick v)) (v_db v)")
      case (Inl a)
      with e Return ends sound_refl [OF inv] show ?thesis by (simp add: settle_result_def)
    next
      case (Inr b)
      then obtain ok s2 where fin: "finish res (v_ctx v) (w_clock w (v_tick v)) (v_db v) = Inr (ok, s2)" by (cases b) auto
      have s2: "sound (v_db v) s2" by (rule finish_sound [OF inv fin])
      then show ?thesis
        using e Return ends fin finish_after_invalid_boundary_sound [OF soundD(1) [OF s2]] sound_trans [OF s2]
        by (cases ok) (auto simp: settle_result_def split: sum.split_asm)
    qed
  qed
qed (use e sound_refl [OF inv] in \<open>simp_all add: settle_result_def\<close>)

lemma consume_claimed_sound:
  assumes rs: "runner_sound w" and inv: "inv_db s1"
    and c: "\<not> w_draining w t" "claim 90 rid worker (w_clock w (t + 1)) s = Inr (Some ctx, s1)"
    and e: "consume w rid worker t s = (x, s')"
  shows "sound s1 s'"
proof -
  let ?v0 = "\<lparr>v_db = s1, v_st = new_state [] [] [], v_ctx = ctx, v_tick = t + 2\<rparr>"
  let ?out = "if case find_run s rid of None \<Rightarrow> False | Some r \<Rightarrow> status r \<in> {WaitingHuman, Partial}
    then resume_workflow w rid ?v0 else run_workflow w rid ?v0"
  obtain y v where w: "?out = (y, v)" by fastforce
  have sv: "sound s1 (v_db v)"
    using w run_workflow_sound [OF rs, of ?v0] resume_workflow_sound [OF rs, of ?v0] inv
    by (simp split: if_split_asm)
  have "consume w rid worker t s = settle_result w rid ?out" unfolding consume_def Let_def c(2) using c(1) by simp
  with e w have "settle_result w rid (y, v) = (x, s')" by simp
  from settle_result_sound [OF soundD(1) [OF sv] this] sv show ?thesis using sound_trans by blast
qed

lemma consume_sound:
  assumes rs: "runner_sound w" and inv: "inv_db s" and e: "consume w rid worker t s = (x, s')"
  shows "sound s s'"
proof (cases "\<exists>ctx s1. \<not> w_draining w t \<and> claim 90 rid worker (w_clock w (t + 1)) s = Inr (Some ctx, s1)")
  case False
  with e claim_sound [OF inv] sound_refl [OF inv] show ?thesis
    by (auto simp: consume_def split: if_split_asm sum.split_asm prod.split_asm option.split_asm)
next
  case True
  then obtain ctx s1 where c: "\<not> w_draining w t" "claim 90 rid worker (w_clock w (t + 1)) s = Inr (Some ctx, s1)" by blast
  have "sound s s1" by (rule claim_sound [OF inv c(2)])
  with consume_claimed_sound [OF rs soundD(1) c e] show ?thesis using sound_trans by blast
qed

end
