(* ===== verification/Step_History.thy ===== *)
theory Step_History
  imports Execution
begin

text \<open>
  The step rows of a run: the executor closes the row of every node it finishes, leaves the rows of
  other nodes alone, and always returns, because a step is only repeated while the frozen limit
  of automatic retries allows it. Two more relations interpret the logic of the executor:
  \<open>rows_same\<close>, kept by what writes no step, and \<open>own_rel\<close>, kept by what writes one step only.
\<close>

section \<open>Relations on the step table\<close>

definition rows_of :: "string \<Rightarrow> db \<Rightarrow> agent_step list" where
  "rows_of rid s = filter (\<lambda>x. s_run_id x = rid) (steps s)"

definition rows_same :: "string \<Rightarrow> db \<Rightarrow> db \<Rightarrow> bool" where
  "rows_same rid s s' \<longleftrightarrow> sound s s' \<and> rows_of rid s' = rows_of rid s \<and> uuid_counter s \<le> uuid_counter s'"

definition row_ids :: "string \<Rightarrow> string \<Rightarrow> db \<Rightarrow> agent_step set" where
  "row_ids rid sid s = {x \<in> set (rows_of rid s). step_id x = sid}"

definition own_rel :: "string \<Rightarrow> string \<Rightarrow> db \<Rightarrow> db \<Rightarrow> bool" where
  "own_rel rid sid s s' \<longleftrightarrow> sound s s' \<and> uuid_counter s \<le> uuid_counter s' \<and>
     filter (\<lambda>x. step_id x \<noteq> sid) (rows_of rid s') = filter (\<lambda>x. step_id x \<noteq> sid) (rows_of rid s) \<and>
     step_name ` row_ids rid sid s \<subseteq> step_name ` row_ids rid sid s' \<and>
     (\<forall>k. (\<forall>x\<in>row_ids rid sid s. k \<le> step_attempt x) \<longrightarrow> (\<forall>x\<in>row_ids rid sid s'. k \<le> step_attempt x))"

definition own_inv :: "string \<Rightarrow> string \<Rightarrow> int \<Rightarrow> db \<Rightarrow> bool" where
  "own_inv rid sid mx s \<longleftrightarrow> inv_db s \<and>
     (\<exists>r. find_run s rid = Some r \<and> auto_retry_limit r \<le> mx) \<and> (\<forall>x\<in>row_ids rid sid s. 1 \<le> step_attempt x)"

lemma rows_same_own: "rows_same rid s s' \<Longrightarrow> own_rel rid sid s s'"
  by (simp add: rows_same_def own_rel_def row_ids_def)

lemma own_relD:
  assumes "own_rel rid sid s s'"
  shows "sound s s'" "uuid_counter s \<le> uuid_counter s'"
    "filter (\<lambda>x. step_id x \<noteq> sid) (rows_of rid s') = filter (\<lambda>x. step_id x \<noteq> sid) (rows_of rid s)"
    "step_name ` row_ids rid sid s \<subseteq> step_name ` row_ids rid sid s'"
    "\<And>k x. (\<And>y. y \<in> row_ids rid sid s \<Longrightarrow> k \<le> step_attempt y) \<Longrightarrow> x \<in> row_ids rid sid s' \<Longrightarrow> k \<le> step_attempt x"
  using assms by (simp_all add: own_rel_def)

lemma own_rel_trans:
  assumes a: "own_rel rid sid s t" and b: "own_rel rid sid t u"
  shows "own_rel rid sid s u"
  unfolding own_rel_def
proof (intro conjI allI impI)
  show "sound s u" by (rule sound_trans [OF own_relD(1) [OF a] own_relD(1) [OF b]])
  show "uuid_counter s \<le> uuid_counter u" using own_relD(2) [OF a] own_relD(2) [OF b] by simp
  show "step_name ` row_ids rid sid s \<subseteq> step_name ` row_ids rid sid u"
    by (rule order_trans [OF own_relD(4) [OF a] own_relD(4) [OF b]])
  show "\<forall>x\<in>row_ids rid sid u. k \<le> step_attempt x" if "\<forall>x\<in>row_ids rid sid s. k \<le> step_attempt x" for k
  proof
    fix x assume x: "x \<in> row_ids rid sid u"
    show "k \<le> step_attempt x"
      by (rule own_relD(5) [OF b _ x], rule own_relD(5) [OF a _]) (use that in simp_all)
  qed
qed (simp add: own_relD(3) [OF a] own_relD(3) [OF b])

lemma rows_sameI:
  "sound s s' \<Longrightarrow> steps s' = steps s \<Longrightarrow> uuid_counter s \<le> uuid_counter s' \<Longrightarrow> rows_same rid s s'"
  by (simp add: rows_same_def rows_of_def)

lemma auto_retry_limit_same: "run_le r r' \<Longrightarrow> auto_retry_limit r' = auto_retry_limit r"
  by (simp add: auto_retry_limit_def run_le_def same_identity_def)

lemma own_inv_rel: "own_inv rid sid mx s \<Longrightarrow> own_rel rid sid s s' \<Longrightarrow> own_inv rid sid mx s'"
  unfolding own_inv_def own_rel_def sound_def advances_def by (metis auto_retry_limit_same)

lemma heartbeat_frame:
  "heartbeat n rid ctx now s = (ok, ctx', s') \<Longrightarrow> steps s' = steps s \<and> uuid_counter s' = uuid_counter s"
  by (auto simp: heartbeat_def update_run_def Let_def split: option.split_asm if_split_asm)

lemma pause_for_human_frame:
  "pause_for_human rid ctx ttl now s = Inr (ok, s') \<Longrightarrow> steps s' = steps s \<and> uuid_counter s \<le> uuid_counter s'"
  by (auto simp: pause_for_human_def transition_run_def res_simps set_run_def frame_simps option_raise_eq
      intro: order_trans [OF _ append_callback_event_frame(12)] split: if_split_asm)

lemma rows_upd_where:
  assumes "\<And>x. s_run_id (f x) = s_run_id x \<and> step_id (f x) = step_id x"
  shows "filter (\<lambda>x. s_run_id x = rid \<and> step_id x \<noteq> sid) (upd_where (\<lambda>x. step_id x = sid) f xs) =
    filter (\<lambda>x. s_run_id x = rid \<and> step_id x \<noteq> sid) xs"
  using assms by (induction xs) auto

lemma row_ids_upd_where:
  assumes "\<And>x. s_run_id (f x) = s_run_id x \<and> step_id (f x) = step_id x"
    and "steps s' = upd_where (\<lambda>x. step_id x = sid) f (steps s)"
  shows "row_ids rid sid s' = f ` row_ids rid sid s"
proof (rule set_eqI)
  fix y
  have "y \<in> row_ids rid sid s' \<longleftrightarrow>
      (\<exists>x\<in>set (steps s). y = (if step_id x = sid then f x else x) \<and> s_run_id y = rid \<and> step_id y = sid)"
    by (auto simp: row_ids_def rows_of_def assms(2) set_upd_where image_iff)
  also have "\<dots> \<longleftrightarrow> y \<in> f ` row_ids rid sid s"
    using assms(1) by (fastforce simp: row_ids_def rows_of_def split: if_splits)
  finally show "y \<in> row_ids rid sid s' \<longleftrightarrow> y \<in> f ` row_ids rid sid s" .
qed

lemma own_rel_upd:
  assumes "sound s s'" "uuid_counter s' = uuid_counter s"
    and st: "steps s' = upd_where (\<lambda>x. step_id x = sid) f (steps s)"
    and f: "\<And>x. s_run_id (f x) = s_run_id x \<and> step_id (f x) = step_id x"
    and g: "\<And>x. step_name (f x) = step_name x \<and> step_attempt x \<le> step_attempt (f x)"
  shows "own_rel rid sid s s'"
proof -
  have "k \<le> step_attempt (f x)" if "k \<le> step_attempt x" for k x using g [of x] that by linarith
  then show ?thesis using assms(1,2) f g row_ids_upd_where [OF f st]
    by (auto simp: own_rel_def rows_of_def st rows_upd_where image_image)
qed

section \<open>The relations are kept\<close>

lemma record_auto_retry_steps:
  assumes "record_auto_retry rid (Some sid) s = Inr s'"
  shows "uuid_counter s' = uuid_counter s \<and>
    steps s' = upd_where (\<lambda>x. step_id x = sid) (\<lambda>x. x\<lparr>step_attempt := step_attempt x + 1\<rparr>) (steps s)"
    "\<exists>r x. find_run s rid = Some r \<and> x \<in> row_ids rid sid s \<and> step_attempt x - 1 < auto_retry_limit r"
proof -
  from assms obtain r x where
    r: "find_run s rid = Some r" and x: "sel_one (\<lambda>x. s_run_id x = rid \<and> step_id x = sid \<and> s_status x = ''running'') (steps s) = Some x"
    and mx: "step_attempt x - 1 < auto_retry_limit r"
    and s': "s' = set_run rid (\<lambda>r. r\<lparr>auto_retry_count := auto_retry_count r + 1\<rparr>)
      (s\<lparr>steps := upd_where (\<lambda>y. step_id y = step_id x) (\<lambda>y. y\<lparr>step_attempt := step_attempt y + 1\<rparr>) (steps s)\<rparr>)"
    by (auto simp: record_auto_retry_def Let_def res_simps option_raise_eq)
  from x have "x \<in> set (steps s) \<and> s_run_id x = rid \<and> step_id x = sid"
    by (auto simp: sel_one_def find_Some_iff)
  then show "uuid_counter s' = uuid_counter s \<and>
    steps s' = upd_where (\<lambda>x. step_id x = sid) (\<lambda>x. x\<lparr>step_attempt := step_attempt x + 1\<rparr>) (steps s)"
    "\<exists>r x. find_run s rid = Some r \<and> x \<in> row_ids rid sid s \<and> step_attempt x - 1 < auto_retry_limit r"
    using r mx by (auto simp: s' set_run_def row_ids_def rows_of_def)
qed

interpretation rows: exec_step inv_db "rows_same rid" "\<lambda>_. True" "\<lambda>_. False" for rid
proof
  show "inv_db s \<Longrightarrow> rows_same rid s (append_audit_record a1 a2 a3 a4 a5 a6 a7 a8 a9 now s)"
    for s a1 a2 a3 a4 a5 a6 a7 a8 a9 now by (simp add: rows_sameI step_audit frame_simps)
  show "inv_db s \<Longrightarrow> quiet s i f \<Longrightarrow> rows_same rid s (set_run i f s)" for s i f
    by (rule rows_sameI [OF set_run_sound]) (simp_all add: set_run_def)
  show "inv_db s \<Longrightarrow> ledger_same s s' \<Longrightarrow> rows_same rid s s'" for s s'
    by (rule rows_sameI [OF ledger_same_sound]) (simp_all add: ledger_same_def)
  show "rows_same rid s t \<Longrightarrow> rows_same rid t u \<Longrightarrow> rows_same rid s u" for s t u
    by (auto simp: rows_same_def intro: sound_trans)
  show "inv_db s \<Longrightarrow> rows_same rid s t \<Longrightarrow> inv_db t" for s t by (auto simp: rows_same_def soundD(1))
qed (auto simp: frame_simps dest: heartbeat_frame pause_for_human_frame
   intro!: rows_sameI sound_refl append_callback_event_sound intro: heartbeat_sound pause_for_human_sound)

text \<open>How a part stops early: not for want of fuel, and not with a success.\<close>

definition early :: "stop \<Rightarrow> bool" where
  "early e \<longleftrightarrow> e \<noteq> OutOfFuel \<and> (\<forall>res. e = Return res \<longrightarrow> res_status res \<notin> {Succeeded, Partial})"

lemma early_simps [simp]: "\<not> early OutOfFuel" "early (Raise e)"
  "early (Return res) \<longleftrightarrow> res_status res \<notin> {Succeeded, Partial}"
  by (auto simp: early_def)

interpretation own: exec_step "own_inv rid sid mx" "own_rel rid sid" early "\<lambda>i. i = sid" for rid sid mx
proof
  fix s assume i: "own_inv rid sid mx s"
  then have inv: "inv_db s" by (simp add: own_inv_def)
  note q = rows_same_own [of rid s _ sid]
  show "own_rel rid sid s s" by (rule q [OF rows.refl [OF inv]])
  show "own_rel rid sid s (append_audit_record a1 a2 a3 a4 a5 a6 a7 a8 a9 now s)"
    for a1 a2 a3 a4 a5 a6 a7 a8 a9 now by (rule q [OF rows.audit [OF inv]])
  show "own_rel rid sid s (append_callback_event i ev tr now s)" for i ev tr now by (rule q [OF rows.event [OF inv]])
  show "quiet s i f \<Longrightarrow> own_rel rid sid s (set_run i f s)" for i f by (rule q [OF rows.columns [OF inv]])
  show "heartbeat n i ctx now s = (ok, ctx', s') \<Longrightarrow> own_rel rid sid s s'" for n i ctx now ok ctx' s'
    by (rule q [OF rows.beat [OF inv]])
  show "ledger_same s s' \<Longrightarrow> own_rel rid sid s s'" for s' by (rule q [OF rows.ledger [OF inv]])
  show "pause_for_human i ctx ttl now s = Inr (ok, s') \<Longrightarrow> own_rel rid sid s s'" for i ctx ttl now ok s'
    by (rule q [OF rows.pause [OF inv]])
  show "own_rel rid sid s t \<Longrightarrow> own_inv rid sid mx t" for t by (rule own_inv_rel [OF i])
  show "i = sid \<Longrightarrow> step_quiet g \<Longrightarrow> own_rel rid sid s (set_step i g s)" for i g
    using set_step_sound [OF inv] by (intro own_rel_upd [where f = g]) (auto simp: set_step_def step_quiet_def)
  show "i = sid \<Longrightarrow> record_auto_retry rd (Some i) s = Inr s' \<Longrightarrow> own_rel rid sid s s'" for i rd s'
    using record_auto_retry_steps(1) [of rd i s s'] record_auto_retry_sound [OF inv]
    by (intro own_rel_upd [where f = "\<lambda>x. x\<lparr>step_attempt := step_attempt x + 1\<rparr>"]) simp_all
next
  show "own_rel rid sid s t \<Longrightarrow> own_rel rid sid t u \<Longrightarrow> own_rel rid sid s u" for s t u
    by (rule own_rel_trans)
qed simp_all

section \<open>Automatic retries\<close>

lemma runner_keeps_mono:
  "runner_keeps I R w \<Longrightarrow> (\<And>s. J s \<Longrightarrow> I s) \<Longrightarrow> (\<And>s s'. R s s' \<Longrightarrow> Q s s') \<Longrightarrow> runner_keeps J Q w"
  unfolding runner_keeps_def by (elim conjE, intro conjI allI impI) meson+

text \<open>The runner and the processes beside it do not write the step rows of the run.\<close>

abbreviation runner_leaves_steps :: "string \<Rightarrow> world \<Rightarrow> bool" where
  "runner_leaves_steps rid w \<equiv> runner_keeps inv_db (rows_same rid) w"

lemma runner_leaves_own: "runner_leaves_steps rid w \<Longrightarrow> runner_keeps (own_inv rid sid mx) (own_rel rid sid) w"
  by (erule runner_keeps_mono) (simp_all add: own_inv_def rows_same_own)

lemma retry_step_bumps:
  assumes "retry_step w rid sid v = (Inr x, v')" and "own_inv rid sid mx (v_db v)"
    and k: "\<forall>y\<in>row_ids rid sid (v_db v). k \<le> step_attempt y"
  shows "k - 1 < mx" "\<forall>y\<in>row_ids rid sid (v_db v'). k + 1 \<le> step_attempt y"
proof -
  from assms(1) have r: "record_auto_retry rid (Some sid) (v_db v) = Inr (v_db v')"
    by (auto simp: retry_step_def ex_bind_Inr split: sum.split_asm runtime_error.split_asm)
  from record_auto_retry_steps(2) [OF r] assms(2) k show "k - 1 < mx" by (fastforce simp: own_inv_def)
  have "row_ids rid sid (v_db v') = (\<lambda>x. x\<lparr>step_attempt := step_attempt x + 1\<rparr>) ` row_ids rid sid (v_db v)"
    by (rule row_ids_upd_where) (use record_auto_retry_steps(1) [OF r] in simp_all)
  with k show "\<forall>y\<in>row_ids rid sid (v_db v'). k + 1 \<le> step_attempt y" by auto
qed

lemma run_node_returns:
  assumes rk: "runner_keeps (own_inv rid sid mx) (own_rel rid sid) w"
  shows "own_inv rid sid mx (v_db v) \<Longrightarrow> \<forall>x\<in>row_ids rid sid (v_db v). k \<le> step_attempt x \<Longrightarrow>
    max 0 (mx - (k - 1)) < int n \<Longrightarrow> run_node n w rid sid node v = (r, v') \<Longrightarrow>
    own_rel rid sid (v_db v) (v_db v') \<and> (\<forall>e. r = Inl e \<longrightarrow> early e)"
proof (induction n arbitrary: k v)
  case (Suc n)
  obtain y u where c: "call_node w node v = (y, u)" by fastforce
  note kc = own.keepsD [OF own.keeps_call_node [OF rk] Suc.prems(1) c]
  have ku: "\<forall>x\<in>row_ids rid sid (v_db u). k \<le> step_attempt x"
    using own_relD(5) [OF kc(1), of k] Suc.prems(2) by simp
  obtain out where y: "y = Inr out" using c by (auto simp: call_node_def split: prod.split_asm)
  show ?case
  proof (cases out)
    case NodeRetryable
    obtain z t where t: "retry_step w rid sid u = (z, t)" by fastforce
    note kt = own.keepsD [OF own.keeps_retry_step [OF HOL.refl] kc(3) t]
    show ?thesis
    proof (cases z)
      case (Inl a)
      with Suc.prems(4) c y NodeRetryable t kt(1,2) show ?thesis
        using own_rel_trans [OF kc(1) kt(1)] by (auto simp: ex_bind_def)
    next
      case (Inr b)
      note bump = retry_step_bumps [OF t [unfolded Inr] kc(3) ku]
      have "run_node n w rid sid node t = (r, v')"
        using Suc.prems(4) c y NodeRetryable t Inr by (simp add: ex_bind_def)
      with Suc.IH [OF kt(3) bump(2)] bump(1) Suc.prems(3) show ?thesis
        using own_rel_trans [OF own_rel_trans [OF kc(1) kt(1)]] by auto
    qed
  qed (use Suc.prems(4) c y kc in \<open>auto simp: ex_bind_def ex_ret_def ex_stop_def\<close>)
qed simp

lemma own_run_node:
  assumes "runner_leaves_steps rid w" "nat mx < n"
  shows "own.keeps rid sid mx (run_node n w rid sid node)"
proof (rule own.keepsI)
  fix v r v' assume i: "own_inv rid sid mx (v_db v)" and e: "run_node n w rid sid node v = (r, v')"
  have k: "\<forall>x\<in>row_ids rid sid (v_db v). 1 \<le> step_attempt x" using i by (simp add: own_inv_def)
  have m: "max 0 (mx - (1 - 1)) < int n" using assms(2) by linarith
  show "own_rel rid sid (v_db v) (v_db v') \<and> (\<forall>e. r = Inl e \<longrightarrow> early e)"
    using run_node_returns [OF runner_leaves_own [OF assms(1)] i k m e] by blast
qed

section \<open>Nodes\<close>

text \<open>The node has a closed, successful step row.\<close>

definition done_step :: "string \<Rightarrow> string \<Rightarrow> db \<Rightarrow> bool" where
  "done_step rid nid s \<longleftrightarrow>
     (\<exists>x\<in>set (rows_of rid s). step_name x = nid \<and> s_status x \<in> {''succeeded'', ''skipped''})"

definition ready :: "string \<Rightarrow> int \<Rightarrow> db \<Rightarrow> bool" where
  "ready rid mx s \<longleftrightarrow> inv_db s \<and> (\<exists>r. find_run s rid = Some r \<and> auto_retry_limit r \<le> mx) \<and>
     (\<forall>x\<in>set (rows_of rid s). \<exists>n < uuid_counter s. step_id x = numeral_string n)"

lemma done_same: "rows_same rid s s' \<Longrightarrow> done_step rid nid s' = done_step rid nid s"
  by (simp add: done_step_def rows_same_def)

lemma sound_run_limit:
  "sound s s' \<Longrightarrow> \<exists>r. find_run s rid = Some r \<and> auto_retry_limit r \<le> mx \<Longrightarrow>
    \<exists>r. find_run s' rid = Some r \<and> auto_retry_limit r \<le> mx"
  unfolding sound_def advances_def by (metis auto_retry_limit_same)

lemma ready_same: "ready rid mx s \<Longrightarrow> rows_same rid s s' \<Longrightarrow> ready rid mx s'"
  unfolding ready_def using sound_run_limit [of s s'] by (fastforce simp: rows_same_def soundD(1))

lemma ex_bind_assoc: "ex_bind (ex_bind m f) g = ex_bind m (\<lambda>x. ex_bind (f x) g)"
  by (rule ext) (simp add: ex_bind_def split: prod.split sum.split)

lemma ex_bind_ret: "ex_bind (ex_ret x) f = f x"
  by (rule ext) (simp add: ex_bind_def ex_ret_def)

text \<open>What a settled node leaves: its closed row, and the local variables of the loop.\<close>

definition settle_tail ::
  "world \<Rightarrow> agent_plan \<Rightarrow> string \<Rightarrow> string \<Rightarrow> int \<Rightarrow> dict \<Rightarrow> bool \<Rightarrow> locals \<Rightarrow> bool \<Rightarrow> locals exec" where
  "settle_tail w p rid nid booked d partial l draining_after_node =
     (let ids = List.insert nid (l_completed l); n = l_steps l + 1 in
     ex_bind (book_active_time w rid booked (l_started l)) (\<lambda>started.
     ex_bind (ex_get (\<lambda>v. checkpoint_state p d (v_st v) n)) (\<lambda>cs.
     case cs of
       None \<Rightarrow> fail rid ''FALLBACK_NODE_INVALID''
     | Some state \<Rightarrow>
         ex_bind (save_checkpoint w rid n state) (\<lambda>_.
         ex_bind (if draining_after_node then ex_ret True else ex_read (w_draining w)) (\<lambda>draining.
         if draining then draining_result rid n
         else ex_bind (ex_when (dget d ''waiting_human'' = JBool True) (pause_node w p rid n)) (\<lambda>_.
           ex_bind (ex_read (w_clock w)) (\<lambda>now.
           ex_bind (ex_db (append_callback_event rid StepChanged
              (JList [JObj [(''step'', JStr nid), (''status'', JStr (node_status d))]]) now)) (\<lambda>_.
           ex_ret \<lparr>l_completed = ids, l_steps = n, l_partial = l_partial l \<or> partial, l_started = started,
                   l_skipping = False\<rparr>))))))))"

lemma settle_node_split:
  "settle_node w p rid sid nid booked d partial l =
     ex_bind (ex_bind (renew_lease w rid) (\<lambda>_. ex_bind (ex_read (w_draining w)) (\<lambda>dr.
       ex_bind (save_artifact w rid sid nid d) (\<lambda>_.
       ex_bind (set_completed (List.insert nid (l_completed l))) (\<lambda>_. ex_ret dr))))) (\<lambda>dr.
     ex_bind (complete_step w sid nid d) (\<lambda>_. settle_tail w p rid nid booked d partial l dr))"
  by (simp add: settle_node_def settle_tail_def ex_bind_assoc ex_bind_ret Let_def)

lemma settle_tail_rows: "rows.keeps rid (settle_tail w p rid nid booked d partial l dr)"
  unfolding settle_tail_def Let_def
  by (intro rows.keeps_bind rows.keeps_book rows.keeps_basic)
     (auto intro!: rows.keeps_bind rows.keeps_basic rows.keeps_save_checkpoint rows.keeps_pause rows.keeps_writes
       rows.keeps_when rows.keeps_if split: option.split)

lemma settle_tail_locals:
  assumes "settle_tail w p rid nid booked d partial l dr v = (Inr l', v')"
  shows "l_partial l \<longrightarrow> l_partial l'" "l_completed l' = List.insert nid (l_completed l)" "\<not> l_skipping l'"
    "l_steps l' = l_steps l + 1"
  using assms unfolding settle_tail_def Let_def
  by (auto simp: ex_bind_Inr ex_ret_def draining_result_def split: option.split_asm if_split_asm)

lemma settle_node_locals:
  assumes "settle_node w p rid sid nid b d partial l v = (Inr l', v')"
  shows "l_partial l \<longrightarrow> l_partial l'" "l_completed l' = List.insert nid (l_completed l)" "\<not> l_skipping l'"
    "l_steps l' = l_steps l + 1"
  using assms unfolding settle_node_split by (auto simp: ex_bind_Inr dest: settle_tail_locals)

lemma settle_node_done:
  assumes i: "own_inv rid sid mx (v_db v)" and nm: "nid \<in> step_name ` row_ids rid sid (v_db v)"
    and e: "settle_node w p rid sid nid b d partial l v = (Inr l', v')"
  shows "done_step rid nid (v_db v')"
proof -
  let ?head = "ex_bind (renew_lease w rid) (\<lambda>_. ex_bind (ex_read (w_draining w)) (\<lambda>dr.
       ex_bind (save_artifact w rid sid nid d) (\<lambda>_.
       ex_bind (set_completed (List.insert nid (l_completed l))) (\<lambda>_. ex_ret dr))))"
  from e obtain dr u1 u2 where u1: "?head v = (Inr dr, u1)" and u2: "complete_step w sid nid d u1 = (Inr (), u2)"
    and t: "settle_tail w p rid nid b d partial l dr u2 = (Inr l', v')"
    unfolding settle_node_split by (auto simp: ex_bind_Inr [of ?head] ex_bind_Inr [of "complete_step w sid nid d"])
  have "own.keeps rid sid mx ?head"
    by (intro own.keeps_bind own.keeps_boundaries own.keeps_basic own.keeps_save_artifact) simp
  note k1 = own.keepsD [OF this i u1]
  note k2 = own.keepsD [OF own.keeps_own_step(2) [OF HOL.refl] k1(3) u2]
  from nm own_relD(4) [OF k1(1)] obtain x where x: "x \<in> row_ids rid sid (v_db u1)" "step_name x = nid" by auto
  from u2 obtain g where "steps (v_db u2) = upd_where (\<lambda>x. step_id x = sid) g (steps (v_db u1))"
    and g: "\<And>x. s_run_id (g x) = s_run_id x \<and> step_id (g x) = step_id x"
      "\<And>x. step_name (g x) = step_name x \<and> s_status (g x) = node_status d"
    by (auto simp: complete_step_def ex_bind_Inr ex_read_def ex_db_def set_step_def)
  then have "g x \<in> row_ids rid sid (v_db u2)" using row_ids_upd_where [OF g(1)] x(1) by auto
  with g(2) x(2) have "done_step rid nid (v_db u2)"
    by (auto simp: done_step_def row_ids_def node_status_def intro!: bexI [where x = "g x"])
  moreover have "rows_same rid (v_db u2) (v_db v')"
    by (rule rows.keepsD(1) [OF settle_tail_rows _ t]) (use k2(3) in \<open>simp add: own_inv_def\<close>)
  ultimately show ?thesis by (simp add: done_same)
qed

text \<open>The step row of a new node is fresh.\<close>

lemma add_step_own:
  assumes rd: "ready rid mx (v_db v)" and e: "add_step w rid nid nt v = (x, u)"
  obtains sid where "x = Inr sid" "own_inv rid sid mx (v_db u)" "nid \<in> step_name ` row_ids rid sid (v_db u)"
    "filter (\<lambda>y. step_id y \<noteq> sid) (rows_of rid (v_db u)) = rows_of rid (v_db v)"
    "\<exists>n < uuid_counter (v_db u). sid = numeral_string n" "uuid_counter (v_db v) \<le> uuid_counter (v_db u)"
proof -
  let ?sid = "numeral_string (uuid_counter (v_db v))"
  have inv: "inv_db (v_db v)" using rd by (simp add: ready_def)
  from e obtain y where x: "x = Inr ?sid" and st: "steps (v_db u) = steps (v_db v) @ [y]"
    and y: "step_id y = ?sid" "s_run_id y = rid" "step_name y = nid" "step_attempt y = 1"
    and n: "uuid_counter (v_db u) = Suc (uuid_counter (v_db v))"
    by (auto simp: add_step_def ex_bind_def ex_read_def uuid4_def)
  have fresh: "step_id z \<noteq> ?sid" if "z \<in> set (rows_of rid (v_db v))" for z
    using rd that by (auto simp: ready_def)
  have rows: "rows_of rid (v_db u) = rows_of rid (v_db v) @ [y]" using st y by (simp add: rows_of_def)
  have ids: "row_ids rid ?sid (v_db u) = {y}" using fresh y by (auto simp: row_ids_def rows)
  have sd: "sound (v_db v) (v_db u)" by (rule ledger.keepsD(1) [OF add_step_sound inv e])
  have "own_inv rid ?sid mx (v_db u)"
    using sound_run_limit [OF sd] rd ids y(4) by (simp add: own_inv_def ready_def soundD(1) [OF sd])
  moreover have "filter (\<lambda>y. step_id y \<noteq> ?sid) (rows_of rid (v_db u)) = rows_of rid (v_db v)"
    using fresh y by (simp add: rows filter_id_conv)
  ultimately show thesis using that [OF x] ids y(3) n by auto
qed

lemma ready_own:
  assumes "own_inv rid sid mx s" "own_rel rid sid s s'" "\<exists>n < uuid_counter s. sid = numeral_string n"
    and rows: "\<forall>x\<in>set (filter (\<lambda>y. step_id y \<noteq> sid) (rows_of rid s)). \<exists>n < uuid_counter s. step_id x = numeral_string n"
  shows "ready rid mx s'"
  unfolding ready_def
proof (intro conjI ballI)
  show "inv_db s'" "\<exists>r. find_run s' rid = Some r \<and> auto_retry_limit r \<le> mx"
    using own_inv_rel [OF assms(1,2)] by (simp_all add: own_inv_def)
  fix x assume x: "x \<in> set (rows_of rid s')"
  have "\<exists>n < uuid_counter s. step_id x = numeral_string n"
  proof (cases "step_id x = sid")
    case False
    with x have "x \<in> set (filter (\<lambda>y. step_id y \<noteq> sid) (rows_of rid s'))" by simp
    with rows show ?thesis unfolding own_relD(3) [OF assms(2)] by blast
  qed (use assms(3) in simp)
  with own_relD(2) [OF assms(2)] show "\<exists>n < uuid_counter s'. step_id x = numeral_string n"
    by (meson less_le_trans)
qed

lemma done_own:
  assumes "own_rel rid sid s s'" "done_step rid n s0"
    and "filter (\<lambda>y. step_id y \<noteq> sid) (rows_of rid s) = rows_of rid s0"
  shows "done_step rid n s'"
proof -
  have "set (rows_of rid s0) = set (filter (\<lambda>y. step_id y \<noteq> sid) (rows_of rid s'))"
    using assms(3) own_relD(3) [OF assms(1)] by simp
  with assms(2) show ?thesis by (auto simp: done_step_def)
qed

text \<open>The history of a stretch of the plan, from the local variables \<open>l\<close> to \<open>l'\<close>.\<close>

definition progress :: "string \<Rightarrow> locals \<Rightarrow> db \<Rightarrow> locals \<Rightarrow> db \<Rightarrow> bool" where
  "progress rid l s l' s' \<longleftrightarrow>
     (\<forall>n. done_step rid n s \<longrightarrow> done_step rid n s') \<and> (l_partial l \<longrightarrow> l_partial l') \<and>
     set (l_completed l) \<subseteq> set (l_completed l') \<and>
     (\<forall>n \<in> set (l_completed l'). n \<in> set (l_completed l) \<or> done_step rid n s') \<and>
     (\<not> l_skipping l \<longrightarrow> \<not> l_skipping l')"

lemma progress_refl: "progress rid l s l s"
  by (simp add: progress_def)

lemma progress_trans: "progress rid a s b t \<Longrightarrow> progress rid b t c u \<Longrightarrow> progress rid a s c u"
  unfolding progress_def by blast

lemma execute_node_history:
  assumes rs: "runner_leaves_steps rid w" and fuel: "nat mx < w_fuel w" and rd: "ready rid mx (v_db v)"
    and sk: "\<not> l_skipping l" and e: "execute_node w p rid nid nt node l v = (x, v')"
  shows "(\<forall>e. x = Inl e \<longrightarrow> early e) \<and> ready rid mx (v_db v') \<and>
    (\<forall>l'. x = Inr l' \<longrightarrow> progress rid l (v_db v) l' (v_db v') \<and> (l_partial l' \<or> nid \<in> set (l_completed l')))"
proof -
  obtain x1 u1 where u1: "node_gate w rid l v = (x1, u1)" by fastforce
  have "own_inv rid [] mx (v_db v)" using rd by (auto simp: own_inv_def ready_def row_ids_def)
  note g = own.keepsD(2) [OF own.keeps_node_gate this u1]
  have r1: "rows_same rid (v_db v) (v_db u1)"
    by (rule rows.keepsD(1) [OF rows.keeps_node_gate _ u1]) (use rd in \<open>simp add: ready_def\<close>)
  note rd1 = ready_same [OF rd r1]
  obtain x2 u2 where u2: "add_step w rid nid nt u1 = (x2, u2)" by fastforce
  from add_step_own [OF rd1 u2] obtain sid where sid: "x2 = Inr sid" "own_inv rid sid mx (v_db u2)"
    "nid \<in> step_name ` row_ids rid sid (v_db u2)"
    "filter (\<lambda>y. step_id y \<noteq> sid) (rows_of rid (v_db u2)) = rows_of rid (v_db u1)"
    "\<exists>n < uuid_counter (v_db u2). sid = numeral_string n" "uuid_counter (v_db u1) \<le> uuid_counter (v_db u2)" .
  let ?node = "ex_bind (the_run rid) (\<lambda>r. ex_bind (attempt_node w rid sid nid node l) (\<lambda>out.
     case out of
       None \<Rightarrow> ex_ret (l\<lparr>l_partial := True\<rparr>)
     | Some (d, partial) \<Rightarrow> settle_node w p rid sid nid (active_elapsed_ms r) d partial l))"
  show ?thesis
  proof (cases x1)
    case (Inl a)
    with e u1 g rd1 show ?thesis by (auto simp: execute_node_def ex_bind_def)
  next
    case (Inr b)
    with e u1 u2 sid(1) have n: "?node u2 = (x, v')" by (simp add: execute_node_def ex_bind_def)
    note k = own.keepsD [OF own.keeps_node [OF runner_leaves_own [OF rs] HOL.refl own_run_node [OF rs fuel]] sid(2) n]
    have "ready rid mx (v_db v')"
      by (rule ready_own [OF sid(2) k(1) sid(5)])
         (use rd1 sid(4,6) in \<open>auto simp: ready_def intro: less_le_trans\<close>)
    moreover have "progress rid l (v_db v) l' (v_db v') \<and> (l_partial l' \<or> nid \<in> set (l_completed l'))"
      if x: "x = Inr l'" for l'
    proof -
      have d: "\<forall>n. done_step rid n (v_db v) \<longrightarrow> done_step rid n (v_db v')"
        using done_own [OF k(1) _ sid(4)] done_same [OF r1] by blast
      from n x obtain r t out u3 where t: "the_run rid u2 = (Inr r, t)" and o: "attempt_node w rid sid nid node l t = (Inr out, u3)"
        and f: "(case out of None \<Rightarrow> ex_ret (l\<lparr>l_partial := True\<rparr>)
          | Some (d, partial) \<Rightarrow> settle_node w p rid sid nid (active_elapsed_ms r) d partial l) u3 = (Inr l', v')"
        by (auto simp: ex_bind_Inr)
      show ?thesis
      proof (cases out)
        case None
        with f d sk show ?thesis by (auto simp: ex_ret_def progress_def)
      next
        case (Some dp)
        then obtain d partial where "out = Some (d, partial)" by (cases dp) auto
        with f have s: "settle_node w p rid sid nid (active_elapsed_ms r) d partial l u3 = (Inr l', v')" by simp
        note kt = own.keepsD [OF own.keeps_basic(5) sid(2) t]
        note ko = own.keepsD [OF own.keeps_attempt [OF runner_leaves_own [OF rs] HOL.refl own_run_node [OF rs fuel]] kt(3) o]
        have "nid \<in> step_name ` row_ids rid sid (v_db u3)"
          using sid(3) own_relD(4) [OF kt(1)] own_relD(4) [OF ko(1)] by blast
        from settle_node_done [OF ko(3) this s] settle_node_locals [OF s] d show ?thesis
          by (auto simp: progress_def)
      qed
    qed
    ultimately show ?thesis using k(2) by blast
  qed
qed

section \<open>The plan\<close>

text \<open>The identifiers of the well-formed nodes of a plan.\<close>

definition plan_ids :: "json list \<Rightarrow> string list" where
  "plan_ids xs = concat (map (\<lambda>j. str_of (jget j ''node_id'')) xs)"

lemma plan_node_history:
  assumes rs: "runner_leaves_steps rid w" and fuel: "nat mx < w_fuel w" and rd: "ready rid mx (v_db v)"
    and e: "plan_node w p rid target raw l v = (x, v')"
  shows "(\<forall>e. x = Inl e \<longrightarrow> early e) \<and> ready rid mx (v_db v') \<and>
    (\<forall>l'. x = Inr l' \<longrightarrow> progress rid l (v_db v) l' (v_db v') \<and>
      (\<not> l_skipping l \<longrightarrow> l_partial l' \<or> set (plan_ids [raw]) \<subseteq> set (l_completed l')))"
proof (cases "\<exists>node nid nt. raw = JObj node \<and> dget node ''node_id'' = JStr nid \<and> dget node ''node_type'' = JStr nt")
  case False
  with e rd show ?thesis
    by (auto simp: plan_node_def fail_def ex_return_def run_result_def split: json.split_asm)
next
  case True
  then obtain node nid nt where raw: "raw = JObj node" "dget node ''node_id'' = JStr nid" "dget node ''node_type'' = JStr nt"
    by blast
  have ids: "plan_ids [JObj node] = [nid]" using raw by (simp add: plan_ids_def)
  let ?l = "l\<lparr>l_skipping := False\<rparr>"
  have pl: "progress rid l (v_db v) ?l (v_db v)" by (simp add: progress_def)
  show ?thesis
  proof (cases "(l_skipping l \<and> Some nid \<noteq> target) \<or> nid \<in> set (l_completed l) \<and> \<not> truthy (dget node ''safe_to_rerun'') \<or>
      nid \<in> set (l_completed l) \<and> \<not> has_key node ''safe_to_rerun''")
    case True
    with e raw rd pl show ?thesis
      by (auto simp: plan_node_def ex_ret_def fail_def ex_return_def run_result_def ids progress_refl Let_def split: if_split_asm)
  next
    case False
    with e raw have "execute_node w p rid nid nt node ?l v = (x, v')"
      by (auto simp: plan_node_def Let_def split: if_split_asm)
    from execute_node_history [OF rs fuel rd _ this] show ?thesis
      using progress_trans [OF pl] ids raw(1) by auto
  qed
qed

lemma plan_nodes_history:
  assumes rs: "runner_leaves_steps rid w" and fuel: "nat mx < w_fuel w"
  shows "ready rid mx (v_db v) \<Longrightarrow> plan_nodes w p rid target xs l v = (x, v') \<Longrightarrow>
    (\<forall>e. x = Inl e \<longrightarrow> early e) \<and> ready rid mx (v_db v') \<and>
    (\<forall>l'. x = Inr l' \<longrightarrow> progress rid l (v_db v) l' (v_db v') \<and>
      (\<not> l_skipping l \<longrightarrow> l_partial l' \<or> set (plan_ids xs) \<subseteq> set (l_completed l')))"
proof (induction xs arbitrary: l v)
  case Nil
  then show ?case by (auto simp: ex_ret_def progress_refl plan_ids_def)
next
  case (Cons y ys)
  obtain z u where z: "plan_node w p rid target y l v = (z, u)" by fastforce
  note h = plan_node_history [OF rs fuel Cons.prems(1) z]
  have ids: "set (plan_ids (y # ys)) = set (plan_ids [y]) \<union> set (plan_ids ys)" by (simp add: plan_ids_def)
  show ?case
  proof (cases z)
    case (Inl a)
    with Cons.prems(2) z h show ?thesis by (auto simp: ex_bind_def)
  next
    case (Inr l1)
    with Cons.prems(2) z have r: "plan_nodes w p rid target ys l1 u = (x, v')" by (simp add: ex_bind_def)
    have p1: "progress rid l (v_db v) l1 (v_db u)"
      and n1: "\<not> l_skipping l \<longrightarrow> l_partial l1 \<or> set (plan_ids [y]) \<subseteq> set (l_completed l1)" using h Inr by auto
    note ih = Cons.IH [OF conjunct1 [OF conjunct2 [OF h]] r]
    have "progress rid l (v_db v) l' (v_db v') \<and>
        (\<not> l_skipping l \<longrightarrow> l_partial l' \<or> set (plan_ids (y # ys)) \<subseteq> set (l_completed l'))" if "x = Inr l'" for l'
    proof -
      have p2: "progress rid l1 (v_db u) l' (v_db v')" and n2: "\<not> l_skipping l1 \<longrightarrow> l_partial l' \<or> set (plan_ids ys) \<subseteq> set (l_completed l')"
        using ih that by auto
      have "l_partial l' \<or> set (plan_ids (y # ys)) \<subseteq> set (l_completed l')" if "\<not> l_skipping l"
        using that n1 n2 p1 p2 unfolding ids progress_def by blast
      with progress_trans [OF p1 p2] show ?thesis by blast
    qed
    with ih show ?thesis by blast
  qed
qed

section \<open>Runs\<close>

lemma mark_running_frame:
  "mark_running w rid v = (x, v') \<Longrightarrow> steps (v_db v') = steps (v_db v) \<and>
     uuid_counter (v_db v) \<le> uuid_counter (v_db v') \<and> (\<forall>e. x = Inl e \<longrightarrow> early e)"
  by (auto simp: mark_running_def the_run_def ex_bind_def ex_when_def ex_read_def ex_db_def ex_ret_def set_run_def frame_simps
      intro!: order_trans [OF _ append_callback_event_frame(12)] split: option.split_asm if_split_asm)

lemma require_lease_frame:
  "require_lease w rid v = (x, v') \<Longrightarrow> v_db v' = v_db v \<and> (\<forall>e. x = Inl e \<longrightarrow> early e)"
  by (auto simp: require_lease_def x_can_write_def ex_bind_def ex_when_def ex_read_def ex_get_def ex_ret_def fail_def
      ex_return_def run_result_def split: if_split_asm)

lemma check_draining_frame:
  "check_draining w rid n v = (x, v') \<Longrightarrow> v_db v' = v_db v \<and> (\<forall>e. x = Inl e \<longrightarrow> early e)"
  by (auto simp: check_draining_def ex_bind_def ex_when_def ex_read_def ex_ret_def draining_result_def
      ex_return_def run_result_def split: if_split_asm)

definition admit :: "world \<Rightarrow> string \<Rightarrow> int \<Rightarrow> unit exec" where
  "admit w rid n = ex_bind (require_lease w rid) (\<lambda>_. ex_bind (check_draining w rid n) (\<lambda>_.
    ex_bind (mark_running w rid) (\<lambda>_. ex_ret ())))"

lemma admit_rows:
  assumes inv: "inv_db (v_db v)" and e: "admit w rid n v = (x, v')"
  shows "rows_same rid (v_db v) (v_db v')" "\<forall>e. x = Inl e \<longrightarrow> early e"
proof -
  have s: "sound (v_db v) (v_db v')"
    by (rule ledger.keepsD(1) [OF admitted_sound [OF ledger.keeps_basic(1)] inv e [unfolded admit_def]])
  have "steps (v_db v') = steps (v_db v) \<and> uuid_counter (v_db v) \<le> uuid_counter (v_db v') \<and> (\<forall>e. x = Inl e \<longrightarrow> early e)"
    using e unfolding admit_def
    by (auto simp: ex_bind_def ex_ret_def split: prod.split_asm sum.split_asm
        dest!: require_lease_frame check_draining_frame mark_running_frame)
  with s show "rows_same rid (v_db v) (v_db v')" "\<forall>e. x = Inl e \<longrightarrow> early e" by (auto intro: rows_sameI)
qed

definition prologue ::
  "world \<Rightarrow> agent_plan \<Rightarrow> string \<Rightarrow> string list \<Rightarrow> dict option \<Rightarrow> json \<Rightarrow> (string option \<times> rat) exec" where
  "prologue w p rid ids data resume_from =
     ex_bind (fallback_target p rid resume_from) (\<lambda>target.
     ex_bind (check_authority w rid) (\<lambda>_.
     ex_bind (admit w rid (int (length ids))) (\<lambda>_.
     ex_bind (set_state w rid data ids) (\<lambda>_.
     ex_bind (ex_read (w_mono w)) (\<lambda>started. ex_ret (target, started))))))"

lemma prologue_keeps:
  "rows.keeps rid (prologue w p rid ids data from)" "own.keeps rid sid mx (prologue w p rid ids data from)"
proof -
  have r: "rows.keeps rid (admit w rid n)" for n by (rule rows.keepsI) (use admit_rows in blast)
  have o: "own.keeps rid sid mx (admit w rid n)" for n
    by (rule own.keepsI) (use admit_rows rows_same_own in \<open>auto simp: own_inv_def\<close>)
  show "rows.keeps rid (prologue w p rid ids data from)" unfolding prologue_def
    by (intro rows.keeps_bind rows.keeps_fallback rows.keeps_boundaries rows.keeps_set_state rows.keeps_basic r)
  show "own.keeps rid sid mx (prologue w p rid ids data from)" unfolding prologue_def
    by (intro own.keeps_bind own.keeps_fallback own.keeps_boundaries own.keeps_set_state own.keeps_basic o)
qed

lemma execute_split:
  assumes "find_run (v_db v) rid = Some r" "find_plan (v_db v) rid = Some p" "ordered_nodes (steps_json p) = Some nodes"
  shows "execute w rid ids data from v = ex_bind (prologue w p rid ids data from) (\<lambda>(target, started).
     ex_bind (plan_nodes w p rid target nodes
        \<lparr>l_completed = ids, l_steps = int (length ids), l_partial = False, l_started = started,
         l_skipping = (target \<noteq> None)\<rparr>) (\<lambda>l.
     ex_get (\<lambda>v. run_result rid (if l_partial l then Partial else Succeeded)
        (steps_summary (l_steps l)) None (v_ctx v)))) v"
  using assms by (simp add: execute_def prologue_def admit_def ex_bind_assoc ex_bind_ret)

lemma prologue_target:
  assumes "prologue w p rid ids data from v = (Inr (target, started), v')" "\<forall>n. from \<noteq> JStr n"
  shows "target = None"
  using assms unfolding prologue_def fallback_target_def
  by (auto simp: ex_bind_Inr ex_ret_def split: if_split_asm json.split_asm)

text \<open>Every run of the executor returns, and a run that succeeded has closed every node of its plan.\<close>

lemma execute_history:
  assumes rs: "runner_leaves_steps rid w" and fuel: "nat mx < w_fuel w" and rd: "ready rid mx (v_db v)"
    and p: "find_plan (v_db v) rid = Some p"
    and e: "execute w rid ids data from v = (x, v')"
  shows "(\<forall>e. x = Inl e \<longrightarrow> early e) \<and>
    (\<forall>res. x = Inr res \<longrightarrow> res_status res = Succeeded \<longrightarrow> (\<forall>n. from \<noteq> JStr n) \<longrightarrow>
      (\<exists>nodes. ordered_nodes (steps_json p) = Some nodes \<and>
         (\<forall>n\<in>set (plan_ids nodes). n \<in> set ids \<or> done_step rid n (v_db v'))))"
proof (cases "ordered_nodes (steps_json p)")
  case None
  with e p rd show ?thesis by (auto simp: execute_def fail_def ex_return_def run_result_def ready_def)
next
  case (Some nodes)
  obtain r where r: "find_run (v_db v) rid = Some r" using rd by (auto simp: ready_def)
  obtain y u where y: "prologue w p rid ids data from v = (y, u)" by fastforce
  have i: "inv_db (v_db v)" "own_inv rid [] mx (v_db v)" using rd by (auto simp: own_inv_def ready_def row_ids_def)
  note rd1 = ready_same [OF rd rows.keepsD(1) [OF prologue_keeps(1) i(1) y]]
  note early = own.keepsD(2) [OF prologue_keeps(2) i(2) y]
  show ?thesis
  proof (cases y)
    case (Inl a)
    with e y early show ?thesis by (auto simp: execute_split [OF r p Some] ex_bind_def)
  next
    case (Inr b)
    obtain target started where b: "b = (target, started)" by fastforce
    let ?l = "\<lparr>l_completed = ids, l_steps = int (length ids), l_partial = False, l_started = started, l_skipping = (target \<noteq> None)\<rparr>"
    obtain z t where z: "plan_nodes w p rid target nodes ?l u = (z, t)" by fastforce
    note h = plan_nodes_history [OF rs fuel rd1 z]
    have xz: "(\<exists>a. x = Inl a \<and> z = Inl a) \<or> (\<exists>l' res. z = Inr l' \<and> x = Inr res \<and> v' = t \<and>
        (res_status res = Succeeded \<longrightarrow> \<not> l_partial l'))"
      using e y Inr b z by (cases z) (auto simp: execute_split [OF r p Some] ex_bind_def ex_get_def run_result_def)
    have done_all: "n \<in> set ids \<or> done_step rid n (v_db t)"
      if "z = Inr l'" "\<not> l_partial l'" "\<forall>n. from \<noteq> JStr n" "n \<in> set (plan_ids nodes)" for l' n
    proof -
      have "target = None" using prologue_target [OF y [unfolded Inr b] that(3)] .
      with h that show ?thesis by (auto simp: progress_def)
    qed
    from xz show ?thesis
    proof
      assume "\<exists>a. x = Inl a \<and> z = Inl a"
      with h show ?thesis by auto
    next
      assume "\<exists>l' res. z = Inr l' \<and> x = Inr res \<and> v' = t \<and> (res_status res = Succeeded \<longrightarrow> \<not> l_partial l')"
      with done_all Some show ?thesis by auto
    qed
  qed
qed

end
