(* ===== verification/Workflow_Runs.thy ===== *)
theory Workflow_Runs
  imports Step_History
begin

text \<open>
  The properties of whole runs of the executor and of the queue consumer: the ledger invariant,
  termination, what a successful run has done, the bound of a loop, and what a checkpoint
  resumes. The runner of the agent is a parameter; a runner that only returns a result
  (\<open>demo_world\<close>) shows that the hypotheses can be met.
\<close>

section \<open>Lemmas\<close>

lemma claim_frame:
  "claim n rid worker now s = Inr (c, s') \<Longrightarrow> steps s' = steps s \<and> uuid_counter s' = uuid_counter s"
  by (auto simp: claim_def update_run_def transition_run_def res_simps option_raise_eq split: option.split_asm if_split_asm)

lemma claim_rows:
  assumes "inv_db s" "claim n rid worker now s = Inr (c, s')"
  shows "rows_same i s s'"
  using claim_sound [OF assms] claim_frame [OF assms(2)] by (auto intro: rows_sameI)

lemma execute_early:
  assumes rs: "runner_leaves_steps rid w" and fuel: "nat mx < w_fuel w" and rd: "ready rid mx (v_db v)"
    and e: "execute w rid ids data from v = (x, v')"
  shows "x \<noteq> Inl OutOfFuel"
proof (cases "find_plan (v_db v) rid")
  case None
  with e show ?thesis by (auto simp: execute_def fail_def ex_return_def split: option.split_asm)
next
  case (Some p)
  from execute_history [OF rs fuel rd Some e] show ?thesis by auto
qed

lemma run_workflow_returns:
  assumes "runner_leaves_steps rid w" "nat mx < w_fuel w" "ready rid mx (v_db v)"
  shows "fst (run_workflow w rid v) \<noteq> OutOfFuel"
  using execute_early [OF assms, of "[]" None JNull]
  by (cases "execute w rid [] None JNull v") (auto simp: run_workflow_def outcome_of_def split: sum.split)

lemma resume_workflow_returns:
  assumes rs: "runner_leaves_steps rid w" and fuel: "nat mx < w_fuel w" and rd: "ready rid mx (v_db v)"
  shows "fst (resume_workflow w rid v) \<noteq> OutOfFuel"
proof -
  let ?now = "w_clock w (v_tick v)" and ?v = "v\<lparr>v_tick := Suc (v_tick v)\<rparr>"
  show ?thesis
  proof (cases "load_latest (w_codec w) rid (v_ctx v) ?now (v_db v)")
    case (Inl a)
    then show ?thesis
      by (cases a) (simp_all add: resume_workflow_def outcome_of_def ex_bind_def ex_read_def fail_def ex_return_def)
  next
    case (Inr b)
    obtain state s where b: "b = (state, s)" by fastforce
    have "rows_same rid (v_db v) s"
      using rows.ledger [OF _ load_latest_same [OF Inr [unfolded b]]] rd by (simp add: ready_def)
    then have "ready rid mx (v_db (?v\<lparr>v_db := s\<rparr>))" using ready_same [OF rd] by simp
    note ex = execute_early [OF rs fuel this]
    show ?thesis
      using ex [of "remdups (strs_of (dget state ''completed_node_ids''))" "Some state" "dget state ''resume_from_node_id''"]
      by (cases "execute w rid (remdups (strs_of (dget state ''completed_node_ids''))) (Some state)
            (dget state ''resume_from_node_id'') (?v\<lparr>v_db := s\<rparr>)")
         (auto simp: resume_workflow_def outcome_of_def ex_bind_def ex_read_def Inr b Let_def fail_def ex_return_def
            purge_unsafe_def split: sum.split)
  qed
qed

lemma settle_result_returns: "fst (settle_result w rid out) = Inl OutOfFuel \<longleftrightarrow> fst out = OutOfFuel"
  by (cases out) (auto simp: settle_result_def split: stop.split sum.split)

text \<open>A state the executor writes passes the checks of \<open>resume\<close>.\<close>

lemma map_of_dget: "map_of d = map_of e \<Longrightarrow> dget d k = dget e k \<and> dget_default d k x = dget_default e k x"
  by (simp add: dget_def dget_default_def)

lemma map_of_keys: "map_of d = map_of e \<Longrightarrow> fst ` set d = fst ` set e"
  by (metis dom_map_of_conv_image_fst)

lemma checkpoint_state_shape:
  assumes "checkpoint_state p d st n = Some state"
  shows "fst ` set state \<subseteq> set safe_checkpoint_keys"
    "dget state ''completed_node_ids'' = JList (map JStr (completed_node_ids st))"
    "dget_default state ''completed_node_ids'' x = JList (map JStr (completed_node_ids st))"
  using assms
  by (auto simp: checkpoint_state_def safe_checkpoint_state_def safe_checkpoint_keys_def dget_def dget_default_def Let_def
      split: if_split_asm json.split_asm)

lemma strs_of_JStr [simp]: "strs_of (JList (map JStr xs)) = xs" "str_list (JList (map JStr xs))"
  by (induction xs) auto

lemma resume_safe_state:
  assumes load: "load_latest (w_codec w) rid (v_ctx v) (w_clock w (v_tick v)) (v_db v) = Inr (d, s)"
    and eq: "map_of d = map_of state" and cs: "checkpoint_state p nd st n = Some state"
  shows "resume_workflow w rid v =
    outcome_of (execute w rid (remdups (completed_node_ids st)) (Some d) (dget state ''resume_from_node_id'')
      (v\<lparr>v_tick := Suc (v_tick v), v_db := s\<rparr>))"
proof -
  have "list_all (\<lambda>kv. fst kv \<in> set safe_checkpoint_keys) d"
    using checkpoint_state_shape(1) [OF cs] unfolding map_of_keys [OF eq, symmetric] by (auto simp: list_all_iff)
  then show ?thesis
    using load checkpoint_state_shape(2,3) [OF cs] map_of_dget [OF eq]
    by (simp add: resume_workflow_def ex_bind_def ex_read_def Let_def del: strs_of.simps str_list.simps)
qed

lemma purge_for_run_clears:
  assumes "purge_for_run rid ctx now s = Inr (m, s')"
  shows "filter (\<lambda>c. c_run_id c = rid) (checkpoints s') = []"
proof -
  have f: "checkpoints (fold (\<lambda>c s. checkpoint_audit act r c now s) cs s) = checkpoints s" for act r cs s
    by (induction cs arbitrary: s) (simp_all add: frame_simps)
  show ?thesis
    using assms by (auto simp: purge_for_run_def res_simps Let_def f del_where_def split: if_split_asm)
qed

section \<open>A demonstration\<close>

definition demo_plan :: agent_plan where
  "demo_plan = \<lparr>plan_id = ''p'', p_run_id = ''0'', strategy = ''static'',
     steps_json = [JObj [(''node_id'', JStr ''a''), (''node_type'', JStr ''tool''), (''depends_on'', JList [])]],
     stop_conditions_json = [], fallback_policy_json = [], p_status = ''active''\<rparr>"

definition demo_world :: world where
  "demo_world = \<lparr>w_clock = (\<lambda>t. 5), w_mono = (\<lambda>t. 0), w_draining = (\<lambda>t. False),
     w_node = (\<lambda>t node ctx st s. (NodeResult [], st, s)), w_loop = None, w_resolver = None,
     w_codec = demo_codec, w_fuel = 3\<rparr>"

definition demo_planned :: "agent_run \<Rightarrow> db" where
  "demo_planned r = (demo_db r)\<lparr>plans := [demo_plan]\<rparr>"

definition demo_vars :: vars where
  "demo_vars = \<lparr>v_db = demo_planned demo_claimed, v_st = new_state [] [] [], v_ctx = demo_context, v_tick = 0\<rparr>"

lemma demo_runner: "runner_leaves_steps rid demo_world" "runner_sound demo_world"
  by (auto simp: runner_keeps_def demo_world_def sound_refl intro: rows.refl)

lemma inv_demo_planned:
  assumes "row_ok r" "run_id r = ''0''" "last_event_seq r = 0"
  shows "inv_db (demo_planned r)"
proof -
  have "sound (demo_db r) (demo_planned r)"
    by (rule sound_frame [OF inv_demo [OF assms]]) (simp_all add: demo_planned_def)
  then show ?thesis by (rule soundD)
qed

lemma inv_demo_planned_claimed: "inv_db (demo_planned demo_claimed)"
  by (rule inv_demo_planned) code_simp+

lemma inv_demo_queued: "inv_db (demo_planned (demo_run Pending Queued))"
  by (rule inv_demo_planned) code_simp+

section \<open>Properties\<close>

text \<open>Whatever the agent's runner does within the ledger, a worker that consumes a dispatch (claim,
  execute or resume, settle) leaves the ledger invariant intact, and every run only moves forward.\<close>

lemma consume_keeps_ledger:
  assumes "runner_sound w" "inv_db s" "consume w rid worker t s = (x, s')"
  shows "inv_db s' \<and> advances s s'"
  using consume_sound [OF assms] by (simp add: sound_def)

text \<open>C12. Consuming a dispatch always returns: the automatic retries of a node, the turns of a bounded loop and
  the nodes of the plan all end. It is enough that the fuel exceeds the run's frozen limit of
  automatic retries per step and that the runner leaves the step rows of the run alone.\<close>

theorem consume_returns:
  assumes rs: "runner_leaves_steps rid w" and inv: "inv_db s"
    and r: "find_run s rid = Some r" and fuel: "nat (auto_retry_limit r) < w_fuel w"
    and ids: "\<forall>x\<in>set (rows_of rid s). \<exists>n < uuid_counter s. step_id x = numeral_string n"
  shows "fst (consume w rid worker t s) \<noteq> Inl OutOfFuel"
proof -
  have rd: "ready rid (auto_retry_limit r) s" using inv r ids by (simp add: ready_def)
  show ?thesis
  proof (cases "claim 90 rid worker (w_clock w (t + 1)) s")
    case (Inr b)
    obtain c s1 where b: "b = (c, s1)" by fastforce
    have "ready rid (auto_retry_limit r) s1"
      using ready_same [OF rd claim_rows [OF inv Inr [unfolded b]]] .
    then show ?thesis
      using Inr b run_workflow_returns [OF rs fuel] resume_workflow_returns [OF rs fuel]
      by (cases c) (simp_all add: consume_def settle_result_returns Let_def)
  qed (simp add: consume_def)
qed

theorem consume_returns_witness:
  "fst (consume demo_world ''0'' ''w'' 0 (demo_planned (demo_run Pending Queued))) \<noteq> Inl OutOfFuel"
  by (rule consume_returns [OF demo_runner(1) inv_demo_queued, where r = "demo_run Pending Queued"]) code_simp+

text \<open>C13. A fresh run that ends as succeeded did the whole plan: the plan is a valid graph and every node has a step row of
  this run that is closed as succeeded or skipped.\<close>

theorem success_covers_plan:
  assumes rs: "runner_leaves_steps rid w" and inv: "inv_db (v_db v)"
    and r: "find_run (v_db v) rid = Some r" and fuel: "nat (auto_retry_limit r) < w_fuel w"
    and ids: "\<forall>x\<in>set (rows_of rid (v_db v)). \<exists>n < uuid_counter (v_db v). step_id x = numeral_string n"
    and p: "find_plan (v_db v) rid = Some p"
    and e: "run_workflow w rid v = (Return res, v')" and ok: "res_status res = Succeeded"
  shows "\<exists>nodes. ordered_nodes (steps_json p) = Some nodes \<and> (\<forall>n\<in>set (plan_ids nodes). done_step rid n (v_db v'))"
proof -
  have rd: "ready rid (auto_retry_limit r) (v_db v)" using inv r ids by (simp add: ready_def)
  obtain x u where x: "execute w rid [] None JNull v = (x, u)" by fastforce
  note h = execute_history [OF rs fuel rd p x]
  from e x have "(x = Inr res \<or> x = Inl (Return res)) \<and> u = v'"
    by (auto simp: run_workflow_def outcome_of_def split: sum.split_asm)
  with h ok show ?thesis by fastforce
qed

theorem success_covers_plan_witness:
  "\<exists>res v'. run_workflow demo_world ''0'' demo_vars = (Return res, v') \<and> res_status res = Succeeded \<and>
     done_step ''0'' ''a'' (v_db v')"
proof -
  obtain y v' where e: "run_workflow demo_world ''0'' demo_vars = (y, v')" by fastforce
  have "case fst (run_workflow demo_world ''0'' demo_vars) of Return res \<Rightarrow> res_status res = Succeeded | _ \<Rightarrow> False"
    by code_simp
  with e obtain res where y: "y = Return res" "res_status res = Succeeded" by (cases y) auto
  have "find_run (v_db demo_vars) ''0'' = Some demo_claimed" "nat (auto_retry_limit demo_claimed) < w_fuel demo_world"
    "find_plan (v_db demo_vars) ''0'' = Some demo_plan" "rows_of ''0'' (v_db demo_vars) = []" by code_simp+
  note f = this
  have "ordered_nodes (steps_json demo_plan) = Some (steps_json demo_plan)" "plan_ids (steps_json demo_plan) = [''a'']" by code_simp+
  with success_covers_plan [OF demo_runner(1) _ f(1,2) _ f(3) e [unfolded y] y(2)] inv_demo_planned_claimed f(4) e y
  show ?thesis by (auto simp: demo_vars_def)
qed


























text \<open>The clock of a bounded loop is read in seconds where milliseconds are subtracted: when the whole frozen time limit
  of n seconds has passed since the node started, the loop still sees all but n milliseconds of it.\<close>

lemma loop_clock_in_seconds:
  assumes r: "find_run (v_db v) rid = Some r" and lims: "frozen_limits r = Inr (c, t, q, n)"
    and elapsed: "w_mono w (v_tick v) - started = of_int n" and pos: "0 < n" and a: "active_elapsed_ms r = 0"
    and e: "remaining w rid b started v = (Inr live, v')"
  shows "remaining_ms live = n * 1000 - n \<and> 0 < remaining_ms live"
proof -
  have "remaining_ms live = n * 1000 - n"
    using e r lims elapsed pos a
    by (auto simp: remaining_def ex_bind_def ex_read_def the_run_def recompute_loop_remaining_def py_int_def split_def)
  with pos show ?thesis by simp
qed

text \<open>C14. What the executor checkpoints is what a later worker resumes: after a checkpoint of a node was saved, and
  until another one is, a worker with a valid lease of the same privacy version starts the
  plan with exactly the nodes that were complete, and at the fallback node the state names.\<close>

theorem resume_continues_saved:
  assumes cs: "checkpoint_state p nd st n = Some state" and cd: "codec_returns (w_codec w) state"
    and sv: "save (w_codec w) rid key state ctx now s = Inr (i, s1)" and fresh: "find_checkpoint s rid key = None"
    and order: "\<And>c. c \<in> set (checkpoints s) \<Longrightarrow> c_created_at c \<le> now" and later: "advances s1 (v_db v)"
    and same: "filter (\<lambda>c. c_run_id c = rid) (checkpoints (v_db v)) = filter (\<lambda>c. c_run_id c = rid) (checkpoints s1)"
    and cw: "can_write rid (v_ctx v) (w_clock w (v_tick v)) (v_db v)"
    and priv: "x_privacy_version (v_ctx v) = x_privacy_version ctx"
  shows "\<exists>d s2. map_of d = map_of state \<and> ledger_same (v_db v) s2 \<and>
    resume_workflow w rid v =
      outcome_of (execute w rid (remdups (completed_node_ids st)) (Some d) (dget state ''resume_from_node_id'')
        (v\<lparr>v_tick := Suc (v_tick v), v_db := s2\<rparr>))"
proof -
  from load_after_save [OF cd sv fresh order later same cw priv]
  obtain d s2 where l: "load_latest (w_codec w) rid (v_ctx v) (w_clock w (v_tick v)) (v_db v) = Inr (d, s2)"
    "map_of d = map_of state" by blast
  with resume_safe_state [OF l cs] load_latest_same [OF l(1)] show ?thesis by blast
qed

definition demo_saved_state :: dict where
  "demo_saved_state = safe_checkpoint_state (new_state [] [] [''a'']) 1"

definition demo_saved_world :: "dict \<Rightarrow> world" where
  "demo_saved_world d = demo_world\<lparr>w_codec := demo_codec\<lparr>json_loads := (\<lambda>_. Some (JObj d))\<rparr>\<rparr>"

lemma demo_save:
  "\<exists>i s1. save (w_codec (demo_saved_world d)) ''0'' ''k'' demo_saved_state demo_context 5 (demo_planned demo_claimed) = Inr (i, s1) \<and>
     can_write ''0'' demo_context 5 s1"
proof -
  have c: "can_write ''0'' demo_context 5 (demo_planned demo_claimed)" by code_simp
  have f: "find_run (demo_planned demo_claimed) ''0'' = Some demo_claimed"
    "find_checkpoint (demo_planned demo_claimed) ''0'' ''k'' = None" by code_simp+
  from c f obtain i s1 where sv: "save (w_codec (demo_saved_world d)) ''0'' ''k'' demo_saved_state demo_context 5
      (demo_planned demo_claimed) = Inr (i, s1)" by (simp add: save_def require_writable_run_def Let_def uuid4_def)
  with c can_write_same [OF save_same [OF sv]] show ?thesis by auto
qed

theorem resume_continues_saved_witness:
  "\<exists>v d s2. v_ctx v = demo_context \<and> map_of d = map_of demo_saved_state \<and>
     resume_workflow (demo_saved_world demo_saved_state) ''0'' v =
       outcome_of (execute (demo_saved_world demo_saved_state) ''0'' [''a''] (Some d) JNull
         (v\<lparr>v_tick := Suc (v_tick v), v_db := s2\<rparr>))"
proof -
  let ?w = "demo_saved_world demo_saved_state"
  obtain i s1 where sv: "save (w_codec ?w) ''0'' ''k'' demo_saved_state demo_context 5 (demo_planned demo_claimed) = Inr (i, s1)"
    and cw: "can_write ''0'' demo_context 5 s1" using demo_save by blast
  let ?v = "demo_vars\<lparr>v_db := s1\<rparr>"
  have cs: "checkpoint_state demo_plan [] (new_state [] [] [''a'']) 1 = Some demo_saved_state"
    by (simp add: checkpoint_state_def demo_saved_state_def dget_def)
  have cd: "codec_returns (w_codec ?w) demo_saved_state"
    by (simp add: codec_returns_def demo_saved_world_def demo_world_def demo_codec_def)
  have fr: "find_checkpoint (demo_planned demo_claimed) ''0'' ''k'' = None" "checkpoints (demo_planned demo_claimed) = []"
    by code_simp+
  have "remdups (completed_node_ids (new_state [] [] [''a''])) = [''a'']" "dget demo_saved_state ''resume_from_node_id'' = JNull"
    by code_simp+
  with resume_continues_saved [OF cs cd sv fr(1), of ?v] cw fr(2) show ?thesis
    by (intro exI [where x = ?v]) (simp add: demo_vars_def demo_saved_world_def demo_world_def, blast)
qed

text \<open>A checkpoint with a key outside the routing state is never resumed: the run fails with a stable code, no node is
  started, and every checkpoint of the run is deleted.\<close>

lemma unsafe_checkpoint_discarded:
  assumes l: "load_latest (w_codec w) rid (v_ctx v) (w_clock w (v_tick v)) (v_db v) = Inr (d, s)"
    and bad: "(k, x) \<in> set d" "k \<notin> set safe_checkpoint_keys"
    and cw: "can_write rid (v_ctx v) (w_clock w (Suc (v_tick v))) s"
  shows "\<exists>v'. resume_workflow w rid v =
      (Return (run_result rid Failed JNull (Some ''CHECKPOINT_STATE_INVALID'') (v_ctx v)), v') \<and>
    filter (\<lambda>c. c_run_id c = rid) (checkpoints (v_db v')) = [] \<and> ledger_same (v_db v) (v_db v')"
proof -
  have unsafe: "\<not> list_all (\<lambda>kv. fst kv \<in> set safe_checkpoint_keys) d" using bad by (force simp: list_all_iff)
  obtain r where r: "find_run s rid = Some r" using cw by (auto simp: can_write_def split: option.split_asm)
  then obtain m s2 where p: "purge_for_run rid (v_ctx v) (w_clock w (Suc (v_tick v))) s = Inr (m, s2)"
    using cw by (cases "filter (\<lambda>c. c_run_id c = rid) (checkpoints s) = []")
      (auto simp: purge_for_run_def require_writable_run_def Let_def)
  have "filter (\<lambda>c. c_run_id c = rid) (checkpoints s2) = []" by (rule purge_for_run_clears [OF p])
  moreover have "ledger_same (v_db v) s2"
    using load_latest_same [OF l] purge_for_run_same [OF p] by (auto simp: ledger_same_def)
  ultimately show ?thesis
    using l unsafe p
    by (simp add: resume_workflow_def ex_bind_def ex_read_def Let_def purge_unsafe_def fail_def ex_return_def outcome_of_def)
qed

end
