(* ===== verification/Worker.thy ===== *)
theory Worker
  imports Dispatch Workflow_Runs
begin

text \<open>
  The Worker process (\<open>app/worker.py\<close>). A pass dispatches the outbox, reaps expired leases and
  consumes every run it was notified of, each in a session of its own. The deployment
  configuration (trusted clients, connectors, callback targets) is an argument. Which executor
  serves a run depends on its frozen agent and connector: a run of another agent, or of a connector
  that is not completely configured, gets the placeholder executor, which claims it and leaves it.

  The executor of a run is the workflow executor in a \<open>world\<close>; \<open>wk_world i\<close> is the world of the
  \<open>i\<close>-th run of the pass. Its node runner may change the database in any way the ledger allows,
  which covers what other processes commit while a node runs.
\<close>

section \<open>Model\<close>

record worker =
  wk_id :: string
  wk_gateway :: "gateway option"
  wk_clients :: clients
  wk_connectors :: "(string \<times> dict) list"
  wk_world :: "nat \<Rightarrow> world"

text \<open>\<open>configured_callback_gateway\<close>: the targets that are enabled and complete.\<close>

definition complete_config :: "string list \<Rightarrow> dict \<Rightarrow> bool" where
  "complete_config ks d \<longleftrightarrow> truthy (dget d ''enabled'') \<and> list_all (\<lambda>k. is_str (dget d k)) ks"

definition configured_targets :: "(string \<times> dict) list \<Rightarrow> (string \<times> callback_target) list" where
  "configured_targets cfg =
     map (\<lambda>(tid, d). (tid, \<lparr>ct_url = str_value (dget d ''url''), ct_runtime_id = str_value (dget d ''runtime_id''),
          ct_key_id = str_value (dget d ''key_id''), ct_secret = str_value (dget d ''secret'')\<rparr>))
       (filter (\<lambda>(tid, d). complete_config [''url'', ''runtime_id'', ''key_id'', ''secret''] d) cfg)"

definition configured_callback_gateway :: "gateway \<Rightarrow> (string \<times> dict) list \<Rightarrow> gateway option" where
  "configured_callback_gateway client cfg =
     (let ts = configured_targets cfg in if ts = [] then None else Some (client\<lparr>gw_targets := ts\<rparr>))"

text \<open>The checks injected into the gateways.\<close>

definition package_permitted :: "string \<Rightarrow> db \<Rightarrow> bool" where
  "package_permitted rid s = (case find_run s rid of None \<Rightarrow> False | Some r \<Rightarrow> package_executable s r)"

definition tool_execution_permitted :: "string \<Rightarrow> lease_context \<Rightarrow> time \<Rightarrow> db \<Rightarrow> bool" where
  "tool_execution_permitted rid ctx now s \<longleftrightarrow> can_write rid ctx now s \<and> package_permitted rid s"

definition authorization_rejection_reason :: "clients \<Rightarrow> string \<Rightarrow> db \<Rightarrow> runtime_error + string option" where
  "authorization_rejection_reason cl rid s =
     (case find_run s rid of
        None \<Rightarrow> Inr (Some ''AUTHORIZATION_REVOKED'')
      | Some r \<Rightarrow>
          (case authorization_version_of cl (caller_id r) of
             Inl AuthorizationError \<Rightarrow> Inr (Some ''AUTHORIZATION_REVOKED'')
           | Inl e \<Rightarrow> Inl e
           | Inr v \<Rightarrow> Inr (if v = authorization_version r then None else Some ''AUTHORIZATION_VERSION_CHANGED'')))"

definition authorization_is_current :: "clients \<Rightarrow> string \<Rightarrow> db \<Rightarrow> runtime_error + bool" where
  "authorization_is_current cl rid s = res_bind (authorization_rejection_reason cl rid s) (\<lambda>x. Inr (x = None))"

text \<open>Which executor \<open>_memoir_executor\<close> selects for a run.\<close>

datatype executor_choice = MemoirExecutor | Placeholder | PlaceholderRejected

definition choose_executor :: "worker \<Rightarrow> agent_run option \<Rightarrow> executor_choice" where
  "choose_executor wk ro =
     (case ro of
        None \<Rightarrow> Placeholder
      | Some r \<Rightarrow>
          if agent_id r \<noteq> ''memoir_agent'' then Placeholder
          else if complete_config [''base_url'', ''runtime_id'', ''key_id'', ''secret'']
                 (case map_of (wk_connectors wk) (business_connector_id r) of None \<Rightarrow> [] | Some d \<Rightarrow> d)
          then MemoirExecutor else PlaceholderRejected)"

definition placeholder_result :: "string \<Rightarrow> lease_context \<Rightarrow> agent_run_result" where
  "placeholder_result rid ctx = \<lparr>res_run_id = rid, res_status = Pending, res_execution_attempt = x_execution_attempt ctx,
     res_output_summary = JNull, res_error_code = Some ''WORKFLOW_EXECUTOR_NOT_CONFIGURED''\<rparr>"

text \<open>
  \<open>RunQueueService.consume\<close> with the placeholder executor: the claim is committed, the result is
  not terminal, and the rejection record of an incomplete connector is committed only with a release
  for draining.
\<close>

definition consume_placeholder :: "world \<Rightarrow> bool \<Rightarrow> string \<Rightarrow> string \<Rightarrow> nat \<Rightarrow> db \<Rightarrow> (stop + bool) \<times> db" where
  "consume_placeholder w rejected rid worker t s =
     (if w_draining w t then (Inr False, s)
      else (case claim 90 rid worker (w_clock w (t + 1)) s of
          Inl e \<Rightarrow> (Inl (Raise e), s)
        | Inr (None, s1) \<Rightarrow> (Inr False, s1)
        | Inr (Some ctx, s1) \<Rightarrow>
            (let s2 = (if rejected then append_audit_record ''system'' ''tool_gateway'' ''tool_gateway_rejected'' ''agent_run'' rid
                   (Some ''CONNECTOR_DISABLED'') ''rejected'' (map_option trace_id (find_run s1 rid)) [(''run_id'', rid)]
                   (w_clock w (t + 2)) s1 else s1);
                 v = \<lparr>v_db = s2, v_st = new_state [] [] [], v_ctx = ctx, v_tick = t + 2\<rparr>
             in if w_draining w (t + 2) \<and> can_write rid ctx (w_clock w (t + 3)) s2
                then settle_result w rid (Return (placeholder_result rid ctx), v)
                else (Inr True, s1))))"

definition worker_consume :: "worker \<Rightarrow> nat \<Rightarrow> string \<Rightarrow> db \<Rightarrow> (stop + bool) \<times> db" where
  "worker_consume wk i rid s =
     (case choose_executor wk (find_run s rid) of
        MemoirExecutor \<Rightarrow> consume (wk_world wk i) rid (wk_id wk) 0 s
      | c \<Rightarrow> consume_placeholder (wk_world wk i) (c = PlaceholderRejected) rid (wk_id wk) 0 s)"

fun consume_all :: "worker \<Rightarrow> nat \<Rightarrow> string list \<Rightarrow> db \<Rightarrow> (stop + nat) \<times> db" where
  "consume_all wk i [] s = (Inr 0, s)"
| "consume_all wk i (rid # rids) s =
     (case worker_consume wk i rid s of
        (Inl e, s1) \<Rightarrow> (Inl e, s1)
      | (Inr b, s1) \<Rightarrow>
          (case consume_all wk (i + 1) rids s1 of
             (Inl e, s2) \<Rightarrow> (Inl e, s2)
           | (Inr n, s2) \<Rightarrow> (Inr (of_bool b + n), s2)))"

definition worker_dispatcher :: "worker \<Rightarrow> dispatcher" where
  "worker_dispatcher wk = \<lparr>dp_owner = ''dispatcher:'' @ wk_id wk, dp_lease_seconds = 30, dp_notify = (\<lambda>_. None),
     dp_sender = map_option (\<lambda>gw. deliver (worker_delivery gw (wk_clients wk))) (wk_gateway wk)\<rparr>"

definition worker_pass :: "worker \<Rightarrow> time \<Rightarrow> db \<Rightarrow> (stop + nat) \<times> db" where
  "worker_pass wk now s =
     (case dispatch_pending (worker_dispatcher wk) now s of
        Inl e \<Rightarrow> (Inl (Raise e), s)
      | Inr (_, rids, s1) \<Rightarrow>
          (case reap_expired now s1 of
             Inl e \<Rightarrow> (Inl (Raise e), s1)
           | Inr (_, s2) \<Rightarrow> consume_all wk 0 rids s2))"

section \<open>Soundness\<close>

definition worker_ok :: "worker \<Rightarrow> bool" where
  "worker_ok wk \<longleftrightarrow> (\<forall>i. runner_sound (wk_world wk i))"

lemma worker_dispatcher_ok: "sender_ok (worker_dispatcher wk)"
  by (auto simp: sender_ok_def worker_dispatcher_def deliver_outbox deliver_sound)

lemma consume_placeholder_claimed_sound:
  assumes inv: "inv_db s1"
    and c: "\<not> w_draining w t" "claim 90 rid worker (w_clock w (t + 1)) s = Inr (Some ctx, s1)"
    and e: "consume_placeholder w rej rid worker t s = (x, s')"
  shows "sound s1 s'"
proof -
  let ?s2 = "if rej then append_audit_record ''system'' ''tool_gateway'' ''tool_gateway_rejected'' ''agent_run'' rid
     (Some ''CONNECTOR_DISABLED'') ''rejected'' (map_option trace_id (find_run s1 rid)) [(''run_id'', rid)] (w_clock w (t + 2)) s1 else s1"
  have s2: "sound s1 ?s2" using inv by (simp add: step_audit sound_refl)
  let ?v = "\<lparr>v_db = ?s2, v_st = new_state [] [] [], v_ctx = ctx, v_tick = t + 2\<rparr>"
  from e c have "settle_result w rid (Return (placeholder_result rid ctx), ?v) = (x, s') \<or> s' = s1"
    by (auto simp: consume_placeholder_def Let_def split: if_split_asm)
  with s2 settle_result_sound [of ?v w rid] show ?thesis
    using soundD(1) [OF s2] sound_trans [OF s2] sound_refl [OF inv] by auto
qed

lemma consume_placeholder_sound:
  assumes inv: "inv_db s" and e: "consume_placeholder w rej rid worker t s = (x, s')"
  shows "sound s s'"
proof (cases "\<exists>ctx s1. \<not> w_draining w t \<and> claim 90 rid worker (w_clock w (t + 1)) s = Inr (Some ctx, s1)")
  case False
  with e claim_sound [OF inv] sound_refl [OF inv] show ?thesis
    by (auto simp: consume_placeholder_def split: if_split_asm sum.split_asm prod.split_asm option.split_asm)
next
  case True
  then obtain ctx s1 where c: "\<not> w_draining w t" "claim 90 rid worker (w_clock w (t + 1)) s = Inr (Some ctx, s1)" by blast
  have "sound s s1" by (rule claim_sound [OF inv c(2)])
  with consume_placeholder_claimed_sound [OF soundD(1) c e] show ?thesis using sound_trans by blast
qed

lemma worker_consume_sound:
  assumes "worker_ok wk" "inv_db s" "worker_consume wk i rid s = (x, s')"
  shows "sound s s'"
  using assms consume_sound [of "wk_world wk i" s] consume_placeholder_sound [OF assms(2)]
  by (auto simp: worker_consume_def worker_ok_def split: executor_choice.split_asm)

lemma consume_all_sound:
  "worker_ok wk \<Longrightarrow> inv_db s \<Longrightarrow> consume_all wk i rids s = (x, s') \<Longrightarrow> sound s s'"
proof (induction rids arbitrary: i s x s')
  case Nil
  then show ?case by (simp add: sound_refl)
next
  case (Cons rid rids)
  obtain y s1 where c: "worker_consume wk i rid s = (y, s1)" by fastforce
  have s1: "sound s s1" by (rule worker_consume_sound [OF Cons.prems(1,2) c])
  show ?case
  proof (cases y)
    case (Inl e)
    with c Cons.prems(3) s1 show ?thesis by simp
  next
    case (Inr b)
    obtain z s2 where z: "consume_all wk (i + 1) rids s1 = (z, s2)" by fastforce
    with c Inr Cons.prems(3) have "s' = s2" by (cases z) auto
    with Cons.IH [OF Cons.prems(1) soundD(1) [OF s1] z] s1 sound_trans show ?thesis by blast
  qed
qed

lemma worker_pass_sound:
  assumes "worker_ok wk" "inv_db s" "worker_pass wk now s = (x, s')"
  shows "sound s s'"
proof (cases "dispatch_pending (worker_dispatcher wk) now s")
  case (Inl e)
  with assms sound_refl show ?thesis by (simp add: worker_pass_def)
next
  case (Inr a)
  obtain n rids s1 where "a = (n, rids, s1)" using prod_cases3 by blast
  with Inr have d: "dispatch_pending (worker_dispatcher wk) now s = Inr (n, rids, s1)" by simp
  have s1: "sound s s1" by (rule dispatch_pending_sound [OF worker_dispatcher_ok assms(2) d])
  show ?thesis
  proof (cases "reap_expired now s1")
    case (Inl e)
    with assms(3) d s1 show ?thesis by (simp add: worker_pass_def)
  next
    case (Inr b)
    then obtain out s2 where r: "reap_expired now s1 = Inr (out, s2)" by (cases b) auto
    have s2: "sound s1 s2" by (rule reap_expired_sound [OF soundD(1) [OF s1] r])
    from assms(3) d r have "consume_all wk 0 rids s2 = (x, s')" by (simp add: worker_pass_def)
    from consume_all_sound [OF assms(1) soundD(1) [OF s2] this] s1 s2 show ?thesis using sound_trans by blast
  qed
qed

section \<open>What a pass picks up\<close>

lemma dispatch_one_other:
  assumes dist: "distinct (map outbox_id (outbox s))" and ok: "sender_ok d"
    and one: "dispatch_one d now oid s = Inr (n, ids, s1)"
  shows "distinct (map outbox_id (outbox s1))"
    and "\<And>e. e \<in> set (outbox s) \<Longrightarrow> outbox_id e \<noteq> oid \<Longrightarrow> e \<in> set (outbox s1)"
proof -
  from dispatch_one_rows [OF dist ok one] obtain h where h: "outbox s1 = map h (outbox s)"
    "\<forall>e\<in>set (outbox s). if outbox_id e = oid \<and> outbox_claimable d now e then attempted now e (h e) else h e = e" by blast
  have "outbox_id (h e) = outbox_id e" if "e \<in> set (outbox s)" for e
    using h(2) that attempted_id by (metis (full_types))
  then show "distinct (map outbox_id (outbox s1))"
    using dist by (simp add: h(1) comp_def cong: map_cong)
  show "e \<in> set (outbox s1)" if "e \<in> set (outbox s)" "outbox_id e \<noteq> oid" for e
  proof -
    have "h e = e" using h(2) that by auto
    then show ?thesis using h(1) that(1) by (metis image_eqI list.set_map)
  qed
qed

lemma dispatch_loop_notifies:
  assumes ok: "sender_ok d" and notify: "\<And>x. dp_notify d x = None"
    and e: "o_event_type e = ''run_dispatch''" "dget_default (o_payload_json e) ''run_id'' (JStr (aggregate_id e)) = JStr rid" "rid \<noteq> ''''"
      "outbox_claimable d now e"
  shows "distinct (map outbox_id (outbox s)) \<Longrightarrow> outbox_id e \<in> set oids \<Longrightarrow> e \<in> set (outbox s) \<Longrightarrow>
    dispatch_loop d now oids s = Inr (n, ids, s') \<Longrightarrow> rid \<in> set ids"
proof (induction oids arbitrary: s n ids)
  case (Cons o1 oids)
  from Cons.prems(4) obtain n1 ids1 s1 n2 ids2 where one: "dispatch_one d now o1 s = Inr (n1, ids1, s1)"
    and rest: "dispatch_loop d now oids s1 = Inr (n2, ids2, s')" and ids: "ids = ids1 @ ids2" by (auto simp: res_simps)
  show ?case
  proof (cases "o1 = outbox_id e")
    case True
    obtain c s2 where c: "claim_outbox d o1 now s = (c, s2)" by fastforce
    then show ?thesis using Cons.prems(1)
    proof (cases rule: claim_outbox_cases)
      case none
      with Cons.prems(3) e(4) True show ?thesis by blast
    next
      case (claimed x g)
      then have x: "x = e" using Cons.prems(1,3) True by (auto simp: distinct_map inj_on_def)
      have "run_handler d (g e) now s2 = (None, [rid], s2)"
        using e notify by (simp add: run_handler_def deliver_run_dispatch_def claimed(6))
      with one c claimed(4) x ids show ?thesis by (auto simp: dispatch_one_def)
    qed
  next
    case False
    note o = dispatch_one_other [OF Cons.prems(1) ok one]
    from Cons.IH [OF o(1) _ o(2) rest] Cons.prems(2,3) False ids show ?thesis by auto
  qed
qed simp

lemma sound_token:
  assumes "sound s s'" "find_run s rid = Some r"
  shows "\<exists>r'. find_run s' rid = Some r' \<and> fencing_token r \<le> fencing_token r'"
  using soundD(2) [OF assms(1)] assms(2) unfolding advances_def run_le_def by blast

lemma claim_token:
  assumes inv: "inv_db s" and c: "claim ls rid owner now s = Inr (Some ctx, s1)" and r: "find_run s rid = Some r"
  shows "\<exists>r1. find_run s1 rid = Some r1 \<and> fencing_token r1 = fencing_token r + 1"
  using inv c
proof (cases rule: claim_cases)
  case (granted r0 f)
  have "find_run (set_run rid f s) rid = Some (f r)"
    using granted(1) r find_run_id [OF r] by (simp add: find_run_set_run granted(3))
  then show ?thesis using transition_run_find [OF granted(4)] by (auto simp: granted(3))
qed simp

text \<open>With either executor, consuming a claimable run that returns has claimed it.\<close>

lemma worker_consume_claims:
  assumes ok: "worker_ok wk" and inv: "inv_db s" and r: "find_run s rid = Some r" "claimable r"
    and live: "\<not> w_draining (wk_world wk i) 0" and c: "worker_consume wk i rid s = (Inr b, s')"
  shows "\<exists>r'. find_run s' rid = Some r' \<and> fencing_token r < fencing_token r'"
proof -
  let ?w = "wk_world wk i" and ?cl = "claim 90 rid (wk_id wk) (w_clock (wk_world wk i) (0 + 1)) s"
  have rs: "runner_sound ?w" using ok by (simp add: worker_ok_def)
  consider (memoir) "consume ?w rid (wk_id wk) 0 s = (Inr b, s')"
    | (placeholder) rej where "consume_placeholder ?w rej rid (wk_id wk) 0 s = (Inr b, s')"
    using c by (auto simp: worker_consume_def split: executor_choice.split_asm)
  note cons = this
  have "\<exists>a. ?cl = Inr a"
    using cons live by cases (auto simp: consume_def consume_placeholder_def split: sum.split_asm)
  then obtain co s1 where cl: "?cl = Inr (co, s1)" by (metis prod.collapse)
  have "co \<noteq> None" using inv cl by (cases rule: claim_cases) (use r in auto)
  then obtain ctx where cl: "?cl = Inr (Some ctx, s1)" using cl by auto
  have s1: "inv_db s1" by (rule soundD(1) [OF claim_sound [OF inv cl]])
  have "sound s1 s'"
    using cons consume_claimed_sound [OF rs s1 live cl] consume_placeholder_claimed_sound [OF s1 live cl] by cases auto
  moreover obtain r1 where "find_run s1 rid = Some r1" "fencing_token r1 = fencing_token r + 1"
    using claim_token [OF inv cl r(1)] by blast
  ultimately show ?thesis using sound_token by fastforce
qed

lemma reap_keeps_unclaimed:
  assumes inv: "inv_db s" and reap: "reap_expired now s = Inr (out, s')"
    and r: "find_run s rid = Some r" "dispatch_state r \<noteq> Claimed"
  shows "find_run s' rid = Some r"
proof -
  let ?rs = "filter (\<lambda>r. dispatch_state r = Claimed \<and> before (lease_expires_at r) now) (runs s)"
  have wf: "wf_db s" by (rule inv_db_wf [OF inv])
  have "(\<forall>r\<in>set ?rs. \<exists>x. find_run s' (run_id r) = Some x \<and> reaped x) \<and>
      (\<forall>k. k \<notin> run_id ` set ?rs \<longrightarrow> find_run s' k = find_run s k)"
  proof (rule reap_loop_rows [OF inv _ _ reap [unfolded reap_expired_def]])
    show "distinct (map run_id ?rs)" using wf by (auto simp: wf_db_def intro: distinct_map_filter)
  qed (auto simp: find_run_iff [OF wf])
  moreover have "x = r" if "x \<in> set (runs s)" "run_id x = rid" for x
    using that r(1) find_run_iff [OF wf, of rid x] by simp
  then have "rid \<notin> run_id ` set ?rs" using r(2) by auto
  ultimately show ?thesis using r(1) by simp
qed

lemma worker_handler_runs:
  assumes "run_handler (worker_dispatcher wk) e now t = (out, ids, t')"
  shows "runs t' = runs t"
proof -
  have "runs (snd (deliver ds ob now t)) = runs t" for ds ob
    by (auto simp: deliver_def frame_simps split: option.split sum.split prod.split)
  with assms show ?thesis
    by (auto simp: run_handler_def worker_dispatcher_def split: prod.split_asm if_split_asm option.split_asm)
       (metis snd_conv)
qed

lemma dispatch_one_runs:
  assumes one: "dispatch_one (worker_dispatcher wk) now oid s = Inr (n, ids, s')"
  shows "runs s' = runs s"
proof -
  obtain c s1 where c: "claim_outbox (worker_dispatcher wk) oid now s = (c, s1)" by fastforce
  then have s1: "runs s1 = runs s" by (auto simp: claim_outbox_def Let_def split: if_split_asm)
  show ?thesis
  proof (cases c)
    case None
    with one c s1 show ?thesis by (simp add: dispatch_one_def)
  next
    case (Some e)
    obtain out nids s2 where h: "run_handler (worker_dispatcher wk) e now s1 = (out, nids, s2)" by (metis prod_cases3)
    from one c Some h obtain f where "s' = set_outbox oid f s2"
      by (cases out) (auto simp: dispatch_one_def res_simps split: if_split_asm)
    with worker_handler_runs [OF h] s1 show ?thesis by (simp add: set_outbox_def)
  qed
qed

lemma dispatch_loop_runs: "dispatch_loop (worker_dispatcher wk) now oids s = Inr (n, ids, s') \<Longrightarrow> runs s' = runs s"
  by (induction oids arbitrary: s n ids) (auto simp: res_simps dest: dispatch_one_runs)

text \<open>The executions of other runs leave this run alone.\<close>

definition leaves_run :: "worker \<Rightarrow> string \<Rightarrow> bool" where
  "leaves_run wk rid \<longleftrightarrow> (\<forall>i x t b t'. inv_db t \<longrightarrow> worker_consume wk i x t = (b, t') \<longrightarrow> x \<noteq> rid \<longrightarrow>
     find_run t' rid = find_run t rid)"

lemma consume_all_claims:
  assumes ok: "worker_ok wk" and live: "\<And>i. \<not> w_draining (wk_world wk i) 0" and apart: "leaves_run wk rid"
  shows "inv_db s \<Longrightarrow> rid \<in> set rids \<Longrightarrow> find_run s rid = Some r \<Longrightarrow> claimable r \<Longrightarrow>
    consume_all wk i rids s = (Inr n, s') \<Longrightarrow> \<exists>r'. find_run s' rid = Some r' \<and> fencing_token r < fencing_token r'"
proof (induction rids arbitrary: i s n)
  case (Cons x xs)
  from Cons.prems(5) obtain b s1 m where c: "worker_consume wk i x s = (Inr b, s1)"
    and rest: "consume_all wk (i + 1) xs s1 = (Inr m, s')"
    by (auto split: prod.split_asm sum.split_asm)
  have s1: "inv_db s1" by (rule soundD(1) [OF worker_consume_sound [OF ok Cons.prems(1) c]])
  show ?case
  proof (cases "x = rid")
    case True
    obtain r1 where "find_run s1 rid = Some r1" "fencing_token r < fencing_token r1"
      using worker_consume_claims [OF ok Cons.prems(1,3,4) live c [unfolded True]] by blast
    with sound_token [OF consume_all_sound [OF ok s1 rest]] show ?thesis by fastforce
  next
    case False
    from apart Cons.prems(1,3) c False have "find_run s1 rid = Some r" unfolding leaves_run_def by metis
    from Cons.IH [OF s1 _ this Cons.prems(4) rest] Cons.prems(2) False show ?thesis by simp
  qed
qed simp

section \<open>Properties\<close>

text \<open>C20. No notified run is passed over: when a Worker that is not draining completes a pass, a claimable run with a due dispatch
  event has been claimed in it, with a new fencing token, whichever executor serves it and whatever the other
  runs of the pass do, as long as their executions leave this run alone.\<close>

theorem worker_pass_picks_up:
  assumes ok: "worker_ok wk" and inv: "inv_db s" and dist: "distinct (map outbox_id (outbox s))"
    and live: "\<And>i. \<not> w_draining (wk_world wk i) 0" and apart: "leaves_run wk rid"
    and e: "e \<in> set (outbox s)" "o_event_type e = ''run_dispatch''" "outbox_due (worker_dispatcher wk) now e"
      "outbox_claimable (worker_dispatcher wk) now e"
      "dget_default (o_payload_json e) ''run_id'' (JStr (aggregate_id e)) = JStr rid" "rid \<noteq> ''''"
    and r: "find_run s rid = Some r" "claimable r"
    and p: "worker_pass wk now s = (Inr n, s')"
  shows "\<exists>r'. find_run s' rid = Some r' \<and> fencing_token r < fencing_token r'"
proof -
  let ?d = "worker_dispatcher wk"
  from p obtain k rids s1 where d: "dispatch_pending ?d now s = Inr (k, rids, s1)"
    by (auto simp: worker_pass_def split: sum.split_asm)
  with p obtain out s2 where reap: "reap_expired now s1 = Inr (out, s2)"
    by (auto simp: worker_pass_def split: sum.split_asm)
  from p d reap have c: "consume_all wk 0 rids s2 = (Inr n, s')" by (simp add: worker_pass_def)
  have s1: "inv_db s1" by (rule soundD(1) [OF dispatch_pending_sound [OF worker_dispatcher_ok inv d]])
  have s2: "inv_db s2" by (rule soundD(1) [OF reap_expired_sound [OF s1 reap]])
  have "rid \<in> set rids"
    using dispatch_loop_notifies [OF worker_dispatcher_ok _ e(2,5,6,4) dist _ e(1) d [unfolded dispatch_pending_def]]
      due_ids(2) [OF dist e(1)] e(3) by (simp add: worker_dispatcher_def)
  moreover have "find_run s1 rid = Some r"
    using dispatch_loop_runs [OF d [unfolded dispatch_pending_def]] r(1) by (simp add: find_run_def)
  then have "find_run s2 rid = Some r" using reap_keeps_unclaimed [OF s1 reap] r(2) by (simp add: claimable_def)
  ultimately show ?thesis using consume_all_claims [OF ok live apart s2 _ _ r(2) c] by blast
qed

definition demo_worker :: worker where
  "demo_worker = \<lparr>wk_id = ''w'', wk_gateway = None, wk_clients = [], wk_connectors = [], wk_world = (\<lambda>_. demo_world)\<rparr>"

definition demo_notified :: db where
  "demo_notified = append_run_dispatch ''0'' ''explicit_start'' 3 (demo_db (demo_run Pending Queued))"

lemma demo_worker_ok: "worker_ok demo_worker" "\<not> w_draining (wk_world demo_worker i) n"
  by (simp_all add: worker_ok_def demo_worker_def demo_runner(2)) (simp add: demo_world_def)

lemma demo_worker_leaves: "leaves_run demo_worker rid"
  unfolding leaves_run_def
proof (intro allI impI)
  fix i x t b t'
  assume inv: "inv_db t" and c: "worker_consume demo_worker i x t = (b, t')" and ne: "x \<noteq> rid"
  obtain rej where c: "consume_placeholder demo_world rej x ''w'' 0 t = (b, t')"
    using c by (auto simp: worker_consume_def choose_executor_def demo_worker_def complete_config_def dget_def
        split: option.split_asm if_split_asm)
  show "find_run t' rid = find_run t rid"
  proof (cases "claim 90 x ''w'' 5 t")
    case (Inl e)
    with c show ?thesis by (simp add: consume_placeholder_def demo_world_def)
  next
    case (Inr a)
    then obtain co t1 where cl: "claim 90 x ''w'' 5 t = Inr (co, t1)" by (cases a) auto
    with c have "t' = t1" by (auto simp: consume_placeholder_def demo_world_def Let_def split: option.split_asm)
    with inv cl show ?thesis
    proof (cases rule: claim_cases)
      case (granted r f)
      then have "find_run (set_run x f t) rid = find_run t rid"
        using ne by (cases "find_run t rid") (auto simp: find_run_set_run dest: find_run_id)
      with transition_run_find [OF granted(4)] \<open>t' = t1\<close> show ?thesis by simp
    qed simp
  qed
qed

theorem worker_pass_picks_up_witness:
  "\<exists>n s' r'. worker_pass demo_worker 5 demo_notified = (Inr n, s') \<and> find_run s' ''0'' = Some r' \<and> 0 < fencing_token r'"
proof -
  have inv: "inv_db demo_notified"
    unfolding demo_notified_def by (rule soundD(1) [OF step_outbox [OF inv_demo_states(2)]])
  have "case fst (worker_pass demo_worker 5 demo_notified) of Inl _ \<Rightarrow> False | Inr _ \<Rightarrow> True" by code_simp
  then obtain n s' where p: "worker_pass demo_worker 5 demo_notified = (Inr n, s')"
    by (cases "worker_pass demo_worker 5 demo_notified") (auto split: sum.split_asm)
  have "length (outbox demo_notified) = 1" by code_simp
  then obtain e where e: "outbox demo_notified = [e]" by (cases "outbox demo_notified") auto
  have k: "o_event_type (hd (outbox demo_notified)) = ''run_dispatch''"
    "outbox_due (worker_dispatcher demo_worker) 5 (hd (outbox demo_notified))"
    "outbox_claimable (worker_dispatcher demo_worker) 5 (hd (outbox demo_notified))"
    "dget_default (o_payload_json (hd (outbox demo_notified))) ''run_id'' (JStr (aggregate_id (hd (outbox demo_notified)))) = JStr ''0''"
    by code_simp+
  have r: "find_run demo_notified ''0'' = Some (demo_run Pending Queued)" by code_simp
  have cl: "claimable (demo_run Pending Queued)" "fencing_token (demo_run Pending Queued) = 0"
    by (simp_all add: claimable_def demo_run_def)
  from worker_pass_picks_up [OF demo_worker_ok(1) inv _ demo_worker_ok(2) demo_worker_leaves _ _ _ _ _ _ r cl(1) p, of e] e k cl(2) p
  show ?thesis by auto
qed

text \<open>A retried run starts over: the consumer that claims a run after an accepted retry executes the plan from its first
  node, with no node completed and no checkpoint read, although the retry was accepted
  only because a checkpoint exists.\<close>

lemma retried_run_starts_over:
  assumes inv: "inv_db s" and rt: "retry sv rid caller aud v now s = Inr (sm, s1)"
    and live: "\<not> w_draining w t" and cl: "claim 90 rid worker (w_clock w (t + 1)) s1 = Inr (Some ctx, s2)"
  shows "(\<exists>c\<in>set (checkpoints s). c_run_id c = rid) \<and>
    consume w rid worker t s1 = settle_result w rid (outcome_of (execute w rid [] None JNull
       \<lparr>v_db = s2, v_st = new_state [] [] [], v_ctx = ctx, v_tick = t + 2\<rparr>))"
proof -
  from rt obtain r where r: "find_run s rid = Some r" and k: "sel_one (\<lambda>c. c_run_id c = rid) (checkpoints s) \<noteq> None"
    by (auto simp: retry_def res_simps)
  from retry_bounded [OF inv rt r] obtain r1 where r1: "find_run s1 rid = Some r1" "status r1 = Pending" by blast
  have "\<exists>c\<in>set (checkpoints s). c_run_id c = rid" using k by (auto dest: sel_one_SomeD)
  with live cl r1 show ?thesis by (simp add: consume_def run_workflow_def)
qed

end
