(* ===== verification/Reconciliation_Lease.thy ===== *)
theory Reconciliation_Lease
  imports Run_Invariant Fenced_Lease
begin

text \<open>
  The scan lease of the reconciler (\<open>app/services/reconciliation_lease_service.py\<close>): one row
  per lease key, taken over only when expired, renewed and released only by the holder of the
  current token. It is the second instance of the contract \<open>fenced_lease\<close>.
\<close>

section \<open>Operations\<close>

definition LEASE_KEY :: string where
  "LEASE_KEY = ''runtime-reconciler''"

definition find_lease :: "db \<Rightarrow> string \<Rightarrow> reconciliation_lease option" where
  "find_lease s k = sel_one (\<lambda>l. lease_key l = k) (leases s)"

definition lease_expired :: "time \<Rightarrow> reconciliation_lease \<Rightarrow> bool" where
  "lease_expired now l \<longleftrightarrow> lease_key l = LEASE_KEY \<and> rl_expires_at l \<le> now"

definition take_over :: "int \<Rightarrow> string \<Rightarrow> time \<Rightarrow> db \<Rightarrow> db" where
  "take_over ttl owner now s =
     s\<lparr>leases := upd_where (lease_expired now)
        (\<lambda>l. l\<lparr>owner_id := owner, rl_expires_at := now + seconds ttl,
               rl_fencing_token := rl_fencing_token l + 1\<rparr>) (leases s)\<rparr>"

text \<open>The token that \<open>acquire\<close> remembers, or \<open>None\<close> for its result \<open>False\<close>; an insert that
  violates the unique key is followed by a second conditional update.\<close>

definition acquire :: "int \<Rightarrow> string \<Rightarrow> time \<Rightarrow> db \<Rightarrow> int option \<times> db" where
  "acquire ttl owner now s =
     (if rowcount (lease_expired now) (leases s) = 1
      then (let s1 = take_over ttl owner now s
            in (map_option rl_fencing_token (find_lease s1 LEASE_KEY), s1))
      else if find_lease s LEASE_KEY = None
      then (Some 1, s\<lparr>leases := leases s @ [\<lparr>lease_key = LEASE_KEY, owner_id = owner,
              rl_expires_at = now + seconds ttl, rl_fencing_token = 1\<rparr>]\<rparr>)
      else if rowcount (lease_expired now) (leases s) \<noteq> 1 then (None, s)
      else (let s1 = take_over ttl owner now s
            in (map_option rl_fencing_token (find_lease s1 LEASE_KEY), s1)))"

definition held_by :: "string \<Rightarrow> int \<Rightarrow> reconciliation_lease \<Rightarrow> bool" where
  "held_by owner tok l \<longleftrightarrow> lease_key l = LEASE_KEY \<and> owner_id l = owner \<and> rl_fencing_token l = tok"

definition renew :: "int \<Rightarrow> string \<Rightarrow> int \<Rightarrow> time \<Rightarrow> db \<Rightarrow> bool \<times> db" where
  "renew ttl owner tok now s =
     (let c = (\<lambda>l. held_by owner tok l \<and> now < rl_expires_at l)
      in (rowcount c (leases s) = 1,
          s\<lparr>leases := upd_where c (\<lambda>l. l\<lparr>rl_expires_at := now + seconds ttl\<rparr>) (leases s)\<rparr>))"

definition release :: "string \<Rightarrow> int \<Rightarrow> time \<Rightarrow> db \<Rightarrow> bool \<times> db" where
  "release owner tok now s =
     (rowcount (held_by owner tok) (leases s) = 1,
      s\<lparr>leases := upd_where (held_by owner tok) (\<lambda>l. l\<lparr>rl_expires_at := now\<rparr>) (leases s)\<rparr>)"

section \<open>What the operations do to the lease row\<close>

definition leases_ok :: "db \<Rightarrow> bool" where
  "leases_ok s \<longleftrightarrow> distinct (map lease_key (leases s))"

lemma find_lease_key: "find_lease s k = Some l \<Longrightarrow> lease_key l = k"
  by (auto simp: find_lease_def dest: sel_one_SomeD)

lemma expired_rowcount:
  "leases_ok s \<Longrightarrow> rowcount (lease_expired now) (leases s) = 1 \<longleftrightarrow>
    (\<exists>l. find_lease s LEASE_KEY = Some l \<and> rl_expires_at l \<le> now)"
  using rowcount_key_1 [of lease_key "leases s" LEASE_KEY "\<lambda>l. rl_expires_at l \<le> now"]
  by (simp add: leases_ok_def find_lease_def lease_expired_def [abs_def])

lemma find_lease_upd:
  assumes "\<And>l. lease_key (f l) = lease_key l"
  shows "find_lease (s\<lparr>leases := upd_where p f (leases s)\<rparr>) k =
    map_option (\<lambda>l. if p l then f l else l) (find_lease s k)"
  using assms by (simp add: find_lease_def sel_key_upd_where)

lemma acquire_cases:
  assumes ok: "leases_ok s" and a: "acquire ttl owner now s = (out, s')"
  obtains (taken) l where "find_lease s LEASE_KEY = Some l" "rl_expires_at l \<le> now"
      "out = Some (rl_fencing_token l + 1)"
      "find_lease s' LEASE_KEY = Some (l\<lparr>owner_id := owner, rl_expires_at := now + seconds ttl,
         rl_fencing_token := rl_fencing_token l + 1\<rparr>)"
  | (created) "find_lease s LEASE_KEY = None" "out = Some 1"
      "find_lease s' LEASE_KEY = Some \<lparr>lease_key = LEASE_KEY, owner_id = owner,
         rl_expires_at = now + seconds ttl, rl_fencing_token = 1\<rparr>"
  | (refused) l where "find_lease s LEASE_KEY = Some l" "now < rl_expires_at l" "out = None" "s' = s"
proof (cases "find_lease s LEASE_KEY")
  case None
  have "rowcount (lease_expired now) (leases s) \<noteq> 1" using expired_rowcount [OF ok] None by simp
  with None a show ?thesis
    by (intro created) (auto simp: acquire_def find_lease_def sel_one_append)
next
  case (Some l)
  have key: "lease_key l = LEASE_KEY" by (rule find_lease_key [OF Some])
  show ?thesis
  proof (cases "rl_expires_at l \<le> now")
    case True
    then have "rowcount (lease_expired now) (leases s) = 1" using expired_rowcount [OF ok] Some by simp
    moreover have "find_lease (take_over ttl owner now s) LEASE_KEY =
        Some (l\<lparr>owner_id := owner, rl_expires_at := now + seconds ttl, rl_fencing_token := rl_fencing_token l + 1\<rparr>)"
      using Some True key by (simp add: take_over_def find_lease_upd lease_expired_def)
    ultimately show ?thesis using a True by (intro taken [OF Some]) (auto simp: acquire_def Let_def)
  next
    case False
    then have "rowcount (lease_expired now) (leases s) \<noteq> 1" using expired_rowcount [OF ok] Some by simp
    with a Some False show ?thesis by (intro refused [OF Some]) (auto simp: acquire_def)
  qed
qed

lemma find_lease_other:
  "acquire ttl owner now s = (out, s') \<Longrightarrow> k \<noteq> LEASE_KEY \<Longrightarrow> find_lease s' k = find_lease s k"
  by (cases "find_lease s k")
     (auto simp: acquire_def Let_def take_over_def find_lease_upd lease_expired_def find_lease_def sel_one_append
        sel_key_upd_where split: if_splits dest: sel_one_SomeD)

lemma held_rowcount:
  assumes "leases_ok s"
  shows "rowcount (\<lambda>l. held_by owner tok l \<and> P l) (leases s) = 1 \<longleftrightarrow>
    (\<exists>l. find_lease s LEASE_KEY = Some l \<and> owner_id l = owner \<and> rl_fencing_token l = tok \<and> P l)"
  using rowcount_key_1 [of lease_key "leases s" LEASE_KEY "\<lambda>l. owner_id l = owner \<and> rl_fencing_token l = tok \<and> P l"]
    assms by (simp add: leases_ok_def find_lease_def held_by_def [abs_def] conj_assoc)

lemma leases_ok_ops:
  assumes "leases_ok s"
  shows "leases_ok (snd (acquire ttl owner now s))" "leases_ok (snd (renew ttl owner tok now s))"
    "leases_ok (snd (release owner tok now s))"
  using assms
  by (auto simp: leases_ok_def acquire_def renew_def release_def take_over_def Let_def map_upd_where_cong
      find_lease_def sel_one_None_iff)

lemma lease_ops_sound:
  assumes "inv_db s"
  shows "sound s (snd (acquire ttl owner now s))" "sound s (snd (renew ttl owner tok now s))"
    "sound s (snd (release owner tok now s))"
  by (rule sound_frame [OF assms]; simp add: acquire_def renew_def release_def take_over_def Let_def)+

section \<open>The fencing contract\<close>

definition lease_token :: "db \<Rightarrow> string \<Rightarrow> int option" where
  "lease_token s k = map_option rl_fencing_token (find_lease s k)"

definition lease_grant :: "db \<Rightarrow> string \<Rightarrow> int \<Rightarrow> db \<Rightarrow> bool" where
  "lease_grant s k n s' \<longleftrightarrow> leases_ok s \<and> k = LEASE_KEY \<and>
     (\<exists>ttl owner now. acquire ttl owner now s = (Some n, s'))"

definition lease_accepts :: "db \<Rightarrow> string \<Rightarrow> int \<Rightarrow> bool" where
  "lease_accepts s k n \<longleftrightarrow> leases_ok s \<and> k = LEASE_KEY \<and>
     (\<exists>ttl owner now. fst (renew ttl owner n now s) \<or> fst (release owner n now s))"

definition lease_later :: "db \<Rightarrow> db \<Rightarrow> bool" where
  "lease_later s s' \<longleftrightarrow>
     (\<forall>k l. find_lease s k = Some l \<longrightarrow>
        (\<exists>l'. find_lease s' k = Some l' \<and> rl_fencing_token l \<le> rl_fencing_token l'))"

interpretation scan_lease: fenced_lease lease_token lease_grant lease_accepts lease_later
proof unfold_locales
  fix s s' :: db and k n m
  show "lease_grant s k n s' \<Longrightarrow> lease_token s' k = Some n"
    by (auto simp: lease_grant_def lease_token_def elim: acquire_cases)
  show "lease_grant s k n s' \<Longrightarrow> lease_token s k = Some m \<Longrightarrow> m < n"
    by (auto simp: lease_grant_def lease_token_def elim: acquire_cases)
  show "lease_accepts s k n \<Longrightarrow> lease_token s k = Some n"
    using held_rowcount [of s _ n "\<lambda>_. True"] held_rowcount [of s _ n]
    unfolding lease_accepts_def lease_token_def renew_def release_def Let_def fst_conv by auto
  show "lease_later s s' \<Longrightarrow> lease_token s k = Some m \<Longrightarrow> \<exists>m'\<ge>m. lease_token s' k = Some m'"
    by (fastforce simp: lease_later_def lease_token_def)
qed

lemma lease_later_refl [simp]: "lease_later s s"
  by (auto simp: lease_later_def)

lemma lease_later_ops:
  assumes "leases_ok s"
  shows "lease_later s (snd (acquire ttl owner now s))" "lease_later s (snd (renew ttl owner tok now s))"
    "lease_later s (snd (release owner tok now s))"
proof -
  obtain out s' where a: "acquire ttl owner now s = (out, s')" by fastforce
  have "\<exists>l'. find_lease s' k = Some l' \<and> rl_fencing_token l \<le> rl_fencing_token l'"
    if l: "find_lease s k = Some l" for k l
  proof (cases "k = LEASE_KEY")
    case True
    show ?thesis using assms a by (cases rule: acquire_cases) (use True l in auto)
  next
    case False
    with l show ?thesis using find_lease_other [OF a False] by simp
  qed
  then show "lease_later s (snd (acquire ttl owner now s))" by (simp add: a lease_later_def)
qed (auto simp: lease_later_def renew_def release_def Let_def find_lease_upd)

section \<open>Properties\<close>

text \<open>Reconcilers exclude each other: while a lease that was acquired has not expired, every
  other acquire is refused and changes nothing; from its expiry on the lease can be taken over,
  with a higher token, and then the earlier holder can neither renew nor release it.\<close>

lemma scan_lease_exclusive:
  assumes ok: "leases_ok s" and a: "acquire ttl owner now s = (Some n, s')"
  shows "(t < now + seconds ttl \<longrightarrow> acquire ttl' owner' t s' = (None, s')) \<and>
    (now + seconds ttl \<le> t \<longrightarrow> (\<exists>s''. acquire ttl' owner' t s' = (Some (n + 1), s'') \<and>
       \<not> fst (renew ttl2 owner n t2 s'') \<and> \<not> fst (release owner n t2 s'')))"
proof -
  obtain l where l: "find_lease s' LEASE_KEY = Some l" "rl_expires_at l = now + seconds ttl" "rl_fencing_token l = n"
    using ok a by (cases rule: acquire_cases) auto
  have ok': "leases_ok s'" using leases_ok_ops(1) [OF ok, of ttl owner now] a by simp
  obtain out s'' where a': "acquire ttl' owner' t s' = (out, s'')" by fastforce
  show ?thesis
  proof (cases "t < now + seconds ttl")
    case True
    have "acquire ttl' owner' t s' = (None, s')"
      using ok' a' by (cases rule: acquire_cases) (use l True a' in auto)
    with True show ?thesis by simp
  next
    case False
    have out: "out = Some (n + 1)"
      using ok' a' by (cases rule: acquire_cases) (use l False in auto)
    have "lease_grant s' LEASE_KEY (n + 1) s''" using ok' a' out by (auto simp: lease_grant_def)
    then have tok: "lease_token s'' LEASE_KEY = Some (n + 1)" by (rule scan_lease.grant_token)
    have "leases_ok s''" using leases_ok_ops(1) [OF ok', of ttl' owner' t] a' by simp
    then have "\<not> fst (renew ttl2 owner n t2 s'') \<and> \<not> fst (release owner n t2 s'')"
      using tok scan_lease.accepts_token [of s'' LEASE_KEY n] by (auto simp: lease_accepts_def)
    with False a' out show ?thesis by simp
  qed
qed

end
