(* ===== verification/Reconciliation.thy ===== *)
theory Reconciliation
  imports Idempotency Policy_Engine Reconciliation_Lease "HOL-Library.AList"
begin

text \<open>
  The reconciliation pass (\<open>app/services/reconciliation_service.py\<close>): expire idempotency
  records, in-flight model calls and tool calls, reap leases, rebuild the admission buckets,
  then repair every run by the first rule that applies and settle dead dispatches. The lease
  guard is asked before every run and every dead letter; when it says no, the whole pass is
  rolled back. \<open>guard i\<close> is the answer to the i-th question, the resolver is injected by the
  application, and a repair returns the actions it recorded (\<open>None\<close>: it did not apply).
\<close>

section \<open>Failure streaks\<close>

record streaks =
  k_streaks :: "(string \<times> nat) list"
  k_alerts :: nat

definition failure_key :: "string \<Rightarrow> string \<Rightarrow> string" where
  "failure_key act key = act @ '':'' @ key"

definition record_failure :: "string \<Rightarrow> string \<Rightarrow> streaks \<Rightarrow> streaks" where
  "record_failure act key k =
     (let fk = failure_key act key;
          streak = (case map_of (k_streaks k) fk of None \<Rightarrow> 0 | Some n \<Rightarrow> n) + 1
      in k\<lparr>k_streaks := AList.update fk streak (k_streaks k),
           k_alerts := k_alerts k + (if streak = 3 then 1 else 0)\<rparr>)"

definition record_success :: "string \<Rightarrow> string \<Rightarrow> streaks \<Rightarrow> streaks" where
  "record_success act key k = k\<lparr>k_streaks := AList.delete (failure_key act key) (k_streaks k)\<rparr>"

section \<open>Admission buckets\<close>

type_synonym counts = "int \<times> int \<times> int"

definition expected_counts :: "agent_run list \<Rightarrow> scope \<Rightarrow> counts" where
  "expected_counts rs sc =
     (let n = (\<lambda>st. int (rowcount (\<lambda>r. dispatch_state r = st \<and> sc \<in> set (run_scopes r)) rs))
      in (n Held, n Queued, n Claimed))"

definition bucket_counts :: "admission_bucket \<Rightarrow> counts" where
  "bucket_counts b = (held_count b, queued_count b, running_count b)"

definition repair_admission_bucket :: "admission_bucket \<Rightarrow> counts \<Rightarrow> db \<Rightarrow> bool \<times> db" where
  "repair_admission_bucket b cs s =
     (let c = (\<lambda>x. bucket_scope x = bucket_scope b \<and> b_version x = b_version b)
      in if rowcount c (buckets s) \<noteq> 1 then (False, s)
         else (True, s\<lparr>buckets := upd_where c (\<lambda>x. x\<lparr>held_count := fst cs, queued_count := fst (snd cs),
                 running_count := snd (snd cs), b_version := b_version x + 1\<rparr>) (buckets s)\<rparr>))"

fun reconcile_buckets ::
  "agent_run list \<Rightarrow> admission_bucket list \<Rightarrow> streaks \<Rightarrow> db \<Rightarrow> nat \<times> nat \<times> streaks \<times> db" where
  "reconcile_buckets rs [] k s = (0, 0, k, s)"
| "reconcile_buckets rs (b # bs) k s =
     (let cs = expected_counts rs (bucket_scope b); key = scope_type b @ '':'' @ scope_key b in
      if bucket_counts b = cs then reconcile_buckets rs bs k s
      else (case repair_admission_bucket b cs s of
          (True, s1) \<Rightarrow>
            (case reconcile_buckets rs bs (record_success ''admission_bucket'' key k) s1 of
               (n, f, k1, s2) \<Rightarrow> (Suc n, f, k1, s2))
        | (False, s1) \<Rightarrow>
            (case reconcile_buckets rs bs (record_failure ''admission_bucket'' key k) s1 of
               (n, f, k1, s2) \<Rightarrow> (n, Suc f, k1, s2))))"

definition reconcile_admission_buckets :: "agent_run list \<Rightarrow> streaks \<Rightarrow> db \<Rightarrow> nat \<times> nat \<times> streaks \<times> db" where
  "reconcile_admission_buckets rs k s = reconcile_buckets rs (buckets s) k s"

section \<open>Repairs of one run\<close>

type_synonym repair = "runtime_error + (string list option \<times> db)"

definition is_expired :: "time option \<Rightarrow> time \<Rightarrow> bool" where
  "is_expired t now = (case t of None \<Rightarrow> False | Some u \<Rightarrow> u \<le> now)"

definition as_selected :: "agent_run \<Rightarrow> agent_run \<Rightarrow> bool" where
  "as_selected r x \<longleftrightarrow> status x = status r \<and> dispatch_state x = dispatch_state r \<and>
     status_version x = status_version r"

definition terminate_run :: "agent_run \<Rightarrow> time \<Rightarrow> run_status \<Rightarrow> string \<Rightarrow> db \<Rightarrow> runtime_error + (bool \<times> db)" where
  "terminate_run r now st code s =
     (case update_run (run_id r) (as_selected r)
         (\<lambda>x. x\<lparr>status := st, dispatch_state := Finished, status_version := status_version x + 1,
                error_code := Some code, finished_at := Some now\<rparr>) s of
        None \<Rightarrow> Inr (False, s)
      | Some s1 \<Rightarrow>
          res_bind (transition_run default_limits r (Some (dispatch_state r)) (Some Finished) s1) (\<lambda>s2.
          res_bind (append_callback (run_id r) st now s2) (\<lambda>s3. Inr (True, s3))))"

text \<open>A termination as a repair, with the actions it records.\<close>

definition terminate_repair :: "agent_run \<Rightarrow> time \<Rightarrow> run_status \<Rightarrow> string \<Rightarrow> string list \<Rightarrow> db \<Rightarrow> repair" where
  "terminate_repair r now st code acts s =
     res_bind (terminate_run r now st code s)
       (\<lambda>(ok, s1). Inr (if ok then Some acts else None, s1))"

definition request_cancel ::
  "agent_run \<Rightarrow> (agent_run \<Rightarrow> bool) \<Rightarrow> (agent_run \<Rightarrow> agent_run) \<Rightarrow> db \<Rightarrow> db option" where
  "request_cancel r c f s =
     update_run (run_id r) (\<lambda>x. dispatch_state x = Claimed \<and> status_version x = status_version r \<and>
       cancel_requested_at x = None \<and> c x) f s"

definition unclaimed :: "agent_run \<Rightarrow> bool" where
  "unclaimed r \<longleftrightarrow> dispatch_state r \<in> {Held, Queued} \<or> status r = WaitingHuman \<and> dispatch_state r = Finished"

definition apply_execution_timeout :: "agent_run \<Rightarrow> time \<Rightarrow> string \<Rightarrow> string \<Rightarrow> db \<Rightarrow> repair" where
  "apply_execution_timeout r now code act s =
     (if terminal (status r) then Inr (None, s)
      else if dispatch_state r = Claimed then
        (case request_cancel r (\<lambda>x. status x = status r)
            (\<lambda>x. x\<lparr>cancel_requested_at := Some now, error_code := Some code\<rparr>) s of
           None \<Rightarrow> Inr (None, s)
         | Some s1 \<Rightarrow> Inr (Some [act @ ''_cancel_requested''], s1))
      else if dispatch_state r = Finished \<and> status r \<noteq> WaitingHuman then Inr (None, s)
      else terminate_repair r now Failed code [act @ ''_terminated''] s)"

definition repair_run_deadline :: "agent_run \<Rightarrow> time \<Rightarrow> db \<Rightarrow> repair" where
  "repair_run_deadline r now s =
     (if now < run_deadline_at r then Inr (None, s)
      else apply_execution_timeout r now ''RUN_DEADLINE_EXCEEDED'' ''run_deadline'' s)"

definition plan_stop_condition :: "agent_run \<Rightarrow> string \<Rightarrow> db \<Rightarrow> json" where
  "plan_stop_condition r key s =
     (case find_plan s (run_id r) of None \<Rightarrow> JNull | Some p \<Rightarrow> dget (stop_conditions_json p) key)"

definition repair_active_elapsed_timeout :: "agent_run \<Rightarrow> time \<Rightarrow> db \<Rightarrow> repair" where
  "repair_active_elapsed_timeout r now s =
     (case as_int (plan_stop_condition r ''max_run_seconds'' s) of
        None \<Rightarrow> Inr (None, s)
      | Some l \<Rightarrow> if l < 0 \<or> active_elapsed_ms r < l * 1000 then Inr (None, s)
                  else apply_execution_timeout r now ''ACTIVE_TIME_LIMIT_EXCEEDED'' ''active_time_limit'' s)"

definition authorization_audit :: "agent_run \<Rightarrow> string \<Rightarrow> run_status \<Rightarrow> time \<Rightarrow> db \<Rightarrow> db" where
  "authorization_audit r outc st now s =
     append_audit_record ''system'' ''reconciler'' ''agent_run_authorization_changed'' ''agent_run'' (run_id r)
       (Some ''AUTHORIZATION_CHANGED'') outc (Some (trace_id r)) [(''status'', status_string st)] now s"

definition repair_authorization_changed ::
  "(agent_run \<Rightarrow> runtime_error + int option) option \<Rightarrow> agent_run \<Rightarrow> time \<Rightarrow> db \<Rightarrow> repair" where
  "repair_authorization_changed resolver r now s =
     (case resolver of
        None \<Rightarrow> Inr (None, s)
      | Some res \<Rightarrow>
          res_bind (res r) (\<lambda>current.
          if current = None \<or> current = Some (authorization_version r) then Inr (None, s)
          else if unclaimed r then
            res_bind (terminate_run r now Cancelled ''AUTHORIZATION_CHANGED'' s) (\<lambda>(ok, s1).
              if ok then Inr (Some [''authorization_changed_terminated''],
                              authorization_audit r ''terminated'' Cancelled now s1)
              else Inr (None, s1))
          else if dispatch_state r = Claimed \<and> cancel_requested_at r = None then
            (case request_cancel r (\<lambda>_. True) (\<lambda>x. x\<lparr>cancel_requested_at := Some now\<rparr>) s of
               None \<Rightarrow> Inr (None, s)
             | Some s1 \<Rightarrow> Inr (Some [''authorization_changed_cancel_requested''],
                            authorization_audit r ''cancel_requested'' (status r) now s1))
          else Inr (None, s)))"

definition repair_revoked_definition :: "agent_run \<Rightarrow> time \<Rightarrow> db \<Rightarrow> repair" where
  "repair_revoked_definition r now s =
     (if package_executable s r then Inr (None, s)
      else if unclaimed r then terminate_repair r now Cancelled ''PACKAGE_REVOKED'' [] s
      else if dispatch_state r = Claimed \<and> cancel_requested_at r = None then
        (case request_cancel r (\<lambda>x. status x = status r) (\<lambda>x. x\<lparr>cancel_requested_at := Some now\<rparr>) s of
           None \<Rightarrow> Inr (None, s)
         | Some s1 \<Rightarrow> Inr (Some [], s1))
      else Inr (None, s))"

definition repair_held_timeout :: "agent_run \<Rightarrow> time \<Rightarrow> db \<Rightarrow> repair" where
  "repair_held_timeout r now s =
     (if status r \<noteq> Pending \<or> dispatch_state r \<noteq> Held \<or> \<not> is_expired (held_expires_at r) now then Inr (None, s)
      else terminate_repair r now Cancelled ''HELD_TIMEOUT'' [] s)"

definition repair_queued_timeout :: "agent_run \<Rightarrow> time \<Rightarrow> db \<Rightarrow> repair" where
  "repair_queued_timeout r now s =
     (if status r \<noteq> Pending \<or> dispatch_state r \<noteq> Queued then Inr (None, s)
      else (case (as_int (plan_stop_condition r ''queue_ttl_seconds'' s), queued_at r) of
          (Some ttl, Some q) \<Rightarrow>
            if ttl \<le> 0 \<or> now < q + seconds ttl then Inr (None, s)
            else terminate_repair r now Failed ''QUEUE_TIMEOUT'' [] s
        | _ \<Rightarrow> Inr (None, s)))"

definition dispatch_events :: "string \<Rightarrow> db \<Rightarrow> outbox_event list" where
  "dispatch_events rid s = filter (\<lambda>e. o_event_type e = ''run_dispatch'' \<and> aggregate_id e = rid) (outbox s)"

definition repair_missing_run_dispatch :: "agent_run \<Rightarrow> time \<Rightarrow> db \<Rightarrow> repair" where
  "repair_missing_run_dispatch r now s =
     (if status r \<noteq> Pending \<or> dispatch_state r \<noteq> Queued then Inr (None, s)
      else
       (let evs = dispatch_events (run_id r) s in
        if list_ex (\<lambda>e. o_status e \<in> {''pending'', ''dead_letter''}) evs then Inr (None, s)
        else if list_ex (\<lambda>e. o_status e = ''delivering'' \<and> after (o_lease_expires_at e) now) evs then Inr (None, s)
        else if evs = [] then
          Inr (Some [''run_dispatch_repaired''], append_run_dispatch (run_id r) ''reconciliation_missing_dispatch'' now s)
        else
          (let ev = last evs;
               c = (\<lambda>e. outbox_id e = outbox_id ev \<and>
                  (if o_status ev = ''delivering''
                   then o_status e = ''delivering'' \<and> o_lease_expires_at e = o_lease_expires_at ev
                   else o_status e = ''delivered''))
           in if rowcount c (outbox s) \<noteq> 1 then Inr (None, s)
              else Inr (Some [''run_dispatch_repaired''],
                s\<lparr>outbox := upd_where c (\<lambda>e. e\<lparr>o_status := ''pending'', next_attempt_at := None,
                    o_lease_owner := None, o_lease_expires_at := None, delivered_at := None\<rparr>) (outbox s)\<rparr>))))"

definition timeout_action :: "agent_run \<Rightarrow> db \<Rightarrow> string option" where
  "timeout_action r s =
     (case find_plan s (run_id r) of
        None \<Rightarrow> None
      | Some p \<Rightarrow> (case dget (fallback_policy_json p) ''waiting_human_timeout_action'' of
          JStr a \<Rightarrow> if a \<in> {''fallback'', ''cancelled'', ''failed''} then Some a else None
        | _ \<Rightarrow> None))"

definition has_valid_fallback_target :: "agent_run \<Rightarrow> db \<Rightarrow> bool" where
  "has_valid_fallback_target r s =
     (case find_plan s (run_id r) of
        None \<Rightarrow> False
      | Some p \<Rightarrow> (case dget (fallback_policy_json p) ''waiting_human_fallback_node'' of
          JStr n \<Rightarrow> list_ex (\<lambda>j. is_obj j \<and> jget j ''node_id'' = JStr n) (steps_json p)
        | _ \<Rightarrow> False))"

definition requeue_timeout_fallback :: "agent_run \<Rightarrow> time \<Rightarrow> db \<Rightarrow> repair" where
  "requeue_timeout_fallback r now s =
     (case update_run (run_id r)
         (\<lambda>x. status x = status r \<and> dispatch_state x = Finished \<and> status_version x = status_version r)
         (\<lambda>x. x\<lparr>dispatch_state := Queued, queued_at := Some now, waiting_expires_at := None,
                error_code := Some ''WAITING_HUMAN_FALLBACK'', status_version := status_version x + 1\<rparr>) s of
        None \<Rightarrow> Inr (None, s)
      | Some s1 \<Rightarrow>
          res_bind (transition_run default_limits r (Some Finished) (Some Queued) s1) (\<lambda>s2.
          Inr (Some [], append_run_dispatch (run_id r) ''waiting_human_timeout_fallback'' now s2)))"

definition repair_waiting_human_timeout :: "agent_run \<Rightarrow> time \<Rightarrow> db \<Rightarrow> repair" where
  "repair_waiting_human_timeout r now s =
     (if status r \<noteq> WaitingHuman \<or> dispatch_state r \<noteq> Finished \<or> \<not> is_expired (waiting_expires_at r) now
      then Inr (None, s)
      else
       (let st = (if timeout_action r s = Some ''cancelled'' then Cancelled else Failed) in
        if timeout_action r s = Some ''fallback'' then
          (if has_valid_fallback_target r s then requeue_timeout_fallback r now s
           else terminate_repair r now st ''FALLBACK_NODE_INVALID'' [] s)
        else terminate_repair r now st ''WAITING_HUMAN_TIMEOUT'' [] s))"

definition or_else :: "repair \<Rightarrow> (db \<Rightarrow> repair) \<Rightarrow> repair" where
  "or_else m k = res_bind m (\<lambda>(a, s). case a of Some _ \<Rightarrow> Inr (a, s) | None \<Rightarrow> k s)"

definition complete_purge_repair :: "agent_run \<Rightarrow> time \<Rightarrow> db \<Rightarrow> repair" where
  "complete_purge_repair r now s =
     (if privacy_state r = PurgeRequested \<and> dispatch_state r = Finished
      then res_bind (complete_purge (run_id r) now s)
        (\<lambda>(ok, s1). Inr (if ok then Some [''privacy_purge_completed''] else None, s1))
      else Inr (None, s))"

definition repair_run ::
  "(agent_run \<Rightarrow> runtime_error + int option) option \<Rightarrow> agent_run \<Rightarrow> time \<Rightarrow> db \<Rightarrow> repair" where
  "repair_run resolver r now s =
     or_else (complete_purge_repair r now s) (\<lambda>s.
     or_else (repair_run_deadline r now s) (\<lambda>s.
     or_else (repair_active_elapsed_timeout r now s) (\<lambda>s.
     or_else (repair_authorization_changed resolver r now s) (\<lambda>s.
     or_else (repair_revoked_definition r now s) (\<lambda>s.
     or_else (repair_held_timeout r now s) (\<lambda>s.
     or_else (repair_queued_timeout r now s) (\<lambda>s.
     or_else (repair_missing_run_dispatch r now s) (\<lambda>s.
     repair_waiting_human_timeout r now s))))))))"

section \<open>The pass\<close>

record report =
  rp_scanned :: nat
  rp_repaired :: nat
  rp_dead_letter_callbacks :: nat
  rp_failures :: nat
  rp_actions :: "(string \<times> nat) list"
  rp_alerts :: nat

definition aborted_report :: report where
  "aborted_report = \<lparr>rp_scanned = 0, rp_repaired = 0, rp_dead_letter_callbacks = 0, rp_failures = 0,
     rp_actions = [], rp_alerts = 0\<rparr>"

definition record_action :: "string \<Rightarrow> nat \<Rightarrow> (string \<times> nat) list \<Rightarrow> (string \<times> nat) list" where
  "record_action act n acts =
     AList.update act ((case map_of acts act of None \<Rightarrow> 0 | Some m \<Rightarrow> m) + n) acts"

definition record_if :: "string \<Rightarrow> nat \<Rightarrow> (string \<times> nat) list \<Rightarrow> (string \<times> nat) list" where
  "record_if act n acts = (if n = 0 then acts else record_action act n acts)"

definition stale_tool_call :: "time \<Rightarrow> agent_tool_call \<Rightarrow> bool" where
  "stale_tool_call now t \<longleftrightarrow> t_status t = ''running'' \<and> t_created_at t < now - minutes 5"

definition mark_stale_tool_calls_unknown :: "time \<Rightarrow> db \<Rightarrow> nat \<times> db" where
  "mark_stale_tool_calls_unknown now s =
     (rowcount (stale_tool_call now) (tool_calls s),
      s\<lparr>tool_calls := upd_where (stale_tool_call now)
        (\<lambda>t. t\<lparr>t_status := ''outcome_unknown'', t_error_code := Some ''TOOL_CALL_TIMEOUT''\<rparr>) (tool_calls s)\<rparr>)"

text \<open>Where the loops stand: the next question to the guard, the runs scanned, the number of
  repairs, the recorded actions and the database.\<close>

record scan =
  n_guard :: nat
  n_scanned :: "string list"
  n_repaired :: nat
  n_actions :: "(string \<times> nat) list"
  n_db :: db

definition count_repair :: "repair \<Rightarrow> scan \<Rightarrow> runtime_error + scan" where
  "count_repair m c =
     res_bind m (\<lambda>(a, s). Inr (case a of
        None \<Rightarrow> c\<lparr>n_db := s\<rparr>
      | Some acts \<Rightarrow> c\<lparr>n_repaired := Suc (n_repaired c),
          n_actions := fold (\<lambda>x. record_action x 1) acts (n_actions c), n_db := s\<rparr>))"

text \<open>\<open>Inr None\<close> is the scan aborted because the lease is lost.\<close>

fun scan_runs ::
  "(nat \<Rightarrow> bool) \<Rightarrow> (agent_run \<Rightarrow> runtime_error + int option) option \<Rightarrow> time \<Rightarrow> agent_run list \<Rightarrow> scan \<Rightarrow>
    runtime_error + scan option" where
  "scan_runs guard resolver now [] c = Inr (Some c)"
| "scan_runs guard resolver now (r # rs) c =
     (if \<not> guard (n_guard c) then Inr None
      else
       (let purging = (privacy_state r = PurgeRequested \<and> dispatch_state r = Finished);
            c1 = c\<lparr>n_guard := Suc (n_guard c),
               n_scanned := (if \<not> purging \<and> (dispatch_state r \<in> {Held, Queued, Claimed} \<or> unclaimed r)
                             then run_id r # n_scanned c else n_scanned c)\<rparr>
        in res_bind (count_repair (repair_run resolver r now (n_db c)) c1)
             (\<lambda>c2. scan_runs guard resolver now rs c2)))"

definition settle_dead_dispatch :: "outbox_event \<Rightarrow> time \<Rightarrow> scan \<Rightarrow> runtime_error + scan" where
  "settle_dead_dispatch ev now c =
     (case find_run (n_db c) (aggregate_id ev) of
        None \<Rightarrow> Inr c
      | Some r \<Rightarrow>
          (let c1 = c\<lparr>n_scanned := run_id r # n_scanned c\<rparr> in
           if status r = Pending \<and> dispatch_state r = Queued
           then count_repair (terminate_repair r now Failed ''DISPATCH_FAILED'' [] (n_db c)) c1
           else Inr c1))"

fun scan_dead_letters ::
  "(nat \<Rightarrow> bool) \<Rightarrow> time \<Rightarrow> outbox_event list \<Rightarrow> scan \<Rightarrow> runtime_error + scan option" where
  "scan_dead_letters guard now [] c = Inr (Some c)"
| "scan_dead_letters guard now (ev # evs) c =
     (if \<not> guard (n_guard c) then Inr None
      else res_bind (settle_dead_dispatch ev now (c\<lparr>n_guard := Suc (n_guard c)\<rparr>))
        (\<lambda>c1. scan_dead_letters guard now evs c1))"

definition dead_letters :: "string \<Rightarrow> db \<Rightarrow> outbox_event list" where
  "dead_letters et s = filter (\<lambda>e. o_event_type e = et \<and> o_status e = ''dead_letter'') (outbox s)"

text \<open>The bulk repairs before the loops, with the database and counters they leave.\<close>

definition prepare_scan ::
  "time \<Rightarrow> streaks \<Rightarrow> db \<Rightarrow> runtime_error + (scan \<times> nat \<times> nat \<times> streaks)" where
  "prepare_scan now k s =
     (let (n1, s1) = cleanup_expired now s;
          calls = rowcount (expired_call now) (usages s1);
          (n2, s2) = mark_expired_running_unknown now s1;
          (n3, s3) = mark_stale_tool_calls_unknown now s2
      in res_bind (reap_expired now s3) (\<lambda>(ids, s4).
         case reconcile_admission_buckets (runs s4) (k\<lparr>k_alerts := 0\<rparr>) s4 of
           (n5, failures, k1, s5) \<Rightarrow>
             Inr (\<lparr>n_guard = 1, n_scanned = ids, n_repaired = n1 + n2 + n3 + length ids + n5,
                   n_actions = record_if ''admission_bucket_repaired'' n5
                     (record_if ''tool_call_outcome_unknown'' n3
                     (record_if ''model_usage_outcome_unknown'' n2
                     (record_if ''idempotency_expired_deleted'' n1 []))),
                   n_db = s5\<rparr>, calls, failures, k1)))"

definition run_once ::
  "(nat \<Rightarrow> bool) \<Rightarrow> (agent_run \<Rightarrow> runtime_error + int option) option \<Rightarrow> time \<Rightarrow> streaks \<Rightarrow> db \<Rightarrow>
    runtime_error + (report \<times> db)" where
  "run_once guard resolver now k s =
     (if \<not> guard 0 then Inr (aborted_report, s)
      else
        res_bind (prepare_scan now k s) (\<lambda>(c0, calls, failures, k1).
        res_bind (scan_runs guard resolver now (runs (n_db c0)) c0) (\<lambda>o1.
        case o1 of
          None \<Rightarrow> Inr (aborted_report, s)
        | Some c1 \<Rightarrow>
            res_bind (scan_dead_letters guard now (dead_letters ''run_dispatch'' (n_db c1)) c1) (\<lambda>o2.
            case o2 of
              None \<Rightarrow> Inr (aborted_report, s)
            | Some c2 \<Rightarrow>
                if \<not> guard (n_guard c2) then Inr (aborted_report, s)
                else
                  (let dead = length (dead_letters ''callback'' (n_db c2))
                   in Inr (\<lparr>rp_scanned = length (remdups (n_scanned c2)) + calls,
                       rp_repaired = n_repaired c2, rp_dead_letter_callbacks = dead,
                       rp_failures = failures,
                       rp_actions = record_if ''callback_reconciliation_needed'' dead (n_actions c2),
                       rp_alerts = k_alerts k1\<rparr>, n_db c2))))))"

section \<open>Soundness\<close>

lemma terminate_run_sound:
  assumes inv: "inv_db s" and sel: "selected s r" and st: "terminal st"
    and live: "dispatch_state r \<noteq> Claimed" "\<not> terminal (status r)"
    and t: "terminate_run r now st code s = Inr (ok, s')"
  shows "sound s s'"
proof -
  let ?f = "\<lambda>x. x\<lparr>status := st, dispatch_state := Finished, status_version := status_version x + 1,
                error_code := Some code, finished_at := Some now\<rparr>"
  show ?thesis
  proof (cases "update_run (run_id r) (as_selected r) ?f s")
    case None
    with t show ?thesis using sound_refl [OF inv] by (simp add: terminate_run_def)
  next
    case (Some s1)
    with t obtain s2 where
      tr: "transition_run default_limits r (Some (dispatch_state r)) (Some Finished) s1 = Inr s2"
      and cb: "append_callback (run_id r) st now s2 = Inr s'"
      by (auto simp: terminate_run_def res_simps)
    from Some inv_db_wf [OF inv] obtain x where x: "find_run s (run_id r) = Some x" "as_selected r x"
      and s1: "s1 = set_run (run_id r) ?f s" by (rule update_run_SomeE)
    have row: "row_ok x" by (rule inv_db_row [OF inv x(1)])
    have d: "dispatch_state x = dispatch_state r" "status x = status r" using x(2) by (simp_all add: as_selected_def)
    have sc: "run_scopes r = run_scopes x"
      using sel x(1) same_identity_scopes by (auto simp: selected_def)
    have "row_ok (?f x)" using row row_ok_unleased [OF row] d(1) live(1) st by (simp add: row_ok_def)
    moreover have "run_le x (?f x)" using d(2) live(2) by (auto simp: run_le_def same_identity_def terminal_def)
    ultimately have "sound s s2"
      using step_dispatch [OF inv x(1), of ?f r default_limits s2] tr d(1) sc by (simp add: s1)
    then show ?thesis using x(1) cb by (rule sound_then_callback)
  qed
qed

lemma terminate_repair_sound:
  assumes "inv_db s" "selected s r" "terminal st" "dispatch_state r \<noteq> Claimed" "\<not> terminal (status r)"
    "terminate_repair r now st code acts s = Inr (a, s')"
  shows "sound s s'"
  using assms terminate_run_sound [OF assms(1-5)] by (auto simp: terminate_repair_def res_simps)

lemma request_cancel_sound:
  assumes inv: "inv_db s" and rc: "request_cancel r c f s = Some s'"
    and f: "\<And>x. \<exists>e. f x = x\<lparr>cancel_requested_at := Some now, error_code := e\<rparr>"
  shows "sound s s'"
proof -
  obtain x where x: "find_run s (run_id r) = Some x" and s': "s' = set_run (run_id r) f s"
    using rc by (auto simp: request_cancel_def update_run_Some_iff inv_db_wf [OF inv])
  have eq: "run_id (f y) = run_id y" "last_event_seq (f y) = last_event_seq y" "run_scopes (f y) = run_scopes y"
    "dispatch_state (f y) = dispatch_state y" for y
    using f [of y] by (auto simp: run_scopes_def)
  obtain e where e: "f x = x\<lparr>cancel_requested_at := Some now, error_code := e\<rparr>" using f by blast
  have ok: "row_ok (f x)" using inv_db_row [OF inv x] unfolding e row_ok_def by auto
  show ?thesis unfolding s'
    by (rule step_columns [OF inv x]) (simp_all add: eq ok, simp add: e run_le_def same_identity_def)
qed

text \<open>The contract of a repair of \<open>r\<close>: it is sound, touches no other run, and writes nothing when
  it reports that it did not apply.\<close>

definition good_repair :: "agent_run \<Rightarrow> (db \<Rightarrow> repair) \<Rightarrow> bool" where
  "good_repair r m \<longleftrightarrow> (\<forall>s a s'. inv_db s \<longrightarrow> selected s r \<longrightarrow> m s = Inr (a, s') \<longrightarrow>
     sound s s' \<and> (\<forall>k. k \<noteq> run_id r \<longrightarrow> find_run s' k = find_run s k) \<and> (a = None \<longrightarrow> s' = s))"

lemma good_repairI:
  assumes "\<And>s a s'. inv_db s \<Longrightarrow> selected s r \<Longrightarrow> m s = Inr (a, s') \<Longrightarrow>
    sound s s' \<and> (\<forall>k. k \<noteq> run_id r \<longrightarrow> find_run s' k = find_run s k) \<and> (a = None \<longrightarrow> s' = s)"
  shows "good_repair r m"
  using assms by (simp add: good_repair_def)

lemma good_repairD:
  assumes "good_repair r m" "inv_db s" "selected s r" "m s = Inr (a, s')"
  shows "sound s s'" "k \<noteq> run_id r \<Longrightarrow> find_run s' k = find_run s k" "a = None \<Longrightarrow> s' = s"
  using assms by (auto simp: good_repair_def)

lemma good_repair_skip: "good_repair r (\<lambda>s. Inr (None, s))"
  by (auto simp: good_repair_def sound_refl)

lemma good_repair_if:
  "good_repair r m1 \<Longrightarrow> good_repair r m2 \<Longrightarrow> good_repair r (\<lambda>s. if b s then m1 s else m2 s)"
  by (auto simp: good_repair_def)

lemma good_repair_pointwise: "(\<And>s. \<exists>m. good_repair r m \<and> f s = m s) \<Longrightarrow> good_repair r f"
  unfolding good_repair_def by metis

lemma good_repair_or_else:
  assumes m: "good_repair r m" and k: "good_repair r k"
  shows "good_repair r (\<lambda>s. or_else (m s) k)"
proof (rule good_repairI)
  fix s a s' assume inv: "inv_db s" and sel: "selected s r" and e: "or_else (m s) k = Inr (a, s')"
  then obtain a1 s1 where m1: "m s = Inr (a1, s1)" by (auto simp: or_else_def res_simps)
  show "sound s s' \<and> (\<forall>k. k \<noteq> run_id r \<longrightarrow> find_run s' k = find_run s k) \<and> (a = None \<longrightarrow> s' = s)"
  proof (cases a1)
    case None
    with good_repairD(3) [OF m inv sel m1] e m1 have "k s = Inr (a, s')" by (simp add: or_else_def)
    then show ?thesis using good_repairD [OF k inv sel] by blast
  next
    case (Some acts)
    with e m1 have "a = Some acts" "s' = s1" by (auto simp: or_else_def)
    then show ?thesis using good_repairD [OF m inv sel m1] by simp
  qed
qed

lemma terminate_run_rows:
  assumes inv: "inv_db s" and t: "terminate_run r now st code s = Inr (ok, s')"
  shows "k \<noteq> run_id r \<Longrightarrow> find_run s' k = find_run s k" "\<not> ok \<Longrightarrow> s' = s"
    "find_run s (run_id r) = Some r \<Longrightarrow> ok \<and> (\<exists>x. find_run s' (run_id r) = Some x \<and> status x = st)"
proof -
  let ?f = "\<lambda>x. x\<lparr>status := st, dispatch_state := Finished, status_version := status_version x + 1,
                error_code := Some code, finished_at := Some now\<rparr>"
  have "(k \<noteq> run_id r \<longrightarrow> find_run s' k = find_run s k) \<and> (\<not> ok \<longrightarrow> s' = s) \<and>
    (find_run s (run_id r) = Some r \<longrightarrow> ok \<and> (\<exists>x. find_run s' (run_id r) = Some x \<and> status x = st))" for k
  proof (cases "update_run (run_id r) (as_selected r) ?f s")
    case None
    then have "\<not> as_selected r x" if "find_run s (run_id r) = Some x" for x
      using that by (simp add: update_run_None_iff inv_db_wf [OF inv])
    then have "find_run s (run_id r) \<noteq> Some r" by (auto simp: as_selected_def)
    with None t show ?thesis by (simp add: terminate_run_def)
  next
    case (Some s1)
    with t obtain s2 where ok: "ok"
      and tr: "transition_run default_limits r (Some (dispatch_state r)) (Some Finished) s1 = Inr s2"
      and cb: "append_callback (run_id r) st now s2 = Inr s'"
      by (auto simp: terminate_run_def res_simps)
    from Some inv_db_wf [OF inv] obtain x where x: "find_run s (run_id r) = Some x"
      and s1: "s1 = set_run (run_id r) ?f s" by (rule update_run_SomeE)
    have id: "run_id x = run_id r" by (rule find_run_id [OF x])
    have x2: "find_run s2 (run_id r) = Some (?f x)"
      using x id by (simp add: transition_run_find [OF tr] s1 find_run_set_run)
    note c = find_run_append_callback_other [OF cb x2]
    have "find_run s' k = find_run s k" if "k \<noteq> run_id r" for k
      using c [of k] that find_run_id [of s k]
      by (cases "find_run s k") (auto simp: transition_run_find [OF tr] s1 find_run_set_other)
    then show ?thesis using c [of "run_id r"] x2 ok by auto
  qed
  then show "k \<noteq> run_id r \<Longrightarrow> find_run s' k = find_run s k" "\<not> ok \<Longrightarrow> s' = s"
    "find_run s (run_id r) = Some r \<Longrightarrow> ok \<and> (\<exists>x. find_run s' (run_id r) = Some x \<and> status x = st)"
    by blast+
qed

lemma good_terminate:
  assumes "terminal st" "dispatch_state r \<noteq> Claimed" "\<not> terminal (status r)"
  shows "good_repair r (terminate_repair r now st code acts)"
proof (rule good_repairI)
  fix s a s' assume inv: "inv_db s" and sel: "selected s r" and e: "terminate_repair r now st code acts s = Inr (a, s')"
  then obtain ok where t: "terminate_run r now st code s = Inr (ok, s')" and a: "a = (if ok then Some acts else None)"
    by (auto simp: terminate_repair_def res_simps)
  show "sound s s' \<and> (\<forall>k. k \<noteq> run_id r \<longrightarrow> find_run s' k = find_run s k) \<and> (a = None \<longrightarrow> s' = s)"
    using terminate_repair_sound [OF inv sel assms e] terminate_run_rows(1,2) [OF inv t] a by auto
qed

lemma good_cancel:
  assumes f: "\<And>x. \<exists>e. f x = x\<lparr>cancel_requested_at := Some now, error_code := e\<rparr>"
    and g: "\<And>s. runs (g s) = runs s \<and> buckets (g s) = buckets s \<and> callbacks (g s) = callbacks s \<and>
      uuid_counter s \<le> uuid_counter (g s)"
  shows "good_repair r (\<lambda>s. case request_cancel r c f s of None \<Rightarrow> Inr (None, s) | Some s1 \<Rightarrow> Inr (Some acts, g s1))"
proof (rule good_repairI)
  fix s a s' assume inv: "inv_db s" and sel: "selected s r"
    and e: "(case request_cancel r c f s of None \<Rightarrow> Inr (None, s) | Some s1 \<Rightarrow> Inr (Some acts, g s1)) = Inr (a, s')"
  show "sound s s' \<and> (\<forall>k. k \<noteq> run_id r \<longrightarrow> find_run s' k = find_run s k) \<and> (a = None \<longrightarrow> s' = s)"
  proof (cases "request_cancel r c f s")
    case None
    with e show ?thesis using sound_refl [OF inv] by simp
  next
    case (Some s1)
    have s1: "sound s s1" by (rule request_cancel_sound [OF inv Some f])
    have eq: "s1 = set_run (run_id r) f s"
      using Some by (auto simp: request_cancel_def update_run_Some_iff inv_db_wf [OF inv])
    have id: "run_id (f x) = run_id x" for x using f [of x] by auto
    have "sound s1 (g s1)" by (rule sound_frame [OF soundD(1) [OF s1]]) (use g in simp_all)
    moreover have "find_run (g s1) = find_run s1" using g [of s1] by (simp add: find_run_def fun_eq_iff)
    ultimately show ?thesis
      using e Some s1 find_run_set_other [of f, OF id] by (auto simp: eq intro: sound_trans)
  qed
qed

lemma good_request:
  assumes "\<And>x. \<exists>e. f x = x\<lparr>cancel_requested_at := Some now, error_code := e\<rparr>"
  shows "good_repair r (\<lambda>s. case request_cancel r c f s of None \<Rightarrow> Inr (None, s) | Some s1 \<Rightarrow> Inr (Some acts, s1))"
  using good_cancel [OF assms, of "\<lambda>s. s"] by simp

lemma live_unclaimed: "row_ok r \<Longrightarrow> unclaimed r \<Longrightarrow> dispatch_state r \<noteq> Claimed \<and> \<not> terminal (status r)"
  using row_ok_unfinished [of r] by (auto simp: unclaimed_def terminal_def)

lemma good_timeout:
  assumes "row_ok r"
  shows "good_repair r (apply_execution_timeout r now code act)"
proof -
  consider "terminal (status r)" | "\<not> terminal (status r)" "dispatch_state r = Claimed"
    | "\<not> terminal (status r)" "dispatch_state r \<noteq> Claimed" by blast
  then show ?thesis
  proof cases
    case 1
    then show ?thesis using good_repair_skip by (simp add: apply_execution_timeout_def [abs_def])
  next
    case 2
    have "good_repair r (\<lambda>s. case request_cancel r (\<lambda>x. status x = status r)
        (\<lambda>x. x\<lparr>cancel_requested_at := Some now, error_code := Some code\<rparr>) s of None \<Rightarrow> Inr (None, s)
        | Some s1 \<Rightarrow> Inr (Some [act @ ''_cancel_requested''], s1))"
      by (rule good_request [where now = now]) auto
    with 2 show ?thesis by (simp add: apply_execution_timeout_def [abs_def])
  next
    case 3
    have "good_repair r (terminate_repair r now Failed code [act @ ''_terminated''])"
      by (rule good_terminate) (use 3 in \<open>simp_all add: terminal_def\<close>)
    then have "good_repair r (\<lambda>s. if dispatch_state r = Finished \<and> status r \<noteq> WaitingHuman then Inr (None, s)
        else terminate_repair r now Failed code [act @ ''_terminated''] s)"
      by (rule good_repair_if [OF good_repair_skip])
    with 3 show ?thesis by (simp add: apply_execution_timeout_def [abs_def])
  qed
qed

lemma good_deadline: "row_ok r \<Longrightarrow> good_repair r (repair_run_deadline r now)"
  unfolding repair_run_deadline_def [abs_def]
  by (intro good_repair_if good_repair_skip good_timeout)

lemma good_active: "row_ok r \<Longrightarrow> good_repair r (repair_active_elapsed_timeout r now)"
  using good_timeout [of r now "''ACTIVE_TIME_LIMIT_EXCEEDED''" "''active_time_limit''"]
  by (auto simp: repair_active_elapsed_timeout_def good_repair_def sound_refl split: option.splits if_splits)

lemma audit_frame:
  "runs (authorization_audit r o' st now s) = runs s \<and> buckets (authorization_audit r o' st now s) = buckets s \<and>
   callbacks (authorization_audit r o' st now s) = callbacks s \<and> uuid_counter s \<le> uuid_counter (authorization_audit r o' st now s)"
  by (simp add: authorization_audit_def frame_simps)

lemma cancel_only: "\<exists>e. x\<lparr>cancel_requested_at := t\<rparr> = x\<lparr>cancel_requested_at := t, error_code := e\<rparr>"
  by (rule exI [of _ "error_code x"]) simp

lemma good_authorization:
  assumes row: "row_ok r"
  shows "good_repair r (repair_authorization_changed resolver r now)"
proof (cases "\<exists>res v. resolver = Some res \<and> res r = Inr v \<and> v \<noteq> None \<and> v \<noteq> Some (authorization_version r)")
  case False
  then show ?thesis
    using sound_refl
    by (auto simp: good_repair_def repair_authorization_changed_def res_simps split: option.splits)
next
  case True
  then obtain res v where v: "resolver = Some res" "res r = Inr v" "v \<noteq> None" "v \<noteq> Some (authorization_version r)"
    by blast
  let ?acts = "[''authorization_changed_terminated'']"
  have can: "good_repair r (\<lambda>s. case request_cancel r (\<lambda>_. True) (\<lambda>x. x\<lparr>cancel_requested_at := Some now\<rparr>) s of
      None \<Rightarrow> Inr (None, s) | Some s1 \<Rightarrow> Inr (Some [''authorization_changed_cancel_requested''],
        authorization_audit r ''cancel_requested'' (status r) now s1))"
    by (rule good_cancel [where now = now]) (simp_all only: audit_frame cancel_only simp_thms)
  have ter: "good_repair r (\<lambda>s. res_bind (terminate_run r now Cancelled ''AUTHORIZATION_CHANGED'' s) (\<lambda>(ok, s1).
      if ok then Inr (Some ?acts, authorization_audit r ''terminated'' Cancelled now s1) else Inr (None, s1)))"
    if u: "unclaimed r"
  proof (rule good_repairI)
    fix s a s' assume inv: "inv_db s" and sel: "selected s r"
      and e: "res_bind (terminate_run r now Cancelled ''AUTHORIZATION_CHANGED'' s) (\<lambda>(ok, s1).
        if ok then Inr (Some ?acts, authorization_audit r ''terminated'' Cancelled now s1) else Inr (None, s1)) = Inr (a, s')"
    then obtain ok s1 where t: "terminate_run r now Cancelled ''AUTHORIZATION_CHANGED'' s = Inr (ok, s1)"
      and s': "(if ok then a = Some ?acts \<and> s' = authorization_audit r ''terminated'' Cancelled now s1 else a = None \<and> s' = s1)"
      by (auto simp: res_simps split: if_splits)
    have s1: "sound s s1"
      by (rule terminate_run_sound [OF inv sel _ _ _ t]) (use live_unclaimed [OF row u] in \<open>simp_all add: terminal_def\<close>)
    have "sound s1 (authorization_audit r ''terminated'' Cancelled now s1)"
      by (rule sound_frame [OF soundD(1) [OF s1]]) (simp_all add: audit_frame)
    note audit = sound_trans [OF s1 this]
    have frame: "find_run (authorization_audit r ''terminated'' Cancelled now s1) = find_run s1"
      by (simp add: find_run_def fun_eq_iff audit_frame)
    show "sound s s' \<and> (\<forall>k. k \<noteq> run_id r \<longrightarrow> find_run s' k = find_run s k) \<and> (a = None \<longrightarrow> s' = s)"
      using s' s1 audit frame terminate_run_rows(1,2) [OF inv t] by (cases ok) simp_all
  qed
  have "good_repair r (\<lambda>s. if unclaimed r then res_bind (terminate_run r now Cancelled ''AUTHORIZATION_CHANGED'' s) (\<lambda>(ok, s1).
      if ok then Inr (Some ?acts, authorization_audit r ''terminated'' Cancelled now s1) else Inr (None, s1))
      else if dispatch_state r = Claimed \<and> cancel_requested_at r = None then
        (case request_cancel r (\<lambda>_. True) (\<lambda>x. x\<lparr>cancel_requested_at := Some now\<rparr>) s of
      None \<Rightarrow> Inr (None, s) | Some s1 \<Rightarrow> Inr (Some [''authorization_changed_cancel_requested''],
        authorization_audit r ''cancel_requested'' (status r) now s1)) else Inr (None, s))"
    using ter can good_repair_skip [of r] by (cases "unclaimed r") (auto intro: good_repair_if)
  with v show ?thesis by (simp add: repair_authorization_changed_def [abs_def] del: not_None_eq)
qed

lemma good_revoked:
  assumes row: "row_ok r"
  shows "good_repair r (repair_revoked_definition r now)"
proof -
  have can: "good_repair r (\<lambda>s. case request_cancel r (\<lambda>x. status x = status r) (\<lambda>x. x\<lparr>cancel_requested_at := Some now\<rparr>) s of
      None \<Rightarrow> Inr (None, s) | Some s1 \<Rightarrow> Inr (Some [], s1))"
    by (rule good_request [where now = now]) (rule cancel_only)
  have ter: "good_repair r (terminate_repair r now Cancelled ''PACKAGE_REVOKED'' [])" if "unclaimed r"
    by (rule good_terminate) (use live_unclaimed [OF row that] in \<open>simp_all add: terminal_def\<close>)
  show ?thesis
  proof (rule good_repair_pointwise)
    fix s
    show "\<exists>m. good_repair r m \<and> repair_revoked_definition r now s = m s"
      using ter can good_repair_skip [of r]
      by (cases "package_executable s r"; cases "unclaimed r")
         (auto simp: repair_revoked_definition_def intro: exI [of _ "\<lambda>s. Inr (None, s)"])
  qed
qed

lemma good_pending:
  assumes "status r = Pending" "dispatch_state r \<noteq> Claimed" "terminal st"
  shows "good_repair r (terminate_repair r now st code acts)"
  by (rule good_terminate) (use assms in \<open>simp_all add: terminal_def\<close>)

lemma good_held: "good_repair r (repair_held_timeout r now)"
  using good_pending [of r Cancelled now "''HELD_TIMEOUT''" "[]"]
  by (auto simp: repair_held_timeout_def good_repair_def terminal_def sound_refl split: if_splits)

lemma good_queued: "good_repair r (repair_queued_timeout r now)"
  using good_pending [of r Failed now "''QUEUE_TIMEOUT''" "[]"]
  by (auto simp: repair_queued_timeout_def good_repair_def terminal_def sound_refl split: option.splits if_splits)

lemma good_frame:
  assumes "\<And>s a s'. m s = Inr (a, s') \<Longrightarrow> runs s' = runs s \<and> buckets s' = buckets s \<and> callbacks s' = callbacks s \<and>
      uuid_counter s \<le> uuid_counter s' \<and> (a = None \<longrightarrow> s' = s)"
  shows "good_repair r m"
proof (rule good_repairI)
  fix s a s' assume inv: "inv_db s" and m: "m s = Inr (a, s')"
  note f = assms [OF m]
  have "find_run s' = find_run s" using f by (simp add: find_run_def fun_eq_iff)
  then show "sound s s' \<and> (\<forall>k. k \<noteq> run_id r \<longrightarrow> find_run s' k = find_run s k) \<and> (a = None \<longrightarrow> s' = s)"
    using sound_frame [OF inv] f by simp
qed

lemma good_missing_dispatch: "good_repair r (repair_missing_run_dispatch r now)"
  by (rule good_frame)
     (auto simp: repair_missing_run_dispatch_def Let_def frame_simps split: if_splits)

lemma good_requeue:
  assumes st: "status r = WaitingHuman" and row: "row_ok r"
  shows "good_repair r (requeue_timeout_fallback r now)"
proof (rule good_repairI)
  fix s a s' assume inv: "inv_db s" and sel: "selected s r" and e: "requeue_timeout_fallback r now s = Inr (a, s')"
  let ?c = "\<lambda>x. status x = status r \<and> dispatch_state x = Finished \<and> status_version x = status_version r"
  let ?f = "\<lambda>x. x\<lparr>dispatch_state := Queued, queued_at := Some now, waiting_expires_at := None,
      error_code := Some ''WAITING_HUMAN_FALLBACK'', status_version := status_version x + 1\<rparr>"
  show "sound s s' \<and> (\<forall>k. k \<noteq> run_id r \<longrightarrow> find_run s' k = find_run s k) \<and> (a = None \<longrightarrow> s' = s)"
  proof (cases "update_run (run_id r) ?c ?f s")
    case None
    with e show ?thesis using sound_refl [OF inv] by (simp add: requeue_timeout_fallback_def)
  next
    case (Some s1)
    with e obtain s2 where tr: "transition_run default_limits r (Some Finished) (Some Queued) s1 = Inr s2"
      and s': "s' = append_run_dispatch (run_id r) ''waiting_human_timeout_fallback'' now s2" and a: "a = Some []"
      by (auto simp: requeue_timeout_fallback_def res_simps)
    from Some inv_db_wf [OF inv] obtain x where x: "find_run s (run_id r) = Some x" "?c x"
      and s1: "s1 = set_run (run_id r) ?f s" by (rule update_run_SomeE)
    have rx: "row_ok x" by (rule inv_db_row [OF inv x(1)])
    have sc: "run_scopes r = run_scopes x"
      using sel x(1) same_identity_scopes by (auto simp: selected_def)
    have "row_ok (?f x)" using rx row_ok_unleased [OF rx] x(2) st by (simp add: row_ok_def terminal_def)
    moreover have "run_le x (?f x)" using x(2) st by (simp add: run_le_def same_identity_def)
    ultimately have "sound s s2"
      using step_dispatch [OF inv x(1), of ?f r default_limits s2] tr x(2) sc by (simp add: s1)
    moreover have "find_run s' k = find_run s k" if "k \<noteq> run_id r" for k
      using that by (simp add: s' transition_run_find [OF tr] s1 find_run_set_other)
    ultimately show ?thesis using s' a by (simp add: sound_then_dispatch)
  qed
qed

lemma good_waiting:
  assumes "row_ok r"
  shows "good_repair r (repair_waiting_human_timeout r now)"
proof (cases "status r = WaitingHuman \<and> dispatch_state r = Finished")
  case False
  then show ?thesis
    by (auto simp: repair_waiting_human_timeout_def good_repair_def sound_refl)
next
  case True
  have t: "good_repair r (terminate_repair r now st code acts)" if "terminal st" for st code acts
    by (rule good_terminate) (use that True in \<open>simp_all add: terminal_def\<close>)
  have ite: "good_repair r (\<lambda>s. terminate_repair r now (if b s then Cancelled else Failed) code acts s)" for b code acts
  proof (rule good_repair_pointwise)
    fix s
    show "\<exists>m. good_repair r m \<and> terminate_repair r now (if b s then Cancelled else Failed) code acts s = m s"
      by (rule exI [of _ "terminate_repair r now (if b s then Cancelled else Failed) code acts"])
         (simp add: t terminal_def)
  qed
  show ?thesis
    unfolding repair_waiting_human_timeout_def [abs_def] Let_def
    by (intro good_repair_if good_repair_skip good_requeue ite assms) (simp add: True)
qed

lemma complete_purge_rows:
  assumes "complete_purge rid now s = Inr (ok, s')"
  shows "k \<noteq> rid \<Longrightarrow> find_run s' k = find_run s k" "\<not> ok \<Longrightarrow> s' = s"
proof -
  let ?f = "\<lambda>r. r\<lparr>input_json := [], output_summary_json := JNull, privacy_state := Purged,
    private_data_purged_at := Some now\<rparr>"
  consider "\<not> ok" "s' = s" | r where "ok"
    "s' = append_audit r ''runtime_privacy_worker'' ''agent_run_purged''
       [(''privacy_version'', int_string (privacy_version r))] ''system'' None now (set_run rid ?f (purge_payloads rid s))"
    using assms by (auto simp: complete_purge_def res_simps split: option.splits if_splits)
  then have "(k \<noteq> rid \<longrightarrow> find_run s' k = find_run s k) \<and> (\<not> ok \<longrightarrow> s' = s)" for k
  proof cases
    case 2
    have "find_run s' k = map_option (\<lambda>r. if run_id r = rid then ?f r else r) (find_run s k)"
      by (simp add: 2 append_audit_def find_run_def frame_simps sel_key_upd_where)
    then show ?thesis using 2(1) find_run_id [of s k] by (cases "find_run s k") auto
  qed simp
  then show "k \<noteq> rid \<Longrightarrow> find_run s' k = find_run s k" "\<not> ok \<Longrightarrow> s' = s" by blast+
qed

lemma good_purge: "good_repair r (complete_purge_repair r now)"
proof (rule good_repairI)
  fix s a s' assume inv: "inv_db s" and e: "complete_purge_repair r now s = Inr (a, s')"
  show "sound s s' \<and> (\<forall>k. k \<noteq> run_id r \<longrightarrow> find_run s' k = find_run s k) \<and> (a = None \<longrightarrow> s' = s)"
  proof (cases "privacy_state r = PurgeRequested \<and> dispatch_state r = Finished")
    case False
    with e show ?thesis using sound_refl [OF inv] by (auto simp: complete_purge_repair_def)
  next
    case True
    with e obtain ok where c: "complete_purge (run_id r) now s = Inr (ok, s')"
      and a: "a = (if ok then Some [''privacy_purge_completed''] else None)"
      by (auto simp: complete_purge_repair_def res_simps)
    show ?thesis using complete_purge_sound [OF inv c] complete_purge_rows [OF c] a by auto
  qed
qed

lemma good_repair_run: "row_ok r \<Longrightarrow> good_repair r (repair_run resolver r now)"
  unfolding repair_run_def [abs_def]
  by (intro good_repair_or_else good_purge good_deadline good_active good_authorization good_revoked
      good_held good_queued good_missing_dispatch good_waiting)

section \<open>Rebuilding the buckets\<close>

definition drifted :: "agent_run list \<Rightarrow> admission_bucket \<Rightarrow> bool" where
  "drifted rs b \<longleftrightarrow> bucket_counts b \<noteq> expected_counts rs (bucket_scope b)"

definition set_counts :: "counts \<Rightarrow> admission_bucket \<Rightarrow> admission_bucket" where
  "set_counts cs x = x\<lparr>held_count := fst cs, queued_count := fst (snd cs), running_count := snd (snd cs),
     b_version := b_version x + 1\<rparr>"

lemma scope_set_counts [simp]: "bucket_scope (set_counts cs x) = bucket_scope x"
  by (simp add: set_counts_def bucket_scope_def)

lemma counts_set_counts [simp]: "bucket_counts (set_counts cs x) = cs"
  by (simp add: set_counts_def bucket_counts_def)

lemma count_of_bucket_counts:
  "st \<noteq> Finished \<Longrightarrow> bucket_counts b = expected_counts rs sc \<Longrightarrow>
    count_of st b = int (rowcount (\<lambda>r. dispatch_state r = st \<and> sc \<in> set (run_scopes r)) rs)"
  by (cases st) (simp_all add: bucket_counts_def expected_counts_def Let_def)

definition scope_row :: "db \<Rightarrow> scope \<Rightarrow> admission_bucket option" where
  "scope_row s sc = sel_one (\<lambda>b. bucket_scope b = sc) (buckets s)"

lemma repair_bucket_rows:
  assumes "repair_admission_bucket b cs s = (ok, s1)"
  shows "s1 = s\<lparr>buckets := buckets s1\<rparr>"
    "scope_row s1 sc = (if ok \<and> sc = bucket_scope b then map_option (\<lambda>x. if b_version x = b_version b then set_counts cs x else x)
       (scope_row s sc) else scope_row s sc)"
proof -
  show "s1 = s\<lparr>buckets := buckets s1\<rparr>"
    using assms by (auto simp: repair_admission_bucket_def Let_def split: if_splits)
  let ?c = "\<lambda>x. bucket_scope x = bucket_scope b \<and> b_version x = b_version b"
  have "ok \<longrightarrow> buckets s1 = upd_where ?c (set_counts cs) (buckets s)" and "\<not> ok \<longrightarrow> s1 = s"
    using assms by (auto simp: repair_admission_bucket_def Let_def set_counts_def [abs_def] split: if_splits)
  then show "scope_row s1 sc = (if ok \<and> sc = bucket_scope b then map_option (\<lambda>x. if b_version x = b_version b then set_counts cs x else x)
       (scope_row s sc) else scope_row s sc)"
    using sel_one_SomeD [of "\<lambda>b. bucket_scope b = sc" "buckets s"]
    by (cases "scope_row s sc") (auto simp: scope_row_def sel_key_upd_where)
qed

lemma repair_bucket_current:
  assumes "distinct (map bucket_scope (buckets s))" "b \<in> set (buckets s)"
  shows "fst (repair_admission_bucket b cs s)"
  using rowcount_key [OF assms(1), of "bucket_scope b" "\<lambda>x. b_version x = b_version b"]
    sel_key_mem [OF assms] by (simp add: repair_admission_bucket_def Let_def)

text \<open>Whatever the buckets were, a row is either left alone or set to what the runs say.\<close>

lemma reconcile_buckets_rows:
  assumes "reconcile_buckets rs bs k s = (n, f, k', s')"
  shows "s' = s\<lparr>buckets := buckets s'\<rparr> \<and>
    (\<forall>sc. scope_row s' sc = scope_row s sc \<or>
       (\<exists>b. scope_row s' sc = Some b \<and> bucket_counts b = expected_counts rs sc))"
  using assms
proof (induction bs arbitrary: k s n f)
  case (Cons b bs)
  let ?cs = "expected_counts rs (bucket_scope b)"
  show ?case
  proof (cases "bucket_counts b = ?cs")
    case True
    with Cons.prems show ?thesis using Cons.IH by simp
  next
    case False
    obtain ok s1 where one: "repair_admission_bucket b ?cs s = (ok, s1)" by fastforce
    with Cons.prems False obtain n' f' k1 where rest: "reconcile_buckets rs bs k1 s1 = (n', f', k', s')"
      by (cases ok) (auto simp: Let_def split: prod.splits)
    note rows = repair_bucket_rows [OF one]
    note IH = Cons.IH [OF rest]
    have "scope_row s' sc = scope_row s sc \<or> (\<exists>b. scope_row s' sc = Some b \<and> bucket_counts b = expected_counts rs sc)" for sc
    proof -
      have "scope_row s' sc = scope_row s1 sc \<or> (\<exists>b. scope_row s' sc = Some b \<and> bucket_counts b = expected_counts rs sc)"
        using IH by blast
      moreover have "scope_row s1 sc = scope_row s sc \<or> (\<exists>b. scope_row s1 sc = Some b \<and> bucket_counts b = expected_counts rs sc)"
        using rows(2) [of sc] by (cases "scope_row s sc"; cases "b_version (the (scope_row s sc)) = b_version b") auto
      ultimately show ?thesis by auto
    qed
    moreover have "s' = s\<lparr>buckets := buckets s'\<rparr>"
      by (subst conjunct1 [OF IH], subst rows(1)) simp
    ultimately show ?thesis by blast
  qed
qed simp

lemma bucket_count_row: "bucket_count (buckets s) sc st = (case scope_row s sc of None \<Rightarrow> 0 | Some b \<Rightarrow> count_of st b)"
  by (simp add: bucket_count_def scope_row_def)

lemma reconcile_buckets_sound:
  assumes inv: "inv_db s" and rec: "reconcile_buckets (runs s) bs k s = (n, f, k', s')"
  shows "sound s s'"
proof -
  note rows = reconcile_buckets_rows [OF rec]
  have eq: "runs s' = runs s" "callbacks s' = callbacks s" "uuid_counter s' = uuid_counter s"
    by (subst conjunct1 [OF rows], simp)+
  have "bucket_count (buckets s') sc st = bucket_count (buckets s) sc st" if "st \<noteq> Finished" for sc st
  proof -
    have "bucket_count (buckets s) sc st = int (rowcount (\<lambda>r. dispatch_state r = st \<and> sc \<in> set (run_scopes r)) (runs s))"
      using inv that unfolding inv_db_def ledger_ok_iff by blast
    moreover have "scope_row s' sc = scope_row s sc \<or>
        (\<exists>b. scope_row s' sc = Some b \<and> bucket_counts b = expected_counts (runs s) sc)"
      using rows by blast
    ultimately show ?thesis
      using count_of_bucket_counts [OF that, of _ "runs s" sc] by (auto simp: bucket_count_row)
  qed
  then have "ledger_ok s'" using inv by (simp add: inv_db_def ledger_ok_iff eq)
  moreover have f: "find_run s' = find_run s" by (simp add: find_run_def fun_eq_iff eq)
  moreover have "wf_db s'" using inv by (simp add: inv_db_def wf_db_def eq)
  moreover have "events_ok s'"
    by (rule events_ok_cong [of s]) (use inv f in \<open>auto simp: inv_db_def run_seq_def eq\<close>)
  ultimately show ?thesis using inv by (simp add: sound_def inv_db_def advances_def eq)
qed

lemma reconcile_buckets_exact:
  assumes "distinct (map bucket_scope (buckets s))" "distinct (map bucket_scope bs)" "set bs \<subseteq> set (buckets s)"
    "reconcile_buckets rs bs k s = (n, f, k', s')"
  shows "f = 0 \<and> n = rowcount (drifted rs) bs \<and>
    (\<forall>sc. sc \<in> bucket_scope ` set bs \<longrightarrow> (\<exists>b. scope_row s' sc = Some b \<and> bucket_counts b = expected_counts rs sc)) \<and>
    (\<forall>sc. sc \<notin> bucket_scope ` set bs \<longrightarrow> scope_row s' sc = scope_row s sc)"
  using assms
proof (induction bs arbitrary: k s n)
  case Nil
  then show ?case by (simp add: rowcount_def)
next
  case (Cons b bs)
  let ?cs = "expected_counts rs (bucket_scope b)"
  have b: "scope_row s (bucket_scope b) = Some b"
    using Cons.prems(1,3) by (simp add: scope_row_def sel_key_mem)
  have new: "bucket_scope b \<notin> bucket_scope ` set bs" and tl: "distinct (map bucket_scope bs)" "set bs \<subseteq> set (buckets s)"
    using Cons.prems(2,3) by auto
  show ?case
  proof (cases "bucket_counts b = ?cs")
    case True
    with Cons.prems have rest: "reconcile_buckets rs bs k s = (n, f, k', s')" by simp
    note IH = Cons.IH [OF Cons.prems(1) tl rest]
    have "scope_row s' (bucket_scope b) = scope_row s (bucket_scope b)" using IH new by blast
    with b IH True show ?thesis by (simp add: rowcount_Cons drifted_def)
  next
    case False
    have ok: "fst (repair_admission_bucket b ?cs s)" by (rule repair_bucket_current) (use Cons.prems in simp_all)
    then obtain s1 where one: "repair_admission_bucket b ?cs s = (True, s1)" by (metis prod.collapse)
    with Cons.prems(4) False obtain n' k1 where rest: "reconcile_buckets rs bs k1 s1 = (n', f, k', s')" and n: "n = Suc n'"
      by (auto simp: Let_def split: prod.splits)
    have bs: "buckets s1 = upd_where (\<lambda>x. bucket_scope x = bucket_scope b \<and> b_version x = b_version b) (set_counts ?cs) (buckets s)"
      using one by (auto simp: repair_admission_bucket_def Let_def set_counts_def [abs_def] split: if_splits)
    have d: "distinct (map bucket_scope (buckets s1))" using Cons.prems(1) by (simp add: bs map_upd_where_cong)
    have m: "set bs \<subseteq> set (buckets s1)"
    proof
      fix q assume q: "q \<in> set bs"
      with new have "bucket_scope q \<noteq> bucket_scope b" by (auto simp: image_iff)
      with q tl(2) show "q \<in> set (buckets s1)"
        unfolding bs set_upd_where by (intro image_eqI [of _ _ q]) auto
    qed
    note IH = Cons.IH [OF d tl(1) m rest]
    have rows: "scope_row s1 sc = scope_row s sc" if "sc \<noteq> bucket_scope b" for sc
      using repair_bucket_rows(2) [OF one, of sc] that by simp
    have "scope_row s' (bucket_scope b) = scope_row s1 (bucket_scope b)" using IH new by blast
    then have "scope_row s' (bucket_scope b) = Some (set_counts ?cs b)"
      using repair_bucket_rows(2) [OF one, of "bucket_scope b"] b by simp
    moreover have "scope_row s' sc = scope_row s sc" if "sc \<noteq> bucket_scope b" "sc \<notin> bucket_scope ` set bs" for sc
      using IH that rows by metis
    ultimately show ?thesis
      using IH n False by (simp add: rowcount_Cons drifted_def)
  qed
qed

text \<open>C10. Reconciliation rebuilds the admission ledger from any drift: whatever the counters say,
  provided that each scope has at most one bucket and every scope of an active run has one, the
  pass sets exactly the buckets whose counters differ, none of its writes loses, afterwards
  every bucket counts the held, queued and claimed runs of its scope, and nothing else of the
  database changes.\<close>

theorem reconcile_rebuilds_ledger:
  assumes "distinct (map bucket_scope (buckets s))"
    and "\<And>r. r \<in> set (runs s) \<Longrightarrow> dispatch_state r \<noteq> Finished \<Longrightarrow> set (run_scopes r) \<subseteq> bucket_scope ` set (buckets s)"
    and rec: "reconcile_admission_buckets (runs s) k s = (n, f, k', s')"
  shows "ledger_ok s' \<and> f = 0 \<and> n = rowcount (drifted (runs s)) (buckets s) \<and> s' = s\<lparr>buckets := buckets s'\<rparr>"
proof -
  note ex = reconcile_buckets_exact [OF assms(1,1) subset_refl rec [unfolded reconcile_admission_buckets_def]]
  have frame: "s' = s\<lparr>buckets := buckets s'\<rparr>"
    using reconcile_buckets_rows [OF rec [unfolded reconcile_admission_buckets_def]] by blast
  have runs: "runs s' = runs s" by (subst frame) simp
  have "bucket_count (buckets s') sc st =
      int (rowcount (\<lambda>r. dispatch_state r = st \<and> sc \<in> set (run_scopes r)) (runs s))" if st: "st \<noteq> Finished" for sc st
  proof (cases "sc \<in> bucket_scope ` set (buckets s)")
    case True
    with ex obtain b where "scope_row s' sc = Some b" "bucket_counts b = expected_counts (runs s) sc" by blast
    then show ?thesis using count_of_bucket_counts [OF st] by (simp add: bucket_count_row)
  next
    case False
    then have "scope_row s sc = None" by (auto simp: scope_row_def sel_one_None_iff)
    moreover have "scope_row s' sc = scope_row s sc" using False ex by blast
    ultimately have "bucket_count (buckets s') sc st = 0" by (simp add: bucket_count_row)
    moreover have "rowcount (\<lambda>r. dispatch_state r = st \<and> sc \<in> set (run_scopes r)) (runs s) = 0"
      using False assms(2) st by (fastforce simp: rowcount_def filter_empty_conv)
    ultimately show ?thesis by simp
  qed
  then have "ledger_ok s'" unfolding ledger_ok_iff runs by blast
  with ex frame show ?thesis by blast
qed

definition demo_drift :: db where
  "demo_drift = (demo_db (demo_run Pending Queued))\<lparr>buckets :=
     map (\<lambda>b. b\<lparr>queued_count := queued_count b + 7, running_count := 3\<rparr>) (buckets (demo_db (demo_run Pending Queued)))\<rparr>"

theorem reconcile_rebuilds_ledger_witness:
  "\<exists>n f k s'. reconcile_admission_buckets (runs demo_drift) \<lparr>k_streaks = [], k_alerts = 0\<rparr> demo_drift = (n, f, k, s') \<and>
     ledger_ok s' \<and> n = 4"
proof -
  obtain n f k s' where rec: "reconcile_admission_buckets (runs demo_drift) \<lparr>k_streaks = [], k_alerts = 0\<rparr> demo_drift = (n, f, k, s')"
    by (metis prod.exhaust)
  have "distinct (map bucket_scope (buckets demo_drift))" by code_simp
  moreover have "\<forall>r\<in>set (runs demo_drift). set (run_scopes r) \<subseteq> bucket_scope ` set (buckets demo_drift)" by code_simp
  moreover have "rowcount (drifted (runs demo_drift)) (buckets demo_drift) = 4" by code_simp
  ultimately show ?thesis using reconcile_rebuilds_ledger [OF _ _ rec] rec by auto
qed

section \<open>The pass\<close>

lemma count_repair_db:
  "count_repair m c = Inr c' \<Longrightarrow> \<exists>a. m = Inr (a, n_db c') \<and> n_guard c' = n_guard c"
  by (auto simp: count_repair_def res_simps split: option.splits)

text \<open>The loop over the runs as they were read: every repair meets its own run unchanged.\<close>

lemma scan_runs_rows:
  assumes "inv_db (n_db c)" "distinct (map run_id rs)" "\<And>r. r \<in> set rs \<Longrightarrow> find_run (n_db c) (run_id r) = Some r"
    "scan_runs guard resolver now rs c = Inr (Some c')"
  shows "sound (n_db c) (n_db c') \<and>
    (\<forall>k. k \<notin> run_id ` set rs \<longrightarrow> find_run (n_db c') k = find_run (n_db c) k) \<and>
    (\<forall>r\<in>set rs. \<exists>s a s'. inv_db s \<and> find_run s (run_id r) = Some r \<and> repair_run resolver r now s = Inr (a, s') \<and>
       find_run (n_db c') (run_id r) = find_run s' (run_id r))"
  using assms
proof (induction rs arbitrary: c)
  case Nil
  then show ?case by (simp add: sound_refl)
next
  case (Cons r rs)
  let ?s = "n_db c"
  from Cons.prems(4) obtain c1 c2 where one: "count_repair (repair_run resolver r now ?s) c1 = Inr c2"
    and rest: "scan_runs guard resolver now rs c2 = Inr (Some c')"
    by (auto simp: res_simps Let_def split: if_splits)
  from count_repair_db [OF one] obtain a where rep: "repair_run resolver r now ?s = Inr (a, n_db c2)" by blast
  have r: "find_run ?s (run_id r) = Some r" using Cons.prems(3) by simp
  have sel: "selected ?s r" using r by (simp add: selected_def same_identity_def)
  note good = good_repairD [OF good_repair_run [OF inv_db_row [OF Cons.prems(1) r]] Cons.prems(1) sel rep]
  have IH: "sound (n_db c2) (n_db c') \<and>
    (\<forall>k. k \<notin> run_id ` set rs \<longrightarrow> find_run (n_db c') k = find_run (n_db c2) k) \<and>
    (\<forall>r\<in>set rs. \<exists>s a s'. inv_db s \<and> find_run s (run_id r) = Some r \<and> repair_run resolver r now s = Inr (a, s') \<and>
       find_run (n_db c') (run_id r) = find_run s' (run_id r))"
  proof (rule Cons.IH [OF soundD(1) [OF good(1)] _ _ rest])
    show "distinct (map run_id rs)" using Cons.prems(2) by simp
    fix q assume q: "q \<in> set rs"
    with Cons.prems(2) have "run_id q \<noteq> run_id r" by (auto simp: image_iff)
    then show "find_run (n_db c2) (run_id q) = Some q" using good(2) Cons.prems(3) [of q] q by simp
  qed
  have "run_id r \<notin> run_id ` set rs" using Cons.prems(2) by simp
  then have "find_run (n_db c') (run_id r) = find_run (n_db c2) (run_id r)" using IH by blast
  with Cons.prems(1) r rep have "\<exists>s a s'. inv_db s \<and> find_run s (run_id r) = Some r \<and>
      repair_run resolver r now s = Inr (a, s') \<and> find_run (n_db c') (run_id r) = find_run s' (run_id r)" by blast
  moreover have "sound ?s (n_db c')" by (rule sound_trans [OF good(1)]) (use IH in blast)
  ultimately show ?case using IH good(2) by simp
qed

lemma settle_dead_rows:
  assumes inv: "inv_db (n_db c)" and st: "settle_dead_dispatch ev now c = Inr c'"
  shows "sound (n_db c) (n_db c') \<and>
    (\<forall>k x. find_run (n_db c) k = Some x \<longrightarrow> find_run (n_db c') k = Some x \<or>
       status x = Pending \<and> (\<exists>y. find_run (n_db c') k = Some y \<and> status y = Failed))"
proof (cases "\<exists>r. find_run (n_db c) (aggregate_id ev) = Some r \<and> status r = Pending \<and> dispatch_state r = Queued")
  case False
  with st show ?thesis
    using sound_refl [OF inv] by (auto simp: settle_dead_dispatch_def Let_def split: option.splits if_splits)
next
  case True
  then obtain r where r: "find_run (n_db c) (aggregate_id ev) = Some r" "status r = Pending" "dispatch_state r = Queued"
    by blast
  have id: "run_id r = aggregate_id ev" by (rule find_run_id [OF r(1)])
  from st r obtain c1 where "count_repair (terminate_repair r now Failed ''DISPATCH_FAILED'' [] (n_db c)) c1 = Inr c'"
    by (auto simp: settle_dead_dispatch_def Let_def)
  from count_repair_db [OF this] obtain a where
    t: "terminate_repair r now Failed ''DISPATCH_FAILED'' [] (n_db c) = Inr (a, n_db c')" by blast
  then obtain ok where tr: "terminate_run r now Failed ''DISPATCH_FAILED'' (n_db c) = Inr (ok, n_db c')"
    by (auto simp: terminate_repair_def res_simps)
  have "sound (n_db c) (n_db c')"
    by (rule terminate_repair_sound [OF inv _ _ _ _ t])
       (use r id in \<open>simp_all add: selected_def same_identity_def terminal_def\<close>)
  moreover have "find_run (n_db c') k = Some x \<or> status x = Pending \<and> (\<exists>y. find_run (n_db c') k = Some y \<and> status y = Failed)"
    if "find_run (n_db c) k = Some x" for k x
  proof (cases "k = run_id r")
    case True
    with that r id terminate_run_rows(3) [OF inv tr] show ?thesis by auto
  next
    case False
    with that terminate_run_rows(1) [OF inv tr] show ?thesis by simp
  qed
  ultimately show ?thesis by blast
qed

lemma scan_dead_letters_rows:
  assumes "inv_db (n_db c)" "scan_dead_letters guard now evs c = Inr (Some c')"
  shows "sound (n_db c) (n_db c') \<and>
    (\<forall>k x. find_run (n_db c) k = Some x \<longrightarrow> status x \<noteq> Pending \<longrightarrow> find_run (n_db c') k = Some x)"
  using assms
proof (induction evs arbitrary: c)
  case Nil
  then show ?case by (simp add: sound_refl)
next
  case (Cons ev evs)
  from Cons.prems(2) obtain c1 where one: "settle_dead_dispatch ev now (c\<lparr>n_guard := Suc (n_guard c)\<rparr>) = Inr c1"
    and rest: "scan_dead_letters guard now evs c1 = Inr (Some c')"
    by (auto simp: res_simps split: if_splits)
  have d: "sound (n_db c) (n_db c1) \<and>
    (\<forall>k x. find_run (n_db c) k = Some x \<longrightarrow> find_run (n_db c1) k = Some x \<or>
       status x = Pending \<and> (\<exists>y. find_run (n_db c1) k = Some y \<and> status y = Failed))"
    using settle_dead_rows [OF _ one] Cons.prems(1) by simp
  have IH: "sound (n_db c1) (n_db c') \<and>
    (\<forall>k x. find_run (n_db c1) k = Some x \<longrightarrow> status x \<noteq> Pending \<longrightarrow> find_run (n_db c') k = Some x)"
    by (rule Cons.IH [OF _ rest]) (use d soundD in blast)
  then show ?case using d sound_trans by metis
qed

lemma prepare_scan_sound:
  assumes inv: "inv_db s" and p: "prepare_scan now k s = Inr (c, calls, failures, k1)"
  shows "sound s (n_db c)"
proof -
  let ?s1 = "snd (cleanup_expired now s)"
  let ?s2 = "snd (mark_expired_running_unknown now ?s1)"
  let ?s3 = "snd (mark_stale_tool_calls_unknown now ?s2)"
  obtain ids s4 where reap: "reap_expired now ?s3 = Inr (ids, s4)"
    using p by (cases "reap_expired now ?s3") (auto simp: prepare_scan_def Let_def split_def)
  obtain n f k' s5 where r: "reconcile_admission_buckets (runs s4) (k\<lparr>k_alerts := 0\<rparr>) s4 = (n, f, k', s5)"
    by (metis prod.exhaust)
  with p reap have "n_db c = s5" by (auto simp: prepare_scan_def Let_def split_def)
  with r have rec: "reconcile_buckets (runs s4) (buckets s4) (k\<lparr>k_alerts := 0\<rparr>) s4 = (n, f, k', n_db c)"
    by (simp add: reconcile_admission_buckets_def)
  have s1: "sound s ?s1" by (rule cleanup_sound [OF inv])
  have s2: "sound ?s1 ?s2" by (rule mark_expired_sound [OF soundD(1) [OF s1]])
  have s3: "sound ?s2 ?s3"
    by (rule sound_frame [OF soundD(1) [OF s2]]) (simp_all add: mark_stale_tool_calls_unknown_def)
  have s4: "sound ?s3 s4" by (rule reap_expired_sound [OF soundD(1) [OF s3] reap])
  have "sound s4 (n_db c)" by (rule reconcile_buckets_sound [OF soundD(1) [OF s4] rec])
  with s1 s2 s3 s4 show ?thesis by (blast intro: sound_trans)
qed

text \<open>A pass is aborted with nothing written, or it is the three phases in order.\<close>

lemma run_once_cases:
  assumes "run_once guard resolver now k s = Inr (rep, s')"
  obtains (aborted) "rep = aborted_report" "s' = s"
    | (completed) c0 calls failures k1 c1 c2 where "prepare_scan now k s = Inr (c0, calls, failures, k1)"
      "scan_runs guard resolver now (runs (n_db c0)) c0 = Inr (Some c1)"
      "scan_dead_letters guard now (dead_letters ''run_dispatch'' (n_db c1)) c1 = Inr (Some c2)"
      "s' = n_db c2"
proof (cases "guard 0")
  case False
  with assms aborted show ?thesis by (simp add: run_once_def)
next
  case guard: True
  with assms obtain c0 calls failures k1 where p: "prepare_scan now k s = Inr (c0, calls, failures, k1)"
    by (cases "prepare_scan now k s") (auto simp: run_once_def)
  with assms guard obtain o1 where sc: "scan_runs guard resolver now (runs (n_db c0)) c0 = Inr o1"
    by (cases "scan_runs guard resolver now (runs (n_db c0)) c0") (auto simp: run_once_def)
  show ?thesis
  proof (cases o1)
    case None
    with assms guard p sc aborted show ?thesis by (simp add: run_once_def)
  next
    case o1: (Some c1)
    let ?d = "scan_dead_letters guard now (dead_letters ''run_dispatch'' (n_db c1)) c1"
    from assms guard p sc o1 obtain o2 where dl: "?d = Inr o2"
      by (cases ?d) (auto simp: run_once_def)
    show ?thesis
    proof (cases o2)
      case None
      with assms guard p sc o1 dl aborted show ?thesis by (simp add: run_once_def)
    next
      case (Some c2)
      with assms guard p sc o1 dl have "rep = aborted_report \<and> s' = s \<or> s' = n_db c2"
        by (auto simp: run_once_def Let_def split: if_split_asm)
      then show ?thesis using aborted completed p sc o1 dl Some by blast
    qed
  qed
qed

lemma scan_complete:
  "scan_runs (\<lambda>_. True) resolver now rs c = Inr o' \<Longrightarrow> o' \<noteq> None"
  "scan_dead_letters (\<lambda>_. True) now evs c = Inr o' \<Longrightarrow> o' \<noteq> None"
  by (induction rs arbitrary: c, auto simp: res_simps Let_def)
     (induction evs arbitrary: c, auto simp: res_simps)

lemma run_once_completes:
  assumes "run_once (\<lambda>_. True) resolver now k s = Inr (rep, s')"
  obtains c0 calls failures k1 c1 c2 where "prepare_scan now k s = Inr (c0, calls, failures, k1)"
      "scan_runs (\<lambda>_. True) resolver now (runs (n_db c0)) c0 = Inr (Some c1)"
      "scan_dead_letters (\<lambda>_. True) now (dead_letters ''run_dispatch'' (n_db c1)) c1 = Inr (Some c2)"
      "s' = n_db c2"
proof -
  from assms obtain c0 calls failures k1 where p: "prepare_scan now k s = Inr (c0, calls, failures, k1)"
    by (cases "prepare_scan now k s") (auto simp: run_once_def)
  with assms obtain c1 where sc: "scan_runs (\<lambda>_. True) resolver now (runs (n_db c0)) c0 = Inr (Some c1)"
    using scan_complete(1) [of resolver now "runs (n_db c0)" c0]
    by (cases "scan_runs (\<lambda>_. True) resolver now (runs (n_db c0)) c0") (auto simp: run_once_def)
  let ?d = "scan_dead_letters (\<lambda>_. True) now (dead_letters ''run_dispatch'' (n_db c1)) c1"
  from assms p sc obtain c2 where "?d = Inr (Some c2)"
    using scan_complete(2) [of now "dead_letters ''run_dispatch'' (n_db c1)" c1] by (cases ?d) (auto simp: run_once_def)
  moreover from this assms p sc have "s' = n_db c2" by (auto simp: run_once_def Let_def)
  ultimately show ?thesis using that p sc by blast
qed

lemma run_once_rows:
  assumes inv: "inv_db s"
    and p: "prepare_scan now k s = Inr (c0, calls, failures, k1)"
    and sc: "scan_runs guard resolver now (runs (n_db c0)) c0 = Inr (Some c1)"
    and dl: "scan_dead_letters guard now evs c1 = Inr (Some c2)"
  shows "sound s (n_db c2)"
    "find_run s rid = Some r \<Longrightarrow> \<exists>q u a u' x. run_le r q \<and> inv_db u \<and> find_run u rid = Some q \<and>
       repair_run resolver q now u = Inr (a, u') \<and> find_run u' rid = Some x \<and>
       (\<exists>y. find_run (n_db c2) rid = Some y \<and> run_le x y \<and> (status x \<noteq> Pending \<longrightarrow> y = x))"
proof -
  have s0: "sound s (n_db c0)" by (rule prepare_scan_sound [OF inv p])
  note inv0 = soundD(1) [OF s0]
  have rows: "r \<in> set (runs (n_db c0)) \<Longrightarrow> find_run (n_db c0) (run_id r) = Some r" for r
    by (simp add: find_run_iff [OF inv_db_wf [OF inv0]])
  have "distinct (map run_id (runs (n_db c0)))" using inv_db_wf [OF inv0] by (simp add: wf_db_def)
  note scan = scan_runs_rows [OF inv0 this rows sc]
  have s1: "sound (n_db c0) (n_db c1)" using scan by blast
  note dead = scan_dead_letters_rows [OF soundD(1) [OF s1] dl]
  have s2: "sound (n_db c1) (n_db c2)" using dead by blast
  show "sound s (n_db c2)" using s0 s1 s2 sound_trans by blast
  show "\<exists>q u a u' x. run_le r q \<and> inv_db u \<and> find_run u rid = Some q \<and>
       repair_run resolver q now u = Inr (a, u') \<and> find_run u' rid = Some x \<and>
       (\<exists>y. find_run (n_db c2) rid = Some y \<and> run_le x y \<and> (status x \<noteq> Pending \<longrightarrow> y = x))" if r: "find_run s rid = Some r"
  proof -
    obtain q where q: "find_run (n_db c0) rid = Some q" "run_le r q"
      using soundD(2) [OF s0] r unfolding advances_def by blast
    then have "q \<in> set (runs (n_db c0))" "run_id q = rid" by (auto dest: find_run_SomeD)
    with scan obtain u a u' where u: "inv_db u" "find_run u rid = Some q" "repair_run resolver q now u = Inr (a, u')"
      "find_run (n_db c1) rid = find_run u' rid" by metis
    obtain x where x: "find_run (n_db c1) rid = Some x" using soundD(2) [OF s1] q unfolding advances_def by blast
    obtain y where "find_run (n_db c2) rid = Some y" "run_le x y" using soundD(2) [OF s2] x unfolding advances_def by blast
    then show ?thesis using q u x dead by (metis option.inject)
  qed
qed

lemma run_once_sound:
  assumes "inv_db s" "run_once guard resolver now k s = Inr (rep, s')"
  shows "sound s s'"
  using assms(2)
proof (cases rule: run_once_cases)
  case aborted
  with sound_refl [OF assms(1)] show ?thesis by simp
next
  case (completed c0 calls failures k1 c1 c2)
  then show ?thesis using run_once_rows(1) [OF assms(1) completed(1-3)] by simp
qed

text \<open>A reconciliation pass is atomic and sound: it either gives up its writes because the scan
  lease is lost, or it keeps the invariant of the run ledger and only moves runs forward.\<close>

lemma run_once_keeps_ledger:
  assumes "inv_db s" "run_once guard resolver now k s = Inr (rep, s')"
  shows "inv_db s' \<and> advances s s' \<and> (\<not> guard 0 \<longrightarrow> s' = s)"
  using run_once_sound [OF assms] assms(2) by (auto simp: sound_def run_once_def)

definition settled :: "agent_run \<Rightarrow> bool" where
  "settled x \<longleftrightarrow> terminal (status x) \<or> cancel_requested_at x \<noteq> None"

lemma repair_run_terminal:
  assumes row: "row_ok r" and st: "terminal (status r)" and np: "privacy_state r \<noteq> PurgeRequested"
    and rep: "repair_run resolver r now s = Inr (a, s')"
  shows "s' = s"
proof -
  have d: "dispatch_state r = Finished" by (rule row_ok_terminal [OF row st])
  have w: "status r \<noteq> WaitingHuman" "status r \<noteq> Pending" using st by (auto simp: terminal_def)
  note off = apply_execution_timeout_def unclaimed_def or_else_def complete_purge_repair_def
    repair_run_deadline_def repair_active_elapsed_timeout_def repair_authorization_changed_def
    repair_revoked_definition_def repair_held_timeout_def repair_queued_timeout_def
    repair_missing_run_dispatch_def repair_waiting_human_timeout_def
  have "repair_run_deadline r now s = Inr (None, s)" "repair_active_elapsed_timeout r now s = Inr (None, s)"
    "repair_revoked_definition r now s = Inr (None, s)" "repair_held_timeout r now s = Inr (None, s)"
    "repair_queued_timeout r now s = Inr (None, s)" "repair_missing_run_dispatch r now s = Inr (None, s)"
    "repair_waiting_human_timeout r now s = Inr (None, s)" "complete_purge_repair r now s = Inr (None, s)"
    using st d w np by (simp_all add: off split: option.splits)
  moreover have "repair_authorization_changed resolver r now s = Inr (b, t) \<Longrightarrow> b = None \<and> t = s" for b t
    using d w by (auto simp: repair_authorization_changed_def unclaimed_def res_simps split: option.split_asm if_split_asm)
  ultimately show ?thesis using rep
    by (cases "repair_authorization_changed resolver r now s") (auto simp: repair_run_def or_else_def)
qed

lemma repair_run_deadline_settles:
  assumes inv: "inv_db s" and r: "find_run s (run_id r) = Some r" and dl: "run_deadline_at r \<le> now"
    and rep: "repair_run resolver r now s = Inr (a, s')"
  shows "\<exists>x. find_run s' (run_id r) = Some x \<and> settled x"
proof (cases "cancel_requested_at r = None")
  case False
  have "sound s s'"
    by (rule good_repairD(1) [OF good_repair_run [OF inv_db_row [OF inv r]] inv _ rep])
       (simp add: selected_def r same_identity_def)
  then obtain x where "find_run s' (run_id r) = Some x" "run_le r x" using r unfolding sound_def advances_def by blast
  with False show ?thesis by (auto simp: run_le_def settled_def)
next
  case True
  have row: "row_ok r" by (rule inv_db_row [OF inv r])
  with True have act: "privacy_state r = PrivacyActive" by (auto simp: row_ok_def)
  have run: "repair_run_deadline r now s = Inr (Some acts, t) \<Longrightarrow> s' = t" for acts t
    using rep act by (auto simp: repair_run_def or_else_def complete_purge_repair_def)
  consider (over) "terminal (status r)" | (claimed) "\<not> terminal (status r)" "dispatch_state r = Claimed"
    | (idle) "\<not> terminal (status r)" "dispatch_state r \<noteq> Claimed" by blast
  then show ?thesis
  proof cases
    case over
    with repair_run_terminal [OF row over _ rep] act r show ?thesis by (auto simp: settled_def)
  next
    case claimed
    let ?f = "\<lambda>x. x\<lparr>cancel_requested_at := Some now, error_code := Some ''RUN_DEADLINE_EXCEEDED''\<rparr>"
    have "request_cancel r (\<lambda>x. status x = status r) ?f s = Some (set_run (run_id r) ?f s)"
      using r claimed True by (simp add: request_cancel_def update_run_Some_iff inv_db_wf [OF inv])
    then have "s' = set_run (run_id r) ?f s"
      using claimed dl run by (simp add: repair_run_deadline_def apply_execution_timeout_def)
    then show ?thesis using r by (simp add: find_run_set_run settled_def)
  next
    case idle
    have "\<not> (dispatch_state r = Finished \<and> status r \<noteq> WaitingHuman)"
      using row idle by (auto simp: row_ok_def)
    then have e: "repair_run_deadline r now s = terminate_repair r now Failed ''RUN_DEADLINE_EXCEEDED'' [''run_deadline_terminated''] s"
      using idle dl by (auto simp: repair_run_deadline_def apply_execution_timeout_def)
    with rep act obtain ok t where t: "terminate_run r now Failed ''RUN_DEADLINE_EXCEEDED'' s = Inr (ok, t)"
      by (cases "terminate_run r now Failed ''RUN_DEADLINE_EXCEEDED'' s")
         (auto simp: repair_run_def or_else_def complete_purge_repair_def terminate_repair_def)
    have ok: "ok \<and> (\<exists>x. find_run t (run_id r) = Some x \<and> status x = Failed)"
      by (rule terminate_run_rows(3) [OF inv t r])
    then have "s' = t" using run e t by (simp add: terminate_repair_def)
    with ok show ?thesis by (auto simp: settled_def terminal_def)
  qed
qed

text \<open>C9. No run outlives its deadline unnoticed: after a reconciliation pass that kept its lease,
  every run whose deadline has passed is settled in a terminal status or is marked for cancellation,
  whatever its status, its privacy state and the answer of the authorization resolver were.\<close>

theorem deadline_enforced:
  assumes inv: "inv_db s" and run: "run_once (\<lambda>_. True) resolver now k s = Inr (rep, s')"
    and r: "find_run s rid = Some r" and dl: "run_deadline_at r \<le> now"
  shows "\<exists>x. find_run s' rid = Some x \<and> (terminal (status x) \<or> cancel_requested_at x \<noteq> None)"
proof -
  obtain c0 calls failures k1 c1 c2 where c: "prepare_scan now k s = Inr (c0, calls, failures, k1)"
    "scan_runs (\<lambda>_. True) resolver now (runs (n_db c0)) c0 = Inr (Some c1)"
    "scan_dead_letters (\<lambda>_. True) now (dead_letters ''run_dispatch'' (n_db c1)) c1 = Inr (Some c2)" "s' = n_db c2"
    using run by (rule run_once_completes)
  from run_once_rows(2) [OF inv c(1-3) r] obtain q u a u' x y where q: "run_le r q" "inv_db u" "find_run u rid = Some q"
    "repair_run resolver q now u = Inr (a, u')" "find_run u' rid = Some x"
    and y: "find_run s' rid = Some y" "run_le x y" "status x \<noteq> Pending \<longrightarrow> y = x"
    unfolding c(4) by metis
  have "run_id q = rid" by (rule find_run_id [OF q(3)])
  moreover have "run_deadline_at q \<le> now" using q(1) dl by (simp add: run_le_def same_identity_def)
  ultimately have "settled x" using repair_run_deadline_settles [of u q now resolver a u'] q by auto
  with y show ?thesis by (auto simp: settled_def run_le_def terminal_def)
qed

definition demo_pass :: "runtime_error + (report \<times> db)" where
  "demo_pass = run_once (\<lambda>_. True) None (minutes 10000) \<lparr>k_streaks = [], k_alerts = 0\<rparr> (demo_db demo_claimed)"

lemma demo_pass_ok: "\<exists>rep s'. demo_pass = Inr (rep, s')"
  by (rule result_pair) code_simp

theorem deadline_enforced_witness:
  "\<exists>rep s' x. demo_pass = Inr (rep, s') \<and> find_run s' ''0'' = Some x \<and>
     (terminal (status x) \<or> cancel_requested_at x \<noteq> None)"
proof -
  obtain rep s' where p: "demo_pass = Inr (rep, s')" using demo_pass_ok by blast
  have r: "find_run (demo_db demo_claimed) ''0'' = Some demo_claimed" by code_simp
  have "run_deadline_at demo_claimed \<le> minutes 10000" by code_simp
  from deadline_enforced [OF inv_demo_claimed p [unfolded demo_pass_def] r this] p show ?thesis by blast
qed

end
