(* ===== verification/Reconciler.thy ===== *)
theory Reconciler
  imports Reconciliation Authorization
begin

text \<open>
  One cycle of the reconciler process (\<open>ReconcilerRunner.run_once\<close> in \<open>app/reconciler.py\<close>, without the
  business maintenance hook): acquire the scan lease, run the pass with a guard that renews the
  lease before every repair, release the lease. The lease and its renewals are transactions of
  their own, so other instances may take the lease over between two guard calls:
  \<open>rc_others i\<close> is what they did to the lease table before the \<open>i\<close>-th renewal and \<open>rc_last\<close> the table the
  release finds.
\<close>

record reconciler =
  rc_owner :: string
  rc_ttl :: int
  rc_clock :: "nat \<Rightarrow> time"
  rc_resolver :: "(agent_run \<Rightarrow> runtime_error + int option) option"
  rc_streaks :: streaks
  rc_others :: "nat \<Rightarrow> reconciliation_lease list \<Rightarrow> reconciliation_lease list"
  rc_last :: "reconciliation_lease list \<Rightarrow> reconciliation_lease list"

definition configured_authorization_version :: "clients \<Rightarrow> agent_run \<Rightarrow> runtime_error + int option" where
  "configured_authorization_version cl r =
     (case authorization_version_of cl (caller_id r) of
        Inr v \<Rightarrow> Inr (Some v)
      | Inl AuthorizationError \<Rightarrow> Inr None
      | Inl e \<Rightarrow> Inl e)"

text \<open>The database a renewal finds, and its answer.\<close>

fun renewal_view :: "reconciler \<Rightarrow> int \<Rightarrow> db \<Rightarrow> nat \<Rightarrow> db" where
  "renewal_view rc tok s 0 = s\<lparr>leases := rc_others rc 0 (leases s)\<rparr>"
| "renewal_view rc tok s (Suc i) =
     (let s1 = snd (renew (rc_ttl rc) (rc_owner rc) tok (rc_clock rc i) (renewal_view rc tok s i))
      in s1\<lparr>leases := rc_others rc (Suc i) (leases s1)\<rparr>)"

definition lease_guard :: "reconciler \<Rightarrow> int \<Rightarrow> db \<Rightarrow> nat \<Rightarrow> bool" where
  "lease_guard rc tok s i = fst (renew (rc_ttl rc) (rc_owner rc) tok (rc_clock rc i) (renewal_view rc tok s i))"

definition reconciler_cycle :: "reconciler \<Rightarrow> time \<Rightarrow> db \<Rightarrow> (runtime_error + report option) \<times> db" where
  "reconciler_cycle rc now s =
     (case acquire (rc_ttl rc) (rc_owner rc) now s of
        (None, s0) \<Rightarrow> (Inr None, s0)
      | (Some tok, s0) \<Rightarrow>
          (let out = run_once (lease_guard rc tok s0) (rc_resolver rc) now (rc_streaks rc) s0;
               s1 = (case out of Inl _ \<Rightarrow> s0 | Inr (_, t) \<Rightarrow> t);
               s2 = snd (release (rc_owner rc) tok (rc_clock rc 0) (s1\<lparr>leases := rc_last rc (leases s1)\<rparr>))
           in (case out of Inl e \<Rightarrow> Inl e | Inr (rep, _) \<Rightarrow> Inr (Some rep), s2)))"

text \<open>\<open>run_forever\<close>: a failed cycle is skipped, so the process goes on whatever a cycle does.\<close>

fun run_cycles :: "reconciler list \<Rightarrow> time list \<Rightarrow> db \<Rightarrow> db" where
  "run_cycles (rc # rcs) (now # nows) s = run_cycles rcs nows (snd (reconciler_cycle rc now s))"
| "run_cycles _ _ s = s"

lemma leases_sound: "inv_db s \<Longrightarrow> sound s (s\<lparr>leases := ls\<rparr>)"
  by (rule sound_frame) simp_all

lemma reconciler_cycle_sound:
  assumes inv: "inv_db s"
  shows "sound s (snd (reconciler_cycle rc now s))"
proof -
  obtain tok s0 where a: "acquire (rc_ttl rc) (rc_owner rc) now s = (tok, s0)" by fastforce
  have s0: "sound s s0" using lease_ops_sound(1) [OF inv, of "rc_ttl rc" "rc_owner rc" now] a by simp
  show ?thesis
  proof (cases tok)
    case None
    with a s0 show ?thesis by (simp add: reconciler_cycle_def)
  next
    case (Some k)
    define out where "out = run_once (lease_guard rc k s0) (rc_resolver rc) now (rc_streaks rc) s0"
    define s1 where "s1 = (case out of Inl _ \<Rightarrow> s0 | Inr (_, t) \<Rightarrow> t)"
    have "sound s0 s1"
    proof (cases out)
      case (Inr p)
      then show ?thesis
        using run_once_sound [OF soundD(1) [OF s0], of "lease_guard rc k s0" "rc_resolver rc" now "rc_streaks rc" "fst p" "snd p"]
        by (cases p) (simp add: out_def [symmetric] s1_def)
    qed (simp add: s1_def sound_refl soundD(1) [OF s0])
    then have s1: "sound s s1" using s0 sound_trans by blast
    have l: "sound s (s1\<lparr>leases := rc_last rc (leases s1)\<rparr>)"
      using sound_trans [OF s1 leases_sound] soundD(1) [OF s1] by blast
    from lease_ops_sound(3) [OF soundD(1) [OF l], of "rc_owner rc" k "rc_clock rc 0"] l
    have "sound s (snd (release (rc_owner rc) k (rc_clock rc 0) (s1\<lparr>leases := rc_last rc (leases s1)\<rparr>)))"
      using sound_trans by blast
    with a Some show ?thesis by (simp add: reconciler_cycle_def Let_def out_def [symmetric] s1_def [symmetric])
  qed
qed

lemma run_cycles_sound: "inv_db s \<Longrightarrow> sound s (run_cycles rcs nows s)"
proof (induction rcs nows s rule: run_cycles.induct)
  case (1 rc rcs now nows s)
  note c = reconciler_cycle_sound [OF 1(2), of rc now]
  from 1(1) [OF soundD(1) [OF c]] c show ?case using sound_trans by auto
qed (simp_all add: sound_refl)

end
