(* ===== verification/Tool_Calls.thy ===== *)
theory Tool_Calls
  imports Policy_Engine
begin

text \<open>
  The ledger of physical tool calls (\<open>app/services/tool_call_audit_service.py\<close>). A call is written
  before it is sent and settled after it returned; a repeated operation keeps its logical
  key, its idempotency key and its digest. \<open>_begin\<close> commits its audit record before it raises on
  a conflict, so its result is an outcome together with the committed database. A
  record handed back to the caller is named by its identifier.
\<close>

section \<open>Model\<close>

record tool_request =
  tr_run_id :: string
  tr_execution_attempt :: int
  tr_step_id :: string
  tr_tool_name :: string
  tr_tool_version :: "string option"
  tr_transport :: string
  tr_logical_key :: string
  tr_idempotency_key :: string
  tr_digest :: string
  tr_input_summary :: dict
  tr_side_effect :: bool

definition same_operation :: "string \<Rightarrow> string \<Rightarrow> agent_tool_call \<Rightarrow> bool" where
  "same_operation rid key t \<longleftrightarrow> t_run_id t = rid \<and> logical_operation_key t = Some key"

definition gate_refuses :: "string \<Rightarrow> lease_context option \<Rightarrow> time \<Rightarrow> db \<Rightarrow> bool" where
  "gate_refuses rid ctx now s = (case ctx of None \<Rightarrow> False | Some c \<Rightarrow> \<not> can_write rid c now s)"

definition new_tool_call :: "tool_request \<Rightarrow> string \<Rightarrow> int \<Rightarrow> time \<Rightarrow> agent_tool_call" where
  "new_tool_call q i n now = \<lparr>tool_call_id = i, t_run_id = tr_run_id q, t_step_id = tr_step_id q,
     tool_name = tr_tool_name q, tool_version = tr_tool_version q, transport = tr_transport q,
     side_effect = tr_side_effect q, t_idempotency_key = Some (tr_idempotency_key q),
     logical_operation_key = Some (tr_logical_key q), request_digest = Some (tr_digest q),
     t_execution_attempt = tr_execution_attempt q, tool_attempt = n, t_input_summary = JObj (tr_input_summary q),
     t_output_summary = JNull, t_status = ''running'', duration_ms = None, t_error_code = None,
     t_created_at = now, t_retention_until = now + days 30\<rparr>"

definition begin_call ::
  "tool_request \<Rightarrow> lease_context option \<Rightarrow> time \<Rightarrow> db \<Rightarrow> (runtime_error + agent_tool_call) \<times> db" where
  "begin_call q ctx now s =
     (if gate_refuses (tr_run_id q) ctx now s then (Inl (ValueError ''TOOL_RESULT_LEASE_INVALID''), s)
      else (case assert_tool_call_allowed (tr_run_id q) (tr_step_id q) s of
          Some code \<Rightarrow> (Inl (ValueError code), s)
        | None \<Rightarrow>
            (let existing = filter (same_operation (tr_run_id q) (tr_logical_key q)) (tool_calls s) in
             if list_ex (\<lambda>t. t_idempotency_key t \<noteq> Some (tr_idempotency_key q) \<or> request_digest t \<noteq> Some (tr_digest q)) existing
             then (Inl (ValueError ''TOOL_CALL_OPERATION_CONFLICT''),
               append_audit_record ''system'' ''tool_gateway'' ''tool_call_operation_conflict'' ''agent_run'' (tr_run_id q)
                 (Some ''TOOL_CALL_OPERATION_CONFLICT'') ''rejected'' None [(''run_id'', tr_run_id q)] now s)
             else (let (i, s1) = uuid4 s; t = new_tool_call q i (int (length existing) + 1) now
                   in (Inr t, s1\<lparr>tool_calls := tool_calls s1 @ [t]\<rparr>)))))"

definition begin_native ::
  "string \<Rightarrow> int \<Rightarrow> string \<Rightarrow> string \<Rightarrow> string \<Rightarrow> string \<Rightarrow> time \<Rightarrow> db \<Rightarrow> (runtime_error + agent_tool_call) \<times> db" where
  "begin_native rid att sid name key dg now s =
     begin_call \<lparr>tr_run_id = rid, tr_execution_attempt = att, tr_step_id = sid, tr_tool_name = name,
       tr_tool_version = Some ''1.0.0'', tr_transport = ''native'', tr_logical_key = key, tr_idempotency_key = key,
       tr_digest = dg, tr_input_summary = [(''operation'', JStr name)], tr_side_effect = False\<rparr> None now s"

definition begin_publish ::
  "string \<Rightarrow> int \<Rightarrow> string \<Rightarrow> string \<Rightarrow> string \<Rightarrow> lease_context option \<Rightarrow> time \<Rightarrow> db \<Rightarrow>
    (runtime_error + agent_tool_call) \<times> db" where
  "begin_publish rid att key ikey dg ctx now s =
     begin_call \<lparr>tr_run_id = rid, tr_execution_attempt = att, tr_step_id = ''publish_document'',
       tr_tool_name = ''memory.publish_playback_document'', tr_tool_version = Some ''1.0.0'',
       tr_transport = ''http_business_tool'', tr_logical_key = key, tr_idempotency_key = ikey, tr_digest = dg,
       tr_input_summary = [(''operation'', JStr ''publish_playback_document'')], tr_side_effect = True\<rparr> ctx now s"

definition persist_result ::
  "agent_tool_call \<Rightarrow> string \<Rightarrow> string option \<Rightarrow> json \<Rightarrow> lease_context option \<Rightarrow> time \<Rightarrow> db \<Rightarrow> bool \<times> db" where
  "persist_result rec st err out ctx now s =
     (if gate_refuses (t_run_id rec) ctx now s then (False, s)
      else (True, s\<lparr>tool_calls := upd_where (\<lambda>t. tool_call_id t = tool_call_id rec)
         (\<lambda>t. t\<lparr>t_status := st, t_error_code := err, t_output_summary := out\<rparr>) (tool_calls s)\<rparr>))"

text \<open>The output of \<open>succeed\<close>: a mapping, or a revision that needs a content digest.\<close>

definition success_output :: "dict + int \<Rightarrow> string option \<Rightarrow> runtime_error + dict" where
  "success_output out dg =
     (case out of
        Inl d \<Rightarrow> Inr d
      | Inr n \<Rightarrow> (case dg of
          None \<Rightarrow> Inl (ValueError ''TOOL_CALL_SUCCESS_DIGEST_REQUIRED'')
        | Some c \<Rightarrow> Inr [(''revision'', JInt n), (''content_digest'', JStr c)]))"

definition succeed_call ::
  "agent_tool_call \<Rightarrow> dict + int \<Rightarrow> string option \<Rightarrow> lease_context option \<Rightarrow> time \<Rightarrow> db \<Rightarrow> runtime_error + (bool \<times> db)" where
  "succeed_call rec out dg ctx now s =
     res_bind (success_output out dg) (\<lambda>d. Inr (persist_result rec ''succeeded'' None (JObj d) ctx now s))"

definition fail_call ::
  "agent_tool_call \<Rightarrow> string \<Rightarrow> bool \<Rightarrow> string \<Rightarrow> lease_context option \<Rightarrow> time \<Rightarrow> db \<Rightarrow> bool \<times> db" where
  "fail_call rec code retryable etype ctx now s =
     persist_result rec ''failed'' (Some code)
       (JObj [(''error_code'', JStr code), (''error_type'', JStr etype), (''retryable'', JBool retryable),
          (''safe_message'', JStr ''TOOL_REQUEST_REJECTED''), (''details_visible_to_model'', JBool False)]) ctx now s"

definition unknown_call :: "agent_tool_call \<Rightarrow> string \<Rightarrow> lease_context option \<Rightarrow> time \<Rightarrow> db \<Rightarrow> bool \<times> db" where
  "unknown_call rec code ctx now s = persist_result rec ''outcome_unknown'' (Some code) JNull ctx now s"

definition committed :: "agent_tool_call \<Rightarrow> bool" where
  "committed t \<longleftrightarrow> t_status t \<in> {''running'', ''outcome_unknown'', ''succeeded''}"

definition latest_committed :: "string \<Rightarrow> string \<Rightarrow> string \<Rightarrow> string \<Rightarrow> db \<Rightarrow> agent_tool_call option" where
  "latest_committed rid key ikey dg s =
     sel_one (\<lambda>t. same_operation rid key t \<and> t_idempotency_key t = Some ikey \<and> request_digest t = Some dg \<and> committed t)
       (rev (tool_calls s))"

definition find_publish_attempt :: "string \<Rightarrow> string \<Rightarrow> db \<Rightarrow> agent_tool_call option" where
  "find_publish_attempt rid key s = sel_one (\<lambda>t. same_operation rid key t \<and> committed t) (rev (tool_calls s))"

section \<open>Histories\<close>

datatype tool_op =
    BeginCall tool_request "lease_context option" time
  | SettleCall agent_tool_call string "string option" json "lease_context option" time

fun tool_do :: "tool_op \<Rightarrow> db \<Rightarrow> db" where
  "tool_do (BeginCall q ctx now) s = snd (begin_call q ctx now s)"
| "tool_do (SettleCall rec st err out ctx now) s = snd (persist_result rec st err out ctx now s)"

definition operations_ok :: "db \<Rightarrow> bool" where
  "operations_ok s \<longleftrightarrow>
     (\<forall>rid key. (\<exists>ikey dg. \<forall>t\<in>set (tool_calls s). same_operation rid key t \<longrightarrow>
        t_idempotency_key t = Some ikey \<and> request_digest t = Some dg) \<and>
      map tool_attempt (filter (same_operation rid key) (tool_calls s)) =
        map int [1..<Suc (length (filter (same_operation rid key) (tool_calls s)))])"

lemma begin_call_cases:
  obtains (refused) e s1 where "begin_call q ctx now s = (Inl e, s1)" "tool_calls s1 = tool_calls s"
      "inv_db s \<Longrightarrow> sound s s1"
  | (written) t s1 where "begin_call q ctx now s = (Inr t, s1)" "tool_calls s1 = tool_calls s @ [t]"
      "t = new_tool_call q (numeral_string (uuid_counter s))
         (int (length (filter (same_operation (tr_run_id q) (tr_logical_key q)) (tool_calls s))) + 1) now"
      "\<And>x. x \<in> set (tool_calls s) \<Longrightarrow> same_operation (tr_run_id q) (tr_logical_key q) x \<Longrightarrow>
         t_idempotency_key x = Some (tr_idempotency_key q) \<and> request_digest x = Some (tr_digest q)"
      "\<not> gate_refuses (tr_run_id q) ctx now s" "assert_tool_call_allowed (tr_run_id q) (tr_step_id q) s = None"
      "inv_db s \<Longrightarrow> sound s s1"
proof -
  let ?bad = "\<lambda>t. t_idempotency_key t \<noteq> Some (tr_idempotency_key q) \<or> request_digest t \<noteq> Some (tr_digest q)"
  let ?ex = "filter (same_operation (tr_run_id q) (tr_logical_key q)) (tool_calls s)"
  show thesis
  proof (cases "gate_refuses (tr_run_id q) ctx now s \<or> assert_tool_call_allowed (tr_run_id q) (tr_step_id q) s \<noteq> None \<or> list_ex ?bad ?ex")
    case True
    then show ?thesis
      by (intro refused [of "projl (fst (begin_call q ctx now s))" "snd (begin_call q ctx now s)"])
         (auto simp: begin_call_def sound_refl step_audit frame_simps Let_def split: option.split)
  next
    case False
    let ?t = "new_tool_call q (numeral_string (uuid_counter s)) (int (length ?ex) + 1) now"
    let ?s1 = "s\<lparr>uuid_counter := Suc (uuid_counter s), tool_calls := tool_calls s @ [?t]\<rparr>"
    have b: "begin_call q ctx now s = (Inr ?t, ?s1)" using False by (simp add: begin_call_def Let_def uuid4_def)
    have "inv_db s \<Longrightarrow> sound s ?s1" by (rule sound_frame) simp_all
    with b False show ?thesis by (intro written [OF b]) (auto simp: list_ex_iff)
  qed
qed

lemma same_operation_settled:
  "same_operation rid key (t\<lparr>t_status := st, t_error_code := err, t_output_summary := out\<rparr>) = same_operation rid key t"
  by (simp add: same_operation_def)

lemma filter_upd_same:
  assumes "\<And>x. p (f x) = p x"
  shows "filter p (upd_where c f xs) = upd_where c f (filter p xs)"
  using assms by (induction xs) auto

lemma persist_result_ops:
  assumes "operations_ok s"
  shows "operations_ok (snd (persist_result rec st err out ctx now s))"
proof (cases "gate_refuses (t_run_id rec) ctx now s")
  case False
  let ?f = "\<lambda>t :: agent_tool_call. t\<lparr>t_status := st, t_error_code := err, t_output_summary := out\<rparr>"
  have f: "filter (same_operation rid key) (upd_where c ?f ts) = upd_where c ?f (filter (same_operation rid key) ts)" for rid key c ts
    by (rule filter_upd_same) (simp add: same_operation_settled)
  have m: "map tool_attempt (upd_where c ?f ts) = map tool_attempt ts" for c ts by (rule map_upd_where_cong) simp
  have k: "\<forall>t\<in>set (upd_where c ?f ts). same_operation rid key t \<longrightarrow> t_idempotency_key t = Some ikey \<and> request_digest t = Some dg"
    if "\<forall>t\<in>set ts. same_operation rid key t \<longrightarrow> t_idempotency_key t = Some ikey \<and> request_digest t = Some dg"
    for rid key c ts ikey dg using that by (auto simp: set_upd_where same_operation_settled)
  show ?thesis
    unfolding operations_ok_def
  proof (intro allI conjI)
    fix rid key
    obtain ikey dg where "\<forall>t\<in>set (tool_calls s). same_operation rid key t \<longrightarrow>
        t_idempotency_key t = Some ikey \<and> request_digest t = Some dg" using assms unfolding operations_ok_def by blast
    from k [OF this] show "\<exists>ikey dg. \<forall>t\<in>set (tool_calls (snd (persist_result rec st err out ctx now s))). same_operation rid key t \<longrightarrow>
        t_idempotency_key t = Some ikey \<and> request_digest t = Some dg"
      using False by (intro exI [of _ ikey] exI [of _ dg]) (simp add: persist_result_def)
    show "map tool_attempt (filter (same_operation rid key) (tool_calls (snd (persist_result rec st err out ctx now s)))) =
        map int [1..<Suc (length (filter (same_operation rid key) (tool_calls (snd (persist_result rec st err out ctx now s)))))]"
      using assms False unfolding operations_ok_def by (simp add: persist_result_def f m del: upt_Suc)
  qed
qed (use assms in \<open>simp add: persist_result_def\<close>)

lemma begin_call_ops:
  assumes ok: "operations_ok s"
  shows "operations_ok (snd (begin_call q ctx now s))"
proof (cases rule: begin_call_cases [of q ctx now s])
  case (refused e s1)
  with ok show ?thesis by (simp add: operations_ok_def)
next
  case (written t s1)
  have t: "same_operation rid key t \<longleftrightarrow> rid = tr_run_id q \<and> key = tr_logical_key q"
    "t_idempotency_key t = Some (tr_idempotency_key q)" "request_digest t = Some (tr_digest q)"
    "tool_attempt t = int (length (filter (same_operation (tr_run_id q) (tr_logical_key q)) (tool_calls s))) + 1" for rid key
    by (auto simp: written(3) new_tool_call_def same_operation_def)
  have "operations_ok s1"
    unfolding operations_ok_def
  proof (intro allI conjI)
    fix rid key
    let ?mine = "rid = tr_run_id q \<and> key = tr_logical_key q"
    show "\<exists>ikey dg. \<forall>x\<in>set (tool_calls s1). same_operation rid key x \<longrightarrow> t_idempotency_key x = Some ikey \<and> request_digest x = Some dg"
    proof (cases ?mine)
      case True
      with written(4) t show ?thesis unfolding written(2)
        by (intro exI [of _ "tr_idempotency_key q"] exI [of _ "tr_digest q"]) auto
    next
      case False
      obtain ikey dg where "\<forall>x\<in>set (tool_calls s). same_operation rid key x \<longrightarrow> t_idempotency_key x = Some ikey \<and> request_digest x = Some dg"
        using ok unfolding operations_ok_def by blast
      with False t(1) show ?thesis unfolding written(2) by (intro exI [of _ ikey] exI [of _ dg]) auto
    qed
    show "map tool_attempt (filter (same_operation rid key) (tool_calls s1)) =
        map int [1..<Suc (length (filter (same_operation rid key) (tool_calls s1)))]"
      using ok t(1) [of rid key] t(4) unfolding operations_ok_def by (cases ?mine) (simp_all add: written(2))
  qed
  with written(1) show ?thesis by simp
qed

lemma tool_do_ops: "operations_ok s \<Longrightarrow> operations_ok (fold tool_do ops s)"
proof (induction ops arbitrary: s)
  case (Cons x xs)
  have "operations_ok (tool_do x s)" using Cons.prems by (cases x) (simp_all add: begin_call_ops persist_result_ops)
  with Cons.IH show ?case by simp
qed simp

section \<open>Properties\<close>

text \<open>A logical tool operation has one business identity for good: after any sequence of begun and settled calls, all
  physical calls of a run under one logical key carry the same idempotency key and digest and
  are numbered 1, 2, and so on; and while one of them is not known to have failed, the lookup by
  logical key alone finds a call with that identity, so a resumed run never publishes twice
  under another one.\<close>

lemma tool_operation_identity:
  assumes none: "tool_calls s = []" and s': "s' = fold tool_do ops s"
    and x: "x \<in> set (tool_calls s')" "same_operation rid key x" and y: "y \<in> set (tool_calls s')" "same_operation rid key y"
  shows "t_idempotency_key y = t_idempotency_key x \<and> request_digest y = request_digest x \<and>
    map tool_attempt (filter (same_operation rid key) (tool_calls s')) =
      map int [1..<Suc (length (filter (same_operation rid key) (tool_calls s')))] \<and>
    (committed x \<longrightarrow> (\<exists>t. find_publish_attempt rid key s' = Some t \<and>
       t_idempotency_key t = t_idempotency_key x \<and> request_digest t = request_digest x))"
proof -
  have "operations_ok s" by (simp add: operations_ok_def none)
  then have ok: "operations_ok s'" unfolding s' by (rule tool_do_ops)
  then obtain ikey dg where id: "\<And>t. t \<in> set (tool_calls s') \<Longrightarrow> same_operation rid key t \<Longrightarrow>
      t_idempotency_key t = Some ikey \<and> request_digest t = Some dg" unfolding operations_ok_def by blast
  have "\<exists>t. find_publish_attempt rid key s' = Some t \<and> t_idempotency_key t = Some ikey \<and> request_digest t = Some dg"
    if "committed x"
  proof -
    have "find_publish_attempt rid key s' \<noteq> None"
      using x that unfolding find_publish_attempt_def sel_one_None_iff by auto
    then obtain t where t: "find_publish_attempt rid key s' = Some t" by blast
    then have "t \<in> set (tool_calls s') \<and> same_operation rid key t"
      using sel_one_SomeD unfolding find_publish_attempt_def by fastforce
    with id t show ?thesis by blast
  qed
  then show ?thesis using id [OF x] id [OF y] ok unfolding operations_ok_def by auto
qed

definition demo_request :: tool_request where
  "demo_request = \<lparr>tr_run_id = ''0'', tr_execution_attempt = 1, tr_step_id = ''publish_document'', tr_tool_name = ''t'',
     tr_tool_version = None, tr_transport = ''http'', tr_logical_key = ''k'', tr_idempotency_key = ''i'', tr_digest = ''d'',
     tr_input_summary = [], tr_side_effect = True\<rparr>"

definition demo_calls :: db where
  "demo_calls = fold tool_do [BeginCall demo_request None 1, BeginCall (demo_request\<lparr>tr_digest := ''e''\<rparr>) None 2,
     BeginCall demo_request None 3] (demo_db demo_claimed)"

end
