(* ===== verification/Agent_Package.thy ===== *)
theory Agent_Package
  imports Run_Service Agent_State Demo_State "HOL-Library.Multiset"
begin

text \<open>
  The package loader (\<open>app/services/agent_package_service.py\<close> with the schemas \<open>ToolManifest\<close>,
  \<open>CallbackConfig\<close>, \<open>UiTraceConfig\<close> and \<open>AgentPackage\<close> of \<open>app/schemas/agent_package.py\<close>), the
  registration script (\<open>app/scripts/register_agent_package.py\<close>) and the life cycle of a
  registered definition.

  The file system is the list of its files, each named by the parts of its absolute path; it has no
  symbolic links, and a directory is there when a file is below it. The YAML and JSON
  parsers, \<open>ast.parse\<close> with \<open>literal_eval\<close>, SHA-256 and the way the schema library reads a bool are
  parameters, gathered in \<open>parsers\<close>.
\<close>

section \<open>Errors and files\<close>

datatype package_error =
    VersionNotExact | PathOutsideRoot | NoPackageDirectory | MissingFiles "string list"
  | IdentityMismatch | ContractIncompatible | LifecycleIllegal | PackageRevoked | PackageDeprecated
  | ActorOrReasonMissing | WaitingCallbackDisabled | FallbackNodeUnknown
  | LoopBodyUnknown string string | LoopBodyKind string | OptionalBeforePublish
  | PromptMissing string | PromptUndeclared string | DigestChanged | TooFewEvals
  | JsonUnreadable string | YamlUnreadable string | YamlNotObject string
  | GraphUnreadable | NodesNotLiteral | NodesNotList | EvalsUnreadable
  | SchemaInvalid | PyTypeError | PyAttributeError

type_synonym path = "string list"

type_synonym files = "(path \<times> string) list"

text \<open>A top level statement of a module: an assignment to one name, with the literal value or
  \<open>None\<close> when \<open>literal_eval\<close> refuses the expression, or anything else.\<close>

datatype statement = AssignName string "json option" | OtherStatement

record parsers =
  yaml_load :: "string \<Rightarrow> json option"
  json_loads :: "string \<Rightarrow> json option"
  ast_parse :: "string \<Rightarrow> statement list option"
  sha256_hex :: "string \<Rightarrow> string"
  pydantic_bool :: "json \<Rightarrow> bool option"

text \<open>\<open>Path.resolve\<close> on the parts of an absolute path; joining an absolute part restarts.\<close>

fun split_parts :: "string \<Rightarrow> string \<Rightarrow> path" where
  "split_parts acc [] = [rev acc]"
| "split_parts acc (c # cs) = (if c = CHR ''/'' then rev acc # split_parts [] cs else split_parts (c # acc) cs)"

definition join_path :: "path \<Rightarrow> string \<Rightarrow> path" where
  "join_path base x = (case x of
      CHR ''/'' # _ \<Rightarrow> split_parts [] x
    | _ \<Rightarrow> base @ split_parts [] x)"

fun resolve_parts :: "path \<Rightarrow> path \<Rightarrow> path" where
  "resolve_parts acc [] = rev acc"
| "resolve_parts acc (p # ps) =
     (if p = '''' \<or> p = ''.'' then resolve_parts acc ps
      else if p = ''..'' then resolve_parts (tl acc) ps
      else resolve_parts (p # acc) ps)"

definition parent_of :: "path \<Rightarrow> path \<Rightarrow> bool" where
  "parent_of pkgs p \<longleftrightarrow> length pkgs < length p \<and> take (length pkgs) p = pkgs"

definition required_files :: "string list" where
  "required_files = [''agent.yaml'', ''callbacks.yaml'', ''guardrails.yaml'', ''input.schema.json'',
     ''output.schema.json'', ''tools.manifest.json'', ''ui-trace.yaml'', ''workflow.graph.py'']"

definition excluded_digest_files :: "string list" where
  "excluded_digest_files = [''package.sig'', ''package.digest'', ''build-metadata.json'']"

definition lookup_file :: "files \<Rightarrow> path \<Rightarrow> string list \<Rightarrow> string option" where
  "lookup_file fs dir rel = map_of fs (resolve_parts [] (foldl join_path dir rel))"

definition package_files :: "files \<Rightarrow> path \<Rightarrow> files" where
  "package_files fs dir = filter (\<lambda>f. parent_of dir (fst f)) fs"

definition validate_required_files :: "files \<Rightarrow> path \<Rightarrow> package_error + unit" where
  "validate_required_files fs dir =
     (if package_files fs dir = [] then Inl NoPackageDirectory
      else (let missing = filter (\<lambda>n. lookup_file fs dir [n] = None) required_files
            in ensure (missing = []) (MissingFiles missing)))"

text \<open>\<open>path.suffix == ".pyc"\<close>: the name ends so and has something before it.\<close>

definition has_suffix :: "string \<Rightarrow> string \<Rightarrow> bool" where
  "has_suffix sfx x \<longleftrightarrow> length sfx \<le> length x \<and> drop (length x - length sfx) x = sfx"

definition managed_file :: "path \<Rightarrow> bool" where
  "managed_file p \<longleftrightarrow> last p \<notin> set excluded_digest_files \<and> ''__pycache__'' \<notin> set p \<and>
     \<not> (has_suffix ''.pyc'' (last p) \<and> last p \<noteq> ''.pyc'')"

fun posix :: "path \<Rightarrow> string" where
  "posix [] = ''''"
| "posix [p] = p"
| "posix (p # ps) = p @ ''/'' @ posix ps"

definition package_bytes :: "files \<Rightarrow> path \<Rightarrow> string" where
  "package_bytes fs dir = concat (map (\<lambda>(p, c). posix (drop (length dir) p) @ [CHR 0x00] @ c @ [CHR 0x00])
     (sort_key fst (filter (\<lambda>f. managed_file (fst f)) (package_files fs dir))))"

definition digest :: "parsers \<Rightarrow> files \<Rightarrow> path \<Rightarrow> string" where
  "digest pr fs dir = ''sha256:'' @ sha256_hex pr (package_bytes fs dir)"

definition read_json :: "parsers \<Rightarrow> files \<Rightarrow> path \<Rightarrow> string \<Rightarrow> package_error + json" where
  "read_json pr fs dir n = (case lookup_file fs dir [n] of
      None \<Rightarrow> Inl (JsonUnreadable n)
    | Some c \<Rightarrow> (case json_loads pr c of None \<Rightarrow> Inl (JsonUnreadable n) | Some j \<Rightarrow> Inr j))"

definition read_yaml :: "parsers \<Rightarrow> files \<Rightarrow> path \<Rightarrow> string \<Rightarrow> package_error + dict" where
  "read_yaml pr fs dir n = (case lookup_file fs dir [n] of
      None \<Rightarrow> Inl (YamlUnreadable n)
    | Some c \<Rightarrow> (case yaml_load pr c of
        None \<Rightarrow> Inl (YamlUnreadable n) | Some (JObj d) \<Rightarrow> Inr d | Some _ \<Rightarrow> Inl (YamlNotObject n)))"

section \<open>Schemas\<close>

record tool_manifest =
  tm_name :: string
  tm_version :: string
  tm_enabled :: bool
  tm_connector_id :: "string option"
  tm_method :: "string option"
  tm_relative_path :: "string option"
  tm_input_from :: "string option"
  tm_output_to :: "string option"
  tm_side_effect :: bool
  tm_cancellation :: string
  tm_mcp_server_id :: "string option"
  tm_mcp_tool_name :: "string option"
  tm_mcp_resource_uri :: "string option"
  tm_input_schema :: dict
  tm_output_schema :: dict

fun read_dict :: "json \<Rightarrow> dict option" where
  "read_dict (JObj d) = Some d"
| "read_dict _ = None"

fun opt_literal :: "string list \<Rightarrow> json \<Rightarrow> string option option" where
  "opt_literal ls JNull = Some None"
| "opt_literal ls j = map_option Some (literal ls j)"

fun contains_text :: "string \<Rightarrow> string \<Rightarrow> bool" where
  "contains_text x [] = (x = [])"
| "contains_text x (c # cs) = (take (length x) (c # cs) = x \<or> contains_text x cs)"

definition filled :: "string option \<Rightarrow> bool" where
  "filled x \<longleftrightarrow> x \<noteq> None \<and> x \<noteq> Some ''''"

definition tool_rules :: "tool_manifest \<Rightarrow> bool" where
  "tool_rules t \<longleftrightarrow>
     (tm_connector_id t \<noteq> None \<longrightarrow> filled (tm_method t) \<and> filled (tm_relative_path t) \<and>
        filled (tm_input_from t) \<and> filled (tm_output_to t)) \<and>
     (case tm_relative_path t of None \<Rightarrow> True | Some p \<Rightarrow> p = '''' \<or> (hd p = CHR ''/'' \<and> \<not> contains_text ''://'' p)) \<and>
     (case tm_output_to t of None \<Rightarrow> True | Some x \<Rightarrow> x = '''' \<or> x \<in> set safe_tool_output_fields)"

definition tool_fields :: "string list" where
  "tool_fields = [''name'', ''version'', ''enabled'', ''connector_id'', ''method'', ''relative_path'', ''input_from'',
     ''output_to'', ''side_effect'', ''cancellation_behavior'', ''mcp_server_id'', ''mcp_tool_name'', ''mcp_resource_uri'',
     ''input_schema'', ''output_schema'']"

fun validate_tool :: "(json \<Rightarrow> bool option) \<Rightarrow> json \<Rightarrow> tool_manifest option" where
  "validate_tool pb (JObj d) =
     (if \<not> keys_within d tool_fields then None
      else (case (required d ''name'' read_str, required d ''version'' read_str, field d ''enabled'' True pb,
               field d ''connector_id'' None read_opt_str,
               field d ''method'' None (opt_literal [''GET'', ''POST'', ''PUT'', ''PATCH'', ''DELETE''])) of
         (Some n, Some v, Some en, Some con, Some mt) \<Rightarrow>
           (case (field d ''relative_path'' None read_opt_str, field d ''input_from'' None read_opt_str,
               field d ''output_to'' None read_opt_str, field d ''side_effect'' False pb,
               field d ''cancellation_behavior'' ''cancellable''
                 (literal [''cancellable'', ''non_cancellable'', ''query_after_commit''])) of
             (Some rp, Some inp, Some outp, Some se, Some cb) \<Rightarrow>
               (case (field d ''mcp_server_id'' None read_opt_str, field d ''mcp_tool_name'' None read_opt_str,
                   field d ''mcp_resource_uri'' None read_opt_str, field d ''input_schema'' [] read_dict,
                   field d ''output_schema'' [] read_dict) of
                 (Some ms, Some mn, Some mu, Some isch, Some osch) \<Rightarrow>
                   (let t = \<lparr>tm_name = n, tm_version = v, tm_enabled = en, tm_connector_id = con, tm_method = mt,
                        tm_relative_path = rp, tm_input_from = inp, tm_output_to = outp, tm_side_effect = se,
                        tm_cancellation = cb, tm_mcp_server_id = ms, tm_mcp_tool_name = mn, tm_mcp_resource_uri = mu,
                        tm_input_schema = isch, tm_output_schema = osch\<rparr>
                    in if tool_rules t then Some t else None)
               | _ \<Rightarrow> None)
           | _ \<Rightarrow> None)
       | _ \<Rightarrow> None))"
| "validate_tool pb _ = None"

definition validate_callbacks :: "dict \<Rightarrow> string list option" where
  "validate_callbacks d =
     (if keys_within d [''enabled_events''] then field d ''enabled_events'' [] read_str_list else None)"

definition waiting_human_enabled :: "string list \<Rightarrow> bool" where
  "waiting_human_enabled evs \<longleftrightarrow> ''waiting_human'' \<in> set evs"

record agent_package =
  pk_agent_id :: string
  pk_version :: string
  pk_contract_version :: string
  pk_status :: string
  pk_business_types :: "string list"
  pk_policy :: package_policy
  pk_nodes :: "workflow_node list"
  pk_tools :: "tool_manifest list"
  pk_callbacks :: "string list"
  pk_ui_trace :: ui_trace_config
  pk_input_schema :: dict
  pk_output_schema :: dict
  pk_prompts :: "string list"
  pk_guardrails :: dict
  pk_evals :: "dict list"
  pk_digest :: string

section \<open>Checks of the loader\<close>

definition py_raise :: "'e \<Rightarrow> 'a option \<Rightarrow> 'e + 'a" where
  "py_raise e x = (case x of None \<Rightarrow> Inl e | Some y \<Rightarrow> Inr y)"

definition validate_lifecycle :: "json \<Rightarrow> string \<Rightarrow> package_error + unit" where
  "validate_lifecycle st op =
     (case st of
        JStr x \<Rightarrow>
          if x \<notin> {''active'', ''deprecated'', ''revoked''} then Inl LifecycleIllegal
          else if x = ''revoked'' \<and> op \<noteq> ''status_change'' then Inl PackageRevoked
          else if x = ''deprecated'' \<and> op = ''create'' then Inl PackageDeprecated
          else Inr ()
      | JList _ \<Rightarrow> Inl PyTypeError
      | JObj _ \<Rightarrow> Inl PyTypeError
      | _ \<Rightarrow> Inl LifecycleIllegal)"

definition validate_identity :: "dict \<Rightarrow> string \<Rightarrow> string \<Rightarrow> package_error + unit" where
  "validate_identity d aid ver =
     ensure (dget d ''agent_id'' = JStr aid \<and> dget d ''version'' = JStr ver) IdentityMismatch"

fun loop_refs_ok :: "(string \<times> string) list \<Rightarrow> string \<Rightarrow> string list \<Rightarrow> package_error + unit" where
  "loop_refs_ok types nid [] = Inr ()"
| "loop_refs_ok types nid (b # bs) =
     (case map_of types b of
        None \<Rightarrow> Inl (LoopBodyUnknown nid b)
      | Some t \<Rightarrow> if t \<notin> {''deterministic'', ''model''} then Inl (LoopBodyKind b) else loop_refs_ok types nid bs)"

text \<open>The dict comprehension keeps the last node of an identifier.\<close>

definition type_table :: "workflow_node list \<Rightarrow> (string \<times> string) list" where
  "type_table ns = rev (map (\<lambda>n. (node_id n, node_type n)) ns)"

fun validate_loop_refs :: "(string \<times> string) list \<Rightarrow> workflow_node list \<Rightarrow> package_error + unit" where
  "validate_loop_refs types [] = Inr ()"
| "validate_loop_refs types (n # ns) =
     (case node_loop_policy n of
        None \<Rightarrow> validate_loop_refs types ns
      | Some p \<Rightarrow> res_bind (loop_refs_ok types (node_id n) (body_node_ids p)) (\<lambda>_. validate_loop_refs types ns))"

definition validate_bounded_loop_body_refs :: "workflow_node list \<Rightarrow> package_error + unit" where
  "validate_bounded_loop_body_refs ns = validate_loop_refs (type_table ns) ns"

definition positions :: "(workflow_node \<Rightarrow> bool) \<Rightarrow> workflow_node list \<Rightarrow> nat list" where
  "positions P ns = filter (\<lambda>i. P (ns ! i)) [0..<length ns]"

definition optional_after_publish :: "workflow_node list \<Rightarrow> bool" where
  "optional_after_publish ns =
     (let opt = positions optional ns; pub = positions (\<lambda>n. node_id n = ''publish_document'') ns
      in opt = [] \<or> (length pub = 1 \<and> hd pub < Min (set opt)))"

definition validate_workflow_policy ::
  "workflow_node list \<Rightarrow> string list \<Rightarrow> package_policy \<Rightarrow> package_error + unit" where
  "validate_workflow_policy ns evs pol =
     res_bind (ensure (\<not> (list_ex can_wait_for_human ns \<and> \<not> waiting_human_enabled evs)) WaitingCallbackDisabled) (\<lambda>_.
     res_bind (ensure (waiting_human_timeout_action pol = ''fallback'' \<longrightarrow>
         (\<exists>n\<in>set ns. waiting_human_fallback_node pol = Some (node_id n))) FallbackNodeUnknown) (\<lambda>_.
     res_bind (validate_bounded_loop_body_refs ns) (\<lambda>_.
     ensure (optional_after_publish ns) OptionalBeforePublish)))"

text \<open>What a \<open>for\<close> loop over a JSON value visits.\<close>

fun py_iter :: "json \<Rightarrow> package_error + json list" where
  "py_iter (JList xs) = Inr xs"
| "py_iter (JObj d) = Inr (map (\<lambda>kv. JStr (fst kv)) d)"
| "py_iter (JStr x) = Inr (map (\<lambda>c. JStr [c]) x)"
| "py_iter _ = Inl PyTypeError"

fun validate_prompt_items :: "files \<Rightarrow> path \<Rightarrow> json list \<Rightarrow> package_error + unit" where
  "validate_prompt_items fs dir [] = Inr ()"
| "validate_prompt_items fs dir (JStr p # js) =
     (if has_suffix ''.md'' p \<and> lookup_file fs dir [''prompts'', p] \<noteq> None
      then validate_prompt_items fs dir js else Inl (PromptMissing p))"
| "validate_prompt_items fs dir (_ # js) = Inl PyAttributeError"

definition validate_prompts :: "files \<Rightarrow> path \<Rightarrow> json \<Rightarrow> package_error + json list" where
  "validate_prompts fs dir j = res_bind (py_iter j) (\<lambda>js. res_bind (validate_prompt_items fs dir js) (\<lambda>_. Inr js))"

fun validate_node_prompt_refs :: "workflow_node list \<Rightarrow> json list \<Rightarrow> package_error + unit" where
  "validate_node_prompt_refs [] declared = Inr ()"
| "validate_node_prompt_refs (n # ns) declared =
     (if node_type n \<in> {''model'', ''guardrail''} \<and> (case prompt_ref n of None \<Rightarrow> True | Some p \<Rightarrow> JStr p \<notin> set declared)
      then Inl (PromptUndeclared (node_id n)) else validate_node_prompt_refs ns declared)"

fun find_nodes :: "statement list \<Rightarrow> package_error + json" where
  "find_nodes [] = Inr JNull"
| "find_nodes (AssignName x v # ss) =
     (if x = ''WORKFLOW_NODES'' then py_raise NodesNotLiteral v else find_nodes ss)"
| "find_nodes (OtherStatement # ss) = find_nodes ss"

definition load_workflow_nodes :: "parsers \<Rightarrow> files \<Rightarrow> path \<Rightarrow> package_error + workflow_node list" where
  "load_workflow_nodes pr fs dir =
     (case Option.bind (lookup_file fs dir [''workflow.graph.py'']) (ast_parse pr) of
        None \<Rightarrow> Inl GraphUnreadable
      | Some ss \<Rightarrow> res_bind (find_nodes ss) (\<lambda>raw.
          (case raw of
             JList js \<Rightarrow> py_raise SchemaInvalid (validate_nodes (pydantic_bool pr) js)
           | _ \<Rightarrow> Inl NodesNotList)))"

text \<open>\<open>str.splitlines\<close> and the blank test of \<open>str.strip\<close>, on 8-bit characters.\<close>

definition line_break :: "char \<Rightarrow> bool" where
  "line_break c \<longleftrightarrow> c \<in> {CHR 0x0A, CHR 0x0B, CHR 0x0C, CHR 0x0D, CHR 0x1C, CHR 0x1D, CHR 0x1E, CHR 0x85}"

fun splitlines :: "string \<Rightarrow> string \<Rightarrow> string list" where
  "splitlines acc [] = (if acc = [] then [] else [rev acc])"
| "splitlines acc [c] = [rev (if line_break c then acc else c # acc)]"
| "splitlines acc (c # d # cs) =
     (if c = CHR 0x0D \<and> d = CHR 0x0A then rev acc # splitlines [] cs
      else if line_break c then rev acc # splitlines [] (d # cs)
      else splitlines (c # acc) (d # cs))"

definition blank :: "string \<Rightarrow> bool" where
  "blank x = list_all (\<lambda>c. line_break c \<or> c \<in> {CHR 0x20, CHR 0x09, CHR 0x1F, CHR 0xA0}) x"

fun read_all :: "('a \<Rightarrow> 'b option) \<Rightarrow> 'a list \<Rightarrow> 'b list option" where
  "read_all f [] = Some []"
| "read_all f (x # xs) = (case f x of None \<Rightarrow> None | Some y \<Rightarrow> map_option (\<lambda>ys. y # ys) (read_all f xs))"

definition load_evals :: "parsers \<Rightarrow> files \<Rightarrow> path \<Rightarrow> package_error + json list" where
  "load_evals pr fs dir =
     (case lookup_file fs dir [''evals'', ''minimal.jsonl''] of
        None \<Rightarrow> Inl EvalsUnreadable
      | Some c \<Rightarrow> py_raise EvalsUnreadable (read_all (json_loads pr) (filter (\<lambda>l. \<not> blank l) (splitlines [] c))))"

section \<open>Loading\<close>

type_synonym digests = "((string \<times> string) \<times> string) list"

definition remember_digest :: "agent_package \<Rightarrow> digests \<Rightarrow> package_error + digests" where
  "remember_digest pkg reg =
     (let key = (pk_agent_id pkg, pk_version pkg) in
      case map_of reg key of
        None \<Rightarrow> Inr (reg @ [(key, pk_digest pkg)])
      | Some d \<Rightarrow> if d = pk_digest pkg then Inr reg else Inl DigestChanged)"

definition contract_version_const :: string where
  "contract_version_const = ''1.0.0''"

text \<open>The constructor call at the end of \<open>load\<close>: the schema \<open>AgentPackage\<close> validates what the
  checks left open, and its validator refuses an empty workflow.\<close>

definition build_package ::
  "parsers \<Rightarrow> files \<Rightarrow> path \<Rightarrow> string \<Rightarrow> string \<Rightarrow> dict \<Rightarrow> package_policy \<Rightarrow> workflow_node list \<Rightarrow> tool_manifest list \<Rightarrow>
    string list \<Rightarrow> json \<Rightarrow> json list \<Rightarrow> package_error + agent_package" where
  "build_package pr fs dir aid ver d pol ns tools evs prompts evals =
     res_bind (read_yaml pr fs dir ''ui-trace.yaml'') (\<lambda>uid.
     res_bind (py_raise SchemaInvalid (validate_ui_trace (JObj uid))) (\<lambda>ui.
     res_bind (read_json pr fs dir ''input.schema.json'') (\<lambda>isch.
     res_bind (read_json pr fs dir ''output.schema.json'') (\<lambda>osch.
     res_bind (read_yaml pr fs dir ''guardrails.yaml'') (\<lambda>gr.
     res_bind (py_raise SchemaInvalid (read_str_list (dget_default d ''allowed_business_types'' (JList [])))) (\<lambda>bts.
     res_bind (py_raise SchemaInvalid (read_str (dget_default d ''status'' (JStr ''active'')))) (\<lambda>st.
     res_bind (py_raise SchemaInvalid (read_dict isch)) (\<lambda>i.
     res_bind (py_raise SchemaInvalid (read_dict osch)) (\<lambda>outs.
     res_bind (py_raise SchemaInvalid (read_str_list prompts)) (\<lambda>ps.
     res_bind (py_raise SchemaInvalid (read_all read_dict evals)) (\<lambda>es.
     res_bind (ensure (ns \<noteq> []) SchemaInvalid) (\<lambda>_.
       Inr \<lparr>pk_agent_id = aid, pk_version = ver, pk_contract_version = contract_version_const, pk_status = st,
         pk_business_types = bts, pk_policy = pol, pk_nodes = ns, pk_tools = tools, pk_callbacks = evs,
         pk_ui_trace = ui, pk_input_schema = i, pk_output_schema = outs, pk_prompts = ps, pk_guardrails = gr,
         pk_evals = es, pk_digest = digest pr fs dir\<rparr>))))))))))))"

definition load_package ::
  "parsers \<Rightarrow> files \<Rightarrow> path \<Rightarrow> string \<Rightarrow> string \<Rightarrow> digests \<Rightarrow> package_error + (agent_package \<times> digests)" where
  "load_package pr fs pkgs aid ver reg =
     res_bind (ensure (\<not> (aid = '''' \<or> ver = '''' \<or> ver = ''latest'')) VersionNotExact) (\<lambda>_.
     let dir = resolve_parts [] (join_path (join_path pkgs aid) ver) in
     res_bind (ensure (parent_of pkgs dir) PathOutsideRoot) (\<lambda>_.
     res_bind (validate_required_files fs dir) (\<lambda>_.
     res_bind (read_yaml pr fs dir ''agent.yaml'') (\<lambda>d.
     res_bind (validate_identity d aid ver) (\<lambda>_.
     res_bind (ensure (dget d ''contract_version'' = JStr contract_version_const) ContractIncompatible) (\<lambda>_.
     res_bind (validate_lifecycle (dget_default d ''status'' (JStr ''active'')) ''load'') (\<lambda>_.
     res_bind (load_workflow_nodes pr fs dir) (\<lambda>ns.
     res_bind (res_bind (read_json pr fs dir ''tools.manifest.json'') py_iter) (\<lambda>raw.
     res_bind (py_raise SchemaInvalid (read_all (validate_tool (pydantic_bool pr)) raw)) (\<lambda>tools.
     res_bind (read_yaml pr fs dir ''callbacks.yaml'') (\<lambda>cbd.
     res_bind (py_raise SchemaInvalid (validate_callbacks cbd)) (\<lambda>evs.
     res_bind (py_raise SchemaInvalid (validate_policy (dget_default d ''policy'' (JObj [])))) (\<lambda>pol.
     res_bind (validate_workflow_policy ns evs pol) (\<lambda>_.
     res_bind (validate_prompts fs dir (dget_default d ''prompts'' (JList []))) (\<lambda>prompts.
     res_bind (validate_node_prompt_refs ns prompts) (\<lambda>_.
     res_bind (load_evals pr fs dir) (\<lambda>evals.
     res_bind (ensure (5 \<le> length evals) TooFewEvals) (\<lambda>_.
     res_bind (build_package pr fs dir aid ver d pol ns tools evs (dget_default d ''prompts'' (JList [])) evals) (\<lambda>pkg.
     res_bind (remember_digest pkg reg) (\<lambda>reg'. Inr (pkg, reg')))))))))))))))))))))"

section \<open>Life cycle of a definition\<close>

definition set_definition ::
  "string \<Rightarrow> string \<Rightarrow> (agent_definition \<Rightarrow> agent_definition) \<Rightarrow> db \<Rightarrow> db" where
  "set_definition aid ver f s =
     s\<lparr>definitions := upd_where (\<lambda>d. d_agent_id d = aid \<and> d_version d = ver) f (definitions s)\<rparr>"

definition changed_row :: "string \<Rightarrow> string \<Rightarrow> string \<Rightarrow> time \<Rightarrow> agent_definition \<Rightarrow> agent_definition" where
  "changed_row st actor reason now d =
     (let d1 = d\<lparr>d_status := st, status_changed_at := Some now, status_changed_by := Some actor,
            status_change_reason := Some reason\<rparr>
      in if st = ''revoked'' then d1\<lparr>revoked_at := Some now, revocation_reason := Some reason\<rparr> else d1)"

definition change_definition_status ::
  "bool \<Rightarrow> string \<Rightarrow> string \<Rightarrow> string \<Rightarrow> string \<Rightarrow> string \<Rightarrow> string option \<Rightarrow> time \<Rightarrow> db \<Rightarrow> package_error + db" where
  "change_definition_status audited aid ver st actor reason tr now s =
     res_bind (validate_lifecycle (JStr st) ''status_change'') (\<lambda>_.
     res_bind (ensure (actor \<noteq> '''' \<and> reason \<noteq> '''') ActorOrReasonMissing) (\<lambda>_.
     let s1 = set_definition aid ver (changed_row st actor reason now) s
     in Inr (if audited then append_audit_record ''administrator'' actor ''agent_package_status_changed'' ''agent_definition''
            (aid @ ''@'' @ ver) (Some reason) ''accepted'' tr [(''status'', st)] now s1 else s1)))"

section \<open>Registration\<close>

definition policy_dump :: "package_policy \<Rightarrow> json" where
  "policy_dump p = JObj [(''waiting_human_timeout_action'', JStr (waiting_human_timeout_action p)),
     (''waiting_human_fallback_node'', opt_json JStr (waiting_human_fallback_node p)),
     (''max_model_calls'', opt_json JInt (max_model_calls p)),
     (''max_model_cost'', opt_json (\<lambda>q. JFloat (Fin q)) (max_model_cost p)),
     (''max_tokens'', opt_json JInt (max_tokens p)), (''max_steps'', opt_json JInt (max_steps p)),
     (''max_tool_calls'', opt_json JInt (max_tool_calls p)), (''max_run_seconds'', opt_json JInt (max_run_seconds p)),
     (''max_auto_retry_per_step'', opt_json JInt (max_auto_retry_per_step p))]"

fun mode_string :: "trace_mode \<Rightarrow> string" where
  "mode_string TraceNone = ''none''"
| "mode_string TraceStatusOnly = ''status_only''"
| "mode_string TracePublicSummary = ''public_summary''"

definition ui_dump :: "ui_trace_config \<Rightarrow> json" where
  "ui_dump u = JObj [(''mode'', JStr (mode_string (mode u))),
     (''step_labels'', JObj (map (\<lambda>(k, v). (k, JStr v)) (step_labels u)))]"

definition build_definition_json :: "agent_package \<Rightarrow> dict" where
  "build_definition_json pkg =
     [(''allowed_business_types'', JList (map JStr (pk_business_types pkg))),
      (''input_schema'', JObj (pk_input_schema pkg)), (''policy'', policy_dump (pk_policy pkg)),
      (''workflow_nodes'', JList (map node_dump (pk_nodes pkg))), (''ui_trace'', ui_dump (pk_ui_trace pkg))]"

definition registered_row :: "agent_package \<Rightarrow> time \<Rightarrow> agent_definition" where
  "registered_row pkg now = \<lparr>d_agent_id = pk_agent_id pkg, d_version = pk_version pkg,
     d_definition_json = build_definition_json pkg, d_package_digest = pk_digest pkg,
     d_contract_version = pk_contract_version pkg, runtime_type = ''workflow'', d_status = pk_status pkg,
     status_changed_at = Some now, status_changed_by = Some ''register_agent_package'',
     status_change_reason = Some ''register from deployed package files'', revoked_at = None, revocation_reason = None\<rparr>"

definition resync_row :: "agent_package \<Rightarrow> time \<Rightarrow> agent_definition \<Rightarrow> agent_definition" where
  "resync_row pkg now d = d\<lparr>d_definition_json := build_definition_json pkg, d_package_digest := pk_digest pkg,
     d_contract_version := pk_contract_version pkg, d_status := pk_status pkg, status_changed_at := Some now,
     status_changed_by := Some ''register_agent_package'',
     status_change_reason := Some ''re-register sync from package files''\<rparr>"

definition register ::
  "parsers \<Rightarrow> files \<Rightarrow> path \<Rightarrow> string \<Rightarrow> string \<Rightarrow> bool \<Rightarrow> time \<Rightarrow> db \<Rightarrow> package_error + db" where
  "register pr fs pkgs aid ver dry_run now s =
     res_bind (load_package pr fs pkgs aid ver []) (\<lambda>(pkg, _).
       if dry_run then Inr s
       else (case find_definition s aid ver of
           None \<Rightarrow> Inr (s\<lparr>definitions := definitions s @ [registered_row pkg now]\<rparr>)
         | Some d \<Rightarrow>
             if d_package_digest d = pk_digest pkg \<and> d_status d = pk_status pkg then Inr s
             else Inr (set_definition aid ver (resync_row pkg now) s)))"

section \<open>Lemmas\<close>

lemma py_raise_eq [res_simps]: "py_raise e x = Inr y \<longleftrightarrow> x = Some y"
  by (simp add: py_raise_def split: option.split)

lemma read_strs_Some: "read_strs js = Some xs \<longleftrightarrow> js = map JStr xs"
proof (induction js arbitrary: xs)
  case (Cons j js)
  then show ?case by (cases j; cases xs) auto
qed auto

lemma read_strs_map [simp]: "read_strs (map JStr xs) = Some xs"
  by (simp add: read_strs_Some)

lemma read_str_list_Some: "read_str_list j = Some xs \<longleftrightarrow> j = JList (map JStr xs)"
  by (cases j) (auto simp: read_strs_Some)

lemma read_str_Some: "read_str j = Some x \<longleftrightarrow> j = JStr x"
  by (cases j) auto

lemma read_all_length: "read_all f xs = Some ys \<Longrightarrow> length ys = length xs"
  by (induction xs arbitrary: ys) (auto split: option.split_asm)


lemma validate_prompts_list:
  "validate_prompts fs dir j = Inr js \<Longrightarrow> read_str_list j = Some ps \<Longrightarrow> js = map JStr ps"
  by (auto simp: validate_prompts_def res_simps read_str_list_Some)

lemma build_package_Inr:
  assumes "build_package pr fs dir aid ver d pol ns tools evs prompts evals = Inr pkg"
  shows "pk_agent_id pkg = aid" "pk_version pkg = ver" "pk_contract_version pkg = contract_version_const"
    "dget_default d ''status'' (JStr ''active'') = JStr (pk_status pkg)" "pk_policy pkg = pol" "pk_nodes pkg = ns"
    "pk_tools pkg = tools" "pk_callbacks pkg = evs" "read_str_list prompts = Some (pk_prompts pkg)"
    "length (pk_evals pkg) = length evals" "pk_digest pkg = digest pr fs dir" "ns \<noteq> []"
  using assms
  by (auto simp: build_package_def res_simps read_str_Some dest: read_all_length)

lemma load_package_Inr:
  assumes "load_package pr fs pkgs aid ver reg = Inr (pkg, reg')"
  obtains dir d raw cbd prompts evals where "parent_of pkgs dir" "read_yaml pr fs dir ''agent.yaml'' = Inr d"
    "validate_lifecycle (dget_default d ''status'' (JStr ''active'')) ''load'' = Inr ()"
    "load_workflow_nodes pr fs dir = Inr (pk_nodes pkg)"
    "read_all (validate_tool (pydantic_bool pr)) raw = Some (pk_tools pkg)"
    "validate_callbacks cbd = Some (pk_callbacks pkg)"
    "validate_policy (dget_default d ''policy'' (JObj [])) = Some (pk_policy pkg)"
    "validate_workflow_policy (pk_nodes pkg) (pk_callbacks pkg) (pk_policy pkg) = Inr ()"
    "validate_node_prompt_refs (pk_nodes pkg) (map JStr (pk_prompts pkg)) = Inr ()"
    "length (pk_evals pkg) \<ge> 5" "pk_nodes pkg \<noteq> []" "pk_agent_id pkg = aid" "pk_version pkg = ver"
    "pk_contract_version pkg = contract_version_const"
    "dget_default d ''status'' (JStr ''active'') = JStr (pk_status pkg)"
    "pk_digest pkg = digest pr fs dir" "remember_digest pkg reg = Inr reg'"
    "dir = resolve_parts [] (join_path (join_path pkgs aid) ver)" "validate_required_files fs dir = Inr ()"
    "validate_identity d aid ver = Inr ()" "dget d ''contract_version'' = JStr contract_version_const"
    "validate_prompt_items fs dir (map JStr (pk_prompts pkg)) = Inr ()"
    "aid \<noteq> ''''" "ver \<noteq> ''''" "ver \<noteq> ''latest''"
proof -
  obtain dir where dir: "dir = resolve_parts [] (join_path (join_path pkgs aid) ver)" by blast
  from assms obtain d ns raw0 raw tools cbd evs pol prompts evals where
    1: "parent_of pkgs dir" "read_yaml pr fs dir ''agent.yaml'' = Inr d"
    "validate_lifecycle (dget_default d ''status'' (JStr ''active'')) ''load'' = Inr ()"
    "load_workflow_nodes pr fs dir = Inr ns" and
    0: "validate_required_files fs dir = Inr ()" "validate_identity d aid ver = Inr ()"
    "dget d ''contract_version'' = JStr contract_version_const" "aid \<noteq> ''''" "ver \<noteq> ''''" "ver \<noteq> ''latest''" and
    2: "read_all (validate_tool (pydantic_bool pr)) raw = Some tools"
    "validate_callbacks cbd = Some evs" "validate_policy (dget_default d ''policy'' (JObj [])) = Some pol"
    "validate_workflow_policy ns evs pol = Inr ()" and
    3: "validate_prompts fs dir (dget_default d ''prompts'' (JList [])) = Inr prompts"
    "validate_node_prompt_refs ns prompts = Inr ()" "5 \<le> length evals" and
    4: "build_package pr fs dir aid ver d pol ns tools evs (dget_default d ''prompts'' (JList [])) evals = Inr pkg"
    "remember_digest pkg reg = Inr reg'"
    by (simp add: load_package_def Let_def res_simps flip: dir) blast
  note b = build_package_Inr [OF 4(1)]
  note pl = validate_prompts_list [OF 3(1) b(9)]
  have "validate_prompt_items fs dir prompts = Inr ()"
    using 3(1) by (auto simp: validate_prompts_def res_simps)
  then show thesis
    by (intro that [of dir d raw cbd]) (use 0 1 2 3(2,3) 4(2) b pl dir in simp_all)
qed


text \<open>The digest is a function of the managed files: neither the order in which the directory
  lists them nor signatures, metadata and compiled caches change it.\<close>

lemma digest_of_managed_files:
  assumes "mset (filter (\<lambda>f. managed_file (fst f)) (package_files fs dir)) =
      mset (filter (\<lambda>f. managed_file (fst f)) (package_files fs' dir))"
    and "distinct (map fst fs)"
  shows "digest pr fs dir = digest pr fs' dir"
proof -
  let ?m = "\<lambda>fs. filter (\<lambda>f. managed_file (fst f)) (package_files fs dir)"
  have "inj_on fst (set (?m fs))"
    by (rule inj_on_subset [of _ "set fs"]) (use assms(2) in \<open>auto simp: distinct_map package_files_def\<close>)
  then have "sort_key fst (?m fs) = sort_key fst (?m fs')"
    using assms(1) by (intro sort_key_inj_key_eq) simp_all
  then show ?thesis by (simp add: digest_def package_bytes_def)
qed

subsection \<open>Validated nodes\<close>

definition node_valid :: "workflow_node \<Rightarrow> bool" where
  "node_valid n \<longleftrightarrow> node_id n \<noteq> '''' \<and> node_type n \<in> set node_types \<and> node_rules n \<and>
     (\<forall>p. node_loop_policy n = Some p \<longrightarrow> validate_loop_schema (loop_dump p) = Some p)"

lemma literal_Some: "literal ls j = Some x \<longleftrightarrow> j = JStr x \<and> x \<in> set ls"
  by (cases j) (auto simp: literal_def)

lemma required_Some: "required d k rd = Some x \<longleftrightarrow> (\<exists>v. map_of d k = Some v \<and> rd v = Some x)"
  by (auto simp: required_def split: option.split)

lemma loop_schema_roundtrip:
  assumes "validate_loop_schema j = Some p"
  shows "validate_loop_schema (loop_dump p) = Some p"
proof (cases j)
  case (JObj d)
  with assms have "body_node_ids p \<noteq> []" "budget_strategy p = ''inherit_run_limits_v1''"
    "merge_strategy p = ''append_unique_by_key''" "merge_key p = ''scene_id''" "on_iteration_error p = ''continue''"
    "on_budget_exhausted p \<in> {''partial'', ''failed''}"
    by (auto simp: required_Some literal_Some split: if_split_asm option.split_asm)
  then show ?thesis
    by (cases p) (auto simp: loop_dump_def keys_within_def required_def literal_def)
qed (use assms in auto)

lemma read_loop_policy_Some: "read_loop_policy j = Some (Some p) \<Longrightarrow> validate_loop_schema j = Some p"
  by (cases j) auto

lemma validate_node_valid:
  assumes "validate_node pb j = Some n"
  shows "node_valid n"
proof (cases j)
  case (JObj d)
  from assms have lp: "field d ''loop_policy'' None read_loop_policy = Some (node_loop_policy n)"
    "literal node_types (the (map_of d ''node_type'')) = Some (node_type n)" "node_rules n" "node_id n \<noteq> ''''"
    by (auto simp: JObj Let_def required_def split: if_split_asm option.split_asm)
  have "validate_loop_schema (loop_dump p) = Some p" if "node_loop_policy n = Some p" for p
    using lp(1) that
    by (auto simp: field_def intro!: loop_schema_roundtrip dest: read_loop_policy_Some split: option.split_asm)
  with lp(2-4) show ?thesis by (auto simp: node_valid_def literal_Some)
qed (use assms in simp_all)

lemma validate_nodes_all_valid: "validate_nodes pb js = Some ns \<Longrightarrow> n \<in> set ns \<Longrightarrow> node_valid n"
  by (induction js arbitrary: ns) (auto dest: validate_node_valid split: option.split_asm)

lemma validate_node_dump:
  assumes "node_valid n" "\<And>b. pb (JBool b) = Some b"
  shows "validate_node pb (node_dump n) = Some n"
proof -
  have l: "read_loop_policy (opt_json loop_dump (node_loop_policy n)) = Some (node_loop_policy n)"
    using assms(1) by (cases "node_loop_policy n") (auto simp: opt_json_def node_valid_def loop_dump_def)
  have p: "read_opt_str (opt_json JStr (prompt_ref n)) = Some (prompt_ref n)"
    by (cases "prompt_ref n") (simp_all add: opt_json_def)
  show ?thesis
    using assms l p
    by (cases n) (auto simp: node_dump_def keys_within_def required_def field_def literal_def node_valid_def)
qed

lemma freeze_dumps:
  assumes "\<And>n. n \<in> set ns \<Longrightarrow> node_valid n" "\<And>b. pb (JBool b) = Some b"
  shows "freeze_definition_steps pb (JList (map node_dump ns)) = Inr (map node_dump ns)"
proof -
  have "validate_nodes pb (map node_dump ns) = Some ns"
    using assms(1) by (induction ns) (simp_all add: validate_node_dump [OF _ assms(2)])
  moreover have "list_all declares_rerun (map node_dump ns)"
    by (simp add: list_all_iff declares_rerun_def node_dump_def has_key_def)
  ultimately show ?thesis by (simp add: freeze_definition_steps_def)
qed

lemma read_limit_dump: "read_limit j = Some x \<Longrightarrow> read_limit (opt_json JInt x) = Some x"
  by (cases j) (auto simp: opt_json_def split: if_split_asm)

lemma read_cost_dump: "read_cost j = Some x \<Longrightarrow> read_cost (opt_json (\<lambda>q. JFloat (Fin q)) x) = Some x"
  by (cases j rule: read_cost.cases) (auto simp: opt_json_def split: if_split_asm)

lemma field_limit:
  "field d k None read_limit = Some x \<Longrightarrow> read_limit (opt_json JInt x) = Some x"
  "field d k None read_cost = Some y \<Longrightarrow> read_cost (opt_json (\<lambda>q. JFloat (Fin q)) y) = Some y"
  by (auto simp: field_def opt_json_def dest: read_limit_dump read_cost_dump split: option.split_asm)

lemma read_opt_str_dump: "read_opt_str (opt_json JStr x) = Some x"
  by (cases x) (simp_all add: opt_json_def)

lemma policy_roundtrip:
  assumes "validate_policy j = Some p"
  shows "validate_policy (policy_dump p) = Some p"
proof (cases j)
  case (JObj d)
  from assms have lims: "field d ''max_model_calls'' None read_limit = Some (max_model_calls p)"
    "field d ''max_model_cost'' None read_cost = Some (max_model_cost p)"
    "field d ''max_tokens'' None read_limit = Some (max_tokens p)" "field d ''max_steps'' None read_limit = Some (max_steps p)"
    "field d ''max_tool_calls'' None read_limit = Some (max_tool_calls p)"
    "field d ''max_run_seconds'' None read_limit = Some (max_run_seconds p)"
    "field d ''max_auto_retry_per_step'' None read_limit = Some (max_auto_retry_per_step p)"
    and act: "field d ''waiting_human_timeout_action'' ''failed'' (literal [''fallback'', ''failed'', ''cancelled'']) =
      Some (waiting_human_timeout_action p)"
    and fb: "\<not> (waiting_human_timeout_action p = ''fallback'' \<and>
      (waiting_human_fallback_node p = None \<or> waiting_human_fallback_node p = Some ''''))"
    by (auto simp: JObj split: if_split_asm option.split_asm)
  have "waiting_human_timeout_action p \<in> {''fallback'', ''failed'', ''cancelled''}"
    using act by (auto simp: field_def literal_Some split: option.split_asm)
  then show ?thesis
    using fb lims(1,3-7) [THEN field_limit(1)] field_limit(2) [OF lims(2)]
    by (cases p) (auto simp: policy_dump_def keys_within_def policy_fields_def field_def literal_def read_opt_str_dump)
qed (use assms in auto)

subsection \<open>What the checks establish\<close>









lemma loaded_nodes_valid:
  assumes "load_workflow_nodes pr fs dir = Inr ns" "n \<in> set ns"
  shows "node_valid n"
proof -
  from assms(1) obtain raw where
    "(case raw of JList js \<Rightarrow> py_raise SchemaInvalid (validate_nodes (pydantic_bool pr) js) | _ \<Rightarrow> Inl NodesNotList) = Inr ns"
    by (auto simp: load_workflow_nodes_def res_simps split: option.split_asm)
  with assms(2) show ?thesis by (cases raw) (auto simp: res_simps intro: validate_nodes_all_valid)
qed


lemma find_definition_set:
  assumes "\<And>d. d_agent_id (f d) = d_agent_id d \<and> d_version (f d) = d_version d"
  shows "find_definition (set_definition aid ver f s) aid ver = map_option f (find_definition s aid ver)"
proof -
  have "sel_one P (upd_where P f xs) = map_option f (sel_one P xs)"
    if "P = (\<lambda>d. d_agent_id d = aid \<and> d_version d = ver)" for P and xs :: "agent_definition list"
    using assms that by (induction xs) auto
  then show ?thesis by (simp add: find_definition_def set_definition_def)
qed

lemma find_definition_append:
  "find_definition s aid ver = None \<Longrightarrow> d_agent_id d = aid \<Longrightarrow> d_version d = ver \<Longrightarrow>
    find_definition (s\<lparr>definitions := definitions s @ [d]\<rparr>) aid ver = Some d"
  by (simp add: find_definition_def sel_one_append)

lemma find_definition_audit [simp]:
  "find_definition (append_audit_record a b c d e f g h i now s) aid ver = find_definition s aid ver"
  by (simp add: find_definition_def append_audit_record_def uuid4_def)

lemma registered_row_key [simp]:
  "d_agent_id (registered_row pkg now) = pk_agent_id pkg" "d_version (registered_row pkg now) = pk_version pkg"
  "d_package_digest (registered_row pkg now) = pk_digest pkg" "d_status (registered_row pkg now) = pk_status pkg"
  "d_definition_json (registered_row pkg now) = build_definition_json pkg"
  by (simp_all add: registered_row_def)

lemma changed_row_cols [simp]:
  "d_agent_id (changed_row st a r now d) = d_agent_id d" "d_version (changed_row st a r now d) = d_version d"
  "d_status (changed_row st a r now d) = st" "d_package_digest (changed_row st a r now d) = d_package_digest d"
  by (simp_all add: changed_row_def Let_def)

lemma status_change_row:
  assumes "change_definition_status au aid ver st actor reason tr now s = Inr s'"
  shows "find_definition s' aid ver = map_option (changed_row st actor reason now) (find_definition s aid ver)"
  using assms by (auto simp: change_definition_status_def res_simps Let_def find_definition_set)

lemma change_status_sound:
  assumes "change_definition_status au aid ver st actor reason tr now s = Inr s'" "inv_db s"
  shows "sound s s'"
proof -
  have 1: "sound s (set_definition aid ver f s)" for f
    by (rule sound_frame [OF assms(2)]) (simp_all add: set_definition_def)
  then have "sound s (append_audit_record a b c d e f' g h i now (set_definition aid ver f s))" for a b c d e f' g h i f
    using sound_trans step_audit soundD(1) by blast
  with 1 assms(1) show ?thesis by (auto simp: change_definition_status_def res_simps Let_def)
qed

lemma register_sound:
  assumes "register pr fs pkgs aid ver dry now s = Inr s'" "inv_db s"
  shows "sound s s'"
  using assms by (auto simp: register_def res_simps set_definition_def intro: sound_refl sound_frame
      split: if_split_asm option.split_asm)

section \<open>Properties\<close>


text \<open>C22. Registration and planning round trip: the definition row written for a package freezes, for every run created from
  it, exactly the nodes of the package in its order, and its policy is read back as it was validated. The schema
  library is assumed to read a boolean as itself.\<close>

theorem registered_plan_roundtrip:
  assumes "register pr fs pkgs aid ver False now s = Inr s'" "find_definition s aid ver = None"
    and "\<And>b. pb (JBool b) = Some b"
  shows "\<exists>pkg d. load_package pr fs pkgs aid ver [] = Inr (pkg, [((aid, ver), pk_digest pkg)]) \<and>
    find_definition s' aid ver = Some d \<and> d_package_digest d = pk_digest pkg \<and>
    validate_policy (dget (d_definition_json d) ''policy'') = Some (pk_policy pkg) \<and>
    (\<forall>rid t. \<exists>plan t'. create_plan_from_definition pb rid (d_definition_json d) t = Inr (plan, t') \<and>
       steps_json plan = map node_dump (pk_nodes pkg) \<and> p_run_id plan = rid)"
proof -
  from assms(1) obtain pkg reg where l: "load_package pr fs pkgs aid ver [] = Inr (pkg, reg)"
    and s': "s' = s\<lparr>definitions := definitions s @ [registered_row pkg now]\<rparr>"
    using assms(2) by (auto simp: register_def res_simps)
  from l show ?thesis
  proof (rule load_package_Inr)
    fix dir d raw cbd
    assume n: "load_workflow_nodes pr fs dir = Inr (pk_nodes pkg)"
      and pol: "validate_policy (dget_default d ''policy'' (JObj [])) = Some (pk_policy pkg)"
      and i: "pk_agent_id pkg = aid" "pk_version pkg = ver" and rg: "remember_digest pkg [] = Inr reg"
    have d: "find_definition s' aid ver = Some (registered_row pkg now)"
      using assms(2) i by (simp add: s' find_definition_append)
    have "freeze_definition_steps pb (JList (map node_dump (pk_nodes pkg))) = Inr (map node_dump (pk_nodes pkg))"
      by (rule freeze_dumps) (use loaded_nodes_valid [OF n] assms(3) in auto)
    then have "\<exists>plan t'. create_plan_from_definition pb rid (d_definition_json (registered_row pkg now)) t = Inr (plan, t') \<and>
       steps_json plan = map node_dump (pk_nodes pkg) \<and> p_run_id plan = rid" for rid t
      by (simp add: create_plan_from_definition_def build_definition_json_def dget_default_def uuid4_def)
    moreover have "reg = [((aid, ver), pk_digest pkg)]" using rg i by (auto simp: remember_digest_def)
    ultimately show ?thesis
      using l d policy_roundtrip [OF pol]
      by (intro exI [of _ pkg] exI [of _ "registered_row pkg now"])
         (simp add: build_definition_json_def dget_def)
  qed
qed

text \<open>A run whose package is registered with a status other than active cannot go on: no lease
  context of it can write or finish it, and it can be neither started nor retried nor approved.
  In the code this holds for a deprecated package as well, although the design documents let its
  runs finish.\<close>

lemma inactive_package_stops_runs:
  assumes "find_run s rid = Some r" "find_definition s (agent_id r) (agent_version r) = Some d" "d_status d \<noteq> ''active''"
  shows "\<not> package_executable s r" "\<not> can_write rid ctx t s"
    "res_run_id result = rid \<Longrightarrow> finish result ctx t s = Inr (False, s)"
    "start sv rid caller v t s \<noteq> Inr x" "retry sv rid caller aud v t s \<noteq> Inr x" "approve sv rid caller dec w t s \<noteq> Inr x"
proof -
  show ne: "\<not> package_executable s r" using assms(2,3) by (simp add: package_executable_def)
  then show cw: "\<not> can_write rid ctx t s" using assms(1) by (simp add: can_write_def)
  show "start sv rid caller v t s \<noteq> Inr x" "retry sv rid caller aud v t s \<noteq> Inr x" "approve sv rid caller dec w t s \<noteq> Inr x"
    using ne assms(1) by (auto simp: start_def retry_def approve_def res_simps Let_def)
  show "res_run_id result = rid \<Longrightarrow> finish result ctx t s = Inr (False, s)" using cw by (simp add: finish_def)
qed

lemma inactive_package_no_create:
  assumes "find_definition s (cc_agent_id cmd) (cc_agent_version cmd) = Some d" "d_status d \<noteq> ''active''"
  shows "create pb sv cmd caller tenant ikey auth t s \<noteq> Inr x"
  using assms by (auto simp: create_def res_simps)

text \<open>C23. Revoking a package is on record and takes effect at once. The registered row names the
  status, the actor, the reason and the time; and in every later state of the database, as long as
  the registry stays as the revocation left it, no run of the package is created, no
  lease context of an existing one can write or finish it, none can be started, retried or approved, and a pass of the reaper
  that completes ends each of them whose lease has expired as cancelled with PACKAGE_REVOKED instead of requeueing it.\<close>

theorem revocation_stops_runs:
  assumes c: "change_definition_status au aid ver ''revoked'' actor reason tr now s = Inr s'"
    and d: "find_definition s aid ver = Some d" and inv: "inv_db s''"
    and same: "definitions s'' = definitions s'" and r: "find_run s'' rid = Some r" "agent_id r = aid" "agent_version r = ver"
  shows "(\<exists>d'. find_definition s' aid ver = Some d' \<and> d_status d' = ''revoked'' \<and> revoked_at d' = Some now \<and>
      revocation_reason d' = Some reason \<and> status_changed_by d' = Some actor \<and> d_package_digest d' = d_package_digest d \<and>
      d_definition_json d' = d_definition_json d) \<and>
    \<not> can_write rid ctx t s'' \<and> (res_run_id result = rid \<longrightarrow> finish result ctx t s'' = Inr (False, s'')) \<and>
    (\<forall>x. start sv rid caller v t s'' \<noteq> Inr x \<and> retry sv rid caller aud v t s'' \<noteq> Inr x \<and>
       approve sv rid caller dec w t s'' \<noteq> Inr x) \<and>
    (cc_agent_id cmd = aid \<and> cc_agent_version cmd = ver \<longrightarrow>
       (\<forall>x. create pb sv cmd caller tenant ikey auth t s'' \<noteq> Inr x)) \<and>
    (\<forall>out s3. dispatch_state r = Claimed \<and> before (lease_expires_at r) t \<and> reap_expired t s'' = Inr (out, s3) \<longrightarrow>
       rid \<notin> set out \<and> (\<exists>r'. find_run s3 rid = Some r' \<and> status r' = Cancelled \<and> dispatch_state r' = Finished \<and>
         lease_owner r' = None \<and> error_code r' = Some ''PACKAGE_REVOKED''))"
proof -
  let ?d = "changed_row ''revoked'' actor reason now d"
  have d': "find_definition s' aid ver = Some ?d" using status_change_row [OF c] d by simp
  have row: "\<exists>d'. find_definition s' aid ver = Some d' \<and> d_status d' = ''revoked'' \<and> revoked_at d' = Some now \<and>
      revocation_reason d' = Some reason \<and> status_changed_by d' = Some actor \<and> d_package_digest d' = d_package_digest d \<and>
      d_definition_json d' = d_definition_json d"
    using d' by (simp add: changed_row_def)
  have d'': "find_definition s'' aid ver = Some ?d" using d' same by (simp add: find_definition_def)
  have na: "d_status ?d \<noteq> ''active''" by simp
  note stop = inactive_package_stops_runs [OF r(1) d'' [folded r(2,3)] na]
  have new: "create pb sv cmd caller tenant ikey auth t s'' \<noteq> Inr x" if "cc_agent_id cmd = aid \<and> cc_agent_version cmd = ver" for x
    using inactive_package_no_create [of s'' cmd, OF _ na] d'' that by simp
  have reap: "rid \<notin> set out \<and> (\<exists>r'. find_run s3 rid = Some r' \<and> status r' = Cancelled \<and> dispatch_state r' = Finished \<and>
         lease_owner r' = None \<and> error_code r' = Some ''PACKAGE_REVOKED'')"
    if "dispatch_state r = Claimed \<and> before (lease_expires_at r) t \<and> reap_expired t s'' = Inr (out, s3)" for out s3
    using reap_expired_exact [OF inv, of t out s3] that r(1) stop(1) by (auto simp: revoked_row_def)
  have fin: "res_run_id result = rid \<longrightarrow> finish result ctx t s'' = Inr (False, s'')" using stop(3) by blast
  have ops: "\<forall>x. start sv rid caller v t s'' \<noteq> Inr x \<and> retry sv rid caller aud v t s'' \<noteq> Inr x \<and>
       approve sv rid caller dec w t s'' \<noteq> Inr x" by (intro allI conjI stop(4-6))
  have new': "cc_agent_id cmd = aid \<and> cc_agent_version cmd = ver \<longrightarrow>
       (\<forall>x. create pb sv cmd caller tenant ikey auth t s'' \<noteq> Inr x)" by (intro impI allI new)
  have reap': "\<forall>out s3. dispatch_state r = Claimed \<and> before (lease_expires_at r) t \<and> reap_expired t s'' = Inr (out, s3) \<longrightarrow>
       rid \<notin> set out \<and> (\<exists>r'. find_run s3 rid = Some r' \<and> status r' = Cancelled \<and> dispatch_state r' = Finished \<and>
         lease_owner r' = None \<and> error_code r' = Some ''PACKAGE_REVOKED'')" by (intro allI impI reap)
  show ?thesis by (intro conjI row stop(2) fin ops new' reap')
qed

text \<open>Registering the deployed files again takes a revocation back: after an administrator revoked a registered package
  whose file still says active, the registration script makes its runs executable again, with no
  administrator, reason or audit record of its own.\<close>

lemma reregister_undoes_revocation:
  assumes "register pr fs pkgs aid ver False t1 s = Inr s1" "find_definition s aid ver = None"
    and "load_package pr fs pkgs aid ver [] = Inr (pkg, reg)" "pk_status pkg = ''active''"
    and "change_definition_status au aid ver ''revoked'' actor reason tr t2 s1 = Inr s2"
  shows "\<exists>s3. register pr fs pkgs aid ver False t3 s2 = Inr s3 \<and> audits s3 = audits s2 \<and>
    (\<forall>r. agent_id r = aid \<longrightarrow> agent_version r = ver \<longrightarrow> package_digest r = pk_digest pkg \<longrightarrow>
       \<not> package_executable s2 r \<and> package_executable s3 r)"
proof -
  have i: "pk_agent_id pkg = aid" "pk_version pkg = ver" using load_package_Inr [OF assms(3)] by blast+
  have "find_definition s1 aid ver = Some (registered_row pkg t1)"
    using assms(1-3) i by (auto simp: register_def res_simps find_definition_append)
  then have d2: "find_definition s2 aid ver = Some (changed_row ''revoked'' actor reason t2 (registered_row pkg t1))"
    using status_change_row [OF assms(5)] by simp
  then have r: "register pr fs pkgs aid ver False t3 s2 = Inr (set_definition aid ver (resync_row pkg t3) s2)"
    using assms(3,4) by (simp add: register_def)
  have "find_definition (set_definition aid ver (resync_row pkg t3) s2) aid ver =
     Some (resync_row pkg t3 (changed_row ''revoked'' actor reason t2 (registered_row pkg t1)))"
    using d2 by (simp add: find_definition_set resync_row_def)
  with r d2 assms(4) show ?thesis
    by (auto simp: package_executable_def set_definition_def resync_row_def)
qed

section \<open>A concrete package\<close>

definition demo_doc :: "string \<Rightarrow> json option" where
  "demo_doc = map_of [(''agent'', JObj [(''agent_id'', JStr ''memoir''), (''version'', JStr ''1''),
       (''contract_version'', JStr ''1.0.0''), (''status'', JStr ''active''), (''allowed_business_types'', JList [JStr ''memoir'']), (''prompts'', JList [JStr ''p.md''])]),
     (''schema'', JObj [(''type'', JStr ''object'')]), (''obj'', JObj []), (''list'', JList [])]"

definition demo_parsers :: parsers where
  "demo_parsers = \<lparr>yaml_load = demo_doc, json_loads = demo_doc,
     ast_parse = (\<lambda>_. Some [OtherStatement, AssignName ''WORKFLOW_NODES'' (Some (JList
        [JObj [(''node_id'', JStr ''a''), (''node_type'', JStr ''model''), (''prompt_ref'', JStr ''p.md'')],
         JObj [(''node_id'', JStr ''publish_document''), (''node_type'', JStr ''tool'')],
         JObj [(''node_id'', JStr ''z''), (''node_type'', JStr ''deterministic''), (''optional'', JBool True)]]))]),
     sha256_hex = (\<lambda>x. x), pydantic_bool = (\<lambda>j. case j of JBool b \<Rightarrow> Some b | _ \<Rightarrow> None)\<rparr>"

definition demo_files :: files where
  "demo_files = map (\<lambda>(p, c). ([''srv'', ''memoir'', ''1''] @ p, c))
     [([''agent.yaml''], ''agent''), ([''callbacks.yaml''], ''obj''), ([''guardrails.yaml''], ''obj''),
      ([''input.schema.json''], ''schema''), ([''output.schema.json''], ''obj''), ([''tools.manifest.json''], ''list''),
      ([''ui-trace.yaml''], ''obj''), ([''workflow.graph.py''], ''graph''), ([''prompts'', ''p.md''], ''prompt''),
      ([''evals'', ''minimal.jsonl''], concat (replicate 5 (''obj'' @ [CHR 0x0A])))]"

lemma demo_load: "\<exists>pkg reg. load_package demo_parsers demo_files [''srv''] ''memoir'' ''1'' [] = Inr (pkg, reg) \<and>
   pk_status pkg = ''active''"
proof -
  let ?l = "load_package demo_parsers demo_files [''srv''] ''memoir'' ''1'' []"
  have "(case ?l of Inl _ \<Rightarrow> False | Inr (pkg, reg) \<Rightarrow> pk_status pkg = ''active'')" by code_simp
  then show ?thesis by (auto split: sum.split_asm)
qed


theorem registered_plan_roundtrip_witness:
  "\<exists>s' d. register demo_parsers demo_files [''srv''] ''memoir'' ''1'' False 5 empty_db = Inr s' \<and>
     find_definition s' ''memoir'' ''1'' = Some d"
proof -
  obtain pkg reg where l: "load_package demo_parsers demo_files [''srv''] ''memoir'' ''1'' [] = Inr (pkg, reg)"
    using demo_load by blast
  have n: "find_definition empty_db ''memoir'' ''1'' = None" by (simp add: find_definition_def empty_db_def)
  from l n obtain s' where r: "register demo_parsers demo_files [''srv''] ''memoir'' ''1'' False 5 empty_db = Inr s'"
    by (simp add: register_def)
  from registered_plan_roundtrip [OF r n, where pb = "\<lambda>j. case j of JBool b \<Rightarrow> Some b | _ \<Rightarrow> None"] r
  show ?thesis by auto
qed

theorem revocation_stops_runs_witness:
  "\<exists>s'. change_definition_status True ''memoir'' ''1'' ''revoked'' ''admin'' ''r'' None 5 (demo_db demo_claimed) = Inr s' \<and>
     (\<forall>ctx. \<not> can_write ''0'' ctx 9 s') \<and>
     (\<exists>out s3 r'. reap_expired (seconds 61) s' = Inr (out, s3) \<and> find_run s3 ''0'' = Some r' \<and>
        error_code r' = Some ''PACKAGE_REVOKED'')"
proof -
  let ?c = "change_definition_status True ''memoir'' ''1'' ''revoked'' ''admin'' ''r'' None 5 (demo_db demo_claimed)"
  have "\<not> isl ?c \<and> \<not> isl (reap_expired (seconds 61) (projr ?c)) \<and> find_run (projr ?c) ''0'' = Some demo_claimed" by code_simp
  then obtain s' where c: "?c = Inr s'" and r: "find_run s' ''0'' = Some demo_claimed"
    and "\<not> isl (reap_expired (seconds 61) s')" by (cases ?c) auto
  then obtain out s3 where rp: "reap_expired (seconds 61) s' = Inr (out, s3)" using result_pair by blast
  have "find_definition (demo_db demo_claimed) ''memoir'' ''1'' \<noteq> None" by code_simp
  then obtain d where d: "find_definition (demo_db demo_claimed) ''memoir'' ''1'' = Some d" by blast
  have inv: "inv_db s'" by (rule soundD(1) [OF change_status_sound [OF c inv_demo_claimed]])
  have a: "agent_id demo_claimed = ''memoir''" "agent_version demo_claimed = ''1''"
    "dispatch_state demo_claimed = Claimed" "before (lease_expires_at demo_claimed) (seconds 61)" by code_simp+
  note stops = revocation_stops_runs [OF c d inv HOL.refl r a(1,2)]
  have "\<forall>ctx. \<not> can_write ''0'' ctx 9 s'" using stops by blast
  moreover have "\<exists>r'. find_run s3 ''0'' = Some r' \<and> error_code r' = Some ''PACKAGE_REVOKED''"
    using stops [where t = "seconds 61"] a(3,4) rp by blast
  ultimately show ?thesis using c rp by blast
qed

end
