(* ===== verification/System.thy ===== *)
theory System
  imports Run_Api Worker Reconciler Tool_Calls Agent_Package
begin

text \<open>
  The runtime as a whole. \<open>system_step\<close> is one transaction of one of its processes on the shared
  database: a request to the API, a pass of a Worker or of the reconciler, a single lease, model or tool
  operation of a Worker that is in the middle of a run, or an administrator's action. The
  processes interleave freely.

  Two things are shown of it. Every reachable database satisfies the ledger invariant. And the
  database refines a much smaller specification, the run register: for every run an owner, a
  lease counter, a privacy barrier, a stop flag, a final outcome and a list of
  numbered facts, which change only by six simple rules. The locale \<open>simulation\<close> is the argument both
  rest on.
\<close>

section \<open>The steps of the system\<close>

inductive system_step :: "db \<Rightarrow> db \<Rightarrow> bool" where
  create: "api_create pb st cmd caller tenant key dg now s = (h, s') \<Longrightarrow> system_step s s'"
| start: "api_start st rid caller v key dg now s = (h, s') \<Longrightarrow> system_step s s'"
| cancel: "api_cancel rid caller why key dg now s = (h, s') \<Longrightarrow> system_step s s'"
| retry: "api_retry st rid caller v key dg now s = (h, s') \<Longrightarrow> system_step s s'"
| approve: "api_approve st rid caller dec w key dg now s = (h, s') \<Longrightarrow> system_step s s'"
| purge: "api_purge rid caller why key dg now s = (h, s') \<Longrightarrow> system_step s s'"
| read: "get_run rid caller aud now s = Inr (dt, s') \<Longrightarrow> system_step s s'"
| worker: "worker_ok wk \<Longrightarrow> worker_pass wk now s = (out, s') \<Longrightarrow> system_step s s'"
| heartbeat: "heartbeat ls rid ctx now s = (ok, ctx', s') \<Longrightarrow> system_step s s'"
| finish: "finish res ctx now s = Inr (ok, s') \<Longrightarrow> system_step s s'"
| give_up: "finish_after_invalid_boundary rid ctx now s = Inr (ok, s') \<Longrightarrow> system_step s s'"
| pause: "pause_for_human rid ctx tmo now s = Inr (ok, s') \<Longrightarrow> system_step s s'"
| drain: "release_for_drain rid ctx now s = (ok, s') \<Longrightarrow> system_step s s'"
| auto_retry: "record_auto_retry rid stp s = Inr s' \<Longrightarrow> system_step s s'"
| reserve: "reserve c rt now s = (code, uid, s') \<Longrightarrow> system_step s s'"
| elapsed: "record_active_elapsed c e now s = (ok, s') \<Longrightarrow> system_step s s'"
| tool_begin: "begin_call q lc now s = (out, s') \<Longrightarrow> system_step s s'"
| tool_result: "persist_result rec st err res lc now s = (ok, s') \<Longrightarrow> system_step s s'"
| reconcile: "reconciler_cycle rc now s = (out, s') \<Longrightarrow> system_step s s'"
| cleanup: "cleanup_expired now s = (n, s') \<Longrightarrow> system_step s s'"
| purged: "complete_purge rid now s = Inr (ok, s') \<Longrightarrow> system_step s s'"
| replayed: "replay_dead_letter oid s = Inr (ok, s') \<Longrightarrow> system_step s s'"
| registered: "register pr fs pkgs aid ver dry now s = Inr s' \<Longrightarrow> system_step s s'"
| lifecycle: "change_definition_status au aid ver st actor reason tr now s = Inr s' \<Longrightarrow> system_step s s'"

lemma persist_result_sound: "inv_db s \<Longrightarrow> persist_result rec st err res lc now s = (ok, s') \<Longrightarrow> sound s s'"
  by (rule sound_frame) (auto simp: persist_result_def split: if_split_asm)

lemma begin_call_sound:
  assumes "inv_db s" "begin_call q lc now s = (out, s')"
  shows "sound s s'"
  using begin_call_cases [of q lc now s] assms by (metis prod.inject)

lemma system_step_sound:
  assumes "system_step s s'" "inv_db s"
  shows "sound s s'"
  using assms
proof (induction rule: system_step.induct)
  case (cleanup now s n s')
  then show ?case using cleanup_sound [of s now] by simp
next
  case (reconcile rc now s out s')
  then show ?case using reconciler_cycle_sound [of s rc now] by simp
next
  case (replayed oid s ok s')
  then show ?case using replay_sound_dead by blast
qed (blast intro: api_sound get_run_sound worker_pass_sound heartbeat_sound finish_sound finish_after_invalid_boundary_sound
    pause_for_human_sound release_for_drain_sound record_auto_retry_sound reserve_sound record_active_elapsed_sound
    begin_call_sound persist_result_sound complete_purge_sound register_sound change_status_sound)+

section \<open>The interface: simulation with an invariant\<close>

locale simulation =
  fixes init :: 's
    and step :: "'s \<Rightarrow> 's \<Rightarrow> bool"
    and inv :: "'s \<Rightarrow> bool"
    and abst :: "'s \<Rightarrow> 'a"
    and spec :: "'a \<Rightarrow> 'a \<Rightarrow> bool"
  assumes init_inv: "inv init"
    and step_inv: "inv s \<Longrightarrow> step s t \<Longrightarrow> inv t"
    and step_spec: "inv s \<Longrightarrow> step s t \<Longrightarrow> spec\<^sup>*\<^sup>* (abst s) (abst t)"
begin

lemma steps_inv: "step\<^sup>*\<^sup>* s t \<Longrightarrow> inv s \<Longrightarrow> inv t"
  by (induction rule: rtranclp_induct) (auto intro: step_inv)

lemma reachable_inv: "step\<^sup>*\<^sup>* init s \<Longrightarrow> inv s"
  using steps_inv init_inv by blast

lemma steps_spec: "step\<^sup>*\<^sup>* s t \<Longrightarrow> inv s \<Longrightarrow> spec\<^sup>*\<^sup>* (abst s) (abst t)"
proof (induction rule: rtranclp_induct)
  case (step t u)
  with steps_inv step_spec show ?case by (meson rtranclp_trans)
qed simp

lemma refines:
  assumes "step\<^sup>*\<^sup>* init s" "step\<^sup>*\<^sup>* s t"
  shows "spec\<^sup>*\<^sup>* (abst s) (abst t)"
  using assms reachable_inv steps_spec by blast

end

section \<open>The run register\<close>

record register =
  g_owner :: "string \<times> string \<times> string \<times> string \<times> string"
  g_token :: int
  g_barrier :: nat
  g_stopped :: bool
  g_final :: "run_status option"
  g_facts :: "(int \<times> callback_event_type) list"

inductive register_step :: "register option \<Rightarrow> register option \<Rightarrow> bool" where
  open_run: "register_step None
     (Some \<lparr>g_owner = w, g_token = 0, g_barrier = 0, g_stopped = False, g_final = None, g_facts = []\<rparr>)"
| lease: "register_step (Some g) (Some (g\<lparr>g_token := g_token g + 1\<rparr>))"
| stop: "register_step (Some g) (Some (g\<lparr>g_stopped := True\<rparr>))"
| raise_barrier: "g_stopped g \<Longrightarrow> g_barrier g < 2 \<Longrightarrow> register_step (Some g) (Some (g\<lparr>g_barrier := Suc (g_barrier g)\<rparr>))"
| settle: "g_final g = None \<Longrightarrow> st \<in> {Succeeded, Cancelled} \<Longrightarrow> register_step (Some g) (Some (g\<lparr>g_final := Some st\<rparr>))"
| fact: "register_step (Some g) (Some (g\<lparr>g_facts := g_facts g @ [(int (length (g_facts g)) + 1, ev)]\<rparr>))"

definition final_of :: "agent_run \<Rightarrow> run_status option" where
  "final_of r = (if status r \<in> {Succeeded, Cancelled} then Some (status r) else None)"

definition facts_of :: "db \<Rightarrow> string \<Rightarrow> (int \<times> callback_event_type) list" where
  "facts_of s rid = map (\<lambda>c. (event_seq c, e_event_type c)) (filter (\<lambda>c. e_run_id c = rid) (callbacks s))"

definition register_of :: "db \<Rightarrow> string \<Rightarrow> register option" where
  "register_of s rid = map_option (\<lambda>r. \<lparr>g_owner = (caller_id r, tenant_id r, agent_id r, agent_version r, package_digest r),
     g_token = fencing_token r, g_barrier = privacy_rank (privacy_state r), g_stopped = cancel_requested_at r \<noteq> None,
     g_final = final_of r, g_facts = facts_of s rid\<rparr>) (find_run s rid)"

text \<open>How far a register may move: the rules can take \<open>g\<close> to \<open>g'\<close> when it only grew.\<close>

definition register_le :: "register \<Rightarrow> register \<Rightarrow> bool" where
  "register_le g g' \<longleftrightarrow> g_owner g' = g_owner g \<and> g_token g \<le> g_token g' \<and> g_barrier g \<le> g_barrier g' \<and> g_barrier g' \<le> 2 \<and>
     (g_stopped g \<longrightarrow> g_stopped g') \<and> (g_barrier g' \<noteq> 0 \<longrightarrow> g_stopped g') \<and>
     (g_final g' = g_final g \<or> g_final g = None \<and> (\<exists>st. g_final g' = Some st \<and> st \<in> {Succeeded, Cancelled})) \<and>
     (\<exists>new. g_facts g' = g_facts g @ new) \<and> map fst (g_facts g') = map int [1..<Suc (length (g_facts g'))]"

lemma lease_steps: "register_step\<^sup>*\<^sup>* (Some g) (Some (g\<lparr>g_token := g_token g + int n\<rparr>))"
proof (induction n)
  case (Suc n)
  have "register_step (Some (g\<lparr>g_token := g_token g + int n\<rparr>)) (Some (g\<lparr>g_token := g_token g + int (Suc n)\<rparr>))"
    using lease [of "g\<lparr>g_token := g_token g + int n\<rparr>"] by (simp add: ac_simps)
  with Suc show ?case by (rule rtranclp.rtrancl_into_rtrancl)
qed simp

lemma barrier_steps:
  "g_stopped g \<Longrightarrow> g_barrier g + n \<le> 2 \<Longrightarrow> register_step\<^sup>*\<^sup>* (Some g) (Some (g\<lparr>g_barrier := g_barrier g + n\<rparr>))"
proof (induction n)
  case (Suc n)
  have "register_step (Some (g\<lparr>g_barrier := g_barrier g + n\<rparr>)) (Some (g\<lparr>g_barrier := g_barrier g + Suc n\<rparr>))"
    using raise_barrier [of "g\<lparr>g_barrier := g_barrier g + n\<rparr>"] Suc.prems by simp
  with Suc show ?case by (auto intro: rtranclp.rtrancl_into_rtrancl)
qed simp

lemma fact_steps:
  "map fst (g_facts g @ new) = map int [1..<Suc (length (g_facts g @ new))] \<Longrightarrow>
    register_step\<^sup>*\<^sup>* (Some g) (Some (g\<lparr>g_facts := g_facts g @ new\<rparr>))"
proof (induction new rule: rev_induct)
  case (snoc x xs)
  let ?g = "g\<lparr>g_facts := g_facts g @ xs\<rparr>"
  from snoc.prems have l: "map fst (g_facts g @ xs) = map int [1..<Suc (length (g_facts g @ xs))]"
    and x: "fst x = int (length (g_facts g @ xs)) + 1"
    by (simp_all add: upt_Suc_append)
  have "register_step (Some ?g) (Some (?g\<lparr>g_facts := g_facts ?g @ [(int (length (g_facts ?g)) + 1, snd x)]\<rparr>))"
    by (rule fact)
  moreover have "(int (length (g_facts ?g)) + 1, snd x) = x" using x by (cases x) simp
  ultimately have "register_step (Some ?g) (Some (g\<lparr>g_facts := g_facts g @ xs @ [x]\<rparr>))" by simp
  with snoc.IH [OF l] show ?case by (rule rtranclp.rtrancl_into_rtrancl)
qed simp

lemma stop_steps: "(g_stopped g \<longrightarrow> b) \<Longrightarrow> register_step\<^sup>*\<^sup>* (Some g) (Some (g\<lparr>g_stopped := b\<rparr>))"
proof -
  assume "g_stopped g \<longrightarrow> b"
  then have "g\<lparr>g_stopped := b\<rparr> = g \<or> g\<lparr>g_stopped := b\<rparr> = g\<lparr>g_stopped := True\<rparr>" by (cases g) auto
  then show ?thesis using stop [of g] by auto
qed

lemma settle_steps:
  "f = g_final g \<or> g_final g = None \<and> (\<exists>st. f = Some st \<and> st \<in> {Succeeded, Cancelled}) \<Longrightarrow>
    register_step\<^sup>*\<^sup>* (Some g) (Some (g\<lparr>g_final := f\<rparr>))"
  using settle [of g] by auto

lemma register_le_steps:
  assumes "register_le g g'"
  shows "register_step\<^sup>*\<^sup>* (Some g) (Some g')"
proof -
  note le = assms [unfolded register_le_def]
  from le obtain new where new: "g_facts g' = g_facts g @ new" by blast
  define g1 where "g1 = g\<lparr>g_token := g_token g'\<rparr>"
  define g2 where "g2 = g1\<lparr>g_stopped := g_stopped g'\<rparr>"
  define g3 where "g3 = g2\<lparr>g_barrier := g_barrier g'\<rparr>"
  define g4 where "g4 = g3\<lparr>g_final := g_final g'\<rparr>"
  have "register_step\<^sup>*\<^sup>* (Some g) (Some g1)"
    using lease_steps [of g "nat (g_token g' - g_token g)"] le by (simp add: g1_def)
  also have "register_step\<^sup>*\<^sup>* (Some g1) (Some g2)"
    unfolding g2_def by (rule stop_steps) (use le in \<open>simp add: g1_def\<close>)
  also have "register_step\<^sup>*\<^sup>* (Some g2) (Some g3)"
  proof (cases "g_barrier g' = 0")
    case True
    then have "g3 = g2" using le by (simp add: g3_def g2_def g1_def)
    then show ?thesis by simp
  next
    case False
    then show ?thesis
      using barrier_steps [of g2 "g_barrier g' - g_barrier g"] le by (simp add: g3_def g2_def g1_def)
  qed
  also have "register_step\<^sup>*\<^sup>* (Some g3) (Some g4)"
    unfolding g4_def by (rule settle_steps) (use le in \<open>simp add: g3_def g2_def g1_def\<close>)
  also have "register_step\<^sup>*\<^sup>* (Some g4) (Some (g4\<lparr>g_facts := g_facts g4 @ new\<rparr>))"
    by (rule fact_steps) (use le new in \<open>simp add: g4_def g3_def g2_def g1_def\<close>)
  finally show ?thesis using le new by (cases g'; cases g) (simp add: g4_def g3_def g2_def g1_def)
qed

lemma facts_dense:
  assumes "inv_db s" "find_run s rid = Some r"
  shows "map fst (facts_of s rid) = map int [1..<Suc (length (facts_of s rid))]"
proof -
  have "cb_log.dense s rid" using assms(1) by (simp add: inv_db_def events_ok_def)
  then have e: "run_events s rid = [1..last_event_seq r]" "0 \<le> last_event_seq r"
    using assms(2) by (simp_all add: cb_log.dense_def run_seq_def)
  have m: "map fst (facts_of s rid) = run_events s rid" by (simp add: facts_of_def run_events_def)
  then have "length (map fst (facts_of s rid)) = nat (last_event_seq r)" by (simp add: e(1))
  then have "length (facts_of s rid) = nat (last_event_seq r)" by simp
  with m e show ?thesis
    by (intro nth_equalityI) (simp_all add: nth_upto del: upt_Suc)
qed

lemma barrier_stopped:
  assumes "inv_db s" "find_run s rid = Some r"
  shows "privacy_rank (privacy_state r) \<le> 2 \<and> (privacy_rank (privacy_state r) \<noteq> 0 \<longrightarrow> cancel_requested_at r \<noteq> None)"
proof -
  have "privacy_state r \<noteq> PrivacyActive \<longrightarrow> cancel_requested_at r \<noteq> None"
    using inv_db_row [OF assms] by (simp add: row_ok_def)
  then show ?thesis by (cases "privacy_state r") simp_all
qed

lemma register_of_open:
  assumes inv: "inv_db s" and r: "register_of s rid = Some g"
  shows "register_step\<^sup>*\<^sup>* None (Some g)"
proof -
  let ?o = "\<lparr>g_owner = g_owner g, g_token = 0, g_barrier = 0, g_stopped = False, g_final = None, g_facts = []\<rparr>"
  obtain x where x: "find_run s rid = Some x" using r by (auto simp: register_of_def)
  have g: "g = \<lparr>g_owner = g_owner g, g_token = fencing_token x, g_barrier = privacy_rank (privacy_state x),
     g_stopped = (cancel_requested_at x \<noteq> None), g_final = final_of x, g_facts = facts_of s rid\<rparr>"
    using r x by (auto simp: register_of_def)
  have "0 \<le> fencing_token x" using inv_db_row [OF inv x] by (simp add: row_ok_def)
  moreover have "final_of x = None \<or> (\<exists>st. final_of x = Some st \<and> st \<in> {Succeeded, Cancelled})" by (simp add: final_of_def)
  ultimately have "register_le ?o g"
    using barrier_stopped [OF inv x] facts_dense [OF inv x] by (subst g) (simp add: register_le_def)
  then have "register_step\<^sup>*\<^sup>* (Some ?o) (Some g)" by (rule register_le_steps)
  with open_run show ?thesis by (rule converse_rtranclp_into_rtranclp)
qed

lemma sound_register:
  assumes "sound s s'"
  shows "register_step\<^sup>*\<^sup>* (register_of s rid) (register_of s' rid)"
proof (cases "find_run s rid")
  case None
  then have n: "register_of s rid = None" by (simp add: register_of_def)
  show ?thesis
    using register_of_open [OF soundD(1) [OF assms]] by (cases "register_of s' rid") (simp_all add: n)
next
  case (Some r)
  then obtain r' where r': "find_run s' rid = Some r'" "run_le r r'"
    using soundD(2) [OF assms] by (auto simp: advances_def)
  obtain new where new: "callbacks s' = callbacks s @ new" using soundD(2) [OF assms] by (auto simp: advances_def)
  have f: "\<exists>new. facts_of s' rid = facts_of s rid @ new" by (simp add: facts_of_def new)
  obtain g g' where g: "register_of s rid = Some g" "register_of s' rid = Some g'"
    using Some r'(1) by (simp add: register_of_def)
  have fin: "final_of r' = final_of r \<or> final_of r = None \<and> (\<exists>st. final_of r' = Some st \<and> st \<in> {Succeeded, Cancelled})"
    using r'(2) by (auto simp: final_of_def run_le_def)
  have "register_le g g'"
    using g Some r' f fin facts_dense [OF soundD(1) [OF assms] r'(1)] barrier_stopped [OF soundD(1) [OF assms] r'(1)]
    by (simp add: register_of_def register_le_def run_le_def same_identity_def del: upt_Suc) (elim conjE; hypsubst; simp del: upt_Suc)
  then show ?thesis using g register_le_steps by simp
qed

interpretation runtime: simulation empty_db system_step inv_db "\<lambda>s. register_of s rid" register_step for rid
proof unfold_locales
  show "inv_db empty_db" by (rule inv_empty_db)
  show "inv_db t" if "inv_db s" "system_step s t" for s t
    using that system_step_sound soundD(1) by blast
  show "register_step\<^sup>*\<^sup>* (register_of s rid) (register_of t rid)" if "inv_db s" "system_step s t" for s t
    using that system_step_sound sound_register by blast
qed

section \<open>Properties\<close>

text \<open>C18. The ledger invariant of the whole runtime: in every database that any interleaving of API requests, Worker
  passes, lease, model and tool operations, reconciliation cycles and administrator actions can
  reach from an empty one, the columns of every run agree with its dispatch state, the admission counters count the
  runs exactly, and the callback events of every run are numbered densely.\<close>

theorem reachable_ledger:
  assumes "system_step\<^sup>*\<^sup>* empty_db s"
  shows "inv_db s"
  using assms by (rule runtime.reachable_inv)

text \<open>C19. The runtime refines the run register: from any reachable database, whatever happens takes the register of a run only
  through the register's rules. So a run keeps its owner, its lease counter moves up by one at
  a time, a stop request and a privacy barrier are never taken back and the barrier needs
  the stop, a success or cancellation is final, and facts are only appended with the next number.\<close>

theorem runtime_refines_register:
  assumes "system_step\<^sup>*\<^sup>* empty_db s" "system_step\<^sup>*\<^sup>* s t"
  shows "register_step\<^sup>*\<^sup>* (register_of s rid) (register_of t rid)"
  using assms by (rule runtime.refines)

definition demo_registered :: db where
  "demo_registered = (case register demo_parsers demo_files [''srv''] ''memoir'' ''1'' False 5 empty_db of
     Inl _ \<Rightarrow> empty_db | Inr s \<Rightarrow> s)"

definition demo_created :: db where
  "demo_created = snd (api_create (\<lambda>j. case j of JBool b \<Rightarrow> Some b | _ \<Rightarrow> None) demo_settings (demo_command StartAuto)
     ''c'' ''t'' ''k'' ''h'' 7 demo_registered)"

lemma demo_created_reachable: "system_step\<^sup>*\<^sup>* empty_db demo_created" "system_step\<^sup>*\<^sup>* demo_registered demo_created"
  "system_step\<^sup>*\<^sup>* empty_db demo_registered"
proof -
  have n: "find_definition empty_db ''memoir'' ''1'' = None" by (simp add: find_definition_def empty_db_def)
  obtain pkg reg where "load_package demo_parsers demo_files [''srv''] ''memoir'' ''1'' [] = Inr (pkg, reg)"
    using demo_load by blast
  with n have "register demo_parsers demo_files [''srv''] ''memoir'' ''1'' False 5 empty_db = Inr demo_registered"
    by (simp add: register_def demo_registered_def)
  then have 1: "system_step empty_db demo_registered" by (rule system_step.registered)
  have 2: "system_step demo_registered demo_created"
    unfolding demo_created_def by (rule system_step.create [OF prod.collapse [symmetric]])
  from 1 2 show "system_step\<^sup>*\<^sup>* empty_db demo_created" by simp
  from 2 show "system_step\<^sup>*\<^sup>* demo_registered demo_created" by simp
  from 1 show "system_step\<^sup>*\<^sup>* empty_db demo_registered" by simp
qed

theorem reachable_ledger_witness: "inv_db demo_created \<and> map run_id (runs demo_created) = [''0'']"
proof -
  have "map run_id (runs demo_created) = [''0'']" by code_simp
  with reachable_ledger [OF demo_created_reachable(1)] show ?thesis by simp
qed

theorem runtime_refines_register_witness:
  "\<exists>g. register_step\<^sup>*\<^sup>* None (Some g) \<and> register_of demo_created ''0'' = Some g \<and> g_token g = 0"
proof -
  have r: "find_run demo_registered ''0'' = None" by code_simp
  have "map_option fencing_token (find_run demo_created ''0'') = Some 0" by code_simp
  then obtain x where x: "find_run demo_created ''0'' = Some x" "fencing_token x = 0" by auto
  from runtime_refines_register [OF demo_created_reachable(3,2), of "''0''"] r x show ?thesis
    by (simp add: register_of_def)
qed

end
