(* ===== verification/Service_Auth.thy ===== *)
theory Service_Auth
  imports Authorization Agent_State Run_Service
begin

text \<open>
  Authentication between services: the signature check of the Run API (\<open>app/core/security.py\<close> with
  \<open>_caller\<close> of \<open>app/api/endpoints/agent_runs_api.py\<close>) and the signatures of the requests the runtime
  itself sends (\<open>app/core/tool_security.py\<close>: \<open>tool_signature\<close> on the sending, \<open>verify_runtime_tool\<close> on
  the receiving side).

  SHA-256, HMAC and the ISO date parser are parameters, the record \<open>crypto\<close>. What the code does around
  them is modelled: \<open>int(...)\<close> of a header, the range of \<open>datetime.fromtimestamp\<close>, the
  canonical string that is signed, and \<open>hmac.compare_digest\<close>, which raises a \<open>TypeError\<close> on text
  that is not ASCII.
\<close>

section \<open>Python text\<close>

definition py_space :: "char \<Rightarrow> bool" where
  "py_space c \<longleftrightarrow> (let n = (of_char c :: nat) in 9 \<le> n \<and> n \<le> 13 \<or> 28 \<le> n \<and> n \<le> 32 \<or> n = 133 \<or> n = 160)"

definition strip :: "string \<Rightarrow> string" where
  "strip x = rev (dropWhile py_space (rev (dropWhile py_space x)))"

definition digit :: "char \<Rightarrow> bool" where
  "digit c \<longleftrightarrow> (let n = (of_char c :: nat) in 48 \<le> n \<and> n \<le> 57)"

text \<open>\<open>int(text)\<close>: digits with single underscores between them, a sign and white space around; the
  interpreter refuses more than 4300 digits.\<close>

fun py_digits :: "int \<Rightarrow> bool \<Rightarrow> string \<Rightarrow> int option" where
  "py_digits acc ok [] = (if ok then Some acc else None)"
| "py_digits acc ok (c # cs) =
     (if digit c then py_digits (10 * acc + (of_char c - 48)) True cs
      else if c = CHR ''_'' \<and> ok then py_digits acc False cs
      else None)"

definition py_int :: "string \<Rightarrow> int option" where
  "py_int x =
     (let y = strip x in
      if 4300 < length (filter digit x) then None
      else if y \<noteq> [] \<and> hd y = CHR ''+'' then py_digits 0 False (tl y)
      else if y \<noteq> [] \<and> hd y = CHR ''-'' then map_option uminus (py_digits 0 False (tl y))
      else py_digits 0 False y)"

definition upper_char :: "char \<Rightarrow> char" where
  "upper_char c = (let n = (of_char c :: nat) in if 97 \<le> n \<and> n \<le> 122 then char_of (n - 32) else c)"

definition upper :: "string \<Rightarrow> string" where
  "upper x = map upper_char x"

text \<open>\<open>datetime.fromtimestamp(n, UTC)\<close>: years 1 to 9999 are dates, other years are a \<open>ValueError\<close>, and
  beyond the range of the C library it is an \<open>OSError\<close> or \<open>OverflowError\<close>.\<close>

datatype clock_error = YearOutOfRange | ClockOverflow

definition fromtimestamp :: "int \<Rightarrow> clock_error + time" where
  "fromtimestamp n =
     (if -62135596800 \<le> n \<and> n \<le> 253402300799 then Inr (seconds n)
      else if -67768040609740800 \<le> n \<and> n \<le> 67768036191676799 then Inl YearOutOfRange
      else Inl ClockOverflow)"

section \<open>Parameters\<close>

datatype iso_time = IsoInvalid | IsoNaive | IsoAware time

record crypto =
  cy_sha256 :: "string \<Rightarrow> string"
  cy_hmac :: "string \<Rightarrow> string \<Rightarrow> string"
  cy_iso :: "string \<Rightarrow> iso_time"

text \<open>What is used of the hash functions: their results are printed in lower case hexadecimal.\<close>

definition hex_char :: "char \<Rightarrow> bool" where
  "hex_char c \<longleftrightarrow> (let n = (of_char c :: nat) in 48 \<le> n \<and> n \<le> 57 \<or> 97 \<le> n \<and> n \<le> 102)"

definition crypto_ok :: "crypto \<Rightarrow> bool" where
  "crypto_ok cy \<longleftrightarrow> (\<forall>x. list_all hex_char (cy_sha256 cy x) \<and> length (cy_sha256 cy x) = 64) \<and>
     (\<forall>k x. list_all hex_char (cy_hmac cy k x) \<and> length (cy_hmac cy k x) = 64)"

section \<open>Requests to the runtime\<close>

datatype auth_error = SignatureError string | CompareTypeError | TimestampOverflow | HttpError int

type_synonym headers = "(string \<times> string) list"

definition service_auth_headers :: "string list" where
  "service_auth_headers = [''x-agent-client-id'', ''x-agent-key-id'', ''x-agent-timestamp'', ''x-agent-signature'']"

definition getlist :: "headers \<Rightarrow> string \<Rightarrow> string list" where
  "getlist hs name = map snd (filter (\<lambda>h. lower (fst h) = lower name) hs)"

definition assert_single_service_headers :: "headers \<Rightarrow> auth_error + unit" where
  "assert_single_service_headers hs =
     ensure (list_all (\<lambda>n. length (getlist hs n) = 1) service_auth_headers) (SignatureError ''HEADER_COUNT'')"

definition request_hash :: "crypto \<Rightarrow> string \<Rightarrow> string \<Rightarrow> string \<Rightarrow> string" where
  "request_hash cy meth path body =
     cy_sha256 cy (upper meth @ [CHR 0x0A] @ path @ [CHR 0x0A] @ cy_sha256 cy body)"

text \<open>The text that is signed.\<close>

definition canonical :: "crypto \<Rightarrow> string \<Rightarrow> string \<Rightarrow> string \<Rightarrow> string \<Rightarrow> string" where
  "canonical cy meth path ts body =
     meth @ [CHR 0x0A] @ path @ [CHR 0x0A] @ ts @ [CHR 0x0A] @ cy_sha256 cy body"

definition ascii :: "string \<Rightarrow> bool" where
  "ascii x = list_all (\<lambda>c. (of_char c :: nat) < 128) x"

definition compare_digest :: "string \<Rightarrow> string \<Rightarrow> auth_error + bool" where
  "compare_digest a b = (if ascii a \<and> ascii b then Inr (a = b) else Inl CompareTypeError)"

text \<open>\<open>{key.lower(): value for ...}\<close>: of two headers of one name the later counts.\<close>

definition flatten :: "headers \<Rightarrow> headers" where
  "flatten hs = rev (map (\<lambda>h. (lower (fst h), snd h)) hs)"

definition filled_header :: "headers \<Rightarrow> string \<Rightarrow> string option" where
  "filled_header hs n = (case map_of hs n of None \<Rightarrow> None | Some v \<Rightarrow> if v = '''' then None else Some v)"

text \<open>\<open>abs(now - sent) > tolerance\<close> on a time stamp in seconds.\<close>

definition age_exceeds :: "time \<Rightarrow> time \<Rightarrow> int \<Rightarrow> bool" where
  "age_exceeds now sent tol \<longleftrightarrow> seconds tol < \<bar>now - sent\<bar>"

definition client_key :: "dict \<Rightarrow> string \<Rightarrow> json" where
  "client_key c kid = (case dget_default c ''keys'' (JObj []) of JObj ks \<Rightarrow> dget ks kid | _ \<Rightarrow> JNull)"

definition verify_signature ::
  "crypto \<Rightarrow> headers \<Rightarrow> string \<Rightarrow> string \<Rightarrow> string \<Rightarrow> clients \<Rightarrow> int \<Rightarrow> time \<Rightarrow> auth_error + string" where
  "verify_signature cy hs meth path body cl tol now =
     (if list_ex (\<lambda>h. lower (fst h) = ''x-agent-runtime-id'') hs then Inl (SignatureError ''IDENTITY'')
      else (case (filled_header hs ''x-agent-client-id'', filled_header hs ''x-agent-key-id'',
                filled_header hs ''x-agent-timestamp'', filled_header hs ''x-agent-signature'') of
          (Some cid, Some kid, Some ts, Some sig) \<Rightarrow>
            (case map_of cl cid of
               None \<Rightarrow> Inl (SignatureError ''IDENTITY'')
             | Some c \<Rightarrow>
                 (case py_int ts of
                    None \<Rightarrow> Inl (SignatureError ''TIMESTAMP'')
                  | Some n \<Rightarrow>
                      (case fromtimestamp n of
                         Inl _ \<Rightarrow> Inl (SignatureError ''TIMESTAMP'')
                       | Inr sent \<Rightarrow>
                           if age_exceeds now sent tol then Inl (SignatureError ''EXPIRED'')
                           else (case client_key c kid of
                               JStr key \<Rightarrow>
                                 res_bind (compare_digest (cy_hmac cy key (canonical cy (upper meth) path ts body)) sig)
                                   (\<lambda>same. if same then Inr cid else Inl (SignatureError ''MISMATCH''))
                             | _ \<Rightarrow> Inl (SignatureError ''KEY'')))))
        | _ \<Rightarrow> Inl (SignatureError ''IDENTITY'')))"

text \<open>\<open>_caller\<close>: the identity of a request, or the HTTP status it is answered with. Only a
  \<open>SignatureError\<close> becomes a 401.\<close>

record http_request =
  hr_method :: string
  hr_path :: string
  hr_body :: string
  hr_headers :: headers

definition caller :: "crypto \<Rightarrow> clients \<Rightarrow> int \<Rightarrow> bool \<Rightarrow> time \<Rightarrow> http_request \<Rightarrow> auth_error + (string \<times> json \<times> string)" where
  "caller cy cl tol wr now q =
     (case res_bind (assert_single_service_headers (hr_headers q)) (\<lambda>_.
             verify_signature cy (flatten (hr_headers q)) (hr_method q) (hr_path q) (hr_body q) cl tol now) of
        Inl (SignatureError _) \<Rightarrow> Inl (HttpError 401)
      | Inl e \<Rightarrow> Inl e
      | Inr cid \<Rightarrow>
          if wr \<and> (case getlist (hr_headers q) ''idempotency-key'' of [] \<Rightarrow> True | v # _ \<Rightarrow> v = '''')
          then Inl (HttpError 400)
          else (case map_of cl cid of
              None \<Rightarrow> Inl (HttpError 500)
            | Some c \<Rightarrow> Inr (cid, dget_default c ''tenant_id'' (JStr cid), hr_body q)))"

section \<open>Requests of the runtime\<close>

definition tool_signature :: "crypto \<Rightarrow> string \<Rightarrow> string \<Rightarrow> string \<Rightarrow> string \<Rightarrow> string \<Rightarrow> string" where
  "tool_signature cy meth path ts body secret = cy_hmac cy secret (canonical cy meth path ts body)"

definition parse_rotation_time :: "crypto \<Rightarrow> json \<Rightarrow> time option option" where
  "parse_rotation_time cy v =
     (case v of
        JNull \<Rightarrow> Some None
      | JStr x \<Rightarrow> (case cy_iso cy x of IsoAware t \<Rightarrow> Some (Some t) | _ \<Rightarrow> None)
      | _ \<Rightarrow> None)"

definition active_key_secret :: "crypto \<Rightarrow> time \<Rightarrow> json \<Rightarrow> string option" where
  "active_key_secret cy now v =
     (case v of
        JStr x \<Rightarrow> Some x
      | JObj d \<Rightarrow>
          (case dget d ''secret'' of
             JStr secret \<Rightarrow>
               (case (parse_rotation_time cy (dget d ''not_before''), parse_rotation_time cy (dget d ''not_after'')) of
                  (Some nb, Some na) \<Rightarrow>
                    if (case nb of None \<Rightarrow> False | Some t \<Rightarrow> now < t) \<or> (case na of None \<Rightarrow> False | Some t \<Rightarrow> t < now)
                    then None else Some secret
                | _ \<Rightarrow> None)
           | _ \<Rightarrow> None)
      | _ \<Rightarrow> None)"

definition verify_runtime_tool ::
  "crypto \<Rightarrow> headers \<Rightarrow> string \<Rightarrow> string \<Rightarrow> string \<Rightarrow> clients \<Rightarrow> int \<Rightarrow> time \<Rightarrow> auth_error + string" where
  "verify_runtime_tool cy hs meth path body runtimes tol now =
     (case (filled_header hs ''x-agent-runtime-id'', filled_header hs ''x-agent-key-id'',
            filled_header hs ''x-agent-timestamp'', filled_header hs ''x-agent-signature'') of
        (Some rid, Some kid, Some ts, Some sig) \<Rightarrow>
          (case py_int ts of
             None \<Rightarrow> Inl (SignatureError ''TIMESTAMP'')
           | Some n \<Rightarrow>
               (case fromtimestamp n of
                  Inl YearOutOfRange \<Rightarrow> Inl (SignatureError ''TIMESTAMP'')
                | Inl ClockOverflow \<Rightarrow> Inl TimestampOverflow
                | Inr sent \<Rightarrow>
                    if age_exceeds now sent tol then Inl (SignatureError ''TIMESTAMP'')
                    else (case active_key_secret cy now
                        (client_key (case map_of runtimes rid of None \<Rightarrow> [] | Some d \<Rightarrow> d) kid) of
                        None \<Rightarrow> Inl (SignatureError ''MISMATCH'')
                      | Some secret \<Rightarrow>
                          res_bind (compare_digest sig (tool_signature cy meth path ts body secret))
                            (\<lambda>same. if same then Inr rid else Inl (SignatureError ''MISMATCH'')))))
      | _ \<Rightarrow> Inl (SignatureError ''IDENTITY''))"

text \<open>The identity headers of a request of the runtime, as both gateways write them.\<close>

definition runtime_headers ::
  "crypto \<Rightarrow> string \<Rightarrow> string \<Rightarrow> string \<Rightarrow> string \<Rightarrow> string \<Rightarrow> time \<Rightarrow> headers" where
  "runtime_headers cy rt kid secret path body now =
     (let ts = int_string (now div 1000000) in
      [(''X-Agent-Runtime-Id'', rt), (''X-Agent-Key-Id'', kid), (''X-Agent-Timestamp'', ts),
       (''X-Agent-Signature'', tool_signature cy ''POST'' path ts body secret)])"

section \<open>Lemmas\<close>

lemma split_at_first:
  assumes "c \<notin> set a" "c \<notin> set a'" "a @ c # x = a' @ c # x'"
  shows "a = a' \<and> x = x'"
proof -
  have "takeWhile (\<lambda>y. y \<noteq> c) (a @ c # x) = a" "takeWhile (\<lambda>y. y \<noteq> c) (a' @ c # x') = a'"
    by (subst takeWhile_append2, use assms(1,2) in auto)+
  with assms(3) show ?thesis by auto
qed

lemma split_at_last:
  assumes "c \<notin> set x" "c \<notin> set x'" "a @ c # x = a' @ c # x'"
  shows "a = a' \<and> x = x'"
proof -
  have "rev x @ c # rev a = rev x' @ c # rev a'"
    using arg_cong [OF assms(3), of rev] by simp
  then have "rev x = rev x' \<and> rev a = rev a'" using assms(1,2) by (intro split_at_first) auto
  then show ?thesis by simp
qed

lemma hex_no_newline: "list_all hex_char x \<Longrightarrow> CHR 0x0A \<notin> set x"
  by (auto simp: list_all_iff hex_char_def Let_def)

lemma hex_ascii: "list_all hex_char x \<Longrightarrow> ascii x"
proof -
  have "(of_char c :: nat) < 128" if "hex_char c" for c
    using that by (auto simp: hex_char_def Let_def)
  then show "list_all hex_char x \<Longrightarrow> ascii x" by (auto simp: ascii_def list_all_iff)
qed

lemma upper_newline: "CHR 0x0A \<notin> set x \<Longrightarrow> CHR 0x0A \<notin> set (upper x)"
proof -
  have u: "upper_char c \<noteq> CHR 0x0A" if "c \<noteq> CHR 0x0A" for c
  proof (cases "97 \<le> (of_char c :: nat) \<and> (of_char c :: nat) \<le> 122")
    case True
    then have "(of_char (upper_char c) :: nat) = (of_char c - 32) mod 256" by (simp add: upper_char_def Let_def)
    also have "\<dots> = of_char c - 32" by (rule mod_less) (use True in arith)
    finally have "(of_char (upper_char c) :: nat) \<noteq> 10" using True by arith
    then have "(of_char (upper_char c) :: nat) \<noteq> of_char (CHR 0x0A)" by simp
    then show ?thesis by metis
  qed (use that in \<open>auto simp: upper_char_def Let_def\<close>)
  assume x: "CHR 0x0A \<notin> set x"
  have "\<forall>c\<in>set x. upper_char c \<noteq> CHR 0x0A"
  proof
    fix c assume "c \<in> set x"
    with x have "c \<noteq> CHR 0x0A" by blast
    then show "upper_char c \<noteq> CHR 0x0A" by (rule u)
  qed
  then show ?thesis unfolding upper_def set_map by (metis (no_types) imageE)
qed

text \<open>The signed text can be read back: it determines the method, the path, the time stamp and the
  hash of the body, although a path may contain line breaks.\<close>

lemma canonical_inj:
  assumes "crypto_ok cy" "CHR 0x0A \<notin> set m" "CHR 0x0A \<notin> set m'" "CHR 0x0A \<notin> set t" "CHR 0x0A \<notin> set t'"
    and "canonical cy m p t b = canonical cy m' p' t' b'"
  shows "m = m' \<and> p = p' \<and> t = t' \<and> cy_sha256 cy b = cy_sha256 cy b'"
proof -
  have h: "CHR 0x0A \<notin> set (cy_sha256 cy x)" for x
    by (rule hex_no_newline) (use assms(1) in \<open>simp add: crypto_ok_def\<close>)
  from assms(6) have "m = m' \<and> p @ CHR 0x0A # t @ CHR 0x0A # cy_sha256 cy b = p' @ CHR 0x0A # t' @ CHR 0x0A # cy_sha256 cy b'"
    by (intro split_at_first [OF assms(2,3)]) (simp add: canonical_def)
  then have 1: "m = m'" and "(p @ CHR 0x0A # t) @ CHR 0x0A # cy_sha256 cy b = (p' @ CHR 0x0A # t') @ CHR 0x0A # cy_sha256 cy b'"
    by simp_all
  then have "p @ CHR 0x0A # t = p' @ CHR 0x0A # t'" "cy_sha256 cy b = cy_sha256 cy b'"
    using split_at_last [OF h h] by blast+
  with 1 split_at_last [OF assms(4,5)] show ?thesis by blast
qed

text \<open>What the API knows about an authenticated request.\<close>

lemma verify_signature_Inr:
  assumes "verify_signature cy hs meth path body cl tol now = Inr cid"
  obtains kid ts sig n sent c key where "map_of hs ''x-agent-client-id'' = Some cid" "map_of hs ''x-agent-key-id'' = Some kid"
    "map_of hs ''x-agent-timestamp'' = Some ts" "map_of hs ''x-agent-signature'' = Some sig"
    "map_of cl cid = Some c" "client_key c kid = JStr key" "py_int ts = Some n" "fromtimestamp n = Inr sent"
    "\<bar>now - sent\<bar> \<le> seconds tol" "sig = cy_hmac cy key (canonical cy (upper meth) path ts body)"
    "\<forall>h\<in>set hs. lower (fst h) \<noteq> ''x-agent-runtime-id''"
  using assms
  by (auto simp: verify_signature_def filled_header_def compare_digest_def age_exceeds_def list_ex_iff
      split: if_split_asm option.split_asm sum.split_asm json.split_asm prod.split_asm)

lemma flatten_header:
  assumes "getlist hs n = [v]" "lower n = n" shows "map_of (flatten hs) n = Some v"
proof -
  have "getlist hs n = map snd (filter (\<lambda>h. fst h = n) (rev (flatten hs)))"
    using assms(2) by (simp add: getlist_def flatten_def filter_map comp_def)
  then have "map snd (filter (\<lambda>h. fst h = n) (flatten hs)) = [v]"
    using assms(1) by (simp add: rev_filter [symmetric] rev_map [symmetric])
  moreover have "map_of xs n = (case map snd (filter (\<lambda>h. fst h = n) xs) of [] \<Rightarrow> None | w # _ \<Rightarrow> Some w)" for xs :: headers
    by (induction xs) (auto split: list.split)
  ultimately show ?thesis by simp
qed

lemma caller_Inr:
  assumes "caller cy cl tol wr now q = Inr (cid, tn, b)"
  obtains kid ts sig n c key where "getlist (hr_headers q) ''x-agent-client-id'' = [cid]"
    "getlist (hr_headers q) ''x-agent-key-id'' = [kid]" "getlist (hr_headers q) ''x-agent-timestamp'' = [ts]"
    "getlist (hr_headers q) ''x-agent-signature'' = [sig]" "map_of cl cid = Some c" "client_key c kid = JStr key"
    "py_int ts = Some n" "\<bar>now - seconds n\<bar> \<le> seconds tol" "b = hr_body q"
    "sig = cy_hmac cy key (canonical cy (upper (hr_method q)) (hr_path q) ts (hr_body q))"
proof -
  from assms have 1: "list_all (\<lambda>n. length (getlist (hr_headers q) n) = 1) service_auth_headers"
    and v: "verify_signature cy (flatten (hr_headers q)) (hr_method q) (hr_path q) (hr_body q) cl tol now = Inr cid"
    and b: "b = hr_body q"
    by (auto simp: caller_def assert_single_service_headers_def res_bind_def ensure_def
        split: sum.split_asm if_split_asm auth_error.split_asm option.split_asm list.split_asm)
  have one: "\<exists>v. getlist (hr_headers q) n = [v] \<and> map_of (flatten (hr_headers q)) n = Some v"
    if "n \<in> set service_auth_headers" for n
  proof -
    from that 1 obtain v where "getlist (hr_headers q) n = [v]"
      by (auto simp: list_all_iff length_Suc_conv)
    moreover have "lower n = n" using that by (auto simp: service_auth_headers_def lower_def lower_char_def)
    ultimately show ?thesis using flatten_header by blast
  qed
  show thesis
  proof (rule verify_signature_Inr [OF v])
    fix kid ts sig n sent c key
    assume "map_of (flatten (hr_headers q)) ''x-agent-client-id'' = Some cid" "map_of (flatten (hr_headers q)) ''x-agent-key-id'' = Some kid"
      "map_of (flatten (hr_headers q)) ''x-agent-timestamp'' = Some ts" "map_of (flatten (hr_headers q)) ''x-agent-signature'' = Some sig"
      "map_of cl cid = Some c" "client_key c kid = JStr key" "py_int ts = Some n" "fromtimestamp n = Inr sent"
      "\<bar>now - sent\<bar> \<le> seconds tol" "sig = cy_hmac cy key (canonical cy (upper (hr_method q)) (hr_path q) ts (hr_body q))"
    then show thesis
      using one [of "''x-agent-client-id''"] one [of "''x-agent-key-id''"] one [of "''x-agent-timestamp''"]
        one [of "''x-agent-signature''"] b
      by (intro that) (auto simp: service_auth_headers_def fromtimestamp_def split: if_split_asm)
  qed
qed

text \<open>Printed integers are read back.\<close>

lemma digits_numeral: "list_all digit (numeral_string n)"
proof (induction n rule: numeral_string.induct)
  case (1 n)
  have d: "digit (char_of (48 + m mod 10))" for m :: nat by (simp add: digit_def Let_def)
  from 1 d [of n] show ?case
    by (cases "n < 10") (simp_all add: numeral_string.simps [of n])
qed

lemma length_numeral: "n < 10 ^ Suc k \<Longrightarrow> length (numeral_string n) \<le> Suc k"
proof (induction k arbitrary: n)
  case 0
  then show ?case by (simp add: numeral_string.simps [of n])
next
  case (Suc k)
  show ?case
  proof (cases "n < 10")
    case False
    have "n div 10 < 10 ^ Suc k" using Suc.prems by (simp add: div_less_iff_less_mult algebra_simps)
    with Suc.IH [of "n div 10"] False show ?thesis by (simp add: numeral_string.simps [of n])
  qed (simp add: numeral_string.simps [of n])
qed

lemma py_digits_value:
  assumes "list_all digit cs" "cs \<noteq> [] \<or> ok"
  shows "py_digits (int a) ok cs = Some (int (foldl (\<lambda>v c. 10 * v + (of_char c - 48)) a cs))"
  using assms
proof (induction cs arbitrary: a ok)
  case (Cons c cs)
  have i: "(of_char c :: int) = int (of_char c)" by (simp add: of_nat_of_char)
  have "10 * int a + (of_char c - 48) = int (10 * a + (of_char c - 48))"
    using Cons.prems(1) by (simp add: i digit_def Let_def of_nat_diff)
  with Cons show ?case by (simp del: of_nat_add of_nat_mult)
qed simp

lemma digit_not_space: "digit c \<Longrightarrow> \<not> py_space c"
  by (auto simp: digit_def py_space_def Let_def)

lemma strip_digits: "list_all digit x \<Longrightarrow> strip x = x"
proof -
  assume x: "list_all digit x"
  have id: "dropWhile py_space y = y" if "list_all digit y" for y
    using that by (cases y) (simp_all add: digit_not_space)
  from id [OF x] id [of "rev x"] x show "strip x = x" by (simp add: strip_def)
qed

lemma py_int_numeral: "n < 10 ^ 18 \<Longrightarrow> py_int (numeral_string n) = Some (int n)"
proof -
  assume "n < 10 ^ 18"
  then have "length (numeral_string n) \<le> 18" using length_numeral [of n 17] by simp
  then have l: "length (filter digit (numeral_string n)) \<le> 18" using length_filter_le le_trans by blast
  have "digit (hd (numeral_string n))" using digits_numeral [of n] by (cases "numeral_string n") auto
  then have h: "hd (numeral_string n) \<noteq> CHR ''+''" "hd (numeral_string n) \<noteq> CHR ''-''" by (auto simp: digit_def)
  show ?thesis
    using py_digits_value [OF digits_numeral [of n], of False 0] l h strip_digits [OF digits_numeral [of n]]
      numeral_value_string [of n]
    by (simp add: py_int_def Let_def numeral_value_def)
qed

lemma py_int_clock:
  assumes "0 \<le> t" "t < 253402300800000000"
  shows "py_int (int_string (t div 1000000)) = Some (t div 1000000)" "fromtimestamp (t div 1000000) = Inr (seconds (t div 1000000))"
proof -
  have b: "0 \<le> t div 1000000" "t div 1000000 \<le> 253402300799" using assms by simp_all
  then show "py_int (int_string (t div 1000000)) = Some (t div 1000000)"
    by (simp add: int_string_def py_int_numeral)
  show "fromtimestamp (t div 1000000) = Inr (seconds (t div 1000000))" using b by (simp add: fromtimestamp_def)
qed

lemma lower_names:
  "lower ''x-agent-runtime-id'' = ''x-agent-runtime-id''" "lower ''X-Agent-Runtime-Id'' = ''x-agent-runtime-id''" "lower ''X-Agent-Key-Id'' = ''x-agent-key-id''"
  "lower ''X-Agent-Timestamp'' = ''x-agent-timestamp''" "lower ''X-Agent-Signature'' = ''x-agent-signature''"
  by code_simp+

section \<open>Properties\<close>

text \<open>C24. A signature stands for one request: when two requests of a client with the same key id and the same signature
  are both accepted, they agree in method, path, time stamp and body, unless the two bodies
  collide under SHA-256 or the two signed texts under the HMAC with the key of the client. The path may contain any character, line breaks included;
  the method and the header values cannot contain one.\<close>

theorem signature_binds_request:
  assumes "crypto_ok cy" "caller cy cl tol w1 now1 q1 = Inr (cid, t1, b1)" "caller cy cl tol w2 now2 q2 = Inr (cid, t2, b2)"
    and kid: "getlist (hr_headers q1) ''x-agent-key-id'' = getlist (hr_headers q2) ''x-agent-key-id''"
    and sg: "getlist (hr_headers q1) ''x-agent-signature'' = getlist (hr_headers q2) ''x-agent-signature''"
    and nl: "CHR 0x0A \<notin> set (hr_method q1)" "CHR 0x0A \<notin> set (hr_method q2)"
      "\<And>h. h \<in> set (hr_headers q1) \<union> set (hr_headers q2) \<Longrightarrow> CHR 0x0A \<notin> set (snd h)"
  shows "upper (hr_method q1) = upper (hr_method q2) \<and> hr_path q1 = hr_path q2 \<and> b1 = b2 \<and>
      getlist (hr_headers q1) ''x-agent-timestamp'' = getlist (hr_headers q2) ''x-agent-timestamp'' \<or>
    b1 \<noteq> b2 \<and> cy_sha256 cy b1 = cy_sha256 cy b2 \<or>
    (\<exists>c kid key ts1 ts2. map_of cl cid = Some c \<and> getlist (hr_headers q1) ''x-agent-key-id'' = [kid] \<and>
       client_key c kid = JStr key \<and> getlist (hr_headers q1) ''x-agent-timestamp'' = [ts1] \<and>
       getlist (hr_headers q2) ''x-agent-timestamp'' = [ts2] \<and>
       canonical cy (upper (hr_method q1)) (hr_path q1) ts1 b1 \<noteq> canonical cy (upper (hr_method q2)) (hr_path q2) ts2 b2 \<and>
       cy_hmac cy key (canonical cy (upper (hr_method q1)) (hr_path q1) ts1 b1) =
         cy_hmac cy key (canonical cy (upper (hr_method q2)) (hr_path q2) ts2 b2))"
proof -
  from assms(2) obtain kid1 ts1 sig1 c1 key1 where 1: "getlist (hr_headers q1) ''x-agent-key-id'' = [kid1]"
    "getlist (hr_headers q1) ''x-agent-timestamp'' = [ts1]" "getlist (hr_headers q1) ''x-agent-signature'' = [sig1]"
    "map_of cl cid = Some c1" "client_key c1 kid1 = JStr key1" "b1 = hr_body q1"
    "sig1 = cy_hmac cy key1 (canonical cy (upper (hr_method q1)) (hr_path q1) ts1 (hr_body q1))"
    by (rule caller_Inr)
  from assms(3) obtain kid2 ts2 sig2 c2 key2 where 2: "getlist (hr_headers q2) ''x-agent-key-id'' = [kid2]"
    "getlist (hr_headers q2) ''x-agent-timestamp'' = [ts2]" "getlist (hr_headers q2) ''x-agent-signature'' = [sig2]"
    "map_of cl cid = Some c2" "client_key c2 kid2 = JStr key2" "b2 = hr_body q2"
    "sig2 = cy_hmac cy key2 (canonical cy (upper (hr_method q2)) (hr_path q2) ts2 (hr_body q2))"
    by (rule caller_Inr)
  let ?m1 = "canonical cy (upper (hr_method q1)) (hr_path q1) ts1 b1"
  let ?m2 = "canonical cy (upper (hr_method q2)) (hr_path q2) ts2 b2"
  have "key1 = key2" "cy_hmac cy key1 ?m1 = cy_hmac cy key2 ?m2" using 1 2 kid sg by simp_all
  moreover have "ts1 \<in> snd ` set (hr_headers q1)" "ts2 \<in> snd ` set (hr_headers q2)"
    using arg_cong [OF 1(2), of set] arg_cong [OF 2(2), of set] by (auto simp: getlist_def)
  then have "CHR 0x0A \<notin> set ts1" "CHR 0x0A \<notin> set ts2" using nl(3) by auto
  then have "?m1 = ?m2 \<Longrightarrow> upper (hr_method q1) = upper (hr_method q2) \<and> hr_path q1 = hr_path q2 \<and> ts1 = ts2 \<and>
      cy_sha256 cy b1 = cy_sha256 cy b2"
    using canonical_inj [OF assms(1) upper_newline [OF nl(1)] upper_newline [OF nl(2)]] by blast
  ultimately show ?thesis using 1 2(2) by (cases "?m1 = ?m2") auto
qed

text \<open>C25. The two directions of the protocol do not mix. A request signed by the runtime is accepted by the verifier of
  the business side under its name, as long as its clock is within the tolerance and the key it was
  signed with is active there; the same request sent back to the Run API, with whatever headers in
  front of it and whatever clients and keys are configured, is answered with 401.\<close>

theorem runtime_signature_one_way:
  assumes ok: "crypto_ok cy" and n: "rt \<noteq> []" "kid \<noteq> []" and t: "0 \<le> now" "now < 253402300800000000"
    and k: "map_of runtimes rt = Some d" "active_key_secret cy now' (client_key d kid) = Some secret"
    and fresh: "\<not> age_exceeds now' (seconds (now div 1000000)) tol"
  shows "verify_runtime_tool cy (flatten (runtime_headers cy rt kid secret path body now)) ''POST'' path body runtimes tol now' = Inr rt \<and>
    caller cy cl tol2 wr now2 \<lparr>hr_method = ''POST'', hr_path = path, hr_body = body,
      hr_headers = extra @ runtime_headers cy rt kid secret path body now\<rparr> = Inl (HttpError 401)"
proof
  let ?ts = "int_string (now div 1000000)"
  let ?sig = "tool_signature cy ''POST'' path ?ts body secret"
  have f: "flatten (runtime_headers cy rt kid secret path body now) =
    [(''x-agent-signature'', ?sig), (''x-agent-timestamp'', ?ts), (''x-agent-key-id'', kid), (''x-agent-runtime-id'', rt)]"
    by (simp add: flatten_def runtime_headers_def Let_def lower_names)
  have s: "ascii ?sig" "?sig \<noteq> []"
    using ok hex_ascii [of ?sig] by (simp_all add: crypto_ok_def tool_signature_def) (metis list.size(3) zero_neq_numeral)
  have "?ts \<noteq> []" using t(1) by (simp add: int_string_def)
  with f s n k fresh py_int_clock [OF t] show "verify_runtime_tool cy (flatten (runtime_headers cy rt kid secret path body now))
      ''POST'' path body runtimes tol now' = Inr rt"
    by (simp add: verify_runtime_tool_def filled_header_def compare_digest_def)
  have "list_ex (\<lambda>h. lower (fst h) = ''x-agent-runtime-id'') (flatten (extra @ runtime_headers cy rt kid secret path body now))"
    by (simp add: flatten_def runtime_headers_def Let_def lower_names)
  then have "verify_signature cy (flatten (extra @ runtime_headers cy rt kid secret path body now)) ''POST'' path body cl tol2 now2 =
      Inl (SignatureError ''IDENTITY'')"
    unfolding verify_signature_def by (rule if_P)
  then show "caller cy cl tol2 wr now2 \<lparr>hr_method = ''POST'', hr_path = path, hr_body = body,
      hr_headers = extra @ runtime_headers cy rt kid secret path body now\<rparr> = Inl (HttpError 401)"
    by (simp add: caller_def assert_single_service_headers_def res_bind_def ensure_def)
qed

section \<open>A concrete exchange\<close>

definition demo_crypto :: crypto where
  "demo_crypto = \<lparr>cy_sha256 = (\<lambda>x. replicate 64 (if x = [] then CHR ''0'' else CHR ''1'')),
     cy_hmac = (\<lambda>k x. replicate 64 (if k = ''s'' then CHR ''a'' else CHR ''b'')), cy_iso = (\<lambda>_. IsoInvalid)\<rparr>"

definition demo_signers :: clients where
  "demo_signers = [(''c'', [(''keys'', JObj [(''k'', JStr ''s'')])])]"

definition demo_request :: "string \<Rightarrow> http_request" where
  "demo_request path = \<lparr>hr_method = ''post'', hr_path = path, hr_body = ''b'',
     hr_headers = [(''X-Agent-Client-Id'', ''c''), (''x-agent-key-id'', ''k''), (''x-agent-timestamp'', ''+1_0''),
       (''x-agent-signature'', replicate 64 (CHR ''a'')), (''idempotency-key'', ''i'')]\<rparr>"

lemma demo_crypto_ok: "crypto_ok demo_crypto"
  by (simp add: crypto_ok_def demo_crypto_def list_all_iff hex_char_def)

lemma demo_calls: "caller demo_crypto demo_signers 5 True 9000000 (demo_request ''/a'') = Inr (''c'', JStr ''c'', ''b'')"
  by code_simp

theorem signature_binds_request_witness:
  "upper (hr_method (demo_request ''/a'')) = ''POST'' \<and>
    getlist (hr_headers (demo_request ''/a'')) ''x-agent-timestamp'' = [''+1_0'']"
proof -
  have n: "CHR 0x0A \<notin> set (hr_method (demo_request ''/a''))"
    "\<And>h. h \<in> set (hr_headers (demo_request ''/a'')) \<union> set (hr_headers (demo_request ''/a'')) \<Longrightarrow> CHR 0x0A \<notin> set (snd h)"
    by (auto simp: demo_request_def)
  have "upper (hr_method (demo_request ''/a'')) = ''POST''"
    "getlist (hr_headers (demo_request ''/a'')) ''x-agent-timestamp'' = [''+1_0'']" by code_simp+
  with signature_binds_request [OF demo_crypto_ok demo_calls demo_calls HOL.refl HOL.refl n(1,1,2)] show ?thesis by blast
qed

theorem runtime_signature_one_way_witness:
  "verify_runtime_tool demo_crypto (flatten (runtime_headers demo_crypto ''c'' ''k'' ''s'' ''/p'' ''b'' 7000000)) ''POST'' ''/p'' ''b''
     demo_signers 5 9000000 = Inr ''c'' \<and>
   caller demo_crypto demo_signers 5 True 9000000 \<lparr>hr_method = ''POST'', hr_path = ''/p'', hr_body = ''b'',
      hr_headers = [(''x-agent-client-id'', ''c'')] @ runtime_headers demo_crypto ''c'' ''k'' ''s'' ''/p'' ''b'' 7000000\<rparr> = Inl (HttpError 401)"
proof -
  have n: "''c'' \<noteq> []" "''k'' \<noteq> []" "(0::int) \<le> 7000000" "(7000000::int) < 253402300800000000" by simp_all
  have "map_of demo_signers ''c'' = Some [(''keys'', JObj [(''k'', JStr ''s'')])]"
    "active_key_secret demo_crypto 9000000 (client_key [(''keys'', JObj [(''k'', JStr ''s'')])] ''k'') = Some ''s''"
    "\<not> age_exceeds 9000000 (seconds (7000000 div 1000000)) 5" by code_simp+
  from runtime_signature_one_way [OF demo_crypto_ok n this] show ?thesis by fast
qed

end
