(* ===== verification/Native_Tools.thy ===== *)
theory Native_Tools
  imports Service_Auth
begin

text \<open>
  The tools without side effects that are part of the runtime (\<open>app/runtime/native_tools.py\<close>) and the
  small JSON repair of the model nodes (\<open>app/runtime/json_repair.py\<close>). The JSON parser and
  \<open>ast.literal_eval\<close> are parameters. The regular expression for identifiers,
  \<open>(?<!\d)(?:1[3-9]\d{9}|\d{17}[\dXx])(?!\d)\<close>, which the tool gateway uses as well, is the
  search \<open>sensitive_text\<close>; \<open>sensitive_text_iff\<close> states what it finds.
\<close>

section \<open>Identifiers\<close>

text \<open>A mobile phone number, or an identity card number, at the front of a text and not followed by a
  further digit.\<close>

definition ends_number :: "nat \<Rightarrow> string \<Rightarrow> bool" where
  "ends_number n x \<longleftrightarrow> n \<le> length x \<and> (n = length x \<or> \<not> digit (x ! n))"

definition phone_here :: "string \<Rightarrow> bool" where
  "phone_here x \<longleftrightarrow> ends_number 11 x \<and> x ! 0 = CHR ''1'' \<and> x ! 1 \<in> set ''3456789'' \<and> list_all digit (take 11 x)"

definition id_card_here :: "string \<Rightarrow> bool" where
  "id_card_here x \<longleftrightarrow> ends_number 18 x \<and> list_all digit (take 17 x) \<and> (digit (x ! 17) \<or> x ! 17 \<in> set ''Xx'')"

fun search_identifier :: "bool \<Rightarrow> string \<Rightarrow> bool" where
  "search_identifier after_digit [] = False"
| "search_identifier after_digit (c # cs) =
     (\<not> after_digit \<and> (phone_here (c # cs) \<or> id_card_here (c # cs)) \<or> search_identifier (digit c) cs)"

definition sensitive_text :: "string \<Rightarrow> bool" where
  "sensitive_text x = search_identifier False x"

fun contains_sensitive_identifier :: "json \<Rightarrow> bool" where
  "contains_sensitive_identifier (JStr x) = sensitive_text x"
| "contains_sensitive_identifier (JObj d) = list_ex (\<lambda>kv. contains_sensitive_identifier (snd kv)) d"
| "contains_sensitive_identifier (JList xs) = list_ex contains_sensitive_identifier xs"
| "contains_sensitive_identifier _ = False"

section \<open>Summaries and repairs\<close>

definition summarize_keys :: "json \<Rightarrow> json \<Rightarrow> runtime_error + (string list \<times> int)" where
  "summarize_keys v bound =
     (case as_int bound of
        None \<Rightarrow> Inl (ValueError ''max_items'')
      | Some n \<Rightarrow>
          if n < 0 then Inl (ValueError ''max_items'')
          else Inr (case v of
              JObj d \<Rightarrow> (take (nat n) (sort (map fst d)), int (length d))
            | JList xs \<Rightarrow> ([], int (length xs))
            | _ \<Rightarrow> ([], 0)))"

definition starts_with :: "string \<Rightarrow> string \<Rightarrow> bool" where
  "starts_with p x \<longleftrightarrow> take (length p) x = p"

definition ends_with :: "string \<Rightarrow> string \<Rightarrow> bool" where
  "ends_with p x \<longleftrightarrow> length p \<le> length x \<and> drop (length x - length p) x = p"

definition remove_suffix :: "string \<Rightarrow> string \<Rightarrow> string" where
  "remove_suffix p x = (if ends_with p x then take (length x - length p) x else x)"

definition repair_json_once :: "(string \<Rightarrow> json option) \<Rightarrow> json \<Rightarrow> json" where
  "repair_json_once loads v =
     (case v of
        JStr x \<Rightarrow>
          (let y = strip x in
           if starts_with ''```json'' y \<and> \<not> ends_with ''```'' y then JNull
           else (let z = (if starts_with ''```json'' y then strip (remove_suffix ''```'' (drop 7 y)) else y)
                 in case loads z of None \<Rightarrow> JNull | Some j \<Rightarrow> j))
      | _ \<Rightarrow> JNull)"

text \<open>\<open>parse_json_once\<close> drops the first and the last line of a fenced text.\<close>

definition after_first_line :: "string \<Rightarrow> string option" where
  "after_first_line x = (case dropWhile (\<lambda>c. c \<noteq> CHR 0x0A) x of [] \<Rightarrow> None | _ # y \<Rightarrow> Some y)"

definition before_last_line :: "string \<Rightarrow> string" where
  "before_last_line x = (case dropWhile (\<lambda>c. c \<noteq> CHR 0x0A) (rev x) of [] \<Rightarrow> x | _ # y \<Rightarrow> rev y)"

definition parse_json_once :: "(string \<Rightarrow> json option) \<Rightarrow> (string \<Rightarrow> json option) \<Rightarrow> json \<Rightarrow> json \<times> string" where
  "parse_json_once loads literal_eval v =
     (case v of
        JStr x \<Rightarrow>
          (let y = strip x;
               z = (if starts_with ''```'' y \<and> ends_with ''```'' y
                    then (case after_first_line y of None \<Rightarrow> '''' | Some t \<Rightarrow> before_last_line t) else y)
           in case loads z of
                Some j \<Rightarrow> (j, ''parsed'')
              | None \<Rightarrow> (case literal_eval z of Some j \<Rightarrow> (j, ''repaired'') | None \<Rightarrow> (JNull, ''failed'')))
      | _ \<Rightarrow> (JNull, ''failed''))"

section \<open>What the search finds\<close>

definition identifier_text :: "string \<Rightarrow> bool" where
  "identifier_text m \<longleftrightarrow>
     length m = 11 \<and> m ! 0 = CHR ''1'' \<and> m ! 1 \<in> set ''3456789'' \<and> list_all digit m \<or>
     length m = 18 \<and> list_all digit (take 17 m) \<and> (digit (m ! 17) \<or> m ! 17 \<in> set ''Xx'')"

text \<open>A text that contains an identifier which no digit touches.\<close>

definition identifier_inside :: "string \<Rightarrow> bool" where
  "identifier_inside x \<longleftrightarrow> (\<exists>a m b. x = a @ m @ b \<and> identifier_text m \<and>
     (a = [] \<or> \<not> digit (last a)) \<and> (b = [] \<or> \<not> digit (hd b)))"

lemma here_iff:
  "phone_here x \<or> id_card_here x \<longleftrightarrow> (\<exists>m b. x = m @ b \<and> identifier_text m \<and> (b = [] \<or> \<not> digit (hd b)))"
proof
  assume "phone_here x \<or> id_card_here x"
  then show "\<exists>m b. x = m @ b \<and> identifier_text m \<and> (b = [] \<or> \<not> digit (hd b))"
  proof
    assume "phone_here x"
    then show ?thesis
      by (intro exI [of _ "take 11 x"] exI [of _ "drop 11 x"])
        (auto simp: phone_here_def ends_number_def identifier_text_def hd_drop_conv_nth)
  next
    assume "id_card_here x"
    then show ?thesis
      by (intro exI [of _ "take 18 x"] exI [of _ "drop 18 x"])
        (auto simp: id_card_here_def ends_number_def identifier_text_def hd_drop_conv_nth min_def)
  qed
next
  assume "\<exists>m b. x = m @ b \<and> identifier_text m \<and> (b = [] \<or> \<not> digit (hd b))"
  then obtain m b where x: "x = m @ b" and m: "identifier_text m" and b: "b = [] \<or> \<not> digit (hd b)" by blast
  have e: "ends_number (length m) x" using b by (cases b) (auto simp: ends_number_def x nth_append)
  from m show "phone_here x \<or> id_card_here x"
    unfolding identifier_text_def
  proof
    assume "length m = 11 \<and> m ! 0 = CHR ''1'' \<and> m ! 1 \<in> set ''3456789'' \<and> list_all digit m"
    with e show ?thesis by (auto simp: phone_here_def x nth_append)
  next
    assume "length m = 18 \<and> list_all digit (take 17 m) \<and> (digit (m ! 17) \<or> m ! 17 \<in> set ''Xx'')"
    with e show ?thesis by (auto simp: id_card_here_def x nth_append)
  qed
qed

lemma search_identifier_iff:
  "search_identifier p x \<longleftrightarrow> (\<exists>a m b. x = a @ m @ b \<and> identifier_text m \<and>
     (if a = [] then \<not> p else \<not> digit (last a)) \<and> (b = [] \<or> \<not> digit (hd b)))"
proof (induction p x rule: search_identifier.induct)
  case (1 p)
  then show ?case by (auto simp: identifier_text_def)
next
  case (2 p c cs)
  show ?case
  proof
    assume "search_identifier p (c # cs)"
    then consider "\<not> p" "phone_here (c # cs) \<or> id_card_here (c # cs)" | "search_identifier (digit c) cs" by auto
    then show "\<exists>a m b. c # cs = a @ m @ b \<and> identifier_text m \<and>
      (if a = [] then \<not> p else \<not> digit (last a)) \<and> (b = [] \<or> \<not> digit (hd b))"
    proof cases
      case 1
      then show ?thesis unfolding here_iff by (metis append_Nil)
    next
      case 2
      then obtain a m b where "cs = a @ m @ b" "identifier_text m" "if a = [] then \<not> digit c else \<not> digit (last a)"
        "b = [] \<or> \<not> digit (hd b)" using "2.IH" by blast
      then show ?thesis by (intro exI [of _ "c # a"] exI [of _ m] exI [of _ b]) auto
    qed
  next
    assume "\<exists>a m b. c # cs = a @ m @ b \<and> identifier_text m \<and>
      (if a = [] then \<not> p else \<not> digit (last a)) \<and> (b = [] \<or> \<not> digit (hd b))"
    then obtain a m b where x: "c # cs = a @ m @ b" and m: "identifier_text m"
      and a: "if a = [] then \<not> p else \<not> digit (last a)" and b: "b = [] \<or> \<not> digit (hd b)" by blast
    show "search_identifier p (c # cs)"
    proof (cases a)
      case Nil
      with x have "c # cs = m @ b" by simp
      with m b have "phone_here (c # cs) \<or> id_card_here (c # cs)" unfolding here_iff by blast
      with a Nil show ?thesis by simp
    next
      case (Cons d a')
      with x have "cs = a' @ m @ b" "d = c" by auto
      moreover from Cons a this have "if a' = [] then \<not> digit c else \<not> digit (last a')" by (auto split: if_splits)
      ultimately have "search_identifier (digit c) cs" using "2.IH" m b by blast
      then show ?thesis by simp
    qed
  qed
qed

lemma sensitive_text_iff: "sensitive_text x \<longleftrightarrow> identifier_inside x"
proof -
  have "(if a = [] then \<not> False else \<not> digit (last a)) \<longleftrightarrow> a = [] \<or> \<not> digit (last a)" for a by simp
  then show ?thesis unfolding sensitive_text_def identifier_inside_def search_identifier_iff by (simp only:)
qed

lemma contains_identifier_iff:
  "contains_sensitive_identifier v \<longleftrightarrow> (\<exists>x. subvalue v (JStr x) \<and> identifier_inside x)"
proof
  show "contains_sensitive_identifier v \<Longrightarrow> \<exists>x. subvalue v (JStr x) \<and> identifier_inside x"
  proof (induction v rule: contains_sensitive_identifier.induct)
    case (1 x)
    then show ?case by (auto simp: sensitive_text_iff intro: sub_self)
  next
    case (2 d)
    then obtain k x where kx: "(k, x) \<in> set d" "contains_sensitive_identifier x" by (auto simp: list_ex_iff)
    with 2(1) [OF kx(1)] show ?case by (auto intro: sub_entry)
  next
    case (3 xs)
    then obtain x where "x \<in> set xs" "contains_sensitive_identifier x" by (auto simp: list_ex_iff)
    with 3(1) show ?case by (blast intro: sub_item)
  qed simp_all
  have "subvalue v w \<Longrightarrow> w = JStr x \<Longrightarrow> identifier_inside x \<Longrightarrow> contains_sensitive_identifier v" for w x
    by (induction rule: subvalue.induct) (force simp: sensitive_text_iff list_ex_iff)+
  then show "\<exists>x. subvalue v (JStr x) \<and> identifier_inside x \<Longrightarrow> contains_sensitive_identifier v" by blast
qed

lemma summarize_keys_total: "\<exists>r. summarize_keys v (JInt 32) = Inr r"
  by (simp add: summarize_keys_def)

end
