(* ===== verification/Playback_Checks.thy ===== *)
theory Playback_Checks
  imports Native_Tools
begin

text \<open>
  The deterministic checks on what a model returns: \<open>app/runtime/semantic_validation.py\<close>, the guardrails
  (\<open>app/runtime/guardrails.py\<close>), the evaluator that decides whether a playback document is published
  (\<open>app/runtime/evaluator.py\<close>), the ledger of its decisions (\<open>app/services/evaluation_service.py\<close>) and the
  parser of structured output (\<open>app/runtime/structured_output.py\<close>).

  Error codes are strings, in the order the code appends them. \<open>x in frozenset(...)\<close> raises \<open>TypeError\<close>
  for a list or an object. The regular expression over Chinese text is the parameter \<open>emotional\<close>, the
  schema of the parser is \<open>schema\<close>: the JSON form of the validated value, or \<open>None\<close>.
\<close>

section \<open>Semantic validation\<close>

definition forbidden_control_fields :: "string list" where
  "forbidden_control_fields =
     [''url'', ''endpoint'', ''connector'', ''connector_id'', ''permission'', ''callback_target'', ''authorization'',
      ''authorization_version'', ''privacy'', ''privacy_version'', ''generation'', ''generation_epoch'', ''fencing_token'',
      ''execution_attempt'', ''run_id'', ''package_digest'', ''contract_version'', ''secret'', ''token'', ''access_token'',
      ''api_key'', ''password'', ''owner_id'', ''owner_scope'', ''tenant_id'', ''user_id'']"

definition playback_actions :: "string list" where
  "playback_actions = [''show_card'', ''focus_image'', ''type_text'', ''hold'', ''play_tts'', ''transition'']"

definition stat_keys :: "string list" where
  "stat_keys = [''diary_count'', ''bet_count'', ''has_material'']"

fun contains_forbidden_control_field :: "json \<Rightarrow> bool" where
  "contains_forbidden_control_field (JObj d) =
     list_ex (\<lambda>kv. lower (fst kv) \<in> set forbidden_control_fields \<or> contains_forbidden_control_field (snd kv)) d"
| "contains_forbidden_control_field (JList xs) = list_ex contains_forbidden_control_field xs"
| "contains_forbidden_control_field _ = False"

definition code_if :: "bool \<Rightarrow> string \<Rightarrow> string list" where
  "code_if b code = (if b then [code] else [])"

fun member_of :: "json \<Rightarrow> string list \<Rightarrow> runtime_error + bool" where
  "member_of (JStr x) names = Inr (x \<in> set names)"
| "member_of (JList _) names = Inl TypeError"
| "member_of (JObj _) names = Inl TypeError"
| "member_of _ names = Inr False"

fun trusted :: "string list \<Rightarrow> json \<Rightarrow> bool" where
  "trusted refs (JStr x) = (x \<in> set refs)"
| "trusted refs _ = False"

fun refs_trusted :: "string list \<Rightarrow> json \<Rightarrow> bool" where
  "refs_trusted refs (JList xs) = list_all (trusted refs) xs"
| "refs_trusted refs _ = False"

definition source_refs_of :: "dict \<Rightarrow> json" where
  "source_refs_of d = dget_default d ''source_refs'' (JList [])"

fun int_from :: "int \<Rightarrow> json \<Rightarrow> bool" where
  "int_from lo (JInt n) = (lo \<le> n)"
| "int_from lo _ = False"

fun is_bool :: "json \<Rightarrow> bool" where
  "is_bool (JBool _) = True"
| "is_bool _ = False"

text \<open>An identifier that is a text, not empty and not used before.\<close>

definition new_id :: "json \<Rightarrow> string list \<Rightarrow> string option" where
  "new_id v ids = (case v of JStr x \<Rightarrow> if x = '''' \<or> x \<in> set ids then None else Some x | _ \<Rightarrow> None)"

definition known_id :: "json \<Rightarrow> string list \<Rightarrow> string option" where
  "known_id v ids = (case v of JStr x \<Rightarrow> if x \<in> set ids then Some x else None | _ \<Rightarrow> None)"

definition with_id :: "string option \<Rightarrow> string list \<Rightarrow> string list" where
  "with_id x ids = (case x of None \<Rightarrow> ids | Some i \<Rightarrow> ids @ [i])"

fun container_scenes :: "string list \<Rightarrow> json list \<Rightarrow> string list \<Rightarrow> string list \<times> string list" where
  "container_scenes refs [] ids = ([], ids)"
| "container_scenes refs (JObj d # xs) ids =
     (let i = new_id (dget d ''scene_id'') ids; (es, ids') = container_scenes refs xs (with_id i ids)
      in (code_if (i = None) ''SCENE_ID_INVALID'' @
          code_if (\<not> refs_trusted refs (source_refs_of d)) ''UNKNOWN_SOURCE_REF'' @ es, ids'))"
| "container_scenes refs (_ # xs) ids = (let (es, ids') = container_scenes refs xs ids in (''SCENE_INVALID'' # es, ids'))"

fun container_actions ::
  "string list \<Rightarrow> json list \<Rightarrow> string list \<Rightarrow> runtime_error + (string list \<times> string list)" where
  "container_actions ids [] cov = Inr ([], cov)"
| "container_actions ids (JObj d # xs) cov =
     (let i = known_id (dget d ''scene_id'') ids
      in res_bind (member_of (dget d ''action_type'') playback_actions) (\<lambda>known.
         res_bind (container_actions ids xs (with_id i cov)) (\<lambda>(es, cov').
         Inr (code_if (i = None) ''ACTION_SCENE_REF_INVALID'' @ code_if (\<not> known) ''ACTION_TYPE_INVALID'' @
              code_if (\<not> int_from 1 (dget d ''duration_ms'')) ''INVALID_DURATION'' @ es, cov'))))"
| "container_actions ids (_ # xs) cov =
     res_bind (container_actions ids xs cov) (\<lambda>(es, cov'). Inr (''ACTION_INVALID'' # es, cov'))"

definition stats_errors :: "json \<Rightarrow> string list" where
  "stats_errors v =
     (case v of
        JNull \<Rightarrow> []
      | JObj d \<Rightarrow>
          if \<not> list_all (\<lambda>kv. fst kv \<in> set stat_keys) d then [''INVALID_STATS'']
          else code_if (\<not> int_from 0 (dget d ''diary_count'')) ''INVALID_STAT_COUNT'' @
               code_if (\<not> int_from 0 (dget d ''bet_count'')) ''INVALID_STAT_COUNT'' @
               code_if (\<not> is_bool (dget d ''has_material'')) ''INVALID_STATS''
      | _ \<Rightarrow> [''INVALID_STATS''])"

text \<open>A list of scenes that is too short, or of actions that does not match it, counts as empty from there on.\<close>

definition sized_items :: "(nat \<Rightarrow> bool) \<Rightarrow> json \<Rightarrow> json list option" where
  "sized_items p v = (case v of JList xs \<Rightarrow> if p (length xs) then Some xs else None | _ \<Rightarrow> None)"

definition items_or_none :: "json list option \<Rightarrow> json list" where
  "items_or_none x = (case x of None \<Rightarrow> [] | Some xs \<Rightarrow> xs)"

definition container_action_errors :: "nat \<Rightarrow> string list \<Rightarrow> json \<Rightarrow> runtime_error + string list" where
  "container_action_errors n ids v =
     (if v = JNull then Inr []
      else (let acts = sized_items (\<lambda>k. k = n) v
        in res_bind (container_actions ids (items_or_none acts) []) (\<lambda>(es, cov).
           Inr (code_if (acts = None) ''ACTION_COMPLETENESS_INVALID'' @ es @
                code_if (set cov \<noteq> set ids) ''ACTION_COMPLETENESS_INVALID''))))"

definition container_errors :: "string list \<Rightarrow> dict \<Rightarrow> runtime_error + string list" where
  "container_errors refs d =
     (if dget d ''scenes'' = JNull then Inr []
      else (let items = sized_items (\<lambda>k. 3 \<le> k) (dget d ''scenes''); xs = items_or_none items;
                (es, ids) = container_scenes refs xs []
        in res_bind (container_action_errors (length xs) ids (dget d ''actions'')) (\<lambda>es'.
           Inr (code_if (items = None) ''SCENE_COUNT_INVALID'' @ es @ es'))))"

definition validate_container :: "string list \<Rightarrow> dict \<Rightarrow> runtime_error + string list" where
  "validate_container refs d = res_bind (container_errors refs d) (\<lambda>es. Inr (es @ stats_errors (dget d ''stats'')))"

record semantic_result =
  sm_valid :: bool
  sm_error_codes :: "string list"
  sm_safe_summary :: "(string \<times> int) list"
  sm_normalized_value :: "dict option"

text \<open>\<open>tuple(dict.fromkeys(codes))\<close>: every code once, at its first place.\<close>

definition first_codes :: "string list \<Rightarrow> string list" where
  "first_codes codes = rev (remdups (rev codes))"

fun size_of_list :: "json \<Rightarrow> int" where
  "size_of_list (JList xs) = int (length xs)"
| "size_of_list _ = 0"

definition local_errors :: "string list \<Rightarrow> dict \<Rightarrow> string list" where
  "local_errors refs d =
     code_if (contains_forbidden_control_field (JObj d)) ''FORBIDDEN_CONTROL_FIELD'' @
     code_if (has_key d ''tool_params'') ''TOOL_PARAMETERS_FORBIDDEN'' @
     code_if (\<not> refs_trusted refs (source_refs_of d)) ''UNKNOWN_SOURCE_REF'' @
     code_if (dget d ''duration_ms'' \<noteq> JNull \<and> \<not> int_from 1 (dget d ''duration_ms'')) ''INVALID_DURATION''"

fun semantic_validate :: "string list \<Rightarrow> json \<Rightarrow> runtime_error + semantic_result" where
  "semantic_validate refs (JObj d) =
     res_bind (validate_container refs d) (\<lambda>es.
       let errs = local_errors refs d @ es
       in Inr \<lparr>sm_valid = (errs = []), sm_error_codes = first_codes errs,
           sm_safe_summary = [(''source_ref_count'', size_of_list (source_refs_of d))],
           sm_normalized_value = (if errs = [] then Some d else None)\<rparr>)"
| "semantic_validate refs _ =
     Inr \<lparr>sm_valid = False, sm_error_codes = [''SEMANTIC_VALUE_INVALID''], sm_safe_summary = [], sm_normalized_value = None\<rparr>"

section \<open>Guardrails\<close>

fun violations :: "(string \<Rightarrow> bool) \<Rightarrow> json \<Rightarrow> string list" where
  "violations emotional (JStr x) =
     code_if (contains_sensitive_identifier (JStr x)) ''SENSITIVE_IDENTIFIER_BLOCKED'' @
     code_if (emotional x) ''EMOTIONAL_LANGUAGE_BLOCKED''"
| "violations emotional _ = []"

section \<open>The evaluator\<close>

definition scene_types :: "string list" where
  "scene_types = [''cover'', ''stats'', ''diary_highlight'', ''bet_highlight'', ''image'', ''milestone'', ''summary'']"

definition safety_levels :: "string list" where
  "safety_levels = [''normal'', ''sensitive'', ''fallback'']"

definition capability_actions :: "(string \<times> string) list" where
  "capability_actions = [(''focus_image'', ''image''), (''play_tts'', ''tts'')]"

fun items_of :: "json \<Rightarrow> json list" where
  "items_of (JList xs) = xs"
| "items_of _ = []"

definition body_ok :: "json \<Rightarrow> bool" where
  "body_ok v \<longleftrightarrow> v = JNull \<or> is_str v"

text \<open>The codes of one scene; \<open>fresh\<close> says whether its identifier is new.\<close>

definition scene_codes :: "(string \<Rightarrow> bool) \<Rightarrow> string list \<Rightarrow> bool \<Rightarrow> dict \<Rightarrow> runtime_error + string list" where
  "scene_codes emotional refs fresh d =
     res_bind (semantic_validate refs (JObj d)) (\<lambda>sem.
     res_bind (member_of (dget d ''scene_type'') scene_types) (\<lambda>typed.
     res_bind (member_of (dget_default d ''safety_level'' (JStr ''normal'')) safety_levels) (\<lambda>level.
       Inr (sm_error_codes sem @ code_if (\<not> fresh) ''SCENE_ID_INVALID'' @ code_if (\<not> typed) ''SCENE_TYPE_INVALID'' @
            code_if (\<not> level) ''SCENE_SAFETY_LEVEL_INVALID'' @ code_if (\<not> body_ok (dget d ''body'')) ''SCENE_BODY_INVALID'' @
            violations emotional (dget d ''body'')))))"

text \<open>The codes of the scenes, the number of their references and their identifiers.\<close>

fun evaluate_scenes ::
  "(string \<Rightarrow> bool) \<Rightarrow> string list \<Rightarrow> json list \<Rightarrow> string list \<Rightarrow> runtime_error + (string list \<times> int \<times> string list)" where
  "evaluate_scenes emotional refs [] ids = Inr ([], 0, ids)"
| "evaluate_scenes emotional refs (JObj d # xs) ids =
     (let i = new_id (dget d ''scene_id'') ids
      in res_bind (scene_codes emotional refs (i \<noteq> None) d) (\<lambda>codes.
         res_bind (evaluate_scenes emotional refs xs (with_id i ids)) (\<lambda>(es, n, ids').
         Inr (codes @ es, size_of_list (dget d ''source_refs'') + n, ids'))))"
| "evaluate_scenes emotional refs (_ # xs) ids =
     res_bind (evaluate_scenes emotional refs xs ids) (\<lambda>(es, n, ids'). Inr (''SCENE_INVALID'' # es, n, ids'))"

text \<open>\<open>value == n\<close> for an integer \<open>n\<close>: booleans and floats compare by value.\<close>

fun equals_int :: "json \<Rightarrow> int \<Rightarrow> bool" where
  "equals_int (JInt i) n = (i = n)"
| "equals_int (JBool b) n = ((if b then 1 else 0) = n)"
| "equals_int (JFloat (Fin q)) n = (q = of_int n)"
| "equals_int _ n = False"

definition capability_enabled :: "string list \<Rightarrow> json \<Rightarrow> bool" where
  "capability_enabled caps v =
     (case v of
        JStr a \<Rightarrow> (case map_of capability_actions a of None \<Rightarrow> True | Some c \<Rightarrow> c \<in> set caps)
      | _ \<Rightarrow> True)"

definition action_type_errors :: "string list \<Rightarrow> json \<Rightarrow> bool \<Rightarrow> string list" where
  "action_type_errors caps v known =
     (if \<not> known then [''ACTION_TYPE_INVALID'']
      else code_if (\<not> capability_enabled caps v) ''ACTION_CAPABILITY_DISABLED'')"

definition action_codes :: "string list \<Rightarrow> string list \<Rightarrow> int \<Rightarrow> bool \<Rightarrow> bool \<Rightarrow> dict \<Rightarrow> runtime_error + string list" where
  "action_codes refs caps n fresh placed d =
     res_bind (semantic_validate refs (JObj d)) (\<lambda>sem.
     res_bind (member_of (dget d ''action_type'') playback_actions) (\<lambda>known.
       Inr (sm_error_codes sem @ code_if (\<not> fresh) ''ACTION_ID_INVALID'' @
            action_type_errors caps (dget d ''action_type'') known @
            code_if (\<not> equals_int (dget_default d ''action_order'' (JInt n)) n) ''ACTION_ORDER_INVALID'' @
            code_if (\<not> placed) ''ACTION_SCENE_REF_INVALID'')))"

fun evaluate_actions ::
  "string list \<Rightarrow> string list \<Rightarrow> string list \<Rightarrow> json list \<Rightarrow> int \<Rightarrow> string list \<Rightarrow> string list \<Rightarrow>
    runtime_error + (string list \<times> string list)" where
  "evaluate_actions refs caps scene_ids [] n aids cov = Inr ([], cov)"
| "evaluate_actions refs caps scene_ids (JObj d # xs) n aids cov =
     (let i = new_id (dget d ''action_id'') aids; j = known_id (dget d ''scene_id'') scene_ids
      in res_bind (action_codes refs caps n (i \<noteq> None) (j \<noteq> None) d) (\<lambda>codes.
         res_bind (evaluate_actions refs caps scene_ids xs (n + 1) (with_id i aids) (with_id j cov)) (\<lambda>(es, cov').
         Inr (codes @ es, cov'))))"
| "evaluate_actions refs caps scene_ids (_ # xs) n aids cov =
     res_bind (evaluate_actions refs caps scene_ids xs (n + 1) aids cov) (\<lambda>(es, cov'). Inr (''ACTION_INVALID'' # es, cov'))"

record evaluation_decision =
  ev_decision :: string
  ev_reasons :: "string list"
  ev_scores :: "(string \<times> int) list"
  ev_next_node :: string
  ev_safe_summary :: "(string \<times> int) list"

definition decide :: "string list \<Rightarrow> nat \<Rightarrow> nat \<Rightarrow> int \<Rightarrow> evaluation_decision" where
  "decide reasons scene_count action_count ref_count =
     (let unique = first_codes reasons
      in \<lparr>ev_decision = (if unique = [] then ''pass'' else ''fallback''), ev_reasons = unique,
          ev_scores = [(''grounding'', if ''UNKNOWN_SOURCE_REF'' \<in> set unique then 0 else 1),
            (''structure'', if unique = [] then 1 else 0)],
          ev_next_node = (if unique = [] then ''publish_document'' else ''safety_fallback''),
          ev_safe_summary = [(''scene_count'', int scene_count), (''action_count'', int action_count),
            (''source_ref_count'', ref_count)]\<rparr>)"

definition evaluate ::
  "(string \<Rightarrow> bool) \<Rightarrow> string list \<Rightarrow> string list \<Rightarrow> json \<Rightarrow> json \<Rightarrow> runtime_error + evaluation_decision" where
  "evaluate emotional refs caps scenes_v actions_v =
     (let xs = items_of scenes_v; ys = items_of actions_v
      in res_bind (evaluate_scenes emotional refs xs []) (\<lambda>(es, n, ids).
         res_bind (evaluate_actions refs caps ids ys 1 [] []) (\<lambda>(es', cov).
         Inr (decide (code_if (length xs < 3) ''SCENE_COUNT_INVALID'' @ es @ es' @
             code_if (length ys \<noteq> length xs \<or> set cov \<noteq> set ids) ''ACTION_COMPLETENESS_INVALID'')
           (length xs) (length ys) n))))"

section \<open>The ledger of evaluations\<close>

record agent_evaluation =
  evaluation_id :: string
  e_run_id :: string
  e_step_id :: "string option"
  target_type :: string
  target_id :: "string option"
  evaluator_type :: string
  score_json :: "(string \<times> int) list"
  e_decision :: string
  reason_summary :: string
  schema_passed :: bool
  grounding_passed :: bool
  material_reference_passed :: bool
  hallucination_detected :: bool
  emotional_safety_passed :: bool
  e_created_at :: time

text \<open>\<open>",".join(codes)\<close>.\<close>

fun comma_join :: "string list \<Rightarrow> string" where
  "comma_join [] = ''''"
| "comma_join [x] = x"
| "comma_join (x # y # xs) = x @ '','' @ comma_join (y # xs)"

definition record_evaluation ::
  "string \<Rightarrow> string option \<Rightarrow> string \<Rightarrow> string option \<Rightarrow> string \<Rightarrow> evaluation_decision \<Rightarrow> time \<Rightarrow>
    db \<times> agent_evaluation list \<Rightarrow> string \<times> db \<times> agent_evaluation list" where
  "record_evaluation rid sid ttype tid etype ev now st =
     (let (i, s1) = uuid4 (fst st);
          summary = (if ev_reasons ev = [] then ''OK'' else comma_join (ev_reasons ev));
          grounded = (map_of (ev_scores ev) ''grounding'' = Some 1)
      in (i, s1, snd st @ [\<lparr>evaluation_id = i, e_run_id = rid, e_step_id = sid, target_type = ttype, target_id = tid,
            evaluator_type = etype, score_json = ev_safe_summary ev, e_decision = ev_decision ev,
            reason_summary = take 500 summary, schema_passed = (map_of (ev_scores ev) ''structure'' = Some 1),
            grounding_passed = grounded, material_reference_passed = grounded,
            hallucination_detected = (''UNKNOWN_SOURCE_REF'' \<in> set (ev_reasons ev)),
            emotional_safety_passed = (\<not> list_ex (\<lambda>c. c \<in> {''EMOTIONAL_LANGUAGE_BLOCKED'', ''SENSITIVE_IDENTIFIER_BLOCKED''})
              (ev_reasons ev)),
            e_created_at = now\<rparr>]))"

section \<open>Structured output\<close>

record structured_result =
  so_validated_value :: "json option"
  parse_status :: string
  safety_status :: string
  so_error_codes :: "string list"

definition parse_and_validate ::
  "(string \<Rightarrow> json option) \<Rightarrow> (string \<Rightarrow> json option) \<Rightarrow> (json \<Rightarrow> json option) \<Rightarrow> string list \<Rightarrow> json \<Rightarrow>
    runtime_error + structured_result" where
  "parse_and_validate loads literal_eval schema refs raw =
     (let (v, st) = parse_json_once loads literal_eval raw
      in if \<not> is_str raw \<or> v = JNull
         then Inr \<lparr>so_validated_value = None, parse_status = ''failed'', safety_status = ''parse_failed'',
             so_error_codes = [''JSON_PARSE_FAILED'']\<rparr>
         else (case schema v of
             None \<Rightarrow> Inr \<lparr>so_validated_value = None, parse_status = st, safety_status = ''schema_validation_failed'',
               so_error_codes = [''SCHEMA_VALIDATION_FAILED'']\<rparr>
           | Some w \<Rightarrow>
               res_bind (semantic_validate refs w) (\<lambda>sem.
                 if \<not> sm_valid sem
                 then Inr \<lparr>so_validated_value = None, parse_status = st, safety_status = ''semantic_validation_failed'',
                     so_error_codes = sm_error_codes sem\<rparr>
                 else Inr \<lparr>so_validated_value = Some w, parse_status = st, safety_status = ''passed'', so_error_codes = []\<rparr>)))"

section \<open>What the checks accept\<close>

text \<open>A recursive scan of the keys finds an entry in some subvalue.\<close>

lemma key_scan_iff:
  assumes obj: "\<And>d. f (JObj d) = list_ex (\<lambda>kv. P (fst kv) \<or> f (snd kv)) d"
    and lst: "\<And>xs. f (JList xs) = list_ex f xs"
    and leaf: "\<And>v. (\<forall>d. v \<noteq> JObj d) \<Longrightarrow> (\<forall>xs. v \<noteq> JList xs) \<Longrightarrow> \<not> f v"
  shows "f v \<longleftrightarrow> (\<exists>d k x. subvalue v (JObj d) \<and> (k, x) \<in> set d \<and> P k)"
proof
  show "f v \<Longrightarrow> \<exists>d k x. subvalue v (JObj d) \<and> (k, x) \<in> set d \<and> P k"
  proof (induction v)
    case (JObj d)
    then obtain k x where kx: "(k, x) \<in> set d" "P k \<or> f x" by (auto simp: obj list_ex_iff)
    then show ?case using JObj.IH [of "(k, x)" x] by (auto intro: sub_self sub_entry)
  next
    case (JList xs)
    then obtain x where x: "x \<in> set xs" "f x" by (auto simp: lst list_ex_iff)
    then show ?case using JList.IH [of x] by (blast intro: sub_item)
  qed (use leaf in blast)+
  have "subvalue v w \<Longrightarrow> w = JObj d \<Longrightarrow> (k, x) \<in> set d \<Longrightarrow> P k \<Longrightarrow> f v" for w d k x
    by (induction rule: subvalue.induct) (force simp: obj lst list_ex_iff)+
  then show "\<exists>d k x. subvalue v (JObj d) \<and> (k, x) \<in> set d \<and> P k \<Longrightarrow> f v" by blast
qed

definition carries_control :: "json \<Rightarrow> bool" where
  "carries_control v \<longleftrightarrow> (\<exists>d k x. subvalue v (JObj d) \<and> (k, x) \<in> set d \<and> lower k \<in> set forbidden_control_fields)"

lemma contains_forbidden_iff: "contains_forbidden_control_field v \<longleftrightarrow> carries_control v"
  unfolding carries_control_def
proof (rule key_scan_iff)
  show "\<not> contains_forbidden_control_field v" if "\<forall>d. v \<noteq> JObj d" "\<forall>xs. v \<noteq> JList xs" for v
    using that by (cases v) auto
qed simp_all

text \<open>The identifiers under a key, in order: distinct texts, not empty and not in use before.\<close>

definition texts_at :: "string \<Rightarrow> dict list \<Rightarrow> string list \<Rightarrow> bool" where
  "texts_at key ds ks \<longleftrightarrow> map (\<lambda>d. dget d key) ds = map JStr ks"

definition fresh_ids :: "string \<Rightarrow> dict list \<Rightarrow> string list \<Rightarrow> string list \<Rightarrow> bool" where
  "fresh_ids key ds ids ks \<longleftrightarrow> texts_at key ds ks \<and> distinct ks \<and> [] \<notin> set ks \<and> set ks \<inter> set ids = {}"

lemma texts_at_Nil [simp]: "texts_at key [] ks \<longleftrightarrow> ks = []"
  by (auto simp: texts_at_def)

lemma texts_at_Cons:
  "texts_at key (d # ds) ks \<longleftrightarrow> (\<exists>i ks'. ks = i # ks' \<and> dget d key = JStr i \<and> texts_at key ds ks')"
  by (cases ks) (auto simp: texts_at_def)

lemma texts_at_length: "texts_at key ds ks \<Longrightarrow> length ks = length ds"
  unfolding texts_at_def by (metis length_map)

lemma new_id_Some: "new_id v ids = Some i \<longleftrightarrow> v = JStr i \<and> i \<noteq> [] \<and> i \<notin> set ids"
  by (auto simp: new_id_def split: json.splits)

lemma known_id_Some: "known_id v ids = Some i \<longleftrightarrow> v = JStr i \<and> i \<in> set ids"
  by (auto simp: known_id_def split: json.splits)

lemma fresh_ids_Nil [simp]: "fresh_ids key [] ids ks \<longleftrightarrow> ks = []"
  by (auto simp: fresh_ids_def)

lemma fresh_ids_Cons:
  "fresh_ids key (d # ds) ids ks \<longleftrightarrow>
    (\<exists>i ks'. ks = i # ks' \<and> new_id (dget d key) ids = Some i \<and> fresh_ids key ds (ids @ [i]) ks')"
  by (auto simp: fresh_ids_def texts_at_Cons new_id_Some)

lemma Ex_fresh_ids_Cons:
  "(\<exists>ks. fresh_ids key (d # ds) ids ks) \<longleftrightarrow>
    (\<exists>i. new_id (dget d key) ids = Some i \<and> (\<exists>ks. fresh_ids key ds (ids @ [i]) ks))"
  unfolding fresh_ids_Cons by blast

lemma code_if_Nil [simp]: "code_if b c = [] \<longleftrightarrow> \<not> b"
  by (simp add: code_if_def)

lemma with_id_Some [simp]: "with_id (Some i) ids = ids @ [i]"
  by (simp add: with_id_def)

lemma first_codes_Nil [simp]: "first_codes es = [] \<longleftrightarrow> es = []"
  by (simp add: first_codes_def)

lemma set_first_codes [simp]: "set (first_codes es) = set es"
  by (simp add: first_codes_def)

lemma distinct_first_codes [simp]: "distinct (first_codes es)"
  by (simp add: first_codes_def)

lemma member_of_True: "member_of v names = Inr True \<longleftrightarrow> (\<exists>x\<in>set names. v = JStr x)"
  by (cases v) auto

lemma map_JObj_eq [simp]: "map JObj xs = map JObj ys \<longleftrightarrow> xs = ys"
  by (rule inj_map_eq_map) (simp add: inj_def)

lemma objects_Cons: "(\<exists>ds. JObj d # xs = map JObj ds \<and> P ds) \<longleftrightarrow> (\<exists>ds. xs = map JObj ds \<and> P (d # ds))"
  by (auto simp: Cons_eq_map_conv)

lemma all_objects_Cons: "(\<exists>ds. v # xs = map JObj ds \<and> P ds) \<longleftrightarrow> (\<exists>d ds. v = JObj d \<and> xs = map JObj ds \<and> P (d # ds))"
  by (auto simp: Cons_eq_map_conv)

text \<open>What a value must satisfy for the validator to report nothing.\<close>

lemma container_scenes_clean:
  "container_scenes refs xs ids = ([], ids') \<longleftrightarrow>
    (\<exists>ds. xs = map JObj ds \<and> (\<exists>ks. fresh_ids ''scene_id'' ds ids ks \<and> ids' = ids @ ks) \<and>
      (\<forall>d\<in>set ds. refs_trusted refs (source_refs_of d)))"
proof (induction refs xs ids arbitrary: ids' rule: container_scenes.induct)
  case (2 refs d xs ids)
  show ?case
  proof (cases "new_id (dget d ''scene_id'') ids")
    case None
    then show ?thesis by (auto simp: fresh_ids_Cons all_objects_Cons split: prod.splits)
  next
    case (Some i)
    have "container_scenes refs (JObj d # xs) ids = ([], ids') \<longleftrightarrow>
        refs_trusted refs (source_refs_of d) \<and> container_scenes refs xs (ids @ [i]) = ([], ids')"
      by (auto simp: Some split: prod.splits)
    with 2 [OF refl] Some show ?thesis by (auto simp: fresh_ids_Cons all_objects_Cons)
  qed
qed (auto simp: all_objects_Cons split: prod.splits)

definition timed_action :: "dict \<Rightarrow> bool" where
  "timed_action d \<longleftrightarrow> (\<exists>x\<in>set playback_actions. dget d ''action_type'' = JStr x) \<and> int_from 1 (dget d ''duration_ms'')"

lemma container_actions_clean:
  "container_actions ids ys cov = Inr ([], cov') \<longleftrightarrow>
    (\<exists>ds. ys = map JObj ds \<and> (\<exists>ts. texts_at ''scene_id'' ds ts \<and> set ts \<subseteq> set ids \<and> cov' = cov @ ts) \<and>
      list_all timed_action ds)"
proof (induction ids ys cov arbitrary: cov' rule: container_actions.induct)
  case (2 ids d xs cov)
  show ?case
  proof (cases "known_id (dget d ''scene_id'') ids")
    case None
    then have "container_actions ids (JObj d # xs) cov \<noteq> Inr ([], cov')" by (auto simp: res_simps)
    moreover have "\<not> (\<exists>ts. texts_at ''scene_id'' (d # ds) ts \<and> set ts \<subseteq> set ids)" for ds
      using None by (auto simp: texts_at_Cons known_id_def)
    ultimately show ?thesis unfolding all_objects_Cons by blast
  next
    case (Some i)
    have "container_actions ids (JObj d # xs) cov = Inr ([], cov') \<longleftrightarrow>
        timed_action d \<and>
        container_actions ids xs (cov @ [i]) = Inr ([], cov')"
      by (cases "dget d ''action_type''") (auto simp: Some res_simps timed_action_def)
    with 2 [OF refl, where cov' = cov'] Some show ?thesis
      by (auto simp: texts_at_Cons all_objects_Cons known_id_Some)
  qed
qed (auto simp: all_objects_Cons res_simps)

text \<open>A playback container: at least three scenes with distinct identifiers, and one action for each of them.\<close>

definition container_ok :: "string list \<Rightarrow> dict \<Rightarrow> bool" where
  "container_ok refs d \<longleftrightarrow> dget d ''scenes'' = JNull \<or>
     (\<exists>ds ids. dget d ''scenes'' = JList (map JObj ds) \<and> 3 \<le> length ds \<and> fresh_ids ''scene_id'' ds [] ids \<and>
        (\<forall>sd\<in>set ds. refs_trusted refs (source_refs_of sd)) \<and>
        (dget d ''actions'' = JNull \<or>
         (\<exists>as ts. dget d ''actions'' = JList (map JObj as) \<and> length as = length ds \<and> texts_at ''scene_id'' as ts \<and>
            set ts = set ids \<and> list_all timed_action as)))"

definition stats_ok :: "json \<Rightarrow> bool" where
  "stats_ok v \<longleftrightarrow> v = JNull \<or> (\<exists>d. v = JObj d \<and> fst ` set d \<subseteq> set stat_keys \<and> int_from 0 (dget d ''diary_count'') \<and>
     int_from 0 (dget d ''bet_count'') \<and> is_bool (dget d ''has_material''))"

lemma stats_errors_Nil: "stats_errors v = [] \<longleftrightarrow> stats_ok v"
  by (cases v) (auto simp: stats_errors_def stats_ok_def list_all_iff)

lemma sized_items_Some: "sized_items p v = Some xs \<longleftrightarrow> v = JList xs \<and> p (length xs)"
  by (auto simp: sized_items_def split: json.splits)

lemma sized_actions_clean:
  "(\<exists>ys cov. sized_items p v = Some ys \<and> container_actions ids ys [] = Inr ([], cov) \<and> set cov = set ids) \<longleftrightarrow>
    (\<exists>ds ts. v = JList (map JObj ds) \<and> p (length ds) \<and> texts_at ''scene_id'' ds ts \<and> set ts = set ids \<and> list_all timed_action ds)"
  (is "?l \<longleftrightarrow> ?r")
proof
  assume ?l
  then obtain ys cov where v: "v = JList ys" "p (length ys)" and c: "container_actions ids ys [] = Inr ([], cov)" "set cov = set ids"
    by (auto simp: sized_items_Some)
  from c obtain ds ts where "ys = map JObj ds" "texts_at ''scene_id'' ds ts" "cov = ts" "list_all timed_action ds"
    by (auto simp: container_actions_clean)
  with v c(2) show ?r by (intro exI [of _ ds] exI [of _ ts]) simp
next
  assume ?r
  then obtain ds ts where v: "v = JList (map JObj ds)" "p (length ds)" and t: "texts_at ''scene_id'' ds ts" "set ts = set ids"
    and a: "list_all timed_action ds" by blast
  then have "container_actions ids (map JObj ds) [] = Inr ([], ts)"
    unfolding container_actions_clean by (intro exI [of _ ds]) auto
  with v t show ?l by (intro exI [of _ "map JObj ds"] exI [of _ ts]) (simp add: sized_items_Some)
qed

lemma container_action_errors_clean:
  "container_action_errors n ids v = Inr [] \<longleftrightarrow> v = JNull \<or>
    (\<exists>ds ts. v = JList (map JObj ds) \<and> length ds = n \<and> texts_at ''scene_id'' ds ts \<and> set ts = set ids \<and> list_all timed_action ds)"
  unfolding sized_actions_clean [where p = "\<lambda>k. k = n", symmetric]
  by (auto simp: container_action_errors_def Let_def res_simps items_or_none_def split: option.split)

lemma container_errors_clean: "container_errors refs d = Inr [] \<longleftrightarrow> container_ok refs d"
proof -
  have "container_errors refs d = Inr [] \<longleftrightarrow> dget d ''scenes'' = JNull \<or>
      (\<exists>xs ids. sized_items (\<lambda>k. 3 \<le> k) (dget d ''scenes'') = Some xs \<and> container_scenes refs xs [] = ([], ids) \<and>
        container_action_errors (length xs) ids (dget d ''actions'') = Inr [])"
    by (auto simp: container_errors_def Let_def res_simps items_or_none_def split: option.split prod.split)
  also have "\<dots> \<longleftrightarrow> dget d ''scenes'' = JNull \<or>
      (\<exists>ds ids. dget d ''scenes'' = JList (map JObj ds) \<and> 3 \<le> length ds \<and> container_scenes refs (map JObj ds) [] = ([], ids) \<and>
        container_action_errors (length ds) ids (dget d ''actions'') = Inr [])"
    by (auto simp: sized_items_Some container_scenes_clean)
  also have "\<dots> \<longleftrightarrow> container_ok refs d"
    unfolding container_ok_def container_action_errors_clean [symmetric] container_scenes_clean by auto
  finally show ?thesis .
qed

lemma validate_container_clean:
  "validate_container refs d = Inr [] \<longleftrightarrow> container_ok refs d \<and> stats_ok (dget d ''stats'')"
  by (auto simp: validate_container_def res_simps stats_errors_Nil container_errors_clean)

definition semantic_clean :: "string list \<Rightarrow> dict \<Rightarrow> bool" where
  "semantic_clean refs d \<longleftrightarrow> \<not> carries_control (JObj d) \<and> \<not> has_key d ''tool_params'' \<and> refs_trusted refs (source_refs_of d) \<and>
     (dget d ''duration_ms'' = JNull \<or> int_from 1 (dget d ''duration_ms'')) \<and>
     container_ok refs d \<and> stats_ok (dget d ''stats'')"

lemma semantic_clean_iff:
  "(\<exists>r. semantic_validate refs (JObj d) = Inr r \<and> sm_error_codes r = []) \<longleftrightarrow> semantic_clean refs d"
  by (auto simp: semantic_clean_def res_simps Let_def local_errors_def contains_forbidden_iff
      validate_container_clean [symmetric])

lemma semantic_valid_iff: "semantic_validate refs v = Inr r \<Longrightarrow> sm_valid r \<longleftrightarrow> sm_error_codes r = []"
  by (cases v) (auto simp: res_simps Let_def)

section \<open>What is published\<close>

definition body_safe :: "(string \<Rightarrow> bool) \<Rightarrow> json \<Rightarrow> bool" where
  "body_safe emotional v \<longleftrightarrow> v = JNull \<or> (\<exists>x. v = JStr x \<and> \<not> identifier_inside x \<and> \<not> emotional x)"

definition scene_publishable :: "(string \<Rightarrow> bool) \<Rightarrow> string list \<Rightarrow> dict \<Rightarrow> bool" where
  "scene_publishable emotional refs d \<longleftrightarrow> semantic_clean refs d \<and> (\<exists>x\<in>set scene_types. dget d ''scene_type'' = JStr x) \<and>
     (\<exists>x\<in>set safety_levels. dget_default d ''safety_level'' (JStr ''normal'') = JStr x) \<and>
     body_safe emotional (dget d ''body'')"

definition action_publishable :: "string list \<Rightarrow> string list \<Rightarrow> int \<Rightarrow> dict \<Rightarrow> bool" where
  "action_publishable refs caps n d \<longleftrightarrow> semantic_clean refs d \<and>
     (\<exists>x\<in>set playback_actions. dget d ''action_type'' = JStr x \<and> (\<forall>c. map_of capability_actions x = Some c \<longrightarrow> c \<in> set caps)) \<and>
     equals_int (dget_default d ''action_order'' (JInt n)) n"

definition publishable :: "(string \<Rightarrow> bool) \<Rightarrow> string list \<Rightarrow> string list \<Rightarrow> json \<Rightarrow> json \<Rightarrow> bool" where
  "publishable emotional refs caps scenes_v actions_v \<longleftrightarrow>
     (\<exists>ds as sids aids played. items_of scenes_v = map JObj ds \<and> items_of actions_v = map JObj as \<and>
        3 \<le> length ds \<and> length as = length ds \<and>
        texts_at ''scene_id'' ds sids \<and> distinct sids \<and> [] \<notin> set sids \<and>
        texts_at ''action_id'' as aids \<and> distinct aids \<and> [] \<notin> set aids \<and>
        texts_at ''scene_id'' as played \<and> distinct played \<and> set played = set sids \<and>
        list_all (scene_publishable emotional refs) ds \<and>
        (\<forall>i<length as. action_publishable refs caps (int i + 1) (as ! i)))"

lemma violations_clean: "body_ok v \<and> violations emotional v = [] \<longleftrightarrow> body_safe emotional v"
  by (cases v) (auto simp: body_ok_def body_safe_def sensitive_text_iff)

lemma scene_codes_clean: "scene_codes emotional refs fresh d = Inr [] \<longleftrightarrow> fresh \<and> scene_publishable emotional refs d"
proof -
  have "scene_codes emotional refs fresh d = Inr [] \<longleftrightarrow>
    (\<exists>r. semantic_validate refs (JObj d) = Inr r \<and> sm_error_codes r = []) \<and> member_of (dget d ''scene_type'') scene_types = Inr True \<and>
    member_of (dget_default d ''safety_level'' (JStr ''normal'')) safety_levels = Inr True \<and> fresh \<and>
    body_ok (dget d ''body'') \<and> violations emotional (dget d ''body'') = []"
    by (auto simp: scene_codes_def res_simps simp del: semantic_validate.simps)
  then show ?thesis
    unfolding scene_publishable_def semantic_clean_iff member_of_True violations_clean by blast
qed

lemma evaluate_scenes_clean:
  "(\<exists>n. evaluate_scenes emotional refs xs ids = Inr ([], n, ids')) \<longleftrightarrow>
    (\<exists>ds. xs = map JObj ds \<and> (\<exists>ks. fresh_ids ''scene_id'' ds ids ks \<and> ids' = ids @ ks) \<and>
      list_all (scene_publishable emotional refs) ds)"
proof (induction emotional refs xs ids arbitrary: ids' rule: evaluate_scenes.induct)
  case (2 emotional refs d xs ids)
  show ?case
  proof (cases "new_id (dget d ''scene_id'') ids")
    case None
    then show ?thesis by (auto simp: fresh_ids_Cons all_objects_Cons res_simps scene_codes_clean)
  next
    case (Some i)
    have "(\<exists>n. evaluate_scenes emotional refs (JObj d # xs) ids = Inr ([], n, ids')) \<longleftrightarrow>
        scene_publishable emotional refs d \<and> (\<exists>n. evaluate_scenes emotional refs xs (ids @ [i]) = Inr ([], n, ids'))"
      by (auto simp: Some res_simps scene_codes_clean)
    moreover have "(\<exists>n. evaluate_scenes emotional refs xs (ids @ [i]) = Inr ([], n, ids')) \<longleftrightarrow>
        (\<exists>ds. xs = map JObj ds \<and> (\<exists>ks. fresh_ids ''scene_id'' ds (ids @ [i]) ks \<and> ids' = (ids @ [i]) @ ks) \<and>
          list_all (scene_publishable emotional refs) ds)"
      using "2.IH" by (simp add: Some)
    ultimately show ?thesis using Some by (auto simp: fresh_ids_Cons all_objects_Cons)
  qed
qed (auto simp: all_objects_Cons res_simps)

lemma action_type_errors_clean:
  "(\<exists>k. member_of v playback_actions = Inr k \<and> action_type_errors caps v k = []) \<longleftrightarrow>
    (\<exists>x\<in>set playback_actions. v = JStr x \<and> (\<forall>c. map_of capability_actions x = Some c \<longrightarrow> c \<in> set caps))"
  by (cases v) (auto simp: action_type_errors_def capability_enabled_def split: option.splits)

lemma action_codes_clean:
  "action_codes refs caps n fresh placed d = Inr [] \<longleftrightarrow> fresh \<and> placed \<and> action_publishable refs caps n d"
proof -
  have "action_codes refs caps n fresh placed d = Inr [] \<longleftrightarrow>
    (\<exists>r. semantic_validate refs (JObj d) = Inr r \<and> sm_error_codes r = []) \<and>
    (\<exists>k. member_of (dget d ''action_type'') playback_actions = Inr k \<and> action_type_errors caps (dget d ''action_type'') k = []) \<and>
    equals_int (dget_default d ''action_order'' (JInt n)) n \<and> fresh \<and> placed"
    by (simp add: action_codes_def res_simps del: semantic_validate.simps) blast
  then show ?thesis unfolding action_publishable_def semantic_clean_iff action_type_errors_clean by blast
qed

lemma evaluate_actions_clean:
  "evaluate_actions refs caps sids ys n aids cov = Inr ([], cov') \<longleftrightarrow>
    (\<exists>ds. ys = map JObj ds \<and> (\<exists>ks. fresh_ids ''action_id'' ds aids ks) \<and>
      (\<exists>ts. texts_at ''scene_id'' ds ts \<and> set ts \<subseteq> set sids \<and> cov' = cov @ ts) \<and>
      (\<forall>i<length ds. action_publishable refs caps (n + int i) (ds ! i)))"
proof (induction refs caps sids ys n aids cov arbitrary: cov' rule: evaluate_actions.induct)
  case (2 refs caps sids d xs n aids cov)
  show ?case
  proof (cases "new_id (dget d ''action_id'') aids = None \<or> known_id (dget d ''scene_id'') sids = None")
    case True
    then have "evaluate_actions refs caps sids (JObj d # xs) n aids cov \<noteq> Inr ([], cov')"
      by (auto simp: res_simps action_codes_clean Let_def)
    moreover have "\<not> ((\<exists>ks. fresh_ids ''action_id'' (d # ds) aids ks) \<and> (\<exists>ts. texts_at ''scene_id'' (d # ds) ts \<and> set ts \<subseteq> set sids))" for ds
      using True by (auto simp: texts_at_Cons fresh_ids_Cons known_id_def)
    ultimately show ?thesis unfolding all_objects_Cons by blast
  next
    case False
    then obtain i j where ij: "new_id (dget d ''action_id'') aids = Some i" "known_id (dget d ''scene_id'') sids = Some j" by auto
    have step: "evaluate_actions refs caps sids (JObj d # xs) n aids cov = Inr ([], cov') \<longleftrightarrow>
        action_publishable refs caps n d \<and> evaluate_actions refs caps sids xs (n + 1) (aids @ [i]) (cov @ [j]) = Inr ([], cov')"
      by (auto simp: ij res_simps action_codes_clean)
    have rec: "evaluate_actions refs caps sids xs (n + 1) (aids @ [i]) (cov @ [j]) = Inr ([], cov') \<longleftrightarrow>
        (\<exists>ds. xs = map JObj ds \<and> (\<exists>ks. fresh_ids ''action_id'' ds (aids @ [i]) ks) \<and>
          (\<exists>ts. texts_at ''scene_id'' ds ts \<and> set ts \<subseteq> set sids \<and> cov' = (cov @ [j]) @ ts) \<and>
          (\<forall>i<length ds. action_publishable refs caps (n + 1 + int i) (ds ! i)))"
      using "2.IH" by (simp add: ij)
    have first: "(\<forall>i<length (d # ds). action_publishable refs caps (n + int i) ((d # ds) ! i)) \<longleftrightarrow>
        action_publishable refs caps n d \<and> (\<forall>i<length ds. action_publishable refs caps (n + 1 + int i) (ds ! i))" for ds
      by (simp add: All_less_Suc2 add.assoc)
    have placed: "(\<exists>ts. texts_at ''scene_id'' (d # ds) ts \<and> set ts \<subseteq> set sids \<and> cov' = cov @ ts) \<longleftrightarrow>
        (\<exists>ts. texts_at ''scene_id'' ds ts \<and> set ts \<subseteq> set sids \<and> cov' = (cov @ [j]) @ ts)" for ds
      using ij(2) by (auto simp: texts_at_Cons known_id_Some)
    have named: "(\<exists>ks. fresh_ids ''action_id'' (d # ds) aids ks) \<longleftrightarrow> (\<exists>ks. fresh_ids ''action_id'' ds (aids @ [i]) ks)" for ds
      unfolding Ex_fresh_ids_Cons by (simp add: ij)
    show ?thesis unfolding step rec objects_Cons first placed named by blast
  qed
qed (auto simp: all_objects_Cons res_simps)

lemma published_iff:
  "(\<exists>r. evaluate emotional refs caps scenes_v actions_v = Inr r \<and> ev_decision r = ''pass'' \<and> ev_next_node r = ''publish_document'')
    \<longleftrightarrow> publishable emotional refs caps scenes_v actions_v"
proof -
  let ?xs = "items_of scenes_v" and ?ys = "items_of actions_v"
  have pass: "ev_decision (decide es a b n) = ''pass'' \<longleftrightarrow> es = []"
    "ev_next_node (decide es a b n) = ''publish_document'' \<longleftrightarrow> es = []" for es a b n by (simp_all add: decide_def Let_def)
  have "(\<exists>r. evaluate emotional refs caps scenes_v actions_v = Inr r \<and> ev_decision r = ''pass'' \<and> ev_next_node r = ''publish_document'')
    \<longleftrightarrow> (\<exists>ids cov. (\<exists>n. evaluate_scenes emotional refs ?xs [] = Inr ([], n, ids)) \<and> evaluate_actions refs caps ids ?ys 1 [] [] = Inr ([], cov) \<and>
      3 \<le> length ?xs \<and> length ?ys = length ?xs \<and> set cov = set ids)"
    by (auto simp: evaluate_def Let_def res_simps pass)
  also have "\<dots> \<longleftrightarrow> publishable emotional refs caps scenes_v actions_v"
  proof
    assume "\<exists>ids cov. (\<exists>n. evaluate_scenes emotional refs ?xs [] = Inr ([], n, ids)) \<and>
      evaluate_actions refs caps ids ?ys 1 [] [] = Inr ([], cov) \<and> 3 \<le> length ?xs \<and> length ?ys = length ?xs \<and> set cov = set ids"
    then obtain ids cov where x: "\<exists>n. evaluate_scenes emotional refs ?xs [] = Inr ([], n, ids)"
      and y: "evaluate_actions refs caps ids ?ys 1 [] [] = Inr ([], cov)" and n: "3 \<le> length ?xs" "length ?ys = length ?xs"
      and c: "set cov = set ids" by blast
    from x obtain ds where ds: "?xs = map JObj ds" "fresh_ids ''scene_id'' ds [] ids" "list_all (scene_publishable emotional refs) ds"
      unfolding evaluate_scenes_clean by auto
    from y obtain as ks where as: "?ys = map JObj as" "fresh_ids ''action_id'' as [] ks" "texts_at ''scene_id'' as cov"
      "\<forall>i<length as. action_publishable refs caps (1 + int i) (as ! i)" unfolding evaluate_actions_clean by auto
    have "length cov = length ids" using texts_at_length [OF as(3)] texts_at_length [of _ ds ids] ds n as(1) by (auto simp: fresh_ids_def)
    then have "distinct cov" using c ds(2) by (metis card_distinct distinct_card fresh_ids_def)
    then show "publishable emotional refs caps scenes_v actions_v" unfolding publishable_def
      using ds as n c by (intro exI [of _ ds] exI [of _ as] exI [of _ ids] exI [of _ ks] exI [of _ cov])
        (auto simp: fresh_ids_def add.commute)
  next
    assume "publishable emotional refs caps scenes_v actions_v"
    then obtain ds as sids aids played where ds: "?xs = map JObj ds" "?ys = map JObj as" "3 \<le> length ds" "length as = length ds"
      "fresh_ids ''scene_id'' ds [] sids" "fresh_ids ''action_id'' as [] aids" "texts_at ''scene_id'' as played" "set played = set sids"
      "list_all (scene_publishable emotional refs) ds" "\<forall>i<length as. action_publishable refs caps (1 + int i) (as ! i)"
      unfolding publishable_def fresh_ids_def by (auto simp: add.commute)
    have "\<exists>n. evaluate_scenes emotional refs ?xs [] = Inr ([], n, sids)" using ds unfolding evaluate_scenes_clean by auto
    moreover have "evaluate_actions refs caps sids ?ys 1 [] [] = Inr ([], played)" using ds unfolding evaluate_actions_clean by auto
    ultimately show "\<exists>ids cov. (\<exists>n. evaluate_scenes emotional refs ?xs [] = Inr ([], n, ids)) \<and>
      evaluate_actions refs caps ids ?ys 1 [] [] = Inr ([], cov) \<and> 3 \<le> length ?xs \<and> length ?ys = length ?xs \<and> set cov = set ids"
      using ds by auto
  qed
  finally show ?thesis .
qed

text \<open>C32. The evaluator publishes exactly the playback documents that are fit for it: at least three scenes and
  as many actions, all objects, distinct identifiers, every scene played by exactly one action, known types and
  safety levels, actions in order and of enabled capabilities, references from the frozen set only, no control
  field and no tool parameters anywhere, and no body with an identifier or a blocked expression.\<close>

theorem pass_iff_publishable:
  "(\<exists>r. evaluate emotional refs caps scenes_v actions_v = Inr r \<and> ev_decision r = ''pass'' \<and> ev_next_node r = ''publish_document'')
    \<longleftrightarrow> publishable emotional refs caps scenes_v actions_v"
  by (rule published_iff)

section \<open>What is recorded\<close>

definition evaluation_codes :: "string list" where
  "evaluation_codes =
     [''SCENE_COUNT_INVALID'', ''SCENE_INVALID'', ''FORBIDDEN_CONTROL_FIELD'', ''TOOL_PARAMETERS_FORBIDDEN'', ''UNKNOWN_SOURCE_REF'',
      ''INVALID_DURATION'', ''SCENE_ID_INVALID'', ''ACTION_COMPLETENESS_INVALID'', ''ACTION_INVALID'', ''ACTION_SCENE_REF_INVALID'',
      ''ACTION_TYPE_INVALID'', ''INVALID_STATS'', ''INVALID_STAT_COUNT'', ''SCENE_TYPE_INVALID'', ''SCENE_SAFETY_LEVEL_INVALID'',
      ''SCENE_BODY_INVALID'', ''SENSITIVE_IDENTIFIER_BLOCKED'', ''EMOTIONAL_LANGUAGE_BLOCKED'', ''ACTION_ID_INVALID'',
      ''ACTION_CAPABILITY_DISABLED'', ''ACTION_ORDER_INVALID'']"

named_theorems code_simps \<open>membership in the known codes\<close>

definition known_code :: "string \<Rightarrow> bool" where
  "known_code c \<longleftrightarrow> c \<in> set evaluation_codes"

definition only_codes :: "string list \<Rightarrow> bool" where
  "only_codes es \<longleftrightarrow> list_all known_code es"

lemma only_codes_simps [code_simps]:
  "only_codes []" "only_codes (c # es) \<longleftrightarrow> known_code c \<and> only_codes es"
  "only_codes (es @ es') \<longleftrightarrow> only_codes es \<and> only_codes es'" "only_codes (code_if b c) \<longleftrightarrow> (b \<longrightarrow> known_code c)"
  "only_codes (first_codes es) \<longleftrightarrow> only_codes es"
  by (auto simp: only_codes_def code_if_def list_all_iff)

lemma all_known: "list_all known_code evaluation_codes"
  by (simp add: list_all_iff known_code_def)

lemmas known_codes [code_simps] = all_known [unfolded evaluation_codes_def, simplified]

lemma container_scenes_codes: "container_scenes refs xs ids = (es, ids') \<Longrightarrow> only_codes es"
  by (induction refs xs ids arbitrary: es ids' rule: container_scenes.induct)
    (auto simp: code_simps Let_def split: prod.splits)

lemma container_actions_codes: "container_actions ids ys cov = Inr (es, cov') \<Longrightarrow> only_codes es"
  by (induction ids ys cov arbitrary: es cov' rule: container_actions.induct) (auto simp: code_simps Let_def res_simps)

lemma stats_codes: "only_codes (stats_errors v)"
  by (cases v) (simp_all add: stats_errors_def code_simps)

lemma container_codes: "validate_container refs d = Inr es \<Longrightarrow> only_codes es"
proof -
  have act: "only_codes es'" if "container_action_errors n ids v = Inr es'" for n ids v es'
    using that unfolding container_action_errors_def Let_def
    by (auto simp: res_simps code_simps dest!: container_actions_codes split: if_splits)
  have "only_codes es'" if "container_errors refs d = Inr es'" for es'
    using that unfolding container_errors_def Let_def
    by (auto simp: res_simps code_simps dest!: act container_scenes_codes split: if_splits prod.splits)
  then show "validate_container refs d = Inr es \<Longrightarrow> only_codes es"
    by (auto simp: validate_container_def res_simps code_simps stats_codes)
qed

lemma semantic_codes: "semantic_validate refs (JObj d) = Inr r \<Longrightarrow> only_codes (sm_error_codes r)"
  by (auto simp: res_simps Let_def local_errors_def code_simps dest!: container_codes)

lemma violations_codes: "only_codes (violations emotional v)"
  by (cases v) (simp_all add: code_simps)

lemma scene_codes_known: "scene_codes emotional refs fresh d = Inr es \<Longrightarrow> only_codes es"
  by (auto simp: scene_codes_def res_simps code_simps violations_codes dest: semantic_codes simp del: semantic_validate.simps)

lemma action_codes_known: "action_codes refs caps n fresh placed d = Inr es \<Longrightarrow> only_codes es"
  by (auto simp: action_codes_def action_type_errors_def res_simps code_simps dest: semantic_codes simp del: semantic_validate.simps)

lemma evaluate_scenes_codes: "evaluate_scenes emotional refs xs ids = Inr (es, n, ids') \<Longrightarrow> only_codes es"
  by (induction emotional refs xs ids arbitrary: es n ids' rule: evaluate_scenes.induct)
    (auto simp: res_simps code_simps Let_def dest: scene_codes_known)

lemma evaluate_actions_codes: "evaluate_actions refs caps sids ys n aids cov = Inr (es, cov') \<Longrightarrow> only_codes es"
  by (induction refs caps sids ys n aids cov arbitrary: es cov' rule: evaluate_actions.induct)
    (auto simp: res_simps code_simps Let_def dest: action_codes_known)

lemma evaluate_codes:
  "evaluate emotional refs caps scenes_v actions_v = Inr r \<Longrightarrow> only_codes (ev_reasons r) \<and> distinct (ev_reasons r)"
  by (auto simp: evaluate_def decide_def res_simps code_simps Let_def dest: evaluate_scenes_codes evaluate_actions_codes)

lemma comma_join_length: "length (comma_join cs) \<le> sum_list (map length cs) + length cs"
  by (induction cs rule: comma_join.induct) auto

lemma comma_join_short:
  assumes "only_codes cs" "distinct cs"
  shows "length (comma_join cs) \<le> 500"
proof -
  have "sum_list (map (\<lambda>c. length c + 1) cs) = (\<Sum>c\<in>set cs. length c + 1)"
    by (rule sum_list_distinct_conv_sum_set [OF assms(2)])
  also have "\<dots> \<le> (\<Sum>c\<in>set evaluation_codes. length c + 1)" by (rule sum_mono2) (use assms(1) in \<open>auto simp: only_codes_def known_code_def list_all_iff\<close>)
  also have "\<dots> = sum_list (map (\<lambda>c. length c + 1) evaluation_codes)"
    by (rule sum_list_distinct_conv_sum_set [symmetric]) (simp add: evaluation_codes_def)
  also have "\<dots> \<le> 500" by (simp add: evaluation_codes_def)
  finally have "sum_list (map length cs) + length cs \<le> 500" by (simp only: sum_list_addf sum_list_triv) simp
  then show ?thesis using comma_join_length [of cs] by linarith
qed

text \<open>A decision is recorded without loss and without content: the summary of the new row is the full list of
  reasons, each one of the fixed codes and named once, although the column keeps only five hundred characters,
  and its flags repeat the decision: the structure passed exactly for a published document, the grounding
  exactly without an untrusted reference.\<close>

lemma recorded_decision_exact:
  assumes ev: "evaluate emotional refs caps scenes_v actions_v = Inr r"
    and rc: "record_evaluation rid sid ttype tid etype r now (s, es) = (i, s', es')"
  shows "\<exists>e. es' = es @ [e] \<and> evaluation_id e = i \<and> e_decision e = ev_decision r \<and>
    set (ev_reasons r) \<subseteq> set evaluation_codes \<and> distinct (ev_reasons r) \<and>
    reason_summary e = (if ev_decision r = ''pass'' then ''OK'' else comma_join (ev_reasons r)) \<and>
    (schema_passed e \<longleftrightarrow> publishable emotional refs caps scenes_v actions_v) \<and>
    (grounding_passed e \<longleftrightarrow> ''UNKNOWN_SOURCE_REF'' \<notin> set (ev_reasons r)) \<and>
    hallucination_detected e = (\<not> grounding_passed e)"
proof -
  obtain xs a b n where r: "r = decide xs a b n" using ev by (auto simp: evaluate_def res_simps Let_def)
  have codes: "only_codes (ev_reasons r)" "distinct (ev_reasons r)" using evaluate_codes [OF ev] by auto
  have short: "length (comma_join (ev_reasons r)) \<le> 500" by (rule comma_join_short [OF codes])
  have pass: "ev_decision r = ''pass'' \<longleftrightarrow> ev_reasons r = []" "map_of (ev_scores r) ''structure'' = Some 1 \<longleftrightarrow> ev_reasons r = []"
    "map_of (ev_scores r) ''grounding'' = Some 1 \<longleftrightarrow> ''UNKNOWN_SOURCE_REF'' \<notin> set (ev_reasons r)"
    by (simp_all add: r decide_def Let_def)
  have "publishable emotional refs caps scenes_v actions_v \<longleftrightarrow> ev_reasons r = []"
    unfolding published_iff [symmetric] using ev pass(1) by (auto simp: r decide_def Let_def split: if_splits)
  moreover have "set (ev_reasons r) \<subseteq> set evaluation_codes"
    using codes(1) by (auto simp: only_codes_def known_code_def list_all_iff)
  moreover have "es' = es @ [last es'] \<and> evaluation_id (last es') = i \<and> e_decision (last es') = ev_decision r \<and>
      reason_summary (last es') = take 500 (if ev_reasons r = [] then ''OK'' else comma_join (ev_reasons r)) \<and>
      schema_passed (last es') = (map_of (ev_scores r) ''structure'' = Some 1) \<and>
      grounding_passed (last es') = (map_of (ev_scores r) ''grounding'' = Some 1) \<and>
      hallucination_detected (last es') = (''UNKNOWN_SOURCE_REF'' \<in> set (ev_reasons r))"
    using rc by (auto simp: record_evaluation_def Let_def uuid4_def)
  ultimately show ?thesis using codes(2) short pass by (intro exI [of _ "last es'"]) simp
qed

definition demo_scene :: "string \<Rightarrow> json" where
  "demo_scene i = JObj [(''scene_id'', JStr i), (''scene_type'', JStr ''cover''), (''body'', JStr ''hello'')]"

definition demo_action :: "string \<Rightarrow> string \<Rightarrow> json" where
  "demo_action i k = JObj [(''action_id'', JStr i), (''scene_id'', JStr k), (''action_type'', JStr ''hold'')]"

definition demo_evaluation :: "runtime_error + evaluation_decision" where
  "demo_evaluation = evaluate (\<lambda>_. False) [] [] (JList (map demo_scene [''a'', ''b'', ''c'']))
     (JList [demo_action ''1'' ''b'', demo_action ''2'' ''a'', demo_action ''3'' ''c''])"

text \<open>Only values whose JSON form passed the semantic validation leave the parser.\<close>

lemma parsed_value_clean:
  assumes "parse_and_validate loads literal_eval schema refs raw = Inr r" "so_validated_value r = Some w"
  shows "\<exists>x v d. raw = JStr x \<and> schema v = Some w \<and> w = JObj d \<and> semantic_clean refs d \<and> safety_status r = ''passed''"
proof -
  obtain v st where p: "parse_json_once loads literal_eval raw = (v, st)" by fastforce
  from assms p obtain sem where v: "is_str raw" "schema v = Some w" "safety_status r = ''passed''"
    and sem: "semantic_validate refs w = Inr sem" "sm_valid sem"
    by (auto simp: parse_and_validate_def res_simps split: if_splits option.splits)
  then obtain d where d: "w = JObj d" by (cases w) auto
  with sem semantic_valid_iff [OF sem(1)] have "semantic_clean refs d" unfolding semantic_clean_iff [symmetric] by blast
  with v d show ?thesis by (cases raw) auto
qed

text \<open>A type that is a list or an object is not reported as a code: the check itself raises.\<close>

lemma unhashable_type_raises:
  "dget d ''scene_type'' = JList xs \<Longrightarrow> semantic_validate refs (JObj d) = Inr r \<Longrightarrow>
    evaluate emotional refs caps (JList (JObj d # ys)) v = Inl TypeError"
  by (simp add: evaluate_def scene_codes_def)


end
