(* ===== verification/Node_Context.thy ===== *)
theory Node_Context
  imports Playback_Checks
begin

text \<open>
  What a model node gets to see: the context of a node with its redaction and its budget
  (\<open>app/runtime/context_manager.py\<close>) and the reader of the material envelope
  (\<open>app/runtime/material_schema.py\<close>).

  The regular expression \<open>\b(?:1[3-9]\d{9}|\d{6,})\b\<close> is the scan \<open>redact_from\<close>. Its first alternative
  finds nothing the second does not find in the same place (\<open>phone_is_number\<close>). Characters are the
  code points up to 255, of which \<open>word_char\<close> are those \<open>\w\<close> matches.
\<close>

section \<open>Redaction\<close>

definition word_char :: "char \<Rightarrow> bool" where
  "word_char c \<longleftrightarrow> (let n = (of_char c :: nat) in
     48 \<le> n \<and> n \<le> 57 \<or> 65 \<le> n \<and> n \<le> 90 \<or> n = 95 \<or> 97 \<le> n \<and> n \<le> 122 \<or>
     n \<in> {170, 178, 179, 181, 185, 186, 188, 189, 190} \<or> 192 \<le> n \<and> n \<noteq> 215 \<and> n \<noteq> 247)"

text \<open>The end of a word: nothing follows, or something that does not belong to a word.\<close>

definition word_ends :: "string \<Rightarrow> bool" where
  "word_ends x \<longleftrightarrow> x = [] \<or> \<not> word_char (hd x)"

definition number_here :: "string \<Rightarrow> bool" where
  "number_here x \<longleftrightarrow> 6 \<le> length (takeWhile digit x) \<and> word_ends (dropWhile digit x)"

function redact_from :: "bool \<Rightarrow> string \<Rightarrow> string \<times> nat" where
  "redact_from in_word [] = ([], 0)"
| "redact_from in_word (c # cs) =
     (if \<not> in_word \<and> number_here (c # cs)
      then (let (t, n) = redact_from True (dropWhile digit (c # cs)) in (''[REDACTED]'' @ t, Suc n))
      else (let (t, n) = redact_from (word_char c) cs in (c # t, n)))"
  by pat_completeness auto

lemma number_here_shorter: "number_here x \<Longrightarrow> length (dropWhile digit x) < length x"
proof -
  assume "number_here x"
  then have "6 \<le> length (takeWhile digit x)" by (simp add: number_here_def)
  moreover have "length (takeWhile digit x) + length (dropWhile digit x) = length x"
    by (metis length_append takeWhile_dropWhile_id)
  ultimately show ?thesis by linarith
qed

termination redact_from
  by (relation "measure (\<lambda>(_, x). length x)") (auto dest: number_here_shorter simp del: dropWhile.simps)

definition redact :: "string \<Rightarrow> string \<times> nat" where
  "redact x = redact_from False x"

section \<open>The context of a node\<close>

definition node_token_caps :: "(string \<times> int) list" where
  "node_token_caps =
     [(''extract_highlights'', 256), (''plan_chapters'', 384), (''generate_scenes'', 512), (''generate_scene_batch'', 512),
      (''repair_coverage_gaps'', 512)]"

definition node_token_budget :: "json \<Rightarrow> json \<Rightarrow> runtime_error + int" where
  "node_token_budget node budget =
     (case (node, as_int budget) of
        (JStr i, Some n) \<Rightarrow>
          (case map_of node_token_caps i of
             None \<Rightarrow> Inl (ValueError ''MODEL_NODE_BUDGET_UNAVAILABLE'')
           | Some cap \<Rightarrow> if n \<le> 0 then Inl (ValueError ''MODEL_NODE_BUDGET_UNAVAILABLE'') else Inr (min cap n))
      | _ \<Rightarrow> Inl (ValueError ''MODEL_NODE_BUDGET_UNAVAILABLE''))"

record context_item =
  ci_source_ref :: string
  ci_content :: string

record node_context =
  trusted_instructions :: string
  untrusted_items :: "context_item list"
  nc_token_budget :: int
  nc_source_refs :: "string list"
  redacted_fields :: int
  item_count :: int

definition safe_summary :: "node_context \<Rightarrow> dict" where
  "safe_summary c =
     [(''token_budget'', JInt (nc_token_budget c)), (''source_ref_count'', JInt (int (length (nc_source_refs c)))),
      (''redaction_summary'', JObj [(''redacted_fields'', JInt (redacted_fields c)), (''item_count'', JInt (item_count c))])]"

definition named_source :: "json \<Rightarrow> (dict \<times> string) option" where
  "named_source v =
     (case v of
        JObj d \<Rightarrow> (case dget d ''source_ref'' of JStr r \<Rightarrow> if r = [] then None else Some (d, r) | _ \<Rightarrow> None)
      | _ \<Rightarrow> None)"

definition material_text :: "json \<Rightarrow> (string \<times> string) option" where
  "material_text v =
     (case named_source v of
        None \<Rightarrow> None
      | Some (d, r) \<Rightarrow> (case dget d ''text'' of JStr x \<Rightarrow> Some (r, x) | _ \<Rightarrow> None))"

text \<open>The loop over the materials: the items, the number of replacements, and what is left of the budget.\<close>

fun add_materials :: "json list \<Rightarrow> int \<Rightarrow> context_item list \<times> int \<times> int" where
  "add_materials [] left = ([], 0, left)"
| "add_materials (v # vs) left =
     (case material_text v of
        None \<Rightarrow> add_materials vs left
      | Some (r, x) \<Rightarrow>
          (let (clean, n) = redact x
           in if left \<le> 0 then ([], int n, left)
              else (let content = take (nat left) clean;
                        (items, k, left') = add_materials vs (left - int (length content))
                    in (\<lparr>ci_source_ref = r, ci_content = content\<rparr> # items, int n + k, left'))))"

definition tool_summary :: "dict \<Rightarrow> string" where
  "tool_summary d = ''keys:'' @ comma_join (take 8 (sort (map fst d))) @ '';items:'' @ numeral_string (length d)"

fun text_redactions :: "json \<Rightarrow> int" where
  "text_redactions (JStr x) = int (snd (redact x))"
| "text_redactions _ = 0"

fun add_tool_results :: "json list \<Rightarrow> int \<Rightarrow> context_item list \<times> int" where
  "add_tool_results [] left = ([], 0)"
| "add_tool_results (v # vs) left =
     (case named_source v of
        None \<Rightarrow> add_tool_results vs left
      | Some (d, r) \<Rightarrow>
          (let n = text_redactions (dget d ''text'')
           in if left \<le> 0 then ([], n)
              else (let content = take (nat left) (tool_summary d);
                        (items, k) = add_tool_results vs (left - int (length content))
                    in (\<lparr>ci_source_ref = r, ci_content = content\<rparr> # items, n + k))))"

definition build_node_context :: "json \<Rightarrow> json list \<Rightarrow> json list \<Rightarrow> json \<Rightarrow> runtime_error + node_context" where
  "build_node_context instructions materials tool_results budget =
     (case instructions of
        JStr t \<Rightarrow>
          if t = [] then Inl (ValueError ''trusted_instructions'')
          else (case as_int budget of
              None \<Rightarrow> Inl (ValueError ''token_budget'')
            | Some n \<Rightarrow>
                if n \<le> 0 then Inl (ValueError ''token_budget'')
                else (let (items, k, left) = add_materials materials (n * 4);
                          (items', k') = add_tool_results tool_results left;
                          shown = items @ items'
                      in Inr \<lparr>trusted_instructions = t, untrusted_items = shown, nc_token_budget = n,
                           nc_source_refs = first_codes (map ci_source_ref shown), redacted_fields = k + k',
                           item_count = int (length shown)\<rparr>))
      | _ \<Rightarrow> Inl (ValueError ''trusted_instructions''))"

section \<open>Materials\<close>

datatype material_error = LegacyEnvelopeError string | SnapshotSchemaError string

definition canonical_material_prefixes :: "string list" where
  "canonical_material_prefixes = [''diary'', ''completed_bet'', ''handbook_note'', ''matured_wish'', ''bucket_list_completion'']"

definition legacy_prefix_to_canonical :: "(string \<times> string) list" where
  "legacy_prefix_to_canonical = [(''bet'', ''completed_bet'')]"

text \<open>A boolean is an integer here: \<open>True == 1\<close>.\<close>

definition assert_snapshot_schema_major :: "json \<Rightarrow> material_error + unit" where
  "assert_snapshot_schema_major v =
     ensure (v = JInt 1 \<or> v = JBool True) (SnapshotSchemaError ''MEMORY_SNAPSHOT_SCHEMA_UNSUPPORTED'')"

definition normalize_source_ref :: "string \<Rightarrow> string" where
  "normalize_source_ref ref =
     (let prefix = takeWhile (\<lambda>c. c \<noteq> CHR '':'') ref; rest = dropWhile (\<lambda>c. c \<noteq> CHR '':'') ref
      in case (rest, map_of legacy_prefix_to_canonical prefix) of
           (_ # ident, Some p) \<Rightarrow> p @ '':'' @ ident
         | _ \<Rightarrow> ref)"

record envelope_result =
  er_source_refs :: "string list"
  legacy_normalized_count :: int
  unknown_skipped_count :: int

record envelope_slot =
  sl_fields :: "string list"
  sl_prefix :: string
  sl_is_legacy :: bool

definition envelope_slots :: "envelope_slot list" where
  "envelope_slots =
     [\<lparr>sl_fields = [''diary_items'', ''diaries''], sl_prefix = ''diary'', sl_is_legacy = False\<rparr>,
      \<lparr>sl_fields = [''completed_bet_items'', ''completed_bets''], sl_prefix = ''completed_bet'', sl_is_legacy = False\<rparr>,
      \<lparr>sl_fields = [''bet_items'', ''bets''], sl_prefix = ''completed_bet'', sl_is_legacy = True\<rparr>,
      \<lparr>sl_fields = [''handbook_notes''], sl_prefix = ''handbook_note'', sl_is_legacy = False\<rparr>,
      \<lparr>sl_fields = [''matured_wishes''], sl_prefix = ''matured_wish'', sl_is_legacy = False\<rparr>,
      \<lparr>sl_fields = [''bucket_list_completions''], sl_prefix = ''bucket_list_completion'', sl_is_legacy = False\<rparr>]"

definition legacy_bet_fields :: "string list" where
  "legacy_bet_fields = [''bet_items'', ''bets'']"

definition canonical_bet_fields :: "string list" where
  "canonical_bet_fields = [''completed_bet_items'', ''completed_bets'']"

definition detect_envelope_mixing :: "dict \<Rightarrow> material_error + unit" where
  "detect_envelope_mixing d =
     ensure (\<not> (list_ex (has_key d) legacy_bet_fields \<and> list_ex (has_key d) canonical_bet_fields))
       (LegacyEnvelopeError ''LEGACY_ENVELOPE_MIXED_WITH_CANONICAL'')"

definition material_id :: "json \<Rightarrow> string option" where
  "material_id v =
     (case jget v ''id'' of JStr i \<Rightarrow> if i = [] then None else Some i | _ \<Rightarrow> None)"

definition slot_items :: "dict \<Rightarrow> envelope_slot \<Rightarrow> json list" where
  "slot_items d sl =
     (case find (has_key d) (sl_fields sl) of None \<Rightarrow> [] | Some k \<Rightarrow> items_of (dget d k))"

fun read_items :: "string \<Rightarrow> bool \<Rightarrow> json list \<Rightarrow> envelope_result" where
  "read_items prefix legacy [] = \<lparr>er_source_refs = [], legacy_normalized_count = 0, unknown_skipped_count = 0\<rparr>"
| "read_items prefix legacy (v # vs) =
     (let r = read_items prefix legacy vs
      in case material_id v of
           None \<Rightarrow> r\<lparr>unknown_skipped_count := unknown_skipped_count r + 1\<rparr>
         | Some i \<Rightarrow> r\<lparr>er_source_refs := (prefix @ '':'' @ i) # er_source_refs r,
             legacy_normalized_count := legacy_normalized_count r + (if legacy then 1 else 0)\<rparr>)"

fun read_slots :: "dict \<Rightarrow> envelope_slot list \<Rightarrow> envelope_result" where
  "read_slots d [] = \<lparr>er_source_refs = [], legacy_normalized_count = 0, unknown_skipped_count = 0\<rparr>"
| "read_slots d (sl # sls) =
     (let r = read_items (sl_prefix sl) (sl_is_legacy sl) (slot_items d sl); r' = read_slots d sls
      in \<lparr>er_source_refs = er_source_refs r @ er_source_refs r',
          legacy_normalized_count = legacy_normalized_count r + legacy_normalized_count r',
          unknown_skipped_count = unknown_skipped_count r + unknown_skipped_count r'\<rparr>)"

definition recognized_field_names :: "string list" where
  "recognized_field_names = concat (map sl_fields envelope_slots)"

definition unknown_materials :: "dict \<Rightarrow> int" where
  "unknown_materials d = sum_list (map (\<lambda>(k, v). if k \<in> set recognized_field_names then 0 else size_of_list v) d)"

definition read_material_refs_from_envelope :: "dict \<Rightarrow> material_error + envelope_result" where
  "read_material_refs_from_envelope d =
     res_bind (detect_envelope_mixing d) (\<lambda>_.
       let r = read_slots d envelope_slots
       in Inr (r\<lparr>unknown_skipped_count := unknown_skipped_count r + unknown_materials d\<rparr>))"

section \<open>What remains after redaction\<close>

text \<open>A number of six digits or more that stands alone, as the regular expression means it.\<close>

definition word_starts :: "bool \<Rightarrow> string \<Rightarrow> bool" where
  "word_starts in_word a \<longleftrightarrow> (if a = [] then \<not> in_word else \<not> word_char (last a))"

definition exposed :: "bool \<Rightarrow> string \<Rightarrow> bool" where
  "exposed in_word x \<longleftrightarrow> (\<exists>a m b. x = a @ m @ b \<and> 6 \<le> length m \<and> list_all digit m \<and> word_starts in_word a \<and> word_ends b)"

lemma digit_word: "digit c \<Longrightarrow> word_char c"
  by (auto simp: digit_def word_char_def Let_def)

lemma number_here_iff: "number_here x \<longleftrightarrow> (\<exists>m b. x = m @ b \<and> 6 \<le> length m \<and> list_all digit m \<and> word_ends b)"
proof
  assume "number_here x"
  then show "\<exists>m b. x = m @ b \<and> 6 \<le> length m \<and> list_all digit m \<and> word_ends b"
    by (intro exI [of _ "takeWhile digit x"] exI [of _ "dropWhile digit x"])
      (auto simp: number_here_def list_all_iff dest: set_takeWhileD)
next
  assume "\<exists>m b. x = m @ b \<and> 6 \<le> length m \<and> list_all digit m \<and> word_ends b"
  then obtain m b where x: "x = m @ b" and m: "6 \<le> length m" "list_all digit m" and b: "word_ends b" by blast
  have "\<not> digit (hd b)" if "b \<noteq> []" using b that digit_word by (auto simp: word_ends_def)
  then have "takeWhile digit b = []" "dropWhile digit b = b" by (cases b; simp)+
  then have "takeWhile digit x = m" "dropWhile digit x = b" using m(2) by (auto simp: x list_all_iff)
  then show "number_here x" using m b by (simp add: number_here_def)
qed

lemma exposed_Nil: "\<not> exposed in_word []"
  by (simp add: exposed_def)

lemma exposed_Cons: "exposed in_word (c # cs) \<longleftrightarrow> \<not> in_word \<and> number_here (c # cs) \<or> exposed (word_char c) cs"
proof
  assume "exposed in_word (c # cs)"
  then obtain a m b where x: "c # cs = a @ m @ b" "6 \<le> length m" "list_all digit m" "word_starts in_word a" "word_ends b"
    unfolding exposed_def by blast
  show "\<not> in_word \<and> number_here (c # cs) \<or> exposed (word_char c) cs"
  proof (cases a)
    case Nil
    with x show ?thesis unfolding number_here_iff by (auto simp: word_starts_def)
  next
    case (Cons d a')
    with x have "cs = a' @ m @ b" "d = c" "word_starts (word_char c) a'" by (auto simp: word_starts_def split: if_splits)
    with x show ?thesis unfolding exposed_def by blast
  qed
next
  assume "\<not> in_word \<and> number_here (c # cs) \<or> exposed (word_char c) cs"
  then show "exposed in_word (c # cs)"
  proof
    assume "\<not> in_word \<and> number_here (c # cs)"
    then obtain m b where "c # cs = [] @ m @ b" "6 \<le> length m" "list_all digit m" "word_ends b" "word_starts in_word []"
      unfolding number_here_iff by (auto simp: word_starts_def)
    then show ?thesis unfolding exposed_def by blast
  next
    assume "exposed (word_char c) cs"
    then obtain a m b where x: "cs = a @ m @ b" "6 \<le> length m" "list_all digit m" "word_starts (word_char c) a" "word_ends b"
      unfolding exposed_def by blast
    then have "c # cs = (c # a) @ m @ b" "word_starts in_word (c # a)" by (auto simp: word_starts_def split: if_splits)
    with x show ?thesis unfolding exposed_def by blast
  qed
qed

text \<open>The placeholder ends in a character outside words and holds no digit.\<close>

lemma no_number_here: "\<not> digit c \<Longrightarrow> \<not> number_here (c # cs)"
  by (simp add: number_here_def)

lemma exposed_placeholder: "exposed in_word (''[REDACTED]'' @ t) \<longleftrightarrow> exposed False t"
  by (simp add: exposed_Cons no_number_here digit_def word_char_def Let_def)

lemma redact_keeps_word:
  "redact_from True x = (t, n) \<Longrightarrow> takeWhile digit t = takeWhile digit x \<and> word_ends (dropWhile digit t) = word_ends (dropWhile digit x)"
proof (induction x arbitrary: t n)
  case (Cons c cs)
  then obtain t' where t: "t = c # t'" "redact_from (word_char c) cs = (t', n)" by (auto split: prod.splits)
  then show ?case using Cons.IH [of t' n] digit_word [of c] by (auto simp: word_ends_def)
qed simp

lemma redact_number_here:
  assumes "redact_from True cs = (t, n)" "digit c"
  shows "number_here (c # t) = number_here (c # cs)"
  using redact_keeps_word [OF assms(1)] assms(2) by (simp add: number_here_def)

lemma redact_after_number:
  assumes "word_ends x" "redact_from True x = (t, n)"
  shows "exposed True t = exposed False t"
proof (cases x)
  case Nil
  with assms show ?thesis by (simp add: exposed_Nil)
next
  case (Cons c cs)
  with assms obtain t' where "t = c # t'" "\<not> word_char c" by (auto simp: word_ends_def split: prod.splits)
  then show ?thesis using digit_word [of c] no_number_here [of c t'] by (auto simp: exposed_Cons)
qed

lemma redact_from_clean: "redact_from in_word x = (t, n) \<Longrightarrow> \<not> exposed in_word t"
proof (induction in_word x arbitrary: t n rule: redact_from.induct)
  case (1 in_word)
  then show ?case by (simp add: exposed_Nil)
next
  case (2 in_word c cs)
  show ?case
  proof (cases "\<not> in_word \<and> number_here (c # cs)")
    case True
    obtain t' k where r: "redact_from True (dropWhile digit (c # cs)) = (t', k)" by fastforce
    with True 2(3) have t: "t = ''[REDACTED]'' @ t'" by (simp split: prod.splits)
    from True have "word_ends (dropWhile digit (c # cs))" by (simp add: number_here_def)
    from redact_after_number [OF this r] 2(1) [OF True r] show ?thesis by (simp add: t exposed_placeholder del: append.simps)
  next
    case False
    obtain t' k where r: "redact_from (word_char c) cs = (t', k)" by fastforce
    with False 2(3) have t: "t = c # t'" by (simp split: if_splits)
    have "number_here (c # cs)" if here: "number_here (c # t')"
    proof -
      from here no_number_here have d: "digit c" by blast
      with digit_word r have "redact_from True cs = (t', k)" by simp
      from redact_number_here [OF this d] here show ?thesis by simp
    qed
    with 2(2) [OF False r] False show ?thesis by (auto simp: t exposed_Cons)
  qed
qed

lemma redact_from_id: "\<not> exposed in_word x \<Longrightarrow> redact_from in_word x = (x, 0)"
  by (induction in_word x rule: redact_from.induct) (auto simp: exposed_Cons)

lemma redact_idempotent: "redact (fst (redact x)) = (fst (redact x), 0)"
  unfolding redact_def by (rule redact_from_id, rule redact_from_clean) (simp add: prod_eq_iff)

text \<open>The first alternative of the expression, a phone number, is a number of the second.\<close>

lemma phone_is_number:
  "x = m @ b \<Longrightarrow> identifier_text m \<Longrightarrow> length m = 11 \<Longrightarrow> word_ends b \<Longrightarrow> number_here x"
  unfolding number_here_iff by (intro exI [of _ m] exI [of _ b]) (auto simp: identifier_text_def)

text \<open>A number that touches a letter is not found: it does not stand alone.\<close>

lemma letter_hides_number: "redact ''tel13800138000'' = (''tel13800138000'', 0) \<and> sensitive_text ''tel13800138000''"
  by code_simp

section \<open>What a node sees\<close>

definition content_size :: "context_item list \<Rightarrow> int" where
  "content_size items = sum_list (map (\<lambda>i. int (length (ci_content i))) items)"

text \<open>An item shows the beginning of a redacted text, or of the summary of a tool result.\<close>

definition shows_material :: "json list \<Rightarrow> context_item \<Rightarrow> bool" where
  "shows_material vs i \<longleftrightarrow> (\<exists>v\<in>set vs. \<exists>x n. material_text v = Some (ci_source_ref i, x) \<and>
     ci_content i = take n (fst (redact x)) \<and> \<not> exposed False (fst (redact x)))"

definition shows_tool :: "json list \<Rightarrow> context_item \<Rightarrow> bool" where
  "shows_tool vs i \<longleftrightarrow> (\<exists>v\<in>set vs. \<exists>d n. named_source v = Some (d, ci_source_ref i) \<and> ci_content i = take n (tool_summary d))"

lemma redact_clean: "\<not> exposed False (fst (redact x))"
  unfolding redact_def by (rule redact_from_clean [of _ x _ "snd (redact_from False x)"]) simp

lemma content_size_simps [simp]:
  "content_size [] = 0" "content_size (i # items) = int (length (ci_content i)) + content_size items"
  "content_size (items @ items') = content_size items + content_size items'"
  by (simp_all add: content_size_def)

lemma add_materials_ok:
  "add_materials vs left = (items, k, left') \<Longrightarrow> 0 \<le> left \<Longrightarrow>
    0 \<le> left' \<and> content_size items + left' = left \<and> list_all (shows_material vs) items"
proof (induction vs arbitrary: left items k left')
  case (Cons v vs)
  have more: "shows_material vs i \<Longrightarrow> shows_material (v # vs) i" for i by (auto simp: shows_material_def)
  show ?case
  proof (cases "material_text v")
    case None
    with Cons more show ?thesis by (fastforce simp: list_all_iff)
  next
    case (Some p)
    obtain r x where p: "p = (r, x)" by fastforce
    obtain clean n where rd: "redact x = (clean, n)" by fastforce
    show ?thesis
    proof (cases "left \<le> 0")
      case True
      with Cons.prems Some p rd show ?thesis by auto
    next
      case False
      let ?c = "take (nat left) clean"
      obtain its k' l' where rec: "add_materials vs (left - int (length ?c)) = (its, k', l')" by (metis prod_cases3)
      with Cons.prems(1) Some p rd False have items: "items = \<lparr>ci_source_ref = r, ci_content = ?c\<rparr> # its" "left' = l'"
        by (auto simp: Let_def)
      have "0 \<le> left - int (length ?c)" using False by simp
      from Cons.IH [OF rec this] have ih: "0 \<le> l'" "content_size its + l' = left - int (length ?c)" "list_all (shows_material vs) its"
        by simp_all
      have "shows_material (v # vs) \<lparr>ci_source_ref = r, ci_content = ?c\<rparr>"
        using Some p rd redact_clean [of x] by (auto simp: shows_material_def)
      with ih items more show ?thesis by (auto simp: list_all_iff)
    qed
  qed
qed simp

lemma add_tool_results_ok:
  "add_tool_results vs left = (items, k) \<Longrightarrow> 0 \<le> left \<Longrightarrow> content_size items \<le> left \<and> list_all (shows_tool vs) items"
proof (induction vs arbitrary: left items k)
  case (Cons v vs)
  have more: "shows_tool vs i \<Longrightarrow> shows_tool (v # vs) i" for i by (auto simp: shows_tool_def)
  show ?case
  proof (cases "named_source v")
    case None
    with Cons more show ?thesis by (fastforce simp: list_all_iff)
  next
    case (Some p)
    obtain d r where p: "p = (d, r)" by fastforce
    show ?thesis
    proof (cases "left \<le> 0")
      case True
      with Cons.prems Some p show ?thesis by auto
    next
      case False
      let ?c = "take (nat left) (tool_summary d)"
      obtain its k' where rec: "add_tool_results vs (left - int (length ?c)) = (its, k')" by fastforce
      with Cons.prems(1) Some p False have items: "items = \<lparr>ci_source_ref = r, ci_content = ?c\<rparr> # its" by (auto simp: Let_def)
      have "0 \<le> left - int (length ?c)" using False by simp
      from Cons.IH [OF rec this] have ih: "content_size its \<le> left - int (length ?c)" "list_all (shows_tool vs) its" by simp_all
      have "shows_tool (v # vs) \<lparr>ci_source_ref = r, ci_content = ?c\<rparr>" using Some p by (auto simp: shows_tool_def)
      with ih items more show ?thesis by (auto simp: list_all_iff)
    qed
  qed
qed simp

text \<open>C33. A node sees no more than its budget allows and no material unredacted: all contents together are at most
  four characters per token, each one is the beginning of a redacted material, in which no number of six digits or
  more stands alone, or of a summary of keys and counts of a tool result; the references are exactly those of the
  items, each once, and the instructions are the trusted ones.\<close>

theorem node_context_bounded:
  assumes "build_node_context instructions materials tool_results budget = Inr c"
  shows "content_size (untrusted_items c) \<le> 4 * nc_token_budget c \<and> JInt (nc_token_budget c) = budget \<and>
    JStr (trusted_instructions c) = instructions \<and> item_count c = int (length (untrusted_items c)) \<and>
    list_all (\<lambda>i. shows_material materials i \<or> shows_tool tool_results i) (untrusted_items c) \<and>
    set (nc_source_refs c) = ci_source_ref ` set (untrusted_items c) \<and> distinct (nc_source_refs c)"
proof -
  obtain t n where tn: "instructions = JStr t" "budget = JInt n" "0 < n"
    using assms by (cases instructions; cases budget) (auto simp: build_node_context_def split: if_splits)
  obtain items k left where m: "add_materials materials (n * 4) = (items, k, left)" by (metis prod_cases3)
  obtain items' k' where r: "add_tool_results tool_results left = (items', k')" by fastforce
  have c: "untrusted_items c = items @ items'" "nc_token_budget c = n" "trusted_instructions c = t"
    "item_count c = int (length (items @ items'))" "nc_source_refs c = first_codes (map ci_source_ref (items @ items'))"
    using assms tn m r by (auto simp: build_node_context_def Let_def split: if_splits)
  have ok: "0 \<le> left" "content_size items + left = n * 4" "list_all (shows_material materials) items"
    using add_materials_ok [OF m] tn(3) by simp_all
  moreover have "content_size items' \<le> left" "list_all (shows_tool tool_results) items'"
    using add_tool_results_ok [OF r ok(1)] by simp_all
  ultimately show ?thesis by (auto simp: c tn list_all_iff)
qed

theorem node_context_bounded_witness:
  "\<exists>c. build_node_context (JStr ''go'') [JObj [(''source_ref'', JStr ''diary:1''), (''text'', JStr ''call 13800138000'')]]
      [JObj [(''source_ref'', JStr ''tool:1'')]] (JInt 5) = Inr c \<and>
     map ci_content (untrusted_items c) = [''call [REDACTED]'', ''keys:''] \<and> content_size (untrusted_items c) \<le> 20"
proof -
  let ?b = "build_node_context (JStr ''go'') [JObj [(''source_ref'', JStr ''diary:1''), (''text'', JStr ''call 13800138000'')]]
      [JObj [(''source_ref'', JStr ''tool:1'')]] (JInt 5)"
  have "case ?b of Inr c \<Rightarrow> map ci_content (untrusted_items c) = [''call [REDACTED]'', ''keys:''] \<and> nc_token_budget c = 5 | Inl _ \<Rightarrow> False"
    by code_simp
  then obtain c where c: "?b = Inr c" "map ci_content (untrusted_items c) = [''call [REDACTED]'', ''keys:'']" "nc_token_budget c = 5"
    by (auto split: sum.split_asm)
  with node_context_bounded [OF c(1)] show ?thesis by auto
qed

section \<open>What the envelope yields\<close>

lemma normalize_prefixed:
  assumes "CHR '':'' \<notin> set p"
  shows "normalize_source_ref (p @ '':'' @ i) =
    (case map_of legacy_prefix_to_canonical p of None \<Rightarrow> p @ '':'' @ i | Some q \<Rightarrow> q @ '':'' @ i)"
proof -
  have "takeWhile (\<lambda>c. c \<noteq> CHR '':'') (p @ '':'' @ i) = p" "dropWhile (\<lambda>c. c \<noteq> CHR '':'') (p @ '':'' @ i) = '':'' @ i"
    using assms by (auto simp: takeWhile_append dropWhile_append)
  then show ?thesis by (simp add: normalize_source_ref_def split: option.split)
qed

lemma normalize_canonical:
  "p \<in> set canonical_material_prefixes \<Longrightarrow> normalize_source_ref (p @ '':'' @ i) = p @ '':'' @ i"
  by (subst normalize_prefixed) (auto simp: canonical_material_prefixes_def legacy_prefix_to_canonical_def)

lemma normalize_idempotent: "normalize_source_ref (normalize_source_ref x) = normalize_source_ref x"
proof (cases "normalize_source_ref x = x")
  case False
  then obtain i where "normalize_source_ref x = ''completed_bet'' @ '':'' @ i"
    by (auto simp: normalize_source_ref_def legacy_prefix_to_canonical_def Let_def split: list.splits if_splits)
  with normalize_canonical [of "''completed_bet''" i] show ?thesis by (simp add: canonical_material_prefixes_def)
qed simp

lemma material_id_nonempty: "material_id v = Some i \<Longrightarrow> i \<noteq> []"
  by (auto simp: material_id_def split: json.splits if_splits)

lemma read_items_refs: "x \<in> set (er_source_refs (read_items p l vs)) \<Longrightarrow> \<exists>i. i \<noteq> [] \<and> x = p @ '':'' @ i"
  by (induction p l vs rule: read_items.induct) (auto simp: Let_def dest: material_id_nonempty split: option.splits)

lemma read_slots_refs:
  "x \<in> set (er_source_refs (read_slots d sls)) \<Longrightarrow> \<exists>sl\<in>set sls. \<exists>i. i \<noteq> [] \<and> x = sl_prefix sl @ '':'' @ i"
  by (induction d sls rule: read_slots.induct) (auto simp: Let_def dest!: read_items_refs)

lemma material_refs_canonical:
  assumes "read_material_refs_from_envelope d = Inr r" "x \<in> set (er_source_refs r)"
  shows "(\<exists>p\<in>set canonical_material_prefixes. \<exists>i. i \<noteq> [] \<and> x = p @ '':'' @ i) \<and> normalize_source_ref x = x"
proof -
  have "x \<in> set (er_source_refs (read_slots d envelope_slots))"
    using assms by (auto simp: read_material_refs_from_envelope_def res_simps Let_def)
  from read_slots_refs [OF this] obtain sl i where sl: "sl \<in> set envelope_slots" "i \<noteq> []" "x = sl_prefix sl @ '':'' @ i" by blast
  then have "sl_prefix sl \<in> set canonical_material_prefixes" by (auto simp: envelope_slots_def canonical_material_prefixes_def)
  with sl normalize_canonical show ?thesis by blast
qed

lemma read_items_count:
  "int (length (er_source_refs (read_items p l vs))) + unknown_skipped_count (read_items p l vs) = int (length vs)"
  by (induction p l vs rule: read_items.induct) (auto simp: Let_def split: option.split)

lemma read_slots_count:
  "int (length (er_source_refs (read_slots d sls))) + unknown_skipped_count (read_slots d sls) =
    sum_list (map (\<lambda>sl. int (length (slot_items d sl))) sls)"
proof (induction d sls rule: read_slots.induct)
  case (2 d sl sls)
  with read_items_count [of "sl_prefix sl" "sl_is_legacy sl" "slot_items d sl"] show ?case by (simp add: Let_def)
qed simp

text \<open>The values under a list of keys, found in the order of the keys or of the object.\<close>

lemma sum_over_keys:
  fixes f :: "json \<Rightarrow> int"
  assumes "distinct (map fst d)" "distinct ks" "f JNull = 0"
  shows "sum_list (map (\<lambda>k. f (dget d k)) ks) = sum_list (map (\<lambda>(k, v). if k \<in> set ks then f v else 0) d)"
  using assms(1)
proof (induction d)
  case Nil
  then show ?case using assms(3) by (simp add: dget_def)
next
  case (Cons kv d)
  obtain a b where kv: "kv = (a, b)" by fastforce
  with Cons.prems have a: "dget d a = JNull" by (auto simp: dget_def split: option.split dest: map_of_SomeD) (force dest: map_of_SomeD)
  have "f (dget (kv # d) k) = f (dget d k) + (if k = a then f b else 0)" for k
    using a assms(3) by (simp add: kv dget_def)
  then have "sum_list (map (\<lambda>k. f (dget (kv # d) k)) ks) = (\<Sum>k\<in>set ks. f (dget d k) + (if k = a then f b else 0))"
    by (simp add: sum_list_distinct_conv_sum_set assms(2))
  also have "\<dots> = sum_list (map (\<lambda>k. f (dget d k)) ks) + (if a \<in> set ks then f b else 0)"
    by (simp add: sum.distrib sum_list_distinct_conv_sum_set assms(2))
  finally show ?case using Cons by (simp add: kv)
qed

lemma slot_items_size:
  assumes "length (filter (has_key d) (sl_fields sl)) \<le> 1"
  shows "int (length (slot_items d sl)) = sum_list (map (\<lambda>k. size_of_list (dget d k)) (sl_fields sl))"
proof -
  have absent: "\<not> has_key d k \<Longrightarrow> size_of_list (dget d k) = 0" for k by (simp add: has_key_def dget_def)
  have size: "int (length (items_of v)) = size_of_list v" for v by (cases v) auto
  have "length (filter (has_key d) ks) \<le> 1 \<Longrightarrow>
      (case find (has_key d) ks of None \<Rightarrow> 0 | Some k \<Rightarrow> size_of_list (dget d k)) = sum_list (map (\<lambda>k. size_of_list (dget d k)) ks)" for ks
  proof (induction ks)
    case (Cons k ks)
    show ?case
    proof (cases "has_key d k")
      case True
      with Cons.prems have "filter (has_key d) ks = []" by simp
      then have "sum_list (map (\<lambda>k. size_of_list (dget d k)) ks) = 0"
        using absent by (induction ks) (auto split: if_splits)
      with True show ?thesis by simp
    next
      case False
      with Cons absent show ?thesis by simp
    qed
  qed simp
  from this [OF assms] show ?thesis by (auto simp: slot_items_def size split: option.split)
qed

text \<open>C34. No material of an envelope is lost without being counted: when no material type comes under two names, every
  entry of every top level list yields one reference or is counted as skipped; the references carry one of the five
  frozen prefixes and a name, and normalizing them again changes nothing.\<close>

theorem materials_accounted:
  assumes r: "read_material_refs_from_envelope d = Inr r" and d: "distinct (map fst d)"
    and names: "list_all (\<lambda>sl. length (filter (has_key d) (sl_fields sl)) \<le> 1) envelope_slots"
  shows "int (length (er_source_refs r)) + unknown_skipped_count r = sum_list (map (size_of_list \<circ> snd) d) \<and>
    list_all (\<lambda>x. normalize_source_ref x = x \<and> (\<exists>p\<in>set canonical_material_prefixes. \<exists>i. i \<noteq> [] \<and> x = p @ '':'' @ i))
      (er_source_refs r)"
proof -
  have "int (length (er_source_refs r)) + unknown_skipped_count r =
      sum_list (map (\<lambda>sl. int (length (slot_items d sl))) envelope_slots) + unknown_materials d"
    using r read_slots_count [of d envelope_slots] by (auto simp: read_material_refs_from_envelope_def res_simps Let_def)
  also have "sum_list (map (\<lambda>sl. int (length (slot_items d sl))) envelope_slots) =
      sum_list (map (\<lambda>sl. sum_list (map (\<lambda>k. size_of_list (dget d k)) (sl_fields sl))) envelope_slots)"
    using slot_items_size names by (intro arg_cong [where f = sum_list] map_cong refl) (auto simp: list_all_iff)
  also have "\<dots> = sum_list (map (\<lambda>k. size_of_list (dget d k)) recognized_field_names)"
    by (simp add: recognized_field_names_def envelope_slots_def)
  also have "\<dots> = sum_list (map (\<lambda>(k, v). if k \<in> set recognized_field_names then size_of_list v else 0) d)"
    by (rule sum_over_keys [OF d]) (simp_all add: recognized_field_names_def envelope_slots_def)
  also have "\<dots> + unknown_materials d = sum_list (map (size_of_list \<circ> snd) d)"
    unfolding unknown_materials_def by (induction d) auto
  finally show ?thesis using material_refs_canonical [OF r] by (auto simp: list_all_iff)
qed

theorem materials_accounted_witness:
  "\<exists>r. read_material_refs_from_envelope
      [(''bets'', JList [JObj [(''id'', JStr ''7'')], JNull]), (''photos'', JList [JNull]), (''diaries'', JList [])] = Inr r \<and>
     er_source_refs r = [''completed_bet:7''] \<and> int (length (er_source_refs r)) + unknown_skipped_count r = 3"
proof -
  let ?d = "[(''bets'', JList [JObj [(''id'', JStr ''7'')], JNull]), (''photos'', JList [JNull]), (''diaries'', JList [])]"
  have "case read_material_refs_from_envelope ?d of Inr r \<Rightarrow> er_source_refs r = [''completed_bet:7''] | Inl _ \<Rightarrow> False"
    by code_simp
  then obtain r where r: "read_material_refs_from_envelope ?d = Inr r" "er_source_refs r = [''completed_bet:7'']"
    by (auto split: sum.split_asm)
  have "list_all (\<lambda>sl. length (filter (has_key ?d) (sl_fields sl)) \<le> 1) envelope_slots" by code_simp
  from materials_accounted [OF r(1) _ this] r show ?thesis by simp
qed

text \<open>Under two names of one type the second list is neither read nor counted, except for bets under an old and a new name.\<close>

lemma second_name_lost:
  "case read_material_refs_from_envelope [(''diaries'', JList [JObj [(''id'', JStr ''1'')]]), (''diary_items'', JList [])] of
     Inr r \<Rightarrow> er_source_refs r = [] \<and> unknown_skipped_count r = 0
   | Inl _ \<Rightarrow> False"
  by code_simp

end
