(* ===== verification/Provider_Traffic.thy ===== *)
theory Provider_Traffic
  imports Policy_Engine
begin

text \<open>
  Shared flow control of the model providers: the permit script that Redis runs atomically and
  \<open>ProviderTrafficController\<close> (both in \<open>app/runtime/model_gateway.py\<close>). The key value store is the
  record \<open>redis\<close> with one component per family of keys; the families have different prefixes or
  suffixes, so they do not overlap. \<open>now\<close> is the clock of the Worker, which the script gets as an
  argument, \<open>srv\<close> the clock of the Redis server, by which keys expire; both count seconds. Redis
  itself contributes its documented rules: a missing key is an empty set, a number in a reply is
  cut to an integer, and an expiry that Redis cannot represent is an error that keeps the writes
  made before it.

  The properties are stated over histories of scripts: \<open>traffic_run\<close> records which permits were
  granted, started and settled, and \<open>traffic_inv\<close> says where the store keeps them.
\<close>

section \<open>Deployed routes\<close>

record deployed_route = model_route +
  rt_endpoint :: string
  rt_rate_limit_key :: string
  rt_max_concurrency :: int
  rt_rpm_limit :: int
  rt_tpm_limit :: int
  rt_timeout_seconds :: rat
  rt_permit_ttl_seconds :: rat
  rt_settle_margin_seconds :: rat
  rt_circuit_failure_threshold :: int
  rt_circuit_open_seconds :: rat
  rt_enabled :: bool
  rt_allowed_tenant_ids :: "string list"
  rt_allowed_model_policies :: "string list"
  rt_fallback_route_id :: "string option"

section \<open>The store\<close>

type_synonym zset = "(string \<times> rat) list"

definition zrem :: "string \<Rightarrow> (string \<times> 'a) list \<Rightarrow> (string \<times> 'a) list" where
  "zrem p z = filter (\<lambda>e. fst e \<noteq> p) z"

definition zadd :: "string \<Rightarrow> 'a \<Rightarrow> (string \<times> 'a) list \<Rightarrow> (string \<times> 'a) list" where
  "zadd p v z = (p, v) # zrem p z"

record permit_hash =
  ph_state :: string
  ph_route_id :: "string option"
  ph_expires :: "rat option"

record redis =
  r_active :: "string \<Rightarrow> zset"
  r_rpm :: "string \<Rightarrow> zset"
  r_tpm :: "string \<Rightarrow> zset"
  r_tokens :: "string \<Rightarrow> (string \<times> int) list"
  r_permits :: "string \<Rightarrow> permit_hash option"
  r_blocked :: "string \<Rightarrow> (rat \<times> rat option) option"
  r_failures :: "string \<Rightarrow> (int \<times> rat option) option"
  r_open :: "string \<Rightarrow> (rat \<times> rat option) option"
  r_max_ttl :: int

definition empty_redis :: "int \<Rightarrow> redis" where
  "empty_redis mx = \<lparr>r_active = (\<lambda>_. []), r_rpm = (\<lambda>_. []), r_tpm = (\<lambda>_. []), r_tokens = (\<lambda>_. []), r_permits = (\<lambda>_. None),
     r_blocked = (\<lambda>_. None), r_failures = (\<lambda>_. None), r_open = (\<lambda>_. None), r_max_ttl = mx\<rparr>"

text \<open>Keys whose time has come are gone before a script runs; time stands still while it runs.\<close>

definition past :: "rat \<Rightarrow> rat option \<Rightarrow> bool" where
  "past srv e = (case e of None \<Rightarrow> False | Some t \<Rightarrow> t \<le> srv)"

definition alive :: "rat \<Rightarrow> ('v \<Rightarrow> rat option) \<Rightarrow> (string \<Rightarrow> 'v option) \<Rightarrow> string \<Rightarrow> 'v option" where
  "alive srv e f k = (case f k of Some v \<Rightarrow> if past srv (e v) then None else Some v | None \<Rightarrow> None)"

definition expire_keys :: "rat \<Rightarrow> redis \<Rightarrow> redis" where
  "expire_keys srv st = st\<lparr>r_permits := alive srv ph_expires (r_permits st), r_blocked := alive srv snd (r_blocked st),
     r_failures := alive srv snd (r_failures st), r_open := alive srv snd (r_open st)\<rparr>"

definition value_or_zero :: "(rat \<times> rat option) option \<Rightarrow> rat" where
  "value_or_zero v = (case v of None \<Rightarrow> 0 | Some (x, _) \<Rightarrow> x)"

definition permit_state :: "redis \<Rightarrow> string \<Rightarrow> string option" where
  "permit_state st p = map_option ph_state (r_permits st p)"

definition permit_route :: "redis \<Rightarrow> string \<Rightarrow> string option" where
  "permit_route st p = (case r_permits st p of None \<Rightarrow> None | Some h \<Rightarrow> ph_route_id h)"

section \<open>The script\<close>

text \<open>A reply is a status with a number, or \<open>None\<close> for an error of Redis.\<close>

type_synonym reply = "(string \<times> rat) option"

definition drop_rate :: "string \<Rightarrow> string \<Rightarrow> redis \<Rightarrow> redis" where
  "drop_rate key p st = st\<lparr>r_rpm := (r_rpm st)(key := zrem p (r_rpm st key)), r_tpm := (r_tpm st)(key := zrem p (r_tpm st key)),
     r_tokens := (r_tokens st)(key := zrem p (r_tokens st key))\<rparr>"

text \<open>\<open>HSET permit state x\<close> creates the hash when it is missing.\<close>

definition hset_state :: "string \<Rightarrow> permit_hash option \<Rightarrow> permit_hash" where
  "hset_state x h = (case h of None \<Rightarrow> \<lparr>ph_state = x, ph_route_id = None, ph_expires = None\<rparr> | Some h \<Rightarrow> h\<lparr>ph_state := x\<rparr>)"

definition reap_permit :: "string \<Rightarrow> rat \<Rightarrow> string \<Rightarrow> redis \<Rightarrow> redis" where
  "reap_permit key srv p st =
     (let st1 = (if permit_state st p = Some ''acquired'' then drop_rate key p st else st)
      in st1\<lparr>r_active := (r_active st1)(key := zrem p (r_active st1 key)),
           r_permits := (r_permits st1)(p \<mapsto> (hset_state ''expired'' (r_permits st1 p))\<lparr>ph_expires := Some (srv + 60)\<rparr>)\<rparr>)"

definition reap_expired_permits :: "string \<Rightarrow> rat \<Rightarrow> rat \<Rightarrow> redis \<Rightarrow> redis" where
  "reap_expired_permits key now srv st = fold (reap_permit key srv) (map fst (filter (\<lambda>e. snd e \<le> now) (r_active st key))) st"

definition drop_stale :: "string \<Rightarrow> rat \<Rightarrow> redis \<Rightarrow> redis" where
  "drop_stale key threshold st =
     (let stale = map fst (filter (\<lambda>e. snd e \<le> threshold) (r_tpm st key))
      in st\<lparr>r_rpm := (r_rpm st)(key := filter (\<lambda>e. threshold < snd e) (r_rpm st key)),
           r_tpm := (r_tpm st)(key := filter (\<lambda>e. threshold < snd e) (r_tpm st key)),
           r_tokens := (r_tokens st)(key := filter (\<lambda>e. fst e \<notin> set stale) (r_tokens st key))\<rparr>)"

definition used_tokens :: "redis \<Rightarrow> string \<Rightarrow> int" where
  "used_tokens st key = sum_list (map snd (r_tokens st key))"

definition grant_permit :: "deployed_route \<Rightarrow> string \<Rightarrow> int \<Rightarrow> rat \<Rightarrow> redis \<Rightarrow> redis" where
  "grant_permit rt p tokens now st =
     (let key = rt_rate_limit_key rt
      in st\<lparr>r_active := (r_active st)(key := zadd p (now + rt_permit_ttl_seconds rt) (r_active st key)),
           r_rpm := (r_rpm st)(key := zadd p now (r_rpm st key)), r_tpm := (r_tpm st)(key := zadd p now (r_tpm st key)),
           r_tokens := (r_tokens st)(key := zadd p tokens (r_tokens st key)),
           r_permits := (r_permits st)(p \<mapsto> (hset_state ''acquired'' (r_permits st p))\<lparr>ph_route_id := Some (rt_route_id rt)\<rparr>)\<rparr>)"

definition expire_permit :: "string \<Rightarrow> rat \<Rightarrow> redis \<Rightarrow> redis" where
  "expire_permit p e st = st\<lparr>r_permits := (r_permits st)(p := map_option (\<lambda>h. h\<lparr>ph_expires := Some e\<rparr>) (r_permits st p))\<rparr>"

definition script_acquire :: "deployed_route \<Rightarrow> string \<Rightarrow> int \<Rightarrow> rat \<Rightarrow> rat \<Rightarrow> redis \<Rightarrow> reply \<times> redis" where
  "script_acquire rt p tokens now srv st =
     (let key = rt_rate_limit_key rt; open_until = value_or_zero (r_open st (rt_route_id rt));
          blocked_until = value_or_zero (r_blocked st key)
      in if 0 < rt_circuit_failure_threshold rt \<and> now < open_until then (Some (''circuit_open'', open_until), st)
         else (case permit_route st p of
             Some rid \<Rightarrow> if rid \<noteq> rt_route_id rt then (Some (''route_mismatch'', 0), st)
                         else (Some (the (permit_state st p), 0), st)
           | None \<Rightarrow>
               if now < blocked_until then (Some (''blocked'', blocked_until), st)
               else (let st1 = reap_expired_permits key now srv st
                 in if rt_max_concurrency rt \<le> int (length (r_active st1 key)) then (Some (''concurrency_exceeded'', 0), st1)
                    else (let st2 = drop_stale key (now - 60) st1
                      in if rt_rpm_limit rt \<le> int (length (r_rpm st2 key)) then (Some (''rpm_exceeded'', 0), st2)
                         else if rt_tpm_limit rt < used_tokens st2 key + tokens then (Some (''tpm_exceeded'', 0), st2)
                         else (let st3 = grant_permit rt p tokens now st2; ttl = \<lceil>rt_permit_ttl_seconds rt\<rceil> + 60
                           in if r_max_ttl st < ttl then (None, st3)
                              else (Some (''acquired'', rt_permit_ttl_seconds rt), expire_permit p (srv + of_int ttl) st3))))))"

definition script_circuit_preflight :: "deployed_route \<Rightarrow> rat \<Rightarrow> redis \<Rightarrow> reply \<times> redis" where
  "script_circuit_preflight rt now st =
     (let open_until = value_or_zero (r_open st (rt_route_id rt))
      in if rt_circuit_failure_threshold rt = 0 then (Some (''circuit_available'', 0), st)
         else if now < open_until then (Some (''circuit_open'', open_until), st)
         else (Some (''circuit_available'', 0), st))"

definition script_circuit_failure :: "deployed_route \<Rightarrow> rat \<Rightarrow> rat \<Rightarrow> redis \<Rightarrow> reply \<times> redis" where
  "script_circuit_failure rt now srv st =
     (if rt_circuit_failure_threshold rt = 0 then (Some (''circuit_disabled'', 0), st)
      else (let rid = rt_route_id rt; ttl = max 1 \<lceil>rt_circuit_open_seconds rt\<rceil>;
                (count, e) = (case r_failures st rid of None \<Rightarrow> (1, None) | Some (n, e) \<Rightarrow> (n + 1, e));
                st1 = st\<lparr>r_failures := (r_failures st)(rid \<mapsto> (count, Some (srv + of_int ttl)))\<rparr>;
                open_until = now + rt_circuit_open_seconds rt
            in if r_max_ttl st < ttl then (None, st\<lparr>r_failures := (r_failures st)(rid \<mapsto> (count, e))\<rparr>)
               else if rt_circuit_failure_threshold rt \<le> count
               then (Some (''circuit_opened'', open_until), st1\<lparr>r_open := (r_open st1)(rid \<mapsto> (open_until, Some (srv + of_int ttl)))\<rparr>)
               else (Some (''circuit_failure'', of_int count), st1)))"

definition script_circuit_success :: "deployed_route \<Rightarrow> redis \<Rightarrow> reply \<times> redis" where
  "script_circuit_success rt st =
     (let rid = rt_route_id rt
      in (Some (if r_failures st rid \<noteq> None \<or> r_open st rid \<noteq> None then ''circuit_recovered'' else ''circuit_reset'', 0),
          st\<lparr>r_failures := (r_failures st)(rid := None), r_open := (r_open st)(rid := None)\<rparr>))"

definition set_permit_state :: "string \<Rightarrow> string \<Rightarrow> redis \<Rightarrow> redis" where
  "set_permit_state p x st = st\<lparr>r_permits := (r_permits st)(p := map_option (\<lambda>h. h\<lparr>ph_state := x\<rparr>) (r_permits st p))\<rparr>"

definition script_started :: "deployed_route \<Rightarrow> string \<Rightarrow> rat \<Rightarrow> rat \<Rightarrow> redis \<Rightarrow> reply \<times> redis" where
  "script_started rt p now srv st =
     (let st1 = reap_expired_permits (rt_rate_limit_key rt) now srv st
      in case permit_state st1 p of
           None \<Rightarrow> (Some (''expired'', 0), st1)
         | Some x \<Rightarrow>
             if permit_route st1 p \<noteq> Some (rt_route_id rt) then (Some (''route_mismatch'', 0), st1)
             else if x = ''acquired'' then (Some (''started'', 0), set_permit_state p ''started'' st1)
             else if x = ''started'' then (Some (''already_started'', 0), st1)
             else (Some (x, 0), st1))"

definition release_slot :: "string \<Rightarrow> string \<Rightarrow> redis \<Rightarrow> redis" where
  "release_slot key p st =
     (let st1 = set_permit_state p ''settled'' st in st1\<lparr>r_active := (r_active st1)(key := zrem p (r_active st1 key))\<rparr>)"

text \<open>The provider's \<open>Retry-After\<close> was parsed by \<open>float\<close>; an infinite one cannot be an expiry.\<close>

definition script_settle :: "deployed_route \<Rightarrow> string \<Rightarrow> pyfloat \<Rightarrow> rat \<Rightarrow> rat \<Rightarrow> redis \<Rightarrow> reply \<times> redis" where
  "script_settle rt p retry_after now srv st =
     (let key = rt_rate_limit_key rt; st1 = reap_expired_permits key now srv st
      in case permit_state st1 p of
           None \<Rightarrow> (Some (''already_settled'', 0), st1)
         | Some x \<Rightarrow>
             if permit_route st1 p \<noteq> Some (rt_route_id rt) then (Some (''route_mismatch'', 0), st1)
             else if x = ''settled'' then (Some (''already_settled'', 0), st1)
             else (let st2 = release_slot key p st1
               in case retry_after of
                    Fin d \<Rightarrow>
                      if 0 < d then
                        (let until = max (value_or_zero (r_blocked st2 key)) (now + d); ttl = \<lceil>until - now\<rceil>
                         in if r_max_ttl st2 < ttl then (None, st2)
                            else (Some (''settled'', 0), st2\<lparr>r_blocked := (r_blocked st2)(key \<mapsto> (until, Some (srv + of_int ttl)))\<rparr>))
                      else (Some (''settled'', 0), st2)
                  | PInf \<Rightarrow> (None, st2)
                  | _ \<Rightarrow> (Some (''settled'', 0), st2)))"

section \<open>The controller\<close>

record permit_result =
  pr_status :: string
  pr_retry_after :: rat

definition permit_result :: "string \<Rightarrow> permit_result" where
  "permit_result x = \<lparr>pr_status = x, pr_retry_after = 0\<rparr>"

text \<open>What the network does to one call of Redis: it is answered, it does not arrive, or its answer is lost.\<close>

datatype fate = Answered | NotSent | ReplyLost

type_synonym traffic_event = "string \<times> string \<times> string"

definition run_script :: "fate \<Rightarrow> rat \<Rightarrow> rat \<Rightarrow> (redis \<Rightarrow> reply \<times> redis) \<Rightarrow> redis \<Rightarrow> permit_result \<times> redis" where
  "run_script fate now srv script st =
     (if fate = NotSent then (permit_result ''redis_unavailable'', st)
      else (case script (expire_keys srv st) of
          (None, st1) \<Rightarrow> (permit_result ''redis_unavailable'', st1)
        | (Some (x, d), st1) \<Rightarrow>
            if fate = ReplyLost then (permit_result ''redis_unavailable'', st1)
            else (\<lparr>pr_status = x, pr_retry_after =
                (if x \<in> {''blocked'', ''circuit_open''} then max 0 (of_int (py_int d) - now) else 0)\<rparr>, st1)))"

definition acquire ::
  "deployed_route \<Rightarrow> string \<Rightarrow> int \<Rightarrow> fate \<Rightarrow> rat \<Rightarrow> rat \<Rightarrow> redis \<Rightarrow> runtime_error + (permit_result \<times> traffic_event list \<times> redis)" where
  "acquire rt p tokens fate now srv st =
     (if p = '''' \<or> tokens < 0 then Inl (ValueError ''permit_id'')
      else (case run_script fate now srv (script_acquire rt p tokens now srv) st of (res, st1) \<Rightarrow>
        Inr (res, (if pr_status res = ''redis_unavailable'' then [(''redis_fail_closed'', rt_route_id rt, pr_status res)]
                   else if pr_status res \<noteq> ''acquired'' then [(''permit_rejected'', rt_route_id rt, pr_status res)] else []), st1)))"

definition record_circuit_failure ::
  "deployed_route \<Rightarrow> fate \<Rightarrow> rat \<Rightarrow> rat \<Rightarrow> redis \<Rightarrow> permit_result \<times> traffic_event list \<times> redis" where
  "record_circuit_failure rt fate now srv st =
     (if rt_circuit_failure_threshold rt = 0 then (permit_result ''circuit_disabled'', [], st)
      else (case run_script fate now srv (script_circuit_failure rt now srv) st of (res, st1) \<Rightarrow>
        (res, (if pr_status res = ''circuit_opened'' then [(''circuit_opened'', rt_route_id rt, pr_status res)]
               else if pr_status res = ''redis_unavailable'' then [(''redis_fail_closed'', rt_route_id rt, pr_status res)] else []), st1)))"

definition record_circuit_success ::
  "deployed_route \<Rightarrow> fate \<Rightarrow> rat \<Rightarrow> rat \<Rightarrow> redis \<Rightarrow> permit_result \<times> traffic_event list \<times> redis" where
  "record_circuit_success rt fate now srv st =
     (if rt_circuit_failure_threshold rt = 0 then (permit_result ''circuit_disabled'', [], st)
      else (case run_script fate now srv (script_circuit_success rt) st of (res, st1) \<Rightarrow>
        (res, (if pr_status res = ''circuit_recovered'' then [(''circuit_recovered'', rt_route_id rt, pr_status res)]
               else if pr_status res = ''redis_unavailable'' then [(''redis_fail_closed'', rt_route_id rt, pr_status res)] else []), st1)))"

definition preflight_circuit :: "deployed_route \<Rightarrow> fate \<Rightarrow> rat \<Rightarrow> rat \<Rightarrow> redis \<Rightarrow> permit_result \<times> redis" where
  "preflight_circuit rt fate now srv st =
     (if rt_circuit_failure_threshold rt = 0 then (permit_result ''circuit_available'', st)
      else run_script fate now srv (script_circuit_preflight rt now) st)"

definition mark_permit_started :: "deployed_route \<Rightarrow> string \<Rightarrow> fate \<Rightarrow> rat \<Rightarrow> rat \<Rightarrow> redis \<Rightarrow> permit_result \<times> redis" where
  "mark_permit_started rt p fate now srv st = run_script fate now srv (script_started rt p now srv) st"

definition positive_delay :: "pyfloat \<Rightarrow> bool" where
  "positive_delay d = (case d of Fin q \<Rightarrow> 0 < q | PInf \<Rightarrow> True | _ \<Rightarrow> False)"

definition negative_delay :: "pyfloat \<Rightarrow> bool" where
  "negative_delay d = (case d of Fin q \<Rightarrow> q < 0 | NInf \<Rightarrow> True | _ \<Rightarrow> False)"

definition settle_permit ::
  "deployed_route \<Rightarrow> string \<Rightarrow> pyfloat \<Rightarrow> fate \<Rightarrow> rat \<Rightarrow> rat \<Rightarrow> redis \<Rightarrow>
    runtime_error + (permit_result \<times> traffic_event list \<times> redis)" where
  "settle_permit rt p retry_after fate now srv st =
     (if negative_delay retry_after then Inl (ValueError ''retry_after_seconds'')
      else (case run_script fate now srv (script_settle rt p retry_after now srv) st of (res, st1) \<Rightarrow>
        Inr (res, (if positive_delay retry_after \<and> pr_status res \<in> {''settled'', ''already_settled''}
                   then [(''retry_after_applied'', rt_route_id rt, ''rate_limited'')]
                   else if pr_status res = ''redis_unavailable'' then [(''redis_fail_closed'', rt_route_id rt, pr_status res)] else []), st1)))"


section \<open>Histories\<close>

datatype traffic_op =
    Acquire deployed_route string int
  | Started deployed_route string
  | Settle deployed_route string pyfloat
  | Circuit_Preflight deployed_route
  | Circuit_Failure deployed_route
  | Circuit_Success deployed_route

fun script_of :: "traffic_op \<Rightarrow> rat \<Rightarrow> rat \<Rightarrow> redis \<Rightarrow> reply \<times> redis" where
  "script_of (Acquire rt p tokens) now srv = script_acquire rt p tokens now srv"
| "script_of (Started rt p) now srv = script_started rt p now srv"
| "script_of (Settle rt p d) now srv = script_settle rt p d now srv"
| "script_of (Circuit_Preflight rt) now srv = script_circuit_preflight rt now"
| "script_of (Circuit_Failure rt) now srv = script_circuit_failure rt now srv"
| "script_of (Circuit_Success rt) now srv = script_circuit_success rt"

record grant =
  gr_permit :: string
  gr_key :: string
  gr_at :: rat
  gr_ttl :: rat
  gr_tokens :: int

record traffic =
  tr_store :: redis
  tr_grants :: "grant list"
  tr_started :: "string list"
  tr_settled :: "string list"
  tr_now :: rat

definition start_traffic :: "int \<Rightarrow> rat \<Rightarrow> traffic" where
  "start_traffic mx t = \<lparr>tr_store = empty_redis mx, tr_grants = [], tr_started = [], tr_settled = [], tr_now = t\<rparr>"

text \<open>What a script has done to the permit it names.\<close>

definition note_op :: "traffic_op \<Rightarrow> rat \<Rightarrow> reply \<Rightarrow> redis \<Rightarrow> traffic \<Rightarrow> traffic" where
  "note_op op now r st t =
     (case op of
        Acquire rt p tokens \<Rightarrow>
          if permit_state st p = Some ''acquired''
          then t\<lparr>tr_grants := \<lparr>gr_permit = p, gr_key = rt_rate_limit_key rt, gr_at = now, gr_ttl = rt_permit_ttl_seconds rt,
              gr_tokens = tokens\<rparr> # tr_grants t\<rparr> else t
      | Started rt p \<Rightarrow> if r = Some (''started'', 0) then t\<lparr>tr_started := p # tr_started t\<rparr> else t
      | Settle rt p d \<Rightarrow> if permit_state st p = Some ''settled'' then t\<lparr>tr_settled := p # tr_settled t\<rparr> else t
      | _ \<Rightarrow> t)"

definition traffic_next :: "traffic_op \<Rightarrow> rat \<Rightarrow> rat \<Rightarrow> traffic \<Rightarrow> traffic" where
  "traffic_next op now srv t =
     (case script_of op now srv (expire_keys srv (tr_store t)) of (r, st) \<Rightarrow>
        (note_op op now r st t)\<lparr>tr_store := st, tr_now := now\<rparr>)"

record limits =
  lm_concurrency :: "string \<Rightarrow> int"
  lm_rpm :: "string \<Rightarrow> int"
  lm_tpm :: "string \<Rightarrow> int"

text \<open>Permit names are new and the routes that share a rate limit key stay within the same limits.\<close>

definition op_ok :: "limits \<Rightarrow> traffic \<Rightarrow> traffic_op \<Rightarrow> bool" where
  "op_ok L t op =
     (case op of
        Acquire rt p tokens \<Rightarrow> p \<notin> gr_permit ` set (tr_grants t) \<and> 0 \<le> tokens \<and>
          rt_max_concurrency rt \<le> lm_concurrency L (rt_rate_limit_key rt) \<and>
          rt_rpm_limit rt \<le> lm_rpm L (rt_rate_limit_key rt) \<and> rt_tpm_limit rt \<le> lm_tpm L (rt_rate_limit_key rt)
      | _ \<Rightarrow> True)"

inductive traffic_run :: "limits \<Rightarrow> traffic \<Rightarrow> bool" for L where
  traffic_start: "traffic_run L (start_traffic mx t0)"
| traffic_op: "traffic_run L t \<Longrightarrow> tr_now t \<le> now \<Longrightarrow> op_ok L t op \<Longrightarrow> traffic_run L (traffic_next op now srv t)"

section \<open>The invariant\<close>

definition limits_ok :: "limits \<Rightarrow> bool" where
  "limits_ok L \<longleftrightarrow> (\<forall>k. 0 \<le> lm_concurrency L k \<and> 0 \<le> lm_rpm L k \<and> 0 \<le> lm_tpm L k)"

definition sizes_ok :: "limits \<Rightarrow> redis \<Rightarrow> bool" where
  "sizes_ok L st \<longleftrightarrow> (\<forall>k. distinct (map fst (r_active st k)) \<and> distinct (map fst (r_rpm st k)) \<and>
     distinct (map fst (r_tokens st k)) \<and> int (length (r_active st k)) \<le> lm_concurrency L k \<and>
     int (length (r_rpm st k)) \<le> lm_rpm L k \<and> used_tokens st k \<le> lm_tpm L k)"

definition entries_ok :: "grant list \<Rightarrow> redis \<Rightarrow> bool" where
  "entries_ok G st \<longleftrightarrow> (\<forall>k.
     (\<forall>e\<in>set (r_active st k). \<exists>g\<in>set G. gr_permit g = fst e \<and> gr_key g = k \<and> gr_at g + gr_ttl g = snd e) \<and>
     (\<forall>e\<in>set (r_rpm st k). \<exists>g\<in>set G. gr_permit g = fst e \<and> gr_key g = k \<and> gr_at g = snd e) \<and>
     (\<forall>e\<in>set (r_tpm st k). \<exists>g\<in>set G. gr_permit g = fst e \<and> gr_key g = k \<and> gr_at g = snd e) \<and>
     (\<forall>e\<in>set (r_tokens st k). \<exists>g\<in>set G. gr_permit g = fst e \<and> gr_key g = k \<and> gr_tokens g = snd e))"

definition grants_ok :: "grant list \<Rightarrow> string list \<Rightarrow> string list \<Rightarrow> redis \<Rightarrow> bool" where
  "grants_ok G S D st \<longleftrightarrow> distinct (map gr_permit G) \<and> (\<forall>g\<in>set G. 0 \<le> gr_tokens g) \<and>
     (\<forall>p. r_permits st p \<noteq> None \<or> p \<in> set S \<or> p \<in> set D \<longrightarrow> p \<in> gr_permit ` set G) \<and>
     (\<forall>p\<in>set S. permit_state st p \<noteq> Some ''acquired'')"

text \<open>A permit in use has its place in every window that has not passed it.\<close>

definition in_use :: "string list \<Rightarrow> redis \<Rightarrow> string \<Rightarrow> bool" where
  "in_use S st p \<longleftrightarrow> p \<in> set S \<or> permit_state st p = Some ''acquired''"

definition counted :: "string list \<Rightarrow> rat \<Rightarrow> redis \<Rightarrow> grant \<Rightarrow> bool" where
  "counted D now st g \<longleftrightarrow>
     (now - 60 < gr_at g \<longrightarrow> (gr_permit g, gr_at g) \<in> set (r_rpm st (gr_key g)) \<and>
        (gr_permit g, gr_tokens g) \<in> set (r_tokens st (gr_key g))) \<and>
     (gr_permit g \<notin> set D \<and> now < gr_at g + gr_ttl g \<longrightarrow> (gr_permit g, gr_at g + gr_ttl g) \<in> set (r_active st (gr_key g)))"

definition traffic_inv :: "limits \<Rightarrow> grant list \<Rightarrow> string list \<Rightarrow> string list \<Rightarrow> rat \<Rightarrow> redis \<Rightarrow> bool" where
  "traffic_inv L G S D now st \<longleftrightarrow> sizes_ok L st \<and> entries_ok G st \<and> grants_ok G S D st \<and>
     (\<forall>g\<in>set G. in_use S st (gr_permit g) \<longrightarrow> counted D now st g)"

lemma set_zrem [simp]: "set (zrem p z) = {e \<in> set z. fst e \<noteq> p}"
  by (simp add: zrem_def)

lemma distinct_filter_fst: "distinct (map fst z) \<Longrightarrow> distinct (map fst (filter P z))"
  by (induction z) auto

lemma sum_filter_le: "(\<And>e. e \<in> set z \<Longrightarrow> 0 \<le> snd e) \<Longrightarrow> sum_list (map snd (filter P z)) \<le> sum_list (map snd (z :: (string \<times> int) list))"
proof (induction z)
  case (Cons e z)
  then have "sum_list (map snd (filter P z)) \<le> sum_list (map snd z)" "0 \<le> snd e" by auto
  then show ?case by auto
qed simp

lemma filter_within: "int (length z) \<le> n \<Longrightarrow> int (length (filter P z)) \<le> n"
  using length_filter_le [of P z] by linarith

text \<open>Leaving entries out keeps the sizes and the entries.\<close>

lemma tokens_nonneg:
  assumes "entries_ok G st" "grants_ok G S D st" "e \<in> set (r_tokens st k)"
  shows "0 \<le> snd e"
  using assms unfolding entries_ok_def grants_ok_def by force

lemma sizes_shrink:
  assumes s: "sizes_ok L st" and e: "entries_ok G st" and g: "grants_ok G S D st"
    and sub: "\<And>k. \<exists>P. r_active st' k = filter P (r_active st k)" "\<And>k. \<exists>P. r_rpm st' k = filter P (r_rpm st k)"
      "\<And>k. \<exists>P. r_tokens st' k = filter P (r_tokens st k)"
  shows "sizes_ok L st'"
proof -
  have "distinct (map fst (r_active st' k)) \<and> distinct (map fst (r_rpm st' k)) \<and>
     distinct (map fst (r_tokens st' k)) \<and> int (length (r_active st' k)) \<le> lm_concurrency L k \<and>
     int (length (r_rpm st' k)) \<le> lm_rpm L k \<and> used_tokens st' k \<le> lm_tpm L k" for k
  proof -
    obtain P Q R where f: "r_active st' k = filter P (r_active st k)" "r_rpm st' k = filter Q (r_rpm st k)"
      "r_tokens st' k = filter R (r_tokens st k)" using sub by blast
    have "used_tokens st' k \<le> used_tokens st k"
      unfolding used_tokens_def f by (rule sum_filter_le) (rule tokens_nonneg [OF e g])
    with s f show ?thesis
      by (auto simp: sizes_ok_def intro: distinct_filter_fst filter_within order_trans)
  qed
  then show ?thesis by (simp add: sizes_ok_def)
qed

lemma entries_shrink:
  assumes "entries_ok G st" "\<And>k. set (r_active st' k) \<subseteq> set (r_active st k)" "\<And>k. set (r_rpm st' k) \<subseteq> set (r_rpm st k)"
    "\<And>k. set (r_tpm st' k) \<subseteq> set (r_tpm st k)" "\<And>k. set (r_tokens st' k) \<subseteq> set (r_tokens st k)"
  shows "entries_ok G st'"
  using assms unfolding entries_ok_def by (meson subsetD)

text \<open>Two grants of one permit are the same.\<close>

lemma grant_unique: "grants_ok G S D st \<Longrightarrow> g \<in> set G \<Longrightarrow> h \<in> set G \<Longrightarrow> gr_permit g = gr_permit h \<Longrightarrow> g = h"
  unfolding grants_ok_def by (metis distinct_key_inj)

lemma permit_state_None: "permit_state st p = None \<longleftrightarrow> r_permits st p = None"
  by (simp add: permit_state_def)

text \<open>A step that only leaves entries out, and only of permits that are out of use or of windows that
  have passed them.\<close>

lemma inv_shrink:
  assumes inv: "traffic_inv L G S D now st"
    and sub: "\<And>k. \<exists>P. r_active st' k = filter P (r_active st k)" "\<And>k. \<exists>P. r_rpm st' k = filter P (r_rpm st k)"
      "\<And>k. \<exists>P. r_tpm st' k = filter P (r_tpm st k)" "\<And>k. \<exists>P. r_tokens st' k = filter P (r_tokens st k)"
    and hashes: "\<And>p. r_permits st' p \<noteq> None \<Longrightarrow> p \<in> gr_permit ` set G"
      "\<And>p. permit_state st' p = Some ''acquired'' \<Longrightarrow> permit_state st p = Some ''acquired''"
    and kept: "\<And>g. g \<in> set G \<Longrightarrow> in_use S st' (gr_permit g) \<Longrightarrow> counted D now st g \<Longrightarrow> counted D now st' g"
  shows "traffic_inv L G S D now st'"
proof -
  from inv have e: "entries_ok G st" and g: "grants_ok G S D st" and z: "sizes_ok L st" by (auto simp: traffic_inv_def)
  have set_sub: "set (f st' k) \<subseteq> set (f st k)" if "\<And>k. \<exists>P. f st' k = filter P (f st k)" for f k
    using that [of k] by auto
  have "entries_ok G st'"
    by (rule entries_shrink [OF e]) (use sub in \<open>metis filter_is_subset\<close>)+
  moreover have "grants_ok G S D st'" using g hashes unfolding grants_ok_def by blast
  moreover have "counted D now st' h" if h: "h \<in> set G" "in_use S st' (gr_permit h)" for h
  proof -
    have "in_use S st (gr_permit h)" using h(2) hashes(2) by (auto simp: in_use_def)
    with inv h(1) have "counted D now st h" by (simp add: traffic_inv_def)
    then show ?thesis by (rule kept [OF h])
  qed
  ultimately show ?thesis using sizes_shrink [OF z e g sub(1,2,4)] by (simp add: traffic_inv_def)
qed

lemma filter_all: "\<exists>P. xs = filter P xs"
  by (rule exI [of _ "\<lambda>_. True"]) simp

lemma inv_expire:
  assumes "traffic_inv L G S D now st"
  shows "traffic_inv L G S D now (expire_keys srv st)"
proof (rule inv_shrink [OF assms])
  show "r_permits (expire_keys srv st) p \<noteq> None \<Longrightarrow> p \<in> gr_permit ` set G" for p
    using assms by (auto simp: traffic_inv_def grants_ok_def expire_keys_def alive_def split: option.split_asm if_split_asm)
  show "permit_state (expire_keys srv st) p = Some ''acquired'' \<Longrightarrow> permit_state st p = Some ''acquired''" for p
    by (auto simp: permit_state_def expire_keys_def alive_def split: option.split_asm if_split_asm)
qed (auto simp: expire_keys_def counted_def intro: filter_all)

lemma inv_time: "traffic_inv L G S D now st \<Longrightarrow> now \<le> now' \<Longrightarrow> traffic_inv L G S D now' st"
  unfolding traffic_inv_def counted_def by fastforce

text \<open>The flow control of other keys and the circuit breaker play no part.\<close>

lemma inv_other:
  assumes "traffic_inv L G S D now st" "r_active st' = r_active st" "r_rpm st' = r_rpm st" "r_tpm st' = r_tpm st"
    "r_tokens st' = r_tokens st" "r_permits st' = r_permits st"
  shows "traffic_inv L G S D now st'"
proof (rule inv_shrink [OF assms(1)])
  show "r_permits st' p \<noteq> None \<Longrightarrow> p \<in> gr_permit ` set G" for p
    using assms by (auto simp: traffic_inv_def grants_ok_def)
qed (use assms in \<open>auto simp: permit_state_def counted_def intro: filter_all\<close>)

lemma inv_active_grant:
  assumes "traffic_inv L G S D now st" "(p, sc) \<in> set (r_active st key)"
  obtains g where "g \<in> set G" "gr_permit g = p" "gr_key g = key" "gr_at g + gr_ttl g = sc"
  using assms unfolding traffic_inv_def entries_ok_def by fastforce

lemma reap_permit_sets:
  "set (r_active (reap_permit key srv p st) k) = {e \<in> set (r_active st k). \<not> (k = key \<and> fst e = p)}"
  "set (r_rpm (reap_permit key srv p st) k) =
     {e \<in> set (r_rpm st k). \<not> (k = key \<and> fst e = p \<and> permit_state st p = Some ''acquired'')}"
  "set (r_tokens (reap_permit key srv p st) k) =
     {e \<in> set (r_tokens st k). \<not> (k = key \<and> fst e = p \<and> permit_state st p = Some ''acquired'')}"
  "permit_state (reap_permit key srv p st) q = (if q = p then Some ''expired'' else permit_state st q)"
  by (auto simp: reap_permit_def drop_rate_def Let_def permit_state_def hset_state_def split: option.split)

lemma zrem_filter: "\<exists>P. zrem p z = filter P z"
  unfolding zrem_def by blast

lemma reap_permit_filter:
  "\<exists>P. r_active (reap_permit key srv p st) k = filter P (r_active st k)"
  "\<exists>P. r_rpm (reap_permit key srv p st) k = filter P (r_rpm st k)"
  "\<exists>P. r_tpm (reap_permit key srv p st) k = filter P (r_tpm st k)"
  "\<exists>P. r_tokens (reap_permit key srv p st) k = filter P (r_tokens st k)"
  by (auto simp: reap_permit_def drop_rate_def Let_def intro: zrem_filter filter_all)

lemma inv_reap_permit:
  assumes inv: "traffic_inv L G S D now st" and p: "(p, sc) \<in> set (r_active st key)" "sc \<le> now"
  shows "traffic_inv L G S D now (reap_permit key srv p st)"
proof -
  from inv_active_grant [OF inv p(1)] obtain g where
    g: "g \<in> set G" "gr_permit g = p" "gr_key g = key" "gr_at g + gr_ttl g = sc" .
  have go: "grants_ok G S D st" using inv by (simp add: traffic_inv_def)
  show ?thesis
  proof (rule inv_shrink [OF inv reap_permit_filter])
    show "q \<in> gr_permit ` set G" if "r_permits (reap_permit key srv p st) q \<noteq> None" for q
      using that go g(1,2) by (cases "q = p") (auto simp: grants_ok_def reap_permit_sets(4) simp flip: permit_state_None)
    show "permit_state (reap_permit key srv p st) q = Some ''acquired'' \<Longrightarrow> permit_state st q = Some ''acquired''" for q
      by (simp add: reap_permit_sets split: if_split_asm)
    show "counted D now (reap_permit key srv p st) h"
      if h: "h \<in> set G" "in_use S (reap_permit key srv p st) (gr_permit h)" "counted D now st h" for h
    proof (cases "gr_permit h = p")
      case True
      then have "h = g" using grant_unique [OF go h(1) g(1)] g(2) by simp
      moreover have "permit_state st p \<noteq> Some ''acquired''"
        using h(2) True go by (auto simp: in_use_def reap_permit_sets grants_ok_def)
      ultimately show ?thesis using h(3) g p(2) by (auto simp: counted_def reap_permit_sets)
    next
      case False
      with h(3) show ?thesis by (auto simp: counted_def reap_permit_sets)
    qed
  qed
qed

lemma inv_reap_fold:
  assumes "traffic_inv L G S D now st" "distinct ps" "\<forall>p\<in>set ps. \<exists>sc. (p, sc) \<in> set (r_active st key) \<and> sc \<le> now"
  shows "traffic_inv L G S D now (fold (reap_permit key srv) ps st)"
  using assms
proof (induction ps arbitrary: st)
  case (Cons p ps)
  then obtain sc where "(p, sc) \<in> set (r_active st key)" "sc \<le> now" by auto
  with Cons.prems(1) have "traffic_inv L G S D now (reap_permit key srv p st)" by (rule inv_reap_permit)
  moreover have "\<forall>q\<in>set ps. \<exists>sc. (q, sc) \<in> set (r_active (reap_permit key srv p st) key) \<and> sc \<le> now"
    using Cons.prems(2,3) by (auto simp: reap_permit_sets)
  ultimately show ?case using Cons by simp
qed simp

lemma inv_reap:
  assumes "traffic_inv L G S D now st"
  shows "traffic_inv L G S D now (reap_expired_permits key now srv st)"
  unfolding reap_expired_permits_def
  by (rule inv_reap_fold [OF assms])
     (use assms in \<open>auto simp: traffic_inv_def sizes_ok_def intro: distinct_filter_fst\<close>)

lemma inv_drop_stale:
  assumes inv: "traffic_inv L G S D now st" and t: "threshold \<le> now - 60"
  shows "traffic_inv L G S D now (drop_stale key threshold st)"
proof (rule inv_shrink [OF inv])
  have go: "grants_ok G S D st" and eo: "entries_ok G st" using inv by (simp_all add: traffic_inv_def)
  show "counted D now (drop_stale key threshold st) h" if h: "h \<in> set G" "counted D now st h" for h
  proof -
    have "snd e = gr_at h" if e: "e \<in> set (r_tpm st k)" "fst e = gr_permit h" for e k
    proof -
      from eo e(1) obtain g where "g \<in> set G" "gr_permit g = fst e" "gr_at g = snd e" unfolding entries_ok_def by blast
      with grant_unique [OF go _ h(1)] e(2) show ?thesis by metis
    qed
    then show ?thesis using h(2) t by (fastforce simp: counted_def drop_stale_def Let_def)
  qed
  show "r_permits (drop_stale key threshold st) q \<noteq> None \<Longrightarrow> q \<in> gr_permit ` set G" for q
    using go by (auto simp: grants_ok_def drop_stale_def Let_def)
qed (auto simp: drop_stale_def Let_def permit_state_def intro: filter_all)

lemma inv_grant:
  assumes inv: "traffic_inv L G S D now st" and p: "p \<notin> gr_permit ` set G" "0 \<le> tokens"
    and room: "int (length (r_active st key)) < lm_concurrency L key" "int (length (r_rpm st key)) < lm_rpm L key"
      "used_tokens st key + tokens \<le> lm_tpm L key" and key: "key = rt_rate_limit_key rt"
  shows "traffic_inv L (\<lparr>gr_permit = p, gr_key = key, gr_at = now, gr_ttl = rt_permit_ttl_seconds rt, gr_tokens = tokens\<rparr> # G)
    S D now (grant_permit rt p tokens now st)" (is "traffic_inv L (?g # G) S D now ?st")
proof -
  have z: "sizes_ok L st" and eo: "entries_ok G st" and go: "grants_ok G S D st" using inv by (simp_all add: traffic_inv_def)
  have fresh: "p \<notin> fst ` set (r_active st key)" "p \<notin> fst ` set (r_rpm st key)" "p \<notin> fst ` set (r_tokens st key)"
    using p(1) eo unfolding entries_ok_def by force+
  then have same: "zrem p (r_active st key) = r_active st key" "zrem p (r_rpm st key) = r_rpm st key"
    "zrem p (r_tokens st key) = r_tokens st key"
    by (auto simp: zrem_def image_iff filter_id_conv)
  have st: "r_active ?st = (r_active st)(key := (p, now + rt_permit_ttl_seconds rt) # r_active st key)"
    "r_rpm ?st = (r_rpm st)(key := (p, now) # r_rpm st key)"
    "r_tpm ?st = (r_tpm st)(key := zadd p now (r_tpm st key))"
    "r_tokens ?st = (r_tokens st)(key := (p, tokens) # r_tokens st key)"
    by (simp_all add: grant_permit_def Let_def zadd_def key [symmetric] same)
  have ps: "permit_state ?st q = (if q = p then Some ''acquired'' else permit_state st q)" for q
    by (simp add: grant_permit_def Let_def permit_state_def hset_state_def split: option.split)
  have "sizes_ok L ?st" using z fresh room unfolding sizes_ok_def used_tokens_def st by auto
  moreover have "entries_ok (?g # G) ?st" using eo unfolding entries_ok_def st zadd_def by auto
  moreover have "grants_ok (?g # G) S D ?st"
    using go p ps unfolding grants_ok_def
    by (auto simp flip: permit_state_None split: if_split_asm)
  moreover have "counted D now ?st ?g" unfolding counted_def st by simp
  moreover have "counted D now ?st h" if h: "h \<in> set G" "in_use S ?st (gr_permit h)" for h
  proof -
    have "gr_permit h \<noteq> p" using h(1) p(1) by auto
    then have "in_use S st (gr_permit h)" using h(2) ps by (simp add: in_use_def)
    with inv h(1) have "counted D now st h" by (simp add: traffic_inv_def)
    then show ?thesis unfolding counted_def st by auto
  qed
  ultimately show ?thesis by (simp add: traffic_inv_def)
qed

lemma set_permit_state_state:
  "permit_state (set_permit_state p x st) q =
     (if q = p then map_option (\<lambda>_. x) (permit_state st p) else permit_state st q)"
  by (simp add: set_permit_state_def permit_state_def option.map_comp comp_def)

lemma set_permit_state_store [simp]:
  "r_active (set_permit_state p x st) = r_active st" "r_rpm (set_permit_state p x st) = r_rpm st"
  "r_tpm (set_permit_state p x st) = r_tpm st" "r_tokens (set_permit_state p x st) = r_tokens st"
  by (simp_all add: set_permit_state_def)

lemma set_permit_state_hashes: "r_permits (set_permit_state p x st) q \<noteq> None \<longleftrightarrow> r_permits st q \<noteq> None"
  by (simp add: set_permit_state_def)

text \<open>Starting a permit that is held keeps its place; settling it gives the slot back.\<close>

lemma inv_start_permit:
  assumes inv: "traffic_inv L G S D now st" and p: "permit_state st p = Some ''acquired''"
  shows "traffic_inv L G (p # S) D now (set_permit_state p ''started'' st)" (is "traffic_inv L G ?S D now ?st")
proof -
  have go: "grants_ok G S D st" using inv by (simp add: traffic_inv_def)
  have pg: "p \<in> gr_permit ` set G" using go p by (auto simp: grants_ok_def permit_state_def)
  have "sizes_ok L ?st" "entries_ok G ?st"
    using inv by (simp_all add: traffic_inv_def sizes_ok_def entries_ok_def used_tokens_def)
  moreover have "grants_ok G ?S D ?st"
    using go pg unfolding grants_ok_def set_permit_state_hashes set_permit_state_state by auto
  moreover have "counted D now ?st g" if g: "g \<in> set G" "in_use ?S ?st (gr_permit g)" for g
  proof -
    have "in_use S st (gr_permit g)"
      using g(2) p by (auto simp: in_use_def set_permit_state_state split: if_split_asm)
    with inv g(1) show ?thesis by (simp add: traffic_inv_def counted_def)
  qed
  ultimately show ?thesis by (simp add: traffic_inv_def)
qed

lemma inv_settle_permit:
  assumes inv: "traffic_inv L G S D now st" and p: "permit_state st p \<noteq> None"
  shows "traffic_inv L G S (p # D) now (release_slot key p st)" (is "traffic_inv L G S ?D now ?st")
proof -
  have go: "grants_ok G S D st" using inv by (simp add: traffic_inv_def)
  have pg: "p \<in> gr_permit ` set G" using go p by (auto simp: grants_ok_def permit_state_def)
  have st: "r_active ?st = (r_active st)(key := zrem p (r_active st key))" "r_rpm ?st = r_rpm st" "r_tpm ?st = r_tpm st"
    "r_tokens ?st = r_tokens st" "r_permits ?st = r_permits (set_permit_state p ''settled'' st)"
    by (simp_all add: release_slot_def Let_def)
  have ps: "permit_state ?st q = permit_state (set_permit_state p ''settled'' st) q" for q
    by (simp add: permit_state_def st)
  have go': "grants_ok G S ?D st" using go pg unfolding grants_ok_def by auto
  have inv': "traffic_inv L G S ?D now st"
    using inv go' unfolding traffic_inv_def counted_def by auto
  show ?thesis
  proof (rule inv_shrink [OF inv'])
    show "\<exists>P. r_active ?st k = filter P (r_active st k)" for k
      using zrem_filter filter_all by (auto simp: st)
    show "q \<in> gr_permit ` set G" if "r_permits ?st q \<noteq> None" for q
      using that go unfolding st(5) set_permit_state_hashes by (simp add: grants_ok_def)
    show "permit_state ?st q = Some ''acquired'' \<Longrightarrow> permit_state st q = Some ''acquired''" for q
      by (auto simp: ps set_permit_state_state split: if_split_asm)
    show "counted ?D now ?st g" if "counted ?D now st g" for g
      using that unfolding counted_def st by (cases "gr_permit g = p") auto
  qed (simp_all add: st filter_all)
qed

lemma expire_permit_inv:
  assumes "traffic_inv L G S D now st"
  shows "traffic_inv L G S D now (expire_permit p e st)"
proof (rule inv_shrink [OF assms])
  show "q \<in> gr_permit ` set G" if "r_permits (expire_permit p e st) q \<noteq> None" for q
    using that assms by (auto simp: traffic_inv_def grants_ok_def expire_permit_def split: if_split_asm)
  show "permit_state (expire_permit p e st) q = Some ''acquired'' \<Longrightarrow> permit_state st q = Some ''acquired''" for q
    by (auto simp: permit_state_def expire_permit_def split: if_split_asm)
qed (auto simp: expire_permit_def counted_def intro: filter_all)

definition traffic_ok :: "limits \<Rightarrow> traffic \<Rightarrow> bool" where
  "traffic_ok L t \<longleftrightarrow> traffic_inv L (tr_grants t) (tr_started t) (tr_settled t) (tr_now t) (tr_store t)"

lemma permit_state_grant: "permit_state (grant_permit rt p tokens now st) p = Some ''acquired''"
  by (simp add: grant_permit_def Let_def permit_state_def hset_state_def split: option.split)

lemma permit_state_expire: "permit_state (expire_permit p e st) q = permit_state st q"
  by (simp add: expire_permit_def permit_state_def option.map_comp comp_def)

lemma acquire_ok:
  assumes inv: "traffic_inv L G S D now st" and p: "p \<notin> gr_permit ` set G" "0 \<le> tokens"
    and lim: "rt_max_concurrency rt \<le> lm_concurrency L (rt_rate_limit_key rt)"
      "rt_rpm_limit rt \<le> lm_rpm L (rt_rate_limit_key rt)" "rt_tpm_limit rt \<le> lm_tpm L (rt_rate_limit_key rt)"
    and run: "script_acquire rt p tokens now srv st = (r, st')"
  shows "traffic_inv L
     (if permit_state st' p = Some ''acquired''
      then \<lparr>gr_permit = p, gr_key = rt_rate_limit_key rt, gr_at = now, gr_ttl = rt_permit_ttl_seconds rt, gr_tokens = tokens\<rparr> # G
      else G) S D now st'"
proof -
  let ?k = "rt_rate_limit_key rt" and ?g = "grant_permit rt p tokens now"
  let ?st1 = "reap_expired_permits ?k now srv st" and ?st2 = "drop_stale ?k (now - 60) (reap_expired_permits ?k now srv st)"
  have i1: "traffic_inv L G S D now ?st1" by (rule inv_reap [OF inv])
  have i2: "traffic_inv L G S D now ?st2" by (rule inv_drop_stale [OF i1]) simp
  have none: "permit_state x p \<noteq> Some ''acquired''" if "traffic_inv L G S D now x" for x
    using that p(1) by (auto simp: traffic_inv_def grants_ok_def permit_state_def)
  have refuse: ?thesis if "traffic_inv L G S D now st'" using none [OF that] that by simp
  have len: "int (length (r_active ?st2 ?k)) = int (length (r_active ?st1 ?k))" by (simp add: drop_stale_def Let_def)
  consider (same) "st' = st" | (full) "st' = ?st1" | (rate) "st' = ?st2"
    | (granted) e where "st' = ?g ?st2 \<or> st' = expire_permit p e (?g ?st2)"
        "int (length (r_active ?st2 ?k)) < rt_max_concurrency rt" "int (length (r_rpm ?st2 ?k)) < rt_rpm_limit rt"
        "used_tokens ?st2 ?k + tokens \<le> rt_tpm_limit rt"
    using run unfolding script_acquire_def Let_def len
    by (auto split: if_split_asm option.split_asm)
  then show ?thesis
  proof cases
    case granted
    have "traffic_inv L (\<lparr>gr_permit = p, gr_key = ?k, gr_at = now, gr_ttl = rt_permit_ttl_seconds rt, gr_tokens = tokens\<rparr> # G)
        S D now (?g ?st2)"
      by (rule inv_grant [OF i2 p]) (use granted lim in auto)
    with granted(1) expire_permit_inv show ?thesis by (auto simp: permit_state_grant permit_state_expire)
  qed (use refuse inv i1 i2 in auto)
qed

lemma started_ok:
  assumes inv: "traffic_inv L G S D now st" and run: "script_started rt p now srv st = (r, st')"
  shows "traffic_inv L G (if r = Some (''started'', 0) then p # S else S) D now st'"
proof -
  let ?st1 = "reap_expired_permits (rt_rate_limit_key rt) now srv st"
  have i1: "traffic_inv L G S D now ?st1" by (rule inv_reap [OF inv])
  consider (other) "st' = ?st1" "r \<noteq> Some (''started'', 0)"
    | (began) "st' = set_permit_state p ''started'' ?st1" "r = Some (''started'', 0)" "permit_state ?st1 p = Some ''acquired''"
    using run by (auto simp: script_started_def Let_def split: option.split_asm if_split_asm)
  then show ?thesis
    by cases (use i1 inv_start_permit [OF i1] in auto)
qed

lemma settle_ok:
  assumes inv: "traffic_inv L G S D now st" and run: "script_settle rt p d now srv st = (r, st')"
  shows "traffic_inv L G S (if permit_state st' p = Some ''settled'' then p # D else D) now st'"
proof -
  let ?k = "rt_rate_limit_key rt" and ?st1 = "reap_expired_permits (rt_rate_limit_key rt) now srv st"
  have i1: "traffic_inv L G S D now ?st1" by (rule inv_reap [OF inv])
  have more: "traffic_inv L G S (p # D) now ?st1" if "permit_state ?st1 p \<noteq> None"
    using i1 that unfolding traffic_inv_def grants_ok_def counted_def by (auto simp: permit_state_def)
  have rel: "permit_state (release_slot ?k p ?st1) p = Some ''settled''" if "permit_state ?st1 p \<noteq> None"
    using that by (auto simp: release_slot_def Let_def set_permit_state_def permit_state_def)
  consider (same) "st' = ?st1"
    | (ended) st2 where "permit_state ?st1 p \<noteq> None" "st2 = release_slot ?k p ?st1" "r_active st' = r_active st2"
       "r_rpm st' = r_rpm st2" "r_tpm st' = r_tpm st2" "r_tokens st' = r_tokens st2" "r_permits st' = r_permits st2"
    using run by (auto simp: script_settle_def Let_def split: option.split_asm if_split_asm pyfloat.split_asm)
  then show ?thesis
  proof cases
    case same
    with i1 more show ?thesis by auto
  next
    case ended
    have "traffic_inv L G S (p # D) now st'"
      by (rule inv_other [OF inv_settle_permit [OF i1 ended(1)] ended(3-7) [unfolded ended(2)]])
    moreover have "permit_state st' p = Some ''settled''"
      using rel [OF ended(1)] ended(2,7) by (simp add: permit_state_def)
    ultimately show ?thesis by simp
  qed
qed

lemma circuit_ok:
  assumes "traffic_inv L G S D now st"
  shows "traffic_inv L G S D now (snd (script_circuit_preflight rt now st))"
    "traffic_inv L G S D now (snd (script_circuit_failure rt now srv st))"
    "traffic_inv L G S D now (snd (script_circuit_success rt st))"
  by (rule inv_other [OF assms];
      simp add: script_circuit_preflight_def script_circuit_failure_def script_circuit_success_def Let_def split: prod.split)+

lemma traffic_next_ok:
  assumes ok: "traffic_ok L t" and now: "tr_now t \<le> now" and op: "op_ok L t op"
  shows "traffic_ok L (traffic_next op now srv t)"
proof -
  let ?st = "expire_keys srv (tr_store t)"
  have inv: "traffic_inv L (tr_grants t) (tr_started t) (tr_settled t) now ?st"
    by (rule inv_expire [OF inv_time [OF _ now]]) (use ok in \<open>simp add: traffic_ok_def\<close>)
  obtain r st' where run: "script_of op now srv ?st = (r, st')" by fastforce
  show ?thesis
  proof (cases op)
    case (Acquire rt p tokens)
    then have "script_acquire rt p tokens now srv ?st = (r, st')" using run by simp
    from acquire_ok [OF inv _ _ _ _ _ this] op Acquire run show ?thesis
      by (auto simp: traffic_ok_def traffic_next_def note_op_def op_ok_def)
  next
    case (Started rt p)
    then have "script_started rt p now srv ?st = (r, st')" using run by simp
    from started_ok [OF inv this] Started run show ?thesis by (auto simp: traffic_ok_def traffic_next_def note_op_def)
  next
    case (Settle rt p d)
    then have "script_settle rt p d now srv ?st = (r, st')" using run by simp
    from settle_ok [OF inv this] Settle run show ?thesis by (auto simp: traffic_ok_def traffic_next_def note_op_def)
  next
    case (Circuit_Preflight rt)
    with circuit_ok(1) [OF inv, of rt] run show ?thesis by (simp add: traffic_ok_def traffic_next_def note_op_def)
  next
    case (Circuit_Failure rt)
    with circuit_ok(2) [OF inv, of rt srv] run show ?thesis by (simp add: traffic_ok_def traffic_next_def note_op_def)
  next
    case (Circuit_Success rt)
    with circuit_ok(3) [OF inv, of rt] run show ?thesis by (simp add: traffic_ok_def traffic_next_def note_op_def)
  qed
qed

lemma traffic_run_ok: "traffic_run L t \<Longrightarrow> limits_ok L \<Longrightarrow> traffic_ok L t"
proof (induction rule: traffic_run.induct)
  case (traffic_start mx t0)
  then show ?case
    by (simp add: traffic_ok_def start_traffic_def empty_redis_def traffic_inv_def sizes_ok_def entries_ok_def grants_ok_def
        limits_ok_def used_tokens_def)
qed (use traffic_next_ok in blast)

section \<open>Properties\<close>

text \<open>The calls of a key that were begun in the last minute, and those that are still running.\<close>

definition recent_calls :: "traffic \<Rightarrow> string \<Rightarrow> grant list" where
  "recent_calls t k = filter (\<lambda>g. gr_key g = k \<and> gr_permit g \<in> set (tr_started t) \<and> tr_now t - 60 < gr_at g) (tr_grants t)"

definition running_calls :: "traffic \<Rightarrow> string \<Rightarrow> grant list" where
  "running_calls t k = filter (\<lambda>g. gr_key g = k \<and> gr_permit g \<in> set (tr_started t) \<and> gr_permit g \<notin> set (tr_settled t) \<and>
     tr_now t < gr_at g + gr_ttl g) (tr_grants t)"

lemma grants_within:
  assumes d: "distinct (map gr_permit G)" and m: "\<And>g. g \<in> set G \<Longrightarrow> P g \<Longrightarrow> (gr_permit g, v g) \<in> set z"
  shows "length (filter P G) \<le> length z"
proof -
  have "distinct (map gr_permit (filter P G))" using d by (simp add: distinct_map_filter)
  then have "length (filter P G) = card (gr_permit ` set (filter P G))" by (metis distinct_card length_map set_map)
  also have "\<dots> \<le> card (fst ` set z)" by (rule card_mono) (use m in force)+
  also have "\<dots> \<le> length z" using card_image_le [of "set z" fst] card_length [of z] by simp
  finally show ?thesis .
qed

lemma grant_tokens_within:
  assumes d: "distinct (map gr_permit G)" and m: "\<And>g. g \<in> set G \<Longrightarrow> P g \<Longrightarrow> (gr_permit g, gr_tokens g) \<in> set z"
    and z: "distinct (map fst z)" "\<And>e. e \<in> set z \<Longrightarrow> 0 \<le> snd e"
  shows "sum_list (map gr_tokens (filter P G)) \<le> sum_list (map snd (z :: (string \<times> int) list))"
proof -
  let ?e = "\<lambda>g. (gr_permit g, gr_tokens g)"
  have dm: "distinct (map ?e (filter P G))"
  proof -
    have "distinct (map fst (map ?e (filter P G)))" using d by (simp add: distinct_map_filter comp_def)
    then show ?thesis by (rule distinct_map [THEN iffD1, THEN conjunct1])
  qed
  have "sum_list (map gr_tokens (filter P G)) = sum_list (map snd (map ?e (filter P G)))" by (simp add: comp_def)
  also have "\<dots> = sum snd (set (map ?e (filter P G)))" by (rule sum_list_distinct_conv_sum_set [OF dm])
  also have "\<dots> \<le> sum snd (set z)" by (rule sum_mono2) (use m z in auto)
  also have "\<dots> = sum_list (map snd z)"
    by (rule sum_list_distinct_conv_sum_set [symmetric]) (use z(1) in \<open>simp add: distinct_map\<close>)
  finally show ?thesis .
qed

text \<open>C29. The shared flow control holds for all Workers together: whatever permits they acquire, start and settle, in any
  order, with replies lost and keys expiring, the calls of a rate limit key that were started on permits of the last
  sixty seconds are at most its limit per minute, their estimated tokens at most its token limit, and the started
  calls that are neither settled nor beyond the life of their permit at most its concurrency limit.\<close>

theorem provider_limits_hold:
  assumes run: "traffic_run L t" and L: "limits_ok L"
  shows "int (length (recent_calls t k)) \<le> lm_rpm L k \<and>
    sum_list (map gr_tokens (recent_calls t k)) \<le> lm_tpm L k \<and>
    int (length (running_calls t k)) \<le> lm_concurrency L k"
proof -
  let ?st = "tr_store t"
  have inv: "traffic_inv L (tr_grants t) (tr_started t) (tr_settled t) (tr_now t) ?st"
    using traffic_run_ok [OF run L] by (simp add: traffic_ok_def)
  then have z: "sizes_ok L ?st" and e: "entries_ok (tr_grants t) ?st"
    and g: "grants_ok (tr_grants t) (tr_started t) (tr_settled t) ?st" by (simp_all add: traffic_inv_def)
  have d: "distinct (map gr_permit (tr_grants t))" using g by (simp add: grants_ok_def)
  have c: "counted (tr_settled t) (tr_now t) ?st g" if "g \<in> set (tr_grants t)" "gr_permit g \<in> set (tr_started t)" for g
    using inv that by (simp add: traffic_inv_def in_use_def)
  have "length (recent_calls t k) \<le> length (r_rpm ?st k)"
    unfolding recent_calls_def by (rule grants_within [OF d, where v = gr_at]) (use c in \<open>auto simp: counted_def\<close>)
  moreover have "length (running_calls t k) \<le> length (r_active ?st k)"
    unfolding running_calls_def
    by (rule grants_within [OF d, where v = "\<lambda>g. gr_at g + gr_ttl g"]) (use c in \<open>auto simp: counted_def\<close>)
  moreover have "sum_list (map gr_tokens (recent_calls t k)) \<le> used_tokens ?st k"
    unfolding recent_calls_def used_tokens_def
    by (rule grant_tokens_within [OF d]) (use c z tokens_nonneg [OF e g] in \<open>auto simp: counted_def sizes_ok_def\<close>)
  moreover have "int (length (r_rpm ?st k)) \<le> lm_rpm L k" "int (length (r_active ?st k)) \<le> lm_concurrency L k"
    "used_tokens ?st k \<le> lm_tpm L k" using z by (simp_all add: sizes_ok_def)
  ultimately show ?thesis by linarith
qed

definition demo_deployed :: deployed_route where
  "demo_deployed = \<lparr>rt_route_id = ''m'', rt_provider = ''p'', rt_model = ''x'', rt_price_unit = ''usd_per_1k_tokens'',
     rt_input_price = 1, rt_output_price = 2, rt_route_config_version = ''v1'', rt_pricing_config_version = ''v1'',
     rt_capabilities = [''structured_output''], rt_data_residency = ''public'', rt_max_context_tokens = 100,
     rt_max_output_tokens = 50, rt_endpoint = ''https://b.example/v1'', rt_rate_limit_key = ''key'', rt_max_concurrency = 1,
     rt_rpm_limit = 2, rt_tpm_limit = 100, rt_timeout_seconds = 5, rt_permit_ttl_seconds = 10, rt_settle_margin_seconds = 1,
     rt_circuit_failure_threshold = 0, rt_circuit_open_seconds = 0, rt_enabled = True, rt_allowed_tenant_ids = [],
     rt_allowed_model_policies = [], rt_fallback_route_id = None\<rparr>"

definition demo_limits :: limits where
  "demo_limits = \<lparr>lm_concurrency = (\<lambda>_. 1), lm_rpm = (\<lambda>_. 2), lm_tpm = (\<lambda>_. 100)\<rparr>"

text \<open>A call is begun, a second one is refused the only slot.\<close>

definition demo_traffic :: traffic where
  "demo_traffic = traffic_next (Acquire demo_deployed ''b'' 10) 2 2 (traffic_next (Started demo_deployed ''a'') 1 1
     (traffic_next (Acquire demo_deployed ''a'' 10) 1 1 (start_traffic 1000 0)))"

theorem provider_limits_hold_witness:
  "int (length (running_calls demo_traffic ''key'')) \<le> 1 \<and> map gr_permit (running_calls demo_traffic ''key'') = [''a'']"
proof -
  have "traffic_run demo_limits demo_traffic"
    unfolding demo_traffic_def
    by (intro traffic_op traffic_start)
       (auto simp: start_traffic_def traffic_next_def note_op_def op_ok_def demo_limits_def demo_deployed_def
         split: prod.split if_split)
  from provider_limits_hold [OF this] have "int (length (running_calls demo_traffic ''key'')) \<le> 1"
    by (simp add: limits_ok_def demo_limits_def)
  moreover have "map gr_permit (running_calls demo_traffic ''key'') = [''a'']" by code_simp
  ultimately show ?thesis by blast
qed

end
