(* ===== verification/Tool_Gateway.thy ===== *)
theory Tool_Gateway
  imports Native_Tools Tool_Calls Agent_Package Worker
begin

text \<open>
  The gateway through which a run calls the business tools (\<open>app/runtime/tool_gateway.py\<close>), with the
  contract of their errors (\<open>app/contracts/tools.py\<close>) and the gateway a Worker builds for a run
  (\<open>_memoir_executor\<close> in \<open>app/worker.py\<close>).

  The outside is a parameter of the record \<open>tool_gateway\<close>: the URL and address parsers, the resolver, the
  HTTP client, the callbacks of the Worker. Each takes the number of the physical attempt, so that every
  attempt may find another world. A call gives its outcome and a log of what it sent and of the
  rejections it reported. Messages of tool errors are Chinese texts: what the frozen table
  holds for a code is the parameter \<open>tg_message\<close>.
\<close>

section \<open>Model\<close>

datatype tool_exc =
    ToolFailed string
  | ToolErrorRejected string bool
  | TransportError
  | ToolHttpStatus int
  | ToolRaised runtime_error

record business_connector =
  bc_base_url :: string
  bc_runtime_id :: string
  bc_key_id :: string
  bc_secret :: string

record url_parts =
  u_scheme :: string
  u_host :: "string option"
  u_path :: string
  u_query :: string
  u_fragment :: string
  u_username :: "string option"
  u_password :: "string option"
  u_port :: "int option option"
  u_netloc :: string

record tool_http =
  th_url :: string
  th_content :: string
  th_headers :: headers
  th_timeout :: time

datatype net_response = NetError | NetResponse int "json option"

record tool_gateway =
  tg_connectors :: "(string \<times> business_connector) list"
  tg_urlsplit :: "string \<Rightarrow> url_parts option"
  tg_ip :: "string \<Rightarrow> (string \<times> bool) option"
  tg_resolve :: "nat \<Rightarrow> string \<Rightarrow> int \<Rightarrow> string list option"
  tg_post :: "nat \<Rightarrow> tool_http \<Rightarrow> net_response"
  tg_peer :: "(nat \<Rightarrow> string option) option"
  tg_test_allows :: "(string \<Rightarrow> bool) option"
  tg_allow_private :: bool
  tg_mock :: bool
  tg_clock :: "nat \<Rightarrow> time"
  tg_draining :: "nat \<Rightarrow> bool"
  tg_deadline :: "nat \<Rightarrow> time option"
  tg_lease_end :: "nat \<Rightarrow> time option"
  tg_authorized :: "nat \<Rightarrow> string \<Rightarrow> runtime_error + json"
  tg_permitted :: "nat \<Rightarrow> string \<Rightarrow> bool"
  tg_crypto :: crypto
  tg_encode :: "json \<Rightarrow> string"
  tg_message :: "string \<Rightarrow> string \<Rightarrow> string"

record tool_log =
  sent :: "(nat \<times> tool_http) list"
  rejections :: "(string \<times> string) list"

definition empty_log :: tool_log where
  "empty_log = \<lparr>sent = [], rejections = []\<rparr>"

section \<open>Endpoints\<close>

definition falsy :: "string option \<Rightarrow> bool" where
  "falsy x \<longleftrightarrow> x = None \<or> x = Some ''''"

definition strip_dots :: "string \<Rightarrow> string" where
  "strip_dots x = rev (dropWhile (\<lambda>c. c = CHR ''.'') (rev x))"

definition without_zone :: "string \<Rightarrow> string" where
  "without_zone x = takeWhile (\<lambda>c. c \<noteq> CHR ''%'') x"

definition reject_unsafe_host :: "tool_gateway \<Rightarrow> string option \<Rightarrow> tool_exc + unit" where
  "reject_unsafe_host gw host =
     (case host of
        None \<Rightarrow> Inl (ToolFailed ''BUSINESS_CONNECTOR_ENDPOINT_UNSAFE'')
      | Some h \<Rightarrow>
          if h = '''' \<or> lower (strip_dots h) = ''localhost'' then Inl (ToolFailed ''BUSINESS_CONNECTOR_ENDPOINT_UNSAFE'')
          else (case tg_ip gw (without_zone h) of
              None \<Rightarrow> Inr ()
            | Some (_, global) \<Rightarrow> ensure global (ToolFailed ''BUSINESS_CONNECTOR_ENDPOINT_UNSAFE'')))"

definition fixed_origin :: "tool_gateway \<Rightarrow> string \<Rightarrow> bool \<Rightarrow> tool_exc + string" where
  "fixed_origin gw base allow_loopback =
     (case tg_urlsplit gw base of
        None \<Rightarrow> Inl (ToolFailed ''INVALID_URL'')
      | Some u \<Rightarrow>
          if u_scheme u \<notin> {''http'', ''https''} \<or> falsy (u_host u) \<or> u_path u \<notin> {'''', ''/''} \<or> u_query u \<noteq> '''' \<or>
             u_fragment u \<noteq> '''' \<or> \<not> falsy (u_username u) \<or> \<not> falsy (u_password u)
          then Inl (ToolFailed ''BUSINESS_CONNECTOR_URL_INVALID'')
          else (case u_port u of
              None \<Rightarrow> Inl (ToolFailed ''BUSINESS_CONNECTOR_URL_INVALID'')
            | Some port \<Rightarrow>
                if (case port of None \<Rightarrow> False | Some p \<Rightarrow> \<not> (0 < p \<and> p < 65536))
                then Inl (ToolFailed ''BUSINESS_CONNECTOR_URL_INVALID'')
                else res_bind (if allow_loopback then Inr () else reject_unsafe_host gw (u_host u)) (\<lambda>_.
                  Inr (u_scheme u @ ''://'' @ u_netloc u))))"

definition loopback_allowed :: "tool_gateway \<Rightarrow> bool" where
  "loopback_allowed gw \<longleftrightarrow> tg_allow_private gw \<or> tg_test_allows gw \<noteq> None"

text \<open>The constructor fixes the origin of every connector, or raises.\<close>

definition new_tool_gateway :: "tool_gateway \<Rightarrow> tool_exc + tool_gateway" where
  "new_tool_gateway gw =
     fold (\<lambda>(_, c) m. res_bind m (\<lambda>g. res_bind (fixed_origin gw (bc_base_url c) (loopback_allowed gw)) (\<lambda>_. Inr g)))
       (tg_connectors gw) (Inr gw)"

fun public_addresses :: "tool_gateway \<Rightarrow> string list \<Rightarrow> tool_exc + string list" where
  "public_addresses gw [] = Inr []"
| "public_addresses gw (a # as) =
     (case tg_ip gw (without_zone a) of
        None \<Rightarrow> Inl (ToolFailed ''BUSINESS_CONNECTOR_ENDPOINT_UNSAFE'')
      | Some (text, global) \<Rightarrow>
          if global then res_bind (public_addresses gw as) (\<lambda>ts. Inr (text # ts))
          else Inl (ToolFailed ''BUSINESS_CONNECTOR_ENDPOINT_UNSAFE''))"

definition ensure_public_endpoint :: "tool_gateway \<Rightarrow> nat \<Rightarrow> string \<Rightarrow> tool_exc + string list" where
  "ensure_public_endpoint gw i base =
     (case tg_urlsplit gw base of
        None \<Rightarrow> Inl (ToolFailed ''INVALID_URL'')
      | Some u \<Rightarrow>
          res_bind (reject_unsafe_host gw (u_host u)) (\<lambda>_.
            (case u_port u of
               None \<Rightarrow> Inl (ToolFailed ''BUSINESS_CONNECTOR_ENDPOINT_DNS_UNRESOLVED'')
             | Some port \<Rightarrow>
                 let default_port = (if u_scheme u = ''http'' then 80 else 443);
                     p = (case port of None \<Rightarrow> default_port | Some n \<Rightarrow> if n = 0 then default_port else n)
                 in (case tg_resolve gw i (the (u_host u)) p of
                     None \<Rightarrow> Inl (ToolFailed ''BUSINESS_CONNECTOR_ENDPOINT_DNS_UNRESOLVED'')
                   | Some addresses \<Rightarrow>
                       if addresses = [] then Inl (ToolFailed ''BUSINESS_CONNECTOR_ENDPOINT_DNS_UNRESOLVED'')
                       else public_addresses gw addresses))))"

definition verify_connected_peer :: "tool_gateway \<Rightarrow> nat \<Rightarrow> string list \<Rightarrow> tool_exc + unit" where
  "verify_connected_peer gw i allowed =
     (case tg_peer gw of
        None \<Rightarrow> Inr ()
      | Some peer \<Rightarrow>
          (case tg_ip gw (case peer i of None \<Rightarrow> '''' | Some a \<Rightarrow> a) of
             None \<Rightarrow> Inl (ToolFailed ''BUSINESS_CONNECTOR_PEER_UNVERIFIABLE'')
           | Some (text, _) \<Rightarrow> ensure (text \<in> set allowed) (ToolFailed ''BUSINESS_CONNECTOR_PEER_MISMATCH'')))"

text \<open>The time left in both windows, at most ten seconds.\<close>

fun time_left :: "time \<Rightarrow> time \<Rightarrow> time option list \<Rightarrow> tool_exc + time" where
  "time_left now timeout [] = Inr timeout"
| "time_left now timeout (None # ws) = time_left now timeout ws"
| "time_left now timeout (Some e # ws) =
     (if e - now \<le> 0 then Inl (ToolFailed ''TOOL_CALL_DEADLINE_EXPIRED'') else time_left now (min timeout (e - now)) ws)"

definition effective_timeout :: "tool_gateway \<Rightarrow> nat \<Rightarrow> tool_exc + time" where
  "effective_timeout gw i = time_left (tg_clock gw i) (seconds 10) [tg_deadline gw i, tg_lease_end gw i]"

section \<open>The contract of the business tools\<close>

text \<open>Per wire version: the code, its HTTP status, its type and whether the call may be repeated.\<close>

type_synonym error_spec = "int \<times> string \<times> bool"

definition tool_error_specs_v1_0 :: "(string \<times> error_spec) list" where
  "tool_error_specs_v1_0 =
     [(''MEMORY_SNAPSHOT_UNAVAILABLE'', 403, ''snapshot_unavailable'', False),
      (''GENERATION_SUPERSEDED'', 403, ''generation_superseded'', False),
      (''MEMORY_RUN_NOT_ACTIVE'', 403, ''run_not_active'', False),
      (''MEMORY_DOCUMENT_INVALID'', 403, ''document_invalid'', False),
      (''IDEMPOTENCY_CONFLICT'', 409, ''idempotency_conflict'', False),
      (''PUBLISH_NOT_YET_OBSERVED'', 404, ''publish_not_observed'', False)]"

definition tool_error_specs_v1_1 :: "(string \<times> error_spec) list" where
  "tool_error_specs_v1_1 =
     [(''IDEMPOTENCY_CONFLICT'', 409, ''idempotency_conflict'', False),
      (''GENERATION_SUPERSEDED'', 409, ''generation_superseded'', False),
      (''AUTHORIZATION_REVOKED'', 403, ''authorization_revoked'', False),
      (''BUSINESS_DATA_INVALID'', 422, ''business_data_invalid'', False),
      (''MEMORY_SNAPSHOT_UNAVAILABLE'', 403, ''snapshot_unavailable'', False),
      (''MEMORY_RUN_NOT_ACTIVE'', 409, ''run_not_active'', False),
      (''MEMORY_DOCUMENT_INVALID'', 422, ''document_invalid'', False),
      (''PUBLISH_NOT_YET_OBSERVED'', 404, ''publish_not_observed'', False),
      (''RUNTIME_SERVICE_UNAVAILABLE'', 503, ''service_unavailable'', True),
      (''MEMORY_DOCUMENT_MEDIA_INVALID'', 422, ''document_media_invalid'', False),
      (''MEMORY_AUDIO_DOCUMENT_INVALID'', 422, ''audio_document_invalid'', False),
      (''MEMORY_AUDIO_PRODUCER_FORBIDDEN'', 403, ''audio_producer_forbidden'', False)]"

definition tool_error_specs :: "string \<Rightarrow> (string \<times> error_spec) list option" where
  "tool_error_specs = map_of [(''1.0.0'', tool_error_specs_v1_0), (''1.1.0'', tool_error_specs_v1_1)]"

definition wire_versions :: "(string \<times> string) list" where
  "wire_versions = (''1.0.0'', ''1.0.0'') # map (\<lambda>v. (v, ''1.1.0''))
     [''1.0.1'', ''1.0.2'', ''1.0.3'', ''1.0.4'', ''1.0.5'', ''1.0.6'', ''1.0.7'', ''1.0.8'']"

definition tool_wire_version :: "dict \<Rightarrow> tool_exc + string" where
  "tool_wire_version ctx =
     (if ctx = [] then Inr ''1.1.0''
      else (case map_of wire_versions (str_value (dget ctx ''agent_version'')) of
          None \<Rightarrow> Inl (ToolFailed ''TOOL_WIRE_VERSION_INVALID'') | Some w \<Rightarrow> Inr w))"

definition error_keys :: "string set" where
  "error_keys = {''error_code'', ''error_type'', ''retryable'', ''safe_message''}"

definition parse_tool_error :: "tool_gateway \<Rightarrow> string \<Rightarrow> int \<Rightarrow> json option \<Rightarrow> tool_exc" where
  "parse_tool_error gw wire code body =
     (case body of
        Some (JObj d) \<Rightarrow>
          if \<not> (fst ` set d = insert ''details_visible_to_model'' error_keys \<or> wire = ''1.0.0'' \<and> fst ` set d = error_keys)
          then ToolFailed ''TOOL_ERROR_SHAPE_INVALID''
          else (case (dget d ''error_code'', dget d ''error_type'', dget d ''retryable'', dget d ''safe_message'',
                  dget_default d ''details_visible_to_model'' (JBool False)) of
              (JStr ec, JStr et, JBool rt, JStr sm, JBool vis) \<Rightarrow>
                if vis then ToolFailed ''TOOL_ERROR_SHAPE_INVALID''
                else (case tool_error_specs wire of
                    None \<Rightarrow> ToolFailed ''TOOL_WIRE_VERSION_INVALID''
                  | Some specs \<Rightarrow>
                      (case map_of specs ec of
                         None \<Rightarrow> ToolFailed ''TOOL_ERROR_CODE_UNKNOWN''
                       | Some (st, ty, re) \<Rightarrow>
                           if code \<noteq> st \<or> rt \<noteq> re \<or> et \<noteq> ty \<or> sm \<noteq> tg_message gw wire ec
                           then ToolFailed ''TOOL_ERROR_CONTRADICTION''
                           else ToolErrorRejected ec rt))
            | _ \<Rightarrow> ToolFailed ''TOOL_ERROR_SHAPE_INVALID'')
      | _ \<Rightarrow> ToolFailed ''TOOL_ERROR_SHAPE_INVALID'')"

text \<open>\<open>ToolResult.model_validate\<close>, strict and without extra fields.\<close>

fun parse_tool_result :: "json \<Rightarrow> (dict \<times> string) option" where
  "parse_tool_result (JObj d) =
     (if fst ` set d \<subseteq> {''output'', ''schema_version''}
      then (case (dget d ''output'', dget_default d ''schema_version'' (JStr ''1.0.0'')) of
          (JObj out, JStr v) \<Rightarrow> Some (out, v) | _ \<Rightarrow> None)
      else None)"
| "parse_tool_result _ = None"

section \<open>Context, keys and output\<close>

fun split_dots :: "string \<Rightarrow> string \<Rightarrow> string list" where
  "split_dots acc [] = [rev acc]"
| "split_dots acc (c # cs) = (if c = CHR ''.'' then rev acc # split_dots [] cs else split_dots (c # acc) cs)"

text \<open>\<open>re.fullmatch(r"\d+\.\d+\.\d+", v)\<close>\<close>

definition version_text :: "string \<Rightarrow> bool" where
  "version_text v \<longleftrightarrow> length (split_dots [] v) = 3 \<and> list_all (\<lambda>p. p \<noteq> '''' \<and> list_all digit p) (split_dots [] v)"

definition context_fields :: "string list" where
  "context_fields = [''agent_id'', ''agent_version'', ''run_id'', ''step_id'', ''business_type'', ''business_id'', ''trace_id'']"

definition filled_str :: "json \<Rightarrow> bool" where
  "filled_str v \<longleftrightarrow> is_str v \<and> v \<noteq> JStr ''''"

definition context_trusted :: "dict \<Rightarrow> bool" where
  "context_trusted c \<longleftrightarrow> dget c ''agent_id'' = JStr ''memoir_agent'' \<and> dget c ''business_type'' = JStr ''couple_memory'' \<and>
     version_text (str_value (dget c ''agent_version''))"

definition build_tool_context :: "agent_run \<Rightarrow> string \<Rightarrow> tool_exc + dict" where
  "build_tool_context r sid =
     (let c = [(''agent_id'', JStr (agent_id r)), (''agent_version'', JStr (agent_version r)), (''run_id'', JStr (run_id r)),
         (''step_id'', JStr sid), (''business_type'', JStr (business_type r)), (''business_id'', JStr (business_id r)),
         (''trace_id'', JStr (trace_id r))]
      in if \<not> list_all (\<lambda>kv. filled_str (snd kv)) c then Inl (ToolFailed ''TOOL_CONTEXT_INVALID'')
         else if \<not> context_trusted c then Inl (ToolFailed ''TOOL_CONTEXT_TRUST_INVALID'') else Inr c)"

definition validated_tool_context :: "tool_gateway \<Rightarrow> json \<Rightarrow> dict \<Rightarrow> string \<Rightarrow> tool_exc + dict" where
  "validated_tool_context gw tc input name =
     (if tc = JNull \<and> tg_mock gw then Inr []
      else (case tc of
          JObj c \<Rightarrow>
            if fst ` set c \<noteq> set context_fields then Inl (ToolFailed ''TOOL_CONTEXT_INVALID'')
            else if \<not> list_all (\<lambda>kv. filled_str (snd kv)) c then Inl (ToolFailed ''TOOL_CONTEXT_INVALID'')
            else if dget c ''run_id'' \<noteq> dget input ''run_id'' then Inl (ToolFailed ''TOOL_CONTEXT_RUN_ID_MISMATCH'')
            else if dget c ''business_id'' \<noteq> dget input ''archive_id'' then Inl (ToolFailed ''TOOL_CONTEXT_BUSINESS_ID_MISMATCH'')
            else if \<not> context_trusted c then Inl (ToolFailed ''TOOL_CONTEXT_TRUST_INVALID'')
            else if \<not> starts_with ''memory.'' name then Inl (ToolFailed ''TOOL_CONTEXT_TRUST_INVALID'')
            else Inr c
        | _ \<Rightarrow> Inl (ToolFailed ''TOOL_CONTEXT_INVALID'')))"

text \<open>\<open>^[A-Za-z0-9_-]{1,64}$\<close>; any other logical key travels as its hash.\<close>

definition key_char :: "char \<Rightarrow> bool" where
  "key_char c \<longleftrightarrow> (let n = (of_char c :: nat) in 48 \<le> n \<and> n \<le> 57 \<or> 65 \<le> n \<and> n \<le> 90 \<or> 97 \<le> n \<and> n \<le> 122 \<or> n = 95 \<or> n = 45)"

definition wire_key_ok :: "string \<Rightarrow> bool" where
  "wire_key_ok k \<longleftrightarrow> 1 \<le> length k \<and> length k \<le> 64 \<and> list_all key_char k"

definition wire_idempotency_key :: "crypto \<Rightarrow> string \<Rightarrow> string" where
  "wire_idempotency_key cy k = (if wire_key_ok k then k else cy_sha256 cy k)"

definition is_trusted_publish_result_output :: "dict \<Rightarrow> string \<Rightarrow> bool" where
  "is_trusted_publish_result_output out name \<longleftrightarrow>
     name \<in> {''memory.publish_playback_document'', ''memory.get_publish_result''} \<and> as_int (dget out ''revision'') \<noteq> None \<and>
     (case dget out ''content_digest'' of JStr x \<Rightarrow> length x = 64 \<and> list_all hex_char x | _ \<Rightarrow> False)"

definition scanned_output :: "dict \<Rightarrow> string \<Rightarrow> dict" where
  "scanned_output out name =
     (if is_trusted_publish_result_output out name then filter (\<lambda>kv. fst kv \<noteq> ''content_digest'') out else out)"

definition validate_output :: "dict \<Rightarrow> string \<Rightarrow> tool_exc + unit" where
  "validate_output out name =
     ensure (\<not> contains_sensitive_identifier (JObj (scanned_output out name))) (ToolFailed ''TOOL_OUTPUT_SENSITIVE'')"

section \<open>A call\<close>

definition rejection_code :: "json \<Rightarrow> string option" where
  "rejection_code v =
     (if v = JNull \<or> v = JBool True then None
      else (case v of JStr c \<Rightarrow> if c \<in> set rejection_codes then Some c else Some ''AUTHORIZATION_REVOKED''
            | _ \<Rightarrow> Some ''AUTHORIZATION_REVOKED''))"

text \<open>The addresses an attempt may be answered from; no check for a test transport or an allowed private
  endpoint.\<close>

definition checks_peer :: "tool_gateway \<Rightarrow> bool" where
  "checks_peer gw \<longleftrightarrow> tg_test_allows gw = None \<and> \<not> tg_allow_private gw"

definition allowed_peers :: "tool_gateway \<Rightarrow> nat \<Rightarrow> string \<Rightarrow> tool_exc + string list" where
  "allowed_peers gw i base =
     (case tg_test_allows gw of
        Some ok \<Rightarrow> if ok base then Inr [] else Inl (ToolFailed ''TEST_HARNESS_LOOPBACK_REQUIRED'')
      | None \<Rightarrow>
          if tg_allow_private gw then Inr [] else ensure_public_endpoint gw i base)"

text \<open>Everything that is checked before attempt \<open>i\<close> is sent, with the rejection it reports.\<close>

definition before_send ::
  "tool_gateway \<Rightarrow> nat \<Rightarrow> string \<Rightarrow> json \<Rightarrow> bool \<Rightarrow> (string \<times> string) list \<times> (tool_exc + (string list \<times> time))" where
  "before_send gw i base rid allow_draining =
     (case rid of
        JStr x \<Rightarrow>
          (case tg_authorized gw i x of
             Inl e \<Rightarrow> ([], Inl (ToolRaised e))
           | Inr v \<Rightarrow>
               (case rejection_code v of
                  Some c \<Rightarrow> ([(x, c)], Inl (ToolFailed ''TOOL_AUTHORIZATION_REVOKED''))
                | None \<Rightarrow>
                    if \<not> tg_permitted gw i x then ([], Inl (ToolFailed ''TOOL_EXECUTION_CONTEXT_INVALID''))
                    else if tg_draining gw i \<and> \<not> allow_draining then ([], Inl (ToolFailed ''TOOL_CALL_DRAINING''))
                    else ([], res_bind (allowed_peers gw i base) (\<lambda>peers.
                      if tg_test_allows gw = None \<and> \<not> tg_mock gw \<and> tg_peer gw = None
                      then Inl (ToolFailed ''BUSINESS_CONNECTOR_PEER_UNVERIFIABLE'')
                      else res_bind (effective_timeout gw i) (\<lambda>t. Inr (peers, t))))))
      | _ \<Rightarrow> ([], Inl (ToolFailed ''TOOL_AUTHORIZATION_REVOKED'')))"

fun send_attempts ::
  "tool_gateway \<Rightarrow> nat \<Rightarrow> nat \<Rightarrow> string \<Rightarrow> json \<Rightarrow> bool \<Rightarrow> tool_http \<Rightarrow> tool_log \<Rightarrow> (tool_exc + (int \<times> json option)) \<times> tool_log" where
  "send_attempts gw 0 i base rid allow rq lg = (Inl TransportError, lg)"
| "send_attempts gw (Suc left) i base rid allow rq lg =
     (case before_send gw i base rid allow of
        (rs, Inl e) \<Rightarrow> (Inl e, lg\<lparr>rejections := rejections lg @ rs\<rparr>)
      | (rs, Inr (peers, t)) \<Rightarrow>
          (let q = rq\<lparr>th_timeout := t\<rparr>; lg1 = lg\<lparr>sent := sent lg @ [(i, q)]\<rparr>
           in case tg_post gw i q of
                NetError \<Rightarrow> if left = 0 then (Inl TransportError, lg1) else send_attempts gw left (Suc i) base rid allow rq lg1
              | NetResponse code body \<Rightarrow>
                  (case (if checks_peer gw then verify_connected_peer gw i peers else Inr ()) of
                     Inl e \<Rightarrow> (Inl e, lg1)
                   | Inr _ \<Rightarrow> (Inr (code, body), lg1))))"

definition read_response :: "tool_gateway \<Rightarrow> string \<Rightarrow> string \<Rightarrow> int \<Rightarrow> json option \<Rightarrow> tool_exc + dict" where
  "read_response gw wire name code body =
     (if 400 \<le> code \<and> code < 600 then Inl (parse_tool_error gw wire code body)
      else if \<not> (200 \<le> code \<and> code < 300) then Inl (ToolHttpStatus code)
      else (case body of
          None \<Rightarrow> Inl (ToolFailed ''RESPONSE_NOT_JSON'')
        | Some j \<Rightarrow>
            (case parse_tool_result j of
               None \<Rightarrow> Inl (ToolFailed ''TOOL_OUTPUT_INVALID'')
             | Some (out, v) \<Rightarrow>
                 if v \<noteq> ''1.0.0'' then Inl (ToolFailed ''TOOL_OUTPUT_SCHEMA_VERSION_INVALID'')
                 else if is_str (dget out ''schema_version'') \<and> dget out ''schema_version'' \<noteq> JStr ''1.0.0''
                 then Inl (ToolFailed ''TOOL_OUTPUT_SCHEMA_VERSION_INVALID'')
                 else res_bind (validate_output out name) (\<lambda>_. Inr out))))"

definition request_headers ::
  "tool_gateway \<Rightarrow> business_connector \<Rightarrow> string \<Rightarrow> string \<Rightarrow> string \<Rightarrow> int option \<Rightarrow> json \<Rightarrow> string \<Rightarrow> string option \<Rightarrow> headers" where
  "request_headers gw c path content wire att rid name ikey =
     runtime_headers (tg_crypto gw) (bc_runtime_id c) (bc_key_id c) (bc_secret c) path content (tg_clock gw 0) @
     [(''X-Agent-Tool-Contract-Version'', wire)] @
     (case att of None \<Rightarrow> [] | Some n \<Rightarrow> [(''X-Agent-Tool-Attempt'', int_string n)]) @
     (case rid of JStr x \<Rightarrow> [(''X-Agent-Run-Id'', x)] | _ \<Rightarrow> []) @
     [(''X-Agent-Tool-Name'', name)] @
     (if falsy ikey then [] else [(''Idempotency-Key'', wire_idempotency_key (tg_crypto gw) (the ikey))])"

definition signed_request ::
  "tool_gateway \<Rightarrow> business_connector \<Rightarrow> string \<Rightarrow> string \<Rightarrow> dict \<Rightarrow> dict \<Rightarrow> string \<Rightarrow> agent_tool_call option \<Rightarrow> string \<Rightarrow>
    string option \<Rightarrow> tool_http" where
  "signed_request gw c origin path input ctx wire tcall name ikey =
     (let content = tg_encode gw (JObj [(''input'', JObj input), (''context'', JObj ctx)])
      in \<lparr>th_url = origin @ path, th_content = content,
           th_headers = request_headers gw c path content wire (map_option tool_attempt tcall) (dget input ''run_id'') name ikey,
           th_timeout = 0\<rparr>)"

definition gateway_call ::
  "tool_gateway \<Rightarrow> string \<Rightarrow> string \<Rightarrow> dict \<Rightarrow> string \<Rightarrow> string option \<Rightarrow> bool \<Rightarrow> bool \<Rightarrow> agent_tool_call option \<Rightarrow> json \<Rightarrow>
    (tool_exc + dict) \<times> tool_log" where
  "gateway_call gw cid path input name ikey retry_transport allow_draining tcall tc =
     (case map_of (tg_connectors gw) cid of
        None \<Rightarrow> (Inl (ToolFailed ''BUSINESS_CONNECTOR_UNAVAILABLE''),
          empty_log\<lparr>rejections := (case dget input ''run_id'' of JStr x \<Rightarrow> [(x, ''CONNECTOR_DISABLED'')] | _ \<Rightarrow> [])\<rparr>)
      | Some c \<Rightarrow>
          (case res_bind (fixed_origin gw (bc_base_url c) (loopback_allowed gw)) (\<lambda>origin.
                res_bind (validated_tool_context gw tc input name) (\<lambda>ctx.
                res_bind (tool_wire_version ctx) (\<lambda>wire.
                res_bind (ensure (case tcall of None \<Rightarrow> True | Some t \<Rightarrow> 1 \<le> tool_attempt t) (ToolFailed ''TOOL_ATTEMPT_INVALID'')) (\<lambda>_.
                Inr (wire, signed_request gw c origin path input ctx wire tcall name ikey))))) of
             Inl e \<Rightarrow> (Inl e, empty_log)
           | Inr (wire, rq) \<Rightarrow>
               (case send_attempts gw (if retry_transport then 2 else 1) 0 (bc_base_url c) (dget input ''run_id'') allow_draining rq empty_log of
                  (Inl e, lg) \<Rightarrow> (Inl e, lg)
                | (Inr (code, body), lg) \<Rightarrow> (read_response gw wire name code body, lg))))"

section \<open>The operations\<close>

definition tool_path :: "string \<Rightarrow> string" where
  "tool_path name = ''/api/v1/internal/agent-tools/'' @ name"

definition get_snapshot ::
  "tool_gateway \<Rightarrow> string \<Rightarrow> string \<Rightarrow> string \<Rightarrow> string \<Rightarrow> json \<Rightarrow> json \<Rightarrow> (tool_exc + dict) \<times> tool_log" where
  "get_snapshot gw cid archive snapshot rid epoch tc =
     gateway_call gw cid (tool_path ''memory.get_snapshot'')
       [(''archive_id'', JStr archive), (''snapshot_id'', JStr snapshot), (''run_id'', JStr rid), (''generation_epoch'', epoch)]
       ''memory.get_snapshot'' None True False None tc"

definition publish_playback_document ::
  "tool_gateway \<Rightarrow> string \<Rightarrow> string \<Rightarrow> string \<Rightarrow> string \<Rightarrow> json \<Rightarrow> dict \<Rightarrow> string \<Rightarrow> agent_tool_call option \<Rightarrow> json \<Rightarrow>
    (tool_exc + dict) \<times> tool_log" where
  "publish_playback_document gw cid archive rid snapshot epoch doc ikey tcall tc =
     (case tcall of
        None \<Rightarrow> (Inl (ToolFailed ''TOOL_ATTEMPT_REQUIRED''), empty_log)
      | Some t \<Rightarrow>
          if t_run_id t \<noteq> rid \<or> \<not> side_effect t then (Inl (ToolFailed ''TOOL_ATTEMPT_INVALID''), empty_log)
          else gateway_call gw cid (tool_path ''memory.publish_playback_document'')
            [(''archive_id'', JStr archive), (''run_id'', JStr rid), (''snapshot_id'', JStr snapshot),
             (''generation_epoch'', epoch), (''document'', JObj doc)]
            ''memory.publish_playback_document'' (Some ikey) False False (Some t) tc)"

definition publish_result_input :: "string \<Rightarrow> json list \<Rightarrow> (dict \<times> string) option" where
  "publish_result_input archive args =
     (case args of
        [JStr rid, JStr k] \<Rightarrow> Some ([(''archive_id'', JStr archive), (''run_id'', JStr rid)], k)
      | [JStr snapshot, JStr rid, JInt epoch, JStr k] \<Rightarrow>
          Some ([(''archive_id'', JStr archive), (''snapshot_id'', JStr snapshot), (''run_id'', JStr rid),
            (''generation_epoch'', JInt epoch)], k)
      | _ \<Rightarrow> None)"

definition get_publish_result ::
  "tool_gateway \<Rightarrow> string \<Rightarrow> string \<Rightarrow> json list \<Rightarrow> json \<Rightarrow> (tool_exc + dict option) \<times> tool_log" where
  "get_publish_result gw cid archive args tc =
     (case publish_result_input archive args of
        None \<Rightarrow> (Inl (ToolFailed ''TOOL_PUBLISH_RESULT_INPUT_INVALID''), empty_log)
      | Some (input, k) \<Rightarrow>
          (case gateway_call gw cid (tool_path ''memory.get_publish_result'') input ''memory.get_publish_result''
                  (Some k) False True None tc of
             (Inr out, lg) \<Rightarrow> (Inr (Some out), lg)
           | (Inl (ToolErrorRejected code retryable), lg) \<Rightarrow>
               if code = ''PUBLISH_NOT_YET_OBSERVED'' then (Inr None, lg) else (Inl (ToolErrorRejected code retryable), lg)
           | (Inl e, lg) \<Rightarrow> (Inl e, lg)))"

text \<open>\<open>call\<close>: a tool declared by a package. What the package declares must be what the runtime has fixed.\<close>

record registration =
  rg_connector :: string
  rg_path :: string
  rg_input_from :: string
  rg_side_effect :: bool
  rg_cancellation :: string

definition fixed_http_tools :: "(string \<times> registration) list" where
  "fixed_http_tools =
     [(''memory.get_snapshot'', \<lparr>rg_connector = ''couple_diary_backend'', rg_path = tool_path ''memory.get_snapshot'',
         rg_input_from = ''input'', rg_side_effect = False, rg_cancellation = ''cancellable''\<rparr>),
      (''memory.publish_playback_document'', \<lparr>rg_connector = ''couple_diary_backend'',
         rg_path = tool_path ''memory.publish_playback_document'', rg_input_from = ''playback_document'',
         rg_side_effect = True, rg_cancellation = ''query_after_commit''\<rparr>)]"

definition manifest_matches :: "tool_manifest \<Rightarrow> registration \<Rightarrow> bool" where
  "manifest_matches m g \<longleftrightarrow> tm_connector_id m = Some (rg_connector g) \<and> tm_method m = Some ''POST'' \<and>
     tm_relative_path m = Some (rg_path g) \<and> tm_input_from m = Some (rg_input_from g) \<and>
     tm_side_effect m = rg_side_effect g \<and> tm_cancellation m = rg_cancellation g"

definition trusted_references :: "dict \<Rightarrow> dict option" where
  "trusted_references ctx =
     (case (dget ctx ''archive_id'', dget ctx ''snapshot_id'', dget ctx ''run_id'', dget ctx ''generation_epoch'') of
        (JStr a, JStr s, JStr r, JInt g) \<Rightarrow>
          Some [(''archive_id'', JStr a), (''snapshot_id'', JStr s), (''run_id'', JStr r), (''generation_epoch'', JInt g)]
      | _ \<Rightarrow> None)"

definition call_input :: "tool_manifest \<Rightarrow> registration \<Rightarrow> dict \<Rightarrow> string option \<Rightarrow> tool_exc + (dict \<times> json)" where
  "call_input m g ctx ikey =
     res_bind (ensure (manifest_matches m g) (ToolFailed ''TOOL_MANIFEST_NOT_ALLOWED'')) (\<lambda>_.
     res_bind (ensure (\<not> (rg_side_effect g \<and> falsy ikey)) (ToolFailed ''TOOL_IDEMPOTENCY_KEY_REQUIRED'')) (\<lambda>_.
     (case trusted_references ctx of
        None \<Rightarrow> Inl (ToolFailed ''TOOL_RUNTIME_CONTEXT_INVALID'')
      | Some refs \<Rightarrow>
          (case dget ctx ''tool_context'' of
             JObj c \<Rightarrow>
               if tm_name m = ''memory.get_snapshot'' then Inr (refs, JObj c)
               else (case dget ctx (rg_input_from g) of
                   JObj doc \<Rightarrow> Inr (refs @ [(''document'', JObj doc)], JObj c)
                 | _ \<Rightarrow> Inl (ToolFailed ''TOOL_INPUT_SOURCE_INVALID''))
           | _ \<Rightarrow> Inl (ToolFailed ''TOOL_CONTEXT_INVALID'')))))"

definition call_tool :: "tool_gateway \<Rightarrow> tool_manifest \<Rightarrow> dict \<Rightarrow> string option \<Rightarrow> (tool_exc + dict) \<times> tool_log" where
  "call_tool gw m ctx ikey =
     (if \<not> tm_enabled m then (Inl (ToolFailed ''TOOL_CAPABILITY_DISABLED''), empty_log)
      else (case map_of fixed_http_tools (tm_name m) of
          None \<Rightarrow> (Inl (ToolFailed ''TOOL_MANIFEST_NOT_ALLOWED''), empty_log)
        | Some g \<Rightarrow>
            (case call_input m g ctx ikey of
               Inl e \<Rightarrow> (Inl e, empty_log)
             | Inr (input, tc) \<Rightarrow>
                 gateway_call gw (rg_connector g) (rg_path g) input (tm_name m) ikey (\<not> rg_side_effect g) False None tc)))"

section \<open>Results and native tools\<close>

fun matches_schema_type :: "json \<Rightarrow> dict \<Rightarrow> bool" where
  "matches_schema_type v rule =
     (fst ` set rule = {''type''} \<and>
      (case dget rule ''type'' of
         JStr t \<Rightarrow>
           (case v of
              JStr _ \<Rightarrow> t = ''string''
            | JInt _ \<Rightarrow> t = ''number'' \<or> t = ''integer''
            | JFloat _ \<Rightarrow> t = ''number''
            | JBool _ \<Rightarrow> t = ''boolean''
            | JObj _ \<Rightarrow> t = ''object''
            | JList _ \<Rightarrow> t = ''array''
            | JNull \<Rightarrow> t = ''null'')
       | _ \<Rightarrow> False))"

definition schema_fields :: "dict \<Rightarrow> (dict \<times> json list \<times> bool) option" where
  "schema_fields sc =
     (case (dget_default sc ''properties'' (JObj []), dget_default sc ''required'' (JList []),
            dget_default sc ''additionalProperties'' (JBool True)) of
        (JObj props, JList req, JBool add) \<Rightarrow>
          if list_all is_str req \<and> list_all (\<lambda>kv. is_obj (snd kv)) props \<and> list_all (\<lambda>n. has_key props (str_value n)) req
          then Some (props, req, add) else None
      | _ \<Rightarrow> None)"

definition validate_output_schema :: "dict \<Rightarrow> json \<Rightarrow> tool_exc + unit" where
  "validate_output_schema sc out =
     ensure (case out of
        JObj d \<Rightarrow>
          dget sc ''type'' = JStr ''object'' \<and>
          fst ` set sc \<subseteq> {''type'', ''required'', ''properties'', ''additionalProperties''} \<and>
          (case schema_fields sc of
             None \<Rightarrow> False
           | Some (props, req, add) \<Rightarrow>
               list_all (\<lambda>n. has_key d (str_value n)) req \<and> (add \<or> list_all (\<lambda>kv. has_key props (fst kv)) d) \<and>
               list_all (\<lambda>kv. case map_of props (fst kv) of
                  Some (JObj rule) \<Rightarrow> matches_schema_type (snd kv) rule | _ \<Rightarrow> True) d)
      | _ \<Rightarrow> False) (ToolFailed ''TOOL_OUTPUT_SCHEMA_INVALID'')"

definition apply_result ::
  "tool_manifest \<Rightarrow> json \<Rightarrow> agent_state \<Rightarrow> string \<Rightarrow> lease_context \<Rightarrow> time \<Rightarrow> db \<Rightarrow> tool_exc + agent_state" where
  "apply_result m out st rid ctx now s =
     (if \<not> can_write rid ctx now s then Inl (ToolFailed ''TOOL_RESULT_LEASE_INVALID'')
      else res_bind (validate_output_schema (tm_output_schema m) out) (\<lambda>_.
        (case out of
           JObj d \<Rightarrow>
             res_bind (validate_output d '''') (\<lambda>_.
               (case apply_tool_output (case tm_output_to m of None \<Rightarrow> '''' | Some x \<Rightarrow> x) out st of
                  Inl e \<Rightarrow> Inl (ToolRaised e) | Inr st' \<Rightarrow> Inr st'))
         | _ \<Rightarrow> Inl (ToolFailed ''TOOL_OUTPUT_SCHEMA_INVALID''))))"

definition native_arguments :: "string \<Rightarrow> string list option" where
  "native_arguments = map_of
     [(''runtime.repair_json_once'', [''value'']), (''runtime.summarize_keys'', [''value'', ''max_items'']),
      (''runtime.contains_sensitive_identifier'', [''value''])]"

text \<open>A native result with the summary the ledger keeps of it.\<close>

definition run_native :: "(string \<Rightarrow> json option) \<Rightarrow> string \<Rightarrow> dict \<Rightarrow> runtime_error + json" where
  "run_native loads name args =
     (if name = ''runtime.repair_json_once'' then Inr (repair_json_once loads (dget args ''value''))
      else if name = ''runtime.summarize_keys''
      then res_bind (summarize_keys (dget args ''value'') (dget args ''max_items''))
        (\<lambda>(ks, n). Inr (JObj [(''keys'', JList (map JStr ks)), (''item_count'', JInt n)]))
      else Inr (JBool (contains_sensitive_identifier (dget args ''value''))))"

definition native_output_summary :: "string \<Rightarrow> json \<Rightarrow> runtime_error + dict" where
  "native_output_summary name result =
     (if name = ''runtime.contains_sensitive_identifier'' then Inr [(''matched'', JBool (truthy result))]
      else if name = ''runtime.summarize_keys'' then
        (case (jget result ''keys'', jget result ''item_count'') of
           (JList ks, JInt n) \<Rightarrow> Inr [(''keys'', JList ks), (''item_count'', JInt n)]
         | _ \<Rightarrow> Inl (ValueError ''NATIVE_TOOL_OUTPUT_INVALID''))
      else if name = ''runtime.repair_json_once'' then
        (if result = JNull then Inr [(''result'', JStr ''none'')]
         else res_bind (summarize_keys result (JInt 32))
           (\<lambda>(ks, n). Inr [(''keys'', JList (map JStr ks)), (''item_count'', JInt n)]))
      else Inl (ValueError ''NATIVE_TOOL_OUTPUT_INVALID''))"

definition call_native ::
  "(string \<Rightarrow> json option) \<Rightarrow> string \<Rightarrow> dict \<Rightarrow> string \<Rightarrow> int \<Rightarrow> string \<Rightarrow> string \<Rightarrow> string \<Rightarrow> time \<Rightarrow> db \<Rightarrow>
    (runtime_error + json) \<times> db" where
  "call_native loads name args rid att sid key dg now s =
     (case native_arguments name of
        None \<Rightarrow> (Inl (ValueError ''NATIVE_TOOL_NOT_ALLOWED''), s)
      | Some names \<Rightarrow>
          if fst ` set args \<noteq> set names then (Inl (ValueError ''NATIVE_TOOL_INPUT_INVALID''), s)
          else (case begin_native rid att sid name key dg now s of
              (Inl e, s1) \<Rightarrow> (Inl e, s1)
            | (Inr rec, s1) \<Rightarrow>
                (case run_native loads name args of
                   Inl _ \<Rightarrow> (Inl (ValueError ''NATIVE_TOOL_INPUT_INVALID''),
                     snd (fail_call rec ''NATIVE_TOOL_INPUT_INVALID'' False ''native_tool_rejected'' None now s1))
                 | Inr result \<Rightarrow>
                     (case res_bind (native_output_summary name result)
                             (\<lambda>d. succeed_call rec (Inl d) None None now s1) of
                        Inl e \<Rightarrow> (Inl e, s1)
                      | Inr (_, s2) \<Rightarrow> (Inr result, s2)))))"

section \<open>The gateway of a Worker\<close>

text \<open>\<open>_memoir_executor\<close>: the connector is the configured one of the run, and every check reads the database
  as it is at the moment of the attempt. \<open>dbs i\<close> is the database that attempt \<open>i\<close> finds.\<close>

definition connector_of :: "dict \<Rightarrow> business_connector" where
  "connector_of d = \<lparr>bc_base_url = str_value (dget d ''base_url''), bc_runtime_id = str_value (dget d ''runtime_id''),
     bc_key_id = str_value (dget d ''key_id''), bc_secret = str_value (dget d ''secret'')\<rparr>"

definition authorization_verdict :: "clients \<Rightarrow> string \<Rightarrow> db \<Rightarrow> runtime_error + json" where
  "authorization_verdict cl rid s =
     (case authorization_rejection_reason cl rid s of
        Inl e \<Rightarrow> Inl e | Inr None \<Rightarrow> Inr JNull | Inr (Some c) \<Rightarrow> Inr (JStr c))"

definition memoir_tool_gateway ::
  "tool_gateway \<Rightarrow> worker \<Rightarrow> agent_run \<Rightarrow> lease_context \<Rightarrow> (nat \<Rightarrow> db) \<Rightarrow> tool_gateway" where
  "memoir_tool_gateway io wk r ctx dbs = io\<lparr>
     tg_connectors := [(business_connector_id r, connector_of (case map_of (wk_connectors wk) (business_connector_id r) of
        None \<Rightarrow> [] | Some d \<Rightarrow> d))],
     tg_deadline := (\<lambda>_. Some (run_deadline_at r)), tg_lease_end := (\<lambda>_. Some (x_lease_expires_at ctx)),
     tg_authorized := (\<lambda>i rid. authorization_verdict (wk_clients wk) rid (dbs i)),
     tg_permitted := (\<lambda>i rid. tool_execution_permitted rid ctx (tg_clock io i) (dbs i))\<rparr>"

definition audit_tool_rejection :: "string \<Rightarrow> string \<Rightarrow> time \<Rightarrow> db \<Rightarrow> db" where
  "audit_tool_rejection rid code now s =
     append_audit_record ''system'' ''tool_gateway'' ''tool_gateway_rejected'' ''agent_run'' rid (Some code) ''rejected'' None
       [(''run_id'', rid)] now s"

section \<open>Lemmas\<close>

lemma before_send_Inr:
  assumes "before_send gw i base rid allow = (rs, Inr (peers, t))"
  obtains x v where "rid = JStr x" "rs = []" "tg_authorized gw i x = Inr v" "v = JNull \<or> v = JBool True"
    "tg_permitted gw i x" "tg_draining gw i \<longrightarrow> allow" "allowed_peers gw i base = Inr peers" "effective_timeout gw i = Inr t"
  using assms
  by (auto simp: before_send_def rejection_code_def res_simps
      split: json.split_asm sum.split_asm option.split_asm if_split_asm bool.split_asm)

lemma time_left_Inr:
  "time_left now timeout ws = Inr t \<Longrightarrow> t \<le> timeout \<and> (0 < timeout \<longrightarrow> 0 < t) \<and> (\<forall>e. Some e \<in> set ws \<longrightarrow> now + t \<le> e)"
proof (induction now timeout ws rule: time_left.induct)
  case (3 now timeout e ws)
  then show ?case by (cases "e - now \<le> 0") force+
qed auto

lemma send_attempts_log:
  "send_attempts gw n i base rid allow rq lg = (res, lg') \<Longrightarrow>
    \<exists>new. sent lg' = sent lg @ new \<and> length new \<le> n \<and> (\<forall>(j, q)\<in>set new. \<exists>peers t.
      before_send gw j base rid allow = ([], Inr (peers, t)) \<and> q = rq\<lparr>th_timeout := t\<rparr>)"
proof (induction n arbitrary: i lg)
  case (Suc n)
  obtain rs out where b: "before_send gw i base rid allow = (rs, out)" by fastforce
  show ?case
  proof (cases out)
    case (Inl e)
    with Suc.prems b show ?thesis by auto
  next
    case (Inr pt)
    obtain peers t where pt: "pt = (peers, t)" by fastforce
    have rs: "rs = []" using b Inr pt by (auto elim: before_send_Inr)
    let ?q = "rq\<lparr>th_timeout := t\<rparr>"
    let ?lg = "lg\<lparr>sent := sent lg @ [(i, ?q)]\<rparr>"
    show ?thesis
    proof (cases "tg_post gw i ?q = NetError \<and> n \<noteq> 0")
      case True
      then have "send_attempts gw n (Suc i) base rid allow rq ?lg = (res, lg')"
        using Suc.prems b Inr pt by simp
      from Suc.IH [OF this] obtain new where new: "sent lg' = sent ?lg @ new" "length new \<le> n"
        "\<forall>(j, q)\<in>set new. \<exists>peers t. before_send gw j base rid allow = ([], Inr (peers, t)) \<and> q = rq\<lparr>th_timeout := t\<rparr>"
        by blast
      then show ?thesis using b Inr pt rs by (intro exI [of _ "(i, ?q) # new"]) auto
    next
      case False
      then have "sent lg' = sent lg @ [(i, ?q)]"
        using Suc.prems b Inr pt by (auto simp: Let_def split: net_response.split_asm sum.split_asm if_split_asm)
      then show ?thesis using b Inr pt rs by (intro exI [of _ "[(i, ?q)]"]) auto
    qed
  qed
qed simp

text \<open>The attempt that brought the answer is the last one sent.\<close>

lemma send_attempts_Inr:
  "send_attempts gw n i base rid allow rq lg = (Inr (code, body), lg') \<Longrightarrow>
    \<exists>j q peers. last (sent lg') = (j, q) \<and> sent lg' \<noteq> [] \<and> tg_post gw j q = NetResponse code body \<and>
      allowed_peers gw j base = Inr peers \<and> (checks_peer gw \<longrightarrow> verify_connected_peer gw j peers = Inr ())"
proof (induction n arbitrary: i lg)
  case (Suc n)
  obtain rs out where b: "before_send gw i base rid allow = (rs, out)" by fastforce
  show ?case
  proof (cases out)
    case (Inl e)
    with Suc.prems b show ?thesis by auto
  next
    case (Inr pt)
    obtain peers t where pt: "pt = (peers, t)" by fastforce
    let ?q = "rq\<lparr>th_timeout := t\<rparr>"
    show ?thesis
    proof (cases "tg_post gw i ?q")
      case NetError
      then show ?thesis using Suc.prems b Inr pt Suc.IH by (auto simp: Let_def split: if_split_asm)
    next
      case (NetResponse c y)
      moreover have "allowed_peers gw i base = Inr peers" using b Inr pt by (auto elim: before_send_Inr)
      ultimately show ?thesis using Suc.prems b Inr pt
        by (auto simp: Let_def split: sum.split_asm if_split_asm intro!: exI [of _ peers])
    qed
  qed
qed simp

lemma gateway_call_cases:
  assumes "gateway_call gw cid path input name ikey again allow tcall tc = (res, lg)"
  obtains (unsent) e where "res = Inl e" "sent lg = []" "\<And>c r. e \<noteq> ToolErrorRejected c r"
  | (tried) c ctx wire origin out where "map_of (tg_connectors gw) cid = Some c"
      "fixed_origin gw (bc_base_url c) (loopback_allowed gw) = Inr origin"
      "validated_tool_context gw tc input name = Inr ctx" "tool_wire_version ctx = Inr wire"
      "send_attempts gw (if again then 2 else 1) 0 (bc_base_url c) (dget input ''run_id'') allow
        (signed_request gw c origin path input ctx wire tcall name ikey) empty_log = (out, lg)"
      "res = (case out of Inl e \<Rightarrow> Inl e | Inr (code, body) \<Rightarrow> read_response gw wire name code body)"
proof (cases "map_of (tg_connectors gw) cid")
  case None
  then show thesis using assms by (intro unsent) (auto simp: gateway_call_def empty_log_def)
next
  case (Some c)
  have o: "fixed_origin gw (bc_base_url c) (loopback_allowed gw) \<noteq> Inl (ToolErrorRejected x r)" for x r
    by (auto simp: fixed_origin_def reject_unsafe_host_def res_simps ensure_def Let_def split: option.split if_split)
  have v: "validated_tool_context gw tc input name \<noteq> Inl (ToolErrorRejected x r)" for x r
    by (auto simp: validated_tool_context_def split: json.split)
  have w: "tool_wire_version ctx \<noteq> Inl (ToolErrorRejected x r)" for ctx x r
    by (auto simp: tool_wire_version_def split: option.split)
  show thesis
  proof (cases "fixed_origin gw (bc_base_url c) (loopback_allowed gw)")
    case (Inl e)
    have "e \<noteq> ToolErrorRejected x r" for x r using o [of x r] Inl by metis
    then show thesis using assms Some Inl by (intro unsent [of e]) (auto simp: gateway_call_def empty_log_def)
  next
    case org: (Inr origin)
    show thesis
    proof (cases "validated_tool_context gw tc input name")
      case (Inl e)
      have "e \<noteq> ToolErrorRejected x r" for x r using v [of x r] Inl by metis
      then show thesis using assms Some org Inl by (intro unsent [of e]) (auto simp: gateway_call_def empty_log_def)
    next
      case ctx: (Inr ctx)
      show thesis
      proof (cases "tool_wire_version ctx")
        case (Inl e)
        have "e \<noteq> ToolErrorRejected x r" for x r using w [of ctx x r] Inl by metis
        then show thesis using assms Some org ctx Inl by (intro unsent [of e]) (auto simp: gateway_call_def empty_log_def)
      next
        case wire: (Inr wire)
        show thesis
        proof (cases "case tcall of None \<Rightarrow> True | Some t \<Rightarrow> 1 \<le> tool_attempt t")
          case False
          then show thesis using assms Some org ctx wire
            by (intro unsent [of "ToolFailed ''TOOL_ATTEMPT_INVALID''"]) (auto simp: gateway_call_def empty_log_def)
        next
          case True
          obtain out lg1 where sa: "send_attempts gw (if again then 2 else 1) 0 (bc_base_url c) (dget input ''run_id'') allow
              (signed_request gw c origin path input ctx wire tcall name ikey) empty_log = (out, lg1)" by fastforce
          have "lg1 = lg \<and> res = (case out of Inl e \<Rightarrow> Inl e | Inr (code, body) \<Rightarrow> read_response gw wire name code body)"
            using assms Some org ctx wire True sa
            by (cases out) (simp_all add: gateway_call_def del: send_attempts.simps split: prod.split_asm)
          then show thesis using sa by (intro tried [OF Some org ctx wire]) simp_all
        qed
      qed
    qed
  qed
qed

lemma memoir_gateway_checks:
  assumes "before_send (memoir_tool_gateway io wk r ctx dbs) i base (JStr rid) allow = ([], Inr (peers, t))"
  shows "can_write rid ctx (tg_clock io i) (dbs i)"
    "\<exists>x. find_run (dbs i) rid = Some x \<and> package_executable (dbs i) x \<and>
       authorization_version_of (wk_clients wk) (caller_id x) = Inr (authorization_version x)"
    "tg_draining io i \<longrightarrow> allow" "0 < t \<and> t \<le> seconds 10 \<and> tg_clock io i + t \<le> run_deadline_at r \<and> tg_clock io i + t \<le> x_lease_expires_at ctx"
proof -
  let ?gw = "memoir_tool_gateway io wk r ctx dbs"
  from assms obtain v where a: "tg_authorized ?gw i rid = Inr v" "v = JNull \<or> v = JBool True" "tg_permitted ?gw i rid"
    "tg_draining ?gw i \<longrightarrow> allow" "effective_timeout ?gw i = Inr t"
    by (auto elim: before_send_Inr)
  from a(3) have p: "can_write rid ctx (tg_clock io i) (dbs i)" "package_permitted rid (dbs i)"
    by (simp_all add: memoir_tool_gateway_def tool_execution_permitted_def)
  then show "can_write rid ctx (tg_clock io i) (dbs i)" by simp
  from p(2) obtain x where x: "find_run (dbs i) rid = Some x" "package_executable (dbs i) x"
    by (auto simp: package_permitted_def split: option.split_asm)
  have "authorization_rejection_reason (wk_clients wk) rid (dbs i) = Inr None"
    using a(1,2) by (auto simp: memoir_tool_gateway_def authorization_verdict_def split: sum.split_asm option.split_asm)
  then have "authorization_version_of (wk_clients wk) (caller_id x) = Inr (authorization_version x)"
    using x(1) by (auto simp: authorization_rejection_reason_def split: sum.split_asm runtime_error.split_asm if_split_asm)
  with x show "\<exists>x. find_run (dbs i) rid = Some x \<and> package_executable (dbs i) x \<and>
       authorization_version_of (wk_clients wk) (caller_id x) = Inr (authorization_version x)" by blast
  show "tg_draining io i \<longrightarrow> allow" using a(4) by (simp add: memoir_tool_gateway_def)
  have "t \<le> seconds 10 \<and> (0 < seconds 10 \<longrightarrow> 0 < t) \<and> (\<forall>e. Some e \<in> set [Some (run_deadline_at r), Some (x_lease_expires_at ctx)] \<longrightarrow>
      tg_clock io i + t \<le> e)"
    by (rule time_left_Inr) (use a(5) in \<open>simp add: effective_timeout_def memoir_tool_gateway_def\<close>)
  then show "0 < t \<and> t \<le> seconds 10 \<and> tg_clock io i + t \<le> run_deadline_at r \<and> tg_clock io i + t \<le> x_lease_expires_at ctx"
    by simp
qed





text \<open>Errors of the gateway itself are not errors of the contract.\<close>

definition plain :: "tool_exc \<Rightarrow> bool" where
  "plain e \<longleftrightarrow> (\<forall>c r. e \<noteq> ToolErrorRejected c r)"

lemma plain_simps [simp]: "plain (ToolFailed x)" "plain TransportError" "plain (ToolRaised y)" "plain (ToolHttpStatus n)"
  "\<not> plain (ToolErrorRejected c r)"
  by (simp_all add: plain_def)

lemma reject_unsafe_host_plain: "reject_unsafe_host gw h = Inl e \<Longrightarrow> plain e"
  by (auto simp: reject_unsafe_host_def res_simps split: option.split_asm if_split_asm prod.split_asm)

lemma public_addresses_plain: "public_addresses gw as = Inl e \<Longrightarrow> plain e"
  by (induction "as") (auto simp: res_simps split: option.split_asm if_split_asm prod.split_asm)

lemma allowed_peers_plain: "allowed_peers gw i base = Inl e \<Longrightarrow> plain e"
  by (auto simp: allowed_peers_def ensure_public_endpoint_def res_simps Let_def
      split: option.split_asm if_split_asm dest: reject_unsafe_host_plain public_addresses_plain)

lemma time_left_plain: "time_left now t ws = Inl e \<Longrightarrow> plain e"
  by (induction now t ws rule: time_left.induct) (auto split: if_split_asm)

lemma before_send_plain: "before_send gw i base rid allow = (rs, Inl e) \<Longrightarrow> plain e"
  by (auto simp: before_send_def effective_timeout_def res_simps dest: allowed_peers_plain time_left_plain
      split: json.split_asm sum.split_asm option.split_asm if_split_asm)

lemma verify_peer_plain: "verify_connected_peer gw i as = Inl e \<Longrightarrow> plain e"
  by (auto simp: verify_connected_peer_def res_simps split: option.split_asm prod.split_asm)

lemma send_attempts_plain: "send_attempts gw n i base rid allow rq lg = (Inl e, lg') \<Longrightarrow> plain e"
proof (induction n arbitrary: i lg)
  case (Suc n)
  obtain rs out where b: "before_send gw i base rid allow = (rs, out)" by fastforce
  show ?case
  proof (cases out)
    case (Inl x)
    with Suc.prems b before_send_plain show ?thesis by auto
  next
    case (Inr pt)
    with Suc.prems b Suc.IH show ?thesis
      by (auto simp: Let_def dest: verify_peer_plain
          split: prod.split_asm net_response.split_asm if_split_asm sum.split_asm)
  qed
qed simp

lemma parse_tool_error_rejected:
  assumes "parse_tool_error gw wire st body = ToolErrorRejected code rt"
  shows "\<exists>d specs ty. body = Some (JObj d) \<and> tool_error_specs wire = Some specs \<and> map_of specs code = Some (st, ty, rt) \<and>
    dget d ''error_type'' = JStr ty \<and> dget d ''safe_message'' = JStr (tg_message gw wire code)"
  using assms
  by (auto simp: parse_tool_error_def split: option.split_asm json.split_asm if_split_asm prod.split_asm)

lemma read_response_rejected:
  assumes "read_response gw wire name st body = Inl (ToolErrorRejected code rt)"
  shows "parse_tool_error gw wire st body = ToolErrorRejected code rt"
  using assms
  by (auto simp: read_response_def res_simps validate_output_def split: option.split_asm if_split_asm prod.split_asm)

lemma only_retryable:
  assumes "tool_error_specs wire = Some specs" "map_of specs code = Some (st, ty, rt)"
  shows "rt \<longrightarrow> wire = ''1.1.0'' \<and> code = ''RUNTIME_SERVICE_UNAVAILABLE''"
proof -
  have "list_all (\<lambda>e. snd (snd (snd e)) \<longrightarrow> fst e = ''RUNTIME_SERVICE_UNAVAILABLE'') tool_error_specs_v1_1"
    "list_all (\<lambda>e. \<not> snd (snd (snd e))) tool_error_specs_v1_0" by code_simp+
  moreover have "wire = ''1.1.0'' \<and> specs = tool_error_specs_v1_1 \<or> specs = tool_error_specs_v1_0"
    using assms(1) by (auto simp: tool_error_specs_def split: if_split_asm)
  ultimately show ?thesis using map_of_SomeD [OF assms(2)] by (auto simp: list_all_iff)
qed

lemma native_summary_safe:
  assumes "native_arguments name = Some names" "run_native loads name args = Inr result"
  shows "\<exists>d. native_output_summary name result = Inr d \<and> fst ` set d \<subseteq> {''matched'', ''keys'', ''item_count'', ''result''}"
proof -
  have "name = ''runtime.repair_json_once'' \<or> name = ''runtime.summarize_keys'' \<or> name = ''runtime.contains_sensitive_identifier''"
    using assms(1) by (auto simp: native_arguments_def split: if_split_asm)
  then show ?thesis
  proof (elim disjE)
    assume n: "name = ''runtime.repair_json_once''"
    obtain ks k where "summarize_keys result (JInt 32) = Inr (ks, k)" using summarize_keys_total by (metis surj_pair)
    with n show ?thesis by (simp add: native_output_summary_def)
  next
    assume n: "name = ''runtime.summarize_keys''"
    then obtain ks k where "result = JObj [(''keys'', JList (map JStr ks)), (''item_count'', JInt k)]"
      using assms(2) by (auto simp: run_native_def res_simps)
    with n show ?thesis by (simp add: native_output_summary_def dget_def)
  qed (simp add: native_output_summary_def)
qed

lemma begin_native_rows:
  assumes "begin_native rid att sid name key dg now s = (out, s1)"
  shows "case out of Inl _ \<Rightarrow> tool_calls s1 = tool_calls s
    | Inr t \<Rightarrow> tool_calls s1 = tool_calls s @ [t] \<and> t_run_id t = rid \<and> logical_operation_key t = Some key"
proof -
  let ?q = "\<lparr>tr_run_id = rid, tr_execution_attempt = att, tr_step_id = sid, tr_tool_name = name,
       tr_tool_version = Some ''1.0.0'', tr_transport = ''native'', tr_logical_key = key, tr_idempotency_key = key,
       tr_digest = dg, tr_input_summary = [(''operation'', JStr name)], tr_side_effect = False\<rparr>"
  have b: "begin_call ?q None now s = (out, s1)" using assms by (simp add: begin_native_def)
  show ?thesis
  proof (cases rule: begin_call_cases [of ?q None now s])
    case (refused e s2)
    with b show ?thesis by auto
  next
    case (written t s2)
    with b show ?thesis by (auto simp: new_tool_call_def)
  qed
qed

section \<open>Properties\<close>

text \<open>C26. Every request a Worker's tool gateway sends is covered at the moment it is sent: the lease of the run may
  write, its package is executable, the caller is authorized in the frozen version, the Worker is not draining (a
  query for a publish result excepted), and the HTTP timeout ends before the deadline of the run and of its lease. It goes to
  the origin of the run's connector, is signed with that connector's key, and an operation with side
  effects is sent at most once, a read at most twice.\<close>

theorem tool_requests_guarded:
  assumes g: "gateway_call (memoir_tool_gateway io wk r ctx dbs) cid path input name ikey again allow tcall tc = (res, lg)"
    and q: "(i, rq) \<in> set (sent lg)"
  shows "cid = business_connector_id r \<and> length (sent lg) \<le> (if again then 2 else 1) \<and>
    (\<exists>rid x. dget input ''run_id'' = JStr rid \<and> can_write rid ctx (tg_clock io i) (dbs i) \<and>
       find_run (dbs i) rid = Some x \<and> package_executable (dbs i) x \<and>
       authorization_version_of (wk_clients wk) (caller_id x) = Inr (authorization_version x)) \<and>
    (tg_draining io i \<longrightarrow> allow) \<and> 0 < th_timeout rq \<and> th_timeout rq \<le> seconds 10 \<and>
    tg_clock io i + th_timeout rq \<le> run_deadline_at r \<and> tg_clock io i + th_timeout rq \<le> x_lease_expires_at ctx \<and>
    (\<exists>c origin. map_of (tg_connectors (memoir_tool_gateway io wk r ctx dbs)) cid = Some c \<and>
       fixed_origin (memoir_tool_gateway io wk r ctx dbs) (bc_base_url c) (loopback_allowed io) = Inr origin \<and>
       th_url rq = origin @ path \<and>
       take 4 (th_headers rq) = runtime_headers (tg_crypto io) (bc_runtime_id c) (bc_key_id c) (bc_secret c) path
         (th_content rq) (tg_clock io 0))"
  using g
proof (cases rule: gateway_call_cases)
  case (unsent e)
  with q show ?thesis by simp
next
  case (tried c cx wire origin out)
  let ?gw = "memoir_tool_gateway io wk r ctx dbs" and ?rq = "signed_request (memoir_tool_gateway io wk r ctx dbs) c origin path input cx wire tcall name ikey"
  from send_attempts_log [OF tried(5)] obtain new where new: "sent lg = new" "length new \<le> (if again then 2 else 1)"
    "\<forall>(j, q)\<in>set new. \<exists>peers t. before_send ?gw j (bc_base_url c) (dget input ''run_id'') allow = ([], Inr (peers, t)) \<and>
       q = ?rq\<lparr>th_timeout := t\<rparr>" by (auto simp: empty_log_def)
  then obtain peers t where b: "before_send ?gw i (bc_base_url c) (dget input ''run_id'') allow = ([], Inr (peers, t))"
    and rq: "rq = ?rq\<lparr>th_timeout := t\<rparr>" using q by blast
  from b obtain rid where rid: "dget input ''run_id'' = JStr rid" by (rule before_send_Inr)
  note ck = memoir_gateway_checks [OF b [unfolded rid]]
  have cid: "cid = business_connector_id r" using tried(1) by (auto simp: memoir_tool_gateway_def split: if_split_asm)
  have la: "loopback_allowed ?gw = loopback_allowed io" by (simp add: loopback_allowed_def memoir_tool_gateway_def)
  have "th_url rq = origin @ path" "take 4 (th_headers rq) = runtime_headers (tg_crypto io) (bc_runtime_id c) (bc_key_id c) (bc_secret c) path
         (th_content rq) (tg_clock io 0)" "th_timeout rq = t"
    by (simp_all add: rq signed_request_def request_headers_def runtime_headers_def Let_def memoir_tool_gateway_def)
  then show ?thesis using ck new(1,2) rid cid tried(1,2) la by auto
qed


text \<open>C28. A business tool can refuse a call only in the words of the contract: an accepted error names a code of the
  table of the wire version the request asked for, with the HTTP status, the type and the message of that code, and only the
  unavailability of the service under version 1.1.0 lets the caller repeat the call.\<close>

theorem tool_error_contract:
  assumes g: "gateway_call gw cid path input name ikey again allow tcall tc = (Inl (ToolErrorRejected code rt), lg)"
  shows "\<exists>wire specs st ty i rq d. (''X-Agent-Tool-Contract-Version'', wire) \<in> set (th_headers rq) \<and>
    tool_error_specs wire = Some specs \<and> map_of specs code = Some (st, ty, rt) \<and>
    sent lg \<noteq> [] \<and> last (sent lg) = (i, rq) \<and> tg_post gw i rq = NetResponse st (Some (JObj d)) \<and>
    dget d ''error_type'' = JStr ty \<and> dget d ''safe_message'' = JStr (tg_message gw wire code) \<and>
    (rt \<longrightarrow> wire = ''1.1.0'' \<and> code = ''RUNTIME_SERVICE_UNAVAILABLE'')"
  using g
proof (cases rule: gateway_call_cases)
  case (unsent e)
  then show ?thesis using unsent(3) [of code rt] by simp
next
  case (tried c cx wire origin out)
  obtain st body where out: "out = Inr (st, body)"
  proof (cases out)
    case (Inl e)
    with tried(5) have "plain e" by (auto dest: send_attempts_plain)
    with Inl tried(6) show ?thesis by (auto simp: plain_def)
  qed (use that in auto)
  have rd: "read_response gw wire name st body = Inl (ToolErrorRejected code rt)" using tried(6) out by simp
  then have p: "parse_tool_error gw wire st body = ToolErrorRejected code rt"
    by (rule read_response_rejected)
  from parse_tool_error_rejected [OF p] obtain d specs ty where
    d: "body = Some (JObj d)" "tool_error_specs wire = Some specs" "map_of specs code = Some (st, ty, rt)"
    "dget d ''error_type'' = JStr ty" "dget d ''safe_message'' = JStr (tg_message gw wire code)" by blast
  from send_attempts_Inr [OF tried(5) [unfolded out]] obtain i rq where
    l: "last (sent lg) = (i, rq)" "sent lg \<noteq> []" "tg_post gw i rq = NetResponse st body" by blast
  then have "(i, rq) \<in> set (sent lg)" using last_in_set [OF l(2)] by simp
  with send_attempts_log [OF tried(5)] obtain t where
    "rq = (signed_request gw c origin path input cx wire tcall name ikey)\<lparr>th_timeout := t\<rparr>"
    by (auto simp: empty_log_def)
  then have "(''X-Agent-Tool-Contract-Version'', wire) \<in> set (th_headers rq)"
    by (simp add: signed_request_def request_headers_def Let_def)
  moreover have "rt \<longrightarrow> wire = ''1.1.0'' \<and> code = ''RUNTIME_SERVICE_UNAVAILABLE''"
    using only_retryable [OF d(2,3)] by simp
  ultimately show ?thesis using d l by blast
qed

text \<open>The gate for tool results: a result enters the state exactly when the lease may still write, the result is an
  object of the declared schema, no text inside contains a phone or identity card number, no key inside
  is a control or credential name, the target is a business field and the fields keep their types; what
  changes is the target field alone.\<close>

lemma apply_result_gate:
  "apply_result m (JObj d) st rid ctx now s = Inr st' \<longleftrightarrow>
     can_write rid ctx now s \<and> validate_output_schema (tm_output_schema m) (JObj d) = Inr () \<and>
     (\<nexists>x. subvalue (JObj d) (JStr x) \<and> identifier_inside x) \<and> (\<nexists>w. subvalue (JObj d) w \<and> sensitive_entry w) \<and>
     (\<exists>f. tm_output_to m = Some f \<and> f \<in> set safe_tool_output_fields \<and> state_valid (set_field f (JObj d) st) \<and>
        st' = set_field f (JObj d) st)"
proof -
  have v: "validate_output d [] = Inr () \<longleftrightarrow> \<not> (\<exists>x. subvalue (JObj d) (JStr x) \<and> identifier_inside x)"
    using contains_identifier_iff [of "JObj d"]
    by (simp add: validate_output_def scanned_output_def is_trusted_publish_result_output_def res_simps)
  have e: "[] \<notin> set safe_tool_output_fields"
    by (simp add: safe_tool_output_fields_def dict_fields_def list_fields_def)
  have a: "(case apply_tool_output f (JObj d) st of Inl e \<Rightarrow> Inl (ToolRaised e) | Inr z \<Rightarrow> Inr z) = Inr st' \<longleftrightarrow>
      f \<in> set safe_tool_output_fields \<and> \<not> (\<exists>w. subvalue (JObj d) w \<and> sensitive_entry w) \<and>
      state_valid (set_field f (JObj d) st) \<and> st' = set_field f (JObj d) st" for f
    unfolding apply_tool_output_def contains_sensitive_iff by auto
  show ?thesis
    unfolding apply_result_def using v a e by (cases "tm_output_to m") (auto simp: res_simps)
qed

text \<open>A native tool leaves no open call: when it was begun, its row in the ledger is settled before the call
  returns, succeeded when a value is returned and failed when an error is raised, and what is kept of
  a value is a summary without its content.\<close>

lemma native_call_settles:
  assumes c: "call_native loads name args rid att sid key dg now s = (res, s')"
  shows "tool_calls s' = tool_calls s \<and> isl res \<or>
    (\<exists>t. tool_calls s' \<noteq> [] \<and> last (tool_calls s') = t \<and> length (tool_calls s') = Suc (length (tool_calls s)) \<and>
       t_run_id t = rid \<and> logical_operation_key t = Some key \<and>
       t_status t = (if isl res then ''failed'' else ''succeeded'') \<and>
       (\<not> isl res \<longrightarrow> (\<exists>d. t_output_summary t = JObj d \<and> fst ` set d \<subseteq> {''matched'', ''keys'', ''item_count'', ''result''})))"
proof (cases "\<exists>names. native_arguments name = Some names \<and> fst ` set args = set names")
  case False
  then show ?thesis using c by (auto simp: call_native_def split: option.split_asm if_split_asm)
next
  case True
  then obtain names where n: "native_arguments name = Some names" "fst ` set args = set names" by blast
  obtain out s1 where b: "begin_native rid att sid name key dg now s = (out, s1)" by fastforce
  show ?thesis
  proof (cases out)
    case (Inl e)
    with begin_native_rows [OF b] have "tool_calls s1 = tool_calls s" by simp
    with Inl b n c show ?thesis by (auto simp: call_native_def)
  next
    case (Inr rec)
    with begin_native_rows [OF b] have t: "tool_calls s1 = tool_calls s @ [rec]"
      and r: "t_run_id rec = rid" "logical_operation_key rec = Some key" by simp_all
    have settle: "tool_calls (snd (persist_result rec st err o1 None now s1)) \<noteq> [] \<and>
        last (tool_calls (snd (persist_result rec st err o1 None now s1))) = rec\<lparr>t_status := st, t_error_code := err, t_output_summary := o1\<rparr> \<and>
        length (tool_calls (snd (persist_result rec st err o1 None now s1))) = Suc (length (tool_calls s))" for st err o1
      by (simp add: persist_result_def gate_refuses_def t upd_where_def)
    show ?thesis
    proof (cases "run_native loads name args")
      case (Inl e)
      have "s' = snd (persist_result rec ''failed'' (Some ''NATIVE_TOOL_INPUT_INVALID'')
         (JObj [(''error_code'', JStr ''NATIVE_TOOL_INPUT_INVALID''), (''error_type'', JStr ''native_tool_rejected''),
            (''retryable'', JBool False), (''safe_message'', JStr ''TOOL_REQUEST_REJECTED''),
            (''details_visible_to_model'', JBool False)]) None now s1)" "isl res"
        using c n b Inl \<open>out = Inr rec\<close> by (auto simp: call_native_def fail_call_def)
      with settle r show ?thesis by simp
    next
      case res: (Inr result)
      obtain d where d: "native_output_summary name result = Inr d" "fst ` set d \<subseteq> {''matched'', ''keys'', ''item_count'', ''result''}"
        using native_summary_safe [OF n(1) res] by blast
      have "s' = snd (persist_result rec ''succeeded'' None (JObj d) None now s1)" "res = Inr result"
        using c n b res d(1) \<open>out = Inr rec\<close> by (auto simp: call_native_def succeed_call_def success_output_def split: prod.split_asm)
      with settle r d(2) show ?thesis by simp
    qed
  qed
qed

section \<open>A concrete call\<close>

definition demo_io :: tool_gateway where
  "demo_io = \<lparr>tg_connectors = [],
     tg_urlsplit = (\<lambda>_. Some \<lparr>u_scheme = ''https'', u_host = Some ''b.example'', u_path = ''/'', u_query = [], u_fragment = [],
        u_username = None, u_password = None, u_port = Some None, u_netloc = ''b.example''\<rparr>),
     tg_ip = (\<lambda>a. if a = ''8.8.8.8'' then Some (a, True) else None),
     tg_resolve = (\<lambda>_ _ p. if p = 443 then Some [''8.8.8.8''] else None),
     tg_post = (\<lambda>i q. if i = 0 then NetError else NetResponse 200 (Some (JObj [(''output'', JObj [(''title'', JStr ''13800'')])]))),
     tg_peer = Some (\<lambda>_. Some ''8.8.8.8''), tg_test_allows = None, tg_allow_private = False, tg_mock = False,
     tg_clock = (\<lambda>i. seconds (int i + 5)), tg_draining = (\<lambda>_. False), tg_deadline = (\<lambda>_. None),
     tg_lease_end = (\<lambda>_. None), tg_authorized = (\<lambda>_ _. Inr JNull), tg_permitted = (\<lambda>_ _. True),
     tg_crypto = demo_crypto, tg_encode = (\<lambda>_. ''body''), tg_message = (\<lambda>_ _. ''m'')\<rparr>"

definition demo_tool_worker :: worker where
  "demo_tool_worker = demo_worker\<lparr>wk_clients := demo_clients, wk_connectors := [(''bc'',
     [(''enabled'', JBool True), (''base_url'', JStr ''https://b.example/''), (''runtime_id'', JStr ''r''),
      (''key_id'', JStr ''k''), (''secret'', JStr ''s'')])]\<rparr>"

definition demo_tools :: "tool_gateway \<Rightarrow> tool_gateway" where
  "demo_tools io = memoir_tool_gateway io demo_tool_worker demo_claimed demo_ctx (\<lambda>_. demo_db demo_claimed)"

definition demo_tool_context :: json where
  "demo_tool_context = JObj [(''agent_id'', JStr ''memoir_agent''), (''agent_version'', JStr ''1.0.8''), (''run_id'', JStr ''0''),
     (''step_id'', JStr ''load_snapshot''), (''business_type'', JStr ''couple_memory''), (''business_id'', JStr ''b''),
     (''trace_id'', JStr ''1'')]"

definition demo_input :: dict where
  "demo_input = [(''archive_id'', JStr ''b''), (''snapshot_id'', JStr ''s''), (''run_id'', JStr ''0''), (''generation_epoch'', JInt 1)]"

definition demo_tool_call :: "tool_gateway \<Rightarrow> (tool_exc + dict) \<times> tool_log" where
  "demo_tool_call io = gateway_call (demo_tools io) ''bc'' (tool_path ''memory.get_snapshot'') demo_input ''memory.get_snapshot''
     None True False None demo_tool_context"

lemma demo_get_snapshot: "demo_tool_call io = get_snapshot (demo_tools io) ''bc'' ''b'' ''s'' ''0'' (JInt 1) demo_tool_context"
  by (simp add: demo_tool_call_def get_snapshot_def demo_input_def)

theorem tool_requests_guarded_witness:
  "\<exists>i rq res lg. get_snapshot (demo_tools demo_io) ''bc'' ''b'' ''s'' ''0'' (JInt 1) demo_tool_context = (res, lg) \<and>
     (i, rq) \<in> set (sent lg) \<and> i = 1 \<and> length (sent lg) = 2 \<and> can_write ''0'' demo_ctx (tg_clock demo_io i) (demo_db demo_claimed)"
proof -
  obtain res lg where m: "demo_tool_call demo_io = (res, lg)" by fastforce
  have "map fst (sent (snd (demo_tool_call demo_io))) = [0, 1]" by code_simp
  then have f: "map fst (sent lg) = [0, 1]" using m by simp
  then obtain rq where q: "(1, rq) \<in> set (sent lg)" by (metis in_set_conv_nth list.set_intros(1,2) list.set_map imageE prod.collapse)
  have "can_write ''0'' demo_ctx (tg_clock demo_io 1) (demo_db demo_claimed)"
    using tool_requests_guarded [OF m [unfolded demo_tool_call_def demo_tools_def] q] by (auto simp: demo_input_def dget_def)
  moreover have "length (sent lg) = 2" using arg_cong [OF f, of length] by simp
  ultimately show ?thesis using m q unfolding demo_get_snapshot by blast
qed


definition demo_refusal :: tool_gateway where
  "demo_refusal = demo_io\<lparr>tg_post := (\<lambda>_ _. NetResponse 503 (Some (JObj [(''error_code'', JStr ''RUNTIME_SERVICE_UNAVAILABLE''),
     (''error_type'', JStr ''service_unavailable''), (''retryable'', JBool True), (''safe_message'', JStr ''m''),
     (''details_visible_to_model'', JBool False)])))\<rparr>"

theorem tool_error_contract_witness:
  "\<exists>lg specs st ty. demo_tool_call demo_refusal = (Inl (ToolErrorRejected ''RUNTIME_SERVICE_UNAVAILABLE'' True), lg) \<and>
     tool_error_specs ''1.1.0'' = Some specs \<and> map_of specs ''RUNTIME_SERVICE_UNAVAILABLE'' = Some (st, ty, True)"
proof -
  have "case fst (demo_tool_call demo_refusal) of Inl (ToolErrorRejected c r) \<Rightarrow> c = ''RUNTIME_SERVICE_UNAVAILABLE'' \<and> r | _ \<Rightarrow> False"
    by code_simp
  then obtain lg where m: "demo_tool_call demo_refusal = (Inl (ToolErrorRejected ''RUNTIME_SERVICE_UNAVAILABLE'' True), lg)"
    by (cases "demo_tool_call demo_refusal") (auto split: sum.split_asm tool_exc.split_asm)
  from tool_error_contract [OF m [unfolded demo_tool_call_def]] m show ?thesis by auto
qed

end
