(* ===== verification/Model_Gateway.thy ===== *)
theory Model_Gateway
  imports Provider_Traffic Tool_Gateway
begin

text \<open>
  The model gateway (\<open>app/runtime/model_gateway.py\<close>): deployed routes and their registry, logical model
  policies, the capability evaluator, the HTTP provider adapter and \<open>ModelGateway\<close> itself, with
  the prompt registry (\<open>app/runtime/prompt_registry.py\<close>).

  A call touches the database, Redis and the network one after the other, and other processes act in
  between: \<open>gateway\<close> is the state a call works on and \<open>model_world\<close> everything outside it, indexed by
  the number of the interaction. \<open>outside\<close> lets the others act and moves to the next interaction. The
  component \<open>g_log\<close> records what was sent, for the properties.
\<close>

section \<open>Routes\<close>

record endpoint_net =
  en_urlsplit :: "string \<Rightarrow> url_parts option"
  en_ip :: "string \<Rightarrow> (string \<times> bool) option"
  en_resolve :: "nat \<Rightarrow> string \<Rightarrow> int \<Rightarrow> string list option"

definition reject_unsafe_endpoint_host :: "endpoint_net \<Rightarrow> string option \<Rightarrow> string \<Rightarrow> runtime_error + unit" where
  "reject_unsafe_endpoint_host net host code =
     (case host of
        None \<Rightarrow> Inl (ValueError code)
      | Some h \<Rightarrow>
          if h = '''' \<or> lower (strip_dots h) = ''localhost'' then Inl (ValueError code)
          else (case en_ip net (without_zone h) of
              None \<Rightarrow> Inr ()
            | Some (_, global) \<Rightarrow> ensure global (ValueError code)))"

fun public_peers :: "endpoint_net \<Rightarrow> string \<Rightarrow> string list \<Rightarrow> runtime_error + string list" where
  "public_peers net prefix [] = Inr []"
| "public_peers net prefix (a # as) =
     (case en_ip net (without_zone a) of
        None \<Rightarrow> Inl (ValueError (prefix @ ''_UNSAFE''))
      | Some (text, global) \<Rightarrow>
          if global then res_bind (public_peers net prefix as) (\<lambda>ts. Inr (text # ts))
          else Inl (ValueError (prefix @ ''_UNSAFE'')))"

definition ensure_public_address :: "endpoint_net \<Rightarrow> nat \<Rightarrow> string \<Rightarrow> string \<Rightarrow> runtime_error + string list" where
  "ensure_public_address net i endpoint prefix =
     (case en_urlsplit net endpoint of
        None \<Rightarrow> Inl (ValueError ''INVALID_URL'')
      | Some u \<Rightarrow>
          res_bind (reject_unsafe_endpoint_host net (u_host u) (prefix @ ''_UNSAFE'')) (\<lambda>_.
            (case u_port u of
               None \<Rightarrow> Inl (ValueError (prefix @ ''_DNS_UNRESOLVED''))
             | Some port \<Rightarrow>
                 let default_port = (if u_scheme u = ''http'' then 80 else 443);
                     p = (case port of None \<Rightarrow> default_port | Some n \<Rightarrow> if n = 0 then default_port else n)
                 in (case en_resolve net i (the (u_host u)) p of
                     None \<Rightarrow> Inl (ValueError (prefix @ ''_DNS_UNRESOLVED''))
                   | Some addresses \<Rightarrow>
                       if addresses = [] then Inl (ValueError (prefix @ ''_DNS_UNRESOLVED''))
                       else public_peers net prefix addresses))))"

definition endpoint_ok :: "endpoint_net \<Rightarrow> string \<Rightarrow> bool" where
  "endpoint_ok net endpoint =
     (case en_urlsplit net endpoint of
        None \<Rightarrow> False
      | Some u \<Rightarrow> u_scheme u \<in> {''http'', ''https''} \<and> u_netloc u \<noteq> '''' \<and> u_username u = None \<and> u_password u = None \<and>
          u_query u = '''' \<and> u_fragment u = '''' \<and> reject_unsafe_endpoint_host net (u_host u) ''MODEL_ENDPOINT_UNSAFE'' = Inr ())"

text \<open>The checks of \<open>ModelRoute.__post_init__\<close> that the types do not make.\<close>

definition deployed_route_ok :: "endpoint_net \<Rightarrow> deployed_route \<Rightarrow> bool" where
  "deployed_route_ok net rt \<longleftrightarrow>
     list_all (\<lambda>v. strip v \<noteq> '''') [rt_route_id rt, rt_provider rt, rt_model rt, rt_rate_limit_key rt] \<and>
     endpoint_ok net (rt_endpoint rt) \<and>
     0 < rt_max_concurrency rt \<and> 0 < rt_rpm_limit rt \<and> 0 < rt_tpm_limit rt \<and>
     0 < rt_timeout_seconds rt \<and> 0 \<le> rt_settle_margin_seconds rt \<and>
     rt_timeout_seconds rt + rt_settle_margin_seconds rt \<le> rt_permit_ttl_seconds rt \<and>
     rt_price_unit rt = ''usd_per_1k_tokens'' \<and> 0 \<le> rt_input_price rt \<and> 0 \<le> rt_output_price rt \<and>
     0 \<le> rt_circuit_failure_threshold rt \<and> 0 \<le> rt_circuit_open_seconds rt \<and>
     (rt_circuit_failure_threshold rt = 0 \<longrightarrow> rt_circuit_open_seconds rt = 0) \<and>
     (0 < rt_circuit_failure_threshold rt \<longrightarrow> 0 < rt_circuit_open_seconds rt) \<and>
     rt_route_config_version rt \<noteq> '''' \<and> rt_pricing_config_version rt \<noteq> '''' \<and>
     '''' \<notin> set (rt_allowed_tenant_ids rt) \<and> '''' \<notin> set (rt_allowed_model_policies rt) \<and>
     (case rt_fallback_route_id rt of None \<Rightarrow> True | Some f \<Rightarrow> f \<noteq> '''' \<and> f \<noteq> rt_route_id rt) \<and>
     rt_data_residency rt \<in> {''public'', ''private''} \<and>
     rt_capabilities rt \<noteq> [] \<and> '''' \<notin> set (rt_capabilities rt) \<and>
     (''private_residency'' \<in> set (rt_capabilities rt) \<longrightarrow> rt_data_residency rt = ''private'') \<and>
     0 < rt_max_context_tokens rt \<and> 0 < rt_max_output_tokens rt \<and> rt_max_output_tokens rt \<le> rt_max_context_tokens rt"

definition find_route :: "deployed_route list \<Rightarrow> string \<Rightarrow> deployed_route option" where
  "find_route routes rid = sel_one (\<lambda>r. rt_route_id r = rid) routes"

definition new_route_registry :: "endpoint_net \<Rightarrow> deployed_route list \<Rightarrow> runtime_error + deployed_route list" where
  "new_route_registry net routes =
     res_bind (ensure (list_all (deployed_route_ok net) routes) (ValueError ''MODEL_ROUTE_INVALID'')) (\<lambda>_.
     res_bind (ensure (distinct (map rt_route_id routes)) (ValueError ''MODEL_ROUTES_JSON'')) (\<lambda>_.
     res_bind (ensure (list_all (\<lambda>r. case rt_fallback_route_id r of None \<Rightarrow> True | Some f \<Rightarrow> find_route routes f \<noteq> None) routes)
       (ValueError ''fallback_route_id'')) (\<lambda>_. Inr routes)))"

definition get_route :: "deployed_route list \<Rightarrow> string \<Rightarrow> runtime_error + deployed_route" where
  "get_route routes rid =
     (case find_route routes rid of None \<Rightarrow> Inl (ValueError ''MODEL_ROUTE_UNAVAILABLE'') | Some r \<Rightarrow> Inr r)"

section \<open>Policies and prompts\<close>

record logical_policy =
  lp_name :: string
  lp_max_output_tokens :: int
  lp_required_capabilities :: "string list"
  lp_fallback :: string
  lp_thinking_enabled :: bool
  lp_requires_vision :: bool

definition parse_policy :: "string \<times> json \<Rightarrow> logical_policy option" where
  "parse_policy entry =
     (case snd entry of
        JObj d \<Rightarrow>
          (case (dget d ''max_output_tokens'', dget d ''required_capabilities'', dget d ''fallback'',
                 dget d ''thinking_enabled'', dget d ''requires_vision'') of
             (JInt n, JList cs, JStr f, JBool th, JBool vi) \<Rightarrow>
               if 0 < n \<and> cs \<noteq> [] \<and> list_all filled_str cs \<and> f = ''template''
               then Some \<lparr>lp_name = fst entry, lp_max_output_tokens = n, lp_required_capabilities = map str_value cs,
                    lp_fallback = f, lp_thinking_enabled = th, lp_requires_vision = vi\<rparr>
               else None
           | _ \<Rightarrow> None)
      | _ \<Rightarrow> None)"

fun new_policy_registry :: "dict \<Rightarrow> runtime_error + logical_policy list" where
  "new_policy_registry [] = Inr []"
| "new_policy_registry (e # es) =
     (case parse_policy e of
        None \<Rightarrow> Inl (ValueError ''MODEL_POLICY_INVALID'')
      | Some p \<Rightarrow> res_bind (new_policy_registry es) (\<lambda>ps. Inr (p # ps)))"

definition policies_from_yaml :: "json option \<Rightarrow> runtime_error + logical_policy list" where
  "policies_from_yaml raw =
     (case raw of Some (JObj d) \<Rightarrow> new_policy_registry d | _ \<Rightarrow> Inl (ValueError ''MODEL_POLICY_INVALID''))"

definition get_policy :: "logical_policy list \<Rightarrow> string \<Rightarrow> logical_policy option" where
  "get_policy ps name = sel_one (\<lambda>p. lp_name p = name) ps"

record prompt_definition =
  pd_prompt_id :: string
  pd_version :: string
  pd_owner_agent :: string
  pd_input_schema :: string
  pd_output_schema :: string
  pd_model_policy :: string
  pd_guardrail_policy :: string
  pd_status :: string
  pd_template :: string

text \<open>The files of the installed packages: whether the resolved directory stays inside the package root, the
  parsed manifest, whether the resolved file is a Markdown file inside the directory, and its text.\<close>

record prompt_files =
  pf_inside :: "string \<Rightarrow> string \<Rightarrow> bool"
  pf_manifest :: "string \<Rightarrow> string \<Rightarrow> json option"
  pf_file_ok :: "string \<Rightarrow> string \<Rightarrow> string \<Rightarrow> bool"
  pf_text :: "string \<Rightarrow> string \<Rightarrow> string \<Rightarrow> string option"

definition prompt_keys :: "string list" where
  "prompt_keys = [''prompt_id'', ''version'', ''file'', ''owner_agent'', ''input_schema'', ''output_schema'',
     ''model_policy'', ''guardrail_policy'', ''status'']"

definition prompt_entry :: "json \<Rightarrow> string \<Rightarrow> string \<Rightarrow> dict option" where
  "prompt_entry raw pid ver =
     (case jget raw ''prompts'' of
        JList es \<Rightarrow> (case find (\<lambda>e. is_obj e \<and> jget e ''prompt_id'' = JStr pid \<and> jget e ''version'' = JStr ver) es of
            Some (JObj d) \<Rightarrow> Some d | _ \<Rightarrow> None)
      | _ \<Rightarrow> None)"

definition load_prompt :: "prompt_files \<Rightarrow> string \<Rightarrow> string \<Rightarrow> string \<Rightarrow> string \<Rightarrow> prompt_definition option" where
  "load_prompt fs agent aver pid ver =
     (if \<not> list_all (\<lambda>v. v \<noteq> '''' \<and> v \<noteq> ''latest'') [agent, aver, pid, ver] \<or> \<not> pf_inside fs agent aver then None
      else (case pf_manifest fs agent aver of
          None \<Rightarrow> None
        | Some raw \<Rightarrow>
            (case prompt_entry raw pid ver of
               None \<Rightarrow> None
             | Some d \<Rightarrow>
                 let str = (\<lambda>k. str_value (dget d k))
                 in if fst ` set d \<noteq> set prompt_keys \<or> \<not> list_all (\<lambda>k. filled_str (dget d k)) prompt_keys \<or>
                      str ''owner_agent'' \<noteq> agent \<or> str ''status'' \<noteq> ''active'' \<or> \<not> pf_file_ok fs agent aver (str ''file'')
                    then None
                    else map_option (\<lambda>text. \<lparr>pd_prompt_id = str ''prompt_id'', pd_version = str ''version'',
                        pd_owner_agent = str ''owner_agent'', pd_input_schema = str ''input_schema'',
                        pd_output_schema = str ''output_schema'', pd_model_policy = str ''model_policy'',
                        pd_guardrail_policy = str ''guardrail_policy'', pd_status = str ''status'', pd_template = text\<rparr>)
                      (pf_text fs agent aver (str ''file'')))))"

section \<open>Capabilities\<close>

definition required_capabilities :: "logical_policy \<Rightarrow> logical_policy \<Rightarrow> string set" where
  "required_capabilities p q = set (lp_required_capabilities p) \<union> set (lp_required_capabilities q) \<union>
     (if lp_thinking_enabled p then {''thinking''} else {}) \<union> (if lp_requires_vision p then {''vision''} else {})"

definition policy_allowed :: "deployed_route \<Rightarrow> string \<Rightarrow> bool" where
  "policy_allowed rt name \<longleftrightarrow> rt_allowed_model_policies rt = [] \<or> name \<in> set (rt_allowed_model_policies rt)"

definition available :: "logical_policy list \<Rightarrow> deployed_route \<Rightarrow> prompt_definition option \<Rightarrow> int \<Rightarrow> bool \<Rightarrow> bool" where
  "available ps rt prompt tokens redis_available =
     (if \<not> redis_available \<or> prompt = None \<or> tokens < 0 then False
      else (case (get_policy ps (pd_model_policy (the prompt)), get_policy ps (pd_guardrail_policy (the prompt))) of
          (Some p, Some q) \<Rightarrow>
            rt_enabled rt \<and> policy_allowed rt (lp_name p) \<and> required_capabilities p q \<subseteq> set (rt_capabilities rt) \<and>
            (''private_residency'' \<notin> required_capabilities p q \<or> rt_data_residency rt = ''private'') \<and>
            lp_max_output_tokens p \<le> rt_max_output_tokens rt \<and>
            tokens + lp_max_output_tokens p \<le> rt_max_context_tokens rt
        | _ \<Rightarrow> False))"

definition available_policy_names :: "logical_policy list \<Rightarrow> deployed_route list \<Rightarrow> bool \<Rightarrow> string list" where
  "available_policy_names ps routes redis_available =
     (if \<not> redis_available then []
      else sort (map lp_name (filter (\<lambda>p. list_ex (\<lambda>rt. rt_enabled rt \<and> policy_allowed rt (lp_name p) \<and>
          set (lp_required_capabilities p) \<subseteq> set (rt_capabilities rt) \<and>
          (''private_residency'' \<notin> set (lp_required_capabilities p) \<or> rt_data_residency rt = ''private'') \<and>
          lp_max_output_tokens p \<le> rt_max_output_tokens rt \<and> lp_max_output_tokens p \<le> rt_max_context_tokens rt \<and>
          (\<not> lp_thinking_enabled p \<or> ''thinking'' \<in> set (rt_capabilities rt)) \<and>
          (\<not> lp_requires_vision p \<or> ''vision'' \<in> set (rt_capabilities rt))) routes) ps)))"

section \<open>The provider\<close>

text \<open>What the HTTP client does with a request: it fails on the way, or an answer with its status, its
  \<open>Retry-After\<close> header as read by \<open>float\<close> and its body arrives.\<close>

record provider_answer =
  pa_status :: int
  pa_retry_after :: "pyfloat option"
  pa_body :: "json option"

datatype provider_net = ProviderUnreachable | ProviderRaised | ProviderAnswered provider_answer

datatype provider_outcome = Payload json | HttpStatusError int pyfloat | NetworkFailure | OtherFailure

record provider_http =
  px_endpoint :: string
  px_json :: json
  px_headers :: headers
  px_timeout :: rat

record http_provider =
  hp_net :: endpoint_net
  hp_post :: "nat \<Rightarrow> provider_http \<Rightarrow> provider_net"
  hp_peer :: "(nat \<Rightarrow> string option) option"
  hp_api_keys :: "(string \<times> string) list"

definition openai_compatible_provider :: string where
  "openai_compatible_provider = ''openai_compatible''"

definition outbound_request :: "deployed_route \<Rightarrow> json \<Rightarrow> json" where
  "outbound_request rt request =
     (case request of
        JObj d \<Rightarrow> if rt_provider rt = openai_compatible_provider \<and> \<not> has_key d ''model''
                  then JObj (d @ [(''model'', JStr (rt_model rt))]) else request
      | _ \<Rightarrow> request)"

definition extract_openai_content :: "json \<Rightarrow> json option" where
  "extract_openai_content payload =
     (case jget payload ''choices'' of
        JList (JObj c # _) \<Rightarrow> (case jget (dget c ''message'') ''content'' of JStr x \<Rightarrow> Some (JStr x) | _ \<Rightarrow> None)
      | _ \<Rightarrow> None)"

definition verify_provider_peer :: "http_provider \<Rightarrow> nat \<Rightarrow> (nat \<Rightarrow> string option) \<Rightarrow> string list \<Rightarrow> string \<Rightarrow> bool" where
  "verify_provider_peer hp i peer allowed endpoint =
     (case en_ip (hp_net hp) (case peer i of None \<Rightarrow> '''' | Some a \<Rightarrow> a) of
        None \<Rightarrow> False
      | Some (text, global) \<Rightarrow>
          global \<and> (text \<in> set allowed \<or>
            (case ensure_public_address (hp_net hp) (Suc i) endpoint ''MODEL_PROVIDER_ENDPOINT'' of
               Inl _ \<Rightarrow> False | Inr again \<Rightarrow> text \<in> set again)))"

definition retry_after_header :: "pyfloat option \<Rightarrow> pyfloat" where
  "retry_after_header v = (case v of Some (Fin q) \<Rightarrow> Fin (max 0 q) | Some PInf \<Rightarrow> PInf | _ \<Rightarrow> Fin 0)"

definition read_provider_answer :: "deployed_route \<Rightarrow> provider_answer \<Rightarrow> provider_outcome" where
  "read_provider_answer rt a =
     (if \<not> (200 \<le> pa_status a \<and> pa_status a < 300)
      then HttpStatusError (pa_status a) (retry_after_header (pa_retry_after a))
      else (case pa_body a of
          None \<Rightarrow> OtherFailure
        | Some payload \<Rightarrow>
            if rt_provider rt = openai_compatible_provider
            then (case extract_openai_content payload of None \<Rightarrow> OtherFailure | Some x \<Rightarrow> Payload x)
            else (case payload of JObj _ \<Rightarrow> Payload payload | JList _ \<Rightarrow> Payload payload | _ \<Rightarrow> OtherFailure)))"

text \<open>The request of a route, and the outcome of the call as \<open>ModelGateway\<close> tells its exceptions apart.\<close>

definition provider_request :: "http_provider \<Rightarrow> deployed_route \<Rightarrow> json \<Rightarrow> rat \<Rightarrow> provider_http" where
  "provider_request hp rt request timeout =
     \<lparr>px_endpoint = rt_endpoint rt, px_json = outbound_request rt request,
      px_headers = (case map_of (hp_api_keys hp) (rt_route_id rt) of
         Some k \<Rightarrow> if k = '''' then [] else [(''Authorization'', ''Bearer '' @ k)] | None \<Rightarrow> []),
      px_timeout = timeout\<rparr>"

definition provider_call :: "http_provider \<Rightarrow> nat \<Rightarrow> deployed_route \<Rightarrow> json \<Rightarrow> rat \<Rightarrow> provider_http option \<times> provider_outcome" where
  "provider_call hp i rt request timeout =
     (case ensure_public_address (hp_net hp) i (rt_endpoint rt) ''MODEL_PROVIDER_ENDPOINT'' of
        Inl _ \<Rightarrow> (None, OtherFailure)
      | Inr allowed \<Rightarrow>
          (case hp_peer hp of
             None \<Rightarrow> (None, OtherFailure)
           | Some peer \<Rightarrow>
               let q = provider_request hp rt request timeout
               in (Some q, case hp_post hp i q of
                    ProviderUnreachable \<Rightarrow> NetworkFailure
                  | ProviderRaised \<Rightarrow> OtherFailure
                  | ProviderAnswered a \<Rightarrow>
                      if verify_provider_peer hp i peer allowed (rt_endpoint rt) then read_provider_answer rt a
                      else OtherFailure)))"

section \<open>The gateway\<close>

record gateway_result =
  mr_status :: string
  mr_data :: "json option"
  mr_retry_after :: pyfloat
  mr_error_code :: "string option"

definition outcome :: "string \<Rightarrow> gateway_result" where
  "outcome x = \<lparr>mr_status = x, mr_data = None, mr_retry_after = Fin 0, mr_error_code = None\<rparr>"

definition refused :: "string \<Rightarrow> string \<Rightarrow> gateway_result" where
  "refused x code = (outcome x)\<lparr>mr_error_code := Some code\<rparr>"

record model_world =
  mw_now :: "nat \<Rightarrow> time"
  mw_epoch :: "nat \<Rightarrow> rat"
  mw_server :: "nat \<Rightarrow> rat"
  mw_monotonic :: "nat \<Rightarrow> rat"
  mw_fate :: "nat \<Rightarrow> fate"
  mw_db :: "nat \<Rightarrow> db \<Rightarrow> db"
  mw_redis :: "nat \<Rightarrow> redis \<Rightarrow> redis"
  mw_permits :: "nat \<Rightarrow> model_context \<Rightarrow> db \<Rightarrow> bool"
  mw_provider :: http_provider

text \<open>One entry per request: the interaction at which it was sent, what was sent, the store and the database as they
  were left when the permit and the usage row were marked as started, and the database the last check read.\<close>

record sent_call =
  sc_at :: nat
  sc_request :: provider_http
  sc_route :: deployed_route
  sc_usage :: string
  sc_permit :: string
  sc_held :: "redis \<times> db"
  sc_db :: db

record gateway =
  g_tick :: nat
  g_db :: db
  g_redis :: redis
  g_events :: "traffic_event list"
  g_log :: "sent_call list"

definition outside :: "model_world \<Rightarrow> gateway \<Rightarrow> gateway" where
  "outside w g = (let i = Suc (g_tick g) in
     g\<lparr>g_tick := i, g_db := mw_db w i (g_db g), g_redis := mw_redis w i (g_redis g)\<rparr>)"

definition now_of :: "model_world \<Rightarrow> gateway \<Rightarrow> time" where
  "now_of w g = mw_now w (g_tick g)"

text \<open>A call of Redis or of the database, after the others have acted.\<close>

definition on_redis ::
  "model_world \<Rightarrow> (fate \<Rightarrow> rat \<Rightarrow> rat \<Rightarrow> redis \<Rightarrow> permit_result \<times> traffic_event list \<times> redis) \<Rightarrow> gateway \<Rightarrow> permit_result \<times> gateway" where
  "on_redis w f g0 =
     (let g = outside w g0; i = g_tick g
      in case f (mw_fate w i) (mw_epoch w i) (mw_server w i) (g_redis g) of
           (r, ev, st) \<Rightarrow> (r, g\<lparr>g_redis := st, g_events := g_events g @ ev\<rparr>))"

definition no_event :: "permit_result \<times> redis \<Rightarrow> permit_result \<times> traffic_event list \<times> redis" where
  "no_event x = (fst x, [], snd x)"

definition on_db :: "model_world \<Rightarrow> (time \<Rightarrow> db \<Rightarrow> 'a \<times> db) \<Rightarrow> gateway \<Rightarrow> 'a \<times> gateway" where
  "on_db w f g0 = (let g = outside w g0 in case f (now_of w g) (g_db g) of (x, s) \<Rightarrow> (x, g\<lparr>g_db := s\<rparr>))"

definition deadline_expired :: "model_context \<Rightarrow> time \<Rightarrow> bool" where
  "deadline_expired c now = (case mc_request_deadline_at c of None \<Rightarrow> False | Some d \<Rightarrow> d \<le> now)"

definition can_send :: "model_world \<Rightarrow> model_context \<Rightarrow> nat \<Rightarrow> db \<Rightarrow> bool" where
  "can_send w c i s \<longleftrightarrow>
     mw_permits w i c s \<and> context_is_authoritative c (mw_now w i) s \<and> \<not> deadline_expired c (mw_now w i) \<and>
     mw_now w i < x_lease_expires_at (mc_lease c) \<and> can_write (mc_run_id c) (mc_lease c) (mw_now w i) s"

definition may_send :: "model_world \<Rightarrow> model_context \<Rightarrow> gateway \<Rightarrow> bool" where
  "may_send w c g = can_send w c (g_tick g) (g_db g)"

definition in_seconds :: "time \<Rightarrow> rat" where
  "in_seconds t = of_int t / 1000000"

fun shortest_window :: "time \<Rightarrow> rat \<Rightarrow> time option list \<Rightarrow> rat option" where
  "shortest_window now timeout [] = Some timeout"
| "shortest_window now timeout (None # ws) = shortest_window now timeout ws"
| "shortest_window now timeout (Some e # ws) =
     (if e - now \<le> 0 then None else shortest_window now (min timeout (in_seconds (e - now))) ws)"

definition model_timeout :: "deployed_route \<Rightarrow> model_context \<Rightarrow> time \<Rightarrow> rat option" where
  "model_timeout rt c now =
     shortest_window now (rt_timeout_seconds rt) [mc_request_deadline_at c, Some (x_lease_expires_at (mc_lease c))]"

definition wait_within_window :: "deployed_route \<Rightarrow> model_context \<Rightarrow> time \<Rightarrow> pyfloat \<Rightarrow> bool" where
  "wait_within_window rt c now retry_after =
     (case retry_after of
        Fin q \<Rightarrow> 0 < q \<and> (case model_timeout rt c now of None \<Rightarrow> False | Some t \<Rightarrow> q \<le> t)
      | _ \<Rightarrow> False)"

definition route_governance_error :: "model_context \<Rightarrow> deployed_route \<Rightarrow> prompt_definition option \<Rightarrow> string option" where
  "route_governance_error c rt prompt =
     (if \<not> rt_enabled rt then Some ''MODEL_ROUTE_EMERGENCY_DISABLED''
      else if rt_allowed_tenant_ids rt \<noteq> [] \<and> ''*'' \<notin> set (rt_allowed_tenant_ids rt) \<and> mc_tenant_id c \<notin> set (rt_allowed_tenant_ids rt) \<or>
              (case mc_required_data_residency c of None \<Rightarrow> False | Some x \<Rightarrow> rt_data_residency rt \<noteq> x)
      then Some ''MODEL_ROUTE_TENANT_DENIED''
      else if rt_allowed_model_policies rt \<noteq> [] \<and>
              (case prompt of None \<Rightarrow> True | Some p \<Rightarrow> pd_model_policy p \<notin> set (rt_allowed_model_policies rt))
      then Some ''MODEL_ROUTE_POLICY_DENIED''
      else if rt_route_id rt \<notin> mc_allowed_route_ids c then Some ''MODEL_ROUTE_NOT_DEPLOYED''
      else None)"

definition route_supports_prompt :: "logical_policy list \<Rightarrow> deployed_route \<Rightarrow> int \<Rightarrow> prompt_definition option \<Rightarrow> bool" where
  "route_supports_prompt ps rt tokens prompt \<longleftrightarrow> prompt = None \<or> available ps rt prompt tokens True"

definition provider_usage :: "json \<Rightarrow> int option \<times> int option" where
  "provider_usage payload =
     (case jget payload ''usage'' of
        JObj u \<Rightarrow>
          (case (as_int (dget_default u ''input_tokens'' (dget u ''prompt_tokens'')),
                 as_int (dget_default u ''output_tokens'' (dget u ''completion_tokens''))) of
             (Some i, Some o') \<Rightarrow> if i < 0 \<or> o' < 0 then (None, None) else (Some i, Some o')
           | _ \<Rightarrow> (None, None))
      | _ \<Rightarrow> (None, None))"

definition provider_request_identity :: "json \<Rightarrow> string option" where
  "provider_request_identity payload =
     (case payload of
        JObj d \<Rightarrow>
          (case dget_default d ''provider_request_id'' (dget d ''request_id'') of
             JStr x \<Rightarrow> if x = [] \<or> 120 < length x then None else Some x
           | _ \<Rightarrow> None)
      | _ \<Rightarrow> None)"

subsection \<open>Settling an attempt\<close>

record attempt =
  at_outcome :: string
  at_retry_after :: pyfloat
  at_tokens :: "int option \<times> int option"
  at_identity :: "string option"
  at_result :: gateway_result

definition aborted_attempt :: attempt where
  "aborted_attempt = \<lparr>at_outcome = ''aborted_before_send'', at_retry_after = Fin 0, at_tokens = (None, None), at_identity = None,
     at_result = outcome ''aborted_before_send''\<rparr>"

definition settle_usage :: "deployed_route \<Rightarrow> string \<Rightarrow> attempt \<Rightarrow> time \<Rightarrow> db \<Rightarrow> bool \<times> db" where
  "settle_usage rt uid a now s =
     (case settle uid (at_outcome a) (fst (at_tokens a)) (snd (at_tokens a))
         (if at_outcome a = ''succeeded'' then Some (model_route.truncate rt) else None) (at_identity a) s of
        Inl _ \<Rightarrow> (False, s)
      | Inr (x, s') \<Rightarrow> (x \<in> {''settled'', ''already_settled''}, s'))"

definition settle_slot ::
  "deployed_route \<Rightarrow> string \<Rightarrow> attempt \<Rightarrow> fate \<Rightarrow> rat \<Rightarrow> rat \<Rightarrow> redis \<Rightarrow> permit_result \<times> traffic_event list \<times> redis" where
  "settle_slot rt permit a fate now srv st =
     (case settle_permit rt permit (if at_outcome a = ''rate_limited'' then at_retry_after a else Fin 0) fate now srv st of
        Inl _ \<Rightarrow> (permit_result ''failed'', [], st)
      | Inr x \<Rightarrow> x)"

definition settle_activated_attempt ::
  "model_world \<Rightarrow> deployed_route \<Rightarrow> string \<Rightarrow> string \<Rightarrow> attempt \<Rightarrow> gateway \<Rightarrow> bool \<times> gateway" where
  "settle_activated_attempt w rt uid permit a g =
     (let (usage_settled, g1) = on_db w (settle_usage rt uid a) g;
          (r, g2) = on_redis w (settle_slot rt permit a) g1
      in (usage_settled \<and> pr_status r \<in> {''settled'', ''already_settled''}, g2))"

subsection \<open>One attempt\<close>

definition circuit_failed :: "model_world \<Rightarrow> deployed_route \<Rightarrow> gateway \<Rightarrow> gateway" where
  "circuit_failed w rt g = snd (on_redis w (record_circuit_failure rt) g)"

text \<open>What is made of the outcome of the provider.\<close>

definition after_provider :: "model_world \<Rightarrow> model_context \<Rightarrow> deployed_route \<Rightarrow> provider_outcome \<Rightarrow> gateway \<Rightarrow> attempt \<times> gateway" where
  "after_provider w c rt out g =
     (case out of
        HttpStatusError code delay \<Rightarrow>
          (let x = (if code = 429 then ''rate_limited'' else ''outcome_unknown'')
           in (aborted_attempt\<lparr>at_outcome := x, at_retry_after := delay,
                 at_result := (outcome x)\<lparr>mr_retry_after := delay\<rparr>\<rparr>,
               if 500 \<le> code then circuit_failed w rt g else g))
      | NetworkFailure \<Rightarrow>
          (aborted_attempt\<lparr>at_outcome := ''outcome_unknown'', at_result := outcome ''outcome_unknown''\<rparr>, circuit_failed w rt g)
      | OtherFailure \<Rightarrow> (aborted_attempt\<lparr>at_outcome := ''outcome_unknown'', at_result := outcome ''outcome_unknown''\<rparr>, g)
      | Payload payload \<Rightarrow>
          (let g1 = outside w g; identity = provider_request_identity payload
           in if \<not> may_send w c g1
              then (aborted_attempt\<lparr>at_outcome := ''outcome_unknown'', at_identity := identity,
                  at_result := outcome ''response_discarded''\<rparr>, g1)
              else (\<lparr>at_outcome = ''succeeded'', at_retry_after = Fin 0, at_tokens = provider_usage payload, at_identity = identity,
                  at_result = (outcome ''succeeded'')\<lparr>mr_data := Some payload\<rparr>\<rparr>, g1)))"

definition note_sent :: "deployed_route \<Rightarrow> string \<Rightarrow> string \<Rightarrow> redis \<times> db \<Rightarrow> provider_http option \<Rightarrow> gateway \<Rightarrow> gateway" where
  "note_sent rt uid permit held q g =
     (case q of None \<Rightarrow> g
      | Some r \<Rightarrow> g\<lparr>g_log := g_log g @ [\<lparr>sc_at = g_tick g, sc_request = r, sc_route = rt, sc_usage = uid, sc_permit = permit,
          sc_held = held, sc_db = g_db g\<rparr>]\<rparr>)"

definition send_request ::
  "model_world \<Rightarrow> model_context \<Rightarrow> deployed_route \<Rightarrow> json \<Rightarrow> string \<Rightarrow> string \<Rightarrow> redis \<times> db \<Rightarrow> rat \<Rightarrow> gateway \<Rightarrow> attempt \<times> gateway" where
  "send_request w c rt request uid permit held timeout g =
     (case provider_call (mw_provider w) (g_tick g) rt request timeout of
        (q, out) \<Rightarrow> after_provider w c rt out (note_sent rt uid permit held q g))"

text \<open>The checks between the permit and the request.\<close>

definition try_attempt ::
  "model_world \<Rightarrow> model_context \<Rightarrow> deployed_route \<Rightarrow> json \<Rightarrow> string \<Rightarrow> string \<Rightarrow> gateway \<Rightarrow> attempt \<times> gateway" where
  "try_attempt w c rt request uid permit g0 =
     (let g1 = outside w g0; g2 = outside w g1
      in if \<not> may_send w c g1 then (aborted_attempt, g1)
         else if \<not> may_send w c g2 then (aborted_attempt, g2)
         else (let (r, g3) = on_redis w (\<lambda>fate now srv st. no_event (mark_permit_started rt permit fate now srv st)) g2
           in if pr_status r \<noteq> ''started'' then (aborted_attempt, g3)
              else (let (ok, g4) = on_db w (\<lambda>now s. mark_started uid s) g3; g5 = outside w g4
                in if \<not> ok then (aborted_attempt, g4)
                   else if \<not> may_send w c g5 then (aborted_attempt, g5)
                   else (case model_timeout rt c (now_of w g5) of
                       None \<Rightarrow> (aborted_attempt, g5)
                     | Some t \<Rightarrow> send_request w c rt request uid permit (g_redis g3, g_db g4) t g5))))"

definition send_activated_attempt ::
  "model_world \<Rightarrow> model_context \<Rightarrow> deployed_route \<Rightarrow> json \<Rightarrow> string \<Rightarrow> string \<Rightarrow> gateway \<Rightarrow> gateway_result \<times> gateway" where
  "send_activated_attempt w c rt request uid permit g =
     (let (a, g1) = try_attempt w c rt request uid permit g;
          (settled, g2) = settle_activated_attempt w rt uid permit a g1
      in if \<not> settled \<and> mr_status (at_result a) = ''succeeded'' then (outcome ''outcome_unknown'', g2)
         else if mr_status (at_result a) = ''succeeded''
         then (at_result a, snd (on_redis w (record_circuit_success rt) g2))
         else (at_result a, g2))"

subsection \<open>One route\<close>

definition thinking_summary :: "logical_policy \<Rightarrow> deployed_route \<Rightarrow> dict" where
  "thinking_summary p rt =
     [(''thinking_enabled'', JBool (lp_thinking_enabled p)), (''max_output_tokens'', JInt (lp_max_output_tokens p)),
      (''input_token_budget'', JInt (rt_max_context_tokens rt - lp_max_output_tokens p)), (''normalization_version'', JStr ''v1'')]"

text \<open>The prompt is noted in the reserved usage row; \<open>False\<close> when the row cannot take it.\<close>

definition attach_prompt ::
  "logical_policy list \<Rightarrow> deployed_route \<Rightarrow> prompt_definition option \<Rightarrow> string \<Rightarrow> db \<Rightarrow> (runtime_error + bool) \<times> db" where
  "attach_prompt ps rt prompt uid s =
     (case prompt of
        None \<Rightarrow> (Inr True, s)
      | Some p \<Rightarrow>
          (case get_policy ps (pd_model_policy p) of
             None \<Rightarrow> (Inl (ValueError ''MODEL_POLICY_UNAVAILABLE''), s)
           | Some pol \<Rightarrow>
               (case attach_prompt_ref uid (pd_prompt_id p) (pd_version p) s of
                  Inl e \<Rightarrow> (Inl e, s)
                | Inr (ok, s1) \<Rightarrow>
                    if \<not> ok then (Inr False, s1)
                    else (case attach_thinking_summary uid (thinking_summary pol rt) s1 of
                        Inl e \<Rightarrow> (Inl e, s1)
                      | Inr (ok2, s2) \<Rightarrow> (Inr ok2, s2)))))"

definition circuit_refusal :: "permit_result \<Rightarrow> gateway_result option" where
  "circuit_refusal r =
     (if pr_status r = ''redis_unavailable'' then Some (refused ''capability_disabled'' ''MODEL_TRAFFIC_UNAVAILABLE'')
      else if pr_status r \<noteq> ''circuit_available'' then Some ((outcome (pr_status r))\<lparr>mr_retry_after := Fin (pr_retry_after r)\<rparr>)
      else None)"

text \<open>Everything that is checked before a reservation is made.\<close>

definition before_reservation ::
  "model_world \<Rightarrow> logical_policy list \<Rightarrow> model_context \<Rightarrow> deployed_route \<Rightarrow> prompt_definition option \<Rightarrow> gateway \<Rightarrow>
    gateway_result option \<times> gateway" where
  "before_reservation w ps c rt prompt g0 =
     (case route_governance_error c rt prompt of
        Some code \<Rightarrow>
          (Some (if code = ''MODEL_ROUTE_NOT_DEPLOYED'' then outcome ''route_not_allowed'' else refused ''governance_denied'' code), g0)
      | None \<Rightarrow>
          if \<not> route_supports_prompt ps rt (mc_estimated_input_tokens c) prompt
          then (Some (refused ''capability_disabled'' ''MODEL_CAPABILITY_UNAVAILABLE''), g0)
          else (let g1 = outside w g0
            in case ensure_public_address (hp_net (mw_provider w)) (g_tick g1) (rt_endpoint rt) ''MODEL_ENDPOINT'' of
                 Inl e \<Rightarrow> (Some ((outcome ''endpoint_rejected'')\<lparr>mr_error_code := (case e of ValueError m \<Rightarrow> Some m | _ \<Rightarrow> None)\<rparr>), g1)
               | Inr _ \<Rightarrow>
                   if deadline_expired c (now_of w g1) then (Some (outcome ''aborted_before_send''), g1)
                   else (let (r, g2) = on_redis w (\<lambda>fate now srv st. no_event (preflight_circuit rt fate now srv st)) g1;
                             g3 = outside w g2
                     in case circuit_refusal r of
                          Some x \<Rightarrow> (Some x, g2)
                        | None \<Rightarrow>
                            if \<not> mw_permits w (g_tick g3) c (g_db g3) then (Some (outcome ''aborted_before_send''), g3)
                            else (None, g3))))"

text \<open>From a reservation to the request; the reservation is cancelled or settled whenever this part returns. A call that
  raises leaves the gateway as it is at that moment.\<close>

type_synonym gateway_run = "(runtime_error + gateway_result) \<times> gateway"

definition with_permit ::
  "model_world \<Rightarrow> model_context \<Rightarrow> deployed_route \<Rightarrow> json \<Rightarrow> string \<Rightarrow> gateway \<Rightarrow> gateway_run" where
  "with_permit w c rt request uid g0 =
     (let (permit, s0) = uuid4 (g_db g0); g = outside w (g0\<lparr>g_db := s0\<rparr>); i = g_tick g
      in case Provider_Traffic.acquire rt permit (mc_estimated_input_tokens c) (mw_fate w i) (mw_epoch w i) (mw_server w i) (g_redis g) of
           Inl e \<Rightarrow> (Inl e, g)
         | Inr (r, ev, st) \<Rightarrow>
             (let g1 = g\<lparr>g_redis := st, g_events := g_events g @ ev\<rparr>
              in if pr_status r \<noteq> ''acquired'' then
                   (Inr (if pr_status r = ''redis_unavailable'' then refused ''capability_disabled'' ''MODEL_TRAFFIC_UNAVAILABLE''
                        else (outcome (pr_status r))\<lparr>mr_retry_after := Fin (pr_retry_after r)\<rparr>),
                        snd (on_db w (\<lambda>now s. cancel_reservation uid s) g1))
                 else
                   (let (ok, g2) = on_db w (\<lambda>now s. activate_reservation uid permit s) g1
                    in if \<not> ok
                       then (Inr (outcome ''aborted_before_send''), snd (on_redis w (settle_slot rt permit aborted_attempt) g2))
                       else (case send_activated_attempt w c rt request uid permit g2 of (res, g3) \<Rightarrow> (Inr res, g3)))))"

definition reserve_call :: "model_context \<Rightarrow> deployed_route \<Rightarrow> time \<Rightarrow> db \<Rightarrow> (string option \<times> string option) \<times> db" where
  "reserve_call c rt now s = (case reserve c (model_route.truncate rt) now s of (code, uid, s1) \<Rightarrow> ((code, uid), s1))"

definition call_route ::
  "model_world \<Rightarrow> logical_policy list \<Rightarrow> model_context \<Rightarrow> deployed_route \<Rightarrow> json \<Rightarrow> prompt_definition option \<Rightarrow> gateway \<Rightarrow>
    gateway_run" where
  "call_route w ps c rt request prompt g0 =
     (case before_reservation w ps c rt prompt g0 of
        (Some x, g) \<Rightarrow> (Inr x, g)
      | (None, g) \<Rightarrow>
          (case on_db w (reserve_call c rt) g of
             ((Some code, _), g1) \<Rightarrow> (Inr (refused ''policy_denied'' code), g1)
           | ((None, None), g1) \<Rightarrow> (Inr (outcome ''aborted_before_send''), g1)
           | ((None, Some uid), g1) \<Rightarrow>
               (case attach_prompt ps rt prompt uid (g_db g1) of
                  (Inl e, s1) \<Rightarrow> (Inl e, g1\<lparr>g_db := s1\<rparr>)
                | (Inr ok, s1) \<Rightarrow>
                    if \<not> ok then (Inr (outcome ''aborted_before_send''), snd (on_db w (\<lambda>now s. cancel_reservation uid s) (g1\<lparr>g_db := s1\<rparr>)))
                    else with_permit w c rt request uid (g1\<lparr>g_db := s1\<rparr>))))"

subsection \<open>A call\<close>

text \<open>A rate limited call waits once, when the delay fits into its windows, and tries the route again; the time it
  waited counts as active time of the run.\<close>

definition after_wait :: "model_world \<Rightarrow> model_context \<Rightarrow> gateway \<Rightarrow> gateway" where
  "after_wait w c g =
     (let g1 = outside w g;
          waited = max 0 (Runtime_Prelude.py_int ((mw_monotonic w (g_tick g1) - mw_monotonic w (g_tick g)) * 1000))
      in if waited \<noteq> 0 then snd (on_db w (record_active_elapsed c waited) g1) else g1)"

definition attempt_route ::
  "model_world \<Rightarrow> logical_policy list \<Rightarrow> model_context \<Rightarrow> deployed_route \<Rightarrow> json \<Rightarrow> prompt_definition option \<Rightarrow> gateway \<Rightarrow>
    gateway_run" where
  "attempt_route w ps c rt request prompt g0 =
     (case call_route w ps c rt request prompt g0 of
        (Inl e, g) \<Rightarrow> (Inl e, g)
      | (Inr res, g) \<Rightarrow>
          if mr_status res = ''rate_limited'' \<and> wait_within_window rt c (now_of w g) (mr_retry_after res)
          then call_route w ps c rt request prompt (after_wait w c g)
          else (Inr res, g))"

definition next_route :: "deployed_route \<Rightarrow> model_context \<Rightarrow> string list \<Rightarrow> gateway_result \<Rightarrow> string option" where
  "next_route rt c used res =
     (case rt_fallback_route_id rt of
        None \<Rightarrow> None
      | Some f \<Rightarrow> if mr_status res \<noteq> ''rate_limited'' \<or> f = [] \<or> f \<in> set used \<or> f \<notin> mc_allowed_route_ids c then None else Some f)"

text \<open>Every fallback is registered and new, so the chain ends.\<close>

lemma next_route_fresh: "next_route rt c used res = Some f \<Longrightarrow> f \<notin> set used \<and> f \<in> mc_allowed_route_ids c"
  by (auto simp: next_route_def split: option.split_asm if_split_asm)

lemma find_route_id: "find_route routes rid = Some rt \<Longrightarrow> rt_route_id rt = rid \<and> rt \<in> set routes"
  unfolding find_route_def by (auto dest: sel_one_SomeD)

function call_routes ::
  "model_world \<Rightarrow> logical_policy list \<Rightarrow> deployed_route list \<Rightarrow> model_context \<Rightarrow> json \<Rightarrow> prompt_definition option \<Rightarrow>
    string list \<Rightarrow> deployed_route \<Rightarrow> gateway \<Rightarrow> gateway_run" where
  "call_routes w ps routes c request prompt used rt g0 =
     (case attempt_route w ps c rt request prompt g0 of
        (Inl e, g) \<Rightarrow> (Inl e, g)
      | (Inr res, g) \<Rightarrow>
          (case next_route rt c (rt_route_id rt # used) res of
             None \<Rightarrow> (Inr res, g)
           | Some f \<Rightarrow>
               (case find_route routes f of
                  None \<Rightarrow> (Inl (ValueError ''MODEL_ROUTE_UNAVAILABLE''), g)
                | Some rt' \<Rightarrow> call_routes w ps routes c request prompt (rt_route_id rt # used) rt' g)))"
  by pat_completeness auto

termination call_routes
proof (relation "measure (\<lambda>(w, ps, routes, c, request, prompt, used, rt, g).
    card (set (map rt_route_id routes) - insert (rt_route_id rt) (set used)))", goal_cases)
  case (2 w ps routes c request prompt used rt g0 r g res f rt')
  then have "rt_route_id rt' \<notin> insert (rt_route_id rt) (set used)" "rt_route_id rt' \<in> set (map rt_route_id routes)"
    by (auto dest!: next_route_fresh find_route_id)
  then have "set (map rt_route_id routes) - insert (rt_route_id rt') (set (rt_route_id rt # used))
      \<subset> set (map rt_route_id routes) - insert (rt_route_id rt) (set used)"
    by auto
  then show ?case by (auto intro!: psubset_card_mono)
qed simp

definition model_call ::
  "model_world \<Rightarrow> logical_policy list \<Rightarrow> deployed_route list \<Rightarrow> model_context \<Rightarrow> string \<Rightarrow> json \<Rightarrow> prompt_definition option \<Rightarrow>
    gateway \<Rightarrow> gateway_run" where
  "model_call w ps routes c rid request prompt g =
     (case get_route routes rid of Inl e \<Rightarrow> (Inl e, g) | Inr rt \<Rightarrow> call_routes w ps routes c request prompt [] rt g)"

definition context_token_budget :: "logical_policy list \<Rightarrow> deployed_route list \<Rightarrow> string \<Rightarrow> prompt_definition \<Rightarrow> runtime_error + int" where
  "context_token_budget ps routes rid prompt =
     res_bind (get_route routes rid) (\<lambda>rt.
       (case get_policy ps (pd_model_policy prompt) of
          None \<Rightarrow> Inl (ValueError ''MODEL_POLICY_UNAVAILABLE'')
        | Some p \<Rightarrow>
            res_bind (ensure (lp_max_output_tokens p \<le> rt_max_output_tokens rt) (ValueError ''MODEL_CONTEXT_BUDGET_UNAVAILABLE'')) (\<lambda>_.
            res_bind (ensure (0 < rt_max_context_tokens rt - lp_max_output_tokens p) (ValueError ''MODEL_CONTEXT_BUDGET_UNAVAILABLE'')) (\<lambda>_.
            Inr (rt_max_context_tokens rt - lp_max_output_tokens p)))))"

definition capability_available ::
  "model_world \<Rightarrow> logical_policy list \<Rightarrow> deployed_route list \<Rightarrow> string \<Rightarrow> prompt_definition \<Rightarrow> int \<Rightarrow> gateway \<Rightarrow>
    runtime_error + (bool \<times> gateway)" where
  "capability_available w ps routes rid prompt tokens g =
     res_bind (get_route routes rid) (\<lambda>rt.
       (case on_redis w (\<lambda>fate now srv st. no_event (preflight_circuit rt fate now srv st)) g of
          (r, g1) \<Rightarrow> Inr (available ps rt (Some prompt) tokens (pr_status r = ''circuit_available''), g1)))"

definition record_validation_rejection :: "string \<Rightarrow> string list \<Rightarrow> traffic_event list" where
  "record_validation_rejection rid codes =
     (if codes = [] then []
      else (''semantic_validation_rejected'', rid, ''SEMANTIC_VALIDATION_FAILED'') #
        (if set codes \<inter> {''FORBIDDEN_CONTROL_FIELD'', ''TOOL_PARAMETERS_FORBIDDEN''} \<noteq> {}
         then [(''prompt_injection_rejected'', rid, ''INDIRECT_PROMPT_INJECTION'')] else []))"

section \<open>What a call sends\<close>

text \<open>\<open>logs n P g g'\<close>: between \<open>g\<close> and \<open>g'\<close> at most \<open>n\<close> requests were sent, all as \<open>P\<close> says.\<close>

definition logs :: "nat \<Rightarrow> (sent_call \<Rightarrow> bool) \<Rightarrow> gateway \<Rightarrow> gateway \<Rightarrow> bool" where
  "logs n P g g' \<longleftrightarrow> (\<exists>es. g_log g' = g_log g @ es \<and> length es \<le> n \<and> (\<forall>e\<in>set es. P e))"

lemma logs_same: "g_log g' = g_log g \<Longrightarrow> logs n P g g'"
  by (simp add: logs_def)

lemma logs_trans:
  assumes "logs m P g h" "logs n P h k"
  shows "logs (m + n) P g k"
proof -
  from assms obtain es fs where "g_log h = g_log g @ es" "length es \<le> m" "\<forall>e\<in>set es. P e"
    "g_log k = g_log h @ fs" "length fs \<le> n" "\<forall>e\<in>set fs. P e" by (auto simp: logs_def)
  then show ?thesis unfolding logs_def by (intro exI [of _ "es @ fs"]) auto
qed

lemma logs_mono: "logs m P g h \<Longrightarrow> m \<le> n \<Longrightarrow> (\<And>e. P e \<Longrightarrow> Q e) \<Longrightarrow> logs n Q g h"
  unfolding logs_def by (meson order_trans)

lemma logs_from: "logs n P g h \<Longrightarrow> g_log g = g_log g0 \<Longrightarrow> logs n P g0 h"
  by (simp add: logs_def)

lemma outside_log [simp]: "g_log (outside w g) = g_log g"
  by (simp add: outside_def Let_def)

lemma on_redis_log: "on_redis w f g = (r, g') \<Longrightarrow> g_log g' = g_log g"
  by (auto simp: on_redis_def Let_def split: prod.split_asm)

lemma on_db_log: "on_db w f g = (r, g') \<Longrightarrow> g_log g' = g_log g"
  by (auto simp: on_db_def Let_def split: prod.split_asm)

lemma on_redis_script:
  assumes "on_redis w (\<lambda>fate now srv st. no_event (f fate now srv st)) g = (r, g')"
  shows "f (mw_fate w (g_tick (outside w g))) (mw_epoch w (g_tick (outside w g))) (mw_server w (g_tick (outside w g)))
     (g_redis (outside w g)) = (r, g_redis g')"
  using assms by (auto simp: on_redis_def no_event_def Let_def prod_eq_iff)

lemma snd_log [simp]: "g_log (snd (on_redis w f g)) = g_log g" "g_log (snd (on_db w f' g)) = g_log g"
  by (metis on_redis_log prod.collapse, metis on_db_log prod.collapse)

lemma after_provider_log: "after_provider w c rt out g = (a, g') \<Longrightarrow> g_log g' = g_log g"
  by (auto simp: after_provider_def circuit_failed_def Let_def split: provider_outcome.split_asm if_split_asm)

definition guarded_call :: "model_world \<Rightarrow> model_context \<Rightarrow> deployed_route \<Rightarrow> sent_call \<Rightarrow> bool" where
  "guarded_call w c rt e \<longleftrightarrow> sc_route e = rt \<and> can_send w c (sc_at e) (sc_db e) \<and>
     permit_state (fst (sc_held e)) (sc_permit e) = Some ''started'' \<and> permit_route (fst (sc_held e)) (sc_permit e) = Some (rt_route_id rt) \<and>
     (\<exists>u\<in>set (usages (snd (sc_held e))). usage_id u = sc_usage e \<and> u_status u = ''started'') \<and>
     model_timeout rt c (mw_now w (sc_at e)) = Some (px_timeout (sc_request e)) \<and> px_endpoint (sc_request e) = rt_endpoint rt \<and>
     (\<exists>ips. ensure_public_address (hp_net (mw_provider w)) (sc_at e) (rt_endpoint rt) ''MODEL_PROVIDER_ENDPOINT'' = Inr ips)"

lemma script_started_permit:
  assumes "script_started rt p now srv st = (Some (''started'', d), st')"
  shows "permit_state st' p = Some ''started'' \<and> permit_route st' p = Some (rt_route_id rt)"
proof -
  let ?st1 = "reap_expired_permits (rt_rate_limit_key rt) now srv st"
  have "permit_state ?st1 p = Some ''acquired''" "permit_route ?st1 p = Some (rt_route_id rt)"
    "st' = set_permit_state p ''started'' ?st1"
    using assms by (auto simp: script_started_def Let_def split: option.split_asm if_split_asm)
  then show ?thesis by (auto simp: set_permit_state_def permit_state_def permit_route_def split: option.split)
qed

lemma permit_started:
  assumes "mark_permit_started rt p fate now srv st = (r, st')" "pr_status r = ''started''"
  shows "permit_state st' p = Some ''started'' \<and> permit_route st' p = Some (rt_route_id rt)"
proof -
  from assms obtain d where "script_started rt p now srv (expire_keys srv st) = (Some (''started'', d), st')"
    by (auto simp: mark_permit_started_def run_script_def permit_result_def split: if_split_asm prod.split_asm option.split_asm)
  then show ?thesis by (rule script_started_permit)
qed

lemma usage_started:
  assumes "mark_started uid s = (True, s')"
  shows "\<exists>u\<in>set (usages s'). usage_id u = uid \<and> u_status u = ''started''"
proof -
  from assms have "0 < rowcount (\<lambda>u. usage_id u = uid \<and> u_status u = ''running'') (usages s)"
    and s': "s' = snd (upd_usage uid (\<lambda>u. u_status u = ''running'') (\<lambda>u. u\<lparr>u_status := ''started''\<rparr>) s)"
    by (auto simp: mark_started_def upd_usage_def)
  then obtain u where u: "u \<in> set (usages s)" "usage_id u = uid" "u_status u = ''running''"
    by (auto simp: rowcount_def filter_empty_conv)
  then have "u\<lparr>u_status := ''started''\<rparr> \<in> set (usages s')"
    unfolding s' upd_usage_def by (auto simp: set_upd_where intro!: image_eqI [of _ _ u])
  with u show ?thesis by (intro bexI [of _ "u\<lparr>u_status := ''started''\<rparr>"]) simp_all
qed

lemma send_request_logs:
  assumes run: "send_request w c rt request uid permit held t g = (a, g')" and may: "may_send w c g"
    and permit: "permit_state (fst held) permit = Some ''started''" "permit_route (fst held) permit = Some (rt_route_id rt)"
    and usage: "\<exists>u\<in>set (usages (snd held)). usage_id u = uid \<and> u_status u = ''started''"
    and t: "model_timeout rt c (now_of w g) = Some t"
  shows "logs 1 (guarded_call w c rt) g g'"
proof -
  obtain q out where call: "provider_call (mw_provider w) (g_tick g) rt request t = (q, out)" by fastforce
  then have log: "g_log g' = g_log (note_sent rt uid permit held q g)"
    using run after_provider_log by (auto simp: send_request_def)
  show ?thesis
  proof (cases q)
    case None
    with log show ?thesis by (intro logs_same) (simp add: note_sent_def)
  next
    case (Some r)
    let ?e = "\<lparr>sc_at = g_tick g, sc_request = r, sc_route = rt, sc_usage = uid, sc_permit = permit, sc_held = held, sc_db = g_db g\<rparr>"
    from call Some have "r = provider_request (mw_provider w) rt request t"
      "\<exists>ips. ensure_public_address (hp_net (mw_provider w)) (g_tick g) (rt_endpoint rt) ''MODEL_PROVIDER_ENDPOINT'' = Inr ips"
      by (auto simp: provider_call_def Let_def split: sum.split_asm option.split_asm)
    then have "guarded_call w c rt ?e"
      using may permit usage t by (simp add: guarded_call_def may_send_def now_of_def provider_request_def)
    moreover have "g_log g' = g_log g @ [?e]" using log Some by (simp add: note_sent_def)
    ultimately show ?thesis by (simp add: logs_def)
  qed
qed

lemma try_attempt_logs:
  assumes "try_attempt w c rt request uid permit g0 = (a, g')"
  shows "logs 1 (guarded_call w c rt) g0 g'"
proof -
  let ?g1 = "outside w g0" and ?g2 = "outside w (outside w g0)"
  obtain r g3 where r: "on_redis w (\<lambda>fate now srv st. no_event (mark_permit_started rt permit fate now srv st)) ?g2 = (r, g3)"
    by fastforce
  obtain ok g4 where ok: "on_db w (\<lambda>now s. mark_started uid s) g3 = (ok, g4)" by fastforce
  have l3: "g_log g3 = g_log g0" and l4: "g_log g4 = g_log g0" using on_redis_log [OF r] on_db_log [OF ok] by simp_all
  consider (aborted) "g' \<in> {?g1, ?g2, g3, g4, outside w g4}"
    | (sent) t where "pr_status r = ''started''" "ok" "may_send w c (outside w g4)" "model_timeout rt c (now_of w (outside w g4)) = Some t"
        "send_request w c rt request uid permit (g_redis g3, g_db g4) t (outside w g4) = (a, g')"
    using assms r ok by (auto simp: try_attempt_def Let_def split: if_split_asm option.split_asm)
  then show ?thesis
  proof cases
    case aborted
    with l3 l4 show ?thesis by (intro logs_same) auto
  next
    case sent
    have "permit_state (g_redis g3) permit = Some ''started'' \<and> permit_route (g_redis g3) permit = Some (rt_route_id rt)"
      by (rule permit_started [OF on_redis_script [OF r] sent(1)])
    moreover have "\<exists>u\<in>set (usages (g_db g4)). usage_id u = uid \<and> u_status u = ''started''"
      using ok sent(2) by (intro usage_started) (auto simp: on_db_def Let_def split: prod.split_asm)
    ultimately have "logs 1 (guarded_call w c rt) (outside w g4) g'"
      by (intro send_request_logs [OF sent(5,3) _ _ _ sent(4)]) simp_all
    then show ?thesis by (rule logs_from) (simp add: l4)
  qed
qed

lemma settle_activated_parts:
  assumes "settle_activated_attempt w rt uid permit a g = (ok, g2)"
  obtains b g1 r where "on_db w (settle_usage rt uid a) g = (b, g1)" "on_redis w (settle_slot rt permit a) g1 = (r, g2)"
    "ok \<longleftrightarrow> b \<and> pr_status r \<in> {''settled'', ''already_settled''}"
proof -
  obtain b g1 where 1: "on_db w (settle_usage rt uid a) g = (b, g1)" by fastforce
  obtain r h where 2: "on_redis w (settle_slot rt permit a) g1 = (r, h)" by fastforce
  from assms 1 2 have "h = g2" "ok \<longleftrightarrow> b \<and> pr_status r \<in> {''settled'', ''already_settled''}"
    by (simp_all add: settle_activated_attempt_def)
  with 1 2 that show ?thesis by blast
qed

lemma send_activated_logs:
  assumes "send_activated_attempt w c rt request uid permit g = (res, g')"
  shows "logs 1 (guarded_call w c rt) g g'"
proof -
  obtain a g1 where a: "try_attempt w c rt request uid permit g = (a, g1)" by fastforce
  obtain ok g2 where s: "settle_activated_attempt w rt uid permit a g1 = (ok, g2)" by fastforce
  have "g_log g2 = g_log g1"
    using s by (metis settle_activated_parts on_db_log on_redis_log)
  moreover have "g_log g' = g_log g2"
    using assms a s by (auto simp: send_activated_attempt_def Let_def split: if_split_asm)
  ultimately show ?thesis using try_attempt_logs [OF a] by (simp add: logs_def)
qed

lemma with_permit_logs:
  assumes "with_permit w c rt request uid g = (res, g')"
  shows "logs 1 (guarded_call w c rt) g g'" "\<exists>e. res = Inl e \<Longrightarrow> g_log g' = g_log g"
proof -
  obtain permit s0 where u: "uuid4 (g_db g) = (permit, s0)" by fastforce
  let ?g = "outside w (g\<lparr>g_db := s0\<rparr>)"
  obtain acq where
    a: "Provider_Traffic.acquire rt permit (mc_estimated_input_tokens c) (mw_fate w (g_tick ?g)) (mw_epoch w (g_tick ?g))
      (mw_server w (g_tick ?g)) (g_redis ?g) = acq" by blast
  have "logs 1 (guarded_call w c rt) g g' \<and> ((\<exists>e. res = Inl e) \<longrightarrow> g_log g' = g_log g)"
  proof (cases acq)
    case (Inl e)
    with assms u a have "g' = ?g" by (auto simp: with_permit_def Let_def)
    then have "g_log g' = g_log g" by simp
    then show ?thesis by (simp add: logs_same)
  next
    case (Inr b)
    obtain r ev st where b: "b = (r, ev, st)" by (metis prod_cases3)
    let ?g1 = "?g\<lparr>g_redis := st, g_events := g_events ?g @ ev\<rparr>"
    obtain ok g2 where d: "on_db w (\<lambda>now s. activate_reservation uid permit s) ?g1 = (ok, g2)" by fastforce
    have l: "g_log g2 = g_log g" using on_db_log [OF d] by simp
    show ?thesis
    proof (cases "pr_status r = ''acquired'' \<and> ok")
      case True
      obtain r3 g3 where "send_activated_attempt w c rt request uid permit g2 = (r3, g3)" by fastforce
      with assms u a d Inr b True have sa: "send_activated_attempt w c rt request uid permit g2 = (r3, g')" "res = Inr r3"
        by (simp_all add: with_permit_def Let_def)
      from logs_from [OF send_activated_logs [OF sa(1)] l] sa(2) show ?thesis by simp
    next
      case False
      with assms u a d l Inr b have "g_log g' = g_log g"
        by (auto simp: with_permit_def Let_def split: if_split_asm)
      then show ?thesis by (simp add: logs_same)
    qed
  qed
  then show "logs 1 (guarded_call w c rt) g g'" "\<exists>e. res = Inl e \<Longrightarrow> g_log g' = g_log g" by blast+
qed

lemma before_reservation_log:
  assumes "before_reservation w ps c rt prompt g = (x, g')"
  shows "g_log g' = g_log g" and "(\<And>i s. mw_db w i s = s) \<Longrightarrow> g_db g' = g_db g"
proof -
  obtain r g2 where r: "on_redis w (\<lambda>fate now srv st. no_event (preflight_circuit rt fate now srv st)) (outside w g) = (r, g2)"
    by fastforce
  have "g' \<in> {g, outside w g, g2, outside w g2}"
    using assms r by (auto simp: before_reservation_def Let_def split: option.split_asm if_split_asm sum.split_asm)
  then show "g_log g' = g_log g" "(\<And>i s. mw_db w i s = s) \<Longrightarrow> g_db g' = g_db g"
    using on_redis_log [OF r] r by (auto simp: on_redis_def outside_def Let_def split: prod.split_asm)
qed

lemma before_reservation_passed:
  assumes "before_reservation w ps c rt prompt g = (None, g')"
  shows "route_governance_error c rt prompt = None \<and> route_supports_prompt ps rt (mc_estimated_input_tokens c) prompt"
  using assms by (auto simp: before_reservation_def Let_def split: option.split_asm if_split_asm)

text \<open>The request of a call as its route governs it.\<close>

definition governed_call ::
  "model_world \<Rightarrow> logical_policy list \<Rightarrow> model_context \<Rightarrow> prompt_definition option \<Rightarrow> sent_call \<Rightarrow> bool" where
  "governed_call w ps c prompt e \<longleftrightarrow> guarded_call w c (sc_route e) e \<and> route_governance_error c (sc_route e) prompt = None \<and>
     route_supports_prompt ps (sc_route e) (mc_estimated_input_tokens c) prompt"

lemma call_route_logs:
  assumes "call_route w ps c rt request prompt g = (res, g')"
  shows "logs 1 (\<lambda>e. governed_call w ps c prompt e \<and> sc_route e = rt) g g'"
proof -
  obtain x g1 where b: "before_reservation w ps c rt prompt g = (x, g1)" by fastforce
  obtain code uid g2 where d: "on_db w (reserve_call c rt) g1 = ((code, uid), g2)" by (metis surj_pair)
  have l: "g_log g2 = g_log g" using before_reservation_log(1) [OF b] on_db_log [OF d] by simp
  show ?thesis
  proof (cases "x = None \<and> code = None \<and> (\<exists>u s1. uid = Some u \<and> attach_prompt ps rt prompt u (g_db g2) = (Inr True, s1))")
    case False
    then have "g_log g' = g_log g"
      using assms b d l before_reservation_log(1) [OF b]
      by (auto simp: call_route_def split: option.split_asm sum.split_asm prod.split_asm if_split_asm)
    then show ?thesis by (rule logs_same)
  next
    case True
    then obtain u s1 where t: "x = None" "code = None" "uid = Some u" "attach_prompt ps rt prompt u (g_db g2) = (Inr True, s1)"
      by blast
    with assms b d have "with_permit w c rt request u (g2\<lparr>g_db := s1\<rparr>) = (res, g')" by (simp add: call_route_def)
    then have "logs 1 (guarded_call w c rt) (g2\<lparr>g_db := s1\<rparr>) g'" by (rule with_permit_logs)
    then have "logs 1 (guarded_call w c rt) g g'" by (rule logs_from) (simp add: l)
    moreover have "route_governance_error c rt prompt = None \<and> route_supports_prompt ps rt (mc_estimated_input_tokens c) prompt"
      using b t(1) by (auto dest: before_reservation_passed)
    ultimately show ?thesis
      by (elim logs_mono) (auto simp: governed_call_def guarded_call_def)
  qed
qed

lemma attempt_route_logs:
  assumes "attempt_route w ps c rt request prompt g = (res, g')"
  shows "logs 2 (\<lambda>e. governed_call w ps c prompt e \<and> sc_route e = rt) g g'"
proof -
  obtain res1 g1 where c: "call_route w ps c rt request prompt g = (res1, g1)" by fastforce
  note l1 = call_route_logs [OF c]
  show ?thesis
  proof (cases "\<exists>x. res1 = Inr x \<and> mr_status x = ''rate_limited'' \<and> wait_within_window rt c (now_of w g1) (mr_retry_after x)")
    case False
    with assms c have "g' = g1" by (auto simp: attempt_route_def split: sum.split_asm if_split_asm)
    with l1 show ?thesis by (auto elim: logs_mono)
  next
    case True
    with assms c have "call_route w ps c rt request prompt (after_wait w c g1) = (res, g')" by (auto simp: attempt_route_def)
    moreover have "g_log (after_wait w c g1) = g_log g1" by (simp add: after_wait_def Let_def)
    ultimately have "logs 1 (\<lambda>e. governed_call w ps c prompt e \<and> sc_route e = rt) g1 g'"
      by (metis call_route_logs logs_from)
    from logs_trans [OF l1 this] show ?thesis by (simp add: numeral_2_eq_2)
  qed
qed

definition routes_left :: "deployed_route list \<Rightarrow> string list \<Rightarrow> deployed_route \<Rightarrow> nat" where
  "routes_left routes used rt = card (set (map rt_route_id routes) - insert (rt_route_id rt) (set used))"

lemma routes_left_less:
  assumes "next_route rt c (rt_route_id rt # used) res = Some f" "find_route routes f = Some rt'"
  shows "routes_left routes (rt_route_id rt # used) rt' < routes_left routes used rt"
proof -
  have "rt_route_id rt' \<notin> insert (rt_route_id rt) (set used)" "rt_route_id rt' \<in> set (map rt_route_id routes)"
    using next_route_fresh [OF assms(1)] find_route_id [OF assms(2)] by auto
  then have "set (map rt_route_id routes) - insert (rt_route_id rt') (set (rt_route_id rt # used))
      \<subset> set (map rt_route_id routes) - insert (rt_route_id rt) (set used)" by auto
  then show ?thesis unfolding routes_left_def by (rule psubset_card_mono [rotated]) simp
qed

text \<open>The requests of a chain of routes: how many in all and how many per route.\<close>

definition sent_per_route :: "string \<Rightarrow> sent_call list \<Rightarrow> nat" where
  "sent_per_route i es = length (filter (\<lambda>e. rt_route_id (sc_route e) = i) es)"

lemma sent_per_route_append [simp]: "sent_per_route i (a @ b) = sent_per_route i a + sent_per_route i b"
  by (simp add: sent_per_route_def)

lemma sent_per_route_none: "(\<And>e. e \<in> set es \<Longrightarrow> rt_route_id (sc_route e) \<noteq> i) \<Longrightarrow> sent_per_route i es = 0"
  by (auto simp: sent_per_route_def filter_empty_conv)

lemma sent_per_route_le: "sent_per_route i es \<le> length es"
  by (simp add: sent_per_route_def)

lemma call_routes_logs:
  assumes "call_routes w ps routes c request prompt used rt g = (res, g')" "rt \<in> set routes" "rt_route_id rt \<notin> set used"
  shows "\<exists>es. g_log g' = g_log g @ es \<and> length es \<le> 2 + 2 * routes_left routes used rt \<and>
    (\<forall>i. sent_per_route i es \<le> 2) \<and>
    (\<forall>e\<in>set es. governed_call w ps c prompt e \<and> sc_route e \<in> set routes \<and> rt_route_id (sc_route e) \<notin> set used)"
  using assms
proof (induction w ps routes c request prompt used rt g rule: call_routes.induct)
  case (1 w ps routes c request prompt used rt g)
  obtain res1 g1 where a: "attempt_route w ps c rt request prompt g = (res1, g1)" by fastforce
  from attempt_route_logs [OF a] obtain es1 where es1: "g_log g1 = g_log g @ es1" "length es1 \<le> 2"
    "\<forall>e\<in>set es1. governed_call w ps c prompt e \<and> sc_route e = rt" by (auto simp: logs_def)
  have c1: "sent_per_route i es1 \<le> 2" for i using sent_per_route_le [of i es1] es1(2) by linarith
  note step = "1.prems"(1) [unfolded call_routes.simps [of w ps routes c request prompt used rt g] a prod.case]
  show ?case
  proof (cases "\<exists>x f rt'. res1 = Inr x \<and> next_route rt c (rt_route_id rt # used) x = Some f \<and> find_route routes f = Some rt'")
    case False
    with step have "g' = g1" by (auto split: sum.split_asm option.split_asm)
    with es1 c1 "1.prems"(2,3) show ?thesis by (intro exI [of _ es1]) auto
  next
    case True
    then obtain x f rt' where n: "res1 = Inr x" "next_route rt c (rt_route_id rt # used) x = Some f"
      "find_route routes f = Some rt'" by blast
    with step have rest: "call_routes w ps routes c request prompt (rt_route_id rt # used) rt' g1 = (res, g')" by simp
    have rt': "rt' \<in> set routes" "rt_route_id rt' \<notin> set (rt_route_id rt # used)"
      using find_route_id [OF n(3)] next_route_fresh [OF n(2)] by auto
    from "1.IH" [OF a [symmetric, unfolded n(1)] refl n(2,3) rest rt'] obtain es2 where
      es2: "g_log g' = g_log g1 @ es2" "length es2 \<le> 2 + 2 * routes_left routes (rt_route_id rt # used) rt'"
      "\<forall>i. sent_per_route i es2 \<le> 2"
      "\<forall>e\<in>set es2. governed_call w ps c prompt e \<and> sc_route e \<in> set routes \<and> rt_route_id (sc_route e) \<notin> set (rt_route_id rt # used)"
      by blast
    have "sent_per_route i (es1 @ es2) \<le> 2" for i
    proof (cases "i = rt_route_id rt")
      case True
      then have "sent_per_route i es2 = 0" using es2(4) by (intro sent_per_route_none) auto
      with c1 show ?thesis by simp
    next
      case False
      then have "sent_per_route i es1 = 0" using es1(3) by (intro sent_per_route_none) auto
      with es2(3) show ?thesis by simp
    qed
    moreover have "length (es1 @ es2) \<le> 2 + 2 * routes_left routes used rt"
      using es1(2) es2(2) routes_left_less [OF n(2,3)] by simp
    ultimately show ?thesis
      using es1 es2 "1.prems"(2,3) by (intro exI [of _ "es1 @ es2"]) auto
  qed
qed

lemma model_call_logs:
  assumes "model_call w ps routes c rid request prompt g = (res, g')"
  shows "\<exists>es. g_log g' = g_log g @ es \<and> length es \<le> 2 * length routes \<and> (\<forall>i. sent_per_route i es \<le> 2) \<and>
    (\<forall>e\<in>set es. governed_call w ps c prompt e \<and> sc_route e \<in> set routes)"
proof (cases "find_route routes rid")
  case None
  with assms have "g' = g" by (auto simp: model_call_def get_route_def split: sum.split_asm)
  then show ?thesis by (intro exI [of _ "[]"]) (simp add: sent_per_route_def)
next
  case (Some rt)
  with assms have run: "call_routes w ps routes c request prompt [] rt g = (res, g')"
    by (simp add: model_call_def get_route_def)
  have mem: "rt \<in> set routes" using find_route_id [OF Some] by simp
  have "routes_left routes [] rt < card (set (map rt_route_id routes))"
    unfolding routes_left_def by (rule psubset_card_mono) (use mem in auto)
  also have "\<dots> \<le> length routes" by (metis card_length length_map)
  finally have len: "2 + 2 * routes_left routes [] rt \<le> 2 * length routes" by simp
  from call_routes_logs [OF run mem] obtain es where "g_log g' = g_log g @ es" "length es \<le> 2 + 2 * routes_left routes [] rt"
    "\<forall>i. sent_per_route i es \<le> 2" "\<forall>e\<in>set es. governed_call w ps c prompt e \<and> sc_route e \<in> set routes" by auto
  with len show ?thesis by (intro exI [of _ es]) auto
qed

lemma shortest_window_bounds:
  "shortest_window now timeout ws = Some t \<Longrightarrow> t \<le> timeout \<and> (\<forall>e. Some e \<in> set ws \<longrightarrow> now < e \<and> t \<le> in_seconds (e - now))"
proof (induction now timeout ws rule: shortest_window.induct)
  case (3 now timeout e ws)
  then show ?case by (auto split: if_split_asm)
qed auto

lemma shortest_window_pos: "shortest_window now timeout ws = Some t \<Longrightarrow> 0 < timeout \<Longrightarrow> 0 < t"
proof (induction now timeout ws rule: shortest_window.induct)
  case (3 now timeout e ws)
  then show ?case by (auto simp: in_seconds_def split: if_split_asm)
qed auto

text \<open>C30. Every request a model call sends, whether the call returns or raises in the end, is covered when it is sent: its route is registered, enabled, open to the tenant, the
  residency and the policy of the run and on the list frozen with the run, and can serve the prompt; the
  guard of the Worker, the authoritative step, the lease, the privacy and package state and the deadline
  were checked directly before on the database as it then was; the permit and the usage row had been started;
  the endpoint resolved to public addresses only; the timeout is positive and ends before the route's own
  limit, the deadline and the lease. Each route is sent at most two requests.\<close>

theorem model_calls_guarded:
  assumes call: "model_call w ps routes c rid request prompt g = (res, g')"
    and ok: "list_all (deployed_route_ok (hp_net (mw_provider w))) routes"
  shows "length (g_log g') \<le> length (g_log g) + 2 * length routes \<and>
    take (length (g_log g)) (g_log g') = g_log g \<and>
    (\<forall>i. length (filter (\<lambda>e. rt_route_id (sc_route e) = i) (drop (length (g_log g)) (g_log g'))) \<le> 2) \<and>
    (\<forall>e \<in> set (drop (length (g_log g)) (g_log g')).
      sc_route e \<in> set routes \<and> route_governance_error c (sc_route e) prompt = None \<and>
      (prompt \<noteq> None \<longrightarrow> available ps (sc_route e) prompt (mc_estimated_input_tokens c) True) \<and>
      mw_permits w (sc_at e) c (sc_db e) \<and> context_is_authoritative c (mw_now w (sc_at e)) (sc_db e) \<and>
      can_write (mc_run_id c) (mc_lease c) (mw_now w (sc_at e)) (sc_db e) \<and>
      permit_state (fst (sc_held e)) (sc_permit e) = Some ''started'' \<and>
      (\<exists>u\<in>set (usages (snd (sc_held e))). usage_id u = sc_usage e \<and> u_status u = ''started'') \<and>
      px_endpoint (sc_request e) = rt_endpoint (sc_route e) \<and>
      (\<exists>ips. ensure_public_address (hp_net (mw_provider w)) (sc_at e) (rt_endpoint (sc_route e)) ''MODEL_PROVIDER_ENDPOINT'' = Inr ips) \<and>
      0 < px_timeout (sc_request e) \<and> px_timeout (sc_request e) \<le> rt_timeout_seconds (sc_route e) \<and>
      px_timeout (sc_request e) \<le> in_seconds (x_lease_expires_at (mc_lease c) - mw_now w (sc_at e)) \<and>
      (\<forall>d. mc_request_deadline_at c = Some d \<longrightarrow> px_timeout (sc_request e) \<le> in_seconds (d - mw_now w (sc_at e))))"
proof -
  from model_call_logs [OF call] obtain es where es: "g_log g' = g_log g @ es" "length es \<le> 2 * length routes"
      "\<forall>i. length (filter (\<lambda>e. rt_route_id (sc_route e) = i) es) \<le> 2"
    and all: "\<forall>e\<in>set es. governed_call w ps c prompt e \<and> sc_route e \<in> set routes" by (auto simp: sent_per_route_def)
  have "0 < px_timeout (sc_request e) \<and> px_timeout (sc_request e) \<le> rt_timeout_seconds (sc_route e) \<and>
      px_timeout (sc_request e) \<le> in_seconds (x_lease_expires_at (mc_lease c) - mw_now w (sc_at e)) \<and>
      (\<forall>d. mc_request_deadline_at c = Some d \<longrightarrow> px_timeout (sc_request e) \<le> in_seconds (d - mw_now w (sc_at e)))"
    if e: "e \<in> set es" for e
  proof -
    have t: "model_timeout (sc_route e) c (mw_now w (sc_at e)) = Some (px_timeout (sc_request e))"
      using all e by (simp add: governed_call_def guarded_call_def)
    have "0 < rt_timeout_seconds (sc_route e)"
      using ok all e by (auto simp: list_all_iff deployed_route_ok_def)
    with shortest_window_pos [OF t [unfolded model_timeout_def]] shortest_window_bounds [OF t [unfolded model_timeout_def]]
    show ?thesis by auto
  qed
  then show ?thesis
    using all es by (auto simp: governed_call_def guarded_call_def can_send_def route_supports_prompt_def)
qed

section \<open>What a call leaves in the ledger\<close>













text \<open>An attempt ends in a state of the ledger that is final.\<close>

definition attempt_ok :: "attempt \<Rightarrow> bool" where
  "attempt_ok a \<longleftrightarrow> at_outcome a \<in> {''aborted_before_send'', ''rate_limited'', ''outcome_unknown'', ''succeeded''} \<and>
     (\<forall>n. fst (at_tokens a) = Some n \<longrightarrow> 0 \<le> n) \<and> (\<forall>n. snd (at_tokens a) = Some n \<longrightarrow> 0 \<le> n) \<and>
     (\<forall>x. at_identity a = Some x \<longrightarrow> x \<noteq> [] \<and> length x \<le> 120)"

lemma aborted_ok [simp]: "attempt_ok aborted_attempt"
  by (simp add: attempt_ok_def aborted_attempt_def)


















section \<open>What a call returns\<close>

text \<open>The logical policies a deployment announces are exactly those with which a prompt can be served: the public list
  names a policy if and only if some route would accept a prompt under it that needs no input tokens.\<close>

lemma announced_policies_usable:
  assumes d: "distinct (map lp_name ps)"
  shows "name \<in> set (available_policy_names ps routes redis_ok) \<longleftrightarrow>
    (\<exists>rt\<in>set routes. \<exists>p :: prompt_definition. pd_model_policy p = name \<and> pd_guardrail_policy p = name \<and> available ps rt (Some p) 0 redis_ok)"
proof -
  have get: "get_policy ps name = Some q \<longleftrightarrow> q \<in> set ps \<and> lp_name q = name" for q
    unfolding get_policy_def by (rule sel_key_iff [OF d])
  have witness: "\<exists>p :: prompt_definition. pd_model_policy p = name \<and> pd_guardrail_policy p = name"
    by (rule exI [of _ "\<lparr>pd_prompt_id = [], pd_version = [], pd_owner_agent = [], pd_input_schema = [], pd_output_schema = [],
      pd_model_policy = name, pd_guardrail_policy = name, pd_status = [], pd_template = []\<rparr>"]) simp
  let ?fits = "\<lambda>q rt. rt_enabled rt \<and> policy_allowed rt (lp_name q) \<and>
      set (lp_required_capabilities q) \<subseteq> set (rt_capabilities rt) \<and>
      (''private_residency'' \<notin> set (lp_required_capabilities q) \<or> rt_data_residency rt = ''private'') \<and>
      lp_max_output_tokens q \<le> rt_max_output_tokens rt \<and> lp_max_output_tokens q \<le> rt_max_context_tokens rt \<and>
      (\<not> lp_thinking_enabled q \<or> ''thinking'' \<in> set (rt_capabilities rt)) \<and>
      (\<not> lp_requires_vision q \<or> ''vision'' \<in> set (rt_capabilities rt))"
  have announced: "name \<in> set (available_policy_names ps routes redis_ok) \<longleftrightarrow>
      redis_ok \<and> (\<exists>q. q \<in> set ps \<and> lp_name q = name \<and> (\<exists>rt\<in>set routes. ?fits q rt))"
    by (auto simp: available_policy_names_def list_ex_iff image_iff)
  have caps: "required_capabilities q q \<subseteq> X \<longleftrightarrow> set (lp_required_capabilities q) \<subseteq> X \<and>
      (\<not> lp_thinking_enabled q \<or> ''thinking'' \<in> X) \<and> (\<not> lp_requires_vision q \<or> ''vision'' \<in> X)"
    "''private_residency'' \<in> required_capabilities q q \<longleftrightarrow> ''private_residency'' \<in> set (lp_required_capabilities q)" for q X
    by (auto simp: required_capabilities_def)
  have "available ps rt (Some p) 0 redis_ok \<longleftrightarrow> redis_ok \<and> (\<exists>q. get_policy ps name = Some q \<and> ?fits q rt)"
    if "pd_model_policy p = name" "pd_guardrail_policy p = name" for p :: prompt_definition and rt
    using that unfolding available_def by (cases "get_policy ps name") (auto simp: caps)
  with witness have usable: "(\<exists>p :: prompt_definition. pd_model_policy p = name \<and> pd_guardrail_policy p = name \<and>
      available ps rt (Some p) 0 redis_ok) \<longleftrightarrow> redis_ok \<and> (\<exists>q. q \<in> set ps \<and> lp_name q = name \<and> ?fits q rt)" for rt
    unfolding get by blast
  show ?thesis unfolding announced usable by blast
qed

section \<open>A concrete call\<close>

definition demo_provider :: http_provider where
  "demo_provider = \<lparr>hp_net = \<lparr>en_urlsplit = tg_urlsplit demo_io, en_ip = tg_ip demo_io, en_resolve = tg_resolve demo_io\<rparr>,
     hp_post = (\<lambda>_ _. ProviderAnswered \<lparr>pa_status = 200, pa_retry_after = None,
        pa_body = Some (JObj [(''usage'', JObj [(''input_tokens'', JInt 3), (''output_tokens'', JInt 4)])])\<rparr>),
     hp_peer = Some (\<lambda>_. Some ''8.8.8.8''), hp_api_keys = [(''m'', ''secret'')]\<rparr>"

definition demo_model_world :: model_world where
  "demo_model_world = \<lparr>mw_now = (\<lambda>_. 5), mw_epoch = (\<lambda>i. of_nat i), mw_server = (\<lambda>i. of_nat i), mw_monotonic = (\<lambda>i. of_nat i),
     mw_fate = (\<lambda>_. Answered), mw_db = (\<lambda>_ s. s), mw_redis = (\<lambda>_ st. st), mw_permits = (\<lambda>_ _ _. True),
     mw_provider = demo_provider\<rparr>"

definition demo_gateway :: gateway where
  "demo_gateway = \<lparr>g_tick = 0, g_db = demo_metered, g_redis = empty_redis 1000, g_events = [], g_log = []\<rparr>"

definition demo_model_call :: gateway_run where
  "demo_model_call = model_call demo_model_world [] [demo_deployed] demo_call ''m'' JNull None demo_gateway"

theorem model_calls_guarded_witness:
  "\<exists>res g' e. demo_model_call = (Inr res, g') \<and> mr_status res = ''succeeded'' \<and> g_log g' = [e] \<and>
     px_timeout (sc_request e) \<le> rt_timeout_seconds demo_deployed \<and>
     can_write ''0'' demo_ctx 5 (sc_db e)"
proof -
  obtain r g' where p: "demo_model_call = (r, g')" by fastforce
  have "case demo_model_call of (r, g') \<Rightarrow>
      (case r of Inr res \<Rightarrow> mr_status res = ''succeeded'' \<and> map sc_permit (g_log g') = [''3''] | _ \<Rightarrow> False)" by code_simp
  then have s: "case r of Inr res \<Rightarrow> mr_status res = ''succeeded'' \<and> map sc_permit (g_log g') = [''3''] | _ \<Rightarrow> False"
    unfolding p by simp
  then obtain res where "r = Inr res" by (cases r) simp_all
  with p s have m: "demo_model_call = (Inr res, g')" "mr_status res = ''succeeded''" "map sc_permit (g_log g') = [''3'']"
    by simp_all
  from m(3) obtain e where e: "g_log g' = [e]" by auto
  have ok: "list_all (deployed_route_ok (hp_net (mw_provider demo_model_world))) [demo_deployed]" by code_simp
  have "e \<in> set (drop (length (g_log demo_gateway)) (g_log g'))" by (simp add: e demo_gateway_def)
  with model_calls_guarded [OF m(1) [unfolded demo_model_call_def] ok]
  have "sc_route e = demo_deployed" "px_timeout (sc_request e) \<le> rt_timeout_seconds (sc_route e)"
    "can_write (mc_run_id demo_call) (mc_lease demo_call) (mw_now demo_model_world (sc_at e)) (sc_db e)" by auto
  then show ?thesis using m e by (intro exI [of _ res] exI [of _ g'] exI [of _ e]) (simp add: demo_call_def demo_model_world_def)
qed


definition demo_policy :: logical_policy where
  "demo_policy = \<lparr>lp_name = ''balanced'', lp_max_output_tokens = 20, lp_required_capabilities = [''structured_output''],
     lp_fallback = ''template'', lp_thinking_enabled = False, lp_requires_vision = False\<rparr>"

end
