(* ===== verification/Memoir_Materials.thy ===== *)
theory Memoir_Materials
  imports Node_Context Model_Gateway
begin

text \<open>
  The agent of the memoir packages (\<open>app/agents/memoir_agent/runner.py\<close>), first part: what its nodes share,
  the view of the materials every node works on, and the calls to the model.

  What the runner only calls is the record \<open>memoir_env\<close>: the answers of the model gateway, by the number
  of the call, the parsers, the prompt files, the two regular expressions of the redaction and the fixed
  texts of the template cards, which are Chinese. \<open>memoir\<close> is the state of a run in the runner: the agent
  state, the calls to the model so far, the rejections it reported and the ledger of evaluations.
\<close>

section \<open>Versions\<close>

fun split_dots :: "string \<Rightarrow> string list" where
  "split_dots [] = [[]]"
| "split_dots (c # cs) = (if c = CHR ''.'' then [] # split_dots cs
     else (case split_dots cs of [] \<Rightarrow> [[c]] | p # ps \<Rightarrow> (c # p) # ps))"

fun all_some :: "'a option list \<Rightarrow> 'a list option" where
  "all_some [] = Some []"
| "all_some (x # xs) = (case (x, all_some xs) of (Some y, Some ys) \<Rightarrow> Some (y # ys) | _ \<Rightarrow> None)"

fun tuple_ge :: "int list \<Rightarrow> int list \<Rightarrow> bool" where
  "tuple_ge xs [] = True"
| "tuple_ge [] (y # ys) = False"
| "tuple_ge (x # xs) (y # ys) = (y < x \<or> x = y \<and> tuple_ge xs ys)"

definition version_at_least :: "string \<Rightarrow> string \<Rightarrow> bool" where
  "version_at_least v minimum =
     (v \<noteq> [] \<and>
      (case (all_some (map Service_Auth.py_int (take 3 (split_dots v))), all_some (map Service_Auth.py_int (split_dots minimum))) of
         (Some xs, Some ys) \<Rightarrow> tuple_ge xs ys
       | _ \<Rightarrow> False))"

definition media_version_enabled :: "string \<Rightarrow> bool" where
  "media_version_enabled v = version_at_least v ''1.0.3''"

definition per_scene_media_enabled :: "string \<Rightarrow> bool" where
  "per_scene_media_enabled v = version_at_least v ''1.0.4''"

definition audio_version_enabled :: "string \<Rightarrow> bool" where
  "audio_version_enabled v = version_at_least v ''1.0.8''"

section \<open>State and environment\<close>

datatype node_error = Raised runtime_error | Material material_error | RuntimeError string

definition lifted :: "runtime_error + 'a \<Rightarrow> node_error + 'a" where
  "lifted m = (case m of Inl e \<Rightarrow> Inl (Raised e) | Inr x \<Rightarrow> Inr x)"

definition materials_ok :: "material_error + 'a \<Rightarrow> node_error + 'a" where
  "materials_ok m = (case m of Inl e \<Rightarrow> Inl (Material e) | Inr x \<Rightarrow> Inr x)"

record memoir_env =
  me_has_model :: bool
  me_has_repair :: bool
  me_reply :: "nat \<Rightarrow> string \<Rightarrow> json \<Rightarrow> json option"
  me_repair :: "nat \<Rightarrow> string \<Rightarrow> json \<Rightarrow> json \<Rightarrow> json option"
  me_token_budget :: "string \<Rightarrow> json option"
  me_prompts :: prompt_files
  me_dumps :: "json \<Rightarrow> string"
  me_loads :: "string \<Rightarrow> json option"
  me_literal_eval :: "string \<Rightarrow> json option"
  me_clean :: "string \<Rightarrow> string"
  me_emotional :: "string \<Rightarrow> bool"
  me_bodies :: "string list"
  me_uuid :: "string \<Rightarrow> bool"
  me_url_path :: "string \<Rightarrow> string"
  me_records :: bool
  me_now :: time

record memoir =
  rn_state :: agent_state
  rn_calls :: "(string \<times> json) list"
  rn_rejections :: "(string \<times> string list) list"
  rn_ledger :: "db \<times> agent_evaluation list"

definition flag :: "string \<Rightarrow> memoir \<Rightarrow> memoir" where
  "flag f m = m\<lparr>rn_state := (rn_state m)\<lparr>fallback_flags := fallback_flags (rn_state m) @ [f]\<rparr>\<rparr>"

definition apply_output :: "string \<Rightarrow> json \<Rightarrow> memoir \<Rightarrow> node_error + memoir" where
  "apply_output target v m = res_bind (lifted (apply_tool_output target v (rn_state m))) (\<lambda>st. Inr (m\<lparr>rn_state := st\<rparr>))"

section \<open>The view of the materials\<close>

definition material_type_order :: "string list" where
  "material_type_order = [''diary'', ''completed_bet'', ''handbook_note'', ''matured_wish'', ''bucket_list_completion'']"

definition summary_types :: "string list" where
  "summary_types = [''diary'', ''completed_bet'']"

definition media_image_mime_types :: "string list" where
  "media_image_mime_types = [''image/jpeg'', ''image/png'', ''image/webp'']"

definition sanitize_material_summary :: "memoir_env \<Rightarrow> nat \<Rightarrow> string \<Rightarrow> string" where
  "sanitize_material_summary env n content = take n (strip (me_clean env content))"

fun filled_text :: "json \<Rightarrow> bool" where
  "filled_text (JStr x) = (x \<noteq> [])"
| "filled_text _ = False"

fun text_of :: "json \<Rightarrow> string" where
  "text_of (JStr x) = x"
| "text_of _ = []"

fun readable_text :: "json \<Rightarrow> bool" where
  "readable_text (JStr x) = (strip x \<noteq> [])"
| "readable_text _ = False"

definition image_entry :: "json \<Rightarrow> json option" where
  "image_entry v =
     (case v of
        JObj d \<Rightarrow>
          if fst ` set d = {''photo_id'', ''object_key'', ''mime''} \<and> filled_text (dget d ''photo_id'') \<and>
             filled_text (dget d ''object_key'') \<and> is_str (dget d ''mime'') \<and> text_of (dget d ''mime'') \<in> set media_image_mime_types
          then Some (JObj (map (\<lambda>k. (k, dget d k)) [''photo_id'', ''object_key'', ''mime''])) else None
      | _ \<Rightarrow> None)"

definition attached_images :: "json \<Rightarrow> dict" where
  "attached_images payload =
     (let images = List.map_filter image_entry (take 4 (items_of (jget payload ''images'')))
      in if images = [] then [] else [(''images'', JList images)])"

text \<open>One material of the canonical list: an entry of the view, or \<open>None\<close> for an invalid one.\<close>

definition canonical_material :: "memoir_env \<Rightarrow> json \<Rightarrow> dict option" where
  "canonical_material env v =
     (let ref = jget v ''source_ref''; mtype = jget v ''material_type''; payload = jget v ''sanitized_payload'';
          digest = jget payload ''text_digest''; base = [(''source_ref'', ref), (''type'', mtype)]
      in if \<not> is_obj v \<or> \<not> filled_text ref \<or> \<not> filled_text mtype then None
         else if readable_text digest
         then Some (base @ [(''sensitive'', JBool False), (''text'', JStr (sanitize_material_summary env 200 (text_of digest)))] @
                attached_images payload)
         else if text_of mtype \<in> set summary_types \<and> is_obj payload
         then Some (base @ [(''sensitive'', JBool False), (''summary'', JStr (sanitize_material_summary env 80 (me_dumps env payload)))] @
                attached_images payload)
         else Some (base @ [(''sensitive'', JBool True)]))"

definition legacy_material :: "memoir_env \<Rightarrow> string \<Rightarrow> bool \<Rightarrow> json \<Rightarrow> dict option" where
  "legacy_material env mtype summarised v =
     (case material_id v of
        None \<Rightarrow> None
      | Some i \<Rightarrow>
          (let base = [(''source_ref'', JStr (mtype @ '':'' @ i)), (''type'', JStr mtype)]
           in if \<not> summarised \<or> jget v ''sensitive'' = JBool True \<or> \<not> is_str (jget v ''content'')
              then Some (base @ [(''sensitive'', JBool True)])
              else Some (base @ [(''sensitive'', JBool False),
                     (''summary'', JStr (sanitize_material_summary env 80 (text_of (jget v ''content''))))])))"

record material_slot =
  ms_fields :: "string list"
  ms_type :: string
  ms_summarised :: bool

definition sanitize_slots :: "material_slot list" where
  "sanitize_slots =
     [\<lparr>ms_fields = [''diary_items'', ''diaries''], ms_type = ''diary'', ms_summarised = True\<rparr>,
      \<lparr>ms_fields = [''completed_bet_items'', ''completed_bets'', ''bet_items'', ''bets''], ms_type = ''completed_bet'', ms_summarised = True\<rparr>,
      \<lparr>ms_fields = [''handbook_notes''], ms_type = ''handbook_note'', ms_summarised = False\<rparr>,
      \<lparr>ms_fields = [''matured_wishes''], ms_type = ''matured_wish'', ms_summarised = False\<rparr>,
      \<lparr>ms_fields = [''bucket_list_completions''], ms_type = ''bucket_list_completion'', ms_summarised = False\<rparr>]"

definition first_field :: "dict \<Rightarrow> string list \<Rightarrow> json" where
  "first_field d ks = (case find (has_key d) ks of None \<Rightarrow> JNull | Some k \<Rightarrow> dget d k)"

definition sanitized_entries :: "memoir_env \<Rightarrow> dict \<Rightarrow> dict option list" where
  "sanitized_entries env d =
     (case dget d ''materials'' of
        JList xs \<Rightarrow> map (canonical_material env) xs
      | _ \<Rightarrow> concat (map (\<lambda>sl. map (legacy_material env (ms_type sl) (ms_summarised sl)) (items_of (first_field d (ms_fields sl))))
               sanitize_slots))"

definition sanitize_materials :: "memoir_env \<Rightarrow> json \<Rightarrow> material_error + (dict list \<times> int \<times> int)" where
  "sanitize_materials env snapshot =
     (case snapshot of
        JObj d \<Rightarrow>
          res_bind (detect_envelope_mixing d) (\<lambda>_.
            let entries = sanitized_entries env d; ok = List.map_filter (\<lambda>x. x) entries
            in Inr (ok, int (length (filter (\<lambda>e. dget e ''sensitive'' = JBool True) ok)), int (length (filter (\<lambda>x. x = None) entries))))
      | _ \<Rightarrow> Inr ([], 0, 0))"

definition sanitize_node :: "memoir_env \<Rightarrow> memoir \<Rightarrow> node_error + (dict \<times> memoir)" where
  "sanitize_node env m =
     res_bind (materials_ok (sanitize_materials env (st_snapshot (rn_state m)))) (\<lambda>(entries, _, _).
     res_bind (apply_output ''sanitized_material'' (JObj [(''materials'', JList (map JObj entries))]) m) (\<lambda>m'.
       Inr ([(''node_id'', JStr ''sanitize_materials''), (''sanitized'', JBool True)], m')))"

section \<open>Statistics\<close>

definition count_type :: "string \<Rightarrow> json list \<Rightarrow> int" where
  "count_type t xs = int (length (filter (\<lambda>v. jget v ''material_type'' = JStr t) xs))"

definition legacy_types :: "dict \<Rightarrow> string list" where
  "legacy_types d = map ms_type (filter (\<lambda>sl. items_of (first_field d (ms_fields sl)) \<noteq> []) sanitize_slots)"

definition material_stats :: "dict \<Rightarrow> int \<times> int \<times> string list" where
  "material_stats d =
     (case dget d ''materials'' of
        JList xs \<Rightarrow> (count_type ''diary'' xs, count_type ''completed_bet'' xs,
          filter (\<lambda>t. list_ex (\<lambda>v. jget v ''material_type'' = JStr t) xs) material_type_order)
      | _ \<Rightarrow>
          (size_of_list (first_field d [''diary_items'', ''diaries'']),
           size_of_list (first_field d [''completed_bet_items'', ''completed_bets'', ''bet_items'', ''bets'']),
           filter (\<lambda>t. t \<in> set (legacy_types d)) material_type_order))"

definition compute_stats :: "memoir \<Rightarrow> node_error + (dict \<times> memoir)" where
  "compute_stats m =
     (let d = (case st_snapshot (rn_state m) of JObj d \<Rightarrow> d | _ \<Rightarrow> [])
      in res_bind (materials_ok (detect_envelope_mixing d)) (\<lambda>_.
         let (diaries, bets, types) = material_stats d;
             found = JObj [(''diary_count'', JInt diaries), (''bet_count'', JInt bets), (''has_material'', JBool (diaries \<noteq> 0 \<or> bets \<noteq> 0)),
               (''available_material_types'', JList (map JStr types))]
         in Inr ([(''node_id'', JStr ''compute_stats''), (''stats_ready'', JBool True)],
                 m\<lparr>rn_state := (rn_state m)\<lparr>stats := found\<rparr>\<rparr>)))"

section \<open>What the nodes read\<close>

definition view_items :: "json \<Rightarrow> json list" where
  "view_items view = items_of (jget view ''materials'')"

definition safe_material_refs :: "json \<Rightarrow> string \<Rightarrow> string list" where
  "safe_material_refs view v =
     (let refs = first_codes (map (\<lambda>x. text_of (jget x ''source_ref''))
            (filter (\<lambda>x. is_obj x \<and> jget x ''sensitive'' = JBool False \<and> is_str (jget x ''source_ref'')) (view_items view)))
      in if version_at_least v ''1.0.5'' then refs else take 8 refs)"

type_synonym material = "string \<times> string"

definition safe_material_texts :: "json \<Rightarrow> string list \<Rightarrow> string \<Rightarrow> material list" where
  "safe_material_texts view refs v =
     (let texts = map (\<lambda>x. (text_of (jget x ''source_ref''), text_of (jget x ''text'')))
            (filter (\<lambda>x. jget x ''sensitive'' = JBool False \<and> is_str (jget x ''source_ref'') \<and>
               text_of (jget x ''source_ref'') \<in> set refs \<and> readable_text (jget x ''text'')) (view_items view))
      in if version_at_least v ''1.0.5'' then texts else take 8 texts)"

section \<open>Calls to the model\<close>

definition node_prompts :: "(string \<times> string) list" where
  "node_prompts =
     [(''extract_highlights'', ''highlight-extract''), (''plan_chapters'', ''chapter-plan''), (''generate_scenes'', ''scene-generate''),
      (''generate_scene_batch'', ''scene-batch-generate''), (''repair_coverage_gaps'', ''coverage-repair'')]"

fun strs_in :: "json \<Rightarrow> string list" where
  "strs_in (JList xs) = map text_of (filter is_str xs)"
| "strs_in _ = []"

definition request_source_refs :: "dict \<Rightarrow> string list" where
  "request_source_refs d =
     (case dget d ''source_refs'' of
        JList xs \<Rightarrow> strs_in (JList xs)
      | _ \<Rightarrow> concat (map (\<lambda>c. strs_in (jget c ''source_refs'')) (items_of (dget d ''chapters''))))"

definition material_json :: "material \<Rightarrow> json" where
  "material_json x = JObj [(''source_ref'', JStr (fst x)), (''text'', JStr (snd x))]"

definition safe_model_request :: "memoir_env \<Rightarrow> string \<Rightarrow> dict \<Rightarrow> string \<Rightarrow> material list \<Rightarrow> json option" where
  "safe_model_request env node request v materials =
     (case map_of node_prompts node of
        None \<Rightarrow> None
      | Some pid \<Rightarrow>
          (case load_prompt (me_prompts env) ''memoir_agent'' v pid ''v1'' of
             None \<Rightarrow> None
           | Some p \<Rightarrow>
               (case build_node_context (JStr (pd_template p))
                   (map (\<lambda>ref. material_json (ref, ''[SOURCE_REF]'')) (request_source_refs request)) [] (JInt 256) of
                  Inl _ \<Rightarrow> None
                | Inr c \<Rightarrow> Some (JObj ([(''prompt_id'', JStr (pd_prompt_id p)), (''prompt_version'', JStr (pd_version p)),
                    (''model_policy'', JStr (pd_model_policy p)), (''context'', JObj (Node_Context.safe_summary c)), (''input'', JObj request)] @
                    (if materials = [] then [] else [(''materials'', JList (map material_json materials))]))))))"

definition some_data :: "json option \<Rightarrow> json option" where
  "some_data x = (if x = Some JNull then None else x)"

definition model_data :: "memoir_env \<Rightarrow> string \<Rightarrow> dict \<Rightarrow> string \<Rightarrow> material list \<Rightarrow> memoir \<Rightarrow> json option \<times> memoir" where
  "model_data env node request v materials m =
     (if \<not> me_has_model env then (None, m)
      else (case safe_model_request env node request v materials of
          None \<Rightarrow> (None, m)
        | Some r \<Rightarrow> (some_data (me_reply env (length (rn_calls m)) node r), m\<lparr>rn_calls := rn_calls m @ [(node, r)]\<rparr>)))"

definition repair_model_data ::
  "memoir_env \<Rightarrow> string \<Rightarrow> dict \<Rightarrow> json \<Rightarrow> string \<Rightarrow> material list \<Rightarrow> memoir \<Rightarrow> json option \<times> memoir" where
  "repair_model_data env node request invalid v materials m =
     (if \<not> me_has_model env \<or> \<not> me_has_repair env then (None, m)
      else (case safe_model_request env node request v materials of
          None \<Rightarrow> (None, m)
        | Some r \<Rightarrow> (some_data (me_repair env (length (rn_calls m)) node r invalid), m\<lparr>rn_calls := rn_calls m @ [(node, r)]\<rparr>)))"

section \<open>Schemas of the model output\<close>

definition closed_object :: "string list \<Rightarrow> json \<Rightarrow> dict option" where
  "closed_object names v = (case v of JObj d \<Rightarrow> if fst ` set d \<subseteq> set names then Some d else None | _ \<Rightarrow> None)"

fun str_list :: "json \<Rightarrow> bool" where
  "str_list (JList xs) = list_all is_str xs"
| "str_list _ = False"

definition optional_text :: "json \<Rightarrow> bool" where
  "optional_text v \<longleftrightarrow> v = JNull \<or> is_str v"

definition text_among :: "string list \<Rightarrow> json \<Rightarrow> bool" where
  "text_among names v \<longleftrightarrow> is_str v \<and> text_of v \<in> set names"

fun all_valid :: "(json \<Rightarrow> 'a option) \<Rightarrow> json \<Rightarrow> 'a list option" where
  "all_valid f (JList xs) = all_some (map f xs)"
| "all_valid f _ = None"

text \<open>The raw text of an answer, and the value the fault tolerant parser finds in it.\<close>

definition raw_output :: "memoir_env \<Rightarrow> json option \<Rightarrow> string option" where
  "raw_output env data =
     (case data of
        Some (JStr x) \<Rightarrow> Some x
      | Some (JObj d) \<Rightarrow> Some (me_dumps env (JObj d))
      | _ \<Rightarrow> None)"

definition reject :: "string \<Rightarrow> string list \<Rightarrow> memoir \<Rightarrow> memoir" where
  "reject node codes m = m\<lparr>rn_rejections := rn_rejections m @ [(node, codes)]\<rparr>"

definition parse_structured_output ::
  "memoir_env \<Rightarrow> json option \<Rightarrow> (json \<Rightarrow> json option) \<Rightarrow> string list \<Rightarrow> string \<Rightarrow> memoir \<Rightarrow> node_error + (json option \<times> memoir)" where
  "parse_structured_output env data schema refs node m =
     (case raw_output env data of
        None \<Rightarrow> Inr (None, m)
      | Some raw \<Rightarrow>
          res_bind (lifted (parse_and_validate (me_loads env) (me_literal_eval env) schema refs (JStr raw))) (\<lambda>r.
            case so_validated_value r of
              None \<Rightarrow> Inr (None, if me_has_model env \<and> safety_status r = ''semantic_validation_failed''
                               then reject node (so_error_codes r) m else m)
            | Some w \<Rightarrow> Inr (Some w, m)))"

end
