(* ===== verification/Memoir_Nodes.thy ===== *)
theory Memoir_Nodes
  imports Memoir_Materials "HOL-Library.AList"
begin

text \<open>
  The nodes of the memoir workflow (\<open>run_node\<close> in \<open>app/agents/memoir_agent/runner.py\<close>) that turn the materials
  into a playback document: highlights, chapters, scenes, actions, media, the safety review and audio, with the
  checks on the model output and on the document. The media and the audio service are parameters: they answer
  with the tasks and scenes, or with the audio part, for the document they are given.
\<close>

section \<open>Fixed parts of a document\<close>

definition plain_scene_types :: "string list" where
  "plain_scene_types = [''summary'', ''cover'', ''stats'', ''diary_highlight'', ''bet_highlight'', ''milestone'']"

definition media_scene_types :: "string list" where
  "media_scene_types = plain_scene_types @ [''image'']"

definition plain_action_types :: "string list" where
  "plain_action_types = [''show_card'', ''type_text'', ''hold'', ''transition'']"

definition scene_action_rules :: "(string \<times> string) list" where
  "scene_action_rules =
     [(''cover'', ''show_card''), (''stats'', ''show_card''), (''diary_highlight'', ''type_text''), (''bet_highlight'', ''type_text''),
      (''milestone'', ''show_card''), (''summary'', ''show_card''), (''image'', ''type_text'')]"

definition template_body :: "memoir_env \<Rightarrow> nat \<Rightarrow> string" where
  "template_body env i = (case me_bodies env of [] \<Rightarrow> [] | bs \<Rightarrow> bs ! ((i - 1) mod length bs))"

definition str_json :: "string list \<Rightarrow> json" where
  "str_json xs = JList (map JStr xs)"

definition template_scene :: "memoir_env \<Rightarrow> nat \<Rightarrow> string list \<Rightarrow> json" where
  "template_scene env i refs =
     JObj [(''scene_id'', JStr (''scene-'' @ numeral_string i)), (''scene_type'', JStr ''summary''), (''source_refs'', str_json refs),
       (''body'', JStr (template_body env i))]"

definition base_action :: "nat \<Rightarrow> json" where
  "base_action i =
     JObj [(''action_id'', JStr (''action-'' @ numeral_string i)), (''scene_id'', JStr (''scene-'' @ numeral_string i)),
       (''action_type'', JStr ''show_card''), (''duration_ms'', JInt 3000)]"

definition base_scenes :: "memoir_env \<Rightarrow> json" where
  "base_scenes env = JList [template_scene env 1 [], template_scene env 2 [], template_scene env 3 []]"

definition base_actions :: json where
  "base_actions = JList [base_action 1, base_action 2, base_action 3]"

definition rule_type :: "json \<Rightarrow> string" where
  "rule_type v =
     (case v of JStr t \<Rightarrow> (case map_of scene_action_rules t of None \<Rightarrow> ''show_card'' | Some a \<Rightarrow> a) | _ \<Rightarrow> ''show_card'')"

definition rule_duration :: "dict \<Rightarrow> int" where
  "rule_duration d =
     (if rule_type (dget d ''scene_type'') = ''type_text''
      then max 3000 (int (length (text_of (dget d ''body''))) * 75 + 1500)
      else if filled_text (jget (dget d ''payload'') ''image_url'') then 5000 else 3000)"

definition rule_action :: "nat \<Rightarrow> dict \<Rightarrow> string \<Rightarrow> dict" where
  "rule_action i d s =
     [(''action_id'', JStr (''action-'' @ numeral_string i)), (''scene_id'', JStr s),
      (''action_type'', JStr (rule_type (dget d ''scene_type''))), (''duration_ms'', JInt (rule_duration d))]"

fun rule_actions_from :: "nat \<Rightarrow> json list \<Rightarrow> json list" where
  "rule_actions_from i [] = []"
| "rule_actions_from i (v # vs) =
     (case v of
        JObj d \<Rightarrow> (case dget d ''scene_id'' of
            JStr s \<Rightarrow> JObj (rule_action i d s) # rule_actions_from (Suc i) vs
          | _ \<Rightarrow> rule_actions_from (Suc i) vs)
      | _ \<Rightarrow> rule_actions_from (Suc i) vs)"

definition rule_actions :: "json \<Rightarrow> json" where
  "rule_actions scenes_v = JList (rule_actions_from 1 (items_of scenes_v))"

section \<open>The contract of a document\<close>

definition scene_content_contract_valid :: "json list \<Rightarrow> string \<Rightarrow> bool" where
  "scene_content_contract_valid xs v \<longleftrightarrow> per_scene_media_enabled v \<or>
     length xs \<le> 8 \<and> list_all (\<lambda>x. length (text_of (jget x ''body'')) \<le> 80) xs"

fun all_checked :: "('a \<Rightarrow> runtime_error + bool) \<Rightarrow> 'a list \<Rightarrow> runtime_error + bool" where
  "all_checked f [] = Inr True"
| "all_checked f (x # xs) = res_bind (f x) (\<lambda>b. if b then all_checked f xs else Inr False)"

definition manifest_keys :: "string list" where
  "manifest_keys = [''media_id'', ''kind'', ''object_key'', ''url'', ''mime'', ''scene_id'']"

definition default_image_prefix :: string where
  "default_image_prefix = ''memoir/images/''"

text \<open>\<open>stem.rsplit(".", 1)[0]\<close>.\<close>

definition before_last_dot :: "string \<Rightarrow> string" where
  "before_last_dot x = (if CHR ''.'' \<in> set x then rev (tl (dropWhile (\<lambda>c. c \<noteq> CHR ''.'') (rev x))) else x)"

definition manifest_entry_ok :: "memoir_env \<Rightarrow> string \<Rightarrow> dict \<Rightarrow> bool" where
  "manifest_entry_ok env prefix d \<longleftrightarrow> fst ` set d = set manifest_keys \<and> dget d ''kind'' = JStr ''image'' \<and>
     is_str (dget d ''object_key'') \<and> starts_with prefix (text_of (dget d ''object_key'')) \<and>
     me_uuid env (before_last_dot (drop (length prefix) (text_of (dget d ''object_key'')))) \<and>
     is_str (dget d ''url'') \<and> starts_with ''https://'' (text_of (dget d ''url'')) \<and>
     starts_with (''/'' @ prefix) (me_url_path env (text_of (dget d ''url''))) \<and>
     is_str (dget d ''mime'') \<and> text_of (dget d ''mime'') \<in> set media_image_mime_types"

fun media_manifest_valid :: "memoir_env \<Rightarrow> string \<Rightarrow> string list \<Rightarrow> string list \<Rightarrow> json list \<Rightarrow> runtime_error + bool" where
  "media_manifest_valid env prefix ids seen [] = Inr True"
| "media_manifest_valid env prefix ids seen (JObj d # xs) =
     (if \<not> manifest_entry_ok env prefix d then Inr False
      else res_bind (member_of (dget d ''scene_id'') ids) (\<lambda>known.
        if \<not> known \<or> text_of (dget d ''scene_id'') \<in> set seen then Inr False
        else media_manifest_valid env prefix ids (text_of (dget d ''scene_id'') # seen) xs))"
| "media_manifest_valid env prefix ids seen (_ # xs) = Inr False"

definition playback_scene_ok :: "memoir_env \<Rightarrow> string list \<Rightarrow> json \<Rightarrow> bool" where
  "playback_scene_ok env types v =
     (case v of
        JObj d \<Rightarrow> is_str (dget d ''scene_id'') \<and> text_among types (dget d ''scene_type'') \<and> str_list (dget d ''source_refs'') \<and>
          (has_key d ''body'' \<longrightarrow> is_str (dget d ''body'')) \<and> violations (me_emotional env) (dget d ''body'') = []
      | _ \<Rightarrow> False)"

definition title_word_ok :: "json \<Rightarrow> bool" where
  "title_word_ok v \<longleftrightarrow> v = JNull \<or> filled_text v \<and> length (text_of v) \<le> 6"

definition no_payload :: "json \<Rightarrow> bool" where
  "no_payload v \<longleftrightarrow> v = JNull \<or> v = JObj []"

definition image_payload_ok :: "(string \<times> string) list \<Rightarrow> string \<Rightarrow> dict \<Rightarrow> bool" where
  "image_payload_ok urls sid p \<longleftrightarrow> fst ` set p \<subseteq> {''image_url'', ''title_word''} \<and>
     dget p ''image_url'' = (case map_of urls sid of None \<Rightarrow> JNull | Some u \<Rightarrow> JStr u) \<and> title_word_ok (dget p ''title_word'')"

definition payload_ok :: "(string \<times> string) list \<Rightarrow> bool \<Rightarrow> bool \<Rightarrow> json \<Rightarrow> bool" where
  "payload_ok urls per_scene pending v =
     (let payload = jget v ''payload''; sid = text_of (jget v ''scene_id'')
      in if jget v ''scene_type'' = JStr ''image'' then
           (if pending then no_payload payload
            else map_of urls sid \<noteq> None \<and> (case payload of JObj p \<Rightarrow> image_payload_ok urls sid p | _ \<Rightarrow> False))
         else if per_scene then
           (if pending then no_payload payload
            else (case payload of JObj p \<Rightarrow> p = [] \<or> image_payload_ok urls sid p | _ \<Rightarrow> payload = JNull))
         else no_payload payload)"

fun duration_ok :: "json \<Rightarrow> bool" where
  "duration_ok (JInt n) = (1 \<le> n)"
| "duration_ok (JBool b) = b"
| "duration_ok _ = False"

definition playback_action_ok :: "string list \<Rightarrow> json \<Rightarrow> runtime_error + bool" where
  "playback_action_ok ids v =
     (case v of
        JObj d \<Rightarrow>
          if \<not> is_str (dget d ''action_id'') then Inr False
          else res_bind (member_of (dget d ''scene_id'') ids) (\<lambda>known.
            Inr (known \<and> text_among plain_action_types (dget d ''action_type'') \<and> duration_ok (dget d ''duration_ms'')))
      | _ \<Rightarrow> Inr False)"

definition scene_id_texts :: "json list \<Rightarrow> string list" where
  "scene_id_texts xs = map (\<lambda>v. text_of (jget v ''scene_id'')) xs"

definition manifest_urls :: "json list \<Rightarrow> (string \<times> string) list" where
  "manifest_urls xs = map (\<lambda>v. (text_of (jget v ''scene_id''), text_of (jget v ''url''))) xs"

definition playback_actions_ok :: "json list \<Rightarrow> json \<Rightarrow> runtime_error + bool" where
  "playback_actions_ok xs actions_v =
     (case actions_v of
        JList ys \<Rightarrow>
          if length ys \<noteq> length xs then Inr False
          else res_bind (all_checked (playback_action_ok (scene_id_texts xs)) ys) (\<lambda>ok.
            Inr (ok \<and> set (scene_id_texts ys) = set (scene_id_texts xs)))
      | _ \<Rightarrow> Inr False)"

definition is_safe_playback ::
  "memoir_env \<Rightarrow> string list \<Rightarrow> bool \<Rightarrow> bool \<Rightarrow> string \<Rightarrow> string \<Rightarrow> json \<Rightarrow> json \<Rightarrow> json \<Rightarrow> runtime_error + bool" where
  "is_safe_playback env types per_scene pending v prefix media scenes_v actions_v =
     (case scenes_v of
        JList xs \<Rightarrow>
          if length xs < 3 \<or> \<not> scene_content_contract_valid xs v \<or> \<not> list_all (playback_scene_ok env types) xs \<or>
             \<not> distinct (scene_id_texts xs) \<or> pending \<and> items_of media \<noteq> [] then Inr False
          else res_bind (media_manifest_valid env prefix (scene_id_texts xs) [] (items_of media)) (\<lambda>ok.
            if \<not> ok \<or> \<not> list_all (payload_ok (manifest_urls (items_of media)) per_scene pending) xs then Inr False
            else playback_actions_ok xs actions_v)
      | _ \<Rightarrow> Inr False)"

section \<open>Model output\<close>

definition highlight_schema :: "json \<Rightarrow> json option" where
  "highlight_schema v =
     (case closed_object [''source_refs''] v of
        None \<Rightarrow> None
      | Some d \<Rightarrow> if str_list (dget d ''source_refs'') then Some (JObj [(''source_refs'', dget d ''source_refs'')]) else None)"

definition chapter_schema :: "json \<Rightarrow> dict option" where
  "chapter_schema v =
     (case closed_object [''chapter_id'', ''source_refs'', ''kind''] v of
        None \<Rightarrow> None
      | Some d \<Rightarrow> if is_str (dget d ''chapter_id'') \<and> str_list (dget d ''source_refs'') \<and>
            dget_default d ''kind'' (JStr ''memory_overview'') = JStr ''memory_overview''
          then Some [(''chapter_id'', dget d ''chapter_id''), (''source_refs'', dget d ''source_refs''), (''kind'', JStr ''memory_overview'')]
          else None)"

definition collected_refs :: "dict list \<Rightarrow> json" where
  "collected_refs ds = JList (concat (map (\<lambda>d. items_of (dget d ''source_refs'')) ds))"

definition chapter_plan_schema :: "json \<Rightarrow> json option" where
  "chapter_plan_schema v =
     (case closed_object [''chapters'', ''source_refs''] v of
        None \<Rightarrow> None
      | Some d \<Rightarrow>
          if \<not> str_list (dget_default d ''source_refs'' (JList [])) then None
          else map_option (\<lambda>cs. JObj [(''chapters'', JList (map JObj cs)), (''source_refs'', collected_refs cs)])
            (all_valid chapter_schema (dget d ''chapters'')))"

definition scene_schema :: "json \<Rightarrow> dict option" where
  "scene_schema v =
     (case closed_object [''scene_id'', ''scene_type'', ''source_refs'', ''body'', ''title_word''] v of
        None \<Rightarrow> None
      | Some d \<Rightarrow> if is_str (dget d ''scene_id'') \<and> text_among media_scene_types (dget d ''scene_type'') \<and>
            str_list (dget d ''source_refs'') \<and> optional_text (dget d ''body'') \<and> optional_text (dget d ''title_word'')
          then Some (map (\<lambda>k. (k, dget d k)) [''scene_id'', ''scene_type'', ''source_refs'', ''body'', ''title_word'']) else None)"

definition scene_plan_schema :: "json \<Rightarrow> json option" where
  "scene_plan_schema v =
     (case closed_object [''scenes'', ''source_refs''] v of
        None \<Rightarrow> None
      | Some d \<Rightarrow>
          if \<not> str_list (dget_default d ''source_refs'' (JList [])) then None
          else map_option (\<lambda>cs. JObj [(''scenes'', JList (map JObj cs)), (''source_refs'', collected_refs cs)])
            (all_valid scene_schema (dget d ''scenes'')))"

definition valid_highlights ::
  "memoir_env \<Rightarrow> string list \<Rightarrow> json option \<Rightarrow> memoir \<Rightarrow> node_error + (string list option \<times> memoir)" where
  "valid_highlights env refs data m =
     res_bind (parse_structured_output env data highlight_schema refs ''extract_highlights'' m) (\<lambda>(w, m').
       Inr (map_option (\<lambda>j. take 8 (first_codes (strs_in (jget j ''source_refs'')))) w, m'))"

type_synonym plan_chapter = "string \<times> string list"

definition safe_chapter :: "json \<Rightarrow> plan_chapter option" where
  "safe_chapter v =
     (if is_str (jget v ''chapter_id'') \<and> str_list (jget v ''source_refs'')
      then Some (text_of (jget v ''chapter_id''), take 8 (strs_in (jget v ''source_refs''))) else None)"

definition safe_chapters :: "json \<Rightarrow> plan_chapter list" where
  "safe_chapters v = List.map_filter safe_chapter (take 3 (items_of v))"

definition chapter_json :: "plan_chapter \<Rightarrow> json" where
  "chapter_json c = JObj [(''chapter_id'', JStr (fst c)), (''source_refs'', str_json (snd c)), (''kind'', JStr ''memory_overview'')]"

definition chapter_refs :: "plan_chapter list \<Rightarrow> string list" where
  "chapter_refs cs = concat (map snd cs)"

definition valid_chapters ::
  "memoir_env \<Rightarrow> string list \<Rightarrow> json option \<Rightarrow> memoir \<Rightarrow> node_error + (plan_chapter list option \<times> memoir)" where
  "valid_chapters env refs data m =
     res_bind (parse_structured_output env data chapter_plan_schema refs ''plan_chapters'' m) (\<lambda>(w, m').
       Inr (case w of
          None \<Rightarrow> None
        | Some j \<Rightarrow>
            (let raw = jget j ''chapters''; cs = safe_chapters raw; n = length (items_of raw)
             in if 1 \<le> n \<and> n \<le> 3 \<and> length cs = n \<and> distinct (map fst cs) \<and> set (chapter_refs cs) \<subseteq> set refs
                then Some cs else None), m'))"

definition accepted_scene :: "string \<Rightarrow> json \<Rightarrow> json option" where
  "accepted_scene v s =
     (let title = jget s ''title_word''
      in if title_word_ok title \<and> (title \<noteq> JNull \<longrightarrow> jget s ''scene_type'' = JStr ''image'' \<or> per_scene_media_enabled v)
         then Some (JObj ([(''scene_id'', jget s ''scene_id''), (''scene_type'', jget s ''scene_type''),
            (''source_refs'', str_json (first_codes (strs_in (jget s ''source_refs''))))] @
            (if is_str (jget s ''body'') then [(''body'', jget s ''body'')] else []) @
            (if title = JNull then [] else [(''title_word'', title)])))
         else None)"

definition valid_scenes ::
  "memoir_env \<Rightarrow> string list \<Rightarrow> string \<Rightarrow> json option \<Rightarrow> memoir \<Rightarrow> node_error + (json list option \<times> memoir)" where
  "valid_scenes env refs v data m =
     res_bind (parse_structured_output env data scene_plan_schema refs ''generate_scenes'' m) (\<lambda>(w, m').
       Inr (case w of
          None \<Rightarrow> None
        | Some j \<Rightarrow>
            (let xs = items_of (jget j ''scenes'');
                 types = (if media_version_enabled v then media_scene_types else plain_scene_types)
             in if 3 \<le> length xs \<and> scene_content_contract_valid xs v \<and>
                  list_all (\<lambda>s. is_str (jget s ''scene_id'') \<and> text_among types (jget s ''scene_type'') \<and>
                     refs_trusted refs (jget s ''source_refs'')) xs \<and>
                  distinct (scene_id_texts xs)
                then all_some (map (accepted_scene v) xs) else None), m'))"

text \<open>One call to the model and, if its answer is rejected, one repair.\<close>

definition model_or_repair ::
  "memoir_env \<Rightarrow> string \<Rightarrow> dict \<Rightarrow> string \<Rightarrow> material list \<Rightarrow>
    (json option \<Rightarrow> memoir \<Rightarrow> node_error + ('a option \<times> memoir)) \<Rightarrow> memoir \<Rightarrow> node_error + ('a option \<times> memoir)" where
  "model_or_repair env node request v materials check m =
     (let (data, m1) = model_data env node request v materials m
      in res_bind (check data m1) (\<lambda>(x, m2).
         case (x, data) of
           (None, Some bad) \<Rightarrow> (let (data2, m3) = repair_model_data env node request bad v materials m2 in check data2 m3)
         | _ \<Rightarrow> Inr (x, m2)))"

section \<open>Highlights, chapters, scenes, actions\<close>

definition node_result :: "string \<Rightarrow> bool \<Rightarrow> dict" where
  "node_result node fallback = [(''node_id'', JStr node), (''fallback'', JBool fallback)]"

definition flag_if :: "bool \<Rightarrow> string \<Rightarrow> memoir \<Rightarrow> memoir" where
  "flag_if b f m = (if b then flag f m else m)"

definition extract_highlights :: "memoir_env \<Rightarrow> string \<Rightarrow> memoir \<Rightarrow> node_error + (dict \<times> memoir)" where
  "extract_highlights env v m =
     (let view = sanitized_material (rn_state m); refs = safe_material_refs view v; texts = safe_material_texts view refs v
      in res_bind (model_or_repair env ''extract_highlights'' [(''source_refs'', str_json refs)] v texts (valid_highlights env refs) m)
        (\<lambda>(x, m1). case x of
            Some hs \<Rightarrow>
              res_bind (apply_output ''highlights'' (JObj [(''source_refs'', str_json hs), (''mode'', JStr ''model'')]) m1)
                (\<lambda>m2. Inr (node_result ''extract_highlights'' False, m2))
          | None \<Rightarrow>
              res_bind (apply_output ''highlights'' (JObj [(''source_refs'', str_json refs), (''mode'', JStr ''template'')])
                  (flag_if (me_has_model env) ''model_unavailable_highlights'' m1))
                (\<lambda>m2. Inr (node_result ''extract_highlights'' True, flag ''template_highlights'' m2))))"

definition chapter_plan_json :: "plan_chapter list \<Rightarrow> json" where
  "chapter_plan_json cs = JObj [(''chapters'', JList (map chapter_json cs))]"

definition plan_chapters :: "memoir_env \<Rightarrow> string \<Rightarrow> memoir \<Rightarrow> node_error + (dict \<times> memoir)" where
  "plan_chapters env v m =
     (let refs = take 8 (strs_in (jget (highlights (rn_state m)) ''source_refs''));
          texts = safe_material_texts (sanitized_material (rn_state m)) refs v
      in res_bind (model_or_repair env ''plan_chapters'' [(''source_refs'', str_json refs)] v texts (valid_chapters env refs) m)
        (\<lambda>(x, m1). case x of
            Some cs \<Rightarrow>
              res_bind (apply_output ''chapter_plan'' (chapter_plan_json cs) m1) (\<lambda>m2. Inr (node_result ''plan_chapters'' False, m2))
          | None \<Rightarrow>
              res_bind (apply_output ''chapter_plan'' (chapter_plan_json [(''chapter-1'', refs)])
                  (flag_if (me_has_model env) ''model_invalid_chapters'' m1))
                (\<lambda>m2. Inr (node_result ''plan_chapters'' True, flag ''template_chapters'' m2))))"

definition template_scenes :: "memoir_env \<Rightarrow> plan_chapter list \<Rightarrow> json list" where
  "template_scenes env cs =
     (let shown = take 3 cs
      in map (\<lambda>(i, c). template_scene env i (snd c)) (zip [1..<4] shown) @
         map (\<lambda>i. template_scene env i []) [length shown + 1..<4])"

definition generate_scenes :: "memoir_env \<Rightarrow> string \<Rightarrow> memoir \<Rightarrow> node_error + (dict \<times> memoir)" where
  "generate_scenes env v m =
     (let cs = safe_chapters (jget (chapter_plan (rn_state m)) ''chapters''); refs = chapter_refs cs;
          texts = safe_material_texts (sanitized_material (rn_state m)) refs v
      in res_bind (model_or_repair env ''generate_scenes'' [(''chapters'', JList (map chapter_json cs))] v texts (valid_scenes env refs v) m)
        (\<lambda>(x, m1). case x of
            Some xs \<Rightarrow>
              res_bind (apply_output ''scenes'' (JList xs) m1) (\<lambda>m2. Inr (node_result ''generate_scenes'' False, m2))
          | None \<Rightarrow>
              res_bind (apply_output ''scenes'' (JList (template_scenes env cs)) (flag_if (me_has_model env) ''model_invalid_scenes'' m1))
                (\<lambda>m2. Inr (node_result ''generate_scenes'' True, flag ''template_scenes'' m2))))"

definition generate_actions :: "memoir \<Rightarrow> node_error + (dict \<times> memoir)" where
  "generate_actions m =
     Inr (node_result ''generate_actions'' True,
          flag ''template_actions'' (m\<lparr>rn_state := (rn_state m)\<lparr>actions := rule_actions (scenes (rn_state m))\<rparr>\<rparr>))"

section \<open>Media\<close>

record media_service =
  sv_generate :: "json \<Rightarrow> json \<Rightarrow> bool \<Rightarrow> json \<times> json"
  sv_image_prefix :: string

definition is_image_scene :: "json \<Rightarrow> bool" where
  "is_image_scene v \<longleftrightarrow> jget v ''scene_type'' = JStr ''image''"

fun without_title :: "json \<Rightarrow> json" where
  "without_title (JObj d) = JObj (filter (\<lambda>kv. fst kv \<noteq> ''title_word'') d)"
| "without_title v = v"

fun as_summary :: "json \<Rightarrow> json" where
  "as_summary (JObj d) =
     JObj (if dget d ''scene_type'' = JStr ''image'' then AList.update ''scene_type'' (JStr ''summary'') d else d)"
| "as_summary v = v"

text \<open>\<open>for ref in value\<close>: a text yields its characters, an object its keys, and what is no container raises.\<close>

fun iterated_texts :: "json \<Rightarrow> runtime_error + string list" where
  "iterated_texts (JList xs) = Inr (strs_in (JList xs))"
| "iterated_texts (JStr x) = Inr (map (\<lambda>c. [c]) x)"
| "iterated_texts (JObj d) = Inr (map fst d)"
| "iterated_texts _ = Inl TypeError"

fun playback_source_refs :: "json list \<Rightarrow> runtime_error + string list" where
  "playback_source_refs [] = Inr []"
| "playback_source_refs (JObj d # vs) =
     res_bind (iterated_texts (dget_default d ''source_refs'' (JList []))) (\<lambda>refs.
     res_bind (playback_source_refs vs) (\<lambda>more. Inr (refs @ more)))"
| "playback_source_refs (_ # vs) = playback_source_refs vs"

definition trusted_refs_of :: "memoir \<Rightarrow> string \<Rightarrow> json \<Rightarrow> runtime_error + string list" where
  "trusted_refs_of m v scenes_v =
     (if is_obj (sanitized_material (rn_state m)) then Inr (safe_material_refs (sanitized_material (rn_state m)) v)
      else playback_source_refs (items_of scenes_v))"

definition reviewed :: "memoir_env \<Rightarrow> string \<Rightarrow> json \<Rightarrow> json \<Rightarrow> memoir \<Rightarrow> node_error + evaluation_decision" where
  "reviewed env v scenes_v actions_v m =
     lifted (res_bind (trusted_refs_of m v scenes_v) (\<lambda>refs. Playback_Checks.evaluate (me_emotional env) refs [] scenes_v actions_v))"

definition put_document :: "json \<Rightarrow> json \<Rightarrow> json \<Rightarrow> memoir \<Rightarrow> memoir" where
  "put_document scenes_v actions_v media m = m\<lparr>rn_state := (rn_state m)\<lparr>scenes := scenes_v, actions := actions_v, media_tasks := media\<rparr>\<rparr>"

definition list_or_empty :: "json \<Rightarrow> json" where
  "list_or_empty v = JList (items_of v)"

definition media_skipped :: "string \<Rightarrow> dict" where
  "media_skipped why = [(''node_id'', JStr ''enqueue_media_tasks''), (''skipped'', JBool True), (''reason_code'', JStr why)]"

definition enqueue_media_tasks :: "memoir_env \<Rightarrow> media_service option \<Rightarrow> string \<Rightarrow> memoir \<Rightarrow> node_error + (dict \<times> memoir)" where
  "enqueue_media_tasks env media v m =
     (let st = rn_state m; per_scene = per_scene_media_enabled v; scs = list_or_empty (scenes st);
          has_image = list_ex is_image_scene (items_of scs)
      in case (if media_version_enabled v then media else None) of
           None \<Rightarrow>
             (let plain = JList (map (without_title \<circ> as_summary) (items_of scs))
              in Inr (media_skipped ''CAPABILITY_DISABLED'',
                  if has_image \<or> per_scene then flag ''media_disabled_degraded'' (put_document plain (rule_actions plain) (JList []) m)
                  else m\<lparr>rn_state := st\<lparr>media_tasks := JList []\<rparr>\<rparr>))
         | Some sv \<Rightarrow>
             if \<not> has_image \<and> \<not> per_scene then Inr (media_skipped ''NO_IMAGE_SCENE'', m\<lparr>rn_state := st\<lparr>media_tasks := JList []\<rparr>\<rparr>)
             else (let acts = (case actions st of JList ys \<Rightarrow> JList ys | _ \<Rightarrow> rule_actions scs)
               in res_bind (reviewed env v scs acts m) (\<lambda>ev.
                  res_bind (if ev_decision ev \<noteq> ''pass'' then Inr False
                            else lifted (is_safe_playback env media_scene_types per_scene True v default_image_prefix JNull scs acts)) (\<lambda>ok.
                  if \<not> ok
                  then Inr (media_skipped ''MEDIA_EGRESS_SAFETY_REJECTED'',
                     flag ''media_egress_safety_fallback'' (put_document (base_scenes env) base_actions (JList []) m))
                  else (let (tasks, scs') = sv_generate sv scs (sanitized_material st) per_scene; tasks = list_or_empty tasks;
                            target = (if per_scene then length (items_of scs) else length (filter is_image_scene (items_of scs)));
                            delivered = length (items_of tasks)
                    in Inr ([(''node_id'', JStr ''enqueue_media_tasks''), (''skipped'', JBool False), (''delivered'', JInt (int delivered))],
                        flag_if (delivered < target) ''media_degraded'' (put_document scs' (rule_actions scs') tasks m)))))))"

section \<open>The safety review\<close>

definition document :: "string \<Rightarrow> json \<Rightarrow> json \<Rightarrow> json \<Rightarrow> json" where
  "document v scenes_v actions_v media =
     JObj ([(''schema_version'', JStr (if audio_version_enabled v then ''2.0.0'' else ''1.0.0'')), (''scenes'', scenes_v),
        (''actions'', actions_v), (''media_manifest'', list_or_empty media)] @
       (if audio_version_enabled v then [(''audio'', JObj [(''narrations'', JList []), (''background_music'', JNull)])] else []))"

definition effective_image_prefix :: "media_service option \<Rightarrow> string" where
  "effective_image_prefix media = (case media of None \<Rightarrow> default_image_prefix | Some sv \<Rightarrow> sv_image_prefix sv)"

definition record_review :: "memoir_env \<Rightarrow> string \<Rightarrow> evaluation_decision \<Rightarrow> memoir \<Rightarrow> memoir" where
  "record_review env rid ev m =
     (if me_records env
      then m\<lparr>rn_ledger := snd (record_evaluation rid (Some ''safety_review'') ''playback_document'' None ''memoir_playback'' ev (me_now env) (rn_ledger m))\<rparr>
      else m)"

definition report_json :: "bool \<Rightarrow> json" where
  "report_json passed =
     (if passed then JObj [(''decision'', JStr ''passed'')]
      else JObj [(''decision'', JStr ''fallback''), (''reason'', JStr ''INVALID_PLAYBACK_STRUCTURE'')])"

definition safety_review :: "memoir_env \<Rightarrow> media_service option \<Rightarrow> agent_run \<Rightarrow> memoir \<Rightarrow> node_error + (dict \<times> memoir)" where
  "safety_review env media r m =
     (let st = rn_state m; v = agent_version r;
          types = (if media_version_enabled v then media_scene_types else plain_scene_types)
      in res_bind (reviewed env v (scenes st) (actions st) m) (\<lambda>ev.
         res_bind (if ev_decision ev \<noteq> ''pass'' then Inr False
                   else lifted (is_safe_playback env types (per_scene_media_enabled v) False v (effective_image_prefix media)
                     (media_tasks st) (scenes st) (actions st))) (\<lambda>ok.
           let m1 = (if ok then m else flag ''safety_fallback'' (put_document (base_scenes env) base_actions (JList []) m));
               m2 = record_review env (run_id r) ev m1; st2 = rn_state m2
           in Inr ([(''node_id'', JStr ''safety_review''), (''safe'', JBool ok)],
                m2\<lparr>rn_state := st2\<lparr>safety_report := report_json ok,
                   playback_document := document v (scenes st2) (actions st2) (media_tasks st2)\<rparr>\<rparr>))))"

section \<open>Audio\<close>

definition audio_skipped :: "string \<Rightarrow> dict" where
  "audio_skipped why = [(''node_id'', JStr ''enqueue_audio_tasks''), (''skipped'', JBool True), (''reason_code'', JStr why)]"

text \<open>The audio service answers with its part of the document, or raises.\<close>

definition enqueue_audio_tasks :: "(json \<Rightarrow> dict option) option \<Rightarrow> string \<Rightarrow> memoir \<Rightarrow> node_error + (dict \<times> memoir)" where
  "enqueue_audio_tasks audio v m =
     (case playback_document (rn_state m) of
        JObj doc \<Rightarrow>
          if \<not> audio_version_enabled v then Inr (audio_skipped ''AUDIO_VERSION_DISABLED'', m)
          else (case audio of
              None \<Rightarrow> Inr (audio_skipped ''CAPABILITY_DISABLED'', flag ''audio_disabled'' m)
            | Some generate \<Rightarrow>
                (let candidates = length (filter (\<lambda>s. readable_text (jget s ''body'')) (items_of (dget doc ''scenes'')));
                     answer = generate (JObj doc); part = (case answer of None \<Rightarrow> [] | Some d \<Rightarrow> d);
                     m1 = flag_if (answer = None) ''audio_node_failed'' m;
                     narrations = list_or_empty (dget part ''narrations'');
                     music = (if is_obj (dget part ''background_music'') then dget part ''background_music'' else JNull);
                     doc' = AList.update ''audio'' (JObj [(''narrations'', narrations), (''background_music'', music)]) doc;
                     m2 = m1\<lparr>rn_state := (rn_state m1)\<lparr>playback_document := JObj doc'\<rparr>\<rparr>
                 in Inr ([(''node_id'', JStr ''enqueue_audio_tasks''), (''skipped'', JBool False),
                      (''narrations'', JInt (int (length (items_of narrations)))), (''background_music'', JBool (music \<noteq> JNull))],
                     flag_if (length (items_of narrations) < candidates \<or> music = JNull) ''audio_degraded'' m2)))
      | _ \<Rightarrow> Inr (audio_skipped ''AUDIO_VERSION_DISABLED'', m))"

section \<open>The base document\<close>

definition safe_templates :: "memoir_env \<Rightarrow> bool" where
  "safe_templates env \<longleftrightarrow> me_bodies env \<noteq> [] \<and>
     list_all (\<lambda>b. length b \<le> 80 \<and> \<not> identifier_inside b \<and> \<not> me_emotional env b) (me_bodies env)"

lemma template_body_safe:
  assumes "safe_templates env"
  shows "length (template_body env i) \<le> 80" "\<not> identifier_inside (template_body env i)" "\<not> me_emotional env (template_body env i)"
proof -
  obtain b bs where bs: "me_bodies env = b # bs" using assms by (cases "me_bodies env") (auto simp: safe_templates_def)
  have "template_body env i = me_bodies env ! ((i - 1) mod length (me_bodies env))" by (simp add: template_body_def bs)
  then have "template_body env i \<in> set (me_bodies env)" by (metis bs length_greater_0_conv list.distinct(1) mod_less_divisor nth_mem)
  then show "length (template_body env i) \<le> 80" "\<not> identifier_inside (template_body env i)" "\<not> me_emotional env (template_body env i)"
    using assms by (auto simp: safe_templates_def list_all_iff)
qed

text \<open>An object whose values are no objects or lists of such, under harmless keys, carries no control field.\<close>

definition harmless :: "string \<Rightarrow> bool" where
  "harmless k \<longleftrightarrow> lower k \<notin> set forbidden_control_fields"

lemma harmless_keys [simp]:
  "harmless ''scene_id''" "harmless ''scene_type''" "harmless ''source_refs''" "harmless ''body''" "harmless ''action_id''"
  "harmless ''action_type''" "harmless ''duration_ms''"
  by code_simp+

lemma flat_object_clean:
  "list_all (\<lambda>kv. harmless (fst kv) \<and> \<not> contains_forbidden_control_field (snd kv)) d \<Longrightarrow> \<not> carries_control (JObj d)"
  unfolding contains_forbidden_iff [symmetric] by (auto simp: list_all_iff list_ex_iff harmless_def)

lemma str_json_clean [simp]: "\<not> contains_forbidden_control_field (str_json xs)"
  by (simp add: str_json_def list_ex_iff)

lemma small_numerals: "numeral_string (Suc 0) = ''1''" "numeral_string 2 = ''2''" "numeral_string 3 = ''3''"
  by code_simp+

definition template_dict :: "memoir_env \<Rightarrow> nat \<Rightarrow> dict" where
  "template_dict env i =
     [(''scene_id'', JStr (''scene-'' @ numeral_string i)), (''scene_type'', JStr ''summary''), (''source_refs'', JList []),
       (''body'', JStr (template_body env i))]"

definition base_action_dict :: "nat \<Rightarrow> dict" where
  "base_action_dict i =
     [(''action_id'', JStr (''action-'' @ numeral_string i)), (''scene_id'', JStr (''scene-'' @ numeral_string i)),
       (''action_type'', JStr ''show_card''), (''duration_ms'', JInt 3000)]"

lemma template_scene_dict: "template_scene env i [] = JObj (template_dict env i)"
  by (simp add: template_scene_def template_dict_def str_json_def)

lemma base_action_eq: "base_action i = JObj (base_action_dict i)"
  by (simp add: base_action_def base_action_dict_def)

lemma template_publishable:
  assumes "safe_templates env"
  shows "scene_publishable (me_emotional env) refs (template_dict env i)"
proof -
  have "\<not> carries_control (JObj (template_dict env i))" by (rule flat_object_clean) (simp add: template_dict_def)
  moreover have "body_safe (me_emotional env) (JStr (template_body env i))"
    using template_body_safe [OF assms] by (simp add: body_safe_def)
  ultimately show ?thesis
    by (simp add: scene_publishable_def semantic_clean_def template_dict_def source_refs_of_def container_ok_def stats_ok_def
        dget_def dget_default_def has_key_def scene_types_def safety_levels_def)
qed

lemma base_action_publishable: "action_publishable refs [] n (base_action_dict i)"
proof -
  have "\<not> carries_control (JObj (base_action_dict i))" by (rule flat_object_clean) (simp add: base_action_dict_def)
  then show ?thesis
    by (simp add: action_publishable_def semantic_clean_def base_action_dict_def source_refs_of_def container_ok_def stats_ok_def
        dget_def dget_default_def has_key_def playback_actions_def capability_actions_def)
qed

lemma base_publishable:
  assumes "safe_templates env"
  shows "publishable (me_emotional env) refs [] (base_scenes env) base_actions"
  unfolding publishable_def
proof (intro exI conjI)
  show "items_of (base_scenes env) = map JObj (map (template_dict env) [1, 2, 3])"
    by (simp add: base_scenes_def template_scene_dict)
  show "items_of base_actions = map JObj (map base_action_dict [1, 2, 3])" by (simp add: base_actions_def base_action_eq)
  show "texts_at ''scene_id'' (map (template_dict env) [1, 2, 3]) [''scene-1'', ''scene-2'', ''scene-3'']"
    by (simp add: texts_at_def template_dict_def dget_def small_numerals)
  show "texts_at ''action_id'' (map base_action_dict [1, 2, 3]) [''action-1'', ''action-2'', ''action-3'']"
    "texts_at ''scene_id'' (map base_action_dict [1, 2, 3]) [''scene-1'', ''scene-2'', ''scene-3'']"
    by (simp_all add: texts_at_def base_action_dict_def dget_def small_numerals)
  show "list_all (scene_publishable (me_emotional env) refs) (map (template_dict env) [1, 2, 3])"
    using template_publishable [OF assms] by simp
  show "\<forall>i<length (map base_action_dict [1, 2, 3]). action_publishable refs [] (int i + 1) (map base_action_dict [1, 2, 3] ! i)"
    using base_action_publishable by (simp add: nth_Cons split: nat.split)
qed simp_all

lemma base_safe:
  assumes "safe_templates env" and types: "''summary'' \<in> set types"
  shows "is_safe_playback env types per_scene False v prefix (JList []) (base_scenes env) base_actions = Inr True"
proof -
  note safe = template_body_safe [OF assms(1)]
  let ?xs = "map (\<lambda>i. JObj (template_dict env i)) [1, 2, 3]"
  have xs: "base_scenes env = JList ?xs" by (simp add: base_scenes_def template_scene_dict)
  have ids: "scene_id_texts ?xs = [''scene-1'', ''scene-2'', ''scene-3'']"
    by (simp add: scene_id_texts_def template_dict_def dget_def small_numerals)
  have "scene_content_contract_valid ?xs v" using safe(1)
    by (simp add: scene_content_contract_valid_def template_dict_def dget_def)
  moreover have "playback_scene_ok env types (JObj (template_dict env i))" for i
    using types safe by (simp add: playback_scene_ok_def template_dict_def dget_def text_among_def sensitive_text_iff)
  moreover have "payload_ok [] per_scene False (JObj (template_dict env i))" for i
    by (simp add: payload_ok_def template_dict_def dget_def no_payload_def)
  moreover have "playback_actions_ok ?xs base_actions = Inr True"
  proof -
    have "playback_action_ok [''scene-1'', ''scene-2'', ''scene-3''] (base_action i) = Inr True" if "i \<in> {1, 2, 3}" for i
      using that by (auto simp: playback_action_ok_def base_action_def dget_def text_among_def plain_action_types_def small_numerals)
    moreover have "scene_id_texts (items_of base_actions) = [''scene-1'', ''scene-2'', ''scene-3'']"
      by (simp add: scene_id_texts_def base_actions_def base_action_def dget_def small_numerals)
    ultimately show ?thesis unfolding playback_actions_ok_def ids by (simp add: base_actions_def)
  qed
  ultimately show ?thesis unfolding is_safe_playback_def xs using ids by (simp add: manifest_urls_def)
qed

section \<open>What leaves the agent\<close>

lemma reviewed_pass:
  assumes "reviewed env v scs acts m = Inr ev" "ev_decision ev = ''pass''"
  shows "\<exists>refs. trusted_refs_of m v scs = Inr refs \<and> publishable (me_emotional env) refs [] scs acts"
proof -
  from assms(1) obtain refs where refs: "trusted_refs_of m v scs = Inr refs"
    and ev: "Playback_Checks.evaluate (me_emotional env) refs [] scs acts = Inr ev"
    by (auto simp: reviewed_def lifted_def res_simps split: sum.split_asm)
  obtain xs a b n where "ev = decide xs a b n" using ev by (auto simp: Playback_Checks.evaluate_def res_simps Let_def)
  with assms(2) have "ev_next_node ev = ''publish_document''" by (simp add: decide_def Let_def split: if_splits)
  with ev assms(2) refs published_iff show ?thesis by blast
qed

text \<open>C35. Every document that leaves the safety review is fit to be published, whatever the nodes before it produced: it passes
  the evaluation against the references of the run and the contract of its version, and a document that did not
  pass is replaced by the base cards, without media.\<close>

theorem reviewed_document_safe:
  assumes review: "safety_review env media r m = Inr (out, m')" and safe: "safe_templates env"
  shows "\<exists>scs acts tasks refs. playback_document (rn_state m') = document (agent_version r) scs acts tasks \<and>
    trusted_refs_of m (agent_version r) (scenes (rn_state m)) = Inr refs \<and> publishable (me_emotional env) refs [] scs acts \<and>
    is_safe_playback env (if media_version_enabled (agent_version r) then media_scene_types else plain_scene_types)
      (per_scene_media_enabled (agent_version r)) False (agent_version r) (effective_image_prefix media) tasks scs acts = Inr True \<and>
    (scs = scenes (rn_state m) \<and> acts = actions (rn_state m) \<and> tasks = media_tasks (rn_state m) \<or>
     scs = base_scenes env \<and> acts = base_actions \<and> tasks = JList [] \<and> dget out ''safe'' = JBool False)"
proof -
  let ?v = "agent_version r" and ?st = "rn_state m"
  let ?types = "if media_version_enabled ?v then media_scene_types else plain_scene_types"
  from review obtain ev ok where ev: "reviewed env ?v (scenes ?st) (actions ?st) m = Inr ev"
    and ok: "(if ev_decision ev \<noteq> ''pass'' then Inr False
       else lifted (is_safe_playback env ?types (per_scene_media_enabled ?v) False ?v (effective_image_prefix media)
         (media_tasks ?st) (scenes ?st) (actions ?st))) = Inr ok"
    and out: "out = [(''node_id'', JStr ''safety_review''), (''safe'', JBool ok)]"
    and doc: "playback_document (rn_state m') = (let st2 = rn_state (if ok then m
       else flag ''safety_fallback'' (put_document (base_scenes env) base_actions (JList []) m))
       in document ?v (scenes st2) (actions st2) (media_tasks st2))"
    by (auto simp: safety_review_def res_simps Let_def record_review_def)
  obtain refs where refs: "trusted_refs_of m ?v (scenes ?st) = Inr refs"
    using ev by (auto simp: reviewed_def lifted_def res_simps split: sum.split_asm)
  have types: "''summary'' \<in> set ?types" by (simp add: media_scene_types_def plain_scene_types_def)
  show ?thesis
  proof (cases ok)
    case True
    with ok have pass: "ev_decision ev = ''pass''" and sp: "is_safe_playback env ?types (per_scene_media_enabled ?v) False ?v
        (effective_image_prefix media) (media_tasks ?st) (scenes ?st) (actions ?st) = Inr True"
      by (auto simp: lifted_def split: if_splits sum.split_asm)
    from reviewed_pass [OF ev pass] refs have "publishable (me_emotional env) refs [] (scenes ?st) (actions ?st)" by simp
    with sp doc refs True show ?thesis
      by - (rule exI [of _ "scenes ?st"], rule exI [of _ "actions ?st"], rule exI [of _ "media_tasks ?st"],
          rule exI [of _ refs], simp add: Let_def)
  next
    case False
    have "playback_document (rn_state m') = document ?v (base_scenes env) base_actions (JList [])"
      using doc False by (simp add: flag_def put_document_def)
    moreover have "dget out ''safe'' = JBool False" using out False by (simp add: dget_def)
    ultimately show ?thesis using refs base_publishable [OF safe] base_safe [OF safe types]
      by - (rule exI [of _ "base_scenes env"], rule exI [of _ base_actions], rule exI [of _ "JList []"],
          rule exI [of _ refs], simp)
  qed
qed

text \<open>A scene text leaves for the media provider only after the same checks, before any media exists.\<close>

lemma media_egress_reviewed:
  assumes "enqueue_media_tasks env media v m = Inr (out, m')" "dget out ''skipped'' = JBool False"
  shows "\<exists>sv acts refs. media = Some sv \<and> media_version_enabled v \<and>
    publishable (me_emotional env) refs [] (list_or_empty (scenes (rn_state m))) acts \<and>
    is_safe_playback env media_scene_types (per_scene_media_enabled v) True v default_image_prefix JNull
      (list_or_empty (scenes (rn_state m))) acts = Inr True"
proof -
  obtain sv where sv: "media = Some sv" "media_version_enabled v"
    using assms by (auto simp: enqueue_media_tasks_def Let_def media_skipped_def dget_def split: option.splits if_splits)
  let ?scs = "list_or_empty (scenes (rn_state m))"
  let ?acts = "case actions (rn_state m) of JList ys \<Rightarrow> JList ys | _ \<Rightarrow> rule_actions ?scs"
  have "\<exists>ev. reviewed env v ?scs ?acts m = Inr ev \<and> ev_decision ev = ''pass'' \<and>
      is_safe_playback env media_scene_types (per_scene_media_enabled v) True v default_image_prefix JNull ?scs ?acts = Inr True"
    using assms sv
    by (auto simp: enqueue_media_tasks_def Let_def media_skipped_def dget_def res_simps lifted_def
        split: if_splits sum.split_asm prod.split_asm)
  with sv reviewed_pass show ?thesis by blast
qed

definition demo_prompts :: prompt_files where
  "demo_prompts = \<lparr>pf_inside = (\<lambda>_ _. False), pf_manifest = (\<lambda>_ _. None), pf_file_ok = (\<lambda>_ _ _. False), pf_text = (\<lambda>_ _ _. None)\<rparr>"

definition demo_env :: memoir_env where
  "demo_env = \<lparr>me_has_model = False, me_has_repair = False, me_reply = (\<lambda>_ _ _. None), me_repair = (\<lambda>_ _ _ _. None),
     me_token_budget = (\<lambda>_. None), me_prompts = demo_prompts, me_dumps = (\<lambda>_. []), me_loads = (\<lambda>_. None),
     me_literal_eval = (\<lambda>_. None), me_clean = (\<lambda>x. x), me_emotional = (\<lambda>_. False), me_bodies = [''hello''],
     me_uuid = (\<lambda>_. False), me_url_path = (\<lambda>x. x), me_records = True, me_now = 5\<rparr>"

definition demo_memoir :: memoir where
  "demo_memoir = \<lparr>rn_state = new_state [] [] [], rn_calls = [], rn_rejections = [], rn_ledger = (demo_db demo_claimed, [])\<rparr>"

theorem reviewed_document_safe_witness:
  "\<exists>out m'. safety_review demo_env None demo_claimed demo_memoir = Inr (out, m') \<and>
     playback_document (rn_state m') = document (agent_version demo_claimed) (base_scenes demo_env) base_actions (JList []) \<and>
     publishable (\<lambda>_. False) [] [] (base_scenes demo_env) base_actions"
proof -
  have "case safety_review demo_env None demo_claimed demo_memoir of Inr (out, m') \<Rightarrow> scenes (rn_state m') = base_scenes demo_env
     | Inl _ \<Rightarrow> False" by code_simp
  then obtain out m' where o: "safety_review demo_env None demo_claimed demo_memoir = Inr (out, m')"
    "scenes (rn_state m') = base_scenes demo_env" by (auto split: sum.split_asm)
  have "\<not> identifier_inside ''hello''" unfolding sensitive_text_iff [symmetric] by code_simp
  then have t: "safe_templates demo_env" by (simp add: safe_templates_def demo_env_def)
  have "scenes (rn_state demo_memoir) = JNull" "me_emotional demo_env = (\<lambda>_. False)" by (simp_all add: demo_memoir_def demo_env_def new_state_def)
  moreover have "\<not> publishable e refs caps JNull acts" for e refs caps acts by (auto simp: publishable_def)
  ultimately show ?thesis using reviewed_document_safe [OF o(1) t] o
    by (auto simp: trusted_refs_of_def demo_memoir_def new_state_def)
qed

section \<open>Actions\<close>

fun rule_dicts :: "nat \<Rightarrow> dict list \<Rightarrow> string list \<Rightarrow> dict list" where
  "rule_dicts i (d # ds) (s # ss) = rule_action i d s # rule_dicts (Suc i) ds ss"
| "rule_dicts i ds ss = []"

lemma rule_actions_from_dicts:
  "texts_at ''scene_id'' ds ids \<Longrightarrow> rule_actions_from i (map JObj ds) = map JObj (rule_dicts i ds ids)"
  by (induction i ds ids rule: rule_dicts.induct) (auto simp: texts_at_Cons dest: texts_at_length)

lemma rule_dicts_scenes: "length ds = length ids \<Longrightarrow> texts_at ''scene_id'' (rule_dicts i ds ids) ids"
  by (induction i ds ids rule: rule_dicts.induct) (auto simp: texts_at_Cons rule_action_def dget_def)

fun action_names :: "nat \<Rightarrow> nat \<Rightarrow> string list" where
  "action_names i 0 = []"
| "action_names i (Suc n) = (''action-'' @ numeral_string i) # action_names (Suc i) n"

lemma action_names_later: "x \<in> set (action_names i n) \<Longrightarrow> \<exists>j\<ge>i. x = ''action-'' @ numeral_string j"
  by (induction i n rule: action_names.induct) (auto dest: Suc_leD)

lemma action_names_distinct: "distinct (action_names i n) \<and> [] \<notin> set (action_names i n)"
  by (induction i n rule: action_names.induct) (auto dest!: action_names_later)

lemma rule_dicts_names:
  "length ds = length ids \<Longrightarrow> texts_at ''action_id'' (rule_dicts i ds ids) (action_names i (length ds))"
  by (induction i ds ids rule: rule_dicts.induct) (auto simp: texts_at_Cons rule_action_def dget_def)

lemma rule_type_known: "rule_type v = ''show_card'' \<or> rule_type v = ''type_text''"
proof (cases "\<exists>t a. v = JStr t \<and> map_of scene_action_rules t = Some a")
  case True
  then obtain t a where v: "v = JStr t" and a: "map_of scene_action_rules t = Some a" by blast
  from map_of_SomeD [OF a] have "a = ''show_card'' \<or> a = ''type_text''" by (auto simp: scene_action_rules_def)
  with v a show ?thesis by (simp add: rule_type_def)
next
  case False
  then show ?thesis by (auto simp: rule_type_def split: json.split option.split)
qed

lemma rule_action_publishable: "action_publishable refs caps n (rule_action i d s)"
proof -
  have "3000 \<le> rule_duration d" by (simp add: rule_duration_def)
  moreover have "\<not> carries_control (JObj (rule_action i d s))" by (rule flat_object_clean) (simp add: rule_action_def)
  ultimately show ?thesis using rule_type_known [of "dget d ''scene_type''"]
    by (auto simp: action_publishable_def semantic_clean_def rule_action_def source_refs_of_def container_ok_def stats_ok_def
        dget_def dget_default_def has_key_def playback_actions_def capability_actions_def)
qed

lemma rule_dicts_all: "list_all (\<lambda>d. \<forall>refs caps n. action_publishable refs caps n d) (rule_dicts i ds ids)"
  by (induction i ds ids rule: rule_dicts.induct) (auto simp: rule_action_publishable)

text \<open>C36. The actions that are derived from the scenes complete every acceptable list of scenes: three or more publishable
  scenes with distinct names, together with their derived actions, are a publishable document.\<close>

theorem derived_actions_complete:
  assumes "3 \<le> length ds" and "list_all (scene_publishable emotional refs) ds"
    and ids: "texts_at ''scene_id'' ds ids" and "distinct ids" and "[] \<notin> set ids"
  shows "publishable emotional refs caps (JList (map JObj ds)) (rule_actions (JList (map JObj ds)))"
proof -
  let ?as = "rule_dicts 1 ds ids"
  have len: "length ds = length ids" using texts_at_length [OF ids] by simp
  have items: "items_of (rule_actions (JList (map JObj ds))) = map JObj ?as"
    using rule_actions_from_dicts [OF ids] by (simp add: rule_actions_def)
  have names: "texts_at ''action_id'' ?as (action_names 1 (length ds))" by (rule rule_dicts_names [OF len])
  have played: "texts_at ''scene_id'' ?as ids" by (rule rule_dicts_scenes [OF len])
  have "\<forall>i<length ?as. action_publishable refs caps (int i + 1) (?as ! i)"
    using rule_dicts_all [of 1 ds ids] by (auto simp: list_all_length)
  moreover have "length ?as = length ds" using texts_at_length [OF played] len by simp
  ultimately show ?thesis unfolding publishable_def using assms items names played action_names_distinct [of 1 "length ds"]
    by - (rule exI [of _ ds], rule exI [of _ ?as], rule exI [of _ ids], rule exI [of _ "action_names 1 (length ds)"],
        rule exI [of _ ids], simp)
qed

theorem derived_actions_complete_witness:
  "publishable (\<lambda>_. False) [] [] (base_scenes demo_env) (rule_actions (base_scenes demo_env))"
proof -
  let ?ds = "map (template_dict demo_env) [1, 2, 3]"
  have "\<not> identifier_inside ''hello''" unfolding sensitive_text_iff [symmetric] by code_simp
  then have "safe_templates demo_env" by (simp add: safe_templates_def demo_env_def)
  moreover have "me_emotional demo_env = (\<lambda>_. False)" by (simp add: demo_env_def)
  ultimately have "list_all (scene_publishable (\<lambda>_. False) []) ?ds" using template_publishable [of demo_env "[]"] by simp
  moreover have "texts_at ''scene_id'' ?ds [''scene-1'', ''scene-2'', ''scene-3'']"
    by (simp add: texts_at_def template_dict_def dget_def small_numerals)
  ultimately show ?thesis
    using derived_actions_complete [of ?ds "\<lambda>_. False" "[]" "[''scene-1'', ''scene-2'', ''scene-3'']" "[]"]
    by (simp add: base_scenes_def template_scene_dict)
qed

end
