(* ===== verification/Memoir_Loop.thy ===== *)
theory Memoir_Loop
  imports Memoir_Nodes Bounded_Loop
begin

text \<open>
  The loop of the memoir agent (\<open>begin_loop\<close>, \<open>run_loop_iteration\<close> and \<open>finalize_loop\<close> in
  \<open>app/agents/memoir_agent/runner.py\<close>), which the executor drives, and the node that closes gaps in the coverage
  after it. An iteration keeps what it changed when it raises, so it returns a state in both cases. Strings are
  lists of code points, so that lengths are lengths of texts.
\<close>

section \<open>Batches\<close>

record loop_runner_state =
  lr_memoir :: memoir
  lr_materials :: "material list option"
  lr_cursor :: nat
  lr_first :: "(int \<times> material list \<times> string list) option"
  lr_final :: "(int \<times> material list \<times> string list) option"

definition estimate_material_tokens :: "string \<Rightarrow> int" where
  "estimate_material_tokens x = max 1 ((int (length x) + 3) div 4)"

definition loop_batch_token_cap :: "memoir_env \<Rightarrow> int \<Rightarrow> int" where
  "loop_batch_token_cap env left =
     min (case me_token_budget env ''generate_scene_batch'' of Some (JInt n) \<Rightarrow> if 0 < n then n else 4096 | _ \<Rightarrow> 4096) (max left 0)"

fun distinct_texts :: "string list \<Rightarrow> json list \<Rightarrow> material list" where
  "distinct_texts seen [] = []"
| "distinct_texts seen (v # vs) =
     (let ref = text_of (jget v ''source_ref'')
      in if jget v ''sensitive'' = JBool False \<and> filled_text (jget v ''source_ref'') \<and> ref \<notin> set seen \<and> readable_text (jget v ''text'')
         then (ref, text_of (jget v ''text'')) # distinct_texts (ref # seen) vs
         else distinct_texts seen vs)"

definition loop_material_texts :: "json \<Rightarrow> material list" where
  "loop_material_texts view = distinct_texts [] (view_items view)"

definition begin_loop :: "memoir_env \<Rightarrow> loop_runner_state \<Rightarrow> runtime_error + loop_runner_state" where
  "begin_loop env st =
     (if \<not> me_has_model env then Inl (ValueError ''LOOP_MODEL_GATEWAY_UNAVAILABLE'')
      else (let ms = loop_material_texts (sanitized_material (rn_state (lr_memoir st)))
        in if ms = [] then Inl (ValueError ''LOOP_MATERIALS_MISSING'')
           else Inr (st\<lparr>lr_materials := Some ms, lr_cursor := 0, lr_first := None, lr_final := None\<rparr>)))"

text \<open>The batch taken from the front of the remaining materials, and how many of them it used up.\<close>

fun pack_batch :: "int \<Rightarrow> material list \<Rightarrow> int \<Rightarrow> nat \<Rightarrow> material list \<times> nat" where
  "pack_batch cap [] used n = ([], 0)"
| "pack_batch cap (x # xs) used n =
     (let t = estimate_material_tokens (snd x)
      in if 8 \<le> n then ([], 0)
         else if cap < t then (let (b, c) = pack_batch cap xs used n in (b, Suc c))
         else if cap < used + t then ([], 0)
         else (let (b, c) = pack_batch cap xs (used + t) (Suc n) in (x # b, Suc c)))"

section \<open>The output of a batch\<close>

definition card_schema :: "string list \<Rightarrow> json \<Rightarrow> dict option" where
  "card_schema types v =
     (case closed_object [''scene_id'', ''scene_type'', ''source_refs'', ''body'', ''title_word''] v of
        None \<Rightarrow> None
      | Some d \<Rightarrow> if is_str (dget d ''scene_id'') \<and> text_among types (dget d ''scene_type'') \<and> str_list (dget d ''source_refs'') \<and>
            is_str (dget d ''body'') \<and> optional_text (dget d ''title_word'')
          then Some (map (\<lambda>k. (k, dget d k)) [''scene_id'', ''scene_type'', ''source_refs'', ''body'', ''title_word'']) else None)"

definition cards_schema :: "string list \<Rightarrow> json \<Rightarrow> dict list option" where
  "cards_schema types v =
     (case closed_object [''scenes''] v of None \<Rightarrow> None | Some d \<Rightarrow> all_valid (card_schema types) (dget d ''scenes''))"

definition parsed_cards :: "memoir_env \<Rightarrow> string list \<Rightarrow> json \<Rightarrow> dict list option" where
  "parsed_cards env types data =
     (case raw_output env (Some data) of
        None \<Rightarrow> None
      | Some raw \<Rightarrow>
          (let (v, _) = parse_json_once (me_loads env) (me_literal_eval env) (JStr raw)
           in if v = JNull then None else cards_schema types v))"

definition card_filled :: "dict \<Rightarrow> bool" where
  "card_filled d \<longleftrightarrow> items_of (dget d ''source_refs'') \<noteq> [] \<and> readable_text (dget d ''body'') \<and> title_word_ok (dget d ''title_word'')"

definition card_entry :: "dict \<Rightarrow> dict" where
  "card_entry d =
     [(''scene_id'', dget d ''scene_id''), (''scene_type'', dget d ''scene_type''),
      (''source_refs'', str_json (first_codes (strs_in (dget d ''source_refs'')))), (''body'', dget d ''body'')] @
     (if dget d ''title_word'' = JNull then [] else [(''title_word'', dget d ''title_word'')])"

definition card_at_place :: "bool \<Rightarrow> bool \<Rightarrow> nat \<Rightarrow> nat \<Rightarrow> dict \<Rightarrow> bool" where
  "card_at_place is_first is_final n_all i d \<longleftrightarrow>
     (dget d ''scene_type'' = JStr ''cover'' \<longrightarrow> is_first \<and> i = 0) \<and>
     (dget d ''scene_type'' = JStr ''summary'' \<longrightarrow> is_final \<and> Suc i = n_all)"

text \<open>A card whose references or fields the semantic validation rejects is reported to the gateway.\<close>

fun checked_cards ::
  "memoir_env \<Rightarrow> string \<Rightarrow> string list \<Rightarrow> (nat \<Rightarrow> dict list \<Rightarrow> dict \<Rightarrow> bool) \<Rightarrow> (nat \<Rightarrow> dict \<Rightarrow> bool) \<Rightarrow> nat \<Rightarrow> dict list \<Rightarrow> dict list \<Rightarrow>
    memoir \<Rightarrow> runtime_error + (dict list option \<times> memoir)" where
  "checked_cards env node refs named placed i acc [] m = Inr (Some acc, m)"
| "checked_cards env node refs named placed i acc (d # ds) m =
     (if \<not> named i acc d then Inr (None, m)
      else res_bind (semantic_validate refs (JObj d)) (\<lambda>sem.
        if \<not> sm_valid sem then Inr (None, if me_has_model env then reject node (sm_error_codes sem) m else m)
        else if \<not> card_filled d \<or> \<not> placed i d then Inr (None, m)
        else checked_cards env node refs named placed (Suc i) (acc @ [card_entry d]) ds m))"

definition has_type_at :: "string \<Rightarrow> dict option \<Rightarrow> bool" where
  "has_type_at t x = (case x of None \<Rightarrow> False | Some d \<Rightarrow> dget d ''scene_type'' = JStr t)"

definition head_of :: "'a list \<Rightarrow> 'a option" where
  "head_of xs = (case xs of [] \<Rightarrow> None | x # _ \<Rightarrow> Some x)"

definition last_of :: "'a list \<Rightarrow> 'a option" where
  "last_of xs = head_of (rev xs)"

definition parse_batch_output ::
  "memoir_env \<Rightarrow> json \<Rightarrow> string list \<Rightarrow> bool \<Rightarrow> bool \<Rightarrow> string \<Rightarrow> memoir \<Rightarrow> runtime_error + (dict list option \<times> memoir)" where
  "parse_batch_output env data refs is_first is_final v m =
     (case parsed_cards env plain_scene_types data of
        None \<Rightarrow> Inr (None, m)
      | Some ds \<Rightarrow>
          res_bind (checked_cards env ''generate_scene_batch'' refs (\<lambda>_ _ _. True) (card_at_place is_first is_final (length ds)) 0 [] ds m)
            (\<lambda>(x, m'). Inr (case x of
                None \<Rightarrow> None
              | Some cards \<Rightarrow>
                  if version_at_least v ''1.0.6'' \<and>
                     (is_first \<and> \<not> has_type_at ''cover'' (head_of cards) \<or> is_final \<and> \<not> has_type_at ''summary'' (last_of cards))
                  then None else Some cards, m')))"

section \<open>One iteration\<close>

definition loop_scenes :: "memoir \<Rightarrow> json list" where
  "loop_scenes m = items_of (scenes (rn_state m))"

definition batch_request :: "int \<Rightarrow> bool \<Rightarrow> bool \<Rightarrow> string list \<Rightarrow> dict" where
  "batch_request i is_first is_final refs =
     [(''batch_index'', JInt i), (''is_first_batch'', JBool is_first), (''is_final_batch'', JBool is_final), (''source_refs'', str_json refs)]"

definition refs_covered :: "json list \<Rightarrow> int" where
  "refs_covered xs = int (length (remdups (concat (map (\<lambda>v. strs_in (jget v ''source_refs'')) xs))))"

definition iteration :: "loop_outcome \<Rightarrow> string option \<Rightarrow> json list \<Rightarrow> iteration_result" where
  "iteration out why xs =
     \<lparr>it_outcome = out, it_reason_code = why, output_count = int (length xs), coverage_count = refs_covered xs\<rparr>"

text \<open>From version 1.0.6 on the cursor moves only when the output of the batch was accepted.\<close>

definition batch_call ::
  "memoir_env \<Rightarrow> string \<Rightarrow> int \<Rightarrow> material list \<Rightarrow> nat \<Rightarrow> nat \<Rightarrow> loop_runner_state \<Rightarrow> (node_error + iteration_result) \<times> loop_runner_state" where
  "batch_call env v i batch next n_all st =
     (let legacy = (\<not> version_at_least v ''1.0.6''); refs = map fst batch;
          is_first = (loop_scenes (lr_memoir st) = []); is_final = (n_all \<le> next);
          st1 = st\<lparr>lr_cursor := (if legacy then next else lr_cursor st),
              lr_first := (if is_first then Some (i, batch, refs) else lr_first st),
              lr_final := (if is_final then Some (i, batch, refs) else lr_final st)\<rparr>;
          (data, m) = model_data env ''generate_scene_batch'' (batch_request i is_first is_final refs) v batch (lr_memoir st1);
          st2 = st1\<lparr>lr_memoir := m\<rparr>
      in case data of
           None \<Rightarrow> (Inl (RuntimeError ''LOOP_BATCH_MODEL_UNAVAILABLE''), st2)
         | Some out \<Rightarrow>
             (case parse_batch_output env out refs is_first is_final v m of
                Inl e \<Rightarrow> (Inl (Raised e), st2)
              | Inr (None, m') \<Rightarrow> (Inl (RuntimeError ''LOOP_BATCH_OUTPUT_INVALID''), st2\<lparr>lr_memoir := m'\<rparr>)
              | Inr (Some cards, m') \<Rightarrow>
                  (let st3 = st2\<lparr>lr_memoir := m', lr_cursor := next\<rparr>; xs = map JObj cards
                   in case (if cards = [] then Inr m' else apply_output ''scenes'' (JList (loop_scenes m' @ xs)) m') of
                        Inl e \<Rightarrow> (Inl e, st3)
                      | Inr m'' \<Rightarrow> (Inr (if is_final then iteration LoopComplete (Some ''LOOP_COMPLETE'') xs
                                       else iteration LoopContinue None xs), st3\<lparr>lr_memoir := m''\<rparr>))))"

definition run_loop_iteration ::
  "memoir_env \<Rightarrow> string \<Rightarrow> int \<Rightarrow> int \<Rightarrow> loop_runner_state \<Rightarrow> (node_error + iteration_result) \<times> loop_runner_state" where
  "run_loop_iteration env v i left st =
     (case lr_materials st of
        None \<Rightarrow> (Inl (Raised (ValueError ''LOOP_NOT_INITIALIZED'')), st)
      | Some ms \<Rightarrow>
          if length ms \<le> lr_cursor st then (Inr (iteration LoopComplete (Some ''LOOP_MATERIALS_EXHAUSTED'') []), st)
          else (let (batch, used) = pack_batch (loop_batch_token_cap env left) (drop (lr_cursor st) ms) 0 0; next = lr_cursor st + used
            in if batch = [] then (Inr (iteration LoopContinue (Some ''LOOP_BATCH_ALL_OVER_LIMIT'') []), st\<lparr>lr_cursor := next\<rparr>)
               else batch_call env v i batch next (length ms) st))"

section \<open>The end of the loop\<close>

definition loop_structure_reason :: "json list \<Rightarrow> string option" where
  "loop_structure_reason xs =
     (if length xs < 3 then Some ''LOOP_SCENE_COUNT_INSUFFICIENT''
      else if jget (hd xs) ''scene_type'' \<noteq> JStr ''cover'' then Some ''LOOP_COVER_MISSING''
      else if jget (last xs) ''scene_type'' \<noteq> JStr ''summary'' then Some ''LOOP_SUMMARY_MISSING''
      else None)"

text \<open>The number in a name of the form \<open>s<number>-...\<close>.\<close>

definition batch_number :: "string \<Rightarrow> int" where
  "batch_number x =
     (case x of
        c # cs \<Rightarrow>
          (let ds = takeWhile digit cs; rest = dropWhile digit cs
           in if c = CHR ''s'' \<and> ds \<noteq> [] \<and> rest \<noteq> [] \<and> hd rest = CHR ''-'' then int (numeral_value ds) else 0)
      | [] \<Rightarrow> 0)"

definition next_repair_batch_index :: "json list \<Rightarrow> int" where
  "next_repair_batch_index xs = foldl (\<lambda>n v. max n (batch_number (text_of (jget v ''scene_id'')))) 0 xs + 1"

definition repair_loop_structure ::
  "memoir_env \<Rightarrow> string \<Rightarrow> bool \<Rightarrow> loop_runner_state \<Rightarrow> (node_error + bool) \<times> loop_runner_state" where
  "repair_loop_structure env v want_summary st =
     (case (if want_summary then lr_final st else lr_first st) of
        None \<Rightarrow> (Inr False, st)
      | Some (_, batch, refs) \<Rightarrow>
          (let target = (if want_summary then ''summary'' else ''cover'');
               request = batch_request (next_repair_batch_index (loop_scenes (lr_memoir st))) (\<not> want_summary) want_summary refs @
                 (if version_at_least v ''1.0.6'' then [(''required_scene_type'', JStr target)] else []);
               (data, m) = model_data env ''generate_scene_batch'' request v batch (lr_memoir st); st1 = st\<lparr>lr_memoir := m\<rparr>
           in case data of
                None \<Rightarrow> (Inr False, st1)
              | Some out \<Rightarrow>
                  (case parse_batch_output env out refs (\<not> want_summary) want_summary v m of
                     Inl e \<Rightarrow> (Inl (Raised e), st1)
                   | Inr (x, m') \<Rightarrow>
                       (case find (\<lambda>d. dget d ''scene_type'' = JStr target) (case x of None \<Rightarrow> [] | Some cards \<Rightarrow> cards) of
                          None \<Rightarrow> (Inr False, st1\<lparr>lr_memoir := m'\<rparr>)
                        | Some found \<Rightarrow>
                            (let xs = loop_scenes m'
                             in case apply_output ''scenes'' (JList (if want_summary then xs @ [JObj found] else JObj found # xs)) m' of
                                  Inl e \<Rightarrow> (Inl e, st1\<lparr>lr_memoir := m'\<rparr>)
                                | Inr m'' \<Rightarrow> (Inr True, st1\<lparr>lr_memoir := m''\<rparr>))))))"

fun repair_rounds :: "nat \<Rightarrow> memoir_env \<Rightarrow> string \<Rightarrow> loop_runner_state \<Rightarrow> (node_error + unit) \<times> loop_runner_state" where
  "repair_rounds 0 env v st = (Inr (), st)"
| "repair_rounds (Suc n) env v st =
     (let reason = loop_structure_reason (loop_scenes (lr_memoir st))
      in if reason \<notin> {Some ''LOOP_COVER_MISSING'', Some ''LOOP_SUMMARY_MISSING''} then (Inr (), st)
         else (case repair_loop_structure env v (reason = Some ''LOOP_SUMMARY_MISSING'') st of
             (Inl e, st') \<Rightarrow> (Inl e, st')
           | (Inr False, st') \<Rightarrow> (Inr (), st')
           | (Inr True, st') \<Rightarrow> repair_rounds n env v st'))"

definition finalize_loop :: "memoir_env \<Rightarrow> string \<Rightarrow> loop_runner_state \<Rightarrow> (node_error + iteration_result) \<times> loop_runner_state" where
  "finalize_loop env v st =
     (case repair_rounds 2 env v st of
        (Inl e, st') \<Rightarrow> (Inl e, st')
      | (Inr _, st') \<Rightarrow>
          (let xs = loop_scenes (lr_memoir st')
           in (Inr (case loop_structure_reason xs of
                 Some why \<Rightarrow> iteration LoopFailed (Some why) xs
               | None \<Rightarrow> iteration LoopComplete (Some ''LOOP_STRUCTURE_COMPLETE'') xs), st')))"

section \<open>Gaps in the coverage\<close>

definition ref_type :: "string \<Rightarrow> string" where
  "ref_type ref = takeWhile (\<lambda>c. c \<noteq> CHR '':'') ref"

definition covered_material_types :: "json list \<Rightarrow> string list" where
  "covered_material_types xs = map ref_type (concat (map (\<lambda>v. strs_in (jget v ''source_refs'')) xs))"

definition available_material_types :: "memoir \<Rightarrow> string list" where
  "available_material_types m =
     (let raw = jget (stats (rn_state m)) ''available_material_types''
      in if str_list raw then filter (\<lambda>t. t \<in> set material_type_order) (strs_in raw)
         else filter (\<lambda>t. list_ex (\<lambda>v. jget v ''type'' = JStr t) (view_items (sanitized_material (rn_state m)))) material_type_order)"

definition materials_of_type :: "json list \<Rightarrow> string \<Rightarrow> material list" where
  "materials_of_type vs t =
     map (\<lambda>v. (text_of (jget v ''source_ref''), text_of (jget v ''text'')))
       (filter (\<lambda>v. jget v ''type'' = JStr t \<and> jget v ''sensitive'' = JBool False \<and> filled_text (jget v ''source_ref'') \<and>
          readable_text (jget v ''text'')) vs)"

text \<open>
  One of each type in turn: \<open>zip_longest\<close> of the queues without its gaps. The type of every material is looked up
  in a dictionary, which raises on a list or an object.
\<close>

fun hashable :: "json \<Rightarrow> bool" where
  "hashable (JList _) = False"
| "hashable (JObj _) = False"
| "hashable _ = True"

definition missing_type_materials :: "json \<Rightarrow> string list \<Rightarrow> runtime_error + material list option" where
  "missing_type_materials view missing =
     (case jget view ''materials'' of
        JList vs \<Rightarrow>
          (let queues = map (materials_of_type vs) missing
           in if \<not> list_all (\<lambda>v. hashable (jget v ''type'')) vs then Inl TypeError
              else if list_ex (\<lambda>q. q = []) queues then Inr None else Inr (Some (take 8 (concat (transpose queues)))))
      | _ \<Rightarrow> Inr None)"

definition repair_scene_types :: "string list" where
  "repair_scene_types = [''stats'', ''diary_highlight'', ''bet_highlight'', ''milestone'']"

definition repair_card_named :: "string list \<Rightarrow> nat \<Rightarrow> dict list \<Rightarrow> dict \<Rightarrow> bool" where
  "repair_card_named existing i acc d \<longleftrightarrow> starts_with ''r1-'' (text_of (dget d ''scene_id'')) \<and>
     text_of (dget d ''scene_id'') \<notin> set existing \<and> \<not> list_ex (\<lambda>e. dget e ''scene_id'' = dget d ''scene_id'') acc"

definition parse_coverage_repair_output ::
  "memoir_env \<Rightarrow> json \<Rightarrow> string list \<Rightarrow> string list \<Rightarrow> memoir \<Rightarrow> runtime_error + (dict list option \<times> memoir)" where
  "parse_coverage_repair_output env data refs existing m =
     (case parsed_cards env repair_scene_types data of
        None \<Rightarrow> Inr (None, m)
      | Some ds \<Rightarrow> checked_cards env ''repair_coverage_gaps'' refs (repair_card_named existing) (\<lambda>_ _. True) 0 [] ds m)"

definition merged_scenes :: "json list \<Rightarrow> json list \<Rightarrow> json list" where
  "merged_scenes xs cards =
     (if xs \<noteq> [] \<and> jget (last xs) ''scene_type'' = JStr ''summary'' then butlast xs @ cards @ [last xs] else xs @ cards)"

definition repair_node_result :: "bool \<Rightarrow> nat \<Rightarrow> dict" where
  "repair_node_result repaired n =
     [(''node_id'', JStr ''repair_coverage_gaps''), (''repaired'', JBool repaired), (''added_scene_count'', JInt (int n))]"

definition raise_value :: "string \<Rightarrow> node_error + 'a" where
  "raise_value code = Inl (Raised (ValueError code))"

definition coverage_call ::
  "memoir_env \<Rightarrow> string \<Rightarrow> string list \<Rightarrow> string list \<Rightarrow> material list \<Rightarrow> memoir \<Rightarrow> node_error + (dict \<times> memoir)" where
  "coverage_call env v avail missing ms m =
     (let xs = loop_scenes m; refs = map fst ms; covered = covered_material_types xs;
          (data, m1) = model_data env ''repair_coverage_gaps''
            [(''missing_material_types'', str_json missing), (''source_refs'', str_json refs)] v ms m
      in case data of
           None \<Rightarrow> raise_value ''COVERAGE_REPAIR_MODEL_UNAVAILABLE''
         | Some out \<Rightarrow>
             res_bind (lifted (parse_coverage_repair_output env out refs
                 (map (\<lambda>x. text_of (jget x ''scene_id'')) (filter (\<lambda>x. is_str (jget x ''scene_id'')) xs)) m1)) (\<lambda>(r, m2).
               case r of
                 None \<Rightarrow> raise_value ''COVERAGE_REPAIR_OUTPUT_INVALID''
               | Some cards \<Rightarrow>
                   (let new = map JObj cards
                    in if \<not> set avail \<subseteq> set covered \<union> set (covered_material_types new)
                       then raise_value ''COVERAGE_REPAIR_INCOMPLETE''
                       else res_bind (apply_output ''scenes'' (JList (merged_scenes xs new)) m2) (\<lambda>m3.
                         Inr (repair_node_result True (length new), m3)))))"

definition repair_coverage_gaps :: "memoir_env \<Rightarrow> string \<Rightarrow> memoir \<Rightarrow> node_error + (dict \<times> memoir)" where
  "repair_coverage_gaps env v m =
     (let avail = available_material_types m; missing = filter (\<lambda>t. t \<notin> set (covered_material_types (loop_scenes m))) avail
      in if missing = [] then Inr (repair_node_result False 0, m)
         else res_bind (lifted (missing_type_materials (sanitized_material (rn_state m)) missing)) (\<lambda>found.
           case found of
             None \<Rightarrow> raise_value ''COVERAGE_TEXT_DIGEST_MISSING''
           | Some ms \<Rightarrow> coverage_call env v avail missing ms m))"

section \<open>Batches cover the materials\<close>

definition fits :: "int \<Rightarrow> material \<Rightarrow> bool" where
  "fits cap x \<longleftrightarrow> estimate_material_tokens (snd x) \<le> cap"

definition tokens :: "material list \<Rightarrow> int" where
  "tokens xs = (\<Sum>x\<leftarrow>xs. estimate_material_tokens (snd x))"

lemma pack_batch_segment: "pack_batch cap xs used n = (b, c) \<Longrightarrow> c \<le> length xs \<and> b = filter (fits cap) (take c xs)"
  by (induction cap xs used n arbitrary: b c rule: pack_batch.induct)
    (auto simp: Let_def fits_def split: if_splits prod.splits)

lemma pack_batch_bounds:
  "pack_batch cap xs used n = (b, c) \<Longrightarrow> n \<le> 8 \<Longrightarrow> used \<le> cap \<Longrightarrow> n + length b \<le> 8 \<and> used + tokens b \<le> cap"
proof (induction cap xs used n arbitrary: b c rule: pack_batch.induct)
  case (2 cap x xs used n)
  show ?case
  proof (cases "8 \<le> n \<or> cap < estimate_material_tokens (snd x) \<or> cap < used + estimate_material_tokens (snd x)")
    case True
    with 2 show ?thesis by (auto simp: Let_def tokens_def split: if_splits prod.splits)
  next
    case False
    then obtain b' c' where r: "pack_batch cap xs (used + estimate_material_tokens (snd x)) (Suc n) = (b', c')" "b = x # b'"
      using 2(3) by (auto simp: Let_def split: prod.splits)
    with 2(2) [OF refl _ _ _ r(1)] False show ?thesis by (auto simp: tokens_def)
  qed
qed (simp add: tokens_def)

lemma pack_batch_stops:
  "pack_batch cap xs used n = (b, c) \<Longrightarrow> c < length xs \<Longrightarrow>
    8 \<le> n + length b \<or> cap < used + tokens b + estimate_material_tokens (snd (xs ! c))"
proof (induction cap xs used n arbitrary: b c rule: pack_batch.induct)
  case (2 cap x xs used n)
  let ?t = "estimate_material_tokens (snd x)"
  show ?case
  proof (cases "8 \<le> n \<or> (\<not> cap < ?t \<and> cap < used + ?t)")
    case True
    with 2(3) show ?thesis by (auto simp: tokens_def Let_def split: if_splits)
  next
    case False
    show ?thesis
    proof (cases "cap < ?t")
      case True
      with False 2(3) obtain c' where "pack_batch cap xs used n = (b, c')" "c = Suc c'"
        by (auto simp: Let_def split: prod.splits)
      with 2(1) [of ?t b c'] 2(4) False True show ?thesis by auto
    next
      case fits: False
      with False 2(3) obtain b' c' where "pack_batch cap xs (used + ?t) (Suc n) = (b', c')" "c = Suc c'" "b = x # b'"
        by (auto simp: Let_def split: prod.splits)
      with 2(2) [of ?t b' c'] 2(4) False fits show ?thesis by (auto simp: tokens_def)
    qed
  qed
qed simp

lemma pack_batch_progress: "pack_batch cap (x # xs) 0 0 = (b, c) \<Longrightarrow> 0 < c"
  by (auto simp: Let_def split: if_splits prod.splits)

section \<open>Accepted cards\<close>

lemma apply_scenes:
  assumes "apply_output ''scenes'' w m = Inr m'"
  shows "loop_scenes m' = items_of w \<and> rn_calls m' = rn_calls m \<and> sanitized_material (rn_state m') = sanitized_material (rn_state m) \<and>
    stats (rn_state m') = stats (rn_state m)"
  using assms by (auto simp: apply_output_def lifted_def apply_tool_output_def res_simps loop_scenes_def set_field_def split: sum.split_asm if_splits)

lemma model_data_once:
  "model_data env node request v ms m = (data, m') \<Longrightarrow>
     rn_state m' = rn_state m \<and> length (rn_calls m') \<le> Suc (length (rn_calls m)) \<and> (data \<noteq> None \<longrightarrow> me_has_model env)"
  by (auto simp: model_data_def split: if_splits option.splits)

definition card_refs :: "json \<Rightarrow> string list" where
  "card_refs v = strs_in (jget v ''source_refs'')"

lemma refs_trusted_strs: "refs_trusted refs w \<Longrightarrow> set (strs_in w) \<subseteq> set refs"
proof (cases w)
  case (JList xs)
  assume "refs_trusted refs w"
  with JList have "\<forall>x\<in>set xs. trusted refs x" by (simp add: list_all_iff)
  moreover have "trusted refs x \<Longrightarrow> text_of x \<in> set refs" for x by (cases x) auto
  ultimately show ?thesis using JList by auto
qed simp_all

lemma strs_in_str_json [simp]: "strs_in (str_json xs) = xs"
  by (simp add: str_json_def comp_def)

text \<open>An accepted card has a text, and every reference in it is one of the given references.\<close>

definition card_sound :: "string list \<Rightarrow> dict \<Rightarrow> bool" where
  "card_sound refs d \<longleftrightarrow> set (card_refs (JObj d)) \<subseteq> set refs \<and> card_refs (JObj d) \<noteq> [] \<and> readable_text (dget d ''body'')"

lemma source_refs_present: "items_of (dget d ''source_refs'') \<noteq> [] \<Longrightarrow> source_refs_of d = dget d ''source_refs''"
  by (auto simp: source_refs_of_def dget_def dget_default_def split: option.splits)

lemma card_entry_sound:
  assumes "semantic_validate refs (JObj d) = Inr sem" "sm_valid sem" "card_filled d"
  shows "card_sound refs (card_entry d)"
proof -
  have clean: "semantic_clean refs d"
    using assms(1, 2) semantic_valid_iff [OF assms(1)] unfolding semantic_clean_iff [symmetric] by blast
  have ne: "items_of (dget d ''source_refs'') \<noteq> []" using assms(3) by (simp add: card_filled_def)
  from clean source_refs_present [OF ne] have trusted: "refs_trusted refs (dget d ''source_refs'')" by (simp add: semantic_clean_def)
  have "strs_in (dget d ''source_refs'') \<noteq> []"
  proof (cases "dget d ''source_refs''")
    case (JList xs)
    with ne obtain y ys where "xs = y # ys" by (cases xs) auto
    with trusted JList show ?thesis by (cases y) auto
  qed (use ne in auto)
  moreover have "first_codes xs \<noteq> []" if "xs \<noteq> []" for xs using that set_first_codes [of xs] by force
  ultimately show ?thesis using refs_trusted_strs [OF trusted] assms(3)
    by (simp add: card_sound_def card_entry_def card_refs_def card_filled_def dget_def)
qed

lemma checked_cards_sound:
  "checked_cards env node refs named placed i acc ds m = Inr (x, m') \<Longrightarrow> list_all (card_sound refs) acc \<Longrightarrow>
     rn_state m' = rn_state m \<and> rn_calls m' = rn_calls m \<and> (\<forall>cs. x = Some cs \<longrightarrow> list_all (card_sound refs) cs)"
proof (induction env node refs named placed i acc ds m rule: checked_cards.induct)
  case (2 env node refs named placed i acc d ds m)
  show ?case
  proof (cases "named i acc d")
    case True
    with 2(2) obtain sem where sem: "semantic_validate refs (JObj d) = Inr sem"
      and rest: "(if \<not> sm_valid sem then Inr (None, if me_has_model env then reject node (sm_error_codes sem) m else m)
        else if \<not> card_filled d \<or> \<not> placed i d then Inr (None, m)
        else checked_cards env node refs named placed (Suc i) (acc @ [card_entry d]) ds m) = Inr (x, m')"
      by (auto simp: res_bind_eq_Inr simp del: semantic_validate.simps)
    show ?thesis
    proof (cases "sm_valid sem \<and> card_filled d \<and> placed i d")
      case True
      with card_entry_sound [OF sem] 2(3) have "list_all (card_sound refs) (acc @ [card_entry d])" by simp
      with True rest 2(1) [of sem] \<open>named i acc d\<close> show ?thesis by simp
    next
      case False
      with rest show ?thesis by (auto simp: reject_def split: if_splits)
    qed
  qed (use 2(2) in auto)
qed auto

lemma parse_batch_sound:
  assumes "parse_batch_output env data refs is_first is_final v m = Inr (x, m')"
  shows "rn_state m' = rn_state m \<and> rn_calls m' = rn_calls m \<and> (\<forall>cs. x = Some cs \<longrightarrow> list_all (card_sound refs) cs \<and>
    (version_at_least v ''1.0.6'' \<longrightarrow> (is_first \<longrightarrow> has_type_at ''cover'' (head_of cs)) \<and> (is_final \<longrightarrow> has_type_at ''summary'' (last_of cs))))"
proof (cases "parsed_cards env plain_scene_types data")
  case (Some ds)
  with assms obtain y where y: "checked_cards env ''generate_scene_batch'' refs (\<lambda>_ _ _. True)
      (card_at_place is_first is_final (length ds)) 0 [] ds m = Inr (y, m')"
    and x: "x = (case y of None \<Rightarrow> None | Some cards \<Rightarrow> if version_at_least v ''1.0.6'' \<and>
      (is_first \<and> \<not> has_type_at ''cover'' (head_of cards) \<or> is_final \<and> \<not> has_type_at ''summary'' (last_of cards))
      then None else Some cards)"
    by (auto simp: parse_batch_output_def res_bind_eq_Inr)
  from checked_cards_sound [OF y] x show ?thesis by (cases y) (auto split: if_splits)
qed (use assms in \<open>simp add: parse_batch_output_def\<close>)

lemma parse_coverage_sound:
  assumes "parse_coverage_repair_output env data refs existing m = Inr (x, m')"
  shows "rn_state m' = rn_state m \<and> rn_calls m' = rn_calls m \<and> (\<forall>cs. x = Some cs \<longrightarrow> list_all (card_sound refs) cs)"
proof (cases "parsed_cards env repair_scene_types data")
  case (Some ds)
  with assms have "checked_cards env ''repair_coverage_gaps'' refs (repair_card_named existing) (\<lambda>_ _. True) 0 [] ds m = Inr (x, m')"
    by (simp add: parse_coverage_repair_output_def)
  from checked_cards_sound [OF this] show ?thesis by simp
qed (use assms in \<open>simp add: parse_coverage_repair_output_def\<close>)

section \<open>One iteration makes progress or leaves the batch\<close>

text \<open>What a call for a batch does to the state, for each of its results.\<close>

definition batch_done :: "material list \<Rightarrow> nat \<Rightarrow> loop_runner_state \<Rightarrow> loop_runner_state \<Rightarrow> bool" where
  "batch_done batch next st st' \<longleftrightarrow> lr_cursor st' = next \<and>
     (\<exists>cards. loop_scenes (lr_memoir st') = loop_scenes (lr_memoir st) @ map JObj cards \<and>
        list_all (card_sound (map fst batch)) cards)"

lemma batch_call_effect:
  assumes call: "batch_call env v i batch next n_all st = (res, st')"
  shows "lr_materials st' = lr_materials st \<and> length (rn_calls (lr_memoir st')) \<le> Suc (length (rn_calls (lr_memoir st))) \<and>
    (\<forall>why. res = Inl (RuntimeError why) \<longrightarrow> loop_scenes (lr_memoir st') = loop_scenes (lr_memoir st) \<and>
       (version_at_least v ''1.0.6'' \<longrightarrow> lr_cursor st' = lr_cursor st)) \<and>
    (\<forall>r. res = Inr r \<longrightarrow> batch_done batch next st st' \<and>
       it_outcome r = (if n_all \<le> next then LoopComplete else LoopContinue))"
proof -
  let ?first = "loop_scenes (lr_memoir st) = []" and ?final = "n_all \<le> next" and ?refs = "map fst batch"
  obtain data m where md: "model_data env ''generate_scene_batch'' (batch_request i ?first ?final ?refs) v batch (lr_memoir st) = (data, m)"
    by fastforce
  from model_data_once [OF md] have m: "rn_state m = rn_state (lr_memoir st)"
    "length (rn_calls m) \<le> Suc (length (rn_calls (lr_memoir st)))" by auto
  then have sc: "loop_scenes m = loop_scenes (lr_memoir st)" by (simp add: loop_scenes_def)
  show ?thesis
  proof (cases data)
    case None
    with call md m sc show ?thesis by (auto simp: batch_call_def Let_def)
  next
    case (Some out)
    show ?thesis
    proof (cases "parse_batch_output env out ?refs ?first ?final v m")
      case (Inl e)
      with call md m sc Some show ?thesis by (auto simp: batch_call_def Let_def)
    next
      case (Inr p)
      obtain x m' where p: "p = (x, m')" by fastforce
      from parse_batch_sound [OF Inr [unfolded p]] have m': "rn_state m' = rn_state m" "rn_calls m' = rn_calls m"
        and cards: "\<And>cs. x = Some cs \<Longrightarrow> list_all (card_sound ?refs) cs" by auto
      from m'(1) sc have sc': "loop_scenes m' = loop_scenes (lr_memoir st)" by (simp add: loop_scenes_def)
      show ?thesis
      proof (cases x)
        case None
        with call md m sc' m' Some Inr p show ?thesis by (auto simp: batch_call_def Let_def)
      next
        case (Some cs)
        note [simp] = \<open>data = Some out\<close> Some p Inr
        show ?thesis
        proof (cases "cs = []")
          case True
          with call md m sc' m' show ?thesis
            by (auto simp: batch_call_def Let_def batch_done_def iteration_def)
        next
          case False
          then show ?thesis
          proof (cases "apply_output ''scenes'' (JList (loop_scenes m' @ map JObj cs)) m'")
            case (Inl e)
            then have "\<And>why. e \<noteq> RuntimeError why" by (auto simp: apply_output_def lifted_def res_simps split: sum.split_asm)
            with Inl False call md m sc' m' show ?thesis by (auto simp: batch_call_def Let_def)
          next
            case (Inr m'')
            from apply_scenes [OF Inr] sc' have "loop_scenes m'' = loop_scenes (lr_memoir st) @ map JObj cs" "rn_calls m'' = rn_calls m'" by auto
            with Inr False call md m m' cards [OF Some] show ?thesis
              by (auto simp: batch_call_def Let_def batch_done_def iteration_def)
          qed
        qed
      qed
    qed
  qed
qed

lemma loop_cap_nonneg: "0 \<le> loop_batch_token_cap env left"
  by (simp add: loop_batch_token_cap_def split: option.split json.split)

text \<open>A round of the loop, in general: materials that are too long on their own are left out of the
  batch and the cursor passes them. The frozen contract and the design of the loop ask for a failure
  in that case; the theorem below is about rounds in which it does not arise.\<close>

lemma loop_round_general:
  assumes run: "run_loop_iteration env v i left st = (res, st')"
    and ms: "lr_materials st = Some ms" and rest: "lr_cursor st < length ms"
  shows "\<exists>n batch. 0 < n \<and> lr_cursor st + n \<le> length ms \<and>
    batch = filter (fits (loop_batch_token_cap env left)) (take n (drop (lr_cursor st) ms)) \<and>
    (lr_cursor st + n < length ms \<longrightarrow> length batch = 8 \<or>
       loop_batch_token_cap env left < tokens batch + estimate_material_tokens (snd (ms ! (lr_cursor st + n)))) \<and>
    length batch \<le> 8 \<and> tokens batch \<le> loop_batch_token_cap env left \<and>
    lr_materials st' = Some ms \<and> length (rn_calls (lr_memoir st')) \<le> Suc (length (rn_calls (lr_memoir st))) \<and>
    (\<forall>r. res = Inr r \<longrightarrow> batch_done batch (lr_cursor st + n) st st') \<and>
    (\<forall>why. res = Inl (RuntimeError why) \<longrightarrow> loop_scenes (lr_memoir st') = loop_scenes (lr_memoir st) \<and>
       (version_at_least v ''1.0.6'' \<longrightarrow> lr_cursor st' = lr_cursor st))"
proof -
  let ?cap = "loop_batch_token_cap env left"
  obtain batch n where p: "pack_batch ?cap (drop (lr_cursor st) ms) 0 0 = (batch, n)" by fastforce
  obtain y ys where "drop (lr_cursor st) ms = y # ys" using rest by (cases "drop (lr_cursor st) ms") auto
  then have "0 < n" using pack_batch_progress p by metis
  moreover have "lr_cursor st + n \<le> length ms" "batch = filter (fits ?cap) (take n (drop (lr_cursor st) ms))"
    using pack_batch_segment [OF p] rest by auto
  moreover have "lr_cursor st + n < length ms \<longrightarrow> length batch = 8 \<or>
       ?cap < tokens batch + estimate_material_tokens (snd (ms ! (lr_cursor st + n)))"
    using pack_batch_stops [OF p] rest pack_batch_bounds [OF p] loop_cap_nonneg by (auto simp: ac_simps)
  moreover have "length batch \<le> 8" "tokens batch \<le> ?cap" using pack_batch_bounds [OF p] loop_cap_nonneg by auto
  moreover have "lr_materials st' = Some ms \<and> length (rn_calls (lr_memoir st')) \<le> Suc (length (rn_calls (lr_memoir st))) \<and>
    (\<forall>r. res = Inr r \<longrightarrow> batch_done batch (lr_cursor st + n) st st') \<and>
    (\<forall>why. res = Inl (RuntimeError why) \<longrightarrow> loop_scenes (lr_memoir st') = loop_scenes (lr_memoir st) \<and>
       (version_at_least v ''1.0.6'' \<longrightarrow> lr_cursor st' = lr_cursor st))"
  proof (cases "batch = []")
    case True
    with run p ms rest show ?thesis by (auto simp: run_loop_iteration_def Let_def batch_done_def)
  next
    case False
    with run p ms rest have "batch_call env v i batch (lr_cursor st + n) (length ms) st = (res, st')"
      by (simp add: run_loop_iteration_def Let_def)
    from batch_call_effect [OF this] ms show ?thesis by simp
  qed
  ultimately show ?thesis by - (rule exI [of _ n], rule exI [of _ batch], simp)
qed

text \<open>C37. A round of the loop, when each material left fits the token limit of a batch, takes the next materials in their order, at
  least one, at most eight and at most as many
  tokens as the model route and the budget allow, stopping only at a bound or at the end; it leaves none out and
  calls the model at most once. A successful round moves the cursor past exactly these materials and appends cards that have a text
  and refer to them only. From version 1.0.6 on a round that fails at the model keeps the cursor, so the
  next round works on the same materials, and in every version it leaves the scenes alone.\<close>

theorem loop_round_consumes:
  assumes run: "run_loop_iteration env v i left st = (res, st')"
    and ms: "lr_materials st = Some ms" and rest: "lr_cursor st < length ms"
    and fit: "\<forall>x\<in>set (drop (lr_cursor st) ms). estimate_material_tokens (snd x) \<le> loop_batch_token_cap env left"
  shows "\<exists>n batch. 0 < n \<and> n \<le> 8 \<and> lr_cursor st + n \<le> length ms \<and> batch = take n (drop (lr_cursor st) ms) \<and>
    tokens batch \<le> loop_batch_token_cap env left \<and>
    (lr_cursor st + n < length ms \<longrightarrow> n = 8 \<or>
       loop_batch_token_cap env left < tokens batch + estimate_material_tokens (snd (ms ! (lr_cursor st + n)))) \<and>
    lr_materials st' = Some ms \<and> length (rn_calls (lr_memoir st')) \<le> Suc (length (rn_calls (lr_memoir st))) \<and>
    (\<forall>r. res = Inr r \<longrightarrow> lr_cursor st' = lr_cursor st + n \<and>
       (\<exists>cards. loop_scenes (lr_memoir st') = loop_scenes (lr_memoir st) @ map JObj cards \<and>
          (\<forall>d\<in>set cards. readable_text (dget d ''body'') \<and> card_refs (JObj d) \<noteq> [] \<and>
             set (card_refs (JObj d)) \<subseteq> set (map fst batch)))) \<and>
    (\<forall>why. res = Inl (RuntimeError why) \<longrightarrow> loop_scenes (lr_memoir st') = loop_scenes (lr_memoir st) \<and>
       (version_at_least v ''1.0.6'' \<longrightarrow> lr_cursor st' = lr_cursor st))"
proof -
  from loop_round_general [OF run ms rest] obtain n batch where
    g: "0 < n" "lr_cursor st + n \<le> length ms"
      "batch = filter (fits (loop_batch_token_cap env left)) (take n (drop (lr_cursor st) ms))"
      "lr_cursor st + n < length ms \<longrightarrow> length batch = 8 \<or>
       loop_batch_token_cap env left < tokens batch + estimate_material_tokens (snd (ms ! (lr_cursor st + n)))"
      "length batch \<le> 8" "tokens batch \<le> loop_batch_token_cap env left"
      "lr_materials st' = Some ms" "length (rn_calls (lr_memoir st')) \<le> Suc (length (rn_calls (lr_memoir st)))"
      "\<forall>r. res = Inr r \<longrightarrow> batch_done batch (lr_cursor st + n) st st'"
      "\<forall>why. res = Inl (RuntimeError why) \<longrightarrow> loop_scenes (lr_memoir st') = loop_scenes (lr_memoir st) \<and>
       (version_at_least v ''1.0.6'' \<longrightarrow> lr_cursor st' = lr_cursor st)"
    by (elim exE conjE) (rule that)
  have "\<forall>x\<in>set (take n (drop (lr_cursor st) ms)). fits (loop_batch_token_cap env left) x"
    using fit by (auto simp: fits_def dest: in_set_takeD)
  then have b: "batch = take n (drop (lr_cursor st) ms)" using g(3) by (metis filter_True)
  with g(2) have len: "length batch = n" by simp
  have moved: "\<forall>r. res = Inr r \<longrightarrow> lr_cursor st' = lr_cursor st + n \<and>
       (\<exists>cards. loop_scenes (lr_memoir st') = loop_scenes (lr_memoir st) @ map JObj cards \<and>
          (\<forall>d\<in>set cards. readable_text (dget d ''body'') \<and> card_refs (JObj d) \<noteq> [] \<and>
             set (card_refs (JObj d)) \<subseteq> set (map fst batch)))"
    using g(9) by (simp add: batch_done_def card_sound_def list_all_iff) blast
  show ?thesis
    using g(1,2,4-8,10) b len moved by - (rule exI [of _ n], rule exI [of _ batch], simp)
qed

definition demo_loop :: loop_runner_state where
  "demo_loop = \<lparr>lr_memoir = demo_memoir, lr_materials = Some [(''diary:1'', ''a walk''), (''diary:2'', ''rain'')], lr_cursor = 0,
     lr_first = None, lr_final = None\<rparr>"

definition demo_entry :: "string \<Rightarrow> json" where
  "demo_entry pid = JObj (map (\<lambda>k. (k, JStr (if k = ''prompt_id'' then pid else if k = ''version'' then ''v1''
     else if k = ''owner_agent'' then ''memoir_agent'' else if k = ''status'' then ''active'' else ''m''))) prompt_keys)"

definition demo_reply :: "(string \<times> string \<times> string) list \<Rightarrow> json" where
  "demo_reply cards = JObj [(''scenes'', JList (map (\<lambda>(i, t, ref). JObj [(''scene_id'', JStr i), (''scene_type'', JStr t),
     (''source_refs'', str_json [ref]), (''body'', JStr ''hello'')]) cards))]"

text \<open>An environment with a prompt and a model that answers with the given cards.\<close>

definition answering :: "(string \<times> string \<times> string) list \<Rightarrow> memoir_env" where
  "answering cards = demo_env\<lparr>me_has_model := True, me_reply := (\<lambda>_ _ _. Some (JStr ''text'')), me_loads := (\<lambda>_. Some (demo_reply cards)),
     me_prompts := \<lparr>pf_inside = (\<lambda>_ _. True),
       pf_manifest = (\<lambda>_ _. Some (JObj [(''prompts'', JList (map (demo_entry \<circ> snd) node_prompts))])),
       pf_file_ok = (\<lambda>_ _ _. True), pf_text = (\<lambda>_ _ _. Some ''text'')\<rparr>\<rparr>"

definition demo_cards :: "(string \<times> string \<times> string) list" where
  "demo_cards = [(''s1-1'', ''cover'', ''diary:1''), (''s1-2'', ''summary'', ''diary:2'')]"

theorem loop_round_consumes_witness:
  "fst (run_loop_iteration demo_env ''1.0.6'' 1 100 demo_loop) = Inl (RuntimeError ''LOOP_BATCH_MODEL_UNAVAILABLE'') \<and>
   lr_cursor (snd (run_loop_iteration demo_env ''1.0.6'' 1 100 demo_loop)) = 0 \<and>
   (\<exists>n. 0 < n \<and> lr_cursor (snd (run_loop_iteration (answering demo_cards) ''1.0.6'' 1 100 demo_loop)) = n)"
proof -
  have res: "fst (run_loop_iteration demo_env ''1.0.6'' 1 100 demo_loop) = Inl (RuntimeError ''LOOP_BATCH_MODEL_UNAVAILABLE'')"
    and v: "version_at_least ''1.0.6'' ''1.0.6''"
    and good: "case fst (run_loop_iteration (answering demo_cards) ''1.0.6'' 1 100 demo_loop) of
      Inr r \<Rightarrow> it_outcome r = LoopComplete | _ \<Rightarrow> False" by code_simp+
  have d: "lr_materials demo_loop = Some [(''diary:1'', ''a walk''), (''diary:2'', ''rain'')]" "lr_cursor demo_loop = 0"
    by (simp_all add: demo_loop_def)
  then have c: "lr_cursor demo_loop < length [(''diary:1'', ''a walk''), (''diary:2'', ''rain'')]" by simp
  let ?p = "run_loop_iteration demo_env ''1.0.6'' 1 100 demo_loop"
    and ?q = "run_loop_iteration (answering demo_cards) ''1.0.6'' 1 100 demo_loop"
  have "?p = (fst ?p, snd ?p)" "?q = (fst ?q, snd ?q)" by simp_all
  note p = this(1) and q = this(2)
  have "list_all (\<lambda>x. estimate_material_tokens (snd x) \<le> loop_batch_token_cap demo_env 100)
      (drop (lr_cursor demo_loop) [(''diary:1'', ''a walk''), (''diary:2'', ''rain'')])"
    "list_all (\<lambda>x. estimate_material_tokens (snd x) \<le> loop_batch_token_cap (answering demo_cards) 100)
      (drop (lr_cursor demo_loop) [(''diary:1'', ''a walk''), (''diary:2'', ''rain'')])" by code_simp+
  note fit = this [unfolded list_all_iff]
  from loop_round_consumes [OF p d(1) c fit(1)] loop_round_consumes [OF q d(1) c fit(2)] d(2) res v good
  show ?thesis by (auto split: sum.split_asm)
qed

section \<open>The end of the loop\<close>

lemma repair_structure_effect:
  assumes "repair_loop_structure env v want st = (res, st')"
  shows "length (rn_calls (lr_memoir st')) \<le> Suc (length (rn_calls (lr_memoir st)))"
proof (cases "if want then lr_final st else lr_first st")
  case (Some s)
  obtain k batch refs where s: "s = (k, batch, refs)" by (cases s)
  let ?req = "batch_request (next_repair_batch_index (loop_scenes (lr_memoir st))) (\<not> want) want refs @
     (if version_at_least v ''1.0.6'' then [(''required_scene_type'', JStr (if want then ''summary'' else ''cover''))] else [])"
  obtain data m where md: "model_data env ''generate_scene_batch'' ?req v batch (lr_memoir st) = (data, m)" by fastforce
  from model_data_once [OF md] have m: "length (rn_calls m) \<le> Suc (length (rn_calls (lr_memoir st)))" by simp
  show ?thesis
  proof (cases data)
    case None
    with assms Some s md m show ?thesis by (auto simp: repair_loop_structure_def Let_def)
  next
    case out: (Some out)
    show ?thesis
    proof (cases "parse_batch_output env out refs (\<not> want) want v m")
      case (Inl e)
      with assms Some s md m out show ?thesis by (auto simp: repair_loop_structure_def Let_def)
    next
      case (Inr p)
      obtain x m' where p: "p = (x, m')" by fastforce
      from parse_batch_sound [OF Inr [unfolded p]] have "rn_calls m' = rn_calls m" by simp
      with assms Some s md m out Inr p show ?thesis
        by (auto simp: repair_loop_structure_def Let_def dest!: apply_scenes split: option.splits sum.splits)
    qed
  qed
qed (use assms in \<open>auto simp: repair_loop_structure_def\<close>)

lemma repair_rounds_calls:
  "repair_rounds n env v st = (res, st') \<Longrightarrow> length (rn_calls (lr_memoir st')) \<le> n + length (rn_calls (lr_memoir st))"
proof (induction n arbitrary: st)
  case (Suc n)
  let ?r = "loop_structure_reason (loop_scenes (lr_memoir st))"
  obtain x st1 where s: "repair_loop_structure env v (?r = Some ''LOOP_SUMMARY_MISSING'') st = (x, st1)" by fastforce
  from repair_structure_effect [OF s] have le: "length (rn_calls (lr_memoir st1)) \<le> Suc (length (rn_calls (lr_memoir st)))" .
  show ?case
  proof (cases "?r \<in> {Some ''LOOP_COVER_MISSING'', Some ''LOOP_SUMMARY_MISSING''} \<and> x = Inr True")
    case True
    with s Suc.prems have "repair_rounds n env v st1 = (res, st')" by (auto simp: Let_def)
    from Suc.IH [OF this] le show ?thesis by simp
  next
    case False
    with Suc.prems s have "st' = st1 \<or> st' = st"
      by (auto simp: Let_def split: sum.splits bool.splits if_splits)
    with le show ?thesis by auto
  qed
qed simp

definition framed :: "json list \<Rightarrow> bool" where
  "framed xs \<longleftrightarrow> 3 \<le> length xs \<and> jget (hd xs) ''scene_type'' = JStr ''cover'' \<and> jget (last xs) ''scene_type'' = JStr ''summary''"

lemma loop_structure_complete: "loop_structure_reason xs = None \<longleftrightarrow> framed xs"
  by (auto simp: loop_structure_reason_def framed_def)

text \<open>The end of the loop reports it complete exactly when there are three scenes or more, from a cover to a summary,
  after at most two calls to the model for a missing one of them.\<close>

lemma loop_end_framed:
  assumes "finalize_loop env v st = (res, st')"
  shows "length (rn_calls (lr_memoir st')) \<le> 2 + length (rn_calls (lr_memoir st)) \<and>
    (\<forall>r. res = Inr r \<longrightarrow> (it_outcome r = LoopComplete \<longleftrightarrow> framed (loop_scenes (lr_memoir st'))) \<and>
       it_outcome r \<in> {LoopComplete, LoopFailed} \<and> output_count r = int (length (loop_scenes (lr_memoir st'))))"
proof -
  obtain x st1 where r: "repair_rounds 2 env v st = (x, st1)" by fastforce
  with assms have "st' = st1" by (auto simp: finalize_loop_def Let_def split: sum.splits)
  with repair_rounds_calls [OF r] assms r show ?thesis
    by (auto simp: finalize_loop_def Let_def iteration_def loop_structure_complete [symmetric] split: sum.splits option.splits)
qed

definition demo_card :: "nat \<Rightarrow> string \<Rightarrow> json" where
  "demo_card i t = JObj [(''scene_id'', JStr (''s1-'' @ numeral_string i)), (''scene_type'', JStr t), (''source_refs'', str_json [''diary:1'']),
     (''body'', JStr ''hello'')]"

definition demo_scenes :: "string \<Rightarrow> json list" where
  "demo_scenes t = [demo_card 1 ''cover'', demo_card 2 ''stats'', demo_card 3 t]"

definition demo_ended :: "string \<Rightarrow> loop_runner_state" where
  "demo_ended t = demo_loop\<lparr>lr_memoir := demo_memoir\<lparr>rn_state := (rn_state demo_memoir)\<lparr>scenes := JList (demo_scenes t)\<rparr>\<rparr>\<rparr>"

section \<open>Coverage\<close>

lemma covered_types_append: "set (covered_material_types (xs @ ys)) = set (covered_material_types xs) \<union> set (covered_material_types ys)"
  by (auto simp: covered_material_types_def)

lemma covered_types_mono: "set xs \<subseteq> set ys \<Longrightarrow> set (covered_material_types xs) \<subseteq> set (covered_material_types ys)"
  by (auto simp: covered_material_types_def)

lemma merged_set: "set (merged_scenes xs new) = set xs \<union> set new"
proof (cases "xs \<noteq> [] \<and> jget (last xs) ''scene_type'' = JStr ''summary''")
  case True
  then have "set (butlast xs) \<union> {last xs} = set xs" by (metis append_butlast_last_id list.set(1,2) set_append)
  with True show ?thesis by (auto simp: merged_scenes_def)
qed (auto simp: merged_scenes_def)

text \<open>The scenes in their order, with the new ones in one place among them.\<close>

definition inserted :: "json list \<Rightarrow> json list \<Rightarrow> json list \<Rightarrow> bool" where
  "inserted xs new ys \<longleftrightarrow> (\<exists>a b. xs = a @ b \<and> ys = a @ new @ b)"

lemma merged_inserted: "inserted xs new (merged_scenes xs new)"
proof (cases "xs \<noteq> [] \<and> jget (last xs) ''scene_type'' = JStr ''summary''")
  case True
  then have "xs = butlast xs @ [last xs]" by simp
  with True show ?thesis unfolding inserted_def merged_scenes_def by (intro exI [of _ "butlast xs"] exI [of _ "[last xs]"]) simp
qed (auto simp: merged_scenes_def inserted_def)

lemma merged_framed: "framed xs \<Longrightarrow> framed (merged_scenes xs new)"
  by (cases xs rule: rev_cases; cases "butlast xs") (auto simp: framed_def merged_scenes_def)

lemma heads_of_filled: "[] \<notin> set qs \<Longrightarrow> [h. (h # t) \<leftarrow> qs] = map hd qs"
  by (induction qs) (auto split: list.split)

lemma transpose_head:
  assumes "[] \<notin> set qs" "qs \<noteq> []"
  shows "\<exists>rest. transpose qs = map hd qs # rest"
proof -
  obtain x xs rest where qs: "qs = (x # xs) # rest" using assms by (cases qs; cases "hd qs") auto
  with heads_of_filled [of rest] assms(1) show ?thesis by simp
qed

text \<open>Every missing type gets into the request, as long as no more than eight are missing.\<close>

lemma missing_types_served:
  assumes "missing_type_materials view missing = Inr (Some ms)" "length missing \<le> 8" "missing \<noteq> []"
  shows "length ms \<le> 8 \<and> (\<forall>t\<in>set missing. \<exists>x\<in>set ms. x \<in> set (materials_of_type (view_items view) t))"
proof -
  obtain vs where vs: "jget view ''materials'' = JList vs"
    using assms(1) by (auto simp: missing_type_materials_def split: json.splits)
  let ?qs = "map (materials_of_type vs) missing"
  have ne: "[] \<notin> set ?qs" and ms: "ms = take 8 (concat (transpose ?qs))"
    using assms(1) vs by (auto simp: missing_type_materials_def Let_def list_ex_iff split: if_splits)
  obtain rest where t: "transpose ?qs = map hd ?qs # rest" using transpose_head [OF ne] assms(3) by auto
  have "set (map hd ?qs) \<subseteq> set ms" using ms t assms(2) by (auto simp: take_append)
  moreover have "hd (materials_of_type vs t) \<in> set (materials_of_type vs t)" if "t \<in> set missing" for t
    using ne that by (intro hd_in_set) (metis image_eqI list.set_map)
  ultimately show ?thesis using ms vs by (fastforce simp: view_items_def)
qed

text \<open>What the request of the coverage node is made of: each material in it is one of the view, of a missing type, not
  sensitive, with a source reference and a text.\<close>

lemma transpose_from: "x \<in> set (concat (transpose qs)) \<Longrightarrow> \<exists>q\<in>set qs. x \<in> set q"
proof (induction qs rule: transpose.induct)
  case (3 y ys yss)
  then consider "x = y" | "x \<in> set [h. h # t \<leftarrow> yss]" | "x \<in> set (concat (transpose (ys # [t. h # t \<leftarrow> yss])))" by fastforce
  then show ?case
  proof cases
    case 2
    then obtain q where "q \<in> set yss" "x \<in> set q" by (fastforce split: list.split_asm)
    then show ?thesis by auto
  next
    case 3
    from "3.IH" [OF 3] obtain q where q: "q \<in> set (ys # [t. h # t \<leftarrow> yss])" "x \<in> set q" by blast
    from q(1) consider "q = ys" | t where "t \<in> set yss" "q = tl t" "t \<noteq> []" by (fastforce split: list.split_asm)
    then show ?thesis
    proof cases
      case 2
      with q(2) have "x \<in> set t" by (cases t) auto
      with 2 show ?thesis by auto
    qed (use q(2) in auto)
  qed auto
qed auto

lemma filled_text_JStr: "filled_text j \<Longrightarrow> j = JStr (text_of j)"
  by (cases j) simp_all

lemma missing_materials_from_view:
  assumes "missing_type_materials view missing = Inr (Some ms)" "y \<in> set ms"
  shows "\<exists>x\<in>set (view_items view). jget x ''source_ref'' = JStr (fst y) \<and> jget x ''sensitive'' = JBool False \<and>
    readable_text (jget x ''text'') \<and> snd y = text_of (jget x ''text'') \<and> (\<exists>t\<in>set missing. jget x ''type'' = JStr t)"
proof -
  obtain vs where vs: "jget view ''materials'' = JList vs" "vs = view_items view"
    using assms(1) by (auto simp: missing_type_materials_def view_items_def split: json.splits)
  with assms(1) have "ms = take 8 (concat (transpose (map (materials_of_type vs) missing)))"
    by (auto simp: missing_type_materials_def Let_def split: if_splits)
  with assms(2) have "y \<in> set (concat (transpose (map (materials_of_type vs) missing)))" by (auto dest: in_set_takeD)
  from transpose_from [OF this] obtain t where t: "t \<in> set missing" "y \<in> set (materials_of_type vs t)" by auto
  then obtain x where x: "x \<in> set vs" "y = (text_of (jget x ''source_ref''), text_of (jget x ''text''))"
    "jget x ''type'' = JStr t" "jget x ''sensitive'' = JBool False" "filled_text (jget x ''source_ref'')" "readable_text (jget x ''text'')"
    by (auto simp: materials_of_type_def)
  have "jget x ''source_ref'' = JStr (fst y)" using filled_text_JStr [OF x(5)] x(2) by simp
  moreover have "snd y = text_of (jget x ''text'')" using x(2) by simp
  moreover have "x \<in> set (view_items view)" using x(1) vs(2) by simp
  ultimately show ?thesis using x(3,4,6) t(1) by blast
qed

text \<open>C38. When the coverage node returns, every type of material the run has is the type of a reference of some scene. It calls the
  model only if a type was missing, and once; the scenes it adds stand in one place among the scenes, behind the cover and before
  the summary of framed ones, have a text, and refer only to materials of the view that are marked not sensitive, have a readable
  text and are of a type that was missing.\<close>

theorem coverage_closed:
  assumes run: "repair_coverage_gaps env v m = Inr (out, m')"
  shows "set (available_material_types m) \<subseteq> set (covered_material_types (loop_scenes m')) \<and>
    (framed (loop_scenes m) \<longrightarrow> framed (loop_scenes m')) \<and>
    (m' = m \<or> (\<exists>cards. inserted (loop_scenes m) (map JObj cards) (loop_scenes m') \<and>
       length (rn_calls m') = Suc (length (rn_calls m)) \<and>
       (\<forall>d\<in>set cards. readable_text (dget d ''body'') \<and> card_refs (JObj d) \<noteq> [] \<and>
          (\<forall>ref\<in>set (card_refs (JObj d)). \<exists>x\<in>set (view_items (sanitized_material (rn_state m))).
             jget x ''source_ref'' = JStr ref \<and> jget x ''sensitive'' = JBool False \<and> readable_text (jget x ''text'') \<and>
             (\<exists>t. jget x ''type'' = JStr t \<and> t \<in> set (available_material_types m) \<and>
                t \<notin> set (covered_material_types (loop_scenes m)))))))"
proof -
  let ?avail = "available_material_types m" and ?cov = "covered_material_types (loop_scenes m)"
  let ?missing = "filter (\<lambda>t. t \<notin> set ?cov) ?avail"
  show ?thesis
  proof (cases "?missing = []")
    case True
    with run have "m' = m" by (simp add: repair_coverage_gaps_def Let_def)
    with True show ?thesis by (auto simp: filter_empty_conv)
  next
    case False
    with run obtain ms where ms: "missing_type_materials (sanitized_material (rn_state m)) ?missing = Inr (Some ms)"
      and call: "coverage_call env v ?avail ?missing ms m = Inr (out, m')"
      by (auto simp: repair_coverage_gaps_def Let_def res_bind_eq_Inr lifted_def raise_value_def split: sum.split_asm option.split_asm)
    obtain data m1 where md: "model_data env ''repair_coverage_gaps''
        [(''missing_material_types'', str_json ?missing), (''source_refs'', str_json (map fst ms))] v ms m = (data, m1)" by fastforce
    from call md obtain dat where data: "data = Some dat"
      by (cases data) (auto simp: coverage_call_def Let_def raise_value_def)
    from md data have m1: "rn_state m1 = rn_state m" "length (rn_calls m1) = Suc (length (rn_calls m))"
      by (auto simp: model_data_def split: if_splits option.splits)
    obtain cards m2 where parse: "parse_coverage_repair_output env dat (map fst ms)
        (map (\<lambda>x. text_of (jget x ''scene_id'')) (filter (\<lambda>x. is_str (jget x ''scene_id'')) (loop_scenes m))) m1 = Inr (Some cards, m2)"
      and sub: "set ?avail \<subseteq> set ?cov \<union> set (covered_material_types (map JObj cards))"
      and put: "apply_output ''scenes'' (JList (merged_scenes (loop_scenes m) (map JObj cards))) m2 = Inr m'"
      using call md data
      by (auto simp: coverage_call_def Let_def res_bind_eq_Inr lifted_def raise_value_def split: sum.split_asm option.split_asm if_splits)
    from parse_coverage_sound [OF parse] m1 have m2: "length (rn_calls m2) = Suc (length (rn_calls m))"
      and sound: "list_all (card_sound (map fst ms)) cards" by auto
    from apply_scenes [OF put] have sc: "loop_scenes m' = merged_scenes (loop_scenes m) (map JObj cards)" "rn_calls m' = rn_calls m2" by auto
    have "set ?avail \<subseteq> set (covered_material_types (loop_scenes m'))"
      using sub covered_types_mono [of "loop_scenes m" "loop_scenes m'"] covered_types_mono [of "map JObj cards" "loop_scenes m'"]
      by (auto simp: sc merged_set)
    moreover have "readable_text (dget d ''body'') \<and> card_refs (JObj d) \<noteq> [] \<and>
          (\<forall>ref\<in>set (card_refs (JObj d)). \<exists>x\<in>set (view_items (sanitized_material (rn_state m))).
             jget x ''source_ref'' = JStr ref \<and> jget x ''sensitive'' = JBool False \<and> readable_text (jget x ''text'') \<and>
             (\<exists>t. jget x ''type'' = JStr t \<and> t \<in> set ?avail \<and> t \<notin> set ?cov))" if "d \<in> set cards" for d
    proof -
      from sound that have d: "set (card_refs (JObj d)) \<subseteq> set (map fst ms)" "card_refs (JObj d) \<noteq> []" "readable_text (dget d ''body'')"
        by (auto simp: list_all_iff card_sound_def)
      have "\<exists>x\<in>set (view_items (sanitized_material (rn_state m))).
             jget x ''source_ref'' = JStr ref \<and> jget x ''sensitive'' = JBool False \<and> readable_text (jget x ''text'') \<and>
             (\<exists>t. jget x ''type'' = JStr t \<and> t \<in> set ?avail \<and> t \<notin> set ?cov)" if "ref \<in> set (card_refs (JObj d))" for ref
      proof -
        from that d(1) obtain y where y: "y \<in> set ms" "ref = fst y" by auto
        from missing_materials_from_view [OF ms y(1)] y(2) show ?thesis by auto
      qed
      with d(2,3) show ?thesis by blast
    qed
    ultimately show ?thesis using sc merged_framed merged_inserted m2
      by (intro conjI disjI2 exI [of _ cards]) auto
  qed
qed

definition demo_view :: memoir where
  "demo_view = demo_memoir\<lparr>rn_state := (rn_state demo_memoir)\<lparr>scenes := JList (demo_scenes ''summary''),
     stats := JObj [(''available_material_types'', str_json [''diary''])]\<rparr>\<rparr>"

definition gap_view :: memoir where
  "gap_view = demo_view\<lparr>rn_state := (rn_state demo_view)\<lparr>
     sanitized_material := JObj [(''materials'', JList [JObj [(''source_ref'', JStr ''completed_bet:1''), (''type'', JStr ''completed_bet''),
       (''sensitive'', JBool False), (''text'', JStr ''a bet'')]])],
     stats := JObj [(''available_material_types'', str_json [''diary'', ''completed_bet''])]\<rparr>\<rparr>"

definition gap_cards :: "(string \<times> string \<times> string) list" where
  "gap_cards = [(''r1-1'', ''bet_highlight'', ''completed_bet:1'')]"

theorem coverage_closed_witness:
  "repair_coverage_gaps demo_env ''1.0.5'' demo_view = Inr (repair_node_result False 0, demo_view) \<and>
   ''diary'' \<in> set (covered_material_types (loop_scenes demo_view)) \<and>
   (\<exists>m'. repair_coverage_gaps (answering gap_cards) ''1.0.5'' gap_view = Inr (repair_node_result True 1, m') \<and>
      ''completed_bet'' \<in> set (covered_material_types (loop_scenes m')))"
proof -
  have a: "available_material_types demo_view = [''diary'']" "available_material_types gap_view = [''diary'', ''completed_bet'']"
    and m: "filter (\<lambda>t. t \<notin> set (covered_material_types (loop_scenes demo_view))) (available_material_types demo_view) = []"
    and g: "case repair_coverage_gaps (answering gap_cards) ''1.0.5'' gap_view of Inr (out, m') \<Rightarrow> out = repair_node_result True 1 | _ \<Rightarrow> False"
    by code_simp+
  from m have r: "repair_coverage_gaps demo_env ''1.0.5'' demo_view = Inr (repair_node_result False 0, demo_view)"
    by (simp add: repair_coverage_gaps_def Let_def)
  from g obtain m' where r': "repair_coverage_gaps (answering gap_cards) ''1.0.5'' gap_view = Inr (repair_node_result True 1, m')"
    by (auto split: sum.split_asm prod.split_asm)
  from coverage_closed [OF r] coverage_closed [OF r'] a r r' show ?thesis by auto
qed

end
