(* ===== verification/Memoir_Publish.thy ===== *)
theory Memoir_Publish
  imports Tool_Gateway
begin

text \<open>
  The two nodes of the memoir workflow that call the business side (\<open>run_node\<close> in
  \<open>app/agents/memoir_agent/runner.py\<close>): loading the snapshot, and publishing the document. Publishing asks for the
  result of an earlier attempt first, and settles its own attempt in the ledger of tool calls on every path.

  The publication and the queries go through two values of \<open>tool_gateway\<close>, since each call meets another state of
  the world; whether a transport error of the publication was a timeout is a parameter, as are the digest of the
  document and \<open>str\<close> of a value that is no text.
  An epoch is what Python takes for an integer: a JSON integer or a truth value.
\<close>

section \<open>Model\<close>

datatype publish_error =
    PublishValue string
  | PublishRuntime string
  | PublishTimeout
  | PublishTool tool_exc
  | PublishRaised runtime_error
  | OverflowError
  | KeyError string

record publish_env =
  pe_publish :: tool_gateway
  pe_query :: tool_gateway
  pe_timed_out :: bool
  pe_digest :: "dict \<Rightarrow> string"
  pe_str :: "json \<Rightarrow> string"
  pe_audited :: bool
  pe_lease :: "lease_context option"
  pe_begin_at :: time
  pe_settle_at :: time

record publisher =
  pb_state :: agent_state
  pb_db :: db
  pb_sent :: "(nat \<times> tool_http) list"
  pb_rejections :: "(string \<times> string) list"

type_synonym publish_step = "(publish_error + dict) \<times> publisher"

fun epoch_text :: "json \<Rightarrow> string option" where
  "epoch_text (JInt n) = Some (int_string n)"
| "epoch_text (JBool b) = Some (if b then ''True'' else ''False'')"
| "epoch_text _ = None"

definition memory_reference :: "agent_run \<Rightarrow> (string \<times> string \<times> json) option" where
  "memory_reference r =
     (case (dget (input_json r) ''archive_id'', dget (input_json r) ''snapshot_id'') of
        (JStr a, JStr sn) \<Rightarrow>
          (let epoch = dget (input_json r) ''generation_epoch'' in if epoch_text epoch = None then None else Some (a, sn, epoch))
      | _ \<Rightarrow> None)"

definition publish_key :: "string \<Rightarrow> json \<Rightarrow> string" where
  "publish_key rid epoch = rid @ '':publish_document:memory.publish_playback_document:'' @ (case epoch_text epoch of None \<Rightarrow> [] | Some x \<Rightarrow> x)"

definition published :: dict where
  "published = [(''node_id'', JStr ''publish_document''), (''published'', JBool True)]"

definition put_result :: "json \<Rightarrow> publisher \<Rightarrow> publisher" where
  "put_result v p = p\<lparr>pb_state := (pb_state p)\<lparr>publish_result := v\<rparr>\<rparr>"

definition put_db :: "db \<Rightarrow> publisher \<Rightarrow> publisher" where
  "put_db s p = p\<lparr>pb_db := s\<rparr>"

definition logged :: "tool_log \<Rightarrow> publisher \<Rightarrow> publisher" where
  "logged lg p = p\<lparr>pb_rejections := pb_rejections p @ rejections lg\<rparr>"

text \<open>\<open>int(x)\<close>\<close>

fun int_of :: "json \<Rightarrow> publish_error + int" where
  "int_of (JInt n) = Inr n"
| "int_of (JBool b) = Inr (of_bool b)"
| "int_of (JFloat (Fin q)) = Inr (Runtime_Prelude.py_int q)"
| "int_of (JFloat NaN) = Inl (PublishValue ''int'')"
| "int_of (JFloat _) = Inl OverflowError"
| "int_of (JStr x) = (case Service_Auth.py_int x of None \<Rightarrow> Inl (PublishValue ''int'') | Some n \<Rightarrow> Inr n)"
| "int_of _ = Inl (PublishRaised TypeError)"

definition item :: "dict \<Rightarrow> string \<Rightarrow> publish_error + json" where
  "item d k = (if has_key d k then Inr (dget d k) else Inl (KeyError k))"

definition str_of :: "publish_env \<Rightarrow> json \<Rightarrow> string" where
  "str_of env v = (case v of JStr x \<Rightarrow> x | _ \<Rightarrow> pe_str env v)"

text \<open>Settle the attempt with the revision and the digest of the result.\<close>

definition record_published :: "publish_env \<Rightarrow> agent_tool_call \<Rightarrow> dict \<Rightarrow> db \<Rightarrow> publish_error + (bool \<times> db)" where
  "record_published env t out s =
     res_bind (res_bind (item out ''revision'') int_of) (\<lambda>n.
     res_bind (item out ''content_digest'') (\<lambda>c.
       case succeed_call t (Inr n) (Some (str_of env c)) (pe_lease env) (pe_settle_at env) s of
         Inl e \<Rightarrow> Inl (PublishRaised e)
       | Inr r \<Rightarrow> Inr r))"

definition query_result :: "publish_env \<Rightarrow> agent_run \<Rightarrow> json \<Rightarrow> dict \<Rightarrow> (tool_exc + dict option) \<times> tool_log" where
  "query_result env r key tc =
     (case memory_reference r of
        None \<Rightarrow> (Inr None, empty_log)
      | Some (a, sn, n) \<Rightarrow>
          get_publish_result (pe_query env) (business_connector_id r) a [JStr sn, JStr (run_id r), n, key] (JObj tc))"

section \<open>An earlier attempt\<close>

definition recover_published :: "publish_env \<Rightarrow> agent_run \<Rightarrow> dict \<Rightarrow> agent_tool_call \<Rightarrow> publisher \<Rightarrow> publish_step" where
  "recover_published env r tc t p =
     (let key = (case t_idempotency_key t of None \<Rightarrow> JNull | Some k \<Rightarrow> JStr k); (res, lg) = query_result env r key tc; p1 = logged lg p
      in case res of
           Inl e \<Rightarrow> (Inl (PublishTool e), p1)
         | Inr None \<Rightarrow> (Inl (PublishRuntime ''PUBLISH_OUTCOME_UNKNOWN''), p1)
         | Inr (Some out) \<Rightarrow>
             (let p2 = put_result (JObj out) p1
              in case record_published env t out (pb_db p2) of
                   Inl e \<Rightarrow> (Inl e, p2)
                 | Inr (ok, s) \<Rightarrow> (if ok then Inr published else Inl (PublishRuntime ''PUBLISH_OUTCOME_UNKNOWN''), put_db s p2)))"

section \<open>A new attempt\<close>

definition fail_attempt :: "publish_env \<Rightarrow> agent_tool_call \<Rightarrow> string \<Rightarrow> bool \<Rightarrow> string \<Rightarrow> publisher \<Rightarrow> publisher" where
  "fail_attempt env t code again etype p =
     put_db (snd (fail_call t code again etype (pe_lease env) (pe_settle_at env) (pb_db p))) p"

text \<open>The result of the query is taken for this document if its digest is the same.\<close>

definition same_document :: "string \<Rightarrow> dict option \<Rightarrow> (int \<times> dict) option" where
  "same_document dg out =
     (case out of
        None \<Rightarrow> None
      | Some d \<Rightarrow>
          if dget d ''content_digest'' \<noteq> JStr dg then None
          else (case dget d ''revision'' of JInt n \<Rightarrow> Some (n, d) | JBool b \<Rightarrow> Some (of_bool b, d) | _ \<Rightarrow> None))"

definition settle_reconciled :: "publish_env \<Rightarrow> agent_tool_call \<Rightarrow> string \<Rightarrow> int \<Rightarrow> dict \<Rightarrow> publisher \<Rightarrow> publish_step" where
  "settle_reconciled env t dg n out p =
     (case succeed_call t (Inr n) (Some dg) (pe_lease env) (pe_settle_at env) (pb_db p) of
        Inl e \<Rightarrow> (Inl (PublishRaised e), put_result (JObj out) p)
      | Inr (True, s) \<Rightarrow> (Inr published, put_db s (put_result (JObj out) p))
      | Inr (False, s) \<Rightarrow> (Inl (PublishRuntime ''PUBLISH_OUTCOME_UNKNOWN''), put_db s (put_result JNull p)))"

definition tool_runtime_code :: "string \<Rightarrow> bool \<Rightarrow> string" where
  "tool_runtime_code code again = (if again then ''TOOL_RETRYABLE_FAILURE'' else code)"

definition publish_rejected ::
  "publish_env \<Rightarrow> agent_run \<Rightarrow> dict \<Rightarrow> string \<Rightarrow> string \<Rightarrow> agent_tool_call \<Rightarrow> string \<Rightarrow> bool \<Rightarrow> publisher \<Rightarrow> publish_step" where
  "publish_rejected env r tc key dg t code again p =
     (let refused = (\<lambda>q. (Inl (PublishRuntime (tool_runtime_code code again)), fail_attempt env t code again ''business_tool_error'' q))
      in if code = ''GENERATION_SUPERSEDED''
         then (Inl (PublishRuntime ''GENERATION_SUPERSEDED''), fail_attempt env t code False ''tool_request_failed'' p)
         else if code = ''IDEMPOTENCY_CONFLICT''
         then (let (res, lg) = query_result env r (JStr key) tc; p1 = logged lg p
               in case res of
                    Inl (ToolErrorRejected c2 r2) \<Rightarrow>
                      (Inl (PublishRuntime (if c2 = ''GENERATION_SUPERSEDED'' then c2 else tool_runtime_code c2 r2)),
                       fail_attempt env t c2 r2 ''business_tool_error'' p1)
                  | Inl e \<Rightarrow> (Inl (PublishTool e), p1)
                  | Inr out \<Rightarrow> (case same_document dg out of
                        Some (n, d) \<Rightarrow> settle_reconciled env t dg n d p1
                      | None \<Rightarrow> refused p1))
         else refused p)"

definition publish_http_status ::
  "publish_env \<Rightarrow> agent_run \<Rightarrow> dict \<Rightarrow> string \<Rightarrow> string \<Rightarrow> agent_tool_call \<Rightarrow> int \<Rightarrow> publisher \<Rightarrow> publish_step" where
  "publish_http_status env r tc key dg t code p =
     (if code = 409
      then (let (res, lg) = query_result env r (JStr key) tc; p1 = logged lg p
            in case res of
                 Inl e \<Rightarrow> (Inl (PublishTool e), p1)
               | Inr out \<Rightarrow> (case same_document dg out of
                     Some (n, d) \<Rightarrow> settle_reconciled env t dg n d p1
                   | None \<Rightarrow> (Inl (PublishRuntime ''TOOL_IDEMPOTENCY_CONFLICT''),
                       fail_attempt env t ''TOOL_IDEMPOTENCY_CONFLICT'' False ''tool_request_failed'' p1)))
      else (Inl (PublishTool (ToolHttpStatus code)),
        fail_attempt env t (''HTTP_'' @ int_string code) (500 \<le> code) ''tool_request_failed'' p))"

definition settle_publication ::
  "publish_env \<Rightarrow> agent_run \<Rightarrow> dict \<Rightarrow> string \<Rightarrow> string \<Rightarrow> agent_tool_call \<Rightarrow> tool_exc + dict \<Rightarrow> publisher \<Rightarrow> publish_step" where
  "settle_publication env r tc key dg t res p =
     (case res of
        Inr out \<Rightarrow>
          (case record_published env t out (pb_db p) of
             Inl e \<Rightarrow> (Inl e, put_result (JObj out) p)
           | Inr (True, s) \<Rightarrow> (Inr published, put_db s (put_result (JObj out) p))
           | Inr (False, s) \<Rightarrow> (Inl (PublishRuntime ''PUBLISH_OUTCOME_UNKNOWN''), put_db s (put_result JNull p)))
      | Inl (ToolErrorRejected code again) \<Rightarrow> publish_rejected env r tc key dg t code again p
      | Inl (ToolHttpStatus code) \<Rightarrow> publish_http_status env r tc key dg t code p
      | Inl e \<Rightarrow>
          if e = TransportError \<and> pe_timed_out env
          then (Inl PublishTimeout, put_db (snd (unknown_call t ''HTTP_TIMEOUT'' (pe_lease env) (pe_settle_at env) (pb_db p))) p)
          else (Inl (PublishTool e), fail_attempt env t ''TOOL_CALL_FAILED'' True ''tool_request_failed'' p))"

definition publish_new ::
  "publish_env \<Rightarrow> agent_run \<Rightarrow> dict \<Rightarrow> string \<times> string \<times> json \<Rightarrow> string \<Rightarrow> dict \<Rightarrow> publisher \<Rightarrow> publish_step" where
  "publish_new env r tc ref key doc p =
     (if \<not> pe_audited env then (Inl (PublishRuntime ''PUBLISH_AUDIT_REQUIRED''), p)
      else (case begin_publish (run_id r) (execution_attempt r) key key (pe_digest env doc) (pe_lease env) (pe_begin_at env) (pb_db p) of
          (Inl e, s) \<Rightarrow> (Inl (PublishRaised e), put_db s p)
        | (Inr t, s) \<Rightarrow>
            (let (res, lg) = (case ref of (a, sn, n) \<Rightarrow>
                   publish_playback_document (pe_publish env) (business_connector_id r) a (run_id r) sn n doc key (Some t) (JObj tc));
                 p1 = (logged lg (put_db s p))\<lparr>pb_sent := pb_sent p @ sent lg\<rparr>
             in settle_publication env r tc key (pe_digest env doc) t res p1)))"

definition publish_document :: "publish_env \<Rightarrow> agent_run \<Rightarrow> publisher \<Rightarrow> publish_step" where
  "publish_document env r p =
     (case build_tool_context r ''publish_document'' of
        Inl e \<Rightarrow> (Inl (PublishTool e), p)
      | Inr tc \<Rightarrow>
          (case playback_document (pb_state p) of
             JObj doc \<Rightarrow>
               (case memory_reference r of
                  None \<Rightarrow> (Inl (PublishValue ''MEMORY_PUBLISH_REFERENCE_INVALID''), p)
                | Some (a, sn, n) \<Rightarrow>
                    (let key = publish_key (run_id r) n
                     in case (if pe_audited env then find_publish_attempt (run_id r) key (pb_db p) else None) of
                          Some t \<Rightarrow> recover_published env r tc t p
                        | None \<Rightarrow> publish_new env r tc (a, sn, n) key doc p))
           | _ \<Rightarrow> (Inl (PublishValue ''PLAYBACK_DOCUMENT_MISSING''), p)))"

section \<open>The snapshot\<close>

definition load_snapshot :: "tool_gateway \<Rightarrow> agent_run \<Rightarrow> agent_state \<Rightarrow> (publish_error + dict) \<times> agent_state \<times> tool_log" where
  "load_snapshot gw r st =
     (case memory_reference r of
        None \<Rightarrow> (Inl (PublishValue ''MEMORY_SNAPSHOT_REFERENCE_INVALID''), st, empty_log)
      | Some (a, sn, n) \<Rightarrow>
          (case build_tool_context r ''load_snapshot'' of
             Inl e \<Rightarrow> (Inl (PublishTool e), st, empty_log)
           | Inr tc \<Rightarrow>
               (case get_snapshot gw (business_connector_id r) a sn (run_id r) n (JObj tc) of
                  (Inr out, lg) \<Rightarrow> (Inr [(''node_id'', JStr ''load_snapshot''), (''snapshot_loaded'', JBool True)],
                     st\<lparr>st_snapshot := JObj out\<rparr>, lg)
                | (Inl (ToolErrorRejected code again), lg) \<Rightarrow>
                    (Inl (PublishRuntime (if code = ''GENERATION_SUPERSEDED'' then code else tool_runtime_code code again)), st, lg)
                | (Inl e, lg) \<Rightarrow> (Inl (PublishTool e), st, lg))))"

section \<open>What a run of the node leaves behind\<close>

text \<open>Settling an attempt changes its row at most.\<close>

definition settles :: "agent_tool_call \<Rightarrow> db \<Rightarrow> db \<Rightarrow> bool" where
  "settles t s s' \<longleftrightarrow> s' = s \<or> (\<exists>st err out. s' = s\<lparr>tool_calls := upd_where (\<lambda>x. tool_call_id x = tool_call_id t)
     (\<lambda>x. x\<lparr>t_status := st, t_error_code := err, t_output_summary := out\<rparr>) (tool_calls s)\<rparr>)"

lemma settles_refl [simp]: "settles t s s"
  by (simp add: settles_def)

lemma persist_settles: "persist_result t st err out ctx now s = (ok, s') \<Longrightarrow> settles t s s'"
  by (auto simp: persist_result_def settles_def split: if_splits)

lemma succeed_settles: "succeed_call t x dg ctx now s = Inr (ok, s') \<Longrightarrow> settles t s s'"
  by (auto simp: succeed_call_def res_simps dest: persist_settles)

lemma fail_attempt_settles: "settles t (pb_db p) (pb_db (fail_attempt env t code again etype p))"
  unfolding fail_attempt_def put_db_def fail_call_def by (simp, rule persist_settles, rule surjective_pairing)

lemma record_settles: "record_published env t out s = Inr (ok, s') \<Longrightarrow> settles t s s'"
proof -
  assume "record_published env t out s = Inr (ok, s')"
  then obtain n c where r: "(case succeed_call t (Inr n) (Some (str_of env c)) (pe_lease env) (pe_settle_at env) s of
      Inl e \<Rightarrow> Inl (PublishRaised e) | Inr r \<Rightarrow> Inr r) = Inr (ok, s')" unfolding record_published_def res_bind_eq_Inr by blast
  then have "succeed_call t (Inr n) (Some (str_of env c)) (pe_lease env) (pe_settle_at env) s = Inr (ok, s')"
    by (cases "succeed_call t (Inr n) (Some (str_of env c)) (pe_lease env) (pe_settle_at env) s") simp_all
  then show ?thesis by (rule succeed_settles)
qed

definition calm :: "agent_tool_call \<Rightarrow> publisher \<Rightarrow> publisher \<Rightarrow> bool" where
  "calm t p p' \<longleftrightarrow> pb_sent p' = pb_sent p \<and> settles t (pb_db p) (pb_db p')"

lemmas publisher_parts = put_result_def put_db_def logged_def

lemma recover_calm: "recover_published env r tc t p = (res, p') \<Longrightarrow> calm t p p'"
  by (auto simp: recover_published_def publisher_parts calm_def Let_def
      dest: record_settles split: prod.split_asm sum.split_asm option.split_asm if_splits)

lemma fail_attempt_calm: "calm t p q \<Longrightarrow> pb_db q = pb_db p \<Longrightarrow> calm t p (fail_attempt env t code again etype q)"
  using fail_attempt_settles [of t q env code again etype] by (simp add: calm_def) (simp add: fail_attempt_def put_db_def)

lemma fail_attempt_self [simp]: "calm t p (fail_attempt env t code again etype p)"
  by (rule fail_attempt_calm) (simp_all add: calm_def)

lemma reconciled_calm: "settle_reconciled env t dg n out p = (res, p') \<Longrightarrow> calm t p p'"
  by (auto simp: settle_reconciled_def publisher_parts calm_def dest: succeed_settles split: sum.split_asm prod.split_asm bool.split_asm)

lemma logged_parts [simp]: "pb_db (logged lg p) = pb_db p" "pb_sent (logged lg p) = pb_sent p" "calm t (logged lg p) q = calm t p q"
  "calm t p (logged lg p)"
  by (simp_all add: logged_def calm_def)

lemma rejected_calm: "publish_rejected env r tc key dg t code again p = (res, p') \<Longrightarrow> calm t p p'"
  by (auto simp: publish_rejected_def Let_def fail_attempt_calm
      dest!: reconciled_calm split: prod.split_asm sum.split_asm tool_exc.split_asm option.split_asm if_splits)

lemma http_status_calm: "publish_http_status env r tc key dg t code p = (res, p') \<Longrightarrow> calm t p p'"
  by (auto simp: publish_http_status_def Let_def fail_attempt_calm
      dest!: reconciled_calm split: prod.split_asm sum.split_asm option.split_asm if_splits)

lemma settle_publication_calm:
  assumes "settle_publication env r tc key dg t res p = (out, p')"
  shows "calm t p p'"
proof (cases res)
  case (Inr d)
  with assms show ?thesis
    by (auto simp: settle_publication_def publisher_parts calm_def dest: record_settles split: sum.split_asm prod.split_asm bool.split_asm)
next
  case (Inl e)
  have fa: "calm t p (fail_attempt env t code again etype p)" for code again etype
    by (rule fail_attempt_calm) (simp_all add: calm_def)
  have un: "calm t p (put_db (snd (unknown_call t code ctx now (pb_db p))) p)" for code ctx now
    unfolding calm_def put_db_def unknown_call_def by (simp, rule persist_settles, rule surjective_pairing)
  show ?thesis
    using assms Inl fa un by (cases e) (auto simp: settle_publication_def dest: rejected_calm http_status_calm split: if_splits)
qed

section \<open>The ledger of one publication\<close>

definition attempts :: "string \<Rightarrow> string \<Rightarrow> db \<Rightarrow> agent_tool_call list" where
  "attempts rid key s = filter (same_operation rid key) (tool_calls s)"

definition ids_ok :: "db \<Rightarrow> bool" where
  "ids_ok s \<longleftrightarrow> distinct (map tool_call_id (tool_calls s)) \<and>
     (\<forall>t\<in>set (tool_calls s). \<exists>k<uuid_counter s. tool_call_id t = numeral_string k)"

definition once :: "string \<Rightarrow> string \<Rightarrow> publisher \<Rightarrow> bool" where
  "once rid key p \<longleftrightarrow> ids_ok (pb_db p) \<and> length (pb_sent p) \<le> length (attempts rid key (pb_db p)) \<and>
     (\<exists>i. \<forall>t\<in>set (attempts rid key (pb_db p)). committed t \<longrightarrow> tool_call_id t = i) \<and>
     (\<exists>dg. \<forall>t\<in>set (attempts rid key (pb_db p)). request_digest t = Some dg)"

lemma settles_attempts:
  assumes "settles t s s'"
  shows "map tool_call_id (attempts rid key s') = map tool_call_id (attempts rid key s) \<and>
    map request_digest (attempts rid key s') = map request_digest (attempts rid key s) \<and> (ids_ok s \<longrightarrow> ids_ok s') \<and>
    (\<forall>x\<in>set (attempts rid key s'). x \<in> set (attempts rid key s) \<or> tool_call_id x = tool_call_id t)"
proof (cases "s' = s")
  case False
  with assms obtain st err out where s': "s' = s\<lparr>tool_calls := upd_where (\<lambda>x. tool_call_id x = tool_call_id t)
     (\<lambda>x. x\<lparr>t_status := st, t_error_code := err, t_output_summary := out\<rparr>) (tool_calls s)\<rparr>" by (auto simp: settles_def)
  let ?f = "\<lambda>x :: agent_tool_call. x\<lparr>t_status := st, t_error_code := err, t_output_summary := out\<rparr>"
    and ?c = "\<lambda>x. tool_call_id x = tool_call_id t"
  have a: "attempts rid key s' = upd_where ?c ?f (attempts rid key s)"
    unfolding attempts_def s' by simp (rule filter_upd_same, simp add: same_operation_settled)
  have m: "map tool_call_id (upd_where ?c ?f ts) = map tool_call_id ts" "map request_digest (upd_where ?c ?f ts) = map request_digest ts" for ts
    by (rule map_upd_where_cong, simp)+
  have "ids_ok s'" if "ids_ok s"
  proof -
    have k: "uuid_counter s' = uuid_counter s" "map tool_call_id (tool_calls s') = map tool_call_id (tool_calls s)" by (simp_all add: s' m)
    then have "tool_call_id ` set (tool_calls s') = tool_call_id ` set (tool_calls s)" by (metis list.set_map)
    with k show ?thesis using that unfolding ids_ok_def by (metis (no_types, opaque_lifting) imageE imageI)
  qed
  then show ?thesis using a m by (auto simp: set_upd_where)
qed simp

lemma settles_once:
  assumes "calm t p p'" "once rid key p" "committed t" "t \<in> set (attempts rid key (pb_db p))"
  shows "once rid key p'"
proof -
  obtain i where i: "\<And>x. x \<in> set (attempts rid key (pb_db p)) \<Longrightarrow> committed x \<Longrightarrow> tool_call_id x = i"
    using assms(2) unfolding once_def by blast
  have s: "settles t (pb_db p) (pb_db p')" and q: "pb_sent p' = pb_sent p" using assms(1) by (simp_all add: calm_def)
  note f = settles_attempts [OF s, of rid key]
  have "length (attempts rid key (pb_db p')) = length (attempts rid key (pb_db p))" using f by (metis length_map)
  moreover have "\<forall>x\<in>set (attempts rid key (pb_db p')). committed x \<longrightarrow> tool_call_id x = i" using f i assms(3,4) by metis
  moreover have "request_digest ` set (attempts rid key (pb_db p')) = request_digest ` set (attempts rid key (pb_db p))"
    using f by (metis list.set_map)
  ultimately show ?thesis using f assms(2) q unfolding once_def by (metis (no_types, opaque_lifting) imageE imageI)
qed

lemma publication_once_sent:
  "publish_playback_document gw cid a rid sn n doc key (Some t) tc = (res, lg) \<Longrightarrow> length (sent lg) \<le> 1"
  by (auto simp: publish_playback_document_def empty_log_def split: if_splits dest!: send_attempts_log elim!: gateway_call_cases)

text \<open>A new attempt is written only if no earlier one may have had an effect.\<close>

lemma publish_new_once:
  assumes run: "publish_new env r tc ref key doc p = (out, p')" and ok: "once (run_id r) key p"
    and none: "find_publish_attempt (run_id r) key (pb_db p) = None"
  shows "once (run_id r) key p'"
proof (cases "pe_audited env")
  case True
  let ?begun = "begin_publish (run_id r) (execution_attempt r) key key (pe_digest env doc) (pe_lease env) (pe_begin_at env) (pb_db p)"
  let ?q = "\<lparr>tr_run_id = run_id r, tr_execution_attempt = execution_attempt r, tr_step_id = ''publish_document'',
       tr_tool_name = ''memory.publish_playback_document'', tr_tool_version = Some ''1.0.0'',
       tr_transport = ''http_business_tool'', tr_logical_key = key, tr_idempotency_key = key, tr_digest = pe_digest env doc,
       tr_input_summary = [(''operation'', JStr ''publish_playback_document'')], tr_side_effect = True\<rparr>"
  have old: "\<And>x. x \<in> set (attempts (run_id r) key (pb_db p)) \<Longrightarrow> \<not> committed x"
    using none by (auto simp: find_publish_attempt_def sel_one_None_iff attempts_def)
  obtain x s where b: "begin_call ?q (pe_lease env) (pe_begin_at env) (pb_db p) = (x, s)" by fastforce
  then have bp: "?begun = (x, s)" by (simp add: begin_publish_def)
  show ?thesis
  proof (cases x)
    case (Inl e)
    with run True bp have "p' = put_db s p" by (simp add: publish_new_def)
    moreover have "tool_calls s = tool_calls (pb_db p) \<and> uuid_counter (pb_db p) \<le> uuid_counter s"
      using b Inl by (auto simp: begin_call_def frame_simps Let_def uuid4_def split: option.split_asm if_splits)
    ultimately show ?thesis using ok by (fastforce simp: once_def put_db_def attempts_def ids_ok_def)
  next
    case (Inr t)
    have t: "t = new_tool_call ?q (numeral_string (uuid_counter (pb_db p))) (int (length (attempts (run_id r) key (pb_db p))) + 1) (pe_begin_at env)"
      and s: "tool_calls s = tool_calls (pb_db p) @ [t]" "uuid_counter s = Suc (uuid_counter (pb_db p))"
      and same: "\<And>y. y \<in> set (attempts (run_id r) key (pb_db p)) \<Longrightarrow> request_digest y = Some (pe_digest env doc)"
      using b Inr by (auto simp: begin_call_def attempts_def Let_def uuid4_def list_ex_iff split: option.split_asm if_splits)
    have tt: "same_operation (run_id r) key t" "tool_call_id t = numeral_string (uuid_counter (pb_db p))" "request_digest t = Some (pe_digest env doc)"
      by (simp_all add: t new_tool_call_def same_operation_def)
    have att: "attempts (run_id r) key s = attempts (run_id r) key (pb_db p) @ [t]" using tt by (simp add: attempts_def s)
    have ids: "ids_ok s"
    proof -
      have "tool_call_id t \<notin> tool_call_id ` set (tool_calls (pb_db p))"
        using ok tt(2) by (auto simp: once_def ids_ok_def)
      then show ?thesis using ok tt(2) by (auto simp: once_def ids_ok_def s intro: less_SucI)
    qed
    obtain res lg where pub: "(case ref of (a, sn, n) \<Rightarrow>
        publish_playback_document (pe_publish env) (business_connector_id r) a (run_id r) sn n doc key (Some t) (JObj tc)) = (res, lg)" by fastforce
    then have one: "length (sent lg) \<le> 1" by (cases ref) (auto dest: publication_once_sent)
    let ?p1 = "(logged lg (put_db s p))\<lparr>pb_sent := pb_sent p @ sent lg\<rparr>"
    from run True bp Inr pub have fin: "settle_publication env r tc key (pe_digest env doc) t res ?p1 = (out, p')"
      by (simp add: publish_new_def Let_def)
    from settle_publication_calm [OF fin] have q: "pb_sent p' = pb_sent p @ sent lg" and set: "settles t s (pb_db p')"
      by (simp_all add: calm_def put_db_def)
    note f = settles_attempts [OF set, of "run_id r" key]
    have "length (attempts (run_id r) key (pb_db p')) = Suc (length (attempts (run_id r) key (pb_db p)))" using f att by (metis length_append_singleton length_map)
    then have "length (pb_sent p') \<le> length (attempts (run_id r) key (pb_db p'))" using ok one q by (auto simp: once_def)
    moreover have "\<forall>y\<in>set (attempts (run_id r) key (pb_db p')). committed y \<longrightarrow> tool_call_id y = tool_call_id t" using f att old by auto
    moreover have "\<forall>y\<in>set (attempts (run_id r) key (pb_db p')). request_digest y = Some (pe_digest env doc)"
    proof
      fix y
      assume "y \<in> set (attempts (run_id r) key (pb_db p'))"
      then have "request_digest y \<in> request_digest ` set (attempts (run_id r) key s)" using f by (metis imageI list.set_map)
      then show "request_digest y = Some (pe_digest env doc)" using att same tt(3) by auto
    qed
    ultimately show ?thesis using f ids unfolding once_def by blast
  qed
qed (use run ok in \<open>simp add: publish_new_def\<close>)

lemma publish_document_once:
  assumes run: "publish_document env r p = (out, p')" and ok: "once (run_id r) (publish_key (run_id r) n) p"
    and epoch: "dget (input_json r) ''generation_epoch'' = n"
  shows "once (run_id r) (publish_key (run_id r) n) p'"
proof (cases "p' = p")
  case False
  from run False obtain tc doc a sn m where parts: "build_tool_context r ''publish_document'' = Inr tc" "playback_document (pb_state p) = JObj doc"
    "memory_reference r = Some (a, sn, m)" by (auto simp: publish_document_def split: sum.split_asm json.split_asm option.split_asm)
  with epoch have m: "m = n" by (auto simp: memory_reference_def Let_def split: json.split_asm if_splits)
  let ?key = "publish_key (run_id r) n"
  show ?thesis
  proof (cases "if pe_audited env then find_publish_attempt (run_id r) ?key (pb_db p) else None")
    case None
    then have new: "publish_new env r tc (a, sn, n) ?key doc p = (out, p')" using run parts m by (simp add: publish_document_def Let_def)
    show ?thesis
    proof (cases "pe_audited env")
      case True
      with None publish_new_once [OF new ok] show ?thesis by simp
    qed (use new ok in \<open>simp add: publish_new_def\<close>)
  next
    case (Some t)
    then have "recover_published env r tc t p = (out, p')" using run parts m by (simp add: publish_document_def Let_def)
    from recover_calm [OF this] have "calm t p p'" .
    moreover have "find_publish_attempt (run_id r) ?key (pb_db p) = Some t" using Some by (simp split: if_splits)
    then have "t \<in> set (attempts (run_id r) ?key (pb_db p))" "committed t"
      by (auto simp: find_publish_attempt_def attempts_def dest!: sel_one_SomeD)
    ultimately show ?thesis using ok by (blast intro: settles_once)
  qed
qed (use ok in simp)

section \<open>Properties\<close>

text \<open>Executions of the node for one run: each has its own world, and the document may have been computed again.\<close>

type_synonym execution = "publish_env \<times> agent_run \<times> json"

definition publish_again :: "execution \<Rightarrow> publisher \<Rightarrow> publisher" where
  "publish_again x p = (case x of (env, r, doc) \<Rightarrow>
     snd (publish_document env r (p\<lparr>pb_state := (pb_state p)\<lparr>playback_document := doc\<rparr>\<rparr>)))"

lemma publish_again_once:
  "list_all (\<lambda>(env, r, doc). run_id r = rid \<and> dget (input_json r) ''generation_epoch'' = n) xs \<Longrightarrow>
     once rid (publish_key rid n) p \<Longrightarrow> once rid (publish_key rid n) (fold publish_again xs p)"
proof (induction xs arbitrary: p)
  case (Cons x xs)
  obtain env r doc where x: "x = (env, r, doc)" by (cases x)
  let ?p = "p\<lparr>pb_state := (pb_state p)\<lparr>playback_document := doc\<rparr>\<rparr>"
  have "once rid (publish_key rid n) ?p" using Cons.prems by (simp add: once_def)
  moreover obtain out p1 where "publish_document env r ?p = (out, p1)" by fastforce
  ultimately have "once rid (publish_key rid n) (publish_again x p)"
    using publish_document_once [of env r ?p out p1 n] Cons.prems x by (simp add: publish_again_def)
  with Cons show ?case by simp
qed simp




text \<open>All attempts of a run for an epoch are for the same document, failed ones included; the comment of
  \<open>find_publish_attempt\<close> says otherwise.\<close>

lemma attempts_one_document:
  assumes "list_all (\<lambda>(env, r, doc). run_id r = rid \<and> dget (input_json r) ''generation_epoch'' = n) xs"
    and "tool_calls (pb_db p) = []" "pb_sent p = []"
  shows "\<exists>dg. \<forall>t\<in>set (attempts rid (publish_key rid n) (pb_db (fold publish_again xs p))). request_digest t = Some dg"
proof -
  have "once rid (publish_key rid n) p" using assms(2,3) by (simp add: once_def ids_ok_def attempts_def)
  from publish_again_once [OF assms(1) this] show ?thesis unfolding once_def by blast
qed

text \<open>An attempt recorded as failed binds the run to its document all the same: another document is refused
  before anything is sent.\<close>

lemma failed_attempt_binds:
  assumes "pe_audited env" "x \<in> set (attempts (run_id r) key (pb_db p))" "request_digest x \<noteq> Some (pe_digest env doc)"
    and run: "publish_new env r tc ref key doc p = (out, p')"
  shows "(\<exists>e. out = Inl (PublishRaised (ValueError e))) \<and> pb_sent p' = pb_sent p"
proof -
  have "\<exists>e s. begin_publish (run_id r) (execution_attempt r) key key (pe_digest env doc) (pe_lease env) (pe_begin_at env) (pb_db p) =
      (Inl (ValueError e), s)"
    using assms(2,3) by (auto simp: begin_publish_def begin_call_def attempts_def list_ex_iff split: option.split)
  with run assms(1) show ?thesis by (auto simp: publish_new_def put_db_def)
qed

section \<open>The result\<close>

text \<open>The result that the business side gave for this execution of the node: its answer to the query about an earlier attempt, its
  answer to the publication, or, where it refused the publication as a conflict, its answer to the query if that is about the
  same document.\<close>

definition conflict :: "tool_exc + dict \<Rightarrow> bool" where
  "conflict res \<longleftrightarrow> (\<exists>again. res = Inl (ToolErrorRejected ''IDEMPOTENCY_CONFLICT'' again)) \<or> res = Inl (ToolHttpStatus 409)"

definition agreed :: "publish_env \<Rightarrow> agent_run \<Rightarrow> dict \<Rightarrow> string \<Rightarrow> string \<Rightarrow> tool_exc + dict \<Rightarrow> dict \<Rightarrow> bool" where
  "agreed env r tc key dg res out \<longleftrightarrow> res = Inr out \<or>
     conflict res \<and> fst (query_result env r (JStr key) tc) = Inr (Some out) \<and> dget out ''content_digest'' = JStr dg"

definition business_answer :: "publish_env \<Rightarrow> agent_run \<Rightarrow> dict \<Rightarrow> string \<times> string \<times> json \<Rightarrow> dict \<Rightarrow> db \<Rightarrow> dict \<Rightarrow> bool" where
  "business_answer env r tc ref doc s out =
     (case ref of (a, sn, n) \<Rightarrow>
        let key = publish_key (run_id r) n
        in case find_publish_attempt (run_id r) key s of
             Some t \<Rightarrow> fst (query_result env r (case t_idempotency_key t of None \<Rightarrow> JNull | Some k \<Rightarrow> JStr k) tc) = Inr (Some out)
           | None \<Rightarrow> (case fst (begin_publish (run_id r) (execution_attempt r) key key (pe_digest env doc) (pe_lease env) (pe_begin_at env) s) of
               Inl _ \<Rightarrow> False
             | Inr t \<Rightarrow> agreed env r tc key (pe_digest env doc)
                 (fst (publish_playback_document (pe_publish env) (business_connector_id r) a (run_id r) sn n doc key (Some t) (JObj tc))) out))"

definition recorded :: "publish_env \<Rightarrow> string \<Rightarrow> string \<Rightarrow> dict \<Rightarrow> publisher \<Rightarrow> bool" where
  "recorded env rid key out p \<longleftrightarrow> publish_result (pb_state p) = JObj out \<and>
     (\<exists>n t. int_of (dget out ''revision'') = Inr n \<and> t \<in> set (attempts rid key (pb_db p)) \<and> t_status t = ''succeeded'' \<and>
        t_output_summary t = JObj [(''revision'', JInt n), (''content_digest'', JStr (str_of env (dget out ''content_digest'')))])"

lemma succeed_records:
  assumes "succeed_call t (Inr n) (Some (str_of env (dget out ''content_digest''))) ctx now s = Inr (True, s')"
    "t \<in> set (attempts rid key s)" "int_of (dget out ''revision'') = Inr n"
  shows "recorded env rid key out (put_db s' (put_result (JObj out) p))"
proof -
  let ?f = "\<lambda>x :: agent_tool_call. x\<lparr>t_status := ''succeeded'', t_error_code := None,
     t_output_summary := JObj [(''revision'', JInt n), (''content_digest'', JStr (str_of env (dget out ''content_digest'')))]\<rparr>"
  have "s' = s\<lparr>tool_calls := upd_where (\<lambda>x. tool_call_id x = tool_call_id t) ?f (tool_calls s)\<rparr>"
    using assms(1) by (auto simp: succeed_call_def success_output_def persist_result_def split: if_splits)
  then have "?f t \<in> set (attempts rid key s')"
    using assms(2) by (auto simp: attempts_def set_upd_where same_operation_settled)
  with assms(3) show ?thesis unfolding recorded_def put_db_def put_result_def
    by - (rule conjI, simp, rule exI [of _ n], rule exI [of _ "?f t"], simp)
qed

lemma record_published_True:
  assumes "record_published env t out s = Inr (True, s')" "t \<in> set (attempts rid key s)"
  shows "recorded env rid key out (put_db s' (put_result (JObj out) p))"
proof -
  from assms(1) obtain n c v where i: "item out ''revision'' = Inr v" "int_of v = Inr n" "item out ''content_digest'' = Inr c"
    and r: "(case succeed_call t (Inr n) (Some (str_of env c)) (pe_lease env) (pe_settle_at env) s of
      Inl e \<Rightarrow> Inl (PublishRaised e) | Inr r \<Rightarrow> Inr r) = Inr (True, s')" unfolding record_published_def res_bind_eq_Inr by blast
  from r have "succeed_call t (Inr n) (Some (str_of env c)) (pe_lease env) (pe_settle_at env) s = Inr (True, s')"
    by (cases "succeed_call t (Inr n) (Some (str_of env c)) (pe_lease env) (pe_settle_at env) s") simp_all
  moreover have "int_of (dget out ''revision'') = Inr n" "c = dget out ''content_digest''" using i by (auto simp: item_def split: if_splits)
  ultimately show ?thesis using succeed_records assms(2) by blast
qed

lemma recover_recorded:
  assumes "recover_published env r tc t p = (Inr d, p')" "t \<in> set (attempts rid key (pb_db p))"
  shows "\<exists>out. fst (query_result env r (case t_idempotency_key t of None \<Rightarrow> JNull | Some k \<Rightarrow> JStr k) tc) = Inr (Some out) \<and>
    recorded env rid key out p'"
proof -
  let ?k = "case t_idempotency_key t of None \<Rightarrow> JNull | Some k \<Rightarrow> JStr k"
  from assms(1) obtain out s lg where "fst (query_result env r ?k tc) = Inr (Some out)" "record_published env t out (pb_db p) = Inr (True, s)"
    "p' = put_db s (put_result (JObj out) (logged lg p))"
    by (auto simp: recover_published_def Let_def put_result_def logged_def split: prod.split_asm sum.split_asm option.split_asm if_splits)
  with record_published_True assms(2) show ?thesis by auto
qed

lemma reconciled_recorded:
  assumes "settle_reconciled env t dg n out p = (Inr d, p')" "same_document dg x = Some (n, out)"
    "t \<in> set (attempts rid key (pb_db p))"
  shows "x = Some out \<and> dget out ''content_digest'' = JStr dg \<and> recorded env rid key out p'"
proof -
  from assms(1) obtain s where s: "succeed_call t (Inr n) (Some dg) (pe_lease env) (pe_settle_at env) (pb_db p) = Inr (True, s)"
    and p': "p' = put_db s (put_result (JObj out) p)"
    by (auto simp: settle_reconciled_def split: sum.split_asm prod.split_asm bool.split_asm)
  from assms(2) have x: "x = Some out" "dget out ''content_digest'' = JStr dg" "int_of (dget out ''revision'') = Inr n"
    by (auto simp: same_document_def split: option.split_asm if_splits json.split_asm)
  from s x(2) have "succeed_call t (Inr n) (Some (str_of env (dget out ''content_digest''))) (pe_lease env) (pe_settle_at env) (pb_db p) = Inr (True, s)"
    by (simp add: str_of_def)
  from succeed_records [OF this assms(3) x(3)] x p' show ?thesis by simp
qed

lemma rejected_recorded:
  assumes "publish_rejected env r tc key dg t code again p = (Inr d, p')" "t \<in> set (attempts rid k (pb_db p))"
  shows "\<exists>out. agreed env r tc key dg (Inl (ToolErrorRejected code again)) out \<and> recorded env rid k out p'"
proof -
  obtain res lg where q: "query_result env r (JStr key) tc = (res, lg)" by fastforce
  with assms(1) obtain x n out where c: "code = ''IDEMPOTENCY_CONFLICT''" "res = Inr x" "same_document dg x = Some (n, out)"
    and r: "settle_reconciled env t dg n out (logged lg p) = (Inr d, p')"
    by (auto simp: publish_rejected_def Let_def split: sum.split_asm tool_exc.split_asm option.split_asm if_splits)
  from reconciled_recorded [OF r c(3), of rid k] assms(2) q c show ?thesis by (auto simp: agreed_def conflict_def)
qed

lemma http_recorded:
  assumes "publish_http_status env r tc key dg t code p = (Inr d, p')" "t \<in> set (attempts rid k (pb_db p))"
  shows "\<exists>out. agreed env r tc key dg (Inl (ToolHttpStatus code)) out \<and> recorded env rid k out p'"
proof -
  obtain res lg where q: "query_result env r (JStr key) tc = (res, lg)" by fastforce
  with assms(1) obtain x n out where c: "code = 409" "res = Inr x" "same_document dg x = Some (n, out)"
    and r: "settle_reconciled env t dg n out (logged lg p) = (Inr d, p')"
    by (auto simp: publish_http_status_def Let_def split: sum.split_asm option.split_asm if_splits)
  from reconciled_recorded [OF r c(3), of rid k] assms(2) q c show ?thesis by (auto simp: agreed_def conflict_def)
qed

lemma settle_recorded:
  assumes "settle_publication env r tc key dg t res p = (Inr d, p')" "t \<in> set (attempts rid k (pb_db p))"
  shows "\<exists>out. agreed env r tc key dg res out \<and> recorded env rid k out p'"
proof (cases res)
  case (Inr out)
  with assms(1) obtain s where "record_published env t out (pb_db p) = Inr (True, s)" "p' = put_db s (put_result (JObj out) p)"
    by (auto simp: settle_publication_def split: sum.split_asm prod.split_asm bool.split_asm)
  with record_published_True assms(2) Inr show ?thesis by (auto simp: agreed_def)
next
  case (Inl e)
  with assms show ?thesis
    by (cases e) (auto simp: settle_publication_def dest: rejected_recorded http_recorded split: if_splits)
qed

text \<open>C40. When the publishing node returns, the result of the run is the object the business side answered with: to the query about
  an attempt that was open, to the publication itself, or, where it refused the publication as a conflict, to the query, and then
  with the digest of this document. One attempt of the run for this epoch is settled as successful, with the revision and the
  digest of that object.\<close>

theorem publication_recorded:
  assumes "publish_document env r p = (Inr d, p')"
  shows "\<exists>tc doc a sn n out. build_tool_context r ''publish_document'' = Inr tc \<and> playback_document (pb_state p) = JObj doc \<and>
    memory_reference r = Some (a, sn, n) \<and> business_answer env r tc (a, sn, n) doc (pb_db p) out \<and>
    recorded env (run_id r) (publish_key (run_id r) n) out p'"
proof -
  from assms obtain tc doc a sn n where parts: "build_tool_context r ''publish_document'' = Inr tc" "playback_document (pb_state p) = JObj doc"
    "memory_reference r = Some (a, sn, n)" by (auto simp: publish_document_def split: sum.split_asm json.split_asm option.split_asm)
  let ?key = "publish_key (run_id r) n"
  have aud: "pe_audited env"
    using assms parts by (auto simp: publish_document_def publish_new_def Let_def split: if_splits)
  have "\<exists>out. business_answer env r tc (a, sn, n) doc (pb_db p) out \<and> recorded env (run_id r) ?key out p'"
  proof (cases "find_publish_attempt (run_id r) ?key (pb_db p)")
    case (Some t)
    then have "t \<in> set (attempts (run_id r) ?key (pb_db p))"
      by (auto simp: find_publish_attempt_def attempts_def dest!: sel_one_SomeD)
    moreover have "recover_published env r tc t p = (Inr d, p')" using assms parts Some aud by (simp add: publish_document_def Let_def)
    ultimately show ?thesis using recover_recorded Some by (simp add: business_answer_def)
  next
    case None
    then have new: "publish_new env r tc (a, sn, n) ?key doc p = (Inr d, p')" using assms parts aud by (simp add: publish_document_def Let_def)
    then obtain t s where b: "begin_publish (run_id r) (execution_attempt r) ?key ?key (pe_digest env doc) (pe_lease env) (pe_begin_at env) (pb_db p)
        = (Inr t, s)" by (auto simp: publish_new_def split: if_splits prod.split_asm sum.split_asm)
    then have t: "t \<in> set (attempts (run_id r) ?key s)"
      by (auto simp: begin_publish_def begin_call_def attempts_def Let_def uuid4_def new_tool_call_def same_operation_def
          split: option.split_asm if_splits)
    obtain res lg where pub: "publish_playback_document (pe_publish env) (business_connector_id r) a (run_id r) sn n doc ?key (Some t) (JObj tc)
        = (res, lg)" by fastforce
    with new b have "settle_publication env r tc ?key (pe_digest env doc) t res ((logged lg (put_db s p))\<lparr>pb_sent := pb_sent p @ sent lg\<rparr>)
        = (Inr d, p')" by (simp add: publish_new_def Let_def split: if_splits)
    from settle_recorded [OF this] t have "\<exists>out. agreed env r tc ?key (pe_digest env doc) res out \<and> recorded env (run_id r) ?key out p'"
      by (simp add: put_db_def logged_def)
    with None b pub show ?thesis by (simp add: business_answer_def Let_def)
  qed
  with parts show ?thesis by blast
qed

section \<open>A timeout and its recovery\<close>

definition publish_run :: agent_run where
  "publish_run = demo_claimed\<lparr>agent_id := ''memoir_agent'', agent_version := ''1.0.8'', business_type := ''couple_memory'',
     input_json := demo_input\<rparr>"

definition answering_with :: "net_response \<Rightarrow> tool_gateway" where
  "answering_with x = demo_tools (demo_io\<lparr>tg_post := (\<lambda>_ _. x)\<rparr>)"

definition demo_digest :: string where
  "demo_digest = replicate 64 CHR ''a''"

definition publish_world :: "net_response \<Rightarrow> net_response \<Rightarrow> string \<Rightarrow> publish_env" where
  "publish_world x y dg = \<lparr>pe_publish = answering_with x, pe_query = answering_with y, pe_timed_out = True, pe_digest = (\<lambda>_. dg),
     pe_str = (\<lambda>_. []), pe_audited = True, pe_lease = Some demo_ctx, pe_begin_at = seconds 5, pe_settle_at = seconds 6\<rparr>"

definition found_result :: net_response where
  "found_result = NetResponse 200 (Some (JObj [(''output'', JObj [(''revision'', JInt 3), (''content_digest'', JStr demo_digest)])]))"

definition first_execution :: execution where
  "first_execution = (publish_world NetError NetError ''d1'', publish_run, JObj [])"


definition demo_publisher :: publisher where
  "demo_publisher = \<lparr>pb_state = new_state [] [] [], pb_db = demo_db demo_claimed, pb_sent = [], pb_rejections = []\<rparr>"



text \<open>The timed-out request of the first execution was received; the second execution asks for it and settles it.\<close>

definition found_output :: dict where
  "found_output = [(''revision'', JInt 3), (''content_digest'', JStr demo_digest)]"

theorem publication_recorded_witness:
  "\<exists>p'. publish_document (publish_world NetError found_result ''d2'') publish_run (publish_again first_execution demo_publisher) =
     (Inr published, p') \<and> recorded (publish_world NetError found_result ''d2'') ''0'' (publish_key ''0'' (JInt 1)) found_output p'"
proof -
  let ?w = "publish_world NetError found_result ''d2''" and ?p = "publish_again first_execution demo_publisher"
  have ran: "case publish_document ?w publish_run ?p of (Inr d, p') \<Rightarrow> d = published \<and> publish_result (pb_state p') = JObj found_output | _ \<Rightarrow> False"
    by code_simp
  then obtain p' where x: "publish_document ?w publish_run ?p = (Inr published, p')" "publish_result (pb_state p') = JObj found_output"
    by (cases "publish_document ?w publish_run ?p"; cases "fst (publish_document ?w publish_run ?p)") simp_all
  have "memory_reference publish_run = Some (''b'', ''s'', JInt 1)" "run_id publish_run = ''0''" by code_simp+
  with publication_recorded [OF x(1)] obtain out where "recorded ?w ''0'' (publish_key ''0'' (JInt 1)) out p'" by auto
  moreover from this x(2) have "out = found_output" by (simp add: recorded_def)
  ultimately show ?thesis using x(1) by blast
qed

end
