(* ===== verification/Spec2Isabelle.thy ===== *)
theory Spec2Isabelle
  imports System Memoir_Loop Memoir_Publish
begin

text \<open>
  A verification library for the agent runtime under \<open>app/\<close>: the service that accepts runs of agent
  packages over HTTP, queues them, executes them on Workers and reports their results by callbacks.
  This theory imports every other one; the properties stand in the theories of their components.

  \<^bold>\<open>The program.\<close> All processes share one relational database (\<open>app/models/runtime.py\<close>). The Run API
  (\<open>app/api/endpoints/agent_runs_api.py\<close> over \<open>app/services/agent_run_service.py\<close>) creates, starts,
  cancels, retries, approves and purges runs; admission buckets count them against quotas. A Worker
  (\<open>app/worker.py\<close>) dispatches outbox events (\<open>app/dispatcher.py\<close>), claims a run under a lease with a
  fencing token (\<open>app/services/lease_service.py\<close>), executes its frozen plan (\<open>app/runtime/executor.py\<close>)
  through the model and tool gateways, and settles it with a callback fact. The Reconciler
  (\<open>app/reconciler.py\<close> over \<open>app/services/reconciliation_service.py\<close>) repairs what crashed processes
  left behind. Packages are loaded and registered by \<open>app/scripts/register_agent_package.py\<close>.

  \<^bold>\<open>The theories, in order of import.\<close>

  \<^item> \<open>Runtime_Prelude\<close>: results, keyed rows, conditional updates, JSON values, times; \<open>Fenced_Lease\<close>: the
    contract of a lease with fencing tokens as a locale, interpreted by both leases.
  \<^item> \<open>Runtime_Model\<close>: the tables of \<open>app/models/runtime.py\<close> as records, the database \<open>db\<close> as the
    record of all tables, the enumerations of \<open>app/contracts/api.py\<close>.
  \<^item> \<open>Admission\<close> (\<open>admission_service.py\<close>), \<open>Outbox\<close> (\<open>outbox_service.py\<close>, \<open>public_trace_service.py\<close>,
    \<open>audit_service.py\<close>), \<open>Idempotency\<close> (\<open>idempotency_service.py\<close>), \<open>Authorization\<close>
    (\<open>core/authorization.py\<close>, \<open>core/connectors.py\<close>): the services every operation calls.
  \<^item> \<open>Planner\<close> (\<open>planner.py\<close>, \<open>graph_builder.py\<close>, node schemas of \<open>schemas/agent_package.py\<close>).
  \<^item> \<open>Run_Invariant\<close>: the well-formedness of the run ledger (\<open>inv_db\<close>), the order on runs (\<open>run_le\<close>)
    and \<open>sound\<close>, their conjunction, with the rules by which one table update keeps it.
  \<^item> \<open>Lease\<close>, \<open>Run_Service\<close>, \<open>Run_Api\<close>, \<open>Reconciliation_Lease\<close>, \<open>Reconciliation\<close>: the operations of
    the services named alike, each proved \<open>sound\<close>, with their functional properties.
  \<^item> \<open>Model_Usage\<close>, \<open>Policy_Engine\<close>: the ledger of model calls and the budget admission.
  \<^item> \<open>Agent_State\<close>, \<open>Bounded_Loop\<close>, \<open>Checkpoint_Store\<close> (\<open>checkpoint.py\<close>, \<open>artifact.py\<close>), \<open>Executor\<close>,
    \<open>Execution\<close> (a logic for parts of the executor), \<open>Step_History\<close>, \<open>Workflow_Runs\<close> (the properties
    of whole runs).
  \<^item> \<open>Callback_Delivery\<close>, \<open>Dispatch\<close>, \<open>Tool_Calls\<close>, \<open>Agent_Package\<close>, \<open>Worker\<close>, \<open>Reconciler\<close>,
    \<open>Service_Auth\<close> (\<open>core/security.py\<close>, \<open>core/tool_security.py\<close>), \<open>Native_Tools\<close> (\<open>native_tools.py\<close>,
    \<open>json_repair.py\<close>), \<open>Tool_Gateway\<close>.
  \<^item> \<open>Provider_Traffic\<close> (the permit script in Redis and \<open>ProviderTrafficController\<close>) and
    \<open>Model_Gateway\<close> (routes, logical policies, prompts, the provider adapter and \<open>ModelGateway\<close>), both of
    \<open>runtime/model_gateway.py\<close> with \<open>prompt_registry.py\<close>.
  \<^item> \<open>Playback_Checks\<close> (\<open>guardrails.py\<close>, \<open>semantic_validation.py\<close>, \<open>structured_output.py\<close>, \<open>evaluator.py\<close> and
    \<open>evaluation_service.py\<close>), \<open>Node_Context\<close> (\<open>context_manager.py\<close>, \<open>material_schema.py\<close>): the checks and
    contexts the nodes of an agent share.
  \<^item> \<open>Memoir_Materials\<close>, \<open>Memoir_Nodes\<close>, \<open>Memoir_Loop\<close>, \<open>Memoir_Publish\<close>: the agent of the memoir packages
    (\<open>agents/memoir_agent/runner.py\<close>): the view of the materials and the calls to the model, the nodes up to the
    reviewed document, the bounded loop with the repair of its gaps, the snapshot and the publication.
  \<^item> \<open>System\<close>: the runtime as a transition system whose steps are the transactions of its processes;
    every history keeps the ledger invariant and refines an abstract register per run.
  \<^item> \<open>Demo_State\<close>: a small concrete database on which the hypotheses of the properties are met.

  \<^bold>\<open>How code becomes definitions.\<close> A table is a list of records, a query a filter in the order of the
  statement, a conditional \<open>UPDATE\<close> is \<open>update_run\<close> with its \<open>WHERE\<close> clause as a predicate and its
  row count as an option. A service method is a function from its arguments, the time and the
  database to \<open>Inl\<close> of the raised exception or \<open>Inr\<close> of its result and the new database; a raise
  rolls the session back, so the state of an \<open>Inl\<close> is the state before the transaction. Definitions
  carry the names of the methods they translate.

  \<^bold>\<open>Abstractions.\<close> One clock reading per operation, in microseconds, as an argument. A session sees
  its own writes only, and transactions are serial: the statements whose row counts the code tests are
  modelled with the tests, the interleaving of transactions is the sequence of steps of \<open>System\<close>,
  and within the executor the \<open>world\<close> argument lets any other process act between two transactions.
  \<open>uuid4\<close> is a counter, so that fresh identifiers differ. Floats are exact rationals with the
  non-finite values as constructors. Columns filled by the server (surrogate keys, time stamps of
  \<open>TimestampMixin\<close>) and log lines are left out. Strings are lists of 8-bit characters. What is not
  code of this repository is an argument: the Fernet cipher, SHA-256, HMAC, the JSON, YAML, URL and
  address parsers, DNS, HTTP; so are the message texts of the tool
  gateway and the template texts of the memoir agent, which are not ASCII, the regular expressions of its
  redaction, and its media and audio services. The executor takes any runner; the runner of
  the memoir agent is modelled on its own, with the answers of the model as an argument (\<open>memoir_env\<close>), given by
  the number of the call. An argument is constrained only where a property names a hypothesis
  about it, and its witness instantiates it. Errors raised by a constructor of the tool gateway are
  raised by the call in the model. The Redis server runs a script as one step on its own clock; the
  fate of a call (run, lost before it, reply lost) is an argument. \<open>model_world\<close> holds the
  clock, the answers of the network and what other processes do to the database and to Redis between
  two steps of a model call.

  \<^bold>\<open>Loops and fuel.\<close> Recursions on lists are structural. The repetition of a step, the turns of a
  bounded loop and the walk over the plan take fuel; \<open>Workflow_Runs.consume_returns\<close> shows that fuel
  above the frozen retry limit, the loop limit and the plan length always gives a result. The retry
  of a lost reservation is bounded by two in the code and in the model, so are the attempts per route of
  a model call; its fallback chain ends because a route is visited once, which its termination proof uses. A Worker pass is one turn of
  the process loop; the endless loop of the Reconciler is a sequence of cycles.

  \<^bold>\<open>What the lemmas show.\<close> (1) \<open>sound\<close> for every operation, so the ledger invariant holds in every
  reachable state. (2) Exclusion: at most one Worker and one Reconciler act, a context that lost
  its lease never writes again, and expired leases and revoked packages end the way the reaper and the registry
  prescribe. (3) Privacy: a purge stops all work on a run for good and erases its
  payloads and no others. (4) Bounds: admission quotas, model budgets, retries, calls of a loop to its runner, provider
  rate limits across Workers, requests per route; a reserved model call is settled when the call returns (one that raises
  before it sends may leave its row reserved). (5) Delivery: a pass hands each due
  event to its handler once and the answer decides the row, only current callbacks leave the system, write requests are
  applied once. (6) Boundaries: signatures bind requests, model and tool requests and text results pass their gates,
  packages that load satisfy the rules of the format. (7) The memoir agent: what leaves the safety review is publishable
  and refers to materials of the run only, the loop hands the materials that fit a batch to the model in order and in
  bounds, the coverage node leaves no type of material out and adds only safe ones, a document is published once up to
  attempts recorded as failed, and the result is what the business side answered. (8) Several lemmas record behaviour that
  looks unintended or departs from a document (a cancelled run that is retried and stranded, a registration that undoes a
  revocation, a deprecated package that stops its runs, a material over the limit that is left out, and
  others); they state what the code does.

  \<^bold>\<open>Not modelled.\<close> The services, APIs, models and scripts of the memoir product (\<open>app/services/memoir\<close> and
  others): a client of the runtime with its own database and media providers. The adapter
  between the memoir runner and the model gateway (\<open>agents/memoir_agent/model_gateway.py\<close>). Configuration, logging,
  database bootstrap, command line tools, test harnesses and mock servers, cloud clients and the cache
  decorator: start-up and I/O without state of the runtime. The conversion of the deployment JSON of
  routes into route objects and the counters for operators are not modelled either.
\<close>

end
